(* ===== verification/Prelude.thy ===== *)
theory Prelude
  imports Main "HOL-Library.Word"
begin

text \<open>
  Shared vocabulary of the development: the machine types of the engine, its HRESULT codes,
  the outcome of a C++ call, the control-flow macros of \<^verbatim>\<open>Common.Headers/Macros.h\<close> as
  combinators, and little-endian access to byte buffers.

  A call that the model executes has one of four outcomes: it returns a success code with a
  value, it returns a failure code, it performs an access the language leaves undefined
  (a null or dangling pointer, a read outside the allocated buffer), or it does not return.
  State is threaded explicitly; a failing call keeps the changes it made before it failed,
  exactly as the code does.
\<close>

unbundle bit_operations_syntax

section \<open>Machine types and result codes\<close>

type_synonym byte = "8 word"
type_synonym USHORT = "16 word"
type_synonym DWORD = "32 word"
type_synonym ULONGLONG = "64 word"
type_synonym addr = nat
type_synonym mdToken = "32 word"

datatype hresult = S_OK | S_FALSE | E_FAIL | E_POINTER | E_UNEXPECTED | E_BOUNDS | E_INVALIDARG
  | E_NOTIMPL | E_OUTOFMEMORY | E_NOINTERFACE | META_E_BAD_SIGNATURE

datatype 'a result = Ok 'a | Fail hresult | Undef | Diverge

text \<open>Collections: definitions the component proofs unfold, and rules that invert a success.\<close>

named_theorems op_defs \<open>the control-flow combinators\<close>
named_theorems op_dests \<open>inversion of successful calls\<close>

section \<open>Calls without state\<close>

primrec bindR :: "'a result \<Rightarrow> ('a \<Rightarrow> 'b result) \<Rightarrow> 'b result" where
  "bindR (Ok x) k = k x"
| "bindR (Fail e) k = Fail e"
| "bindR Undef k = Undef"
| "bindR Diverge k = Diverge"

lemma bindR_Ok_iff: "bindR m k = Ok y \<longleftrightarrow> (\<exists>x. m = Ok x \<and> k x = Ok y)"
  by (cases m) auto

lemma bindR_cong [fundef_cong]:
  "m = m' \<Longrightarrow> (\<And>x. m' = Ok x \<Longrightarrow> k x = k' x) \<Longrightarrow> bindR m k = bindR m' k'"
  by (cases m') auto

lemma bindR_assoc: "bindR (bindR m f) g = bindR m (\<lambda>x. bindR (f x) g)"
  by (cases m) auto

text \<open>Reading through a pointer that the code assumes to be valid.\<close>

definition deref :: "'a option \<Rightarrow> 'a result" where
  "deref p = (case p of None \<Rightarrow> Undef | Some x \<Rightarrow> Ok x)"

lemma deref_simps [simp]: "deref None = Undef" "deref (Some x) = Ok x"
  by (simp_all add: deref_def)

lemma deref_Ok_iff [simp]: "deref p = Ok x \<longleftrightarrow> p = Some x"
  by (auto simp: deref_def split: option.splits)

section \<open>Calls with state\<close>

type_synonym ('s, 'a) op = "'s \<Rightarrow> 'a result \<times> 's"

definition ret :: "'a \<Rightarrow> ('s, 'a) op" where
  [op_defs]: "ret x s = (Ok x, s)"

definition fail :: "hresult \<Rightarrow> ('s, 'a) op" where
  [op_defs]: "fail e s = (Fail e, s)"

definition undef :: "('s, 'a) op" where
  [op_defs]: "undef s = (Undef, s)"

definition diverge :: "('s, 'a) op" where
  [op_defs]: "diverge s = (Diverge, s)"

definition gets :: "('s \<Rightarrow> 'a) \<Rightarrow> ('s, 'a) op" where
  [op_defs]: "gets f s = (Ok (f s), s)"

definition modify :: "('s \<Rightarrow> 's) \<Rightarrow> ('s, unit) op" where
  [op_defs]: "modify f s = (Ok (), f s)"

definition liftR :: "'a result \<Rightarrow> ('s, 'a) op" where
  [op_defs]: "liftR r s = (r, s)"

text \<open>\<^verbatim>\<open>IfFailRet(EXPR)\<close>: evaluate, and return the failure to the caller.\<close>

definition IfFailRet :: "('s, 'a) op \<Rightarrow> ('a \<Rightarrow> ('s, 'b) op) \<Rightarrow> ('s, 'b) op" where
  "IfFailRet m k s = (case m s of
       (Ok x, t) \<Rightarrow> k x t
     | (Fail e, t) \<Rightarrow> (Fail e, t)
     | (Undef, t) \<Rightarrow> (Undef, t)
     | (Diverge, t) \<Rightarrow> (Diverge, t))"

text \<open>A call whose HRESULT the code does not look at: a failure is not propagated.\<close>

definition Discard :: "('s, 'a) op \<Rightarrow> ('a option \<Rightarrow> ('s, 'b) op) \<Rightarrow> ('s, 'b) op" where
  "Discard m k s = (case m s of
       (Ok x, t) \<Rightarrow> k (Some x) t
     | (Fail e, t) \<Rightarrow> k None t
     | (Undef, t) \<Rightarrow> (Undef, t)
     | (Diverge, t) \<Rightarrow> (Diverge, t))"

text \<open>An out parameter initialised to \<open>d\<close> after such a call.\<close>

definition outParam :: "'a \<Rightarrow> 'a option \<Rightarrow> 'a" where
  [op_defs]: "outParam d r = (case r of None \<Rightarrow> d | Some x \<Rightarrow> x)"

definition IfFalseRet :: "bool \<Rightarrow> hresult \<Rightarrow> ('s, 'a) op \<Rightarrow> ('s, 'a) op" where
  [op_defs]: "IfFalseRet b e k = (if b then k else fail e)"

definition IfNullRetPointer :: "'p option \<Rightarrow> ('p \<Rightarrow> ('s, 'a) op) \<Rightarrow> ('s, 'a) op" where
  [op_defs]: "IfNullRetPointer p k = (case p of None \<Rightarrow> fail E_POINTER | Some a \<Rightarrow> k a)"

definition IfNullRet :: "'p option \<Rightarrow> ('p \<Rightarrow> ('s, 'a) op) \<Rightarrow> ('s, 'a) op" where
  [op_defs]: "IfNullRet p k = (case p of None \<Rightarrow> fail E_FAIL | Some a \<Rightarrow> k a)"

lemma IfFailRet_simps [simp]:
  "m s = (Ok x, t) \<Longrightarrow> IfFailRet m k s = k x t"
  "m s = (Fail e, t) \<Longrightarrow> IfFailRet m k s = (Fail e, t)"
  "m s = (Undef, t) \<Longrightarrow> IfFailRet m k s = (Undef, t)"
  "m s = (Diverge, t) \<Longrightarrow> IfFailRet m k s = (Diverge, t)"
  by (simp_all add: IfFailRet_def)

lemma Discard_simps [simp]:
  "m s = (Ok x, t) \<Longrightarrow> Discard m k s = k (Some x) t"
  "m s = (Fail e, t) \<Longrightarrow> Discard m k s = k None t"
  "m s = (Undef, t) \<Longrightarrow> Discard m k s = (Undef, t)"
  by (simp_all add: Discard_def)

lemma IfFailRet_prim [simp]:
  "IfFailRet (ret x) k s = k x s"
  "IfFailRet (gets f) k s = k (f s) s"
  "IfFailRet (modify h) k s = k () (h s)"
  "IfFailRet (fail e) k s = (Fail e, s)"
  by (simp_all add: op_defs)

lemma IfFailRet_Ok [op_dests]:
  assumes "IfFailRet m k s = (Ok y, t)"
  obtains x u where "m s = (Ok x, u)" "k x u = (Ok y, t)"
  using assms by (auto simp: IfFailRet_def split: prod.splits result.splits)

lemma IfFailRet_assoc: "IfFailRet (IfFailRet m f) g = IfFailRet m (\<lambda>x. IfFailRet (f x) g)"
  by (rule ext) (auto simp: IfFailRet_def split: prod.splits result.splits)

lemma IfFailRet_cong [fundef_cong]:
  assumes "m s = m' s" and "\<And>x t. m' s = (Ok x, t) \<Longrightarrow> k x t = k' x t"
  shows "IfFailRet m k s = IfFailRet m' k' s"
  using assms by (auto simp: IfFailRet_def split: prod.splits result.splits)

text \<open>A loop that calls \<open>f\<close> on each element and returns the first failure.\<close>

fun each :: "('a \<Rightarrow> ('w, unit) op) \<Rightarrow> 'a list \<Rightarrow> ('w, unit) op" where
  "each f [] = ret ()"
| "each f (y # ys) = IfFailRet (f y) (\<lambda>_. each f ys)"

section \<open>Little-endian byte buffers\<close>

primrec le_bytes :: "nat \<Rightarrow> 'a::len word \<Rightarrow> byte list" where
  "le_bytes 0 w = []"
| "le_bytes (Suc n) w = ucast w # le_bytes n (drop_bit 8 w)"

primrec le_word :: "byte list \<Rightarrow> 'a::len word" where
  "le_word [] = 0"
| "le_word (b # bs) = ucast b OR push_bit 8 (le_word bs)"

text \<open>An \<open>n\<close>-byte load at index \<open>i\<close> of the readable memory \<open>mem\<close>.\<close>

definition load_le :: "byte list \<Rightarrow> nat \<Rightarrow> nat \<Rightarrow> ('a::len word) result" where
  "load_le mem i n = (if i + n \<le> length mem then Ok (le_word (take n (drop i mem))) else Undef)"

text \<open>An \<open>n\<close>-byte store at index \<open>i\<close> of the buffer \<open>buf\<close>.\<close>

definition store_bytes :: "byte list \<Rightarrow> nat \<Rightarrow> byte list \<Rightarrow> byte list result" where
  "store_bytes buf i bs = (if i + length bs \<le> length buf
      then Ok (take i buf @ bs @ drop (i + length bs) buf) else Undef)"

text \<open>\<^verbatim>\<open>memcpy_s\<close> of \<open>n\<close> bytes from \<open>src\<close> to position \<open>p\<close> of the buffer.\<close>

definition copyBytes :: "byte list \<Rightarrow> nat \<Rightarrow> byte list \<Rightarrow> nat \<Rightarrow> byte list result" where
  "copyBytes buf p src n = (if n \<le> length src then store_bytes buf p (take n src) else Undef)"

lemma length_le_bytes [simp]: "length (le_bytes n w) = n"
  by (induction n arbitrary: w) auto

lemma le_bytes_nth: "i < n \<Longrightarrow> le_bytes n w ! i = ucast (drop_bit (8 * i) w)"
  by (induction n arbitrary: w i) (auto simp: nth_Cons drop_bit_drop_bit ac_simps split: nat.splits)

lemma bit_le_word:
  "bit (le_word bs :: 'a::len word) k \<longleftrightarrow>
     k < LENGTH('a) \<and> k div 8 < length bs \<and> bit (bs ! (k div 8)) (k mod 8)"
proof (induction bs arbitrary: k)
  case Nil
  then show ?case by simp
next
  case (Cons b bs)
  show ?case
  proof (cases "k < 8")
    case True
    then show ?thesis by (auto simp: bit_simps)
  next
    case False
    then have d: "k div 8 = Suc ((k - 8) div 8)" "(k - 8) mod 8 = k mod 8"
      by (simp_all add: le_div_geq le_mod_geq)
    have "\<not> bit b k" using False by (auto simp: bit_simps dest: bit_imp_le_length)
    with False show ?thesis by (auto simp: bit_simps Cons.IH d)
  qed
qed

lemma le_word_le_bytes: "le_word (le_bytes n w) = take_bit (8 * n) w"
proof (rule bit_word_eqI)
  fix k assume "k < LENGTH('a)"
  have e: "8 * (k div 8) + k mod 8 = k" by simp
  have "k div 8 < n \<longleftrightarrow> k < 8 * n" by (simp add: div_less_iff_less_mult mult.commute)
  then show "bit (le_word (le_bytes n w) :: 'a word) k = bit (take_bit (8 * n) w) k"
    by (auto simp: bit_le_word le_bytes_nth bit_simps e \<open>k < LENGTH('a)\<close>)
qed

lemma le_bytes_le_word:
  assumes "8 * length bs \<le> LENGTH('a::len)"
  shows "le_bytes (length bs) (le_word bs :: 'a word) = bs"
proof (rule nth_equalityI)
  fix i assume "i < length (le_bytes (length bs) (le_word bs :: 'a word))"
  then have i: "i < length bs" by simp
  show "le_bytes (length bs) (le_word bs :: 'a word) ! i = bs ! i"
  proof (rule bit_word_eqI)
    fix k assume "k < LENGTH(8)"
    then have k: "k < 8" by simp
    then have "8 * i + k < LENGTH('a)" using i assms by auto
    with k i show "bit (le_bytes (length bs) (le_word bs :: 'a word) ! i) k = bit (bs ! i) k"
      by (auto simp: le_bytes_nth bit_simps bit_le_word)
  qed
qed simp

lemma load_le_Ok:
  "load_le mem i n = Ok (w :: 'a::len word) \<longleftrightarrow>
     i + n \<le> length mem \<and> w = le_word (take n (drop i mem))"
  by (auto simp: load_le_def)

lemma le_bytes_load:
  assumes "load_le mem i n = Ok (w :: 'a::len word)" and "8 * n \<le> LENGTH('a)"
  shows "le_bytes n w = take n (drop i mem)"
proof -
  have n: "length (take n (drop i mem)) = n" and w: "w = le_word (take n (drop i mem))"
    using assms(1) by (auto simp: load_le_Ok)
  show ?thesis
    using le_bytes_le_word [where 'a = 'a, of "take n (drop i mem)"] assms(2) unfolding n w by blast
qed

lemma load_le_append:
  assumes "8 * n \<le> LENGTH('a::len)" and "length pre = i"
  shows "load_le (pre @ le_bytes n (w :: 'a word) @ post) i n = Ok (take_bit (8 * n) w)"
  using assms by (auto simp: load_le_Ok le_word_le_bytes)

lemma store_bytes_Ok:
  "store_bytes buf i bs = Ok buf' \<longleftrightarrow>
     i + length bs \<le> length buf \<and> buf' = take i buf @ bs @ drop (i + length bs) buf"
  by (auto simp: store_bytes_def)

lemma store_bytes_length: "store_bytes buf i bs = Ok buf' \<Longrightarrow> length buf' = length buf"
  by (auto simp: store_bytes_Ok)

section \<open>Bits of the masks\<close>

lemma small_word_bits:
  assumes "unat (w :: 'a::len word) < 2 ^ n" and "n \<le> k"
  shows "\<not> bit w k"
proof -
  have "take_bit n (unat w) = unat w" using assms(1) by (simp add: take_bit_nat_eq_self_iff)
  then have "\<not> bit (unat w) k" using assms(2) by (metis bit_take_bit_iff not_le)
  then show ?thesis by (simp add: bit_simps)
qed

lemma mask_bits:
  "bit (0x80 :: 32 word) n \<longleftrightarrow> n = 7"
  "bit (0xC0 :: 32 word) n \<longleftrightarrow> n = 7 \<or> n = 6"
  "bit (0xE0 :: 32 word) n \<longleftrightarrow> n = 7 \<or> n = 6 \<or> n = 5"
  "bit (0x3f :: 32 word) n \<longleftrightarrow> n < 6"
  "bit (0x1f :: 32 word) n \<longleftrightarrow> n < 5"
  "bit (0xff :: 32 word) n \<longleftrightarrow> n < 8"
  "bit (0x3 :: 32 word) n \<longleftrightarrow> n < 2"
  "bit (0x00ffffff :: 32 word) n \<longleftrightarrow> n < 24"
  "bit (0xff000000 :: 32 word) n \<longleftrightarrow> 24 \<le> n \<and> n < 32"
  "bit (0xffffffc0 :: 32 word) n \<longleftrightarrow> 6 \<le> n \<and> n < 32"
  "bit (0xffffe000 :: 32 word) n \<longleftrightarrow> 13 \<le> n \<and> n < 32"
  "bit (0xf0000000 :: 32 word) n \<longleftrightarrow> 28 \<le> n \<and> n < 32"
proof -
  have c: "(0x80 :: 32 word) = push_bit 7 1" "(0xC0 :: 32 word) = push_bit 6 (mask 2)"
    "(0xE0 :: 32 word) = push_bit 5 (mask 3)" "(0x3f :: 32 word) = mask 6"
    "(0x1f :: 32 word) = mask 5" "(0xff :: 32 word) = mask 8" "(0x3 :: 32 word) = mask 2"
    "(0x00ffffff :: 32 word) = mask 24" "(0xff000000 :: 32 word) = push_bit 24 (mask 8)"
    "(0xffffffc0 :: 32 word) = push_bit 6 (mask 26)"
    "(0xffffe000 :: 32 word) = push_bit 13 (mask 19)"
    "(0xf0000000 :: 32 word) = push_bit 28 (mask 4)"
    by (simp_all add: mask_eq_exp_minus_1)
  show "bit (0x80 :: 32 word) n \<longleftrightarrow> n = 7"
    "bit (0xC0 :: 32 word) n \<longleftrightarrow> n = 7 \<or> n = 6"
    "bit (0xE0 :: 32 word) n \<longleftrightarrow> n = 7 \<or> n = 6 \<or> n = 5"
    "bit (0x3f :: 32 word) n \<longleftrightarrow> n < 6"
    "bit (0x1f :: 32 word) n \<longleftrightarrow> n < 5"
    "bit (0xff :: 32 word) n \<longleftrightarrow> n < 8"
    "bit (0x3 :: 32 word) n \<longleftrightarrow> n < 2"
    "bit (0x00ffffff :: 32 word) n \<longleftrightarrow> n < 24"
    "bit (0xff000000 :: 32 word) n \<longleftrightarrow> 24 \<le> n \<and> n < 32"
    "bit (0xffffffc0 :: 32 word) n \<longleftrightarrow> 6 \<le> n \<and> n < 32"
    "bit (0xffffe000 :: 32 word) n \<longleftrightarrow> 13 \<le> n \<and> n < 32"
    "bit (0xf0000000 :: 32 word) n \<longleftrightarrow> 28 \<le> n \<and> n < 32"
    unfolding c by (auto simp only: bit_simps) auto
qed

end
