(* ===== verification/Opcodes.thy ===== *)
theory Opcodes
  imports Prelude
begin

text \<open>
  The opcode table of \<^verbatim>\<open>inc/clr/extra/ILOpcodes.h\<close>, row by row, as the static array
  \<^verbatim>\<open>CInstruction::s_ilOpcodeInfo\<close> built from it in
  \<^verbatim>\<open>InstrumentationEngine/Instruction.h\<close>, and the conversion between ordinals and
  opcode bytes.  An \<^verbatim>\<open>ILOrdinalOpcode\<close> is its ordinal; indexing the array outside its
  0x125 rows is \<^const>\<open>Undef\<close>.
\<close>

section \<open>Rows\<close>

datatype ILOperandType = ILOperandType_None | ILOperandType_Byte | ILOperandType_Int
  | ILOperandType_UShort | ILOperandType_Long | ILOperandType_Single | ILOperandType_Double
  | ILOperandType_Token | ILOperandType_Switch

type_synonym ILOrdinalOpcode = int

abbreviation (input) "ILOpcodeFlag_None \<equiv> (0 :: DWORD)"
abbreviation (input) "ILOpcodeFlag_Meta \<equiv> (1 :: DWORD)"
abbreviation (input) "ILOpcodeFlag_Unused \<equiv> (2 :: DWORD)"
abbreviation (input) "ILOpcodeFlag_Branch \<equiv> (4 :: DWORD)"

record ILOpcodeInfo =
  m_name :: string
  m_opcodeLength :: DWORD
  m_operandLength :: DWORD
  m_type :: ILOperandType
  m_alternate :: ILOrdinalOpcode
  m_flags :: DWORD
  m_popSlots :: DWORD
  m_pushSlots :: DWORD

text \<open>The \<^verbatim>\<open>OPDEF\<close> macro, with its casts of the lengths and slot counts to \<^verbatim>\<open>DWORD\<close>.
  The ordinal and the enumerator only name the row.\<close>

definition OPDEF :: "int \<Rightarrow> string \<Rightarrow> int \<Rightarrow> int \<Rightarrow> ILOperandType \<Rightarrow> ILOrdinalOpcode \<Rightarrow> DWORD
    \<Rightarrow> int \<Rightarrow> int \<Rightarrow> ILOpcodeInfo" where
  "OPDEF code name opcodeLen operandLen type alt flags pop push =
     \<lparr> m_name = name, m_opcodeLength = of_int opcodeLen, m_operandLength = of_int operandLen,
       m_type = type, m_alternate = alt, m_flags = flags,
       m_popSlots = of_int pop, m_pushSlots = of_int push \<rparr>"

abbreviation (input) "Pop0 \<equiv> (0 :: int)"
abbreviation (input) "Pop1 \<equiv> (1 :: int)"
abbreviation (input) "PopI \<equiv> (1 :: int)"
abbreviation (input) "PopI8 \<equiv> (1 :: int)"
abbreviation (input) "PopR4 \<equiv> (1 :: int)"
abbreviation (input) "PopR8 \<equiv> (1 :: int)"
abbreviation (input) "PopRef \<equiv> (1 :: int)"
abbreviation (input) "Push0 \<equiv> (0 :: int)"
abbreviation (input) "Push1 \<equiv> (1 :: int)"
abbreviation (input) "PushI \<equiv> (1 :: int)"
abbreviation (input) "PushI8 \<equiv> (1 :: int)"
abbreviation (input) "PushR4 \<equiv> (1 :: int)"
abbreviation (input) "PushR8 \<equiv> (1 :: int)"
abbreviation (input) "PushRef \<equiv> (1 :: int)"
abbreviation (input) "VarPop \<equiv> (- 1 :: int)"
abbreviation (input) "VarPush \<equiv> (- 1 :: int)"

section \<open>Ordinals\<close>

abbreviation (input) "Cee_Nop \<equiv> (0x000 :: int)"
abbreviation (input) "Cee_Break \<equiv> (0x001 :: int)"
abbreviation (input) "Cee_Ldarg_0 \<equiv> (0x002 :: int)"
abbreviation (input) "Cee_Ldarg_1 \<equiv> (0x003 :: int)"
abbreviation (input) "Cee_Ldarg_2 \<equiv> (0x004 :: int)"
abbreviation (input) "Cee_Ldarg_3 \<equiv> (0x005 :: int)"
abbreviation (input) "Cee_Ldloc_0 \<equiv> (0x006 :: int)"
abbreviation (input) "Cee_Ldloc_1 \<equiv> (0x007 :: int)"
abbreviation (input) "Cee_Ldloc_2 \<equiv> (0x008 :: int)"
abbreviation (input) "Cee_Ldloc_3 \<equiv> (0x009 :: int)"
abbreviation (input) "Cee_Stloc_0 \<equiv> (0x00A :: int)"
abbreviation (input) "Cee_Stloc_1 \<equiv> (0x00B :: int)"
abbreviation (input) "Cee_Stloc_2 \<equiv> (0x00C :: int)"
abbreviation (input) "Cee_Stloc_3 \<equiv> (0x00D :: int)"
abbreviation (input) "Cee_Ldarg_S \<equiv> (0x00E :: int)"
abbreviation (input) "Cee_Ldarga_S \<equiv> (0x00F :: int)"
abbreviation (input) "Cee_Starg_S \<equiv> (0x010 :: int)"
abbreviation (input) "Cee_Ldloc_S \<equiv> (0x011 :: int)"
abbreviation (input) "Cee_Ldloca_S \<equiv> (0x012 :: int)"
abbreviation (input) "Cee_Stloc_S \<equiv> (0x013 :: int)"
abbreviation (input) "Cee_Ldnull \<equiv> (0x014 :: int)"
abbreviation (input) "Cee_Ldc_I4_M1 \<equiv> (0x015 :: int)"
abbreviation (input) "Cee_Ldc_I4_0 \<equiv> (0x016 :: int)"
abbreviation (input) "Cee_Ldc_I4_1 \<equiv> (0x017 :: int)"
abbreviation (input) "Cee_Ldc_I4_2 \<equiv> (0x018 :: int)"
abbreviation (input) "Cee_Ldc_I4_3 \<equiv> (0x019 :: int)"
abbreviation (input) "Cee_Ldc_I4_4 \<equiv> (0x01A :: int)"
abbreviation (input) "Cee_Ldc_I4_5 \<equiv> (0x01B :: int)"
abbreviation (input) "Cee_Ldc_I4_6 \<equiv> (0x01C :: int)"
abbreviation (input) "Cee_Ldc_I4_7 \<equiv> (0x01D :: int)"
abbreviation (input) "Cee_Ldc_I4_8 \<equiv> (0x01E :: int)"
abbreviation (input) "Cee_Ldc_I4_S \<equiv> (0x01F :: int)"
abbreviation (input) "Cee_Ldc_I4 \<equiv> (0x020 :: int)"
abbreviation (input) "Cee_Ldc_I8 \<equiv> (0x021 :: int)"
abbreviation (input) "Cee_Ldc_R4 \<equiv> (0x022 :: int)"
abbreviation (input) "Cee_Ldc_R8 \<equiv> (0x023 :: int)"
abbreviation (input) "Cee_Unused49 \<equiv> (0x024 :: int)"
abbreviation (input) "Cee_Dup \<equiv> (0x025 :: int)"
abbreviation (input) "Cee_Pop \<equiv> (0x026 :: int)"
abbreviation (input) "Cee_Jmp \<equiv> (0x027 :: int)"
abbreviation (input) "Cee_Call \<equiv> (0x028 :: int)"
abbreviation (input) "Cee_Calli \<equiv> (0x029 :: int)"
abbreviation (input) "Cee_Ret \<equiv> (0x02A :: int)"
abbreviation (input) "Cee_Br_S \<equiv> (0x02B :: int)"
abbreviation (input) "Cee_Brfalse_S \<equiv> (0x02C :: int)"
abbreviation (input) "Cee_Brtrue_S \<equiv> (0x02D :: int)"
abbreviation (input) "Cee_Beq_S \<equiv> (0x02E :: int)"
abbreviation (input) "Cee_Bge_S \<equiv> (0x02F :: int)"
abbreviation (input) "Cee_Bgt_S \<equiv> (0x030 :: int)"
abbreviation (input) "Cee_Ble_S \<equiv> (0x031 :: int)"
abbreviation (input) "Cee_Blt_S \<equiv> (0x032 :: int)"
abbreviation (input) "Cee_Bne_Un_S \<equiv> (0x033 :: int)"
abbreviation (input) "Cee_Bge_Un_S \<equiv> (0x034 :: int)"
abbreviation (input) "Cee_Bgt_Un_S \<equiv> (0x035 :: int)"
abbreviation (input) "Cee_Ble_Un_S \<equiv> (0x036 :: int)"
abbreviation (input) "Cee_Blt_Un_S \<equiv> (0x037 :: int)"
abbreviation (input) "Cee_Br \<equiv> (0x038 :: int)"
abbreviation (input) "Cee_Brfalse \<equiv> (0x039 :: int)"
abbreviation (input) "Cee_Brtrue \<equiv> (0x03A :: int)"
abbreviation (input) "Cee_Beq \<equiv> (0x03B :: int)"
abbreviation (input) "Cee_Bge \<equiv> (0x03C :: int)"
abbreviation (input) "Cee_Bgt \<equiv> (0x03D :: int)"
abbreviation (input) "Cee_Ble \<equiv> (0x03E :: int)"
abbreviation (input) "Cee_Blt \<equiv> (0x03F :: int)"
abbreviation (input) "Cee_Bne_Un \<equiv> (0x040 :: int)"
abbreviation (input) "Cee_Bge_Un \<equiv> (0x041 :: int)"
abbreviation (input) "Cee_Bgt_Un \<equiv> (0x042 :: int)"
abbreviation (input) "Cee_Ble_Un \<equiv> (0x043 :: int)"
abbreviation (input) "Cee_Blt_Un \<equiv> (0x044 :: int)"
abbreviation (input) "Cee_Switch \<equiv> (0x045 :: int)"
abbreviation (input) "Cee_Ldind_I1 \<equiv> (0x046 :: int)"
abbreviation (input) "Cee_Ldind_U1 \<equiv> (0x047 :: int)"
abbreviation (input) "Cee_Ldind_I2 \<equiv> (0x048 :: int)"
abbreviation (input) "Cee_Ldind_U2 \<equiv> (0x049 :: int)"
abbreviation (input) "Cee_Ldind_I4 \<equiv> (0x04A :: int)"
abbreviation (input) "Cee_Ldind_U4 \<equiv> (0x04B :: int)"
abbreviation (input) "Cee_Ldind_I8 \<equiv> (0x04C :: int)"
abbreviation (input) "Cee_Ldind_I \<equiv> (0x04D :: int)"
abbreviation (input) "Cee_Ldind_R4 \<equiv> (0x04E :: int)"
abbreviation (input) "Cee_Ldind_R8 \<equiv> (0x04F :: int)"
abbreviation (input) "Cee_Ldind_Ref \<equiv> (0x050 :: int)"
abbreviation (input) "Cee_Stind_Ref \<equiv> (0x051 :: int)"
abbreviation (input) "Cee_Stind_I1 \<equiv> (0x052 :: int)"
abbreviation (input) "Cee_Stind_I2 \<equiv> (0x053 :: int)"
abbreviation (input) "Cee_Stind_I4 \<equiv> (0x054 :: int)"
abbreviation (input) "Cee_Stind_I8 \<equiv> (0x055 :: int)"
abbreviation (input) "Cee_Stind_R4 \<equiv> (0x056 :: int)"
abbreviation (input) "Cee_Stind_R8 \<equiv> (0x057 :: int)"
abbreviation (input) "Cee_Add \<equiv> (0x058 :: int)"
abbreviation (input) "Cee_Sub \<equiv> (0x059 :: int)"
abbreviation (input) "Cee_Mul \<equiv> (0x05A :: int)"
abbreviation (input) "Cee_Div \<equiv> (0x05B :: int)"
abbreviation (input) "Cee_Div_Un \<equiv> (0x05C :: int)"
abbreviation (input) "Cee_Rem \<equiv> (0x05D :: int)"
abbreviation (input) "Cee_Rem_Un \<equiv> (0x05E :: int)"
abbreviation (input) "Cee_And \<equiv> (0x05F :: int)"
abbreviation (input) "Cee_Or \<equiv> (0x060 :: int)"
abbreviation (input) "Cee_Xor \<equiv> (0x061 :: int)"
abbreviation (input) "Cee_Shl \<equiv> (0x062 :: int)"
abbreviation (input) "Cee_Shr \<equiv> (0x063 :: int)"
abbreviation (input) "Cee_Shr_Un \<equiv> (0x064 :: int)"
abbreviation (input) "Cee_Neg \<equiv> (0x065 :: int)"
abbreviation (input) "Cee_Not \<equiv> (0x066 :: int)"
abbreviation (input) "Cee_Conv_I1 \<equiv> (0x067 :: int)"
abbreviation (input) "Cee_Conv_I2 \<equiv> (0x068 :: int)"
abbreviation (input) "Cee_Conv_I4 \<equiv> (0x069 :: int)"
abbreviation (input) "Cee_Conv_I8 \<equiv> (0x06A :: int)"
abbreviation (input) "Cee_Conv_R4 \<equiv> (0x06B :: int)"
abbreviation (input) "Cee_Conv_R8 \<equiv> (0x06C :: int)"
abbreviation (input) "Cee_Conv_U4 \<equiv> (0x06D :: int)"
abbreviation (input) "Cee_Conv_U8 \<equiv> (0x06E :: int)"
abbreviation (input) "Cee_Callvirt \<equiv> (0x06F :: int)"
abbreviation (input) "Cee_Cpobj \<equiv> (0x070 :: int)"
abbreviation (input) "Cee_Ldobj \<equiv> (0x071 :: int)"
abbreviation (input) "Cee_Ldstr \<equiv> (0x072 :: int)"
abbreviation (input) "Cee_Newobj \<equiv> (0x073 :: int)"
abbreviation (input) "Cee_Castclass \<equiv> (0x074 :: int)"
abbreviation (input) "Cee_Isinst \<equiv> (0x075 :: int)"
abbreviation (input) "Cee_Conv_R_Un \<equiv> (0x076 :: int)"
abbreviation (input) "Cee_Unused58 \<equiv> (0x077 :: int)"
abbreviation (input) "Cee_Unused1 \<equiv> (0x078 :: int)"
abbreviation (input) "Cee_Unbox \<equiv> (0x079 :: int)"
abbreviation (input) "Cee_Throw \<equiv> (0x07A :: int)"
abbreviation (input) "Cee_Ldfld \<equiv> (0x07B :: int)"
abbreviation (input) "Cee_Ldflda \<equiv> (0x07C :: int)"
abbreviation (input) "Cee_Stfld \<equiv> (0x07D :: int)"
abbreviation (input) "Cee_Ldsfld \<equiv> (0x07E :: int)"
abbreviation (input) "Cee_Ldsflda \<equiv> (0x07F :: int)"
abbreviation (input) "Cee_Stsfld \<equiv> (0x080 :: int)"
abbreviation (input) "Cee_Stobj \<equiv> (0x081 :: int)"
abbreviation (input) "Cee_Conv_Ovf_I1_Un \<equiv> (0x082 :: int)"
abbreviation (input) "Cee_Conv_Ovf_I2_Un \<equiv> (0x083 :: int)"
abbreviation (input) "Cee_Conv_Ovf_I4_Un \<equiv> (0x084 :: int)"
abbreviation (input) "Cee_Conv_Ovf_I8_Un \<equiv> (0x085 :: int)"
abbreviation (input) "Cee_Conv_Ovf_U1_Un \<equiv> (0x086 :: int)"
abbreviation (input) "Cee_Conv_Ovf_U2_Un \<equiv> (0x087 :: int)"
abbreviation (input) "Cee_Conv_Ovf_U4_Un \<equiv> (0x088 :: int)"
abbreviation (input) "Cee_Conv_Ovf_U8_Un \<equiv> (0x089 :: int)"
abbreviation (input) "Cee_Conv_Ovf_I_Un \<equiv> (0x08A :: int)"
abbreviation (input) "Cee_Conv_Ovf_U_Un \<equiv> (0x08B :: int)"
abbreviation (input) "Cee_Box \<equiv> (0x08C :: int)"
abbreviation (input) "Cee_Newarr \<equiv> (0x08D :: int)"
abbreviation (input) "Cee_Ldlen \<equiv> (0x08E :: int)"
abbreviation (input) "Cee_Ldelema \<equiv> (0x08F :: int)"
abbreviation (input) "Cee_Ldelem_I1 \<equiv> (0x090 :: int)"
abbreviation (input) "Cee_Ldelem_U1 \<equiv> (0x091 :: int)"
abbreviation (input) "Cee_Ldelem_I2 \<equiv> (0x092 :: int)"
abbreviation (input) "Cee_Ldelem_U2 \<equiv> (0x093 :: int)"
abbreviation (input) "Cee_Ldelem_I4 \<equiv> (0x094 :: int)"
abbreviation (input) "Cee_Ldelem_U4 \<equiv> (0x095 :: int)"
abbreviation (input) "Cee_Ldelem_I8 \<equiv> (0x096 :: int)"
abbreviation (input) "Cee_Ldelem_I \<equiv> (0x097 :: int)"
abbreviation (input) "Cee_Ldelem_R4 \<equiv> (0x098 :: int)"
abbreviation (input) "Cee_Ldelem_R8 \<equiv> (0x099 :: int)"
abbreviation (input) "Cee_Ldelem_Ref \<equiv> (0x09A :: int)"
abbreviation (input) "Cee_Stelem_I \<equiv> (0x09B :: int)"
abbreviation (input) "Cee_Stelem_I1 \<equiv> (0x09C :: int)"
abbreviation (input) "Cee_Stelem_I2 \<equiv> (0x09D :: int)"
abbreviation (input) "Cee_Stelem_I4 \<equiv> (0x09E :: int)"
abbreviation (input) "Cee_Stelem_I8 \<equiv> (0x09F :: int)"
abbreviation (input) "Cee_Stelem_R4 \<equiv> (0x0A0 :: int)"
abbreviation (input) "Cee_Stelem_R8 \<equiv> (0x0A1 :: int)"
abbreviation (input) "Cee_Stelem_Ref \<equiv> (0x0A2 :: int)"
abbreviation (input) "Cee_Ldelem \<equiv> (0x0A3 :: int)"
abbreviation (input) "Cee_Stelem \<equiv> (0x0A4 :: int)"
abbreviation (input) "Cee_Unbox_Any \<equiv> (0x0A5 :: int)"
abbreviation (input) "Cee_Unused5 \<equiv> (0x0A6 :: int)"
abbreviation (input) "Cee_Unused6 \<equiv> (0x0A7 :: int)"
abbreviation (input) "Cee_Unused7 \<equiv> (0x0A8 :: int)"
abbreviation (input) "Cee_Unused8 \<equiv> (0x0A9 :: int)"
abbreviation (input) "Cee_Unused9 \<equiv> (0x0AA :: int)"
abbreviation (input) "Cee_Unused10 \<equiv> (0x0AB :: int)"
abbreviation (input) "Cee_Unused11 \<equiv> (0x0AC :: int)"
abbreviation (input) "Cee_Unused12 \<equiv> (0x0AD :: int)"
abbreviation (input) "Cee_Unused13 \<equiv> (0x0AE :: int)"
abbreviation (input) "Cee_Unused14 \<equiv> (0x0AF :: int)"
abbreviation (input) "Cee_Unused15 \<equiv> (0x0B0 :: int)"
abbreviation (input) "Cee_Unused16 \<equiv> (0x0B1 :: int)"
abbreviation (input) "Cee_Unused17 \<equiv> (0x0B2 :: int)"
abbreviation (input) "Cee_Conv_Ovf_I1 \<equiv> (0x0B3 :: int)"
abbreviation (input) "Cee_Conv_Ovf_U1 \<equiv> (0x0B4 :: int)"
abbreviation (input) "Cee_Conv_Ovf_I2 \<equiv> (0x0B5 :: int)"
abbreviation (input) "Cee_Conv_Ovf_U2 \<equiv> (0x0B6 :: int)"
abbreviation (input) "Cee_Conv_Ovf_I4 \<equiv> (0x0B7 :: int)"
abbreviation (input) "Cee_Conv_Ovf_U4 \<equiv> (0x0B8 :: int)"
abbreviation (input) "Cee_Conv_Ovf_I8 \<equiv> (0x0B9 :: int)"
abbreviation (input) "Cee_Conv_Ovf_U8 \<equiv> (0x0BA :: int)"
abbreviation (input) "Cee_Unused50 \<equiv> (0x0BB :: int)"
abbreviation (input) "Cee_Unused18 \<equiv> (0x0BC :: int)"
abbreviation (input) "Cee_Unused19 \<equiv> (0x0BD :: int)"
abbreviation (input) "Cee_Unused20 \<equiv> (0x0BE :: int)"
abbreviation (input) "Cee_Unused21 \<equiv> (0x0BF :: int)"
abbreviation (input) "Cee_Unused22 \<equiv> (0x0C0 :: int)"
abbreviation (input) "Cee_Unused23 \<equiv> (0x0C1 :: int)"
abbreviation (input) "Cee_Refanyval \<equiv> (0x0C2 :: int)"
abbreviation (input) "Cee_Ckfinite \<equiv> (0x0C3 :: int)"
abbreviation (input) "Cee_Unused24 \<equiv> (0x0C4 :: int)"
abbreviation (input) "Cee_Unused25 \<equiv> (0x0C5 :: int)"
abbreviation (input) "Cee_Mkrefany \<equiv> (0x0C6 :: int)"
abbreviation (input) "Cee_Unused59 \<equiv> (0x0C7 :: int)"
abbreviation (input) "Cee_Unused60 \<equiv> (0x0C8 :: int)"
abbreviation (input) "Cee_Unused61 \<equiv> (0x0C9 :: int)"
abbreviation (input) "Cee_Unused62 \<equiv> (0x0CA :: int)"
abbreviation (input) "Cee_Unused63 \<equiv> (0x0CB :: int)"
abbreviation (input) "Cee_Unused64 \<equiv> (0x0CC :: int)"
abbreviation (input) "Cee_Unused65 \<equiv> (0x0CD :: int)"
abbreviation (input) "Cee_Unused66 \<equiv> (0x0CE :: int)"
abbreviation (input) "Cee_Unused67 \<equiv> (0x0CF :: int)"
abbreviation (input) "Cee_Ldtoken \<equiv> (0x0D0 :: int)"
abbreviation (input) "Cee_Conv_U2 \<equiv> (0x0D1 :: int)"
abbreviation (input) "Cee_Conv_U1 \<equiv> (0x0D2 :: int)"
abbreviation (input) "Cee_Conv_I \<equiv> (0x0D3 :: int)"
abbreviation (input) "Cee_Conv_Ovf_I \<equiv> (0x0D4 :: int)"
abbreviation (input) "Cee_Conv_Ovf_U \<equiv> (0x0D5 :: int)"
abbreviation (input) "Cee_Add_Ovf \<equiv> (0x0D6 :: int)"
abbreviation (input) "Cee_Add_Ovf_Un \<equiv> (0x0D7 :: int)"
abbreviation (input) "Cee_Mul_Ovf \<equiv> (0x0D8 :: int)"
abbreviation (input) "Cee_Mul_Ovf_Un \<equiv> (0x0D9 :: int)"
abbreviation (input) "Cee_Sub_Ovf \<equiv> (0x0DA :: int)"
abbreviation (input) "Cee_Sub_Ovf_Un \<equiv> (0x0DB :: int)"
abbreviation (input) "Cee_Endfinally \<equiv> (0x0DC :: int)"
abbreviation (input) "Cee_Leave \<equiv> (0x0DD :: int)"
abbreviation (input) "Cee_Leave_S \<equiv> (0x0DE :: int)"
abbreviation (input) "Cee_Stind_I \<equiv> (0x0DF :: int)"
abbreviation (input) "Cee_Conv_U \<equiv> (0x0E0 :: int)"
abbreviation (input) "Cee_Unused26 \<equiv> (0x0E1 :: int)"
abbreviation (input) "Cee_Unused27 \<equiv> (0x0E2 :: int)"
abbreviation (input) "Cee_Unused28 \<equiv> (0x0E3 :: int)"
abbreviation (input) "Cee_Unused29 \<equiv> (0x0E4 :: int)"
abbreviation (input) "Cee_Unused30 \<equiv> (0x0E5 :: int)"
abbreviation (input) "Cee_Unused31 \<equiv> (0x0E6 :: int)"
abbreviation (input) "Cee_Unused32 \<equiv> (0x0E7 :: int)"
abbreviation (input) "Cee_Unused33 \<equiv> (0x0E8 :: int)"
abbreviation (input) "Cee_Unused34 \<equiv> (0x0E9 :: int)"
abbreviation (input) "Cee_Unused35 \<equiv> (0x0EA :: int)"
abbreviation (input) "Cee_Unused36 \<equiv> (0x0EB :: int)"
abbreviation (input) "Cee_Unused37 \<equiv> (0x0EC :: int)"
abbreviation (input) "Cee_Unused38 \<equiv> (0x0ED :: int)"
abbreviation (input) "Cee_Unused39 \<equiv> (0x0EE :: int)"
abbreviation (input) "Cee_Unused40 \<equiv> (0x0EF :: int)"
abbreviation (input) "Cee_Unused41 \<equiv> (0x0F0 :: int)"
abbreviation (input) "Cee_Unused42 \<equiv> (0x0F1 :: int)"
abbreviation (input) "Cee_Unused43 \<equiv> (0x0F2 :: int)"
abbreviation (input) "Cee_Unused44 \<equiv> (0x0F3 :: int)"
abbreviation (input) "Cee_Unused45 \<equiv> (0x0F4 :: int)"
abbreviation (input) "Cee_Unused46 \<equiv> (0x0F5 :: int)"
abbreviation (input) "Cee_Unused47 \<equiv> (0x0F6 :: int)"
abbreviation (input) "Cee_Unused48 \<equiv> (0x0F7 :: int)"
abbreviation (input) "Cee_Prefix7 \<equiv> (0x0F8 :: int)"
abbreviation (input) "Cee_Prefix6 \<equiv> (0x0F9 :: int)"
abbreviation (input) "Cee_Prefix5 \<equiv> (0x0FA :: int)"
abbreviation (input) "Cee_Prefix4 \<equiv> (0x0FB :: int)"
abbreviation (input) "Cee_Prefix3 \<equiv> (0x0FC :: int)"
abbreviation (input) "Cee_Prefix2 \<equiv> (0x0FD :: int)"
abbreviation (input) "Cee_Prefix1 \<equiv> (0x0FE :: int)"
abbreviation (input) "Cee_Prefixref \<equiv> (0x0FF :: int)"
abbreviation (input) "Cee_Arglist \<equiv> (0x100 :: int)"
abbreviation (input) "Cee_Ceq \<equiv> (0x101 :: int)"
abbreviation (input) "Cee_Cgt \<equiv> (0x102 :: int)"
abbreviation (input) "Cee_Cgt_Un \<equiv> (0x103 :: int)"
abbreviation (input) "Cee_Clt \<equiv> (0x104 :: int)"
abbreviation (input) "Cee_Clt_Un \<equiv> (0x105 :: int)"
abbreviation (input) "Cee_Ldftn \<equiv> (0x106 :: int)"
abbreviation (input) "Cee_Ldvirtftn \<equiv> (0x107 :: int)"
abbreviation (input) "Cee_Unused56 \<equiv> (0x108 :: int)"
abbreviation (input) "Cee_Ldarg \<equiv> (0x109 :: int)"
abbreviation (input) "Cee_Ldarga \<equiv> (0x10A :: int)"
abbreviation (input) "Cee_Starg \<equiv> (0x10B :: int)"
abbreviation (input) "Cee_Ldloc \<equiv> (0x10C :: int)"
abbreviation (input) "Cee_Ldloca \<equiv> (0x10D :: int)"
abbreviation (input) "Cee_Stloc \<equiv> (0x10E :: int)"
abbreviation (input) "Cee_Localloc \<equiv> (0x10F :: int)"
abbreviation (input) "Cee_Unused57 \<equiv> (0x110 :: int)"
abbreviation (input) "Cee_Endfilter \<equiv> (0x111 :: int)"
abbreviation (input) "Cee_Unaligned \<equiv> (0x112 :: int)"
abbreviation (input) "Cee_Volatile \<equiv> (0x113 :: int)"
abbreviation (input) "Cee_Tailcall \<equiv> (0x114 :: int)"
abbreviation (input) "Cee_Initobj \<equiv> (0x115 :: int)"
abbreviation (input) "Cee_Constrained \<equiv> (0x116 :: int)"
abbreviation (input) "Cee_Cpblk \<equiv> (0x117 :: int)"
abbreviation (input) "Cee_Initblk \<equiv> (0x118 :: int)"
abbreviation (input) "Cee_Unused69 \<equiv> (0x119 :: int)"
abbreviation (input) "Cee_Rethrow \<equiv> (0x11A :: int)"
abbreviation (input) "Cee_Unused51 \<equiv> (0x11B :: int)"
abbreviation (input) "Cee_Sizeof \<equiv> (0x11C :: int)"
abbreviation (input) "Cee_Refanytype \<equiv> (0x11D :: int)"
abbreviation (input) "Cee_Readonly \<equiv> (0x11E :: int)"
abbreviation (input) "Cee_Unused53 \<equiv> (0x11F :: int)"
abbreviation (input) "Cee_Unused54 \<equiv> (0x120 :: int)"
abbreviation (input) "Cee_Unused55 \<equiv> (0x121 :: int)"
abbreviation (input) "Cee_Unused70 \<equiv> (0x122 :: int)"
abbreviation (input) "Cee_Count \<equiv> (0x123 :: int)"
abbreviation (input) "Cee_Invalid \<equiv> (0xFFFF :: int)"

section \<open>The table\<close>

definition ilOpcodes_00 :: "ILOpcodeInfo list" where
  "ilOpcodes_00 = [
    OPDEF Cee_Nop ''nop'' 1 0 ILOperandType_None Cee_Invalid ILOpcodeFlag_None Pop0 Push0,
    OPDEF Cee_Break ''break'' 1 0 ILOperandType_None Cee_Invalid ILOpcodeFlag_None Pop0 Push0,
    OPDEF Cee_Ldarg_0 ''ldarg.0'' 1 0 ILOperandType_None Cee_Invalid ILOpcodeFlag_None Pop0 Push1,
    OPDEF Cee_Ldarg_1 ''ldarg.1'' 1 0 ILOperandType_None Cee_Invalid ILOpcodeFlag_None Pop0 Push1,
    OPDEF Cee_Ldarg_2 ''ldarg.2'' 1 0 ILOperandType_None Cee_Invalid ILOpcodeFlag_None Pop0 Push1,
    OPDEF Cee_Ldarg_3 ''ldarg.3'' 1 0 ILOperandType_None Cee_Invalid ILOpcodeFlag_None Pop0 Push1,
    OPDEF Cee_Ldloc_0 ''ldloc.0'' 1 0 ILOperandType_None Cee_Invalid ILOpcodeFlag_None Pop0 Push1,
    OPDEF Cee_Ldloc_1 ''ldloc.1'' 1 0 ILOperandType_None Cee_Invalid ILOpcodeFlag_None Pop0 Push1,
    OPDEF Cee_Ldloc_2 ''ldloc.2'' 1 0 ILOperandType_None Cee_Invalid ILOpcodeFlag_None Pop0 Push1,
    OPDEF Cee_Ldloc_3 ''ldloc.3'' 1 0 ILOperandType_None Cee_Invalid ILOpcodeFlag_None Pop0 Push1,
    OPDEF Cee_Stloc_0 ''stloc.0'' 1 0 ILOperandType_None Cee_Invalid ILOpcodeFlag_None Pop1 Push0,
    OPDEF Cee_Stloc_1 ''stloc.1'' 1 0 ILOperandType_None Cee_Invalid ILOpcodeFlag_None Pop1 Push0,
    OPDEF Cee_Stloc_2 ''stloc.2'' 1 0 ILOperandType_None Cee_Invalid ILOpcodeFlag_None Pop1 Push0,
    OPDEF Cee_Stloc_3 ''stloc.3'' 1 0 ILOperandType_None Cee_Invalid ILOpcodeFlag_None Pop1 Push0,
    OPDEF Cee_Ldarg_S ''ldarg.s'' 1 1 ILOperandType_Byte Cee_Ldarg ILOpcodeFlag_None Pop0 Push1,
    OPDEF Cee_Ldarga_S ''ldarga.s'' 1 1 ILOperandType_Byte Cee_Ldarga ILOpcodeFlag_None Pop0 PushI]"

definition ilOpcodes_10 :: "ILOpcodeInfo list" where
  "ilOpcodes_10 = [
    OPDEF Cee_Starg_S ''starg.s'' 1 1 ILOperandType_Byte Cee_Starg ILOpcodeFlag_None Pop1 Push0,
    OPDEF Cee_Ldloc_S ''ldloc.s'' 1 1 ILOperandType_Byte Cee_Ldloc ILOpcodeFlag_None Pop0 Push1,
    OPDEF Cee_Ldloca_S ''ldloca.s'' 1 1 ILOperandType_Byte Cee_Ldloca ILOpcodeFlag_None Pop0 PushI,
    OPDEF Cee_Stloc_S ''stloc.s'' 1 1 ILOperandType_Byte Cee_Stloc ILOpcodeFlag_None Pop1 Push0,
    OPDEF Cee_Ldnull ''ldnull'' 1 0 ILOperandType_None Cee_Invalid ILOpcodeFlag_None Pop0 PushRef,
    OPDEF Cee_Ldc_I4_M1 ''ldc.i4.m1'' 1 0 ILOperandType_None Cee_Invalid ILOpcodeFlag_None Pop0 PushI,
    OPDEF Cee_Ldc_I4_0 ''ldc.i4.0'' 1 0 ILOperandType_None Cee_Invalid ILOpcodeFlag_None Pop0 PushI,
    OPDEF Cee_Ldc_I4_1 ''ldc.i4.1'' 1 0 ILOperandType_None Cee_Invalid ILOpcodeFlag_None Pop0 PushI,
    OPDEF Cee_Ldc_I4_2 ''ldc.i4.2'' 1 0 ILOperandType_None Cee_Invalid ILOpcodeFlag_None Pop0 PushI,
    OPDEF Cee_Ldc_I4_3 ''ldc.i4.3'' 1 0 ILOperandType_None Cee_Invalid ILOpcodeFlag_None Pop0 PushI,
    OPDEF Cee_Ldc_I4_4 ''ldc.i4.4'' 1 0 ILOperandType_None Cee_Invalid ILOpcodeFlag_None Pop0 PushI,
    OPDEF Cee_Ldc_I4_5 ''ldc.i4.5'' 1 0 ILOperandType_None Cee_Invalid ILOpcodeFlag_None Pop0 PushI,
    OPDEF Cee_Ldc_I4_6 ''ldc.i4.6'' 1 0 ILOperandType_None Cee_Invalid ILOpcodeFlag_None Pop0 PushI,
    OPDEF Cee_Ldc_I4_7 ''ldc.i4.7'' 1 0 ILOperandType_None Cee_Invalid ILOpcodeFlag_None Pop0 PushI,
    OPDEF Cee_Ldc_I4_8 ''ldc.i4.8'' 1 0 ILOperandType_None Cee_Invalid ILOpcodeFlag_None Pop0 PushI,
    OPDEF Cee_Ldc_I4_S ''ldc.i4.s'' 1 1 ILOperandType_Byte Cee_Ldc_I4 ILOpcodeFlag_None Pop0 PushI]"

definition ilOpcodes_20 :: "ILOpcodeInfo list" where
  "ilOpcodes_20 = [
    OPDEF Cee_Ldc_I4 ''ldc.i4'' 1 4 ILOperandType_Int Cee_Ldc_I4_S ILOpcodeFlag_None Pop0 PushI,
    OPDEF Cee_Ldc_I8 ''ldc.i8'' 1 8 ILOperandType_Long Cee_Invalid ILOpcodeFlag_None Pop0 PushI8,
    OPDEF Cee_Ldc_R4 ''ldc.r4'' 1 4 ILOperandType_Single Cee_Invalid ILOpcodeFlag_None Pop0 PushR4,
    OPDEF Cee_Ldc_R8 ''ldc.r8'' 1 8 ILOperandType_Double Cee_Invalid ILOpcodeFlag_None Pop0 PushR8,
    OPDEF Cee_Unused49 ''unused'' 1 0 ILOperandType_None Cee_Invalid ILOpcodeFlag_Unused Pop0 Push0,
    OPDEF Cee_Dup ''dup'' 1 0 ILOperandType_None Cee_Invalid ILOpcodeFlag_None Pop1 (Push1 + Push1),
    OPDEF Cee_Pop ''pop'' 1 0 ILOperandType_None Cee_Invalid ILOpcodeFlag_None Pop1 Push0,
    OPDEF Cee_Jmp ''jmp'' 1 4 ILOperandType_Token Cee_Invalid ILOpcodeFlag_None Pop0 Push0,
    OPDEF Cee_Call ''call'' 1 4 ILOperandType_Token Cee_Invalid ILOpcodeFlag_None VarPop VarPush,
    OPDEF Cee_Calli ''calli'' 1 4 ILOperandType_Token Cee_Invalid ILOpcodeFlag_None VarPop VarPush,
    OPDEF Cee_Ret ''ret'' 1 0 ILOperandType_None Cee_Invalid ILOpcodeFlag_None VarPop Push0,
    OPDEF Cee_Br_S ''br.s'' 1 1 ILOperandType_Byte Cee_Br ILOpcodeFlag_Branch Pop0 Push0,
    OPDEF Cee_Brfalse_S ''brfalse.s'' 1 1 ILOperandType_Byte Cee_Brfalse ILOpcodeFlag_Branch PopI Push0,
    OPDEF Cee_Brtrue_S ''brtrue.s'' 1 1 ILOperandType_Byte Cee_Brtrue ILOpcodeFlag_Branch PopI Push0,
    OPDEF Cee_Beq_S ''beq.s'' 1 1 ILOperandType_Byte Cee_Beq ILOpcodeFlag_Branch (Pop1 + Pop1) Push0,
    OPDEF Cee_Bge_S ''bge.s'' 1 1 ILOperandType_Byte Cee_Bge ILOpcodeFlag_Branch (Pop1 + Pop1) Push0]"

definition ilOpcodes_30 :: "ILOpcodeInfo list" where
  "ilOpcodes_30 = [
    OPDEF Cee_Bgt_S ''bgt.s'' 1 1 ILOperandType_Byte Cee_Bgt ILOpcodeFlag_Branch (Pop1 + Pop1) Push0,
    OPDEF Cee_Ble_S ''ble.s'' 1 1 ILOperandType_Byte Cee_Ble ILOpcodeFlag_Branch (Pop1 + Pop1) Push0,
    OPDEF Cee_Blt_S ''blt.s'' 1 1 ILOperandType_Byte Cee_Blt ILOpcodeFlag_Branch (Pop1 + Pop1) Push0,
    OPDEF Cee_Bne_Un_S ''bne.un.s'' 1 1 ILOperandType_Byte Cee_Bne_Un ILOpcodeFlag_Branch (Pop1 + Pop1) Push0,
    OPDEF Cee_Bge_Un_S ''bge.un.s'' 1 1 ILOperandType_Byte Cee_Bge_Un ILOpcodeFlag_Branch (Pop1 + Pop1) Push0,
    OPDEF Cee_Bgt_Un_S ''bgt.un.s'' 1 1 ILOperandType_Byte Cee_Bgt_Un ILOpcodeFlag_Branch (Pop1 + Pop1) Push0,
    OPDEF Cee_Ble_Un_S ''ble.un.s'' 1 1 ILOperandType_Byte Cee_Ble_Un ILOpcodeFlag_Branch (Pop1 + Pop1) Push0,
    OPDEF Cee_Blt_Un_S ''blt.un.s'' 1 1 ILOperandType_Byte Cee_Blt_Un ILOpcodeFlag_Branch (Pop1 + Pop1) Push0,
    OPDEF Cee_Br ''br'' 1 4 ILOperandType_Int Cee_Br_S ILOpcodeFlag_Branch Pop0 Push0,
    OPDEF Cee_Brfalse ''brfalse'' 1 4 ILOperandType_Int Cee_Brfalse_S ILOpcodeFlag_Branch PopI Push0,
    OPDEF Cee_Brtrue ''brtrue'' 1 4 ILOperandType_Int Cee_Brtrue_S ILOpcodeFlag_Branch PopI Push0,
    OPDEF Cee_Beq ''beq'' 1 4 ILOperandType_Int Cee_Beq_S ILOpcodeFlag_Branch (Pop1 + Pop1) Push0,
    OPDEF Cee_Bge ''bge'' 1 4 ILOperandType_Int Cee_Bge_S ILOpcodeFlag_Branch (Pop1 + Pop1) Push0,
    OPDEF Cee_Bgt ''bgt'' 1 4 ILOperandType_Int Cee_Bgt_S ILOpcodeFlag_Branch (Pop1 + Pop1) Push0,
    OPDEF Cee_Ble ''ble'' 1 4 ILOperandType_Int Cee_Ble_S ILOpcodeFlag_Branch (Pop1 + Pop1) Push0,
    OPDEF Cee_Blt ''blt'' 1 4 ILOperandType_Int Cee_Blt_S ILOpcodeFlag_Branch (Pop1 + Pop1) Push0]"

definition ilOpcodes_40 :: "ILOpcodeInfo list" where
  "ilOpcodes_40 = [
    OPDEF Cee_Bne_Un ''bne.un'' 1 4 ILOperandType_Int Cee_Bne_Un_S ILOpcodeFlag_Branch (Pop1 + Pop1) Push0,
    OPDEF Cee_Bge_Un ''bge.un'' 1 4 ILOperandType_Int Cee_Bge_Un_S ILOpcodeFlag_Branch (Pop1 + Pop1) Push0,
    OPDEF Cee_Bgt_Un ''bgt.un'' 1 4 ILOperandType_Int Cee_Bgt_Un_S ILOpcodeFlag_Branch (Pop1 + Pop1) Push0,
    OPDEF Cee_Ble_Un ''ble.un'' 1 4 ILOperandType_Int Cee_Ble_Un_S ILOpcodeFlag_Branch (Pop1 + Pop1) Push0,
    OPDEF Cee_Blt_Un ''blt.un'' 1 4 ILOperandType_Int Cee_Blt_Un_S ILOpcodeFlag_Branch (Pop1 + Pop1) Push0,
    OPDEF Cee_Switch ''switch'' 1 (- 1) ILOperandType_Switch Cee_Invalid ILOpcodeFlag_None PopI Push0,
    OPDEF Cee_Ldind_I1 ''ldind.i1'' 1 0 ILOperandType_None Cee_Invalid ILOpcodeFlag_None PopI PushI,
    OPDEF Cee_Ldind_U1 ''ldind.u1'' 1 0 ILOperandType_None Cee_Invalid ILOpcodeFlag_None PopI PushI,
    OPDEF Cee_Ldind_I2 ''ldind.i2'' 1 0 ILOperandType_None Cee_Invalid ILOpcodeFlag_None PopI PushI,
    OPDEF Cee_Ldind_U2 ''ldind.u2'' 1 0 ILOperandType_None Cee_Invalid ILOpcodeFlag_None PopI PushI,
    OPDEF Cee_Ldind_I4 ''ldind.i4'' 1 0 ILOperandType_None Cee_Invalid ILOpcodeFlag_None PopI PushI,
    OPDEF Cee_Ldind_U4 ''ldind.u4'' 1 0 ILOperandType_None Cee_Invalid ILOpcodeFlag_None PopI PushI,
    OPDEF Cee_Ldind_I8 ''ldind.i8'' 1 0 ILOperandType_None Cee_Invalid ILOpcodeFlag_None PopI PushI8,
    OPDEF Cee_Ldind_I ''ldind.i'' 1 0 ILOperandType_None Cee_Invalid ILOpcodeFlag_None PopI PushI,
    OPDEF Cee_Ldind_R4 ''ldind.r4'' 1 0 ILOperandType_None Cee_Invalid ILOpcodeFlag_None PopI PushR4,
    OPDEF Cee_Ldind_R8 ''ldind.r8'' 1 0 ILOperandType_None Cee_Invalid ILOpcodeFlag_None PopI PushR8]"

definition ilOpcodes_50 :: "ILOpcodeInfo list" where
  "ilOpcodes_50 = [
    OPDEF Cee_Ldind_Ref ''ldind.ref'' 1 0 ILOperandType_None Cee_Invalid ILOpcodeFlag_None PopI PushRef,
    OPDEF Cee_Stind_Ref ''stind.ref'' 1 0 ILOperandType_None Cee_Invalid ILOpcodeFlag_None (PopI + PopI) Push0,
    OPDEF Cee_Stind_I1 ''stind.i1'' 1 0 ILOperandType_None Cee_Invalid ILOpcodeFlag_None (PopI + PopI) Push0,
    OPDEF Cee_Stind_I2 ''stind.i2'' 1 0 ILOperandType_None Cee_Invalid ILOpcodeFlag_None (PopI + PopI) Push0,
    OPDEF Cee_Stind_I4 ''stind.i4'' 1 0 ILOperandType_None Cee_Invalid ILOpcodeFlag_None (PopI + PopI) Push0,
    OPDEF Cee_Stind_I8 ''stind.i8'' 1 0 ILOperandType_None Cee_Invalid ILOpcodeFlag_None (PopI + PopI8) Push0,
    OPDEF Cee_Stind_R4 ''stind.r4'' 1 0 ILOperandType_None Cee_Invalid ILOpcodeFlag_None (PopI + PopR4) Push0,
    OPDEF Cee_Stind_R8 ''stind.r8'' 1 0 ILOperandType_None Cee_Invalid ILOpcodeFlag_None (PopI + PopR8) Push0,
    OPDEF Cee_Add ''add'' 1 0 ILOperandType_None Cee_Invalid ILOpcodeFlag_None (Pop1 + Pop1) Push1,
    OPDEF Cee_Sub ''sub'' 1 0 ILOperandType_None Cee_Invalid ILOpcodeFlag_None (Pop1 + Pop1) Push1,
    OPDEF Cee_Mul ''mul'' 1 0 ILOperandType_None Cee_Invalid ILOpcodeFlag_None (Pop1 + Pop1) Push1,
    OPDEF Cee_Div ''div'' 1 0 ILOperandType_None Cee_Invalid ILOpcodeFlag_None (Pop1 + Pop1) Push1,
    OPDEF Cee_Div_Un ''div.un'' 1 0 ILOperandType_None Cee_Invalid ILOpcodeFlag_None (Pop1 + Pop1) Push1,
    OPDEF Cee_Rem ''rem'' 1 0 ILOperandType_None Cee_Invalid ILOpcodeFlag_None (Pop1 + Pop1) Push1,
    OPDEF Cee_Rem_Un ''rem.un'' 1 0 ILOperandType_None Cee_Invalid ILOpcodeFlag_None (Pop1 + Pop1) Push1,
    OPDEF Cee_And ''and'' 1 0 ILOperandType_None Cee_Invalid ILOpcodeFlag_None (Pop1 + Pop1) Push1]"

definition ilOpcodes_60 :: "ILOpcodeInfo list" where
  "ilOpcodes_60 = [
    OPDEF Cee_Or ''or'' 1 0 ILOperandType_None Cee_Invalid ILOpcodeFlag_None (Pop1 + Pop1) Push1,
    OPDEF Cee_Xor ''xor'' 1 0 ILOperandType_None Cee_Invalid ILOpcodeFlag_None (Pop1 + Pop1) Push1,
    OPDEF Cee_Shl ''shl'' 1 0 ILOperandType_None Cee_Invalid ILOpcodeFlag_None (Pop1 + Pop1) Push1,
    OPDEF Cee_Shr ''shr'' 1 0 ILOperandType_None Cee_Invalid ILOpcodeFlag_None (Pop1 + Pop1) Push1,
    OPDEF Cee_Shr_Un ''shr.un'' 1 0 ILOperandType_None Cee_Invalid ILOpcodeFlag_None (Pop1 + Pop1) Push1,
    OPDEF Cee_Neg ''neg'' 1 0 ILOperandType_None Cee_Invalid ILOpcodeFlag_None Pop1 Push1,
    OPDEF Cee_Not ''not'' 1 0 ILOperandType_None Cee_Invalid ILOpcodeFlag_None Pop1 Push1,
    OPDEF Cee_Conv_I1 ''conv.i1'' 1 0 ILOperandType_None Cee_Invalid ILOpcodeFlag_None Pop1 PushI,
    OPDEF Cee_Conv_I2 ''conv.i2'' 1 0 ILOperandType_None Cee_Invalid ILOpcodeFlag_None Pop1 PushI,
    OPDEF Cee_Conv_I4 ''conv.i4'' 1 0 ILOperandType_None Cee_Invalid ILOpcodeFlag_None Pop1 PushI,
    OPDEF Cee_Conv_I8 ''conv.i8'' 1 0 ILOperandType_None Cee_Invalid ILOpcodeFlag_None Pop1 PushI8,
    OPDEF Cee_Conv_R4 ''conv.r4'' 1 0 ILOperandType_None Cee_Invalid ILOpcodeFlag_None Pop1 PushR4,
    OPDEF Cee_Conv_R8 ''conv.r8'' 1 0 ILOperandType_None Cee_Invalid ILOpcodeFlag_None Pop1 PushR8,
    OPDEF Cee_Conv_U4 ''conv.u4'' 1 0 ILOperandType_None Cee_Invalid ILOpcodeFlag_None Pop1 PushI,
    OPDEF Cee_Conv_U8 ''conv.u8'' 1 0 ILOperandType_None Cee_Invalid ILOpcodeFlag_None Pop1 PushI8,
    OPDEF Cee_Callvirt ''callvirt'' 1 4 ILOperandType_Token Cee_Invalid ILOpcodeFlag_None VarPop VarPush]"

definition ilOpcodes_70 :: "ILOpcodeInfo list" where
  "ilOpcodes_70 = [
    OPDEF Cee_Cpobj ''cpobj'' 1 4 ILOperandType_Token Cee_Invalid ILOpcodeFlag_None (PopI + PopI) Push0,
    OPDEF Cee_Ldobj ''ldobj'' 1 4 ILOperandType_Token Cee_Invalid ILOpcodeFlag_None PopI Push1,
    OPDEF Cee_Ldstr ''ldstr'' 1 4 ILOperandType_Token Cee_Invalid ILOpcodeFlag_None Pop0 PushRef,
    OPDEF Cee_Newobj ''newobj'' 1 4 ILOperandType_Token Cee_Invalid ILOpcodeFlag_None VarPop PushRef,
    OPDEF Cee_Castclass ''castclass'' 1 4 ILOperandType_Token Cee_Invalid ILOpcodeFlag_None PopRef PushRef,
    OPDEF Cee_Isinst ''isinst'' 1 4 ILOperandType_Token Cee_Invalid ILOpcodeFlag_None PopRef PushI,
    OPDEF Cee_Conv_R_Un ''conv.r.un'' 1 0 ILOperandType_None Cee_Invalid ILOpcodeFlag_None Pop1 PushR8,
    OPDEF Cee_Unused58 ''unused'' 1 0 ILOperandType_None Cee_Invalid ILOpcodeFlag_Unused Pop0 Push0,
    OPDEF Cee_Unused1 ''unused'' 1 0 ILOperandType_None Cee_Invalid ILOpcodeFlag_Unused Pop0 Push0,
    OPDEF Cee_Unbox ''unbox'' 1 4 ILOperandType_Token Cee_Invalid ILOpcodeFlag_None PopRef PushI,
    OPDEF Cee_Throw ''throw'' 1 0 ILOperandType_None Cee_Invalid ILOpcodeFlag_None PopRef Push0,
    OPDEF Cee_Ldfld ''ldfld'' 1 4 ILOperandType_Token Cee_Invalid ILOpcodeFlag_None PopRef Push1,
    OPDEF Cee_Ldflda ''ldflda'' 1 4 ILOperandType_Token Cee_Invalid ILOpcodeFlag_None PopRef PushI,
    OPDEF Cee_Stfld ''stfld'' 1 4 ILOperandType_Token Cee_Invalid ILOpcodeFlag_None (PopRef + Pop1) Push0,
    OPDEF Cee_Ldsfld ''ldsfld'' 1 4 ILOperandType_Token Cee_Invalid ILOpcodeFlag_None Pop0 Push1,
    OPDEF Cee_Ldsflda ''ldsflda'' 1 4 ILOperandType_Token Cee_Invalid ILOpcodeFlag_None Pop0 PushI]"

definition ilOpcodes_80 :: "ILOpcodeInfo list" where
  "ilOpcodes_80 = [
    OPDEF Cee_Stsfld ''stsfld'' 1 4 ILOperandType_Token Cee_Invalid ILOpcodeFlag_None Pop1 Push0,
    OPDEF Cee_Stobj ''stobj'' 1 4 ILOperandType_Token Cee_Invalid ILOpcodeFlag_None (PopI + Pop1) Push0,
    OPDEF Cee_Conv_Ovf_I1_Un ''conv.ovf.i1.un'' 1 0 ILOperandType_None Cee_Invalid ILOpcodeFlag_None Pop1 PushI,
    OPDEF Cee_Conv_Ovf_I2_Un ''conv.ovf.i2.un'' 1 0 ILOperandType_None Cee_Invalid ILOpcodeFlag_None Pop1 PushI,
    OPDEF Cee_Conv_Ovf_I4_Un ''conv.ovf.i4.un'' 1 0 ILOperandType_None Cee_Invalid ILOpcodeFlag_None Pop1 PushI,
    OPDEF Cee_Conv_Ovf_I8_Un ''conv.ovf.i8.un'' 1 0 ILOperandType_None Cee_Invalid ILOpcodeFlag_None Pop1 PushI8,
    OPDEF Cee_Conv_Ovf_U1_Un ''conv.ovf.u1.un'' 1 0 ILOperandType_None Cee_Invalid ILOpcodeFlag_None Pop1 PushI,
    OPDEF Cee_Conv_Ovf_U2_Un ''conv.ovf.u2.un'' 1 0 ILOperandType_None Cee_Invalid ILOpcodeFlag_None Pop1 PushI,
    OPDEF Cee_Conv_Ovf_U4_Un ''conv.ovf.u4.un'' 1 0 ILOperandType_None Cee_Invalid ILOpcodeFlag_None Pop1 PushI,
    OPDEF Cee_Conv_Ovf_U8_Un ''conv.ovf.u8.un'' 1 0 ILOperandType_None Cee_Invalid ILOpcodeFlag_None Pop1 PushI8,
    OPDEF Cee_Conv_Ovf_I_Un ''conv.ovf.i.un'' 1 0 ILOperandType_None Cee_Invalid ILOpcodeFlag_None Pop1 PushI,
    OPDEF Cee_Conv_Ovf_U_Un ''conv.ovf.u.un'' 1 0 ILOperandType_None Cee_Invalid ILOpcodeFlag_None Pop1 PushI,
    OPDEF Cee_Box ''box'' 1 4 ILOperandType_Token Cee_Invalid ILOpcodeFlag_None Pop1 PushRef,
    OPDEF Cee_Newarr ''newarr'' 1 4 ILOperandType_Token Cee_Invalid ILOpcodeFlag_None PopI PushRef,
    OPDEF Cee_Ldlen ''ldlen'' 1 0 ILOperandType_None Cee_Invalid ILOpcodeFlag_None PopRef PushI,
    OPDEF Cee_Ldelema ''ldelema'' 1 4 ILOperandType_Token Cee_Invalid ILOpcodeFlag_None (PopRef + PopI) PushI]"

definition ilOpcodes_90 :: "ILOpcodeInfo list" where
  "ilOpcodes_90 = [
    OPDEF Cee_Ldelem_I1 ''ldelem.i1'' 1 0 ILOperandType_None Cee_Invalid ILOpcodeFlag_None (PopRef + PopI) PushI,
    OPDEF Cee_Ldelem_U1 ''ldelem.u1'' 1 0 ILOperandType_None Cee_Invalid ILOpcodeFlag_None (PopRef + PopI) PushI,
    OPDEF Cee_Ldelem_I2 ''ldelem.i2'' 1 0 ILOperandType_None Cee_Invalid ILOpcodeFlag_None (PopRef + PopI) PushI,
    OPDEF Cee_Ldelem_U2 ''ldelem.u2'' 1 0 ILOperandType_None Cee_Invalid ILOpcodeFlag_None (PopRef + PopI) PushI,
    OPDEF Cee_Ldelem_I4 ''ldelem.i4'' 1 0 ILOperandType_None Cee_Invalid ILOpcodeFlag_None (PopRef + PopI) PushI,
    OPDEF Cee_Ldelem_U4 ''ldelem.u4'' 1 0 ILOperandType_None Cee_Invalid ILOpcodeFlag_None (PopRef + PopI) PushI,
    OPDEF Cee_Ldelem_I8 ''ldelem.i8'' 1 0 ILOperandType_None Cee_Invalid ILOpcodeFlag_None (PopRef + PopI) PushI8,
    OPDEF Cee_Ldelem_I ''ldelem.i'' 1 0 ILOperandType_None Cee_Invalid ILOpcodeFlag_None (PopRef + PopI) PushI,
    OPDEF Cee_Ldelem_R4 ''ldelem.r4'' 1 0 ILOperandType_None Cee_Invalid ILOpcodeFlag_None (PopRef + PopI) PushR4,
    OPDEF Cee_Ldelem_R8 ''ldelem.r8'' 1 0 ILOperandType_None Cee_Invalid ILOpcodeFlag_None (PopRef + PopI) PushR8,
    OPDEF Cee_Ldelem_Ref ''ldelem.ref'' 1 0 ILOperandType_None Cee_Invalid ILOpcodeFlag_None (PopRef + PopI) PushRef,
    OPDEF Cee_Stelem_I ''stelem.i'' 1 0 ILOperandType_None Cee_Invalid ILOpcodeFlag_None (PopRef + PopI + PopI) Push0,
    OPDEF Cee_Stelem_I1 ''stelem.i1'' 1 0 ILOperandType_None Cee_Invalid ILOpcodeFlag_None (PopRef + PopI + PopI) Push0,
    OPDEF Cee_Stelem_I2 ''stelem.i2'' 1 0 ILOperandType_None Cee_Invalid ILOpcodeFlag_None (PopRef + PopI + PopI) Push0,
    OPDEF Cee_Stelem_I4 ''stelem.i4'' 1 0 ILOperandType_None Cee_Invalid ILOpcodeFlag_None (PopRef + PopI + PopI) Push0,
    OPDEF Cee_Stelem_I8 ''stelem.i8'' 1 0 ILOperandType_None Cee_Invalid ILOpcodeFlag_None (PopRef + PopI + PopI8) Push0]"

definition ilOpcodes_A0 :: "ILOpcodeInfo list" where
  "ilOpcodes_A0 = [
    OPDEF Cee_Stelem_R4 ''stelem.r4'' 1 0 ILOperandType_None Cee_Invalid ILOpcodeFlag_None (PopRef + PopI + PopR4) Push0,
    OPDEF Cee_Stelem_R8 ''stelem.r8'' 1 0 ILOperandType_None Cee_Invalid ILOpcodeFlag_None (PopRef + PopI + PopR8) Push0,
    OPDEF Cee_Stelem_Ref ''stelem.ref'' 1 0 ILOperandType_None Cee_Invalid ILOpcodeFlag_None (PopRef + PopI + PopRef) Push0,
    OPDEF Cee_Ldelem ''ldelem.any'' 1 4 ILOperandType_Token Cee_Invalid ILOpcodeFlag_None (PopRef + PopI) Push1,
    OPDEF Cee_Stelem ''stelem.any'' 1 4 ILOperandType_Token Cee_Invalid ILOpcodeFlag_None (PopRef + PopI + Pop1) Push0,
    OPDEF Cee_Unbox_Any ''unbox.any'' 1 4 ILOperandType_Token Cee_Invalid ILOpcodeFlag_None PopRef Push1,
    OPDEF Cee_Unused5 ''unused'' 1 0 ILOperandType_None Cee_Invalid ILOpcodeFlag_Unused Pop0 Push0,
    OPDEF Cee_Unused6 ''unused'' 1 0 ILOperandType_None Cee_Invalid ILOpcodeFlag_Unused Pop0 Push0,
    OPDEF Cee_Unused7 ''unused'' 1 0 ILOperandType_None Cee_Invalid ILOpcodeFlag_Unused Pop0 Push0,
    OPDEF Cee_Unused8 ''unused'' 1 0 ILOperandType_None Cee_Invalid ILOpcodeFlag_Unused Pop0 Push0,
    OPDEF Cee_Unused9 ''unused'' 1 0 ILOperandType_None Cee_Invalid ILOpcodeFlag_Unused Pop0 Push0,
    OPDEF Cee_Unused10 ''unused'' 1 0 ILOperandType_None Cee_Invalid ILOpcodeFlag_Unused Pop0 Push0,
    OPDEF Cee_Unused11 ''unused'' 1 0 ILOperandType_None Cee_Invalid ILOpcodeFlag_Unused Pop0 Push0,
    OPDEF Cee_Unused12 ''unused'' 1 0 ILOperandType_None Cee_Invalid ILOpcodeFlag_Unused Pop0 Push0,
    OPDEF Cee_Unused13 ''unused'' 1 0 ILOperandType_None Cee_Invalid ILOpcodeFlag_Unused Pop0 Push0,
    OPDEF Cee_Unused14 ''unused'' 1 0 ILOperandType_None Cee_Invalid ILOpcodeFlag_Unused Pop0 Push0]"

definition ilOpcodes_B0 :: "ILOpcodeInfo list" where
  "ilOpcodes_B0 = [
    OPDEF Cee_Unused15 ''unused'' 1 0 ILOperandType_None Cee_Invalid ILOpcodeFlag_Unused Pop0 Push0,
    OPDEF Cee_Unused16 ''unused'' 1 0 ILOperandType_None Cee_Invalid ILOpcodeFlag_Unused Pop0 Push0,
    OPDEF Cee_Unused17 ''unused'' 1 0 ILOperandType_None Cee_Invalid ILOpcodeFlag_Unused Pop0 Push0,
    OPDEF Cee_Conv_Ovf_I1 ''conv.ovf.i1'' 1 0 ILOperandType_None Cee_Invalid ILOpcodeFlag_None Pop1 PushI,
    OPDEF Cee_Conv_Ovf_U1 ''conv.ovf.u1'' 1 0 ILOperandType_None Cee_Invalid ILOpcodeFlag_None Pop1 PushI,
    OPDEF Cee_Conv_Ovf_I2 ''conv.ovf.i2'' 1 0 ILOperandType_None Cee_Invalid ILOpcodeFlag_None Pop1 PushI,
    OPDEF Cee_Conv_Ovf_U2 ''conv.ovf.u2'' 1 0 ILOperandType_None Cee_Invalid ILOpcodeFlag_None Pop1 PushI,
    OPDEF Cee_Conv_Ovf_I4 ''conv.ovf.i4'' 1 0 ILOperandType_None Cee_Invalid ILOpcodeFlag_None Pop1 PushI,
    OPDEF Cee_Conv_Ovf_U4 ''conv.ovf.u4'' 1 0 ILOperandType_None Cee_Invalid ILOpcodeFlag_None Pop1 PushI,
    OPDEF Cee_Conv_Ovf_I8 ''conv.ovf.i8'' 1 0 ILOperandType_None Cee_Invalid ILOpcodeFlag_None Pop1 PushI8,
    OPDEF Cee_Conv_Ovf_U8 ''conv.ovf.u8'' 1 0 ILOperandType_None Cee_Invalid ILOpcodeFlag_None Pop1 PushI8,
    OPDEF Cee_Unused50 ''unused'' 1 0 ILOperandType_None Cee_Invalid ILOpcodeFlag_Unused Pop0 Push0,
    OPDEF Cee_Unused18 ''unused'' 1 0 ILOperandType_None Cee_Invalid ILOpcodeFlag_Unused Pop0 Push0,
    OPDEF Cee_Unused19 ''unused'' 1 0 ILOperandType_None Cee_Invalid ILOpcodeFlag_Unused Pop0 Push0,
    OPDEF Cee_Unused20 ''unused'' 1 0 ILOperandType_None Cee_Invalid ILOpcodeFlag_Unused Pop0 Push0,
    OPDEF Cee_Unused21 ''unused'' 1 0 ILOperandType_None Cee_Invalid ILOpcodeFlag_Unused Pop0 Push0]"

definition ilOpcodes_C0 :: "ILOpcodeInfo list" where
  "ilOpcodes_C0 = [
    OPDEF Cee_Unused22 ''unused'' 1 0 ILOperandType_None Cee_Invalid ILOpcodeFlag_Unused Pop0 Push0,
    OPDEF Cee_Unused23 ''unused'' 1 0 ILOperandType_None Cee_Invalid ILOpcodeFlag_Unused Pop0 Push0,
    OPDEF Cee_Refanyval ''refanyval'' 1 4 ILOperandType_Token Cee_Invalid ILOpcodeFlag_None Pop1 PushI,
    OPDEF Cee_Ckfinite ''ckfinite'' 1 0 ILOperandType_None Cee_Invalid ILOpcodeFlag_None Pop1 PushR8,
    OPDEF Cee_Unused24 ''unused'' 1 0 ILOperandType_None Cee_Invalid ILOpcodeFlag_Unused Pop0 Push0,
    OPDEF Cee_Unused25 ''unused'' 1 0 ILOperandType_None Cee_Invalid ILOpcodeFlag_Unused Pop0 Push0,
    OPDEF Cee_Mkrefany ''mkrefany'' 1 4 ILOperandType_Token Cee_Invalid ILOpcodeFlag_None PopI Push1,
    OPDEF Cee_Unused59 ''unused'' 1 0 ILOperandType_None Cee_Invalid ILOpcodeFlag_Unused Pop0 Push0,
    OPDEF Cee_Unused60 ''unused'' 1 0 ILOperandType_None Cee_Invalid ILOpcodeFlag_Unused Pop0 Push0,
    OPDEF Cee_Unused61 ''unused'' 1 0 ILOperandType_None Cee_Invalid ILOpcodeFlag_Unused Pop0 Push0,
    OPDEF Cee_Unused62 ''unused'' 1 0 ILOperandType_None Cee_Invalid ILOpcodeFlag_Unused Pop0 Push0,
    OPDEF Cee_Unused63 ''unused'' 1 0 ILOperandType_None Cee_Invalid ILOpcodeFlag_Unused Pop0 Push0,
    OPDEF Cee_Unused64 ''unused'' 1 0 ILOperandType_None Cee_Invalid ILOpcodeFlag_Unused Pop0 Push0,
    OPDEF Cee_Unused65 ''unused'' 1 0 ILOperandType_None Cee_Invalid ILOpcodeFlag_Unused Pop0 Push0,
    OPDEF Cee_Unused66 ''unused'' 1 0 ILOperandType_None Cee_Invalid ILOpcodeFlag_Unused Pop0 Push0,
    OPDEF Cee_Unused67 ''unused'' 1 0 ILOperandType_None Cee_Invalid ILOpcodeFlag_Unused Pop0 Push0]"

definition ilOpcodes_D0 :: "ILOpcodeInfo list" where
  "ilOpcodes_D0 = [
    OPDEF Cee_Ldtoken ''ldtoken'' 1 4 ILOperandType_Token Cee_Invalid ILOpcodeFlag_None Pop0 PushI,
    OPDEF Cee_Conv_U2 ''conv.u2'' 1 0 ILOperandType_None Cee_Invalid ILOpcodeFlag_None Pop1 PushI,
    OPDEF Cee_Conv_U1 ''conv.u1'' 1 0 ILOperandType_None Cee_Invalid ILOpcodeFlag_None Pop1 PushI,
    OPDEF Cee_Conv_I ''conv.i'' 1 0 ILOperandType_None Cee_Invalid ILOpcodeFlag_None Pop1 PushI,
    OPDEF Cee_Conv_Ovf_I ''conv.ovf.i'' 1 0 ILOperandType_None Cee_Invalid ILOpcodeFlag_None Pop1 PushI,
    OPDEF Cee_Conv_Ovf_U ''conv.ovf.u'' 1 0 ILOperandType_None Cee_Invalid ILOpcodeFlag_None Pop1 PushI,
    OPDEF Cee_Add_Ovf ''add.ovf'' 1 0 ILOperandType_None Cee_Invalid ILOpcodeFlag_None (Pop1 + Pop1) Push1,
    OPDEF Cee_Add_Ovf_Un ''add.ovf.un'' 1 0 ILOperandType_None Cee_Invalid ILOpcodeFlag_None (Pop1 + Pop1) Push1,
    OPDEF Cee_Mul_Ovf ''mul.ovf'' 1 0 ILOperandType_None Cee_Invalid ILOpcodeFlag_None (Pop1 + Pop1) Push1,
    OPDEF Cee_Mul_Ovf_Un ''mul.ovf.un'' 1 0 ILOperandType_None Cee_Invalid ILOpcodeFlag_None (Pop1 + Pop1) Push1,
    OPDEF Cee_Sub_Ovf ''sub.ovf'' 1 0 ILOperandType_None Cee_Invalid ILOpcodeFlag_None (Pop1 + Pop1) Push1,
    OPDEF Cee_Sub_Ovf_Un ''sub.ovf.un'' 1 0 ILOperandType_None Cee_Invalid ILOpcodeFlag_None (Pop1 + Pop1) Push1,
    OPDEF Cee_Endfinally ''endfinally'' 1 0 ILOperandType_None Cee_Invalid ILOpcodeFlag_None Pop0 Push0,
    OPDEF Cee_Leave ''leave'' 1 4 ILOperandType_Int Cee_Leave_S ILOpcodeFlag_Branch Pop0 Push0,
    OPDEF Cee_Leave_S ''leave.s'' 1 1 ILOperandType_Byte Cee_Leave ILOpcodeFlag_Branch Pop0 Push0,
    OPDEF Cee_Stind_I ''stind.i'' 1 0 ILOperandType_None Cee_Invalid ILOpcodeFlag_None (PopI + PopI) Push0]"

definition ilOpcodes_E0 :: "ILOpcodeInfo list" where
  "ilOpcodes_E0 = [
    OPDEF Cee_Conv_U ''conv.u'' 1 0 ILOperandType_None Cee_Invalid ILOpcodeFlag_None Pop1 PushI,
    OPDEF Cee_Unused26 ''unused'' 1 0 ILOperandType_None Cee_Invalid ILOpcodeFlag_Unused Pop0 Push0,
    OPDEF Cee_Unused27 ''unused'' 1 0 ILOperandType_None Cee_Invalid ILOpcodeFlag_Unused Pop0 Push0,
    OPDEF Cee_Unused28 ''unused'' 1 0 ILOperandType_None Cee_Invalid ILOpcodeFlag_Unused Pop0 Push0,
    OPDEF Cee_Unused29 ''unused'' 1 0 ILOperandType_None Cee_Invalid ILOpcodeFlag_Unused Pop0 Push0,
    OPDEF Cee_Unused30 ''unused'' 1 0 ILOperandType_None Cee_Invalid ILOpcodeFlag_Unused Pop0 Push0,
    OPDEF Cee_Unused31 ''unused'' 1 0 ILOperandType_None Cee_Invalid ILOpcodeFlag_Unused Pop0 Push0,
    OPDEF Cee_Unused32 ''unused'' 1 0 ILOperandType_None Cee_Invalid ILOpcodeFlag_Unused Pop0 Push0,
    OPDEF Cee_Unused33 ''unused'' 1 0 ILOperandType_None Cee_Invalid ILOpcodeFlag_Unused Pop0 Push0,
    OPDEF Cee_Unused34 ''unused'' 1 0 ILOperandType_None Cee_Invalid ILOpcodeFlag_Unused Pop0 Push0,
    OPDEF Cee_Unused35 ''unused'' 1 0 ILOperandType_None Cee_Invalid ILOpcodeFlag_Unused Pop0 Push0,
    OPDEF Cee_Unused36 ''unused'' 1 0 ILOperandType_None Cee_Invalid ILOpcodeFlag_Unused Pop0 Push0,
    OPDEF Cee_Unused37 ''unused'' 1 0 ILOperandType_None Cee_Invalid ILOpcodeFlag_Unused Pop0 Push0,
    OPDEF Cee_Unused38 ''unused'' 1 0 ILOperandType_None Cee_Invalid ILOpcodeFlag_Unused Pop0 Push0,
    OPDEF Cee_Unused39 ''unused'' 1 0 ILOperandType_None Cee_Invalid ILOpcodeFlag_Unused Pop0 Push0,
    OPDEF Cee_Unused40 ''unused'' 1 0 ILOperandType_None Cee_Invalid ILOpcodeFlag_Unused Pop0 Push0]"

definition ilOpcodes_F0 :: "ILOpcodeInfo list" where
  "ilOpcodes_F0 = [
    OPDEF Cee_Unused41 ''unused'' 1 0 ILOperandType_None Cee_Invalid ILOpcodeFlag_Unused Pop0 Push0,
    OPDEF Cee_Unused42 ''unused'' 1 0 ILOperandType_None Cee_Invalid ILOpcodeFlag_Unused Pop0 Push0,
    OPDEF Cee_Unused43 ''unused'' 1 0 ILOperandType_None Cee_Invalid ILOpcodeFlag_Unused Pop0 Push0,
    OPDEF Cee_Unused44 ''unused'' 1 0 ILOperandType_None Cee_Invalid ILOpcodeFlag_Unused Pop0 Push0,
    OPDEF Cee_Unused45 ''unused'' 1 0 ILOperandType_None Cee_Invalid ILOpcodeFlag_Unused Pop0 Push0,
    OPDEF Cee_Unused46 ''unused'' 1 0 ILOperandType_None Cee_Invalid ILOpcodeFlag_Unused Pop0 Push0,
    OPDEF Cee_Unused47 ''unused'' 1 0 ILOperandType_None Cee_Invalid ILOpcodeFlag_Unused Pop0 Push0,
    OPDEF Cee_Unused48 ''unused'' 1 0 ILOperandType_None Cee_Invalid ILOpcodeFlag_Unused Pop0 Push0,
    OPDEF Cee_Prefix7 ''prefix7'' 1 0 ILOperandType_None Cee_Invalid ILOpcodeFlag_Unused Pop0 Push0,
    OPDEF Cee_Prefix6 ''prefix6'' 1 0 ILOperandType_None Cee_Invalid ILOpcodeFlag_Unused Pop0 Push0,
    OPDEF Cee_Prefix5 ''prefix5'' 1 0 ILOperandType_None Cee_Invalid ILOpcodeFlag_Unused Pop0 Push0,
    OPDEF Cee_Prefix4 ''prefix4'' 1 0 ILOperandType_None Cee_Invalid ILOpcodeFlag_Unused Pop0 Push0,
    OPDEF Cee_Prefix3 ''prefix3'' 1 0 ILOperandType_None Cee_Invalid ILOpcodeFlag_Unused Pop0 Push0,
    OPDEF Cee_Prefix2 ''prefix2'' 1 0 ILOperandType_None Cee_Invalid ILOpcodeFlag_Unused Pop0 Push0,
    OPDEF Cee_Prefix1 ''prefix1'' 1 0 ILOperandType_None Cee_Invalid ILOpcodeFlag_Unused Pop0 Push0,
    OPDEF Cee_Prefixref ''prefixref'' 1 0 ILOperandType_None Cee_Invalid ILOpcodeFlag_Unused Pop0 Push0]"

definition ilOpcodes_FE00 :: "ILOpcodeInfo list" where
  "ilOpcodes_FE00 = [
    OPDEF Cee_Arglist ''arglist'' 2 0 ILOperandType_None Cee_Invalid ILOpcodeFlag_None Pop0 PushI,
    OPDEF Cee_Ceq ''ceq'' 2 0 ILOperandType_None Cee_Invalid ILOpcodeFlag_None (Pop1 + Pop1) PushI,
    OPDEF Cee_Cgt ''cgt'' 2 0 ILOperandType_None Cee_Invalid ILOpcodeFlag_None (Pop1 + Pop1) PushI,
    OPDEF Cee_Cgt_Un ''cgt.un'' 2 0 ILOperandType_None Cee_Invalid ILOpcodeFlag_None (Pop1 + Pop1) PushI,
    OPDEF Cee_Clt ''clt'' 2 0 ILOperandType_None Cee_Invalid ILOpcodeFlag_None (Pop1 + Pop1) PushI,
    OPDEF Cee_Clt_Un ''clt.un'' 2 0 ILOperandType_None Cee_Invalid ILOpcodeFlag_None (Pop1 + Pop1) PushI,
    OPDEF Cee_Ldftn ''ldftn'' 2 4 ILOperandType_Token Cee_Invalid ILOpcodeFlag_None Pop0 PushI,
    OPDEF Cee_Ldvirtftn ''ldvirtftn'' 2 4 ILOperandType_Token Cee_Invalid ILOpcodeFlag_None PopRef PushI,
    OPDEF Cee_Unused56 ''unused'' 2 0 ILOperandType_None Cee_Invalid ILOpcodeFlag_Unused Pop0 Push0,
    OPDEF Cee_Ldarg ''ldarg'' 2 2 ILOperandType_UShort Cee_Ldarg_S ILOpcodeFlag_None Pop0 Push1,
    OPDEF Cee_Ldarga ''ldarga'' 2 2 ILOperandType_UShort Cee_Ldarga_S ILOpcodeFlag_None Pop0 PushI,
    OPDEF Cee_Starg ''starg'' 2 2 ILOperandType_UShort Cee_Starg_S ILOpcodeFlag_None Pop1 Push0,
    OPDEF Cee_Ldloc ''ldloc'' 2 2 ILOperandType_UShort Cee_Ldloc_S ILOpcodeFlag_None Pop0 Push1,
    OPDEF Cee_Ldloca ''ldloca'' 2 2 ILOperandType_UShort Cee_Ldloca_S ILOpcodeFlag_None Pop0 PushI,
    OPDEF Cee_Stloc ''stloc'' 2 2 ILOperandType_UShort Cee_Stloc_S ILOpcodeFlag_None Pop1 Push0,
    OPDEF Cee_Localloc ''localloc'' 2 0 ILOperandType_None Cee_Invalid ILOpcodeFlag_None PopI PushI]"

definition ilOpcodes_FE10 :: "ILOpcodeInfo list" where
  "ilOpcodes_FE10 = [
    OPDEF Cee_Unused57 ''unused'' 2 0 ILOperandType_None Cee_Invalid ILOpcodeFlag_Unused Pop0 Push0,
    OPDEF Cee_Endfilter ''endfilter'' 2 0 ILOperandType_None Cee_Invalid ILOpcodeFlag_None PopI Push0,
    OPDEF Cee_Unaligned ''unaligned.'' 2 1 ILOperandType_Byte Cee_Invalid ILOpcodeFlag_None Pop0 Push0,
    OPDEF Cee_Volatile ''volatile.'' 2 0 ILOperandType_None Cee_Invalid ILOpcodeFlag_None Pop0 Push0,
    OPDEF Cee_Tailcall ''tail.'' 2 0 ILOperandType_None Cee_Invalid ILOpcodeFlag_None Pop0 Push0,
    OPDEF Cee_Initobj ''initobj'' 2 4 ILOperandType_Token Cee_Invalid ILOpcodeFlag_None PopI Push0,
    OPDEF Cee_Constrained ''constrained.'' 2 4 ILOperandType_Token Cee_Invalid ILOpcodeFlag_None Pop0 Push0,
    OPDEF Cee_Cpblk ''cpblk'' 2 0 ILOperandType_None Cee_Invalid ILOpcodeFlag_None (PopI + PopI + PopI) Push0,
    OPDEF Cee_Initblk ''initblk'' 2 0 ILOperandType_None Cee_Invalid ILOpcodeFlag_None (PopI + PopI + PopI) Push0,
    OPDEF Cee_Unused69 ''unused'' 2 0 ILOperandType_None Cee_Invalid ILOpcodeFlag_Unused Pop0 Push0,
    OPDEF Cee_Rethrow ''rethrow'' 2 0 ILOperandType_None Cee_Invalid ILOpcodeFlag_None Pop0 Push0,
    OPDEF Cee_Unused51 ''unused'' 2 0 ILOperandType_None Cee_Invalid ILOpcodeFlag_Unused Pop0 Push0,
    OPDEF Cee_Sizeof ''sizeof'' 2 4 ILOperandType_Token Cee_Invalid ILOpcodeFlag_None Pop0 PushI,
    OPDEF Cee_Refanytype ''refanytype'' 2 0 ILOperandType_None Cee_Invalid ILOpcodeFlag_None Pop1 PushI,
    OPDEF Cee_Readonly ''readonly.'' 2 0 ILOperandType_None Cee_Invalid ILOpcodeFlag_None Pop0 Push0,
    OPDEF Cee_Unused53 ''unused'' 2 0 ILOperandType_None Cee_Invalid ILOpcodeFlag_Unused Pop0 Push0]"

definition ilOpcodes_FE20 :: "ILOpcodeInfo list" where
  "ilOpcodes_FE20 = [
    OPDEF Cee_Unused54 ''unused'' 2 0 ILOperandType_None Cee_Invalid ILOpcodeFlag_Unused Pop0 Push0,
    OPDEF Cee_Unused55 ''unused'' 2 0 ILOperandType_None Cee_Invalid ILOpcodeFlag_Unused Pop0 Push0,
    OPDEF Cee_Unused70 ''unused'' 2 0 ILOperandType_None Cee_Invalid ILOpcodeFlag_Unused Pop0 Push0,
    OPDEF Cee_Count ''unused'' 0 0 ILOperandType_None Cee_Invalid ILOpcodeFlag_Meta Pop0 Push0,
    OPDEF Cee_Invalid ''unused'' 0 0 ILOperandType_None Cee_Invalid ILOpcodeFlag_Meta Pop0 Push0]"

definition s_ilOpcodeInfo :: "ILOpcodeInfo list" where
  "s_ilOpcodeInfo = ilOpcodes_00 @ ilOpcodes_10 @ ilOpcodes_20 @ ilOpcodes_30 @ ilOpcodes_40 @
     ilOpcodes_50 @ ilOpcodes_60 @ ilOpcodes_70 @ ilOpcodes_80 @ ilOpcodes_90 @
     ilOpcodes_A0 @ ilOpcodes_B0 @ ilOpcodes_C0 @ ilOpcodes_D0 @ ilOpcodes_E0 @
     ilOpcodes_F0 @ ilOpcodes_FE00 @ ilOpcodes_FE10 @ ilOpcodes_FE20"

definition opcodeInfo :: "ILOrdinalOpcode \<Rightarrow> ILOpcodeInfo result" where
  "opcodeInfo op = (if 0 \<le> op \<and> op < int (length s_ilOpcodeInfo)
     then Ok (s_ilOpcodeInfo ! nat op) else Undef)"

text \<open>The size in bytes of the union member each operand type selects.\<close>

fun operandTypeSize :: "ILOperandType \<Rightarrow> nat" where
  "operandTypeSize ILOperandType_None = 0"
| "operandTypeSize ILOperandType_Byte = 1"
| "operandTypeSize ILOperandType_UShort = 2"
| "operandTypeSize ILOperandType_Int = 4"
| "operandTypeSize ILOperandType_Token = 4"
| "operandTypeSize ILOperandType_Single = 4"
| "operandTypeSize ILOperandType_Long = 8"
| "operandTypeSize ILOperandType_Double = 8"
| "operandTypeSize ILOperandType_Switch = 0"

definition IsFlagSet :: "DWORD \<Rightarrow> DWORD \<Rightarrow> bool" where
  "IsFlagSet dwAllFlags dwFlag \<longleftrightarrow> dwAllFlags AND dwFlag \<noteq> 0"

fun rows_ok :: "int \<Rightarrow> (int \<Rightarrow> ILOpcodeInfo \<Rightarrow> bool) \<Rightarrow> ILOpcodeInfo list \<Rightarrow> bool" where
  "rows_ok i P [] = True"
| "rows_ok i P (e # es) = (P i e \<and> rows_ok (i + 1) P es)"

definition row_shape :: "int \<Rightarrow> ILOpcodeInfo \<Rightarrow> bool" where
  "row_shape i e \<longleftrightarrow>
     m_opcodeLength e = (if i < 0x100 then 1 else if i < Cee_Count then 2 else 0) \<and>
     (m_type e = ILOperandType_Switch \<longleftrightarrow> i = Cee_Switch) \<and>
     m_operandLength e = (if i = Cee_Switch then - 1 else of_nat (operandTypeSize (m_type e))) \<and>
     (IsFlagSet (m_flags e) ILOpcodeFlag_Branch \<longleftrightarrow>
        Cee_Br_S \<le> i \<and> i < Cee_Switch \<or> i = Cee_Leave \<or> i = Cee_Leave_S) \<and>
     (IsFlagSet (m_flags e) ILOpcodeFlag_Branch \<longrightarrow>
        m_type e = (if i < Cee_Br \<or> i = Cee_Leave_S then ILOperandType_Byte else ILOperandType_Int))"

definition row_alternate :: "int \<Rightarrow> ILOpcodeInfo \<Rightarrow> bool" where
  "row_alternate i e \<longleftrightarrow> m_alternate e = Cee_Invalid \<or>
     (case opcodeInfo (m_alternate e) of
        Ok e' \<Rightarrow> m_alternate e' = i \<and> m_flags e' = m_flags e \<and>
          m_popSlots e' = m_popSlots e \<and> m_pushSlots e' = m_pushSlots e \<and>
          (m_operandLength e = 1) \<noteq> (m_operandLength e' = 1)
      | _ \<Rightarrow> False)"

section \<open>Consistency of the table\<close>

lemma length_ilOpcodes:
  "length ilOpcodes_00 = 16"
  "length ilOpcodes_10 = 16"
  "length ilOpcodes_20 = 16"
  "length ilOpcodes_30 = 16"
  "length ilOpcodes_40 = 16"
  "length ilOpcodes_50 = 16"
  "length ilOpcodes_60 = 16"
  "length ilOpcodes_70 = 16"
  "length ilOpcodes_80 = 16"
  "length ilOpcodes_90 = 16"
  "length ilOpcodes_A0 = 16"
  "length ilOpcodes_B0 = 16"
  "length ilOpcodes_C0 = 16"
  "length ilOpcodes_D0 = 16"
  "length ilOpcodes_E0 = 16"
  "length ilOpcodes_F0 = 16"
  "length ilOpcodes_FE00 = 16"
  "length ilOpcodes_FE10 = 16"
  "length ilOpcodes_FE20 = 5"
  by (simp_all add: ilOpcodes_00_def ilOpcodes_10_def ilOpcodes_20_def ilOpcodes_30_def ilOpcodes_40_def
    ilOpcodes_50_def ilOpcodes_60_def ilOpcodes_70_def ilOpcodes_80_def ilOpcodes_90_def
    ilOpcodes_A0_def ilOpcodes_B0_def ilOpcodes_C0_def ilOpcodes_D0_def ilOpcodes_E0_def
    ilOpcodes_F0_def ilOpcodes_FE00_def ilOpcodes_FE10_def ilOpcodes_FE20_def)

lemma length_table [simp]: "length s_ilOpcodeInfo = 0x125"
  by (simp add: s_ilOpcodeInfo_def length_ilOpcodes)

lemma nth_chunk:
  "m \<le> k \<Longrightarrow> length c = n \<Longrightarrow> (c @ r) ! (k - m) = (if k < m + n then c ! (k - m) else r ! (k - (m + n)))"
  by (auto simp: nth_append less_diff_conv2)

text \<open>Evaluation looks only at the sixteen rows an ordinal falls in.\<close>

lemma opcodeInfo_code [code]:
  "opcodeInfo op = (if op < 0 then Undef
     else if op < 0x10 then Ok (ilOpcodes_00 ! nat (op - 0x0))
     else if op < 0x20 then Ok (ilOpcodes_10 ! nat (op - 0x10))
     else if op < 0x30 then Ok (ilOpcodes_20 ! nat (op - 0x20))
     else if op < 0x40 then Ok (ilOpcodes_30 ! nat (op - 0x30))
     else if op < 0x50 then Ok (ilOpcodes_40 ! nat (op - 0x40))
     else if op < 0x60 then Ok (ilOpcodes_50 ! nat (op - 0x50))
     else if op < 0x70 then Ok (ilOpcodes_60 ! nat (op - 0x60))
     else if op < 0x80 then Ok (ilOpcodes_70 ! nat (op - 0x70))
     else if op < 0x90 then Ok (ilOpcodes_80 ! nat (op - 0x80))
     else if op < 0xA0 then Ok (ilOpcodes_90 ! nat (op - 0x90))
     else if op < 0xB0 then Ok (ilOpcodes_A0 ! nat (op - 0xA0))
     else if op < 0xC0 then Ok (ilOpcodes_B0 ! nat (op - 0xB0))
     else if op < 0xD0 then Ok (ilOpcodes_C0 ! nat (op - 0xC0))
     else if op < 0xE0 then Ok (ilOpcodes_D0 ! nat (op - 0xD0))
     else if op < 0xF0 then Ok (ilOpcodes_E0 ! nat (op - 0xE0))
     else if op < 0x100 then Ok (ilOpcodes_F0 ! nat (op - 0xF0))
     else if op < 0x110 then Ok (ilOpcodes_FE00 ! nat (op - 0x100))
     else if op < 0x120 then Ok (ilOpcodes_FE10 ! nat (op - 0x110))
     else if op < 0x125 then Ok (ilOpcodes_FE20 ! nat (op - 0x120))
     else Undef)"
proof (cases "0 \<le> op \<and> op < 0x125")
  case True
  then obtain k where k: "op = int k" "k < 0x125" using zero_le_imp_eq_int by fastforce
  have "s_ilOpcodeInfo ! k = (
     if k < 16 then ilOpcodes_00 ! (k - 0) else
     if k < 32 then ilOpcodes_10 ! (k - 16) else
     if k < 48 then ilOpcodes_20 ! (k - 32) else
     if k < 64 then ilOpcodes_30 ! (k - 48) else
     if k < 80 then ilOpcodes_40 ! (k - 64) else
     if k < 96 then ilOpcodes_50 ! (k - 80) else
     if k < 112 then ilOpcodes_60 ! (k - 96) else
     if k < 128 then ilOpcodes_70 ! (k - 112) else
     if k < 144 then ilOpcodes_80 ! (k - 128) else
     if k < 160 then ilOpcodes_90 ! (k - 144) else
     if k < 176 then ilOpcodes_A0 ! (k - 160) else
     if k < 192 then ilOpcodes_B0 ! (k - 176) else
     if k < 208 then ilOpcodes_C0 ! (k - 192) else
     if k < 224 then ilOpcodes_D0 ! (k - 208) else
     if k < 240 then ilOpcodes_E0 ! (k - 224) else
     if k < 256 then ilOpcodes_F0 ! (k - 240) else
     if k < 272 then ilOpcodes_FE00 ! (k - 256) else
     if k < 288 then ilOpcodes_FE10 ! (k - 272) else
     ilOpcodes_FE20 ! (k - 288))"
    unfolding s_ilOpcodeInfo_def by (subst nth_append) (simp add: nth_chunk length_ilOpcodes cong: if_cong)
  then show ?thesis using k by (simp add: opcodeInfo_def nat_diff_distrib)
next
  case False
  then show ?thesis by (auto simp: opcodeInfo_def)
qed

lemma rows_ok_append: "rows_ok i P (xs @ ys) \<longleftrightarrow> rows_ok i P xs \<and> rows_ok (i + int (length xs)) P ys"
  by (induction xs arbitrary: i) (auto simp: algebra_simps)

lemma rows_ok_nth: "rows_ok i P xs \<Longrightarrow> k < length xs \<Longrightarrow> P (i + int k) (xs ! k)"
proof (induction xs arbitrary: i k)
  case (Cons e es)
  then show ?case using Cons.IH [of "i + 1" "k - 1"] by (cases k) (auto simp: algebra_simps)
qed simp

lemma row_shape_parts:
  "rows_ok 0x0 row_shape ilOpcodes_00"
  "rows_ok 0x10 row_shape ilOpcodes_10"
  "rows_ok 0x20 row_shape ilOpcodes_20"
  "rows_ok 0x30 row_shape ilOpcodes_30"
  "rows_ok 0x40 row_shape ilOpcodes_40"
  "rows_ok 0x50 row_shape ilOpcodes_50"
  "rows_ok 0x60 row_shape ilOpcodes_60"
  "rows_ok 0x70 row_shape ilOpcodes_70"
  "rows_ok 0x80 row_shape ilOpcodes_80"
  "rows_ok 0x90 row_shape ilOpcodes_90"
  "rows_ok 0xA0 row_shape ilOpcodes_A0"
  "rows_ok 0xB0 row_shape ilOpcodes_B0"
  "rows_ok 0xC0 row_shape ilOpcodes_C0"
  "rows_ok 0xD0 row_shape ilOpcodes_D0"
  "rows_ok 0xE0 row_shape ilOpcodes_E0"
  "rows_ok 0xF0 row_shape ilOpcodes_F0"
  "rows_ok 0x100 row_shape ilOpcodes_FE00"
  "rows_ok 0x110 row_shape ilOpcodes_FE10"
  "rows_ok 0x120 row_shape ilOpcodes_FE20"
  by code_simp+

lemma row_shape_table: "rows_ok 0 row_shape s_ilOpcodeInfo"
  using row_shape_parts by (simp add: s_ilOpcodeInfo_def rows_ok_append length_ilOpcodes)

lemma row_alternate_table: "rows_ok 0 row_alternate s_ilOpcodeInfo"
  by code_simp

lemma opcodeInfo_Ok:
  assumes "0 \<le> op" and "op < 0x125"
  shows "opcodeInfo op = Ok (s_ilOpcodeInfo ! nat op)"
  using assms by (simp add: opcodeInfo_def)

lemma opcodeInfo_range: "opcodeInfo op = Ok e \<Longrightarrow> 0 \<le> op \<and> op < 0x125"
  by (simp add: opcodeInfo_def split: if_splits)

lemma opcodeInfo_shape: "opcodeInfo op = Ok e \<Longrightarrow> row_shape op e"
  using rows_ok_nth [OF row_shape_table, of "nat op"] by (auto simp: opcodeInfo_def split: if_splits)

lemma opcodeInfo_alternate: "opcodeInfo op = Ok e \<Longrightarrow> row_alternate op e"
  using rows_ok_nth [OF row_alternate_table, of "nat op"] by (auto simp: opcodeInfo_def split: if_splits)

text \<open>C38. Every row of the opcode table is consistent: the opcode length is one byte below 0x100
  and two bytes for the 0xFE-prefixed opcodes, the operand length is the size of the operand type
  (and \<open>-1\<close> exactly for \<^verbatim>\<open>switch\<close>), the branch flag is set on exactly the branch
  opcodes with a one-byte or four-byte operand, and the alternate of an opcode has the opcode as
  its own alternate, the same flags and stack effect, and the other operand length.\<close>

theorem opcode_table_consistent:
  assumes "0 \<le> op" and "op < Cee_Count"
  shows "\<exists>e. opcodeInfo op = Ok e \<and> row_shape op e \<and> row_alternate op e"
  using assms opcodeInfo_Ok [of op] opcodeInfo_shape opcodeInfo_alternate by force

theorem opcode_table_consistent_witness:
  "\<exists>e. opcodeInfo Cee_Brfalse_S = Ok e \<and> row_shape Cee_Brfalse_S e \<and> row_alternate Cee_Brfalse_S e"
  by (rule opcode_table_consistent) simp_all

end
