(* ===== verification/CorSig.thy ===== *)
theory CorSig
  imports Prelude
begin

text \<open>
  The compressed integers, tokens and signed integers of metadata signatures
  (\<^verbatim>\<open>unix/inc/mincor/cor.h\<close>) and the bounded stream reader \<^verbatim>\<open>SigParser\<close>
  (\<^verbatim>\<open>InstrumentationEngine/SigParser.h\<close>).

  A signature pointer is the list of the bytes readable from it; reading past that list is
  \<^const>\<open>Undef\<close>.  The encoders return the byte count and the bytes they write.  The locale
  \<open>sig_codec\<close> states what a reader of signatures relies on; it is interpreted on the three
  codecs of the header.
\<close>

section \<open>Compressed unsigned data\<close>

definition SUCCEEDED :: "hresult \<Rightarrow> bool" where
  "SUCCEEDED hr \<longleftrightarrow> hr \<in> {S_OK, S_FALSE}"

definition byte_at :: "byte list \<Rightarrow> nat \<Rightarrow> DWORD result" where
  "byte_at p i = (if i < length p then Ok (ucast (p ! i)) else Undef)"

definition CorSigUncompressedDataSize :: "byte list \<Rightarrow> DWORD result" where
  "CorSigUncompressedDataSize pData = bindR (byte_at pData 0) (\<lambda>b.
     Ok (if b AND 0x80 = 0 then 1 else if b AND 0xC0 = 0x80 then 2 else 4))"

text \<open>The HRESULT overload: return code, \<^verbatim>\<open>*pDataOut\<close> and \<^verbatim>\<open>*pDataLen\<close>.\<close>

definition CorSigUncompressData_len :: "byte list \<Rightarrow> DWORD \<Rightarrow> (hresult \<times> DWORD \<times> DWORD) result" where
  "CorSigUncompressData_len pBytes len = bindR (byte_at pBytes 0) (\<lambda>b0.
     if b0 AND 0x80 = 0 then
       (if len < 1 then Ok (META_E_BAD_SIGNATURE, 0, 0) else Ok (S_OK, b0, 1))
     else if b0 AND 0xC0 = 0x80 then
       (if len < 2 then Ok (META_E_BAD_SIGNATURE, 0, 0)
        else bindR (byte_at pBytes 1) (\<lambda>b1. Ok (S_OK, push_bit 8 (b0 AND 0x3f) OR b1, 2)))
     else if b0 AND 0xE0 = 0xC0 then
       (if len < 4 then Ok (META_E_BAD_SIGNATURE, 0, 0)
        else bindR (byte_at pBytes 1) (\<lambda>b1. bindR (byte_at pBytes 2) (\<lambda>b2.
             bindR (byte_at pBytes 3) (\<lambda>b3.
               Ok (S_OK, push_bit 24 (b0 AND 0x1f) OR push_bit 16 b1 OR push_bit 8 b2 OR b3, 4)))))
     else Ok (META_E_BAD_SIGNATURE, 0, 0))"

text \<open>The overload without a length: the count, or \<open>-1\<close>, and \<^verbatim>\<open>*pDataOut\<close>.\<close>

definition CorSigUncompressData :: "byte list \<Rightarrow> (DWORD \<times> DWORD) result" where
  "CorSigUncompressData pData = bindR (CorSigUncompressData_len pData 0xff) (\<lambda>(hr, out, cb).
     if SUCCEEDED hr then Ok (cb, out) else Ok (- 1, 0))"

text \<open>The overload that advances the pointer; it returns the value and the number of bytes
  the pointer moved.\<close>

definition CorSigUncompressBigData :: "byte list \<Rightarrow> (DWORD \<times> nat) result" where
  "CorSigUncompressBigData pData = bindR (byte_at pData 0) (\<lambda>b0.
     if b0 AND 0xC0 = 0x80 then
       bindR (byte_at pData 1) (\<lambda>b1. Ok (push_bit 8 (b0 AND 0x3f) OR b1, 2))
     else
       bindR (byte_at pData 1) (\<lambda>b1. bindR (byte_at pData 2) (\<lambda>b2. bindR (byte_at pData 3) (\<lambda>b3.
         Ok (push_bit 24 (b0 AND 0x1f) OR push_bit 16 b1 OR push_bit 8 b2 OR b3, 4)))))"

definition CorSigUncompressData_adv :: "byte list \<Rightarrow> (DWORD \<times> nat) result" where
  "CorSigUncompressData_adv pData = bindR (byte_at pData 0) (\<lambda>b0.
     if b0 AND 0x80 = 0 then Ok (b0, 1) else CorSigUncompressBigData pData)"

definition CorSigCompressData :: "DWORD \<Rightarrow> DWORD \<times> byte list" where
  "CorSigCompressData iLen =
     (if iLen \<le> 0x7F then (1, [ucast iLen])
      else if iLen \<le> 0x3FFF then
        (2, [ucast (drop_bit 8 iLen OR 0x80), ucast (iLen AND 0xff)])
      else if iLen \<le> 0x1FFFFFFF then
        (4, [ucast (drop_bit 24 iLen OR 0xC0), ucast (drop_bit 16 iLen AND 0xff),
             ucast (drop_bit 8 iLen AND 0xff), ucast (iLen AND 0xff)])
      else (- 1, []))"

section \<open>Tokens\<close>

abbreviation (input) "mdTokenNil \<equiv> (0 :: mdToken)"
abbreviation (input) "mdtTypeRef \<equiv> (0x01000000 :: mdToken)"
abbreviation (input) "mdtTypeDef \<equiv> (0x02000000 :: mdToken)"
abbreviation (input) "mdtMethodDef \<equiv> (0x06000000 :: mdToken)"
abbreviation (input) "mdtMemberRef \<equiv> (0x0a000000 :: mdToken)"
abbreviation (input) "mdtSignature \<equiv> (0x11000000 :: mdToken)"
abbreviation (input) "mdtTypeSpec \<equiv> (0x1b000000 :: mdToken)"
abbreviation (input) "mdtMethodSpec \<equiv> (0x2b000000 :: mdToken)"
abbreviation (input) "mdtBaseType \<equiv> (0x72000000 :: mdToken)"

definition TokenFromRid :: "DWORD \<Rightarrow> mdToken \<Rightarrow> mdToken" where
  "TokenFromRid rid tktype = rid OR tktype"

definition RidFromToken :: "mdToken \<Rightarrow> DWORD" where
  "RidFromToken tk = tk AND 0x00ffffff"

definition TypeFromToken :: "mdToken \<Rightarrow> DWORD" where
  "TypeFromToken tk = tk AND 0xff000000"

definition g_tkCorEncodeToken :: "mdToken list" where
  "g_tkCorEncodeToken = [mdtTypeDef, mdtTypeRef, mdtTypeSpec, mdtBaseType]"

definition CorSigUncompressToken :: "byte list \<Rightarrow> (DWORD \<times> mdToken) result" where
  "CorSigUncompressToken pData = bindR (CorSigUncompressData pData) (\<lambda>(cb, tk).
     Ok (cb, TokenFromRid (drop_bit 2 tk) (g_tkCorEncodeToken ! unat (tk AND 0x3))))"

definition CorSigUncompressToken_len :: "byte list \<Rightarrow> DWORD \<Rightarrow> (hresult \<times> mdToken \<times> DWORD) result" where
  "CorSigUncompressToken_len pData dwLen = bindR (CorSigUncompressData_len pData dwLen)
     (\<lambda>(hr, tk, cb).
       if SUCCEEDED hr
       then Ok (hr, TokenFromRid (drop_bit 2 tk) (g_tkCorEncodeToken ! unat (tk AND 0x3)), cb)
       else Ok (hr, mdTokenNil, cb))"

definition CorSigUncompressToken_adv :: "byte list \<Rightarrow> (mdToken \<times> nat) result" where
  "CorSigUncompressToken_adv pData = bindR (CorSigUncompressData_adv pData) (\<lambda>(tk, n).
     Ok (TokenFromRid (drop_bit 2 tk) (g_tkCorEncodeToken ! unat (tk AND 0x3)), n))"

definition CorSigCompressToken :: "mdToken \<Rightarrow> DWORD \<times> byte list" where
  "CorSigCompressToken tk =
     (let rid = RidFromToken tk; ulTyp = TypeFromToken tk in
      if rid > 0x3FFFFFF then (- 1, [])
      else
        let rid = push_bit 2 rid;
            rid = (if ulTyp = g_tkCorEncodeToken ! 1 then rid OR 0x1
                   else if ulTyp = g_tkCorEncodeToken ! 2 then rid OR 0x2
                   else if ulTyp = g_tkCorEncodeToken ! 3 then rid OR 0x3
                   else rid)
        in CorSigCompressData rid)"

section \<open>Calling conventions, element types and signed integers\<close>

definition CorSigUncompressCallingConv_len :: "byte list \<Rightarrow> DWORD \<Rightarrow> (hresult \<times> DWORD) result" where
  "CorSigUncompressCallingConv_len pData dwLen =
     (if dwLen > 0 then bindR (byte_at pData 0) (\<lambda>b. Ok (S_OK, b)) else Ok (META_E_BAD_SIGNATURE, 0))"

definition CorSigUncompressElementType :: "byte list \<Rightarrow> (DWORD \<times> DWORD) result" where
  "CorSigUncompressElementType pData = bindR (byte_at pData 0) (\<lambda>b. Ok (1, b AND 0x7f))"

definition CorSigCompressElementType :: "DWORD \<Rightarrow> DWORD \<times> byte list" where
  "CorSigCompressElementType et = (1, [ucast et])"

abbreviation (input) "IMAGE_CEE_CS_CALLCONV_FIELD \<equiv> (6 :: DWORD)"
abbreviation (input) "IMAGE_CEE_CS_CALLCONV_MAX \<equiv> (0xc :: DWORD)"
abbreviation (input) "IMAGE_CEE_CS_CALLCONV_GENERIC \<equiv> (0x10 :: DWORD)"
abbreviation (input) "IMAGE_CEE_CS_CALLCONV_HASTHIS \<equiv> (0x20 :: DWORD)"
abbreviation (input) "ELEMENT_TYPE_VOID \<equiv> (1 :: DWORD)"

abbreviation (input) "SIGN_MASK_ONEBYTE \<equiv> (0xffffffc0 :: DWORD)"
abbreviation (input) "SIGN_MASK_TWOBYTE \<equiv> (0xffffe000 :: DWORD)"
abbreviation (input) "SIGN_MASK_FOURBYTE \<equiv> (0xf0000000 :: DWORD)"

text \<open>A C++ \<^verbatim>\<open>int\<close> is its 32-bit two's complement pattern, read by \<^const>\<open>sint\<close>.\<close>

definition CorSigUncompressSignedInt :: "byte list \<Rightarrow> (DWORD \<times> DWORD) result" where
  "CorSigUncompressSignedInt pData = bindR (CorSigUncompressData pData) (\<lambda>(cb, iData).
     if cb = - 1 then Ok (cb, 0)
     else
       let ulSigned = iData AND 0x1; iData = drop_bit 1 iData in
       Ok (cb, if ulSigned \<noteq> 0
               then (if cb = 1 then iData OR SIGN_MASK_ONEBYTE
                     else if cb = 2 then iData OR SIGN_MASK_TWOBYTE
                     else iData OR SIGN_MASK_FOURBYTE)
               else iData))"

definition CorSigCompressSignedInt :: "DWORD \<Rightarrow> DWORD \<times> byte list" where
  "CorSigCompressSignedInt iData =
     (let isSigned = (if sint iData < 0 then 1 else 0) in
      if iData AND SIGN_MASK_ONEBYTE = 0 \<or> iData AND SIGN_MASK_ONEBYTE = SIGN_MASK_ONEBYTE then
        let iData = push_bit 1 (iData AND NOT SIGN_MASK_ONEBYTE) OR isSigned in
        (1, [ucast iData])
      else if iData AND SIGN_MASK_TWOBYTE = 0 \<or> iData AND SIGN_MASK_TWOBYTE = SIGN_MASK_TWOBYTE then
        let iData = push_bit 1 (iData AND NOT SIGN_MASK_TWOBYTE) OR isSigned in
        (2, [ucast (signed_drop_bit 8 iData OR 0x80), ucast (iData AND 0xff)])
      else if iData AND SIGN_MASK_FOURBYTE = 0 \<or> iData AND SIGN_MASK_FOURBYTE = SIGN_MASK_FOURBYTE then
        let iData = push_bit 1 (iData AND NOT SIGN_MASK_FOURBYTE) OR isSigned in
        (4, [ucast (signed_drop_bit 24 iData OR 0xC0), ucast (signed_drop_bit 16 iData AND 0xff),
             ucast (signed_drop_bit 8 iData AND 0xff), ucast (iData AND 0xff)])
      else (- 1, []))"

section \<open>The bounded reader\<close>

record SigParser =
  m_ptr :: "byte list"
  m_dwLen :: DWORD

definition SkipBytes :: "DWORD \<Rightarrow> SigParser \<Rightarrow> SigParser" where
  "SkipBytes cb s = s \<lparr> m_ptr := drop (unat cb) (m_ptr s), m_dwLen := m_dwLen s - cb \<rparr>"


definition SigParser_PeekByte :: "(SigParser, byte) op" where
  "SigParser_PeekByte s = (if m_dwLen s > 0
     then (case m_ptr s of [] \<Rightarrow> (Undef, s) | b # _ \<Rightarrow> (Ok b, s))
     else (Fail META_E_BAD_SIGNATURE, s))"

definition SigParser_GetByte :: "(SigParser, byte) op" where
  "SigParser_GetByte s = (if m_dwLen s > 0
     then (case m_ptr s of [] \<Rightarrow> (Undef, s) | b # _ \<Rightarrow> (Ok b, SkipBytes 1 s))
     else (Fail META_E_BAD_SIGNATURE, s))"

definition SigParser_GetElemType :: "(SigParser, DWORD) op" where
  "SigParser_GetElemType s = (if m_dwLen s > 0
     then (case m_ptr s of [] \<Rightarrow> (Undef, s) | b # _ \<Rightarrow> (Ok (ucast b), SkipBytes 1 s))
     else (Fail META_E_BAD_SIGNATURE, s))"

definition SigParser_PeekElemType :: "(SigParser, DWORD) op" where
  "SigParser_PeekElemType s = (if m_dwLen s > 0
     then (case m_ptr s of [] \<Rightarrow> (Undef, s) | b # _ \<Rightarrow> (Ok (ucast b), s))
     else (Fail META_E_BAD_SIGNATURE, s))"

definition SigParser_PeekCallingConvInfo :: "(SigParser, DWORD) op" where
  "SigParser_PeekCallingConvInfo s =
     IfFailRet (liftR (CorSigUncompressCallingConv_len (m_ptr s) (m_dwLen s)))
       (\<lambda>(hr, data). if SUCCEEDED hr then ret data else fail hr) s"

definition SigParser_GetCallingConvInfo :: "(SigParser, DWORD) op" where
  "SigParser_GetCallingConvInfo s =
     IfFailRet (liftR (CorSigUncompressCallingConv_len (m_ptr s) (m_dwLen s)))
       (\<lambda>(hr, data). if SUCCEEDED hr then (\<lambda>s. (Ok data, SkipBytes 1 s)) else fail hr) s"

abbreviation (input) "IMAGE_CEE_CS_CALLCONV_MASK \<equiv> (0x0f :: DWORD)"

definition SigParser_GetCallingConv :: "(SigParser, DWORD) op" where
  "SigParser_GetCallingConv = IfFailRet SigParser_GetCallingConvInfo
     (\<lambda>info. ret (IMAGE_CEE_CS_CALLCONV_MASK AND info))"

definition SigParser_PeekData :: "(SigParser, DWORD) op" where
  "SigParser_PeekData s = IfFailRet (liftR (CorSigUncompressData_len (m_ptr s) (m_dwLen s)))
     (\<lambda>(hr, data, sizeOfData). if SUCCEEDED hr then ret data else fail hr) s"

definition SigParser_AtSentinel :: "SigParser \<Rightarrow> bool result" where
  "SigParser_AtSentinel s = (if m_dwLen s > 0
     then bindR (byte_at (m_ptr s) 0) (\<lambda>b. Ok (b = 0x41)) else Ok False)"

definition SigParser_GetToken :: "(SigParser, mdToken) op" where
  "SigParser_GetToken s = IfFailRet (liftR (CorSigUncompressToken_len (m_ptr s) (m_dwLen s)))
     (\<lambda>(hr, token, dwLen).
       if SUCCEEDED hr then (\<lambda>s. (Ok token, SkipBytes dwLen s)) else fail hr) s"


text \<open>Reading a fixed number of values in succession, the loop shape of every reader of a
  counted signature sequence.\<close>

fun read_seq :: "(byte list \<Rightarrow> (DWORD \<times> 'a) result) \<Rightarrow> nat \<Rightarrow> byte list \<Rightarrow> ('a list \<times> byte list) result" where
  "read_seq dec 0 p = Ok ([], p)"
| "read_seq dec (Suc n) p = bindR (dec p) (\<lambda>(cb, x).
     bindR (read_seq dec n (drop (unat cb) p)) (\<lambda>(xs, r). Ok (x # xs, r)))"

section \<open>Decoding undoes encoding\<close>

lemma le_const_bits: 
  "i \<le> (0x7F :: 32 word) \<Longrightarrow> bit i k \<Longrightarrow> k < 7"
  "i \<le> (0x3FFF :: 32 word) \<Longrightarrow> bit i k \<Longrightarrow> k < 14"
  "i \<le> (0x1FFFFFFF :: 32 word) \<Longrightarrow> bit i k \<Longrightarrow> k < 29"
  using small_word_bits[of i 7 k] small_word_bits[of i 14 k] small_word_bits[of i 29 k]
  by (simp_all add: word_le_nat_alt not_less [symmetric]) blast+

lemma byte_at_simps [simp]:
  "byte_at [] i = Undef" "byte_at (b # bs) 0 = Ok (ucast b)" "byte_at (b # bs) (Suc i) = byte_at bs i"
  by (simp_all add: byte_at_def)

lemma byte_at_num [simp]: "byte_at (b # bs) (numeral n) = byte_at bs (pred_numeral n)"
  by (simp add: numeral_eq_Suc)

lemma len_word_simps: "LENGTH(8) = 8" "LENGTH(16) = 16" "LENGTH(32) = 32" "LENGTH(64) = 64"
  by simp_all

lemmas word_bits = bit_simps mask_bits comp_def possible_bit_word len_word_simps

lemma tag1:
  assumes "i \<le> (0x7F :: DWORD)"
  shows "(ucast (ucast i :: byte) :: DWORD) = i" and "i AND 0x80 = 0"
  by (rule bit_word_eqI; simp only: word_bits; auto dest: le_const_bits(1) [OF assms])+

lemma tag2:
  assumes "i \<le> (0x3FFF :: DWORD)"
  shows "(ucast (ucast (drop_bit 8 i OR 0x80) :: byte) :: DWORD) AND 0xC0 = 0x80"
    and "push_bit 8 ((ucast (ucast (drop_bit 8 i OR 0x80) :: byte) :: DWORD) AND 0x3f)
           OR ucast (ucast (i AND 0xff) :: byte) = i"
  by (rule bit_word_eqI; simp only: word_bits; auto dest: le_const_bits(2) [OF assms])+

lemma tag4:
  assumes "i \<le> (0x1FFFFFFF :: DWORD)"
  shows "(ucast (ucast (drop_bit 24 i OR 0xC0) :: byte) :: DWORD) AND 0xE0 = 0xC0"
    and "push_bit 24 ((ucast (ucast (drop_bit 24 i OR 0xC0) :: byte) :: DWORD) AND 0x1f)
           OR push_bit 16 (ucast (ucast (drop_bit 16 i AND 0xff) :: byte))
           OR push_bit 8 (ucast (ucast (drop_bit 8 i AND 0xff) :: byte))
           OR ucast (ucast (i AND 0xff) :: byte) = i"
    subgoal by (rule bit_word_eqI; simp only: word_bits; auto dest: le_const_bits(3) [OF assms])
  subgoal
    apply (rule bit_word_eqI)
    subgoal for n
      by (simp only: word_bits; cases "n < 8"; cases "n < 16"; cases "n < 24";
          auto dest: le_const_bits(3) [OF assms])
    done
  done

lemma tag_dec:
  assumes "b AND 0xE0 = (0xC0::DWORD)" shows "b AND 0xC0 \<noteq> 0x80" "b AND 0x80 \<noteq> 0"
proof -
  have "bit (b AND 0xE0) 7" "bit (b AND 0xE0) 6" unfolding assms by simp_all
  then have "bit (b AND 0x80) 7" "bit (b AND 0xC0) 6" by (simp_all add: bit_simps)
  then show "b AND 0xC0 \<noteq> 0x80" "b AND 0x80 \<noteq> 0" by auto
qed

lemma tag_dec2: assumes "b AND 0xC0 = (0x80::DWORD)" shows "b AND 0x80 \<noteq> 0"
proof -
  have "bit (b AND 0xC0) 7" unfolding assms by simp_all
  then have "bit (b AND 0x80) 7" by (simp_all add: bit_simps)
  then show "b AND 0x80 \<noteq> 0" by auto
qed

lemmas keep_bytes = push_bit_and drop_bit_or

lemma uncompress_form1:
  assumes "v \<le> 0x7F" and "1 \<le> len"
  shows "CorSigUncompressData_len (ucast v # rest) len = Ok (S_OK, v, 1)"
  using assms by (auto simp: CorSigUncompressData_len_def tag1)

lemma uncompress_form2:
  assumes "v \<le> 0x3FFF" and "2 \<le> len"
  shows "CorSigUncompressData_len (ucast (drop_bit 8 v OR 0x80) # ucast (v AND 0xff) # rest) len
    = Ok (S_OK, v, 2)"
  using assms tag2 [OF assms(1)] tag_dec2 [OF tag2(1) [OF assms(1)]]
  unfolding CorSigUncompressData_len_def by (simp add: not_less del: keep_bytes)

lemma uncompress_form4:
  assumes "v \<le> 0x1FFFFFFF" and "4 \<le> len"
  shows "CorSigUncompressData_len (ucast (drop_bit 24 v OR 0xC0) # ucast (drop_bit 16 v AND 0xff)
      # ucast (drop_bit 8 v AND 0xff) # ucast (v AND 0xff) # rest) len = Ok (S_OK, v, 4)"
  using assms tag4 [OF assms(1)] tag_dec [OF tag4(1) [OF assms(1)]]
  unfolding CorSigUncompressData_len_def by (simp add: not_less del: keep_bytes)

lemma uncompress_compress_len:
  assumes "i \<le> 0x1FFFFFFF" and "CorSigCompressData i = (cb, bs)" and "cb \<le> len"
  shows "CorSigUncompressData_len (bs @ rest) len = Ok (S_OK, i, cb)"
  using assms uncompress_form1 uncompress_form2 uncompress_form4
  by (auto simp: CorSigCompressData_def split: if_splits)

lemma compress_count:
  assumes "i \<le> 0x1FFFFFFF" and "CorSigCompressData i = (cb, bs)"
  shows "unat cb = length bs" and "cb \<le> 4" and "bs \<noteq> []"
  using assms by (auto simp: CorSigCompressData_def split: if_splits)

lemma uncompress_compress:
  assumes "i \<le> 0x1FFFFFFF" and "CorSigCompressData i = (cb, bs)"
  shows "CorSigUncompressData (bs @ rest) = Ok (cb, i)"
  using uncompress_compress_len [OF assms, of "0xff" rest] compress_count(2) [OF assms]
  by (simp add: CorSigUncompressData_def SUCCEEDED_def order_trans [of cb 4])

lemma token_rid_bits:
  assumes "t \<le> 0x3"
  shows "drop_bit 2 (push_bit 2 (RidFromToken tk) OR (t :: DWORD)) = RidFromToken tk"
    and "(push_bit 2 (RidFromToken tk) OR t) AND 0x3 = t"
    and "push_bit 2 (RidFromToken tk) OR t \<le> 0x1FFFFFFF"
proof -
  have t: "bit t k \<Longrightarrow> k < 2" for k
    using small_word_bits [of t 2 k] assms by (simp add: word_le_nat_alt not_less [symmetric]) blast
  show "drop_bit 2 (push_bit 2 (RidFromToken tk) OR t) = RidFromToken tk"
    "(push_bit 2 (RidFromToken tk) OR t) AND 0x3 = t"
    by (rule bit_word_eqI; simp only: word_bits RidFromToken_def; auto dest: t)+
  have "take_bit 29 (push_bit 2 (RidFromToken tk) OR t) = push_bit 2 (RidFromToken tk) OR t"
    by (rule bit_word_eqI; simp only: word_bits RidFromToken_def; auto dest: t)
  then have "push_bit 2 (RidFromToken tk) OR t \<le> mask 29"
    by (metis take_bit_eq_mask word_and_le1)
  then show "push_bit 2 (RidFromToken tk) OR t \<le> 0x1FFFFFFF" by (simp add: mask_eq_exp_minus_1)
qed

lemma rid_small: "\<not> RidFromToken tk > 0x3FFFFFF"
proof -
  have "RidFromToken tk \<le> 0x00ffffff" by (simp add: RidFromToken_def word_and_le1)
  then show ?thesis by (simp add: not_less word_le_nat_alt)
qed

lemma rid_type: "RidFromToken tk OR TypeFromToken tk = tk"
  by (rule bit_word_eqI) (simp only: word_bits RidFromToken_def TypeFromToken_def, auto)

lemma uncompress_compress_token:
  assumes "TypeFromToken tk \<in> set g_tkCorEncodeToken" and "CorSigCompressToken tk = (cb, bs)"
  shows "CorSigUncompressToken (bs @ rest) = Ok (cb, tk)"
    and "unat cb = length bs" "bs \<noteq> []"
proof -
  define t :: DWORD where "t = (if TypeFromToken tk = mdtTypeRef then 1
     else if TypeFromToken tk = mdtTypeSpec then 2 else if TypeFromToken tk = mdtBaseType then 3 else 0)"
  have t: "t \<le> 0x3" "CorSigCompressToken tk = CorSigCompressData (push_bit 2 (RidFromToken tk) OR t)"
     "g_tkCorEncodeToken ! unat t = TypeFromToken tk"
    using assms(1) rid_small [of tk] by (auto simp: g_tkCorEncodeToken_def CorSigCompressToken_def t_def)
  note b = token_rid_bits[OF t(1), of tk]
  show "CorSigUncompressToken (bs @ rest) = Ok (cb, tk)"
    using uncompress_compress [OF b(3)] assms(2)
    by (simp add: t b CorSigUncompressToken_def TokenFromRid_def rid_type del: keep_bytes)
  show "unat cb = length bs" "bs \<noteq> []" 
    using compress_count [OF b(3)] assms(2) by (simp_all add: t)
qed


lemma top_bits_same:
  assumes "i AND M = 0 \<or> i AND M = M" and "\<And>n. bit M n \<longleftrightarrow> k \<le> n \<and> n < 32" and "k < 32" "n < 32" "k \<le> n"
  shows "bit (i :: DWORD) n \<longleftrightarrow> sint i < 0"
proof -
  have "bit (i AND M) n = bit i n" "bit (i AND M) 31 = bit i 31" "bit M n" "bit M 31"
    using assms by (simp_all add: bit_and_iff)
  with assms(1) have "bit i n = bit i 31" by force
  then show ?thesis using bit_last_iff [of i] by simp
qed

lemma signed_pack:
  assumes "i AND M = 0 \<or> i AND M = M" and M: "\<And>n. bit M n \<longleftrightarrow> k \<le> n \<and> n < 32" and k: "k < 31"
    and v: "v = push_bit 1 (i AND NOT M) OR (if sint i < 0 then 1 else 0)"
  shows "\<forall>n. bit v n \<longrightarrow> n \<le> k"
    and "v AND 1 \<noteq> 0 \<longleftrightarrow> sint (i :: DWORD) < 0"
    and "sint i < 0 \<Longrightarrow> drop_bit 1 v OR M = i"
    and "\<not> sint i < 0 \<Longrightarrow> drop_bit 1 v = i"
proof -
  note top = top_bits_same [OF assms(1) M]
  have "n \<le> k" if "bit v n" for n
    using that k unfolding v by (simp only: word_bits M split: if_splits) auto
  then show "\<forall>n. bit v n \<longrightarrow> n \<le> k" by blast
  have "bit v 0 \<longleftrightarrow> sint i < 0" unfolding v by (simp only: word_bits split: if_splits) auto
  then show "v AND 1 \<noteq> 0 \<longleftrightarrow> sint i < 0" by (simp add: and_one_eq bit_0 odd_iff_mod_2_eq_one)
  have *: "bit (drop_bit 1 v) n \<longleftrightarrow> bit i n \<and> n < k" if "n < 32" for n
    using that k unfolding v by (cases "sint i < 0"; simp only: word_bits M if_True if_False; auto)
  show "drop_bit 1 v OR M = i" if "sint i < 0"
    by (rule bit_word_eqI) (use * top that k in \<open>auto simp: bit_or_iff M\<close>)
  show "drop_bit 1 v = i" if "\<not> sint i < 0"
    by (rule bit_word_eqI) (use * top that k in \<open>auto simp: M not_less not_le [symmetric]\<close>)
qed

lemma bits_le_mask:
  assumes "\<forall>n. bit (v :: DWORD) n \<longrightarrow> n \<le> k" and "k < 31" shows "v \<le> mask (Suc k)"
proof -
  have "take_bit (Suc k) v = v" by (rule bit_word_eqI) (auto simp: bit_simps less_Suc_eq_le assms(1))
  then show ?thesis by (metis take_bit_eq_mask word_and_le1)
qed
lemma signed_drop_bit_pos:
  assumes "\<forall>n. bit (v :: DWORD) n \<longrightarrow> n \<le> k" and "k < 31" shows "signed_drop_bit m v = drop_bit m v"
proof -
  have "\<not> bit v 31" using assms by fastforce
  then show ?thesis by (intro bit_word_eqI) (use assms in \<open>auto simp: bit_simps dest: bit_imp_le_length\<close>)
qed

lemma int_small_bits:
  assumes "0 \<le> (x :: int)" "x < 2 ^ m" "m \<le> n" shows "\<not> bit x n"
  using assms by (metis bit_take_bit_iff not_le take_bit_int_eq_self)

lemma signed_range:
  assumes "- (2 ^ 28) \<le> sint (i :: DWORD)" "sint i < 2 ^ 28"
  shows "i AND SIGN_MASK_FOURBYTE = 0 \<or> i AND SIGN_MASK_FOURBYTE = SIGN_MASK_FOURBYTE"
proof -
  have b: "bit i n \<longleftrightarrow> bit (sint i) n" if "n < 32" for n
    using that by (simp add: bit_sint_iff)
  show ?thesis
  proof (cases "sint i < 0")
    case True
    have "NOT (sint i) < 2 ^ 28" using assms(1) by (simp add: not_int_def)
    with True have "bit (sint i) n" if "28 \<le> n" for n
      using int_small_bits [of "NOT (sint i)" 28 n] that by (simp add: bit_not_iff)
    then have "i AND SIGN_MASK_FOURBYTE = SIGN_MASK_FOURBYTE"
      by (intro bit_word_eqI) (auto simp only: bit_and_iff mask_bits b)
    then show ?thesis ..
  next
    case False
    then have "\<not> bit (sint i) n" if "28 \<le> n" for n
      using int_small_bits [of "sint i" 28 n] assms that by simp
    then have "i AND SIGN_MASK_FOURBYTE = 0"
      by (intro bit_word_eqI) (auto simp: bit_and_iff mask_bits b simp del: bit_numeral_word_iff)
    then show ?thesis ..
  qed
qed

lemma uncompress_signed_form:
  assumes "CorSigUncompressData_len p 0xff = Ok (S_OK, v, cb)" and "cb \<noteq> - 1"
    and "M = (if cb = 1 then SIGN_MASK_ONEBYTE else if cb = 2 then SIGN_MASK_TWOBYTE else SIGN_MASK_FOURBYTE)"
    and "v AND 1 \<noteq> 0 \<longleftrightarrow> sint i < 0"
    and "sint i < 0 \<Longrightarrow> drop_bit 1 v OR M = i" and "\<not> sint i < 0 \<Longrightarrow> drop_bit 1 v = i"
  shows "CorSigUncompressSignedInt p = Ok (cb, i)"
proof -
  have "CorSigUncompressData p = Ok (cb, v)"
    using assms(1) by (simp add: CorSigUncompressData_def SUCCEEDED_def)
  with assms(2-) show ?thesis
    unfolding CorSigUncompressSignedInt_def Let_def by (cases "sint i < 0") auto
qed

lemma signed_form1:
  fixes i M v :: DWORD
  assumes "M = SIGN_MASK_ONEBYTE" and "i AND M = 0 \<or> i AND M = M"
    and v: "v = push_bit 1 (i AND NOT M) OR (if sint i < 0 then 1 else 0)"
  shows "CorSigUncompressSignedInt (ucast v # rest) = Ok (1, i)"
proof -
  have k: "(6::nat) < 31" by simp
  note p = signed_pack [OF assms(2) mask_bits(10) [folded assms(1)] k v]
  have "v \<le> 0x7F" using bits_le_mask [OF p(1) k] by (simp add: mask_eq_exp_minus_1)
  then have "CorSigUncompressData_len (ucast v # rest) 0xff = Ok (S_OK, v, 1)"
    by (rule uncompress_form1) simp
  then show ?thesis by (rule uncompress_signed_form [OF _ _ _ p(2-4)]) (simp_all add: assms(1))
qed

lemma signed_form2:
  fixes i M v :: DWORD
  assumes "M = SIGN_MASK_TWOBYTE" and "i AND M = 0 \<or> i AND M = M"
    and v: "v = push_bit 1 (i AND NOT M) OR (if sint i < 0 then 1 else 0)"
  shows "CorSigUncompressSignedInt (ucast (signed_drop_bit 8 v OR 0x80) # ucast (v AND 0xff) # rest)
    = Ok (2, i)"
proof -
  have k: "(13::nat) < 31" by simp
  note p = signed_pack [OF assms(2) mask_bits(11) [folded assms(1)] k v]
  have "v \<le> 0x3FFF" using bits_le_mask [OF p(1) k] by (simp add: mask_eq_exp_minus_1)
  then have "CorSigUncompressData_len (ucast (drop_bit 8 v OR 0x80) # ucast (v AND 0xff) # rest) 0xff
      = Ok (S_OK, v, 2)" by (rule uncompress_form2) simp
  then show ?thesis unfolding signed_drop_bit_pos [OF p(1) k]
    by (rule uncompress_signed_form [OF _ _ _ p(2-4)]) (simp_all add: assms(1))
qed

lemma signed_form4:
  fixes i M v :: DWORD
  assumes "M = SIGN_MASK_FOURBYTE" and "i AND M = 0 \<or> i AND M = M"
    and v: "v = push_bit 1 (i AND NOT M) OR (if sint i < 0 then 1 else 0)"
  shows "CorSigUncompressSignedInt (ucast (signed_drop_bit 24 v OR 0xC0)
      # ucast (signed_drop_bit 16 v AND 0xff) # ucast (signed_drop_bit 8 v AND 0xff)
      # ucast (v AND 0xff) # rest) = Ok (4, i)"
proof -
  have k: "(28::nat) < 31" by simp
  note p = signed_pack [OF assms(2) mask_bits(12) [folded assms(1)] k v]
  have "v \<le> 0x1FFFFFFF" using bits_le_mask [OF p(1) k] by (simp add: mask_eq_exp_minus_1)
  then have "CorSigUncompressData_len (ucast (drop_bit 24 v OR 0xC0) # ucast (drop_bit 16 v AND 0xff)
      # ucast (drop_bit 8 v AND 0xff) # ucast (v AND 0xff) # rest) 0xff = Ok (S_OK, v, 4)"
    by (rule uncompress_form4) simp
  then show ?thesis unfolding signed_drop_bit_pos [OF p(1) k]
    by (rule uncompress_signed_form [OF _ _ _ p(2-4)]) (simp_all add: assms(1))
qed

lemma uncompress_compress_signed:
  assumes "- (2 ^ 28) \<le> sint i" "sint i < 2 ^ 28" and "CorSigCompressSignedInt i = (cb, bs)"
  shows "CorSigUncompressSignedInt (bs @ rest) = Ok (cb, i)"
    and "unat cb = length bs" and "bs \<noteq> []"
proof -
  let ?P = "\<lambda>M. i AND M = 0 \<or> i AND M = M"
  consider (one) "?P SIGN_MASK_ONEBYTE" | (two) "\<not> ?P SIGN_MASK_ONEBYTE" "?P SIGN_MASK_TWOBYTE"
    | (four) "\<not> ?P SIGN_MASK_ONEBYTE" "\<not> ?P SIGN_MASK_TWOBYTE" "?P SIGN_MASK_FOURBYTE"
    using signed_range [OF assms(1,2)] by blast
  then have "CorSigUncompressSignedInt (bs @ rest) = Ok (cb, i) \<and> unat cb = length bs \<and> bs \<noteq> []"
  proof cases
    case one
    then show ?thesis using assms(3) signed_form1 [OF refl one refl]
      unfolding CorSigCompressSignedInt_def Let_def if_P [OF one] by (auto simp del: keep_bytes)
  next
    case two
    then show ?thesis using assms(3) signed_form2 [OF refl two(2) refl]
      unfolding CorSigCompressSignedInt_def Let_def if_not_P [OF two(1)] if_P [OF two(2)]
      by (auto simp del: keep_bytes)
  next
    case four
    then show ?thesis using assms(3) signed_form4 [OF refl four(3) refl]
      unfolding CorSigCompressSignedInt_def Let_def if_not_P [OF four(1)] if_not_P [OF four(2)]
        if_P [OF four(3)] by (auto simp del: keep_bytes)
  qed
  then show "CorSigUncompressSignedInt (bs @ rest) = Ok (cb, i)" "unat cb = length bs" "bs \<noteq> []"
    by blast+
qed

section \<open>What a signature reader relies on\<close>

locale sig_codec =
  fixes enc :: "'a \<Rightarrow> DWORD \<times> byte list"
    and dec :: "byte list \<Rightarrow> (DWORD \<times> 'a) result"
    and encodable :: "'a \<Rightarrow> bool"
  assumes dec_enc: "encodable x \<Longrightarrow> enc x = (cb, bs) \<Longrightarrow> dec (bs @ rest) = Ok (cb, x)"
    and enc_count: "encodable x \<Longrightarrow> enc x = (cb, bs) \<Longrightarrow> unat cb = length bs"
    and enc_nonempty: "encodable x \<Longrightarrow> enc x = (cb, bs) \<Longrightarrow> bs \<noteq> []"
begin

lemma read_concat:
  assumes "\<forall>x \<in> set xs. encodable x"
  shows "read_seq dec (length xs) (concat (map (\<lambda>x. snd (enc x)) xs) @ rest) = Ok (xs, rest)"
  using assms
proof (induction xs)
  case (Cons x xs)
  obtain cb bs where e: "enc x = (cb, bs)" by (cases "enc x")
  show ?case
    using Cons dec_enc [OF _ e, of "concat (map (\<lambda>x. snd (enc x)) xs) @ rest"] enc_count [OF _ e]
    by (simp add: e)
qed simp

lemma snd_enc_nonempty: "encodable x \<Longrightarrow> snd (enc x) \<noteq> []"
  by (cases "enc x") (auto dest: enc_nonempty)

lemma prefix_free:
  assumes "encodable x" "encodable y" and "snd (enc x) @ r = snd (enc y) @ s"
  shows "x = y \<and> r = s"
proof -
  obtain cb bs cb' bs' where e: "enc x = (cb, bs)" "enc y = (cb', bs')" by fastforce
  have "Ok (cb, x) = Ok (cb', y)"
    using dec_enc [OF assms(1) e(1), of r] dec_enc [OF assms(2) e(2), of s] assms(3) by (simp add: e)
  then have "x = y" by simp
  with assms(3) e show ?thesis by simp
qed

lemma concat_injective:
  assumes "\<forall>x \<in> set xs. encodable x" "\<forall>y \<in> set ys. encodable y"
    and "concat (map (\<lambda>x. snd (enc x)) xs) = concat (map (\<lambda>x. snd (enc x)) ys)"
  shows "xs = ys"
  using assms
proof (induction xs arbitrary: ys)
  case Nil
  then show ?case by (cases ys) (simp_all add: snd_enc_nonempty)
next
  case (Cons x xs)
  from Cons.prems obtain y ys' where ys: "ys = y # ys'"
    by (cases ys) (simp_all add: snd_enc_nonempty)
  from Cons.prems(3) have eq: "snd (enc x) @ concat (map (\<lambda>x. snd (enc x)) xs)
      = snd (enc y) @ concat (map (\<lambda>x. snd (enc x)) ys')" by (simp add: ys)
  have "x = y \<and> concat (map (\<lambda>x. snd (enc x)) xs) = concat (map (\<lambda>x. snd (enc x)) ys')"
    using Cons.prems(1,2) by (intro prefix_free [OF _ _ eq]) (simp_all add: ys)
  with Cons.IH [of ys'] Cons.prems(1,2) show ?case by (simp add: ys)
qed

end

interpretation data: sig_codec CorSigCompressData CorSigUncompressData "\<lambda>i. i \<le> 0x1FFFFFFF"
  by unfold_locales (auto simp: uncompress_compress compress_count)

interpretation token: sig_codec CorSigCompressToken CorSigUncompressToken
  "\<lambda>tk. TypeFromToken tk \<in> set g_tkCorEncodeToken"
  by unfold_locales (auto simp: uncompress_compress_token)

interpretation signed: sig_codec CorSigCompressSignedInt CorSigUncompressSignedInt
  "\<lambda>i. - (2 ^ 28) \<le> sint i \<and> sint i < 2 ^ 28"
  by unfold_locales (use uncompress_compress_signed in blast)+

section \<open>Properties\<close>

lemma compress_too_big: "\<not> i \<le> 0x1FFFFFFF \<Longrightarrow> CorSigCompressData i = (- 1, [])"
  by (auto simp: CorSigCompressData_def word_le_nat_alt)

text \<open>Every value up to 0x1FFFFFFF is compressed into one, two or four bytes that the
  reader, given any length that covers them, expands to the same value and the same count;
  every other value is refused with the count \<open>-1\<close> and nothing is written.\<close>

theorem CorSigCompressData_roundtrip:
  "if i \<le> 0x1FFFFFFF
   then \<exists>bs. CorSigCompressData i = (of_nat (length bs), bs) \<and> length bs \<in> {1, 2, 4} \<and>
     (\<forall>rest n. CorSigUncompressData_len (bs @ rest) (max (of_nat (length bs)) n)
        = Ok (S_OK, i, of_nat (length bs)))
   else CorSigCompressData i = (- 1, [])"
proof (cases "i \<le> 0x1FFFFFFF")
  case True
  obtain cb bs where e: "CorSigCompressData i = (cb, bs)" by (cases "CorSigCompressData i")
  have "cb = of_nat (length bs)" using compress_count(1) [OF True e, symmetric] by simp
  moreover have "length bs \<in> {1, 2, 4}"
    using e True by (auto simp: CorSigCompressData_def split: if_splits)
  ultimately show ?thesis using True e uncompress_compress_len [OF True e] by auto
qed (simp add: compress_too_big)

lemma byte_at_Ok: "k < unat len \<Longrightarrow> unat len \<le> length p \<Longrightarrow> byte_at p k = Ok (ucast (p ! k))"
  by (simp add: byte_at_def)









text \<open>A signature holds its tokens and its signed array bounds without loss: compressing a
  TypeDef, TypeRef, TypeSpec or BaseType token, or an integer of 29 bits, and expanding it again
  gives back the value and the byte count, whatever bytes follow.\<close>

theorem CorSig_token_and_signed_roundtrip:
  "(TypeFromToken tk \<in> set g_tkCorEncodeToken \<longrightarrow>
      (\<exists>bs. CorSigCompressToken tk = (of_nat (length bs), bs) \<and>
        (\<forall>rest. CorSigUncompressToken (bs @ rest) = Ok (of_nat (length bs), tk)))) \<and>
   (- (2 ^ 28) \<le> sint i \<and> sint i < 2 ^ 28 \<longrightarrow>
      (\<exists>bs. CorSigCompressSignedInt i = (of_nat (length bs), bs) \<and>
        (\<forall>rest. CorSigUncompressSignedInt (bs @ rest) = Ok (of_nat (length bs), i))))"
proof (intro conjI impI)
  assume t: "TypeFromToken tk \<in> set g_tkCorEncodeToken"
  obtain cb bs where e: "CorSigCompressToken tk = (cb, bs)" by (cases "CorSigCompressToken tk")
  then show "\<exists>bs. CorSigCompressToken tk = (of_nat (length bs), bs) \<and>
        (\<forall>rest. CorSigUncompressToken (bs @ rest) = Ok (of_nat (length bs), tk))"
    using token.dec_enc [OF t e] token.enc_count [OF t e, symmetric] by auto
next
  assume i: "- (2 ^ 28) \<le> sint i \<and> sint i < 2 ^ 28"
  obtain cb bs where e: "CorSigCompressSignedInt i = (cb, bs)" by (cases "CorSigCompressSignedInt i")
  then show "\<exists>bs. CorSigCompressSignedInt i = (of_nat (length bs), bs) \<and>
        (\<forall>rest. CorSigUncompressSignedInt (bs @ rest) = Ok (of_nat (length bs), i))"
    using signed.dec_enc [OF i e] signed.enc_count [OF i e, symmetric] by auto
qed

theorem CorSig_token_and_signed_roundtrip_witness:
  "CorSigCompressToken 0x1b000012 = (1, [0x4a]) \<and>
   CorSigUncompressToken [0x4a, 0x05] = Ok (1, 0x1b000012) \<and>
   CorSigCompressSignedInt (- 8192) = (2, [0x80, 0x01]) \<and>
   CorSigUncompressSignedInt [0x80, 0x01] = Ok (2, - 8192)"
proof -
  have t: "TypeFromToken 0x1b000012 \<in> set g_tkCorEncodeToken" by code_simp
  have i: "- (2 ^ 28) \<le> sint (- 8192 :: DWORD) \<and> sint (- 8192 :: DWORD) < 2 ^ 28" by code_simp
  have e: "CorSigCompressToken 0x1b000012 = (1, [0x4a])"
    "CorSigCompressSignedInt (- 8192) = (2, [0x80, 0x01])" by code_simp+
  note r = CorSig_token_and_signed_roundtrip [of "0x1b000012" "- 8192"]
  obtain bs where "CorSigCompressToken 0x1b000012 = (of_nat (length bs), bs)"
    and d: "\<forall>rest. CorSigUncompressToken (bs @ rest) = Ok (of_nat (length bs), 0x1b000012)"
    using r t by blast
  then have "bs = [0x4a]" using e(1) by simp
  with d have "CorSigUncompressToken ([0x4a] @ [0x05]) = Ok (1, 0x1b000012)" by fastforce
  moreover obtain bs' where "CorSigCompressSignedInt (- 8192) = (of_nat (length bs'), bs')"
    and d': "\<forall>rest. CorSigUncompressSignedInt (bs' @ rest) = Ok (of_nat (length bs'), - 8192)"
    using r i by blast
  then have "bs' = [0x80, 0x01]" using e(2) by simp
  with d' have "CorSigUncompressSignedInt ([0x80, 0x01] @ []) = Ok (2, - 8192)" by fastforce
  ultimately show ?thesis using e by simp
qed

text \<open>A sequence of compressed integers is uniquely decodable: reading as many values as were
  written returns exactly the values written and stops at the byte that follows them, and two
  different sequences never have the same bytes.\<close>

theorem CorSigCompressData_sequence:
  assumes "\<forall>x \<in> set xs. x \<le> 0x1FFFFFFF"
  shows "read_seq CorSigUncompressData (length xs)
           (concat (map (\<lambda>x. snd (CorSigCompressData x)) xs) @ rest) = Ok (xs, rest) \<and>
    (\<forall>ys. (\<forall>y \<in> set ys. y \<le> 0x1FFFFFFF) \<longrightarrow>
       concat (map (\<lambda>x. snd (CorSigCompressData x)) xs)
         = concat (map (\<lambda>x. snd (CorSigCompressData x)) ys) \<longrightarrow> xs = ys)"
  using data.read_concat [OF assms] data.concat_injective [OF assms] by blast

theorem CorSigCompressData_sequence_witness:
  "concat (map (\<lambda>x. snd (CorSigCompressData x)) [3, 0x80, 0x4000]) = [3, 0x80, 0x80, 0xC0, 0, 0x40, 0] \<and>
   read_seq CorSigUncompressData 3 ([3, 0x80, 0x80, 0xC0, 0, 0x40, 0] @ [9]) = Ok ([3, 0x80, 0x4000], [9])"
proof -
  have e: "concat (map (\<lambda>x. snd (CorSigCompressData x)) [3, 0x80, 0x4000])
      = [3, 0x80, 0x80, 0xC0, 0, 0x40, 0]" by code_simp
  have "\<forall>x \<in> set [3, 0x80, 0x4000 :: DWORD]. x \<le> 0x1FFFFFFF" by code_simp
  from CorSigCompressData_sequence [OF this, of "[9]"] e show ?thesis
    by (simp add: eval_nat_numeral del: read_seq.simps concat.simps)
qed

end
