(* ===== verification/Instructions.thy ===== *)
theory Instructions
  imports Opcodes CorSig
begin

text \<open>
  The instruction objects of \<^verbatim>\<open>InstrumentationEngine/Instruction.h\<close> and
  \<^verbatim>\<open>Instruction.cpp\<close>: \<^verbatim>\<open>CInstruction\<close> and its subclasses as a record with a class
  part, their constructors, decoding from a byte stream, operand access, branch expansion and the
  attribute getters.  Addresses name instruction objects; the heap they live in is introduced in
  the theory of the instruction graph.

  A decoded stream is a byte list \<open>mem\<close> with the positions \<open>pCode\<close> and \<open>pEndOfCode\<close>;
  a read outside \<open>mem\<close> is \<^const>\<open>Undef\<close>.  The operand union is its eight bytes, so a write
  through a shorter member keeps the other bytes.
\<close>

section \<open>Objects\<close>

type_synonym gid = nat

datatype InstructionGeneration = Generation_Original | Generation_Baseline | Generation_New

datatype InstructionTerminationType = TerminationType_FallThrough | TerminationType_Branch
  | TerminationType_ConditionalBranch | TerminationType_Throw | TerminationType_Switch
  | TerminationType_Call | TerminationType_IndirectCall | TerminationType_Return
  | TerminationType_Trap

datatype iclass = Plain
  | Operand "byte list"
  | Branch DWORD "addr option" "addr option"
  | Switch "DWORD list" "addr option list"

text \<open>\<open>m_branchInfo\<close> is the \<^verbatim>\<open>CBranchTargetInfo\<close> data item of the instruction: the set of
  the branches that target it, in the iteration order of the set.\<close>

record instr =
  m_opcode :: ILOrdinalOpcode
  m_offset :: DWORD
  m_origOffset :: DWORD
  m_instructionGeneration :: InstructionGeneration
  m_bIsRemoved :: bool
  m_pGraph :: "gid option"
  m_pNextInstruction :: "addr option"
  m_pPreviousInstruction :: "addr option"
  m_pOriginalNextInstruction :: "addr option"
  m_pOriginalPreviousInstruction :: "addr option"
  m_class :: iclass
  m_branchInfo :: "addr list option"

definition new_CInstruction :: "ILOrdinalOpcode \<Rightarrow> bool \<Rightarrow> instr" where
  "new_CInstruction opcode isNew = \<lparr> m_opcode = opcode, m_offset = 0, m_origOffset = 0,
     m_instructionGeneration = (if isNew then Generation_New else Generation_Original),
     m_bIsRemoved = False, m_pGraph = None, m_pNextInstruction = None,
     m_pPreviousInstruction = None, m_pOriginalNextInstruction = None,
     m_pOriginalPreviousInstruction = None, m_class = Plain, m_branchInfo = None \<rparr>"

definition new_COperandInstruction :: "ILOrdinalOpcode \<Rightarrow> bool \<Rightarrow> instr" where
  "new_COperandInstruction opcode isNew =
     (new_CInstruction opcode isNew) \<lparr> m_class := Operand (replicate 8 0) \<rparr>"

definition new_CBranchInstruction :: "ILOrdinalOpcode \<Rightarrow> bool \<Rightarrow> instr" where
  "new_CBranchInstruction opcode isNew =
     (new_CInstruction opcode isNew) \<lparr> m_class := Branch 0 None None \<rparr>"

definition new_CSwitchInstruction :: "ILOrdinalOpcode \<Rightarrow> bool \<Rightarrow> DWORD \<Rightarrow> instr" where
  "new_CSwitchInstruction opcode isNew initialCount =
     (new_CInstruction opcode isNew) \<lparr> m_class := Switch [] (replicate (unat initialCount) None) \<rparr>"

section \<open>Attributes\<close>

definition GetIsSwitchInternal :: "instr \<Rightarrow> bool" where
  "GetIsSwitchInternal i \<longleftrightarrow> m_opcode i = Cee_Switch"

definition GetIsBranchInternal :: "instr \<Rightarrow> bool result" where
  "GetIsBranchInternal i = bindR (opcodeInfo (m_opcode i)) (\<lambda>e.
     Ok (IsFlagSet (m_flags e) ILOpcodeFlag_Branch))"

definition GetOpCodeName :: "instr \<Rightarrow> string result" where
  "GetOpCodeName i = bindR (opcodeInfo (m_opcode i)) (\<lambda>e. Ok (m_name e))"

definition GetAlternateOrdinalOpcode :: "instr \<Rightarrow> ILOrdinalOpcode result" where
  "GetAlternateOrdinalOpcode i = bindR (opcodeInfo (m_opcode i)) (\<lambda>e. Ok (m_alternate e))"

definition GetOpcodeFlags :: "instr \<Rightarrow> DWORD result" where
  "GetOpcodeFlags i = bindR (opcodeInfo (m_opcode i)) (\<lambda>e. Ok (m_flags e))"

definition GetInstructionLength :: "instr \<Rightarrow> DWORD result" where
  "GetInstructionLength i = bindR (opcodeInfo (m_opcode i)) (\<lambda>e.
     Ok (m_opcodeLength e + m_operandLength e))"

definition GetOpcodeLength :: "instr \<Rightarrow> DWORD result" where
  "GetOpcodeLength i = bindR (opcodeInfo (m_opcode i)) (\<lambda>e. Ok (m_opcodeLength e))"

definition GetOperandType :: "instr \<Rightarrow> ILOperandType result" where
  "GetOperandType i = bindR (opcodeInfo (m_opcode i)) (\<lambda>e. Ok (m_type e))"

text \<open>The two virtual functions \<^verbatim>\<open>CSwitchInstruction\<close> overrides.\<close>

definition GetOperandLength :: "instr \<Rightarrow> DWORD result" where
  "GetOperandLength i = (case m_class i of
       Switch _ branchTargets \<Rightarrow> Ok ((of_nat (length branchTargets) + 1) * 4)
     | _ \<Rightarrow> bindR (opcodeInfo (m_opcode i)) (\<lambda>e. Ok (m_operandLength e)))"

definition GetInstructionSize :: "instr \<Rightarrow> DWORD result" where
  "GetInstructionSize i = bindR (opcodeInfo (m_opcode i)) (\<lambda>e. case m_class i of
       Switch _ branchTargets \<Rightarrow> Ok (m_opcodeLength e + of_nat ((length branchTargets + 1) * 4))
     | _ \<Rightarrow> Ok (m_opcodeLength e + m_operandLength e))"

definition GetIsNew :: "instr \<Rightarrow> bool" where
  "GetIsNew i \<longleftrightarrow> m_instructionGeneration i = Generation_New"

definition GetIsCallInstruction :: "instr \<Rightarrow> bool" where
  "GetIsCallInstruction i \<longleftrightarrow> m_opcode i \<in> {Cee_Call, Cee_Calli, Cee_Callvirt}"

definition GetTerminationType :: "instr \<Rightarrow> InstructionTerminationType" where
  "GetTerminationType i = (let op = m_opcode i in
     if op = Cee_Break then TerminationType_Trap
     else if op = Cee_Switch then TerminationType_Switch
     else if op \<in> {Cee_Ret, Cee_Endfinally, Cee_Endfilter} then TerminationType_Return
     else if op \<in> {Cee_Call, Cee_Jmp, Cee_Newobj} then TerminationType_Call
     else if op \<in> {Cee_Calli, Cee_Callvirt} then TerminationType_IndirectCall
     else if op \<in> {Cee_Br_S, Cee_Br, Cee_Leave, Cee_Leave_S} then TerminationType_Branch
     else if op \<in> {Cee_Throw, Cee_Rethrow} then TerminationType_Throw
     else if op \<ge> Cee_Brfalse_S \<and> op < Cee_Switch then TerminationType_ConditionalBranch
     else TerminationType_FallThrough)"

definition GetIsFallThrough :: "instr \<Rightarrow> bool" where
  "GetIsFallThrough i \<longleftrightarrow> GetTerminationType i = TerminationType_FallThrough"

text \<open>A missing neighbour is reported as \<^const>\<open>E_FAIL\<close>.\<close>

definition GetNextInstruction :: "instr \<Rightarrow> addr result" where
  "GetNextInstruction i = (case m_pNextInstruction i of None \<Rightarrow> Fail E_FAIL | Some a \<Rightarrow> Ok a)"

definition GetPreviousInstruction :: "instr \<Rightarrow> addr result" where
  "GetPreviousInstruction i = (case m_pPreviousInstruction i of None \<Rightarrow> Fail E_FAIL | Some a \<Rightarrow> Ok a)"

definition GetOriginalNextInstruction :: "instr \<Rightarrow> addr result" where
  "GetOriginalNextInstruction i =
     (case m_pOriginalNextInstruction i of None \<Rightarrow> Fail E_FAIL | Some a \<Rightarrow> Ok a)"

definition GetOriginalPreviousInstruction :: "instr \<Rightarrow> addr result" where
  "GetOriginalPreviousInstruction i =
     (case m_pOriginalPreviousInstruction i of None \<Rightarrow> Fail E_FAIL | Some a \<Rightarrow> Ok a)"

section \<open>Setters\<close>

definition SetIsRemoved :: "instr \<Rightarrow> instr" where
  "SetIsRemoved i = i \<lparr> m_bIsRemoved := True, m_pGraph := None \<rparr>"

definition SetNextInstruction :: "addr option \<Rightarrow> bool \<Rightarrow> instr \<Rightarrow> instr" where
  "SetNextInstruction p setOrig i = (let i = i \<lparr> m_pNextInstruction := p \<rparr> in
     if m_pOriginalNextInstruction i = None \<and> setOrig
     then i \<lparr> m_pOriginalNextInstruction := m_pNextInstruction i \<rparr> else i)"

definition SetPreviousInstruction :: "addr option \<Rightarrow> bool \<Rightarrow> instr \<Rightarrow> instr" where
  "SetPreviousInstruction p setOrig i = (let i = i \<lparr> m_pPreviousInstruction := p \<rparr> in
     if m_pOriginalPreviousInstruction i = None \<and> setOrig
     then i \<lparr> m_pOriginalPreviousInstruction := m_pPreviousInstruction i \<rparr> else i)"

definition SetOffset :: "DWORD \<Rightarrow> instr \<Rightarrow> instr" where
  "SetOffset offset i = i \<lparr> m_offset := offset \<rparr>"

definition SetOriginalOffset :: "DWORD \<Rightarrow> instr \<Rightarrow> instr" where
  "SetOriginalOffset offset i = i \<lparr> m_origOffset := offset \<rparr>"

definition SetInstructionGeneration :: "InstructionGeneration \<Rightarrow> instr \<Rightarrow> instr" where
  "SetInstructionGeneration g i = i \<lparr> m_instructionGeneration := g \<rparr>"

section \<open>Operands\<close>

definition hasOperandValue :: "ILOperandType \<Rightarrow> bool" where
  "hasOperandValue t \<longleftrightarrow> t \<in> {ILOperandType_Byte, ILOperandType_UShort, ILOperandType_Int,
     ILOperandType_Long, ILOperandType_Single, ILOperandType_Double, ILOperandType_Token}"

text \<open>A store through a member of the union replaces its first bytes.\<close>

definition storeValue :: "byte list \<Rightarrow> instr \<Rightarrow> instr result" where
  "storeValue bs i = (case m_class i of
       Operand v \<Rightarrow> Ok (i \<lparr> m_class := Operand (bs @ drop (length bs) v) \<rparr>)
     | _ \<Rightarrow> Undef)"

definition GetOperandValue :: "DWORD \<Rightarrow> instr \<Rightarrow> byte list result" where
  "GetOperandValue dwSize i = bindR (opcodeInfo (m_opcode i)) (\<lambda>e.
     if dwSize < m_operandLength e then Fail E_FAIL
     else if hasOperandValue (m_type e) then
       (case m_class i of Operand v \<Rightarrow> Ok (take (operandTypeSize (m_type e)) v) | _ \<Rightarrow> Undef)
     else Fail E_FAIL)"

definition SetOperandValue :: "DWORD \<Rightarrow> byte list \<Rightarrow> instr \<Rightarrow> instr result" where
  "SetOperandValue dwSize pBytes i = bindR (opcodeInfo (m_opcode i)) (\<lambda>e.
     if dwSize \<noteq> m_operandLength e then Fail E_FAIL
     else if hasOperandValue (m_type e) then
       (let n = operandTypeSize (m_type e) in
        if n \<le> length pBytes then storeValue (take n pBytes) i else Undef)
     else Fail E_FAIL)"

text \<open>The constructor that takes an operand: the union starts with indeterminate bytes, the
  parameter \<open>garbage\<close>, and a wrong length leaves it so.\<close>

definition new_COperandInstruction_bytes ::
  "byte list \<Rightarrow> ILOrdinalOpcode \<Rightarrow> bool \<Rightarrow> DWORD \<Rightarrow> byte list \<Rightarrow> instr result" where
  "new_COperandInstruction_bytes garbage opcode isNew cbBytes pBytes =
     (let i = (new_CInstruction opcode isNew) \<lparr> m_class := Operand garbage \<rparr> in
      bindR (opcodeInfo opcode) (\<lambda>e.
        if m_operandLength e \<noteq> cbBytes then Ok i
        else (case SetOperandValue (m_operandLength e) pBytes i of Fail _ \<Rightarrow> Ok i | r \<Rightarrow> r)))"

section \<open>Decoding one instruction\<close>

definition mem_at :: "byte list \<Rightarrow> nat \<Rightarrow> byte result" where
  "mem_at mem p = (if p < length mem then Ok (mem ! p) else Undef)"

text \<open>The return code and \<^verbatim>\<open>*pOpcode\<close>, which is set on failure too.\<close>

definition OrdinalOpcodeFromBytes ::
  "byte list \<Rightarrow> nat \<Rightarrow> nat \<Rightarrow> (hresult \<times> ILOrdinalOpcode) result" where
  "OrdinalOpcodeFromBytes mem pCode pEndOfCode = bindR (mem_at mem pCode) (\<lambda>b.
     if b = 0xFE then
       (if pCode + 1 \<ge> pEndOfCode then Ok (E_FAIL, 0)
        else bindR (mem_at mem (pCode + 1)) (\<lambda>b1. Ok (S_OK, uint (0x100 OR ucast b1 :: DWORD))))
     else Ok (S_OK, uint b))"

definition COperandInstruction_InitializeFromBytes ::
  "byte list \<Rightarrow> nat \<Rightarrow> nat \<Rightarrow> instr \<Rightarrow> instr result" where
  "COperandInstruction_InitializeFromBytes mem pCode pEndOfCode i =
     bindR (opcodeInfo (m_opcode i)) (\<lambda>e.
       let p = pCode + unat (m_opcodeLength e) in
       if p \<ge> pEndOfCode then Fail E_FAIL
       else if p + unat (m_operandLength e) > pEndOfCode then Fail E_FAIL
       else if hasOperandValue (m_type e) then
         (let n = operandTypeSize (m_type e) in
          if p + n \<le> length mem then storeValue (take n (drop p mem)) i else Undef)
       else Fail E_FAIL)"

definition IsShortBranch :: "instr \<Rightarrow> bool" where
  "IsShortBranch i \<longleftrightarrow> m_opcode i < Cee_Br \<or> m_opcode i = Cee_Leave_S"

definition CBranchInstruction_InitializeFromBytes ::
  "byte list \<Rightarrow> nat \<Rightarrow> nat \<Rightarrow> instr \<Rightarrow> instr result" where
  "CBranchInstruction_InitializeFromBytes mem pCode pEndOfCode i =
     bindR (opcodeInfo (m_opcode i)) (\<lambda>e.
       let opcodeSize = m_opcodeLength e; p = pCode + unat opcodeSize in
       if p \<ge> pEndOfCode then Fail E_FAIL
       else bindR (if IsShortBranch i
                   then bindR (mem_at mem p) (\<lambda>c. Ok (scast c + opcodeSize + 1))
                   else bindR (load_le mem p 4) (\<lambda>v. Ok (v + opcodeSize + 4)))
         (\<lambda>targetOffset :: DWORD.
           if int pCode + sint targetOffset \<ge> int pEndOfCode then Fail E_FAIL
           else (case m_class i of
               Branch _ target orig \<Rightarrow> Ok (i \<lparr> m_class := Branch targetOffset target orig \<rparr>)
             | _ \<Rightarrow> Undef)))"

fun readSwitchOffsets :: "byte list \<Rightarrow> nat \<Rightarrow> nat \<Rightarrow> DWORD list result" where
  "readSwitchOffsets mem p 0 = Ok []"
| "readSwitchOffsets mem p (Suc n) = bindR (load_le mem p 4) (\<lambda>d.
     bindR (readSwitchOffsets mem (p + 4) n) (\<lambda>ds. Ok (d # ds)))"

definition CSwitchInstruction_InitializeFromBytes ::
  "byte list \<Rightarrow> nat \<Rightarrow> nat \<Rightarrow> instr \<Rightarrow> instr result" where
  "CSwitchInstruction_InitializeFromBytes mem pCode pEndOfCode i =
     bindR (opcodeInfo (m_opcode i)) (\<lambda>e.
       let p = pCode + unat (m_opcodeLength e) in
       bindR (load_le mem p 4) (\<lambda>count :: DWORD.
         bindR (readSwitchOffsets mem (p + 4) (unat count)) (\<lambda>ds.
           case m_class i of
             Switch offsets targets \<Rightarrow>
               Ok (i \<lparr> m_class := Switch (offsets @ ds) (targets @ replicate (length ds) None) \<rparr>)
           | _ \<Rightarrow> Undef)))"

text \<open>The return code of \<^verbatim>\<open>OrdinalOpcodeFromBytes\<close> is not looked at.\<close>

definition InstructionFromBytes :: "byte list \<Rightarrow> nat \<Rightarrow> nat \<Rightarrow> instr result" where
  "InstructionFromBytes mem pCode pEndOfCode =
     bindR (OrdinalOpcodeFromBytes mem pCode pEndOfCode) (\<lambda>(hr, opcode).
       if opcode < 0 \<or> opcode \<ge> int (length s_ilOpcodeInfo) then Fail E_FAIL
       else bindR (opcodeInfo opcode) (\<lambda>e.
         if opcode = Cee_Switch then
           CSwitchInstruction_InitializeFromBytes mem pCode pEndOfCode
             (new_CSwitchInstruction opcode False 0)
         else if m_flags e AND ILOpcodeFlag_Branch \<noteq> 0 then
           CBranchInstruction_InitializeFromBytes mem pCode pEndOfCode
             (new_CBranchInstruction opcode False)
         else if m_type e = ILOperandType_None then Ok (new_CInstruction opcode False)
         else if hasOperandValue (m_type e) then
           COperandInstruction_InitializeFromBytes mem pCode pEndOfCode
             (new_COperandInstruction opcode False)
         else Fail E_FAIL))"

text \<open>Short branches become their long form.\<close>

definition ExpandBranch :: "instr \<Rightarrow> instr result" where
  "ExpandBranch i = bindR (opcodeInfo (m_opcode i)) (\<lambda>e.
     if m_operandLength e = 1 then
       (if m_opcode i = Cee_Leave_S then Ok (i \<lparr> m_opcode := Cee_Leave \<rparr>)
        else Ok (i \<lparr> m_opcode := m_opcode i + (Cee_Br - Cee_Br_S) \<rparr>))
     else Ok i)"

section \<open>Constructors that pick the shortest form\<close>

definition setValue :: "byte list \<Rightarrow> instr \<Rightarrow> instr" where
  "setValue bs i = i \<lparr> m_class := Operand (bs @ replicate (8 - length bs) 0) \<rparr>"

definition new_CLoadConstInstruction :: "DWORD \<Rightarrow> instr" where
  "new_CLoadConstInstruction v = (let i = new_COperandInstruction Cee_Ldc_I4 True in
     if sint v \<ge> - 1 \<and> sint v \<le> 8 then i \<lparr> m_opcode := sint v + Cee_Ldc_I4_0 \<rparr>
     else if v AND NOT 0x7f = 0 then setValue (le_bytes 1 v) (i \<lparr> m_opcode := Cee_Ldc_I4_S \<rparr>)
     else setValue (le_bytes 4 v) i)"

definition new_CLoadLocalInstruction :: "USHORT \<Rightarrow> instr" where
  "new_CLoadLocalInstruction index = (let i = new_COperandInstruction Cee_Ldloc True in
     if index < 4 then i \<lparr> m_opcode := uint index + Cee_Ldloc_0 \<rparr>
     else if index \<le> 0xff then setValue (le_bytes 1 index) (i \<lparr> m_opcode := Cee_Ldloc_S \<rparr>)
     else setValue (le_bytes 4 (ucast index :: DWORD)) (i \<lparr> m_opcode := Cee_Ldloc \<rparr>))"

definition new_CLoadLocalAddrInstruction :: "USHORT \<Rightarrow> instr" where
  "new_CLoadLocalAddrInstruction index = (let i = new_COperandInstruction Cee_Ldloca True in
     if index \<le> 0xff then setValue (le_bytes 1 index) (i \<lparr> m_opcode := Cee_Ldloca_S \<rparr>)
     else setValue (le_bytes 4 (ucast index :: DWORD)) (i \<lparr> m_opcode := Cee_Ldloca \<rparr>))"

definition new_CStoreLocalInstruction :: "USHORT \<Rightarrow> instr" where
  "new_CStoreLocalInstruction index = (let i = new_COperandInstruction Cee_Stloc True in
     if index < 4 then i \<lparr> m_opcode := uint index + Cee_Stloc_0 \<rparr>
     else if index \<le> 0xff then setValue (le_bytes 1 index) (i \<lparr> m_opcode := Cee_Stloc_S \<rparr>)
     else setValue (le_bytes 4 (ucast index :: DWORD)) (i \<lparr> m_opcode := Cee_Stloc \<rparr>))"

definition new_CLoadArgInstruction :: "USHORT \<Rightarrow> instr" where
  "new_CLoadArgInstruction index = (let i = new_COperandInstruction Cee_Ldarg True in
     if index < 4 then i \<lparr> m_opcode := uint index + Cee_Ldarg_0 \<rparr>
     else if index \<le> 0xff then setValue (le_bytes 1 index) (i \<lparr> m_opcode := Cee_Ldarg_S \<rparr>)
     else setValue (le_bytes 4 (ucast (ucast index :: byte) :: DWORD)) (i \<lparr> m_opcode := Cee_Ldarg \<rparr>))"

definition new_CLoadArgAddrInstruction :: "USHORT \<Rightarrow> instr" where
  "new_CLoadArgAddrInstruction index = (let i = new_COperandInstruction Cee_Ldarga True in
     if index \<le> 0xff then setValue (le_bytes 1 index) (i \<lparr> m_opcode := Cee_Ldarga_S \<rparr>)
     else setValue (le_bytes 4 (ucast (ucast index :: byte) :: DWORD)) (i \<lparr> m_opcode := Cee_Ldarga \<rparr>))"

end
