(* ===== verification/SignatureBuilder.thy ===== *)
theory SignatureBuilder
  imports CorSig
begin

text \<open>
  The growing signature buffer (\<^verbatim>\<open>InstrumentationEngine/SignatureBuilder.cpp\<close>).  The buffer is the
  list of its bytes, as long as the capacity; \<open>garbage\<close> gives the bytes of a fresh allocation.  The
  locale \<open>sig_writer\<close> states what a client of the builder relies on: an \<^verbatim>\<open>Add\<close> function appends the
  encoding of its argument, and the matching reader reads a sequence of added values back.
\<close>

section \<open>The builder\<close>

record CSignatureBuilder =
  m_memory :: "byte list option"
  m_used :: DWORD
  m_capacity :: DWORD

definition new_CSignatureBuilder :: CSignatureBuilder where
  "new_CSignatureBuilder = \<lparr> m_memory = None, m_used = 0, m_capacity = 0 \<rparr>"

definition EnsureCapacity :: "(nat \<Rightarrow> byte) \<Rightarrow> DWORD \<Rightarrow> (CSignatureBuilder, unit) op" where
  "EnsureCapacity garbage needed b =
     (if m_capacity b < needed then
        (let newCapacity = m_capacity b * 2 + needed;
             newMemory = map garbage [0..<unat newCapacity] in
         IfFailRet (liftR (case m_memory b of
             None \<Rightarrow> Ok newMemory
           | Some mem \<Rightarrow> copyBytes newMemory 0 mem
               (unat (if newCapacity < m_capacity b then newCapacity else m_capacity b)))) (\<lambda>newMemory.
         modify (\<lambda>b. b \<lparr> m_memory := Some newMemory, m_capacity := newCapacity \<rparr>)) b)
      else (Ok (), b))"

text \<open>Writing an encoding at the end of the used part: the codec returns the count and the bytes.\<close>

definition appendEncoded :: "DWORD \<times> byte list \<Rightarrow> (CSignatureBuilder, unit) op" where
  "appendEncoded e b = IfFailRet (liftR (bindR (deref (m_memory b)) (\<lambda>mem. store_bytes mem (unat (m_used b)) (snd e)))) (\<lambda>mem.
     modify (\<lambda>b. b \<lparr> m_memory := Some mem, m_used := m_used b + fst e \<rparr>)) b"

definition SigBuilder_Add :: "(nat \<Rightarrow> byte) \<Rightarrow> DWORD \<Rightarrow> (CSignatureBuilder, unit) op" where
  "SigBuilder_Add garbage x b = IfFailRet (EnsureCapacity garbage (m_used b + 4)) (\<lambda>_.
     appendEncoded (CorSigCompressData x)) b"

definition SigBuilder_AddSignedInt :: "(nat \<Rightarrow> byte) \<Rightarrow> DWORD \<Rightarrow> (CSignatureBuilder, unit) op" where
  "SigBuilder_AddSignedInt garbage y b = IfFailRet (EnsureCapacity garbage (m_used b + 4)) (\<lambda>_.
     appendEncoded (CorSigCompressSignedInt y)) b"

definition SigBuilder_AddToken :: "(nat \<Rightarrow> byte) \<Rightarrow> mdToken \<Rightarrow> (CSignatureBuilder, unit) op" where
  "SigBuilder_AddToken garbage t b = IfFailRet (EnsureCapacity garbage (m_used b + 4)) (\<lambda>_.
     appendEncoded (CorSigCompressToken t)) b"

definition SigBuilder_AddElementType :: "(nat \<Rightarrow> byte) \<Rightarrow> DWORD \<Rightarrow> (CSignatureBuilder, unit) op" where
  "SigBuilder_AddElementType garbage x b = IfFailRet (EnsureCapacity garbage (m_used b + 1)) (\<lambda>_.
     appendEncoded (1, [ucast x])) b"

text \<open>\<open>memory\<close> is what can be read from the caller's pointer.\<close>

definition SigBuilder_AddData :: "(nat \<Rightarrow> byte) \<Rightarrow> byte list \<Rightarrow> DWORD \<Rightarrow> (CSignatureBuilder, unit) op" where
  "SigBuilder_AddData garbage memory cbSize b =
     (if cbSize \<noteq> 0 then IfFailRet (EnsureCapacity garbage (m_used b + cbSize)) (\<lambda>_.
        if unat cbSize \<le> length memory then appendEncoded (cbSize, take (unat cbSize) memory) else undef) b
      else (Ok (), b))"

definition SigBuilder_GetCorSignaturePtr :: "CSignatureBuilder \<Rightarrow> byte list option" where
  "SigBuilder_GetCorSignaturePtr b = m_memory b"

definition SigBuilder_GetSize :: "CSignatureBuilder \<Rightarrow> DWORD" where
  "SigBuilder_GetSize b = m_used b"

text \<open>The argument is another builder; its pointer stays valid during the call.\<close>

definition SigBuilder_AddSignature :: "(nat \<Rightarrow> byte) \<Rightarrow> CSignatureBuilder option \<Rightarrow> (CSignatureBuilder, unit) op" where
  "SigBuilder_AddSignature garbage pSignature = IfNullRetPointer pSignature (\<lambda>s.
     SigBuilder_AddData garbage (case SigBuilder_GetCorSignaturePtr s of None \<Rightarrow> [] | Some mem \<Rightarrow> mem) (SigBuilder_GetSize s))"

definition SigBuilder_Clear :: "(CSignatureBuilder, unit) op" where
  "SigBuilder_Clear = modify (\<lambda>b. b \<lparr> m_memory := None, m_used := 0, m_capacity := 0 \<rparr>)"

text \<open>The caller's buffer of \<open>cbBuffer\<close> bytes, or a null pointer to ask for the size; the
  result is the buffer afterwards and \<^verbatim>\<open>*pcbSignature\<close>.\<close>

definition SigBuilder_GetCorSignature :: "DWORD \<Rightarrow> byte list option \<Rightarrow> CSignatureBuilder \<Rightarrow> (byte list option \<times> DWORD) result" where
  "SigBuilder_GetCorSignature cbBuffer pCorSignature b = (case pCorSignature of
     None \<Rightarrow> Ok (None, m_used b)
   | Some buf \<Rightarrow>
       if cbBuffer < m_used b then Fail E_INVALIDARG
       else bindR (case m_memory b of None \<Rightarrow> Ok buf | Some mem \<Rightarrow> copyBytes buf 0 mem (unat (m_used b)))
         (\<lambda>buf. Ok (Some buf, m_used b)))"

section \<open>The bytes of a builder\<close>

definition bytes_of :: "CSignatureBuilder \<Rightarrow> byte list" where
  "bytes_of b = (case m_memory b of None \<Rightarrow> [] | Some mem \<Rightarrow> take (unat (m_used b)) mem)"

text \<open>Every growth doubles the capacity and adds what is needed, so the capacity stays below three
  times the need: with fewer than \<open>2 ^ 30\<close> bytes no size computation wraps.\<close>

definition builder_ok :: "CSignatureBuilder \<Rightarrow> bool" where
  "builder_ok b \<longleftrightarrow> (case m_memory b of
     None \<Rightarrow> m_used b = 0 \<and> m_capacity b = 0
   | Some mem \<Rightarrow> length mem = unat (m_capacity b) \<and> m_used b \<le> m_capacity b) \<and>
     unat (m_capacity b) \<le> 3 * (unat (m_used b) + 4)"

definition appends :: "(CSignatureBuilder, unit) op \<Rightarrow> byte list \<Rightarrow> bool" where
  "appends f bs \<longleftrightarrow> (\<forall>b. builder_ok b \<and> length (bytes_of b) + length bs + 4 \<le> 2 ^ 30 \<longrightarrow>
     (\<exists>b'. f b = (Ok (), b') \<and> builder_ok b' \<and> bytes_of b' = bytes_of b @ bs))"

lemma length_bytes_of: "builder_ok b \<Longrightarrow> length (bytes_of b) = unat (m_used b)"
  by (auto simp: builder_ok_def bytes_of_def word_le_nat_alt split: option.splits)

lemma new_builder: "builder_ok new_CSignatureBuilder" "bytes_of new_CSignatureBuilder = []"
  by (simp_all add: builder_ok_def bytes_of_def new_CSignatureBuilder_def)

lemma EnsureCapacity_exec:
  assumes "builder_ok b" and n: "unat needed = unat (m_used b) + n" "0 < n" "unat needed \<le> 2 ^ 30"
  shows "\<exists>mem cap. EnsureCapacity garbage needed b = (Ok (), b \<lparr> m_memory := Some mem, m_capacity := cap \<rparr>) \<and>
    length mem = unat cap \<and> unat needed \<le> unat cap \<and> take (unat (m_used b)) mem = bytes_of b \<and>
    (unat cap \<le> 3 * unat needed \<or> unat cap \<le> 3 * (unat (m_used b) + 4))"
proof (cases "m_capacity b < needed")
  case True
  define new where "new = m_capacity b * 2 + needed"
  have c: "unat (m_capacity b) < unat needed" using True by (simp add: word_less_nat_alt)
  have u: "unat new = 2 * unat (m_capacity b) + unat needed"
  proof -
    have "unat new = (unat (m_capacity b) * 2 + unat needed) mod 2 ^ 32"
      by (simp add: new_def unat_word_ariths mod_simps)
    then show ?thesis using c n(3) by simp
  qed
  have s: "\<not> new < m_capacity b" using u by (simp add: word_less_nat_alt)
  have "\<exists>mem. (case m_memory b of None \<Rightarrow> Ok (map garbage [0..<unat new])
     | Some mem \<Rightarrow> copyBytes (map garbage [0..<unat new]) 0 mem (unat (m_capacity b))) = Ok mem \<and>
     length mem = unat new \<and> take (unat (m_used b)) mem = bytes_of b"
    using assms(1) u
    by (auto simp: builder_ok_def bytes_of_def copyBytes_def store_bytes_def word_le_nat_alt min_def split: option.splits)
  then obtain mem where "(case m_memory b of None \<Rightarrow> Ok (map garbage [0..<unat new])
     | Some mem \<Rightarrow> copyBytes (map garbage [0..<unat new]) 0 mem (unat (m_capacity b))) = Ok mem"
     "length mem = unat new" "take (unat (m_used b)) mem = bytes_of b" by blast
  then have "EnsureCapacity garbage needed b = (Ok (), b \<lparr> m_memory := Some mem, m_capacity := new \<rparr>)"
    using True s by (simp add: EnsureCapacity_def new_def [symmetric] Let_def IfFailRet_def liftR_def modify_def)
  with u c \<open>length mem = unat new\<close> \<open>take (unat (m_used b)) mem = bytes_of b\<close> show ?thesis by force
next
  case False
  then have f: "unat needed \<le> unat (m_capacity b)" by (simp add: word_less_nat_alt)
  then obtain mem where "m_memory b = Some mem"
    using assms(1) n by (cases "m_memory b") (auto simp: builder_ok_def)
  then show ?thesis using assms(1) f False
    by (intro exI [of _ mem] exI [of _ "m_capacity b"]) (auto simp: EnsureCapacity_def builder_ok_def bytes_of_def)
qed

lemma append_exec:
  assumes "builder_ok b" and "length (bytes_of b) + length bs + 4 \<le> 2 ^ 30"
    and cb: "unat cb = length bs" and n: "unat n \<le> length bs + 4" "length bs \<le> unat n" "0 < unat n"
  shows "\<exists>b'. IfFailRet (EnsureCapacity garbage (m_used b + n)) (\<lambda>_. appendEncoded (cb, bs)) b = (Ok (), b') \<and>
    builder_ok b' \<and> bytes_of b' = bytes_of b @ bs"
proof -
  have l: "unat (m_used b) + unat n \<le> 2 ^ 30" using assms(2) n length_bytes_of [OF assms(1)] by simp
  then have need: "unat (m_used b + n) = unat (m_used b) + unat n" by (simp add: unat_word_ariths)
  have l': "unat (m_used b) + length bs < 2 ^ 32" using l n(2) by simp
  obtain mem cap where e: "EnsureCapacity garbage (m_used b + n) b = (Ok (), b \<lparr> m_memory := Some mem, m_capacity := cap \<rparr>)"
    "length mem = unat cap" "unat (m_used b + n) \<le> unat cap" "take (unat (m_used b)) mem = bytes_of b"
    "unat cap \<le> 3 * unat (m_used b + n) \<or> unat cap \<le> 3 * (unat (m_used b) + 4)"
    using EnsureCapacity_exec [OF assms(1) need n(3), of garbage] l need by (metis (no_types, lifting))
  have u: "unat (m_used b + cb) = unat (m_used b) + length bs" using l' cb by (simp add: unat_word_ariths)
  let ?mem = "take (unat (m_used b)) mem @ bs @ drop (unat (m_used b) + length bs) mem"
  have fits: "unat (m_used b) + length bs \<le> length mem" using e(2,3) need n(2) by simp
  then have s: "store_bytes mem (unat (m_used b)) bs = Ok ?mem" by (simp add: store_bytes_def)
  let ?b = "b \<lparr> m_memory := Some ?mem, m_capacity := cap, m_used := m_used b + cb \<rparr>"
  have "IfFailRet (EnsureCapacity garbage (m_used b + n)) (\<lambda>_. appendEncoded (cb, bs)) b = (Ok (), ?b)"
    using e(1) s by (simp add: appendEncoded_def IfFailRet_def liftR_def modify_def)
  moreover have "builder_ok ?b"
    using e(2,3,5) fits u need n by (auto simp: builder_ok_def word_le_nat_alt)
  moreover have "bytes_of ?b = bytes_of b @ bs"
  proof -
    have "bytes_of ?b = take (unat (m_used b + cb)) ?mem" by (simp add: bytes_of_def)
    then show ?thesis using fits u length_bytes_of [OF assms(1)] by (simp add: e(4))
  qed
  ultimately show ?thesis by blast
qed


lemma compress_length: "length (snd (CorSigCompressData x)) \<le> 4"
  by (simp add: CorSigCompressData_def)

lemma compress_token_length: "length (snd (CorSigCompressToken t)) \<le> 4"
  by (simp add: CorSigCompressToken_def Let_def compress_length)

lemma compress_signed_length: "length (snd (CorSigCompressSignedInt y)) \<le> 4"
  by (simp add: CorSigCompressSignedInt_def Let_def)

lemma appends_encoded:
  assumes "\<And>b. f b = IfFailRet (EnsureCapacity garbage (m_used b + 4)) (\<lambda>_. appendEncoded e) b"
    and "unat (fst e) = length (snd e)" "length (snd e) \<le> 4"
  shows "appends f (snd e)"
  unfolding appends_def assms(1) using append_exec [where n = 4 and cb = "fst e" and bs = "snd e"] assms(2,3) by simp

lemma appends_element: "appends (SigBuilder_AddElementType garbage x) [ucast x]"
  unfolding appends_def SigBuilder_AddElementType_def using append_exec [where n = 1 and cb = 1 and bs = "[ucast x]"] by simp

lemma appends_data:
  assumes "unat cb \<le> length mem"
  shows "appends (SigBuilder_AddData garbage mem cb) (take (unat cb) mem)"
proof (cases "cb = 0")
  case True
  then show ?thesis by (simp add: appends_def SigBuilder_AddData_def)
next
  case False
  then have "0 < unat cb" by (simp add: unat_gt_0)
  then show ?thesis using assms False append_exec [where n = cb and cb = cb and bs = "take (unat cb) mem"]
    unfolding appends_def SigBuilder_AddData_def by simp
qed

lemma appends_ret: "appends (ret ()) []"
  by (simp add: appends_def ret_def)

lemma appends_IfFailRet:
  assumes "appends f xs" and "appends g ys"
  shows "appends (IfFailRet f (\<lambda>_. g)) (xs @ ys)"
  unfolding appends_def
proof (intro allI impI)
  fix b assume b: "builder_ok b \<and> length (bytes_of b) + length (xs @ ys) + 4 \<le> 2 ^ 30"
  then obtain c where c: "f b = (Ok (), c)" "builder_ok c" "bytes_of c = bytes_of b @ xs"
    using assms(1) unfolding appends_def by fastforce
  moreover obtain d where "g c = (Ok (), d)" "builder_ok d" "bytes_of d = bytes_of c @ ys"
    using assms(2) b c(2,3) unfolding appends_def by fastforce
  ultimately show "\<exists>b'. IfFailRet f (\<lambda>_. g) b = (Ok (), b') \<and> builder_ok b' \<and> bytes_of b' = bytes_of b @ xs @ ys"
    by simp
qed

lemma appends_run:
  assumes "appends f bs" and "length bs + 4 \<le> 2 ^ 30"
  shows "\<exists>b. f new_CSignatureBuilder = (Ok (), b) \<and> builder_ok b \<and> bytes_of b = bs"
  using assms new_builder unfolding appends_def by force

section \<open>What a client of the builder relies on\<close>

text \<open>The loop over the elements of a container, each added with \<open>add\<close>.\<close>

fun addEach :: "('a \<Rightarrow> ('s, unit) op) \<Rightarrow> 'a list \<Rightarrow> ('s, unit) op" where
  "addEach add [] = ret ()"
| "addEach add (x # xs) = IfFailRet (add x) (\<lambda>_. addEach add xs)"

lemma appends_addEach:
  assumes "\<And>x. x \<in> set xs \<Longrightarrow> appends (add x) (enc x)"
  shows "appends (addEach add xs) (concat (map enc xs))"
  using assms by (induction xs) (simp_all add: appends_ret appends_IfFailRet)

locale sig_writer = sig_codec enc dec encodable
  for enc :: "'a \<Rightarrow> DWORD \<times> byte list" and dec and encodable +
  fixes add :: "'a \<Rightarrow> (CSignatureBuilder, unit) op"
  assumes add_appends: "encodable x \<Longrightarrow> appends (add x) (snd (enc x))"
begin

lemma write_then_read:
  assumes "\<forall>x \<in> set xs. encodable x" and "length (concat (map (\<lambda>x. snd (enc x)) xs)) + 4 \<le> 2 ^ 30"
  shows "\<exists>b. addEach add xs new_CSignatureBuilder = (Ok (), b) \<and> builder_ok b \<and>
    bytes_of b = concat (map (\<lambda>x. snd (enc x)) xs) \<and> read_seq dec (length xs) (bytes_of b) = Ok (xs, [])"
proof -
  have "appends (addEach add xs) (concat (map (\<lambda>x. snd (enc x)) xs))"
    by (rule appends_addEach) (use assms(1) add_appends in blast)
  then obtain b where b: "addEach add xs new_CSignatureBuilder = (Ok (), b)" "builder_ok b"
    "bytes_of b = concat (map (\<lambda>x. snd (enc x)) xs)" using appends_run [OF _ assms(2)] by blast
  moreover have "read_seq dec (length xs) (bytes_of b) = Ok (xs, [])" using read_concat [OF assms(1), of "[]"] b(3) by simp
  ultimately show ?thesis by blast
qed

end

interpretation data_writer: sig_writer CorSigCompressData CorSigUncompressData "\<lambda>i. i \<le> 0x1FFFFFFF" "SigBuilder_Add garbage" for garbage
  by unfold_locales (rule appends_encoded [OF SigBuilder_Add_def], simp_all add: compress_length compress_count(1) [OF _ prod.collapse [symmetric]])

interpretation token_writer: sig_writer CorSigCompressToken CorSigUncompressToken
  "\<lambda>tk. TypeFromToken tk \<in> set g_tkCorEncodeToken" "SigBuilder_AddToken garbage" for garbage
  by unfold_locales (rule appends_encoded [OF SigBuilder_AddToken_def], simp_all add: compress_token_length uncompress_compress_token(2) [OF _ prod.collapse [symmetric]])

interpretation signed_writer: sig_writer CorSigCompressSignedInt CorSigUncompressSignedInt
  "\<lambda>i. - (2 ^ 28) \<le> sint i \<and> sint i < 2 ^ 28" "SigBuilder_AddSignedInt garbage" for garbage
  by unfold_locales (rule appends_encoded [OF SigBuilder_AddSignedInt_def], simp_all add: compress_signed_length signed.enc_count [OF _ prod.collapse [symmetric]])

section \<open>Properties\<close>

text \<open>C39. Values added to a fresh builder come out in order: \<^verbatim>\<open>GetSize\<close> and \<^verbatim>\<open>GetCorSignature\<close> give the
  concatenated encodings whatever the uninitialised memory held and however often the buffer grew,
  the copy fills exactly the front of the caller's buffer, and the metadata reader reads the values
  back; a buffer that is too small is refused with \<^verbatim>\<open>E_INVALIDARG\<close>.\<close>

theorem SigBuilder_Add_reads_back:
  assumes "\<forall>x \<in> set xs. x \<le> 0x1FFFFFFF" and "sig = concat (map (\<lambda>x. snd (CorSigCompressData x)) xs)"
    and "length sig + 4 \<le> 2 ^ 30"
  shows "\<exists>b. addEach (SigBuilder_Add garbage) xs new_CSignatureBuilder = (Ok (), b) \<and>
    SigBuilder_GetSize b = of_nat (length sig) \<and>
    (\<forall>buf cb. SigBuilder_GetCorSignature cb (Some buf) b =
       (if unat cb < length sig then Fail E_INVALIDARG
        else if length buf < length sig then Undef
        else Ok (Some (sig @ drop (length sig) buf), of_nat (length sig)))) \<and>
    read_seq CorSigUncompressData (length xs) sig = Ok (xs, [])"
proof -
  obtain b where b: "addEach (SigBuilder_Add garbage) xs new_CSignatureBuilder = (Ok (), b)" "builder_ok b"
    "bytes_of b = sig" "read_seq CorSigUncompressData (length xs) (bytes_of b) = Ok (xs, [])"
    using data_writer.write_then_read [OF assms(1), of garbage] assms(2,3) by blast
  have u: "unat (m_used b) = length sig" using length_bytes_of [OF b(2)] b(3) by simp
  then have s: "m_used b = of_nat (length sig)" unfolding u [symmetric] by simp
  have "SigBuilder_GetCorSignature cb (Some buf) b =
       (if unat cb < length sig then Fail E_INVALIDARG
        else if length buf < length sig then Undef
        else Ok (Some (sig @ drop (length sig) buf), of_nat (length sig)))" for cb buf
    using b(2,3) u s
    by (auto simp: SigBuilder_GetCorSignature_def word_less_nat_alt copyBytes_def store_bytes_def builder_ok_def
      bytes_of_def word_le_nat_alt split: option.splits)
  with b s show ?thesis by (auto simp: SigBuilder_GetSize_def)
qed

theorem SigBuilder_Add_reads_back_witness:
  "\<exists>b. addEach (SigBuilder_Add (\<lambda>_. 0xcc)) [3, 0x80, 0x1FFFFFFF] new_CSignatureBuilder = (Ok (), b) \<and>
    SigBuilder_GetSize b = 7 \<and>
    read_seq CorSigUncompressData (length [3, 0x80, 0x1FFFFFFF :: DWORD]) [0x03, 0x80, 0x80, 0xdf, 0xff, 0xff, 0xff] = Ok ([3, 0x80, 0x1FFFFFFF], [])"
proof -
  have s: "\<forall>x \<in> set [3, 0x80, 0x1FFFFFFF :: DWORD]. x \<le> 0x1FFFFFFF" by code_simp
  have e: "[0x03, 0x80, 0x80, 0xdf, 0xff, 0xff, 0xff] = concat (map (\<lambda>x. snd (CorSigCompressData x)) [3, 0x80, 0x1FFFFFFF])"
    by code_simp
  have l: "length [0x03, 0x80, 0x80, 0xdf, 0xff, 0xff, 0xff :: byte] + 4 \<le> 2 ^ 30" "of_nat (length [0x03, 0x80, 0x80, 0xdf, 0xff, 0xff, 0xff :: byte]) = (7 :: DWORD)"
    by simp_all
  show ?thesis using SigBuilder_Add_reads_back [OF s e l(1), where garbage = "\<lambda>_. 0xcc"] unfolding l(2) by blast
qed

text \<open>A value that has no compressed form is not refused: \<^verbatim>\<open>Add\<close> succeeds, writes nothing and takes
  the last byte of the signature away.\<close>

theorem SigBuilder_Add_too_big:
  assumes "builder_ok b" and "bytes_of b \<noteq> []" and "length (bytes_of b) + 4 \<le> 2 ^ 30" and "0x1FFFFFFF < x"
  shows "\<exists>b'. SigBuilder_Add garbage x b = (Ok (), b') \<and> bytes_of b' = butlast (bytes_of b)"
proof -
  note u = length_bytes_of [OF assms(1)]
  have need: "unat (m_used b + 4) = unat (m_used b) + 4" using assms(3) u by (simp add: unat_word_ariths)
  obtain mem cap where e: "EnsureCapacity garbage (m_used b + 4) b = (Ok (), b \<lparr> m_memory := Some mem, m_capacity := cap \<rparr>)"
    "length mem = unat cap" "unat (m_used b + 4) \<le> unat cap" "take (unat (m_used b)) mem = bytes_of b"
    using EnsureCapacity_exec [OF assms(1) need, of garbage] assms(3) u need by auto
  let ?b = "b \<lparr> m_memory := Some mem, m_capacity := cap, m_used := m_used b - 1 \<rparr>"
  have "unat (m_used b - 1) = unat (m_used b) - 1" using assms(2) u by (intro unat_minus_one) auto
  then have "bytes_of ?b = butlast (bytes_of b)"
    using e(2,3) need by (simp add: bytes_of_def [of ?b] e(4) [symmetric] butlast_take min_def)
  moreover have "SigBuilder_Add garbage x b = (Ok (), ?b)"
    using e(1-3) need compress_too_big [of x] assms(4)
    by (simp add: SigBuilder_Add_def appendEncoded_def store_bytes_def IfFailRet_def liftR_def modify_def not_le)
  ultimately show ?thesis by blast
qed

theorem SigBuilder_Add_too_big_witness:
  "\<exists>b'. SigBuilder_Add (\<lambda>_. 0) 0x20000000 \<lparr> m_memory = Some [7, 1], m_used = 2, m_capacity = 2 \<rparr> = (Ok (), b') \<and>
    bytes_of b' = [7]"
  using SigBuilder_Add_too_big [where b = "\<lparr> m_memory = Some [7, 1], m_used = 2, m_capacity = 2 \<rparr>" and x = "0x20000000" and garbage = "\<lambda>_. 0"]
  by (simp add: builder_ok_def bytes_of_def)

end
