(* ===== verification/CorHeaders.thy ===== *)
theory CorHeaders
  imports CorSig
begin

text \<open>
  Method headers and exception sections of method bodies:
  \<^verbatim>\<open>InstrumentationEngine/CorHeaders.h\<close>, \<^verbatim>\<open>CorHeaders.cpp\<close> and the layouts of
  \<^verbatim>\<open>corhdr.h\<close>.  Bit fields have their width; the structures are related to the bytes of the
  body they lie in, little-endian, at a position relative to the DWORD-aligned method header.
\<close>

section \<open>Layouts\<close>

record COR_ILMETHOD_FAT =
  h_Flags :: "12 word"
  h_Size :: "4 word"
  h_MaxStack :: USHORT
  h_CodeSize :: DWORD
  h_LocalVarSigTok :: mdToken

text \<open>A fat clause; the last member is the union of \<^verbatim>\<open>ClassToken\<close> and \<^verbatim>\<open>FilterOffset\<close>.\<close>

record EH_CLAUSE =
  cl_Flags :: DWORD
  cl_TryOffset :: DWORD
  cl_TryLength :: DWORD
  cl_HandlerOffset :: DWORD
  cl_HandlerLength :: DWORD
  cl_ClassToken :: DWORD

abbreviation (input) "CorILMethod_InitLocals \<equiv> (0x0010 :: 12 word)"
abbreviation (input) "CorILMethod_MoreSects \<equiv> (0x0008 :: 12 word)"
abbreviation (input) "CorILMethod_FormatMask \<equiv> (0x0007 :: 12 word)"
abbreviation (input) "CorILMethod_TinyFormat \<equiv> (0x0002 :: 12 word)"
abbreviation (input) "CorILMethod_FatFormat \<equiv> (0x0003 :: 12 word)"
abbreviation (input) "CorILMethod_Sect_EHTable \<equiv> (1 :: byte)"
abbreviation (input) "CorILMethod_Sect_KindMask \<equiv> (0x3F :: byte)"
abbreviation (input) "CorILMethod_Sect_FatFormat \<equiv> (0x40 :: byte)"
abbreviation (input) "CorILMethod_Sect_MoreSects \<equiv> (0x80 :: byte)"
abbreviation (input) "COR_ILEXCEPTION_CLAUSE_NONE \<equiv> (0 :: DWORD)"
abbreviation (input) "COR_ILEXCEPTION_CLAUSE_FILTER \<equiv> (1 :: DWORD)"
abbreviation (input) "COR_ILEXCEPTION_CLAUSE_FINALLY \<equiv> (2 :: DWORD)"
abbreviation (input) "COR_ILMETHOD_SECT_SMALL_MAX_DATASIZE \<equiv> (0xFF :: nat)"
abbreviation (input) "FAT_HEADER_SIZE \<equiv> (12 :: nat)"

definition fatHeaderBytes :: "COR_ILMETHOD_FAT \<Rightarrow> byte list" where
  "fatHeaderBytes h =
     le_bytes 4 (ucast (h_Flags h) OR push_bit 12 (ucast (h_Size h)) OR push_bit 16 (ucast (h_MaxStack h)) :: DWORD)
     @ le_bytes 4 (h_CodeSize h) @ le_bytes 4 (h_LocalVarSigTok h)"

definition readFatHeader :: "byte list \<Rightarrow> nat \<Rightarrow> COR_ILMETHOD_FAT result" where
  "readFatHeader mem p = bindR (load_le mem p 4) (\<lambda>v :: DWORD.
     bindR (load_le mem (p + 4) 4) (\<lambda>code. bindR (load_le mem (p + 8) 4) (\<lambda>tok.
       Ok \<lparr> h_Flags = ucast v, h_Size = ucast (drop_bit 12 v), h_MaxStack = ucast (drop_bit 16 v),
            h_CodeSize = code, h_LocalVarSigTok = tok \<rparr>)))"

definition fatClauseBytes :: "EH_CLAUSE \<Rightarrow> byte list" where
  "fatClauseBytes c = le_bytes 4 (cl_Flags c) @ le_bytes 4 (cl_TryOffset c) @ le_bytes 4 (cl_TryLength c)
     @ le_bytes 4 (cl_HandlerOffset c) @ le_bytes 4 (cl_HandlerLength c) @ le_bytes 4 (cl_ClassToken c)"

definition smallClauseBytes :: "EH_CLAUSE \<Rightarrow> byte list" where
  "smallClauseBytes c = le_bytes 2 (cl_Flags c) @ le_bytes 2 (cl_TryOffset c) @ le_bytes 1 (cl_TryLength c)
     @ le_bytes 2 (cl_HandlerOffset c) @ le_bytes 1 (cl_HandlerLength c) @ le_bytes 4 (cl_ClassToken c)"

definition readFatClause :: "byte list \<Rightarrow> nat \<Rightarrow> EH_CLAUSE result" where
  "readFatClause mem p = bindR (load_le mem p 4) (\<lambda>f. bindR (load_le mem (p + 4) 4) (\<lambda>t.
     bindR (load_le mem (p + 8) 4) (\<lambda>tl. bindR (load_le mem (p + 12) 4) (\<lambda>h.
     bindR (load_le mem (p + 16) 4) (\<lambda>hl. bindR (load_le mem (p + 20) 4) (\<lambda>tok.
       Ok \<lparr> cl_Flags = f, cl_TryOffset = t, cl_TryLength = tl, cl_HandlerOffset = h,
            cl_HandlerLength = hl, cl_ClassToken = tok \<rparr>))))))"

definition readSmallClause :: "byte list \<Rightarrow> nat \<Rightarrow> EH_CLAUSE result" where
  "readSmallClause mem p = bindR (load_le mem p 2) (\<lambda>f. bindR (load_le mem (p + 2) 2) (\<lambda>t.
     bindR (load_le mem (p + 4) 1) (\<lambda>tl. bindR (load_le mem (p + 5) 2) (\<lambda>h.
     bindR (load_le mem (p + 7) 1) (\<lambda>hl. bindR (load_le mem (p + 8) 4) (\<lambda>tok.
       Ok \<lparr> cl_Flags = f, cl_TryOffset = t, cl_TryLength = tl, cl_HandlerOffset = h,
            cl_HandlerLength = hl, cl_ClassToken = tok \<rparr>))))))"

section \<open>Method headers\<close>

definition Tiny_IsTiny :: "byte \<Rightarrow> bool" where
  "Tiny_IsTiny b \<longleftrightarrow> b AND 3 = 2"

definition Tiny_GetCodeSize :: "byte \<Rightarrow> DWORD" where
  "Tiny_GetCodeSize b = drop_bit 2 (ucast b)"

definition Align :: "nat \<Rightarrow> nat" where
  "Align p = (p + 3) div 4 * 4"

text \<open>Positions of the code and of the first section behind a fat header at 0.\<close>

definition Fat_GetCode :: "COR_ILMETHOD_FAT \<Rightarrow> nat" where
  "Fat_GetCode h = 4 * unat (h_Size h)"

definition Fat_GetSect :: "COR_ILMETHOD_FAT \<Rightarrow> nat option" where
  "Fat_GetSect h = (if h_Flags h AND CorILMethod_MoreSects = 0 then None
     else Some (Align (Fat_GetCode h + unat (h_CodeSize h))))"

definition IlmethodSize :: "COR_ILMETHOD_FAT \<Rightarrow> bool \<Rightarrow> DWORD" where
  "IlmethodSize header moreSections =
     (if h_MaxStack header \<le> 8 \<and> h_Flags header AND NOT CorILMethod_FormatMask = 0
         \<and> h_LocalVarSigTok header = 0 \<and> h_CodeSize header < 64 \<and> \<not> moreSections
      then 1 else 12)"

text \<open>The bytes written and the size returned.\<close>

definition IlmethodEmit :: "DWORD \<Rightarrow> COR_ILMETHOD_FAT \<Rightarrow> bool \<Rightarrow> DWORD \<times> byte list" where
  "IlmethodEmit cb header moreSections =
     (if cb = 1 then (cb, [ucast (2 OR push_bit 2 (h_CodeSize header))])
      else (cb, fatHeaderBytes (header \<lparr>
        h_Flags := (h_Flags header OR CorILMethod_FatFormat)
          OR (if moreSections then CorILMethod_MoreSects else 0),
        h_Size := 3 \<rparr>)))"

section \<open>Sections\<close>

definition Sect_KindByte :: "byte list \<Rightarrow> nat \<Rightarrow> byte result" where
  "Sect_KindByte mem p = load_le mem p 1"

definition Sect_IsFat :: "byte \<Rightarrow> bool" where
  "Sect_IsFat k \<longleftrightarrow> k AND CorILMethod_Sect_FatFormat \<noteq> 0"

definition Sect_Kind :: "byte \<Rightarrow> byte" where
  "Sect_Kind k = k AND CorILMethod_Sect_KindMask"

definition Sect_More :: "byte \<Rightarrow> bool" where
  "Sect_More k \<longleftrightarrow> k AND CorILMethod_Sect_MoreSects \<noteq> 0"

definition Sect_DataSize :: "byte list \<Rightarrow> nat \<Rightarrow> DWORD result" where
  "Sect_DataSize mem p = bindR (Sect_KindByte mem p) (\<lambda>k.
     if Sect_IsFat k then load_le mem (p + 1) 3 else load_le mem (p + 1) 1)"

definition Sect_Next :: "byte list \<Rightarrow> nat \<Rightarrow> nat option result" where
  "Sect_Next mem p = bindR (Sect_KindByte mem p) (\<lambda>k.
     if \<not> Sect_More k then Ok None
     else bindR (Sect_DataSize mem p) (\<lambda>n.
       Ok (Some (Align (p + (if Sect_IsFat k then 4 else 2) + unat n)))))"

definition EHCount :: "byte list \<Rightarrow> nat \<Rightarrow> nat result" where
  "EHCount mem p = bindR (Sect_KindByte mem p) (\<lambda>k. bindR (Sect_DataSize mem p) (\<lambda>n.
     Ok (if Sect_IsFat k then unat n div 24 else unat n div 12)))"

text \<open>One clause in its fat form.\<close>

definition SectEH_EHClause :: "byte list \<Rightarrow> nat \<Rightarrow> nat \<Rightarrow> EH_CLAUSE result" where
  "SectEH_EHClause mem p idx = bindR (Sect_KindByte mem p) (\<lambda>k.
     if Sect_IsFat k then readFatClause mem (p + 4 + 24 * idx)
     else readSmallClause mem (p + 4 + 12 * idx))"

text \<open>\<^verbatim>\<open>DecoderInit\<close>: the exception section, if the first section is one.\<close>

definition DecoderInit :: "byte list \<Rightarrow> COR_ILMETHOD_FAT \<Rightarrow> nat option result" where
  "DecoderInit mem header = (case Fat_GetSect header of
     None \<Rightarrow> Ok None
   | Some p \<Rightarrow> bindR (Sect_KindByte mem p) (\<lambda>k.
       Ok (if Sect_Kind k = CorILMethod_Sect_EHTable then Some p else None)))"

text \<open>The sizes of a section as numbers; they are below \<open>2 ^ 32\<close> for the numbers of clauses the theorems admit, so the code's
  32-bit sums do not wrap.\<close>

definition EH_SMALL_Size :: "nat \<Rightarrow> nat" where
  "EH_SMALL_Size ehCount = 16 + 12 * (ehCount - 1)"

definition EH_FAT_Size :: "nat \<Rightarrow> nat" where
  "EH_FAT_Size ehCount = 28 + 24 * (ehCount - 1)"

definition SectEH_SizeWorst :: "nat \<Rightarrow> nat" where
  "SectEH_SizeWorst ehCount = (if ehCount \<noteq> 0 then EH_FAT_Size ehCount else 0)"

definition SectEH_SizeWithCode :: "nat \<Rightarrow> nat \<Rightarrow> nat" where
  "SectEH_SizeWithCode ehCount codeSize = (if ehCount \<noteq> 0 then SectEH_SizeWorst ehCount else 0)"

text \<open>The test both loops apply to a clause.\<close>

definition clauseTooBig :: "EH_CLAUSE \<Rightarrow> bool" where
  "clauseTooBig c \<longleftrightarrow> cl_TryOffset c > 0xFFFF \<or> cl_TryLength c > 0xFF \<or>
     cl_HandlerOffset c > 0xFFFF \<or> cl_HandlerLength c > 0xFF"

definition SectEH_SizeExact :: "EH_CLAUSE list \<Rightarrow> nat" where
  "SectEH_SizeExact clauses = (let ehCount = length clauses in
     if ehCount = 0 then 0
     else if EH_SMALL_Size ehCount > COR_ILMETHOD_SECT_SMALL_MAX_DATASIZE then EH_FAT_Size ehCount
     else if list_ex clauseTooBig clauses then EH_FAT_Size ehCount
     else EH_SMALL_Size ehCount)"

text \<open>The bytes of the section, small when every clause fits, and the positions of the class
  tokens of typed clauses; nothing is written when there is no room or no clause.\<close>

definition SectEH_Emit :: "nat \<Rightarrow> EH_CLAUSE list \<Rightarrow> bool \<Rightarrow> nat \<times> byte list \<times> DWORD list" where
  "SectEH_Emit cb clauses moreSections = (let ehCount = length clauses;
       more = (if moreSections then CorILMethod_Sect_MoreSects else 0) in
     if cb = 0 \<or> ehCount = 0 then (0, [], [])
     else if EH_SMALL_Size ehCount < COR_ILMETHOD_SECT_SMALL_MAX_DATASIZE \<and> \<not> list_ex clauseTooBig clauses then
       (cb,
        [CorILMethod_Sect_EHTable OR more, of_nat (EH_SMALL_Size ehCount), 0, 0]
          @ concat (map smallClauseBytes clauses),
        map (\<lambda>(j, c). if cl_Flags c AND 0xFFFF = COR_ILEXCEPTION_CLAUSE_NONE
               then of_nat (4 + 12 * j + 8) else - 1) (zip [0..<ehCount] clauses))
     else
       (cb,
        [CorILMethod_Sect_EHTable OR CorILMethod_Sect_FatFormat OR more]
          @ le_bytes 3 (of_nat (EH_FAT_Size ehCount) :: DWORD) @ concat (map fatClauseBytes clauses),
        map (\<lambda>(j, c). if cl_Flags c = COR_ILEXCEPTION_CLAUSE_NONE
               then of_nat (4 + 24 * j + 20) else - 1) (zip [0..<ehCount] clauses)))"


section \<open>Reading back what was emitted\<close>

lemma take_bit_small:
  assumes "unat (v :: 'a::len word) < 2 ^ n" shows "take_bit n v = v"
  by (rule bit_word_eqI) (use small_word_bits [OF assms] in \<open>auto simp: bit_simps not_less [symmetric]\<close>)

lemma unat_ucast_up:
  "LENGTH('a::len) \<le> LENGTH('b::len) \<Longrightarrow> unat (ucast (x :: 'a word) :: 'b word) = unat x"
  by (simp add: unsigned_ucast_eq take_bit_nat_eq_self_iff)
     (meson less_le_trans one_le_numeral power_increasing unsigned_less)

lemma unat_of_nat_small: "n < 2 ^ LENGTH('a::len) \<Longrightarrow> unat (of_nat n :: 'a word) = n"
  by (simp add: unsigned_of_nat take_bit_nat_eq_self_iff)

lemma take_bit_DWORD [simp]: "take_bit 32 (w :: DWORD) = w"
  by (rule take_bit_word_eq_self) simp

lemma load_le_head:
  "load_le (le_bytes n (w :: 'a::len word) @ post) 0 n = Ok (take_bit (8 * n) w)" if "8 * n \<le> LENGTH('a)"
  using load_le_append [OF that, of "[]" 0 w post] by simp

lemma load_le_skip:
  "length pre \<le> i \<Longrightarrow> load_le (pre @ mem) i n = load_le mem (i - length pre) n"
  by (auto simp: load_le_def)

lemma length_fatClauseBytes [simp]: "length (fatClauseBytes c) = 24"
  and length_smallClauseBytes [simp]: "length (smallClauseBytes c) = 12"
  and length_fatHeaderBytes [simp]: "length (fatHeaderBytes h) = 12"
  by (simp_all add: fatClauseBytes_def smallClauseBytes_def fatHeaderBytes_def)

lemma readFatClause_bytes:
  "length pre = p \<Longrightarrow> readFatClause (pre @ fatClauseBytes c @ post) p = Ok c"
  by (simp add: readFatClause_def fatClauseBytes_def load_le_skip load_le_head)

lemma readSmallClause_bytes:
  assumes "\<not> clauseTooBig c" and "cl_Flags c \<le> 0xFFFF" and "length pre = p"
  shows "readSmallClause (pre @ smallClauseBytes c @ post) p = Ok c"
proof -
  have t: "take_bit 16 v = v" if "v \<le> 0xFFFF" for v :: DWORD
    using that by (intro take_bit_small) (simp add: word_le_nat_alt)
  have u: "take_bit 8 v = v" if "v \<le> 0xFF" for v :: DWORD
    using that by (intro take_bit_small) (simp add: word_le_nat_alt)
  show ?thesis
    using assms by (simp add: readSmallClause_def smallClauseBytes_def load_le_skip load_le_head clauseTooBig_def not_less t u
        del: le_bytes.simps)
qed

lemma concat_map_split:
  "k < length xs \<Longrightarrow> concat (map f xs) = concat (map f (take k xs)) @ f (xs ! k) @ concat (map f (drop (Suc k) xs))"
  by (metis append.assoc concat.simps(2) concat_append id_take_nth_drop list.simps(9) map_append)

lemma length_concat_const: "(\<And>x. length (f x) = n) \<Longrightarrow> length (concat (map f xs)) = n * length xs"
  by (induction xs) auto

lemma load_byte: "i < length mem \<Longrightarrow> load_le mem i (Suc 0) = Ok (ucast (mem ! i))"
  by (simp add: load_le_def take_Suc_conv_app_nth [of 0, simplified] hd_drop_conv_nth take_Suc)

text \<open>The two tests for the small format differ only at a size that no clause count has.\<close>

lemma small_format_iff: "EH_SMALL_Size n < 0xFF \<longleftrightarrow> \<not> EH_SMALL_Size n > 0xFF"
  unfolding EH_SMALL_Size_def by presburger

lemma sizes_Suc: "clauses \<noteq> [] \<Longrightarrow> EH_SMALL_Size (length clauses) = 4 + 12 * length clauses"
  "clauses \<noteq> [] \<Longrightarrow> EH_FAT_Size (length clauses) = 4 + 24 * length clauses"
  by (cases clauses; simp add: EH_SMALL_Size_def EH_FAT_Size_def)+

lemma no_size_255: "12 * n \<noteq> (251 :: nat)"
  by presburger

definition small_section :: "EH_CLAUSE list \<Rightarrow> bool" where
  "small_section clauses \<longleftrightarrow> EH_SMALL_Size (length clauses) < 0xFF \<and> \<not> list_ex clauseTooBig clauses"

lemma SectEH_Emit_bytes:
  assumes "clauses \<noteq> []" and "cb \<noteq> 0"
  shows "fst (snd (SectEH_Emit cb clauses m)) =
    (let more = (if m then CorILMethod_Sect_MoreSects else 0) in
     if small_section clauses
     then [CorILMethod_Sect_EHTable OR more, of_nat (4 + 12 * length clauses), 0, 0]
          @ concat (map smallClauseBytes clauses)
     else [CorILMethod_Sect_EHTable OR CorILMethod_Sect_FatFormat OR more]
          @ le_bytes 3 (of_nat (4 + 24 * length clauses) :: DWORD) @ concat (map fatClauseBytes clauses))"
  using assms by (simp add: SectEH_Emit_def Let_def small_section_def sizes_Suc)

lemma SectEH_Emit_length:
  assumes "clauses \<noteq> []" and "cb \<noteq> 0"
  shows "length (fst (snd (SectEH_Emit cb clauses m))) = SectEH_SizeExact clauses"
  unfolding SectEH_Emit_bytes [OF assms]
  using assms by (auto simp: Let_def SectEH_SizeExact_def small_section_def small_format_iff sizes_Suc
      length_concat_const [where n = 12] length_concat_const [where n = 24] no_size_255)

lemma len_le: "LENGTH(8) \<le> LENGTH(32)"
  by simp

lemma SectEH_read_small:
  assumes "clauses \<noteq> []" and "small_section clauses" and "list_all (\<lambda>c. cl_Flags c \<le> 0xFFFF) clauses"
    and "sect = [CorILMethod_Sect_EHTable OR (if m then CorILMethod_Sect_MoreSects else 0), of_nat (4 + 12 * length clauses), 0, 0]
          @ concat (map smallClauseBytes clauses)" and "idx < length clauses"
  shows "EHCount (pre @ sect @ post) (length pre) = Ok (length clauses)"
    and "SectEH_EHClause (pre @ sect @ post) (length pre) idx = Ok (clauses ! idx)"
proof -
  let ?m = "pre @ sect @ post"
  have k: "Sect_KindByte ?m (length pre) = Ok (CorILMethod_Sect_EHTable OR (if m then CorILMethod_Sect_MoreSects else 0))"
    by (simp add: Sect_KindByte_def load_byte assms(4) nth_append)
  have f: "\<not> Sect_IsFat (CorILMethod_Sect_EHTable OR (if m then CorILMethod_Sect_MoreSects else 0))"
    by (simp add: Sect_IsFat_def)
  have "4 + 12 * length clauses < 255" using assms(1,2) by (simp add: small_section_def sizes_Suc)
  then have "unat (of_nat (4 + 12 * length clauses) :: byte) = 4 + 12 * length clauses"
    by (intro unat_of_nat_small) simp
  then have "unat (ucast (of_nat (4 + 12 * length clauses) :: byte) :: DWORD) = 4 + 12 * length clauses"
    using unat_ucast_up [where 'a = 8 and 'b = 32] by (metis len_le)
  then have "EHCount ?m (length pre) = Ok ((4 + 12 * length clauses) div 12)"
    using k f by (simp add: EHCount_def Sect_DataSize_def load_byte assms(4) nth_append)
  then show "EHCount ?m (length pre) = Ok (length clauses)" by simp
  have "?m = (pre @ [CorILMethod_Sect_EHTable OR (if m then CorILMethod_Sect_MoreSects else 0), of_nat (4 + 12 * length clauses), 0, 0]
     @ concat (map smallClauseBytes (take idx clauses))) @ smallClauseBytes (clauses ! idx)
     @ concat (map smallClauseBytes (drop (Suc idx) clauses)) @ post"
    using concat_map_split [OF assms(5), of smallClauseBytes] by (simp add: assms(4))
  moreover have "\<not> clauseTooBig (clauses ! idx)" "cl_Flags (clauses ! idx) \<le> 0xFFFF"
    using assms(2,3,5) by (auto simp: small_section_def list_ex_iff list_all_iff)
  ultimately have "readSmallClause ?m (length pre + 4 + 12 * idx) = Ok (clauses ! idx)"
    using assms(5) by (simp only:) (rule readSmallClause_bytes, simp_all add: length_concat_const [where n = 12])
  then show "SectEH_EHClause ?m (length pre) idx = Ok (clauses ! idx)"
    using k f by (simp add: SectEH_EHClause_def)
qed


text \<open>A fat section with the data size \<open>d\<close>, which may or may not count the header.\<close>

lemma SectEH_read_fat:
  assumes "d < 2 ^ 24" and "d div 24 = length clauses"
    and "sect = [CorILMethod_Sect_EHTable OR CorILMethod_Sect_FatFormat OR (if m then CorILMethod_Sect_MoreSects else 0)]
          @ le_bytes 3 (of_nat d :: DWORD) @ concat (map fatClauseBytes clauses)"
    and "idx < length clauses"
  shows "EHCount (pre @ sect @ post) (length pre) = Ok (length clauses)"
    and "SectEH_EHClause (pre @ sect @ post) (length pre) idx = Ok (clauses ! idx)"
proof -
  let ?m = "pre @ sect @ post"
  let ?k = "CorILMethod_Sect_EHTable OR CorILMethod_Sect_FatFormat OR (if m then CorILMethod_Sect_MoreSects else 0)"
  have k: "Sect_KindByte ?m (length pre) = Ok ?k"
    by (simp add: Sect_KindByte_def load_byte assms(3) nth_append)
  have f: "Sect_IsFat ?k" by (simp add: Sect_IsFat_def)
  have u: "unat (of_nat d :: DWORD) = d"
    using assms(1) by (intro unat_of_nat_small) simp
  have s: "?m = (pre @ [?k]) @ le_bytes 3 (of_nat d :: DWORD)
      @ (concat (map fatClauseBytes clauses) @ post)" by (simp add: assms(3))
  have "load_le ?m (length pre + 1) 3 = Ok (take_bit 24 (of_nat d) :: DWORD)"
    using load_le_append [where 'a = 32 and n = 3 and pre = "pre @ [?k]" and i = "length pre + 1"]
    unfolding s by simp
  also have "take_bit 24 (of_nat d :: DWORD) = of_nat d"
    by (rule take_bit_small) (use u assms(1) in simp)
  finally have "EHCount ?m (length pre) = Ok (unat (of_nat d :: DWORD) div 24)"
    using k f by (simp add: EHCount_def Sect_DataSize_def)
  then show "EHCount ?m (length pre) = Ok (length clauses)" unfolding u by (simp add: assms(2))
  have "?m = (pre @ [?k] @ le_bytes 3 (of_nat d :: DWORD)
     @ concat (map fatClauseBytes (take idx clauses))) @ fatClauseBytes (clauses ! idx)
     @ concat (map fatClauseBytes (drop (Suc idx) clauses)) @ post"
    using concat_map_split [OF assms(4), of fatClauseBytes] by (simp add: assms(3))
  then show "SectEH_EHClause ?m (length pre) idx = Ok (clauses ! idx)"
    using k f assms(4)
    by (simp only: SectEH_EHClause_def bindR.simps if_True)
       (rule readFatClause_bytes, simp add: length_concat_const [where n = 24])
qed

text \<open>C34. A section written by \<^verbatim>\<open>SectEH_Emit\<close> has exactly the size that \<^verbatim>\<open>SectEH_SizeExact\<close>
  announces, and reading it back, wherever it stands in the body, gives the number of clauses and
  every clause unchanged, in the small format as in the fat one.\<close>

theorem SectEH_Emit_roundtrip:
  assumes "clauses \<noteq> []" and "cb \<noteq> 0" and "4 + 24 * length clauses < 2 ^ 24"
    and "list_all (\<lambda>c. cl_Flags c \<le> 0xFFFF) clauses" and "idx < length clauses"
    and "SectEH_Emit cb clauses moreSections = (n, sect, offsets)"
  shows "n = cb \<and> length sect = SectEH_SizeExact clauses \<and>
    EHCount (pre @ sect @ post) (length pre) = Ok (length clauses) \<and>
    SectEH_EHClause (pre @ sect @ post) (length pre) idx = Ok (clauses ! idx)"
proof -
  have e: "sect = fst (snd (SectEH_Emit cb clauses moreSections))" "n = fst (SectEH_Emit cb clauses moreSections)"
    using assms(6) by simp_all
  have "n = cb" using assms(1,2) by (simp add: e(2) SectEH_Emit_def Let_def)
  moreover have "length sect = SectEH_SizeExact clauses"
    unfolding e(1) by (rule SectEH_Emit_length [OF assms(1,2)])
  moreover note b = e(1) [unfolded SectEH_Emit_bytes [OF assms(1,2)] Let_def]
  ultimately show ?thesis
    using b SectEH_read_small [OF assms(1) _ assms(4) _ assms(5), of sect moreSections pre post]
      SectEH_read_fat [OF assms(3) _ _ assms(5), of sect moreSections pre post]
    by (cases "small_section clauses") simp_all
qed

definition sample_clause :: EH_CLAUSE where
  "sample_clause = \<lparr> cl_Flags = 0, cl_TryOffset = 1, cl_TryLength = 7, cl_HandlerOffset = 8,
     cl_HandlerLength = 5, cl_ClassToken = 0x01000002 \<rparr>"

definition sample_section :: "byte list" where
  "sample_section = [1, 16, 0, 0, 0, 0, 1, 0, 7, 8, 0, 5, 2, 0, 0, 1]"

lemma SectEH_Emit_roundtrip_witness:
  "SectEH_Emit 16 [sample_clause] False = (16, sample_section, [12]) \<and>
   EHCount ([0x2A, 0, 0, 0] @ sample_section @ []) (length [0x2A :: byte, 0, 0, 0]) = Ok (length [sample_clause]) \<and>
   SectEH_EHClause ([0x2A, 0, 0, 0] @ sample_section @ []) (length [0x2A :: byte, 0, 0, 0]) 0 = Ok ([sample_clause] ! 0)"
proof -
  have "SectEH_Emit 16 [sample_clause] False = (16, sample_section, [12])" by code_simp
  moreover note SectEH_Emit_roundtrip [OF _ _ _ _ _ this, of 0 "[0x2A, 0, 0, 0]" "[]"]
  moreover have "list_all (\<lambda>c. cl_Flags c \<le> 0xFFFF) [sample_clause]" by (simp add: sample_clause_def)
  ultimately show ?thesis by simp
qed

section \<open>Reading back a method header\<close>

lemma readFatHeader_bytes:
  "length pre = p \<Longrightarrow> readFatHeader (pre @ fatHeaderBytes h @ post) p = Ok h"
proof -
  assume p: "length pre = p"
  let ?v = "ucast (h_Flags h) OR push_bit 12 (ucast (h_Size h)) OR push_bit 16 (ucast (h_MaxStack h)) :: DWORD"
  have nb: "\<not> bit (h_Flags h) n" if "12 \<le> n" for n using that bit_imp_le_length [of "h_Flags h" n] by auto
  have ns: "\<not> bit (h_Size h) n" if "4 \<le> n" for n using that bit_imp_le_length [of "h_Size h" n] by auto
  have "ucast ?v = h_Flags h" by (rule bit_word_eqI) (auto simp: bit_simps)
  moreover have "ucast (drop_bit 12 ?v) = h_Size h"
    by (rule bit_word_eqI) (auto simp: bit_simps nb)
  moreover have "ucast (drop_bit 16 ?v) = h_MaxStack h"
    by (rule bit_word_eqI) (auto simp: bit_simps nb ns)
  ultimately show ?thesis
    using p by (simp add: readFatHeader_def fatHeaderBytes_def load_le_skip load_le_head)
qed

lemma fat_not_tiny:
  assumes "h_Flags h AND 3 = CorILMethod_FatFormat"
  shows "\<not> Tiny_IsTiny (fatHeaderBytes h ! 0)"
proof -
  let ?v = "ucast (h_Flags h) OR push_bit 12 (ucast (h_Size h)) OR push_bit 16 (ucast (h_MaxStack h)) :: DWORD"
  have "bit (h_Flags h AND 3) 0" using assms by (simp add: bit_simps)
  then have "bit (h_Flags h) 0" by (simp add: bit_simps)
  then have "bit (ucast ?v AND 3 :: byte) 0" by (simp add: bit_simps)
  then have "ucast ?v AND 3 \<noteq> (2 :: byte)" by (metis bit_numeral_simps(1) bit_0 even_numeral)
  moreover have "fatHeaderBytes h ! 0 = ucast ?v"
    by (simp add: fatHeaderBytes_def eval_nat_numeral)
  ultimately show ?thesis by (simp add: Tiny_IsTiny_def)
qed

lemma tiny_bytes:
  assumes "(c :: DWORD) < 64"
  shows "Tiny_IsTiny (ucast (2 OR push_bit 2 c))" and "Tiny_GetCodeSize (ucast (2 OR push_bit 2 c)) = c"
proof -
  have nb: "n < 6" if "bit c n" for n
    using assms that small_word_bits [of c 6 n] by (force simp: word_less_nat_alt not_le [symmetric])
  have m: "bit (3 :: byte) n \<longleftrightarrow> n < 2" for n
  proof -
    have "(3 :: byte) = mask 2" by (simp add: mask_eq_exp_minus_1)
    then show ?thesis by (simp only: bit_mask_iff) auto
  qed
  have t: "bit (2 :: byte) n \<longleftrightarrow> n = 1" for n
    using bit_2_iff [where 'a = "8 word"] by auto
  have t': "bit (2 :: DWORD) n \<longleftrightarrow> n = 1" for n
    using bit_2_iff [where 'a = "32 word"] by auto
  have "ucast (2 OR push_bit 2 c) AND 3 = (2 :: byte)"
    by (rule bit_word_eqI) (simp only: bit_and_iff m t, auto simp: bit_simps t')
  then show "Tiny_IsTiny (ucast (2 OR push_bit 2 c))" by (simp add: Tiny_IsTiny_def)
  show "Tiny_GetCodeSize (ucast (2 OR push_bit 2 c)) = c"
    unfolding Tiny_GetCodeSize_def by (rule bit_word_eqI) (auto simp: bit_simps t' dest: nb)
qed

lemma or_FatFormat: "((f :: 12 word) OR 3 OR (if m then 8 else 0)) AND 3 = 3"
  by (rule bit_word_eqI) (auto simp: bit_simps mask_eq_exp_minus_1 [of 2, simplified, symmetric])

text \<open>C35. A method header written by \<^verbatim>\<open>IlmethodEmit\<close> with the size \<^verbatim>\<open>IlmethodSize\<close> chose has
  exactly that size.  It is the one-byte header if and only if nothing is lost with it: the stack depth is at most eight, no flag but
  the format is set, there is no local signature, no further section, and the code is shorter than 64 bytes; then the byte is recognised as
  tiny and carries the code size.  Otherwise it is the twelve-byte header, which is not mistaken for a tiny one and gives back the stack
  depth, the code size, the local signature and the flags, with the format and section bits added and the size of the header set.\<close>

theorem IlmethodEmit_roundtrip:
  assumes "IlmethodEmit (IlmethodSize header moreSections) header moreSections = (n, bs)"
  shows "n = IlmethodSize header moreSections \<and> length bs = unat n \<and>
    (if h_MaxStack header \<le> 8 \<and> h_Flags header AND NOT CorILMethod_FormatMask = 0 \<and> h_LocalVarSigTok header = 0 \<and>
        h_CodeSize header < 64 \<and> \<not> moreSections
     then n = 1 \<and> Tiny_IsTiny (bs ! 0) \<and> Tiny_GetCodeSize (bs ! 0) = h_CodeSize header
     else n = 12 \<and> \<not> Tiny_IsTiny (bs ! 0) \<and> readFatHeader (bs @ body) 0 = Ok (header \<lparr>
       h_Flags := h_Flags header OR CorILMethod_FatFormat OR (if moreSections then CorILMethod_MoreSects else 0),
       h_Size := 3 \<rparr>))"
proof (cases "IlmethodSize header moreSections = 1")
  case True
  then have c: "h_MaxStack header \<le> 8 \<and> h_Flags header AND NOT CorILMethod_FormatMask = 0 \<and> h_LocalVarSigTok header = 0 \<and>
      h_CodeSize header < 64 \<and> \<not> moreSections"
    by (simp add: IlmethodSize_def split: if_splits)
  then show ?thesis using True assms by (auto simp: IlmethodEmit_def tiny_bytes)
next
  case False
  then have c: "IlmethodSize header moreSections = 12" "\<not> (h_MaxStack header \<le> 8 \<and> h_Flags header AND NOT CorILMethod_FormatMask = 0 \<and>
      h_LocalVarSigTok header = 0 \<and> h_CodeSize header < 64 \<and> \<not> moreSections)"
    by (simp_all add: IlmethodSize_def split: if_splits)
  let ?h = "header \<lparr> h_Flags := h_Flags header OR 3 OR (if moreSections then 8 else 0), h_Size := 3 \<rparr>"
  have "n = 12" "bs = fatHeaderBytes ?h"
    using assms c(1) by (simp_all add: IlmethodEmit_def or.assoc split: if_splits)
  moreover have "\<not> Tiny_IsTiny (fatHeaderBytes ?h ! 0)"
    by (rule fat_not_tiny) (simp add: or_FatFormat)
  moreover have "readFatHeader (fatHeaderBytes ?h @ body) 0 = Ok ?h"
    using readFatHeader_bytes [of "[]" 0 ?h body] by simp
  ultimately show ?thesis using c by simp
qed

definition sample_header :: COR_ILMETHOD_FAT where
  "sample_header = \<lparr> h_Flags = 0x10, h_Size = 0, h_MaxStack = 9, h_CodeSize = 0x123, h_LocalVarSigTok = 0x11000004 \<rparr>"

lemma IlmethodEmit_roundtrip_witness:
  "IlmethodEmit (IlmethodSize sample_header True) sample_header True
     = (12, [0x1B, 0x30, 9, 0, 0x23, 1, 0, 0, 4, 0, 0, 0x11]) \<and>
   readFatHeader ([0x1B, 0x30, 9, 0, 0x23, 1, 0, 0, 4, 0, 0, 0x11] @ [0x2A]) 0
     = Ok (sample_header \<lparr> h_Flags := h_Flags sample_header OR CorILMethod_FatFormat OR (if True then CorILMethod_MoreSects else 0),
       h_Size := 3 \<rparr>)"
proof -
  have e: "IlmethodEmit (IlmethodSize sample_header True) sample_header True
     = (12, [0x1B, 0x30, 9, 0, 0x23, 1, 0, 0, 4, 0, 0, 0x11])" by code_simp
  have "\<not> h_MaxStack sample_header \<le> 8" by code_simp
  then have "readFatHeader ([0x1B, 0x30, 9, 0, 0x23, 1, 0, 0, 4, 0, 0, 0x11] @ [0x2A]) 0
     = Ok (sample_header \<lparr> h_Flags := h_Flags sample_header OR CorILMethod_FatFormat OR (if True then CorILMethod_MoreSects else 0),
       h_Size := 3 \<rparr>)" using IlmethodEmit_roundtrip [OF e, of "[0x2A]"] by (simp del: append.simps)
  with e show ?thesis by blast
qed

end
