(* ===== verification/Types.thy ===== *)
theory Types
  imports SignatureBuilder CorHeaders
begin

text \<open>
  The type objects of signatures (\<^verbatim>\<open>Type.cpp\<close>, \<^verbatim>\<open>SimpleType.cpp\<close>, \<^verbatim>\<open>TokenType.cpp\<close>, \<^verbatim>\<open>CompositeType.cpp\<close>,
  \<^verbatim>\<open>ArrayType.cpp\<close>, \<^verbatim>\<open>GenericInstanceType.cpp\<close>, \<^verbatim>\<open>GenericParameterType.cpp\<close>, \<^verbatim>\<open>FunctionType.cpp\<close>,
  \<^verbatim>\<open>ModifierType.cpp\<close>) and how they write themselves into a signature.  A type is a value: its fields
  are set by the creator before anybody else sees the object.  \<open>sig_of\<close> is the signature a type
  stands for; \<^verbatim>\<open>AddToSignature\<close> appends it to the builder.
\<close>

section \<open>Element types\<close>

type_synonym CorElementType = DWORD

abbreviation (input) "ELEMENT_TYPE_END \<equiv> (0x00 :: CorElementType)"
abbreviation (input) "ELEMENT_TYPE_BOOLEAN \<equiv> (0x02 :: CorElementType)"
abbreviation (input) "ELEMENT_TYPE_CHAR \<equiv> (0x03 :: CorElementType)"
abbreviation (input) "ELEMENT_TYPE_I1 \<equiv> (0x04 :: CorElementType)"
abbreviation (input) "ELEMENT_TYPE_U1 \<equiv> (0x05 :: CorElementType)"
abbreviation (input) "ELEMENT_TYPE_I2 \<equiv> (0x06 :: CorElementType)"
abbreviation (input) "ELEMENT_TYPE_U2 \<equiv> (0x07 :: CorElementType)"
abbreviation (input) "ELEMENT_TYPE_I4 \<equiv> (0x08 :: CorElementType)"
abbreviation (input) "ELEMENT_TYPE_U4 \<equiv> (0x09 :: CorElementType)"
abbreviation (input) "ELEMENT_TYPE_I8 \<equiv> (0x0a :: CorElementType)"
abbreviation (input) "ELEMENT_TYPE_U8 \<equiv> (0x0b :: CorElementType)"
abbreviation (input) "ELEMENT_TYPE_R4 \<equiv> (0x0c :: CorElementType)"
abbreviation (input) "ELEMENT_TYPE_R8 \<equiv> (0x0d :: CorElementType)"
abbreviation (input) "ELEMENT_TYPE_STRING \<equiv> (0x0e :: CorElementType)"
abbreviation (input) "ELEMENT_TYPE_PTR \<equiv> (0x0f :: CorElementType)"
abbreviation (input) "ELEMENT_TYPE_BYREF \<equiv> (0x10 :: CorElementType)"
abbreviation (input) "ELEMENT_TYPE_VALUETYPE \<equiv> (0x11 :: CorElementType)"
abbreviation (input) "ELEMENT_TYPE_CLASS \<equiv> (0x12 :: CorElementType)"
abbreviation (input) "ELEMENT_TYPE_VAR \<equiv> (0x13 :: CorElementType)"
abbreviation (input) "ELEMENT_TYPE_ARRAY \<equiv> (0x14 :: CorElementType)"
abbreviation (input) "ELEMENT_TYPE_GENERICINST \<equiv> (0x15 :: CorElementType)"
abbreviation (input) "ELEMENT_TYPE_TYPEDBYREF \<equiv> (0x16 :: CorElementType)"
abbreviation (input) "ELEMENT_TYPE_I \<equiv> (0x18 :: CorElementType)"
abbreviation (input) "ELEMENT_TYPE_U \<equiv> (0x19 :: CorElementType)"
abbreviation (input) "ELEMENT_TYPE_FNPTR \<equiv> (0x1b :: CorElementType)"
abbreviation (input) "ELEMENT_TYPE_OBJECT \<equiv> (0x1c :: CorElementType)"
abbreviation (input) "ELEMENT_TYPE_SZARRAY \<equiv> (0x1d :: CorElementType)"
abbreviation (input) "ELEMENT_TYPE_MVAR \<equiv> (0x1e :: CorElementType)"
abbreviation (input) "ELEMENT_TYPE_CMOD_REQD \<equiv> (0x1f :: CorElementType)"
abbreviation (input) "ELEMENT_TYPE_CMOD_OPT \<equiv> (0x20 :: CorElementType)"
abbreviation (input) "ELEMENT_TYPE_INTERNAL \<equiv> (0x21 :: CorElementType)"
abbreviation (input) "ELEMENT_TYPE_MAX \<equiv> (0x22 :: CorElementType)"
abbreviation (input) "ELEMENT_TYPE_MODIFIER \<equiv> (0x40 :: CorElementType)"
abbreviation (input) "ELEMENT_TYPE_SENTINEL \<equiv> (0x41 :: CorElementType)"
abbreviation (input) "ELEMENT_TYPE_PINNED \<equiv> (0x45 :: CorElementType)"

section \<open>Type objects\<close>

text \<open>The members every type has, and those of its class.\<close>

datatype CType = CType (m_corType: CorElementType) (m_isSentinel: bool) (m_isPinned: bool) (m_modifiers: "CType list") (m_body: tbody)
  and tbody =
    SimpleType
  | TokenType mdToken
  | ModifierType mdToken
  | CompositeType CType
  | ArrayType CType DWORD "DWORD list" "DWORD list"
  | GenericInstance CType "CType list"
  | GenericParameterType DWORD
  | FunctionType DWORD CType "CType list" DWORD

definition new_CType :: "CorElementType \<Rightarrow> tbody \<Rightarrow> CType" where
  "new_CType t b = CType t False False [] b"

definition SetIsPinned :: "bool \<Rightarrow> CType \<Rightarrow> CType" where
  "SetIsPinned v t = CType (m_corType t) (m_isSentinel t) v (m_modifiers t) (m_body t)"

definition SetIsSentinel :: "bool \<Rightarrow> CType \<Rightarrow> CType" where
  "SetIsSentinel v t = CType (m_corType t) v (m_isPinned t) (m_modifiers t) (m_body t)"

definition SetModifers :: "CType list \<Rightarrow> CType \<Rightarrow> CType" where
  "SetModifers v t = CType (m_corType t) (m_isSentinel t) (m_isPinned t) v (m_body t)"

definition IsPrimitive :: "CType \<Rightarrow> bool" where
  "IsPrimitive t \<longleftrightarrow> m_corType t \<le> ELEMENT_TYPE_STRING \<or> m_corType t = ELEMENT_TYPE_I \<or> m_corType t = ELEMENT_TYPE_U"

definition IsArray :: "CType \<Rightarrow> bool" where
  "IsArray t \<longleftrightarrow> m_corType t = ELEMENT_TYPE_ARRAY \<or> m_corType t = ELEMENT_TYPE_SZARRAY"

definition IsClass :: "CType \<Rightarrow> bool" where
  "IsClass t \<longleftrightarrow> False"

definition GetNameFromCorType :: "CorElementType \<Rightarrow> string" where
  "GetNameFromCorType corType = (case map_of
     [(ELEMENT_TYPE_END, ''END''), (ELEMENT_TYPE_VOID, ''VOID''), (ELEMENT_TYPE_BOOLEAN, ''BOOLEAN''), (ELEMENT_TYPE_CHAR, ''CHAR''),
      (ELEMENT_TYPE_I1, ''I1''), (ELEMENT_TYPE_U1, ''U1''), (ELEMENT_TYPE_I2, ''I2''), (ELEMENT_TYPE_U2, ''U2''),
      (ELEMENT_TYPE_I4, ''I4''), (ELEMENT_TYPE_U4, ''U4''), (ELEMENT_TYPE_I8, ''I8''), (ELEMENT_TYPE_U8, ''U8''),
      (ELEMENT_TYPE_R4, ''R4''), (ELEMENT_TYPE_R8, ''R8''), (ELEMENT_TYPE_STRING, ''STRING''), (ELEMENT_TYPE_PTR, ''PTR''),
      (ELEMENT_TYPE_BYREF, ''BYREF''), (ELEMENT_TYPE_VALUETYPE, ''VALUETYPE''), (ELEMENT_TYPE_CLASS, ''CLASS''), (ELEMENT_TYPE_VAR, ''VAR''),
      (ELEMENT_TYPE_ARRAY, ''ARRAY''), (ELEMENT_TYPE_GENERICINST, ''GENERICINST''), (ELEMENT_TYPE_TYPEDBYREF, ''TYPEDBYREF''),
      (ELEMENT_TYPE_I, ''I''), (ELEMENT_TYPE_U, ''U''), (ELEMENT_TYPE_FNPTR, ''FNPTR''), (ELEMENT_TYPE_OBJECT, ''OBJECT''),
      (ELEMENT_TYPE_SZARRAY, ''SZARRAY''), (ELEMENT_TYPE_MVAR, ''MVAR''), (ELEMENT_TYPE_CMOD_REQD, ''CMOD_REQD''),
      (ELEMENT_TYPE_CMOD_OPT, ''CMOD_OPT''), (ELEMENT_TYPE_INTERNAL, ''INTERNAL''), (ELEMENT_TYPE_MAX, ''MAX''),
      (ELEMENT_TYPE_MODIFIER, ''MODIFIER''), (ELEMENT_TYPE_SENTINEL, ''SENTINEL''), (ELEMENT_TYPE_PINNED, ''PINNED'')] corType of
     None \<Rightarrow> ''INVALID'' | Some n \<Rightarrow> n)"

definition CType_GetName :: "CType \<Rightarrow> string" where
  "CType_GetName t = GetNameFromCorType (m_corType t)"

definition GetRelatedType :: "CType \<Rightarrow> CType option" where
  "GetRelatedType t = (case m_body t of CompositeType r \<Rightarrow> Some r | ArrayType r _ _ _ \<Rightarrow> Some r | GenericInstance r _ \<Rightarrow> Some r | _ \<Rightarrow> None)"

definition GetPosition :: "CType \<Rightarrow> DWORD option" where
  "GetPosition t = (case m_body t of GenericParameterType p \<Rightarrow> Some p | _ \<Rightarrow> None)"

definition CTokenType_GetToken :: "CType \<Rightarrow> mdToken option" where
  "CTokenType_GetToken t = (case m_body t of TokenType tk \<Rightarrow> Some tk | _ \<Rightarrow> None)"

section \<open>Writing a type into a signature\<close>

abbreviation (input) "IMAGE_CEE_CS_CALLCONV_LOCAL_SIG \<equiv> (7 :: DWORD)"
abbreviation (input) "IMAGE_CEE_CS_CALLCONV_PROPERTY \<equiv> (8 :: DWORD)"
abbreviation (input) "IMAGE_CEE_CS_CALLCONV_GENERICINST \<equiv> (0xa :: DWORD)"

definition addIf :: "bool \<Rightarrow> ('s, unit) op \<Rightarrow> ('s, unit) op" where
  "addIf c f = (if c then f else ret ())"

text \<open>What each class adds behind the part common to all types.  \<open>related\<close>, \<open>returnType\<close>, \<open>parameters\<close> are the
  calls of the same function on the types it refers to.\<close>

definition CTokenType_AddToSignature :: "(nat \<Rightarrow> byte) \<Rightarrow> mdToken \<Rightarrow> (CSignatureBuilder, unit) op" where
  "CTokenType_AddToSignature garbage token = SigBuilder_AddToken garbage token"

definition CModifierType_AddToSignature :: "(nat \<Rightarrow> byte) \<Rightarrow> mdToken \<Rightarrow> (CSignatureBuilder, unit) op" where
  "CModifierType_AddToSignature garbage token = SigBuilder_AddToken garbage token"

definition CGenericParameterType_AddToSignature :: "(nat \<Rightarrow> byte) \<Rightarrow> DWORD \<Rightarrow> (CSignatureBuilder, unit) op" where
  "CGenericParameterType_AddToSignature garbage position = SigBuilder_Add garbage position"

definition CArrayType_AddToSignature ::
  "(nat \<Rightarrow> byte) \<Rightarrow> (CSignatureBuilder, unit) op \<Rightarrow> DWORD \<Rightarrow> DWORD list \<Rightarrow> DWORD list \<Rightarrow> (CSignatureBuilder, unit) op" where
  "CArrayType_AddToSignature garbage related rank counts bounds =
     IfFailRet related (\<lambda>_.
     IfFailRet (SigBuilder_Add garbage rank) (\<lambda>_.
     IfFailRet (SigBuilder_Add garbage (of_nat (length counts))) (\<lambda>_.
     IfFailRet (addEach (SigBuilder_Add garbage) counts) (\<lambda>_.
     IfFailRet (SigBuilder_Add garbage (of_nat (length bounds))) (\<lambda>_.
     addEach (SigBuilder_Add garbage) bounds)))))"

definition CGenericInstance_AddToSignature ::
  "(nat \<Rightarrow> byte) \<Rightarrow> (CSignatureBuilder, unit) op \<Rightarrow> nat \<Rightarrow> (CSignatureBuilder, unit) op \<Rightarrow> (CSignatureBuilder, unit) op" where
  "CGenericInstance_AddToSignature garbage related count parameters =
     IfFailRet related (\<lambda>_.
     IfFailRet (SigBuilder_Add garbage (of_nat count)) (\<lambda>_.
     parameters))"

definition CFunctionType_AddToSignature ::
  "(nat \<Rightarrow> byte) \<Rightarrow> DWORD \<Rightarrow> DWORD \<Rightarrow> nat \<Rightarrow> (CSignatureBuilder, unit) op \<Rightarrow> (CSignatureBuilder, unit) op \<Rightarrow> (CSignatureBuilder, unit) op" where
  "CFunctionType_AddToSignature garbage conv genericCount count returnType parameters =
     IfFailRet (SigBuilder_AddData garbage (le_bytes 4 conv) 1) (\<lambda>_.
     IfFailRet (addIf (conv AND IMAGE_CEE_CS_CALLCONV_GENERIC \<noteq> 0) (SigBuilder_Add garbage genericCount)) (\<lambda>_.
     IfFailRet (SigBuilder_Add garbage (of_nat count)) (\<lambda>_.
     IfFailRet returnType (\<lambda>_.
     parameters))))"

text \<open>\<open>AddToSignature\<close> is the virtual function; its first steps are \<^verbatim>\<open>CType::AddToSignature\<close>, which
  every class calls first.\<close>

fun AddToSignature :: "(nat \<Rightarrow> byte) \<Rightarrow> CType \<Rightarrow> (CSignatureBuilder, unit) op"
  and AddBody :: "(nat \<Rightarrow> byte) \<Rightarrow> tbody \<Rightarrow> (CSignatureBuilder, unit) op"
  and AddTypes :: "(nat \<Rightarrow> byte) \<Rightarrow> CType list \<Rightarrow> (CSignatureBuilder, unit) op" where
  "AddToSignature garbage (CType t s p ms b) =
     IfFailRet (addIf s (SigBuilder_AddElementType garbage ELEMENT_TYPE_SENTINEL)) (\<lambda>_.
     IfFailRet (addIf p (SigBuilder_AddElementType garbage ELEMENT_TYPE_PINNED)) (\<lambda>_.
     IfFailRet (AddTypes garbage ms) (\<lambda>_.
     IfFailRet (SigBuilder_AddElementType garbage t) (\<lambda>_.
     AddBody garbage b))))"
| "AddBody garbage SimpleType = ret ()"
| "AddBody garbage (TokenType tk) = CTokenType_AddToSignature garbage tk"
| "AddBody garbage (ModifierType tk) = CModifierType_AddToSignature garbage tk"
| "AddBody garbage (CompositeType r) = AddToSignature garbage r"
| "AddBody garbage (ArrayType r rank counts bounds) =
     CArrayType_AddToSignature garbage (AddToSignature garbage r) rank counts bounds"
| "AddBody garbage (GenericInstance r ps) =
     CGenericInstance_AddToSignature garbage (AddToSignature garbage r) (length ps) (AddTypes garbage ps)"
| "AddBody garbage (GenericParameterType pos) = CGenericParameterType_AddToSignature garbage pos"
| "AddBody garbage (FunctionType conv r ps n) =
     CFunctionType_AddToSignature garbage conv n (length ps) (AddToSignature garbage r) (AddTypes garbage ps)"
| "AddTypes garbage [] = ret ()"
| "AddTypes garbage (t # ts) = IfFailRet (AddToSignature garbage t) (\<lambda>_. AddTypes garbage ts)"

lemmas AddToSignature_classes = CTokenType_AddToSignature_def CModifierType_AddToSignature_def CGenericParameterType_AddToSignature_def
  CArrayType_AddToSignature_def CGenericInstance_AddToSignature_def CFunctionType_AddToSignature_def

section \<open>The signature of a type\<close>

definition data_bytes :: "DWORD \<Rightarrow> byte list" where
  "data_bytes x = snd (CorSigCompressData x)"

definition token_bytes :: "mdToken \<Rightarrow> byte list" where
  "token_bytes t = snd (CorSigCompressToken t)"

fun sig_of :: "CType \<Rightarrow> byte list" and sig_body :: "tbody \<Rightarrow> byte list" and sig_types :: "CType list \<Rightarrow> byte list" where
  "sig_of (CType t s p ms b) = (if s then [0x41] else []) @ (if p then [0x45] else []) @ sig_types ms @ ucast t # sig_body b"
| "sig_body SimpleType = []"
| "sig_body (TokenType tk) = token_bytes tk"
| "sig_body (ModifierType tk) = token_bytes tk"
| "sig_body (CompositeType r) = sig_of r"
| "sig_body (ArrayType r rank counts bounds) = sig_of r @ data_bytes rank @
     data_bytes (of_nat (length counts)) @ concat (map data_bytes counts) @
     data_bytes (of_nat (length bounds)) @ concat (map data_bytes bounds)"
| "sig_body (GenericInstance r ps) = sig_of r @ data_bytes (of_nat (length ps)) @ sig_types ps"
| "sig_body (GenericParameterType pos) = data_bytes pos"
| "sig_body (FunctionType conv r ps n) = ucast conv # (if conv AND IMAGE_CEE_CS_CALLCONV_GENERIC \<noteq> 0 then data_bytes n else []) @
     data_bytes (of_nat (length ps)) @ sig_of r @ sig_types ps"
| "sig_types [] = []"
| "sig_types (t # ts) = sig_of t @ sig_types ts"

text \<open>Every number and token of the type has a compressed form, a calling convention is one byte.\<close>

abbreviation "small n \<equiv> n \<le> (0x1FFFFFFF :: DWORD)"

fun encodable_type :: "CType \<Rightarrow> bool" and encodable_body :: "tbody \<Rightarrow> bool" and encodable_types :: "CType list \<Rightarrow> bool" where
  "encodable_type (CType t s p ms b) \<longleftrightarrow> encodable_types ms \<and> encodable_body b"
| "encodable_body SimpleType \<longleftrightarrow> True"
| "encodable_body (TokenType tk) \<longleftrightarrow> TypeFromToken tk \<in> set g_tkCorEncodeToken"
| "encodable_body (ModifierType tk) \<longleftrightarrow> TypeFromToken tk \<in> set g_tkCorEncodeToken"
| "encodable_body (CompositeType r) \<longleftrightarrow> encodable_type r"
| "encodable_body (ArrayType r rank counts bounds) \<longleftrightarrow> encodable_type r \<and> small rank \<and>
     length counts \<le> 0x1FFFFFFF \<and> list_all small counts \<and> length bounds \<le> 0x1FFFFFFF \<and> list_all small bounds"
| "encodable_body (GenericInstance r ps) \<longleftrightarrow> encodable_type r \<and> length ps \<le> 0x1FFFFFFF \<and> encodable_types ps"
| "encodable_body (GenericParameterType pos) \<longleftrightarrow> small pos"
| "encodable_body (FunctionType conv r ps n) \<longleftrightarrow> conv \<le> 0x7F \<and> small n \<and> encodable_type r \<and> length ps \<le> 0x1FFFFFFF \<and> encodable_types ps"
| "encodable_types [] \<longleftrightarrow> True"
| "encodable_types (t # ts) \<longleftrightarrow> encodable_type t \<and> encodable_types ts"

lemma small_of_nat: "n \<le> 0x1FFFFFFF \<Longrightarrow> small (of_nat n)"
  by (simp add: word_le_nat_alt unat_of_nat_small)

lemma appends_addIf: "appends f bs \<Longrightarrow> appends (addIf c f) (if c then bs else [])"
  by (simp add: addIf_def appends_ret)

lemmas appends_data_bytes = data_writer.add_appends [folded data_bytes_def]
lemmas appends_token_bytes = token_writer.add_appends [folded token_bytes_def]

lemma appends_numbers: "list_all small xs \<Longrightarrow> appends (addEach (SigBuilder_Add garbage) xs) (concat (map data_bytes xs))"
  by (rule appends_addEach) (auto simp: list_all_iff intro: appends_data_bytes)

lemma appends_convention: "appends (SigBuilder_AddData garbage (le_bytes 4 conv) 1) [ucast (conv :: DWORD)]"
  using appends_data [of 1 "le_bytes 4 conv" garbage] by (simp add: eval_nat_numeral)

lemmas appends_parts = appends_IfFailRet appends_addIf appends_element appends_data_bytes appends_token_bytes
  appends_numbers appends_convention small_of_nat appends_ret

lemma appends_Cons: "appends f [x] \<Longrightarrow> appends g ys \<Longrightarrow> appends (IfFailRet f (\<lambda>_. g)) (x # ys)"
  using appends_IfFailRet [of f "[x]" g ys] by simp

lemma appends_flag:
  "appends (addIf s (SigBuilder_AddElementType garbage ELEMENT_TYPE_SENTINEL)) (if s then [0x41] else [])"
  "appends (addIf p (SigBuilder_AddElementType garbage ELEMENT_TYPE_PINNED)) (if p then [0x45] else [])"
  using appends_element [of garbage ELEMENT_TYPE_SENTINEL] appends_element [of garbage ELEMENT_TYPE_PINNED]
  by (simp_all add: appends_addIf)

lemma appends_signature:
  "encodable_type t \<Longrightarrow> appends (AddToSignature garbage t) (sig_of t)"
  "encodable_body b \<Longrightarrow> appends (AddBody garbage b) (sig_body b)"
  "encodable_types ts \<Longrightarrow> appends (AddTypes garbage ts) (sig_types ts)"
proof (induction t and b and ts rule: sig_of_sig_body_sig_types.induct)
  case (1 t s p ms b)
  then show ?case unfolding AddToSignature.simps sig_of.simps encodable_type.simps
    by (intro appends_IfFailRet appends_flag appends_Cons appends_element) simp_all
next
  case (6 r rank counts bounds)
  then show ?case unfolding AddBody.simps AddToSignature_classes sig_body.simps encodable_body.simps
    by (intro appends_parts) simp_all
next
  case (9 conv r ps n)
  then show ?case unfolding AddBody.simps AddToSignature_classes sig_body.simps encodable_body.simps
    by (intro appends_Cons appends_parts) simp_all
qed (simp_all add: AddToSignature_classes appends_parts)

end
