(* ===== verification/World.thy ===== *)
theory World
  imports Instructions Types
begin

text \<open>
  The objects that reference each other through pointers live in one store, the record
  \<open>world\<close>: instructions, instruction graphs, exception clauses and method infos, each named
  by an address.  This theory holds the store, the bookkeeping of branch targets
  (\<^verbatim>\<open>BranchTargetInfo.cpp\<close>), the branch and switch operations of \<^verbatim>\<open>Instruction.cpp\<close>
  that use it, and the lazy recalculation of instruction offsets
  (\<^verbatim>\<open>CInstructionGraph::RefreshInstructions\<close>).

  An object that is not in the store is a dangling pointer: accessing it is \<^const>\<open>Undef\<close>.
  Loops that follow pointers take fuel; running out of it is \<^const>\<open>Diverge\<close>.
\<close>

section \<open>The store\<close>

type_synonym mid = nat
type_synonym caddr = nat

record COR_IL_MAP =
  oldOffset :: DWORD
  newOffset :: DWORD
  fAccurate :: bool

record graph =
  m_pMethodInfo :: "mid option"
  m_pFirstInstruction :: "addr option"
  m_pLastInstruction :: "addr option"
  m_pUninstrumentedFirstInstruction :: "addr option"
  m_pUninstrumentedLastInstruction :: "addr option"
  m_pOrigFirstInstruction :: "addr option"
  m_pOrigLastInstruction :: "addr option"
  m_originalToBaselineIlMap :: "COR_IL_MAP list"
  m_baselineIlMap :: "COR_IL_MAP list"
  m_bHasBaselineBeenSet :: bool
  m_bAreInstructionsStale :: bool

record clause =
  m_clauseFlags :: DWORD
  m_pTryFirstInstruction :: "addr option"
  m_pTryLastInstruction :: "addr option"
  m_pHandlerFirstInstruction :: "addr option"
  m_pHandlerLastInstruction :: "addr option"
  m_pFilterFirstInstruction :: "addr option"
  m_ExceptionHandlerType :: mdToken

text \<open>The local variables of a method (\<^verbatim>\<open>LocalVariableCollection.h\<close>); the owning method is the one that
  holds the collection.\<close>

record CLocalVariableCollection =
  m_typesToAdd :: "CType list"
  m_originalLocalsCount :: DWORD
  m_initialized :: bool
  m_replacementSig :: "byte list"
  m_bReadOnly :: bool

text \<open>The parts of \<^verbatim>\<open>CMethodInfo\<close> the graph and the rendering of the body use.
  \<open>m_signature\<close> is the signature blob, \<^verbatim>\<open>m_pSig\<close> with its length \<^verbatim>\<open>m_cbSigBlob\<close>, that
  \<^verbatim>\<open>InitializeCorAttributes\<close> gets from the metadata of the module on first use, and
  \<open>m_savedILMap\<close> what \<^verbatim>\<open>CModuleInfo::SetILInstrumentationMap\<close> keeps for the method.
  \<open>m_methodIl\<close> is the outcome of \<^verbatim>\<open>CModuleInfo::GetMethodIl\<close> for the method;
  the exception section is its list of clauses, or not created yet.\<close>

record methodinfo =
  m_methodIl :: "byte list result"
  m_pInstructionGraph :: "gid option"
  m_pExceptionSection :: "caddr list option"
  m_newCorHeader :: COR_ILMETHOD_FAT
  m_bIsHeaderInitialized :: bool
  m_pILStream :: "byte list"
  m_pCorILMap :: "COR_IL_MAP list"
  m_pIntermediateRenderedMethod :: "byte list"
  m_bIsInstrumented :: bool
  m_bIsCreateBaselineEnabled :: bool
  m_signature :: "byte list result"
  m_savedILMap :: "COR_IL_MAP list option"
  m_localVariables :: "CLocalVariableCollection option"
  m_origLocalVariables :: "CLocalVariableCollection option"

record world =
  w_instrs :: "addr \<Rightarrow> instr option"
  w_next :: addr
  w_graphs :: "gid \<Rightarrow> graph option"
  w_nextGraph :: gid
  w_clauses :: "caddr \<Rightarrow> clause option"
  w_nextClause :: caddr
  w_methods :: "mid \<Rightarrow> methodinfo option"

definition put_instr :: "addr \<Rightarrow> instr \<Rightarrow> world \<Rightarrow> world" where
  "put_instr a i w = w \<lparr> w_instrs := (w_instrs w)(a \<mapsto> i) \<rparr>"

definition put_graph :: "gid \<Rightarrow> graph \<Rightarrow> world \<Rightarrow> world" where
  "put_graph g gr w = w \<lparr> w_graphs := (w_graphs w)(g \<mapsto> gr) \<rparr>"

definition get_instr :: "addr \<Rightarrow> (world, instr) op" where
  "get_instr a w = (deref (w_instrs w a), w)"

definition upd_instr :: "addr \<Rightarrow> (instr \<Rightarrow> instr) \<Rightarrow> (world, unit) op" where
  "upd_instr a f w = (case w_instrs w a of None \<Rightarrow> (Undef, w) | Some i \<Rightarrow> (Ok (), put_instr a (f i) w))"

definition new_instr :: "instr \<Rightarrow> (world, addr) op" where
  "new_instr i w = (Ok (w_next w), put_instr (w_next w) i (w \<lparr> w_next := w_next w + 1 \<rparr>))"

definition get_graph :: "gid \<Rightarrow> (world, graph) op" where
  "get_graph g w = (deref (w_graphs w g), w)"

definition upd_graph :: "gid \<Rightarrow> (graph \<Rightarrow> graph) \<Rightarrow> (world, unit) op" where
  "upd_graph g f w = (case w_graphs w g of None \<Rightarrow> (Undef, w) | Some x \<Rightarrow> (Ok (), put_graph g (f x) w))"

definition get_method :: "mid \<Rightarrow> (world, methodinfo) op" where
  "get_method m w = (deref (w_methods w m), w)"

definition upd_method :: "mid \<Rightarrow> (methodinfo \<Rightarrow> methodinfo) \<Rightarrow> (world, unit) op" where
  "upd_method m f w = (case w_methods w m of None \<Rightarrow> (Undef, w)
     | Some x \<Rightarrow> (Ok (), w \<lparr> w_methods := (w_methods w)(m \<mapsto> f x) \<rparr>))"

definition get_clause :: "caddr \<Rightarrow> (world, clause) op" where
  "get_clause c w = (deref (w_clauses w c), w)"

definition upd_clause :: "caddr \<Rightarrow> (clause \<Rightarrow> clause) \<Rightarrow> (world, unit) op" where
  "upd_clause c f w = (case w_clauses w c of None \<Rightarrow> (Undef, w)
     | Some x \<Rightarrow> (Ok (), w \<lparr> w_clauses := (w_clauses w)(c \<mapsto> f x) \<rparr>))"

text \<open>\<^verbatim>\<open>CInstruction::SetGraph\<close>: an instruction belongs to at most one graph.\<close>

definition SetGraph :: "addr \<Rightarrow> gid \<Rightarrow> (world, unit) op" where
  "SetGraph a g = IfFailRet (get_instr a) (\<lambda>i.
     IfFalseRet (m_pGraph i = None) E_UNEXPECTED
       (upd_instr a (\<lambda>i. i \<lparr> m_pGraph := Some g \<rparr>)))"

section \<open>Offsets\<close>

text \<open>\<^verbatim>\<open>GetOffset\<close> refreshes the graph of the instruction, which recalculates the offsets when
  they are stale, which reads the offset of each predecessor.  One fuel bounds the nesting.\<close>

fun GetOffset_f :: "nat \<Rightarrow> addr \<Rightarrow> (world, DWORD) op"
  and EnsureGraphUpdated_f :: "nat \<Rightarrow> addr \<Rightarrow> (world, unit) op"
  and RefreshInstructions_f :: "nat \<Rightarrow> gid \<Rightarrow> (world, unit) op"
  and CalculateInstructionOffsets_f :: "nat \<Rightarrow> gid \<Rightarrow> (world, unit) op"
  and offsets_loop :: "nat \<Rightarrow> addr option \<Rightarrow> addr option \<Rightarrow> (world, unit) op" where
  "GetOffset_f 0 a = diverge"
| "GetOffset_f (Suc n) a = IfFailRet (EnsureGraphUpdated_f n a) (\<lambda>_.
     IfFailRet (get_instr a) (\<lambda>i. ret (m_offset i)))"
| "EnsureGraphUpdated_f 0 a = diverge"
| "EnsureGraphUpdated_f (Suc n) a = IfFailRet (get_instr a) (\<lambda>i.
     case m_pGraph i of None \<Rightarrow> ret () | Some g \<Rightarrow> RefreshInstructions_f n g)"
| "RefreshInstructions_f 0 g = diverge"
| "RefreshInstructions_f (Suc n) g = IfFailRet (get_graph g) (\<lambda>gr.
     if m_bAreInstructionsStale gr then
       IfFailRet (upd_graph g (\<lambda>gr. gr \<lparr> m_bAreInstructionsStale := False \<rparr>)) (\<lambda>_.
         CalculateInstructionOffsets_f n g)
     else ret ())"
| "CalculateInstructionOffsets_f 0 g = diverge"
| "CalculateInstructionOffsets_f (Suc n) g = IfFailRet (get_graph g) (\<lambda>gr.
     offsets_loop n (m_pFirstInstruction gr) None)"
| "offsets_loop 0 pCurrent pPrev = diverge"
| "offsets_loop (Suc n) pCurrent pPrev = (case pCurrent of
     None \<Rightarrow> ret ()
   | Some a \<Rightarrow>
       IfFailRet (case pPrev of
           None \<Rightarrow> ret 0
         | Some p \<Rightarrow> IfFailRet (GetOffset_f n p) (\<lambda>dwPrevOffset.
             IfFailRet (get_instr p) (\<lambda>i.
             IfFailRet (liftR (GetInstructionSize i)) (\<lambda>dwPrevLength.
               ret (dwPrevOffset + dwPrevLength)))))
         (\<lambda>offset. IfFailRet (upd_instr a (SetOffset offset)) (\<lambda>_.
           IfFailRet (get_instr a) (\<lambda>i. offsets_loop n (m_pNextInstruction i) (Some a)))))"

text \<open>Two nested traversals of one list, and the calls between them, fit in this fuel.\<close>

definition offset_fuel :: "world \<Rightarrow> nat" where
  "offset_fuel w = 2 * w_next w + 12"

definition GetOffset :: "addr \<Rightarrow> (world, DWORD) op" where
  "GetOffset a w = GetOffset_f (offset_fuel w) a w"

definition EnsureGraphUpdated :: "addr \<Rightarrow> (world, unit) op" where
  "EnsureGraphUpdated a w = EnsureGraphUpdated_f (offset_fuel w) a w"

definition RefreshInstructions :: "gid \<Rightarrow> (world, unit) op" where
  "RefreshInstructions g w = RefreshInstructions_f (offset_fuel w) g w"

definition CalculateInstructionOffsets :: "gid \<Rightarrow> (world, unit) op" where
  "CalculateInstructionOffsets g w = CalculateInstructionOffsets_f (offset_fuel w) g w"

definition GetOriginalOffset :: "addr \<Rightarrow> (world, DWORD) op" where
  "GetOriginalOffset a = IfFailRet (EnsureGraphUpdated a) (\<lambda>_.
     IfFailRet (get_instr a) (\<lambda>i. ret (m_origOffset i)))"

section \<open>Branch target bookkeeping\<close>

text \<open>\<^verbatim>\<open>CBranchTargetInfo::Remove\<close>: the last branch gone, the info is disconnected.\<close>

definition BranchInfo_Remove :: "addr \<Rightarrow> instr \<Rightarrow> instr" where
  "BranchInfo_Remove pOldBranch i = (case m_branchInfo i of
     None \<Rightarrow> i
   | Some bs \<Rightarrow> (let bs' = removeAll pOldBranch bs in
       if bs' = [] then i \<lparr> m_branchInfo := None \<rparr> else i \<lparr> m_branchInfo := Some bs' \<rparr>))"

text \<open>\<^verbatim>\<open>GetOrCreateInstance\<close> followed by \<^verbatim>\<open>m_branches.emplace\<close>.\<close>

definition BranchInfo_Add :: "addr \<Rightarrow> instr \<Rightarrow> instr" where
  "BranchInfo_Add pBranch i = (case m_branchInfo i of
     None \<Rightarrow> i \<lparr> m_branchInfo := Some [pBranch] \<rparr>
   | Some bs \<Rightarrow> i \<lparr> m_branchInfo := Some (List.insert pBranch bs) \<rparr>)"

definition BranchInfo_SetBranchTarget ::
  "addr \<Rightarrow> addr option \<Rightarrow> addr option \<Rightarrow> (world, unit) op" where
  "BranchInfo_SetBranchTarget pBranch pTarget pOldTarget =
     IfFailRet (case pOldTarget of None \<Rightarrow> ret ()
                | Some p \<Rightarrow> upd_instr p (BranchInfo_Remove pBranch)) (\<lambda>_.
       case pTarget of None \<Rightarrow> ret () | Some t \<Rightarrow> upd_instr t (BranchInfo_Add pBranch))"

section \<open>Branches and switches\<close>

definition Branch_GetBranchTarget :: "addr \<Rightarrow> (world, addr) op" where
  "Branch_GetBranchTarget b = IfFailRet (get_instr b) (\<lambda>i. case m_class i of
       Branch _ (Some t) _ \<Rightarrow> ret t
     | _ \<Rightarrow> undef)"

definition Branch_GetTargetOffset :: "addr \<Rightarrow> (world, DWORD) op" where
  "Branch_GetTargetOffset b = IfFailRet (get_instr b) (\<lambda>i. case m_class i of
       Branch d (Some t) _ \<Rightarrow> GetOffset t
     | Branch d None _ \<Rightarrow> ret d
     | _ \<Rightarrow> undef)"

definition Branch_SetBranchTarget :: "addr \<Rightarrow> addr option \<Rightarrow> (world, unit) op" where
  "Branch_SetBranchTarget b pInstruction = IfNullRetPointer pInstruction (\<lambda>p.
     IfFailRet (get_instr b) (\<lambda>i. case m_class i of
       Branch d pOld orig \<Rightarrow>
         IfFailRet (upd_instr b (\<lambda>i. i \<lparr> m_class := Branch d None orig \<rparr>)) (\<lambda>_.
         IfFailRet (get_instr p) (\<lambda>_.
         IfFailRet (upd_instr b (\<lambda>i. i \<lparr> m_class := Branch d (Some p) orig \<rparr>)) (\<lambda>_.
         IfFailRet (BranchInfo_SetBranchTarget b (Some p) pOld) (\<lambda>_.
           if orig = None \<and> m_instructionGeneration i \<noteq> Generation_New
           then upd_instr b (\<lambda>i. i \<lparr> m_class := Branch d (Some p) (Some p) \<rparr>)
           else ret ()))))
     | _ \<Rightarrow> undef))"

definition Switch_targets :: "addr \<Rightarrow> (world, addr option list) op" where
  "Switch_targets s = IfFailRet (get_instr s) (\<lambda>i. case m_class i of
       Switch _ ts \<Rightarrow> ret ts | _ \<Rightarrow> undef)"

definition setSwitchTargets :: "(addr option list \<Rightarrow> addr option list) \<Rightarrow> instr \<Rightarrow> instr" where
  "setSwitchTargets f i = (case m_class i of
       Switch offsets ts \<Rightarrow> i \<lparr> m_class := Switch offsets (f ts) \<rparr> | _ \<Rightarrow> i)"

definition Switch_GetBranchCount :: "addr \<Rightarrow> (world, DWORD) op" where
  "Switch_GetBranchCount s = IfFailRet (Switch_targets s) (\<lambda>ts. ret (of_nat (length ts)))"

text \<open>\<^verbatim>\<open>GetBranchTargetInternal\<close>: null outside the vector.\<close>

definition Switch_GetBranchTarget :: "addr \<Rightarrow> nat \<Rightarrow> (world, addr option) op" where
  "Switch_GetBranchTarget s index = IfFailRet (Switch_targets s) (\<lambda>ts.
     ret (if index \<ge> length ts then None else ts ! index))"

definition Switch_SetBranchTarget :: "addr \<Rightarrow> nat \<Rightarrow> addr option \<Rightarrow> (world, unit) op" where
  "Switch_SetBranchTarget s index pTarget = IfFailRet (Switch_targets s) (\<lambda>ts.
     if index \<ge> length ts then undef
     else (case pTarget of
         None \<Rightarrow> undef
       | Some t \<Rightarrow>
           IfFailRet (get_instr t) (\<lambda>_.
           IfFailRet (upd_instr s (setSwitchTargets (\<lambda>ts. ts[index := Some t]))) (\<lambda>_.
             BranchInfo_SetBranchTarget s (Some t) (ts ! index)))))"

definition Switch_RemoveBranchTargetAt :: "addr \<Rightarrow> nat \<Rightarrow> (world, unit) op" where
  "Switch_RemoveBranchTargetAt s index = IfFailRet (Switch_targets s) (\<lambda>ts.
     if index \<ge> length ts then undef
     else upd_instr s (setSwitchTargets (\<lambda>ts. take index ts @ drop (Suc index) ts)))"

text \<open>The loop of \<^verbatim>\<open>RemoveBranchTarget\<close> advances the iterator after an erase as well, so it
  skips the element after each erased one; erasing the last element advances past the end.\<close>

fun eraseTargets :: "addr option \<Rightarrow> addr option list \<Rightarrow> addr option list result" where
  "eraseTargets t [] = Ok []"
| "eraseTargets t (x # xs) =
     (if x = t then (case xs of
          [] \<Rightarrow> Undef
        | y # ys \<Rightarrow> bindR (eraseTargets t ys) (\<lambda>zs. Ok (y # zs)))
      else bindR (eraseTargets t xs) (\<lambda>zs. Ok (x # zs)))"

definition Switch_RemoveBranchTarget :: "addr \<Rightarrow> addr option \<Rightarrow> (world, unit) op" where
  "Switch_RemoveBranchTarget s pTarget = IfFailRet (Switch_targets s) (\<lambda>ts.
     IfFailRet (liftR (eraseTargets pTarget ts)) (\<lambda>ts'. upd_instr s (setSwitchTargets (\<lambda>_. ts'))))"

text \<open>The loop of \<^verbatim>\<open>ReplaceBranchTarget\<close> over the indices that remain.\<close>

fun replaceTargets_loop :: "addr \<Rightarrow> addr option \<Rightarrow> addr option \<Rightarrow> nat list \<Rightarrow> (world, unit) op" where
  "replaceTargets_loop s pOriginal pNew [] = ret ()"
| "replaceTargets_loop s pOriginal pNew (k # ks) = IfFailRet (Switch_targets s) (\<lambda>ts.
     if ts ! k = pOriginal
     then IfFailRet (Switch_SetBranchTarget s k pNew) (\<lambda>_. replaceTargets_loop s pOriginal pNew ks)
     else replaceTargets_loop s pOriginal pNew ks)"

definition Switch_ReplaceBranchTarget :: "addr \<Rightarrow> addr option \<Rightarrow> addr option \<Rightarrow> (world, unit) op" where
  "Switch_ReplaceBranchTarget s pOriginal pNew = IfFailRet (Switch_targets s) (\<lambda>ts.
     IfFalseRet (length ts > 0) E_BOUNDS
       (replaceTargets_loop s pOriginal pNew [0..<length ts]))"

definition Switch_GetBranchOffset :: "addr \<Rightarrow> nat \<Rightarrow> (world, DWORD) op" where
  "Switch_GetBranchOffset s index = IfFailRet (get_instr s) (\<lambda>i. case m_class i of
       Switch offsets ts \<Rightarrow>
         if index \<ge> length ts then undef
         else (case ts ! index of
             Some t \<Rightarrow> GetOffset t
           | None \<Rightarrow> if index < length offsets then ret (offsets ! index) else undef)
     | _ \<Rightarrow> undef)"

section \<open>Retargeting\<close>

text \<open>One branch of the detached info: a branch that is the new instruction itself keeps
  targeting the old one.\<close>

definition Retarget_one :: "addr \<Rightarrow> addr \<Rightarrow> addr \<Rightarrow> (world, unit) op" where
  "Retarget_one pOrig pNew b = IfFailRet (get_instr b) (\<lambda>i.
     IfFailRet (liftR (GetIsBranchInternal i)) (\<lambda>isBranch.
       if isBranch then
         (case m_class i of
            Branch _ _ _ \<Rightarrow> Branch_SetBranchTarget b (Some (if b \<noteq> pNew then pNew else pOrig))
          | _ \<Rightarrow> fail E_NOINTERFACE)
       else if GetIsSwitchInternal i then
         (case m_class i of
            Switch _ _ \<Rightarrow> Switch_ReplaceBranchTarget b (Some pOrig) (Some pNew)
          | _ \<Rightarrow> fail E_NOINTERFACE)
       else ret ()))"

fun Retarget_loop :: "addr \<Rightarrow> addr \<Rightarrow> addr list \<Rightarrow> (world, unit) op" where
  "Retarget_loop pOrig pNew [] = ret ()"
| "Retarget_loop pOrig pNew (b # bs) =
     IfFailRet (Retarget_one pOrig pNew b) (\<lambda>_. Retarget_loop pOrig pNew bs)"

definition RetargetBranches :: "addr \<Rightarrow> addr \<Rightarrow> (world, unit) op" where
  "RetargetBranches pOriginalInstruction pNewInstruction =
     IfFailRet (get_instr pOriginalInstruction) (\<lambda>i. case m_branchInfo i of
       None \<Rightarrow> ret ()
     | Some bs \<Rightarrow>
         IfFailRet (upd_instr pOriginalInstruction (\<lambda>i. i \<lparr> m_branchInfo := None \<rparr>)) (\<lambda>_.
           Retarget_loop pOriginalInstruction pNewInstruction bs))"

section \<open>Executing the store primitives\<close>

lemma put_instr_simps [simp]:
  "w_instrs (put_instr a i w) = (w_instrs w)(a \<mapsto> i)"
  "w_next (put_instr a i w) = w_next w"
  "w_graphs (put_instr a i w) = w_graphs w"
  "w_nextGraph (put_instr a i w) = w_nextGraph w"
  "w_clauses (put_instr a i w) = w_clauses w"
  "w_nextClause (put_instr a i w) = w_nextClause w"
  "w_methods (put_instr a i w) = w_methods w"
  by (simp_all add: put_instr_def)

lemma put_instr_twice [simp]: "put_instr a i (put_instr a j w) = put_instr a i w"
  by (simp add: put_instr_def)

lemma put_graph_twice [simp]: "put_graph g x (put_graph g y w) = put_graph g x w"
  by (simp add: put_graph_def)

lemma put_graph_simps [simp]:
  "w_instrs (put_graph g x w) = w_instrs w"
  "w_next (put_graph g x w) = w_next w"
  "w_graphs (put_graph g x w) = (w_graphs w)(g \<mapsto> x)"
  "w_nextGraph (put_graph g x w) = w_nextGraph w"
  "w_clauses (put_graph g x w) = w_clauses w"
  "w_nextClause (put_graph g x w) = w_nextClause w"
  "w_methods (put_graph g x w) = w_methods w"
  by (simp_all add: put_graph_def)

lemma exec_instr [simp]:
  "w_instrs w a = Some i \<Longrightarrow> get_instr a w = (Ok i, w)"
  "w_instrs w a = Some i \<Longrightarrow> upd_instr a f w = (Ok (), put_instr a (f i) w)"
  "w_instrs w a = Some i \<Longrightarrow> IfFailRet (get_instr a) k w = k i w"
  "w_instrs w a = Some i \<Longrightarrow> IfFailRet (upd_instr a f) k' w = k' () (put_instr a (f i) w)"
  by (simp_all add: get_instr_def upd_instr_def)

lemma exec_graph [simp]:
  "w_graphs w g = Some x \<Longrightarrow> get_graph g w = (Ok x, w)"
  "w_graphs w g = Some x \<Longrightarrow> upd_graph g f w = (Ok (), put_graph g (f x) w)"
  "w_graphs w g = Some x \<Longrightarrow> IfFailRet (get_graph g) k w = k x w"
  "w_graphs w g = Some x \<Longrightarrow> IfFailRet (upd_graph g f) k' w = k' () (put_graph g (f x) w)"
  by (simp_all add: get_graph_def upd_graph_def)

lemma exec_liftR [simp]:
  "r = Ok x \<Longrightarrow> IfFailRet (liftR r) k w = k x w"
  "IfFailRet (liftR (Ok x)) k w = k x w"
  "liftR r w = (r, w)"
  by (simp_all add: liftR_def)

lemma exec_prim [simp]:
  "ret x w = (Ok x, w)" "fail e w = (Fail e, w)" "undef w = (Undef, w)" "diverge w = (Diverge, w)"
  by (simp_all add: op_defs)

section \<open>Well-formed instructions\<close>

text \<open>The class of an object agrees with the row of its opcode.\<close>

definition wf_class :: "ILOrdinalOpcode \<Rightarrow> iclass \<Rightarrow> bool" where
  "wf_class op c \<longleftrightarrow> (case opcodeInfo op of
     Ok e \<Rightarrow> (case c of
         Plain \<Rightarrow> m_type e = ILOperandType_None
       | Operand v \<Rightarrow> length v = 8 \<and> op \<noteq> Cee_Switch \<and> \<not> IsFlagSet (m_flags e) ILOpcodeFlag_Branch
       | Branch _ _ _ \<Rightarrow> IsFlagSet (m_flags e) ILOpcodeFlag_Branch
       | Switch _ _ \<Rightarrow> op = Cee_Switch)
   | _ \<Rightarrow> False)"

definition wf_instr :: "instr \<Rightarrow> bool" where
  "wf_instr i \<longleftrightarrow> wf_class (m_opcode i) (m_class i)"

definition instr_size :: "instr \<Rightarrow> DWORD" where
  "instr_size i = (case GetInstructionSize i of Ok n \<Rightarrow> n | _ \<Rightarrow> 0)"

lemma wf_instr_info:
  assumes "wf_instr i"
  obtains e where "opcodeInfo (m_opcode i) = Ok e"
  using assms by (auto simp: wf_instr_def wf_class_def split: result.splits)

lemma wf_instr_size: "wf_instr i \<Longrightarrow> GetInstructionSize i = Ok (instr_size i)"
  by (erule wf_instr_info) (simp add: instr_size_def GetInstructionSize_def split: iclass.splits)

text \<open>Updates that change neither opcode nor class.\<close>

lemma instr_size_frame:
  "m_opcode i = m_opcode j \<Longrightarrow> m_class i = m_class j \<Longrightarrow> instr_size i = instr_size j"
  "m_opcode i = m_opcode j \<Longrightarrow> m_class i = m_class j \<Longrightarrow> wf_instr i = wf_instr j"
  "m_opcode i = m_opcode j \<Longrightarrow> m_class i = m_class j \<Longrightarrow> GetInstructionSize i = GetInstructionSize j"
  by (simp_all add: instr_size_def GetInstructionSize_def wf_instr_def)

lemma SetOffset_simps [simp]:
  "m_opcode (SetOffset x i) = m_opcode i" "m_class (SetOffset x i) = m_class i"
  "m_offset (SetOffset x i) = x" "m_origOffset (SetOffset x i) = m_origOffset i"
  "m_pGraph (SetOffset x i) = m_pGraph i" "m_pNextInstruction (SetOffset x i) = m_pNextInstruction i"
  "m_pPreviousInstruction (SetOffset x i) = m_pPreviousInstruction i"
  "m_instructionGeneration (SetOffset x i) = m_instructionGeneration i"
  "m_branchInfo (SetOffset x i) = m_branchInfo i" "SetOffset x (SetOffset y i) = SetOffset x i"
  "m_pOriginalNextInstruction (SetOffset x i) = m_pOriginalNextInstruction i"
  "m_pOriginalPreviousInstruction (SetOffset x i) = m_pOriginalPreviousInstruction i"
  "m_bIsRemoved (SetOffset x i) = m_bIsRemoved i"
  "instr_size (SetOffset x i) = instr_size i" "wf_instr (SetOffset x i) = wf_instr i"
  "GetInstructionSize (SetOffset x i) = GetInstructionSize i"
  by (simp_all add: SetOffset_def instr_size_def GetInstructionSize_def wf_instr_def)

section \<open>Linked lists of instructions\<close>

definition nxt :: "addr list \<Rightarrow> addr option \<Rightarrow> addr option" where
  "nxt xs n = (case xs of [] \<Rightarrow> n | x # _ \<Rightarrow> Some x)"

definition prv :: "addr list \<Rightarrow> addr option \<Rightarrow> addr option" where
  "prv xs p = (if xs = [] then p else Some (last xs))"

fun dll :: "(addr \<Rightarrow> instr option) \<Rightarrow> addr option \<Rightarrow> addr list \<Rightarrow> addr option \<Rightarrow> bool" where
  "dll h p [] n = True"
| "dll h p (x # xs) n = (case h x of
     None \<Rightarrow> False
   | Some i \<Rightarrow> m_pPreviousInstruction i = p \<and> m_pNextInstruction i = nxt xs n \<and> dll h (Some x) xs n)"

lemma nxt_simps [simp]: "nxt [] n = n" "nxt (x # xs) n = Some x" "nxt (xs @ ys) n = nxt xs (nxt ys n)"
  by (simp_all add: nxt_def split: list.splits)

lemma prv_simps [simp]: "prv [] p = p" "prv (xs @ [x]) p = Some x" "prv (x # xs) p = prv xs (Some x)"
  "prv (xs @ ys) p = prv ys (prv xs p)"
  by (simp_all add: prv_def)

lemma dll_append [simp]: "dll h p (xs @ ys) n \<longleftrightarrow> dll h p xs (nxt ys n) \<and> dll h (prv xs p) ys n"
  by (induction xs arbitrary: p) (auto split: option.splits)

lemma dll_cong:
  assumes "dll h p xs n"
    and "\<And>x i. x \<in> set xs \<Longrightarrow> h x = Some i \<Longrightarrow> \<exists>j. h' x = Some j \<and>
      m_pNextInstruction j = m_pNextInstruction i \<and> m_pPreviousInstruction j = m_pPreviousInstruction i"
  shows "dll h' p xs n"
  using assms
proof (induction xs arbitrary: p)
  case (Cons x xs)
  then obtain i where "h x = Some i" by (auto split: option.splits)
  with Cons.prems(2) [of x i] obtain j where "h' x = Some j"
    "m_pNextInstruction j = m_pNextInstruction i" "m_pPreviousInstruction j = m_pPreviousInstruction i"
    by auto
  moreover have "dll h' (Some x) xs n"
    using Cons.prems \<open>h x = Some i\<close> by (intro Cons.IH) auto
  ultimately show ?case using Cons.prems(1) \<open>h x = Some i\<close> by simp
qed simp

lemma dll_frame [simp]: "a \<notin> set xs \<Longrightarrow> dll (h(a \<mapsto> i)) p xs n \<longleftrightarrow> dll h p xs n"
  by (induction xs arbitrary: p) (auto split: option.splits)

lemma dll_alloc: "dll h p xs n \<Longrightarrow> x \<in> set xs \<Longrightarrow> \<exists>i. h x = Some i"
  by (induction xs arbitrary: p) (auto split: option.splits)

end
