(* ===== verification/Graph.thy ===== *)
theory Graph
  imports World
begin

text \<open>
  \<^verbatim>\<open>CInstructionGraph\<close> (\<^verbatim>\<open>InstrumentationEngine/InstructionGraph.cpp\<close>) as far as it does not
  need the method info: building the graph from an IL stream, expanding branches, looking
  instructions up, and writing the graph back as an IL stream with its IL map
  (\<^verbatim>\<open>CInstruction::EmitIL\<close>, \<^verbatim>\<open>EncodeIL\<close>).
\<close>

section \<open>Construction\<close>

definition new_CInstructionGraph :: "mid option \<Rightarrow> graph" where
  "new_CInstructionGraph m = \<lparr> m_pMethodInfo = m, m_pFirstInstruction = None,
     m_pLastInstruction = None, m_pUninstrumentedFirstInstruction = None,
     m_pUninstrumentedLastInstruction = None, m_pOrigFirstInstruction = None,
     m_pOrigLastInstruction = None, m_originalToBaselineIlMap = [], m_baselineIlMap = [],
     m_bHasBaselineBeenSet = False, m_bAreInstructionsStale = True \<rparr>"

definition new_graph :: "mid option \<Rightarrow> (world, gid) op" where
  "new_graph m w = (Ok (w_nextGraph w),
     put_graph (w_nextGraph w) (new_CInstructionGraph m) (w \<lparr> w_nextGraph := w_nextGraph w + 1 \<rparr>))"

definition decode_one :: "byte list \<Rightarrow> nat \<Rightarrow> nat \<Rightarrow> (world, addr) op" where
  "decode_one mem pCode pEndOfCode =
     IfFailRet (liftR (InstructionFromBytes mem pCode pEndOfCode)) new_instr"

text \<open>First pass: link the instructions and index them by offset.  The result is the last
  instruction and the offset map.\<close>

fun decode_loop :: "nat \<Rightarrow> gid \<Rightarrow> byte list \<Rightarrow> nat \<Rightarrow> nat \<Rightarrow> nat \<Rightarrow> addr \<Rightarrow> addr option
    \<Rightarrow> (DWORD \<Rightarrow> addr option) \<Rightarrow> (world, addr \<times> (DWORD \<Rightarrow> addr option)) op" where
  "decode_loop 0 g mem pCodeBase pEndOfCode pCode a pPrevious offsetMap = diverge"
| "decode_loop (Suc n) g mem pCodeBase pEndOfCode pCode a pPrevious offsetMap =
     IfFailRet (SetGraph a g) (\<lambda>_.
     IfFailRet (upd_instr a (SetPreviousInstruction pPrevious True)) (\<lambda>_.
     IfFailRet (case pPrevious of None \<Rightarrow> ret ()
                | Some p \<Rightarrow> upd_instr p (SetNextInstruction (Some a) True)) (\<lambda>_.
     let offset = of_nat (pCode - pCodeBase) in
     IfFailRet (upd_instr a (SetOffset offset)) (\<lambda>_.
     IfFailRet (upd_instr a (SetOriginalOffset offset)) (\<lambda>_.
     let offsetMap = offsetMap(offset \<mapsto> a) in
     IfFailRet (get_instr a) (\<lambda>i.
     IfFailRet (liftR (GetInstructionSize i)) (\<lambda>size.
     let pCode = pCode + unat size in
     if pCode \<ge> pEndOfCode then ret (a, offsetMap)
     else IfFailRet (decode_one mem pCode pEndOfCode) (\<lambda>a'.
       decode_loop n g mem pCodeBase pEndOfCode pCode a' (Some a) offsetMap))))))))"

text \<open>Second pass, backwards: the targets of branches and switches.\<close>

fun finalizeSwitch :: "addr \<Rightarrow> DWORD \<Rightarrow> (DWORD \<Rightarrow> addr option) \<Rightarrow> nat list \<Rightarrow> (world, unit) op" where
  "finalizeSwitch s nextOffset offsetMap [] = ret ()"
| "finalizeSwitch s nextOffset offsetMap (k # ks) =
     IfFailRet (Switch_GetBranchOffset s k) (\<lambda>offset.
       case offsetMap (offset + nextOffset) of
         None \<Rightarrow> fail E_FAIL
       | Some t \<Rightarrow> Discard (Switch_SetBranchTarget s k (Some t)) (\<lambda>_.
           finalizeSwitch s nextOffset offsetMap ks))"

definition finalizeBranch :: "addr \<Rightarrow> (DWORD \<Rightarrow> addr option) \<Rightarrow> (world, unit) op" where
  "finalizeBranch a offsetMap = IfFailRet (get_instr a) (\<lambda>i.
     IfFailRet (liftR (GetIsBranchInternal i)) (\<lambda>isBranch.
       if isBranch then
         Discard (Branch_GetTargetOffset a) (\<lambda>dwTargetOffset.
         Discard (GetOriginalOffset a) (\<lambda>dwBranchOrigOffset.
           case offsetMap (outParam 0 dwTargetOffset + outParam 0 dwBranchOrigOffset) of
             None \<Rightarrow> fail E_FAIL
           | Some t \<Rightarrow> Discard (Branch_SetBranchTarget a (Some t)) (\<lambda>_. ret ())))
       else if GetIsSwitchInternal i then
         (case m_pNextInstruction i of
            None \<Rightarrow> fail E_FAIL
          | Some nx \<Rightarrow> IfFailRet (GetOriginalOffset nx) (\<lambda>nextOffset.
              IfFailRet (Switch_targets a) (\<lambda>ts.
                finalizeSwitch a nextOffset offsetMap [0..<length ts])))
       else ret ()))"

fun finalize_loop :: "nat \<Rightarrow> (DWORD \<Rightarrow> addr option) \<Rightarrow> addr option \<Rightarrow> (world, unit) op" where
  "finalize_loop 0 offsetMap pCurrent = diverge"
| "finalize_loop (Suc n) offsetMap pCurrent = (case pCurrent of
     None \<Rightarrow> ret ()
   | Some a \<Rightarrow> IfFailRet (finalizeBranch a offsetMap) (\<lambda>_.
       IfFailRet (get_instr a) (\<lambda>i. finalize_loop n offsetMap (m_pPreviousInstruction i))))"

definition walk_fuel :: "world \<Rightarrow> nat" where
  "walk_fuel w = w_next w + 1"

definition DecodeInstructions :: "gid \<Rightarrow> byte list \<Rightarrow> nat \<Rightarrow> nat \<Rightarrow> (world, unit) op" where
  "DecodeInstructions g mem pCodeBase pEndOfCode =
     IfFailRet
       (if pEndOfCode > pCodeBase then
          Discard (upd_graph g (\<lambda>gr. gr \<lparr> m_pFirstInstruction := None \<rparr>)) (\<lambda>_.
          IfFailRet (decode_one mem pCodeBase pEndOfCode) (\<lambda>a.
            upd_graph g (\<lambda>gr. gr \<lparr> m_pFirstInstruction := Some a \<rparr>)))
        else ret ()) (\<lambda>_.
     IfFailRet (get_graph g) (\<lambda>gr.
     IfFailRet (upd_graph g (\<lambda>gr. gr \<lparr> m_pOrigFirstInstruction := m_pFirstInstruction gr \<rparr>)) (\<lambda>_.
     IfFailRet (case m_pFirstInstruction gr of
         None \<Rightarrow> ret (None, Map.empty)
       | Some a \<Rightarrow> IfFailRet (decode_loop (pEndOfCode - pCodeBase + 1) g mem pCodeBase pEndOfCode
             pCodeBase a None Map.empty) (\<lambda>(l, offsetMap). ret (Some l, offsetMap)))
       (\<lambda>(pLast, offsetMap).
     IfFailRet (\<lambda>w. finalize_loop (walk_fuel w) offsetMap pLast w) (\<lambda>_.
       upd_graph g (\<lambda>gr. gr \<lparr> m_pLastInstruction := pLast, m_pOrigLastInstruction := pLast \<rparr>))))))"

section \<open>Expanding branches\<close>

fun expand_loop :: "nat \<Rightarrow> addr option \<Rightarrow> (world, unit) op" where
  "expand_loop 0 pCurrent = diverge"
| "expand_loop (Suc n) pCurrent = (case pCurrent of
     None \<Rightarrow> ret ()
   | Some a \<Rightarrow> IfFailRet (get_instr a) (\<lambda>i.
       IfFailRet (liftR (GetIsBranchInternal i)) (\<lambda>isBranch.
       IfFailRet (if isBranch then
           IfFailRet (liftR (ExpandBranch i)) (\<lambda>i'. upd_instr a (\<lambda>_. i')) else ret ()) (\<lambda>_.
         expand_loop n (m_pNextInstruction i)))))"

definition MarkInstructionsStale :: "gid \<Rightarrow> (world, unit) op" where
  "MarkInstructionsStale g = upd_graph g (\<lambda>gr. gr \<lparr> m_bAreInstructionsStale := True \<rparr>)"

definition ExpandBranches :: "gid \<Rightarrow> (world, unit) op" where
  "ExpandBranches g = IfFailRet (get_graph g) (\<lambda>gr.
     IfFailRet (\<lambda>w. expand_loop (walk_fuel w) (m_pFirstInstruction gr) w) (\<lambda>_.
       MarkInstructionsStale g))"

section \<open>Emitting one instruction\<close>

definition opcodeBytes :: "ILOrdinalOpcode \<Rightarrow> byte list" where
  "opcodeBytes op = (if op \<ge> 0x100 then [0xFE, of_int op] else [of_int op])"

fun emitSwitch_loop :: "addr \<Rightarrow> DWORD \<Rightarrow> nat list \<Rightarrow> (world, byte list) op" where
  "emitSwitch_loop s nextOffset [] = ret []"
| "emitSwitch_loop s nextOffset (k # ks) = IfFailRet (Switch_GetBranchTarget s k) (\<lambda>t.
     case t of
       None \<Rightarrow> undef
     | Some a \<Rightarrow> IfFailRet (GetOffset a) (\<lambda>dwSwitchTargetOffset.
         IfFailRet (emitSwitch_loop s nextOffset ks) (\<lambda>bs.
           ret (le_bytes 4 (dwSwitchTargetOffset - nextOffset) @ bs))))"

text \<open>The operand, written from \<open>curpos\<close> on, behind the opcode; the result is the buffer.\<close>

definition emitOperand :: "addr \<Rightarrow> instr \<Rightarrow> ILOpcodeInfo \<Rightarrow> DWORD \<Rightarrow> byte list \<Rightarrow> DWORD
    \<Rightarrow> (world, byte list) op" where
  "emitOperand a i e curpos buf dwcbILBuffer =
     IfFailRet (liftR (GetIsBranchInternal i)) (\<lambda>bIsBranch.
     if bIsBranch then
       IfFailRet (Branch_GetBranchTarget a) (\<lambda>t.
       IfFailRet (GetOffset t) (\<lambda>targetOffset.
       let nextOffset = m_offset i + 1 + m_operandLength e in
       liftR (store_bytes buf (unat curpos)
         (le_bytes (unat (m_operandLength e)) (targetOffset - nextOffset)))))
     else if GetIsSwitchInternal i then
       IfFailRet (Switch_targets a) (\<lambda>ts.
       let branchCount = of_nat (length ts); operandSize = (1 + branchCount) * 4;
           nextOffset = m_offset i + 1 + operandSize in
       if curpos + m_opcodeLength e + operandSize > dwcbILBuffer then fail E_FAIL
       else IfFailRet (emitSwitch_loop a nextOffset [0..<length ts]) (\<lambda>bs.
         liftR (store_bytes buf (unat curpos) (le_bytes 4 branchCount @ bs))))
     else if m_operandLength e \<noteq> 0 then
       (if unat curpos + unat (m_operandLength e) \<le> unat dwcbILBuffer then
          (case GetOperandValue (m_operandLength e) i of
             Ok bs \<Rightarrow> liftR (store_bytes buf (unat curpos) bs)
           | Fail _ \<Rightarrow> ret buf
           | Undef \<Rightarrow> undef
           | Diverge \<Rightarrow> diverge)
        else fail E_FAIL)
     else ret buf)"

definition EmitIL :: "addr \<Rightarrow> byte list \<Rightarrow> DWORD \<Rightarrow> (world, byte list) op" where
  "EmitIL a pILBuffer dwcbILBuffer = IfFailRet (get_instr a) (\<lambda>i.
     IfFailRet (liftR (opcodeInfo (m_opcode i))) (\<lambda>e.
     if m_offset i + m_opcodeLength e + m_operandLength e > dwcbILBuffer then fail E_FAIL
     else
     IfFailRet (liftR (store_bytes pILBuffer (unat (m_offset i)) (opcodeBytes (m_opcode i)))) (\<lambda>buf.
       emitOperand a i e (m_offset i + of_nat (length (opcodeBytes (m_opcode i)))) buf dwcbILBuffer)))"

section \<open>Writing the graph as IL\<close>

text \<open>The counting loop: the number of map entries and the size of the code.\<close>

fun count_loop :: "nat \<Rightarrow> addr option \<Rightarrow> DWORD \<Rightarrow> DWORD \<Rightarrow> (world, DWORD \<times> DWORD) op" where
  "count_loop 0 p cCorILMap cbBuffer = diverge"
| "count_loop (Suc n) p cCorILMap cbBuffer = (case p of
     None \<Rightarrow> ret (cCorILMap, cbBuffer)
   | Some a \<Rightarrow> IfFailRet (get_instr a) (\<lambda>i.
       IfFailRet (liftR (GetInstructionSize i)) (\<lambda>size.
       IfFalseRet (GetIsNew i \<or> cCorILMap + 1 > cCorILMap) E_BOUNDS
       (IfFalseRet (cbBuffer + size \<ge> cbBuffer) E_BOUNDS
         (count_loop n (m_pNextInstruction i) (if GetIsNew i then cCorILMap else cCorILMap + 1)
            (cbBuffer + size))))))"

text \<open>The emitting loop: the buffer, the map so far, and the first new instruction since the
  last old one.\<close>

fun encode_loop :: "nat \<Rightarrow> addr option \<Rightarrow> DWORD \<Rightarrow> byte list \<Rightarrow> COR_IL_MAP list \<Rightarrow> addr option
    \<Rightarrow> (world, byte list \<times> COR_IL_MAP list) op" where
  "encode_loop 0 p cbBuffer buf ilMap pPrevNew = diverge"
| "encode_loop (Suc n) p cbBuffer buf ilMap pPrevNew = (case p of
     None \<Rightarrow> ret (buf, ilMap)
   | Some a \<Rightarrow>
       IfFailRet (EmitIL a buf cbBuffer) (\<lambda>buf.
       IfFailRet (get_instr a) (\<lambda>i.
       if GetIsNew i then
         encode_loop n (m_pNextInstruction i) cbBuffer buf ilMap
           (if pPrevNew = None then Some a else pPrevNew)
       else
         IfFailRet (GetOriginalOffset a) (\<lambda>currOldOffset.
         IfFailRet (GetOffset a) (\<lambda>currOffset.
         IfFailRet (case pPrevNew of None \<Rightarrow> ret currOffset | Some p \<Rightarrow> GetOffset p) (\<lambda>offset.
           encode_loop n (m_pNextInstruction i) cbBuffer buf
             (ilMap @ [\<lparr> oldOffset = currOldOffset, newOffset = offset, fAccurate = True \<rparr>]) None))))))"

definition EncodeIL :: "gid \<Rightarrow> (world, byte list \<times> COR_IL_MAP list) op" where
  "EncodeIL g = IfFailRet (get_graph g) (\<lambda>gr.
     IfFailRet (\<lambda>w. count_loop (walk_fuel w) (m_pFirstInstruction gr) 0 0 w) (\<lambda>(cCorILMap, cbBuffer).
     IfFailRet (CalculateInstructionOffsets g) (\<lambda>_.
       \<lambda>w. encode_loop (walk_fuel w) (m_pFirstInstruction gr) cbBuffer
         (replicate (unat cbBuffer) 0) [] None w)))"

section \<open>Lookups\<close>

fun endOffset_loop :: "nat \<Rightarrow> addr option \<Rightarrow> DWORD \<Rightarrow> (world, addr) op" where
  "endOffset_loop 0 p offset = diverge"
| "endOffset_loop (Suc n) p offset = (case p of
     None \<Rightarrow> fail E_FAIL
   | Some a \<Rightarrow> IfFailRet (GetOffset a) (\<lambda>currOffset.
       IfFailRet (get_instr a) (\<lambda>i.
       IfFailRet (liftR (GetInstructionSize i)) (\<lambda>currSize.
         if currOffset + currSize = offset then ret a
         else endOffset_loop n (m_pNextInstruction i) offset))))"

definition GetInstructionAtEndOffset :: "gid \<Rightarrow> DWORD \<Rightarrow> (world, addr) op" where
  "GetInstructionAtEndOffset g offset = IfFailRet (get_graph g) (\<lambda>gr.
     \<lambda>w. endOffset_loop (walk_fuel w) (m_pFirstInstruction gr) offset w)"

fun atOffset_loop :: "nat \<Rightarrow> addr option \<Rightarrow> DWORD \<Rightarrow> (world, addr) op" where
  "atOffset_loop 0 p offset = diverge"
| "atOffset_loop (Suc n) p offset = (case p of
     None \<Rightarrow> fail E_FAIL
   | Some a \<Rightarrow> IfFailRet (GetOffset a) (\<lambda>currOffset.
       if currOffset = offset then ret a
       else IfFailRet (get_instr a) (\<lambda>i. atOffset_loop n (m_pNextInstruction i) offset)))"

definition GetInstructionAtOffset :: "gid \<Rightarrow> DWORD \<Rightarrow> (world, addr) op" where
  "GetInstructionAtOffset g offset = IfFailRet (get_graph g) (\<lambda>gr.
     \<lambda>w. atOffset_loop (walk_fuel w) (m_pFirstInstruction gr) offset w)"

fun atOriginalOffset_loop :: "nat \<Rightarrow> addr option \<Rightarrow> DWORD \<Rightarrow> (world, addr) op" where
  "atOriginalOffset_loop 0 p offset = diverge"
| "atOriginalOffset_loop (Suc n) p offset = (case p of
     None \<Rightarrow> fail E_FAIL
   | Some a \<Rightarrow> IfFailRet (GetOriginalOffset a) (\<lambda>currOffset.
       IfFailRet (get_instr a) (\<lambda>i.
         if \<not> GetIsNew i then
           (if currOffset = offset then ret a
            else atOriginalOffset_loop n (m_pOriginalNextInstruction i) offset)
         else atOriginalOffset_loop n (m_pNextInstruction i) offset)))"

definition GetInstructionAtOriginalOffset :: "gid \<Rightarrow> DWORD \<Rightarrow> (world, addr) op" where
  "GetInstructionAtOriginalOffset g offset = IfFailRet (get_graph g) (\<lambda>gr.
     \<lambda>w. atOriginalOffset_loop (walk_fuel w) (m_pOrigFirstInstruction gr) offset w)"

definition GetInstructionAtUninstrumentedOffset :: "gid \<Rightarrow> DWORD \<Rightarrow> (world, addr) op" where
  "GetInstructionAtUninstrumentedOffset g dwOffset = IfFailRet (get_graph g) (\<lambda>gr.
     if m_pUninstrumentedFirstInstruction gr = None
     then GetInstructionAtOriginalOffset g dwOffset
     else (case find (\<lambda>m. oldOffset m = dwOffset) (m_originalToBaselineIlMap gr) of
         Some m \<Rightarrow> GetInstructionAtOffset g (newOffset m)
       | None \<Rightarrow> fail E_FAIL))"

definition GetFirstInstruction :: "gid \<Rightarrow> (world, addr option) op" where
  "GetFirstInstruction g = IfFailRet (get_graph g) (\<lambda>gr. ret (m_pFirstInstruction gr))"

definition GetLastInstruction :: "gid \<Rightarrow> (world, addr option) op" where
  "GetLastInstruction g = IfFailRet (get_graph g) (\<lambda>gr. ret (m_pLastInstruction gr))"

text \<open>The original ends are dereferenced without a test.\<close>

definition GetOriginalFirstInstruction :: "gid \<Rightarrow> (world, addr) op" where
  "GetOriginalFirstInstruction g = IfFailRet (get_graph g) (\<lambda>gr.
     liftR (deref (m_pOrigFirstInstruction gr)))"

definition GetOriginalLastInstruction :: "gid \<Rightarrow> (world, addr) op" where
  "GetOriginalLastInstruction g = IfFailRet (get_graph g) (\<lambda>gr.
     liftR (deref (m_pOrigLastInstruction gr)))"

end
