(* ===== verification/GraphOffsets.thy ===== *)
theory GraphOffsets
  imports Graph
begin

text \<open>
  The view of an instruction graph as the list of its instructions, and what the lazy offset
  recalculation of \<^verbatim>\<open>InstructionGraph.cpp\<close> computes on it: the running sum of the instruction
  sizes.  Every loop of the graph ends within its fuel on such a graph.
\<close>

section \<open>Graphs as lists\<close>

text \<open>The graph \<open>g\<close> holds exactly the instructions \<open>xs\<close>, in this order.\<close>

definition node_ok :: "world \<Rightarrow> gid \<Rightarrow> addr \<Rightarrow> bool" where
  "node_ok w g a \<longleftrightarrow> a < w_next w \<and> (case w_instrs w a of None \<Rightarrow> False
     | Some i \<Rightarrow> m_pGraph i = Some g \<and> wf_instr i)"

definition graph_list :: "world \<Rightarrow> gid \<Rightarrow> addr list \<Rightarrow> bool" where
  "graph_list w g xs \<longleftrightarrow> distinct xs \<and> dll (w_instrs w) None xs None \<and> list_all (node_ok w g) xs \<and>
     (case w_graphs w g of None \<Rightarrow> False
      | Some gr \<Rightarrow> m_pFirstInstruction gr = nxt xs None)"

definition stale :: "world \<Rightarrow> gid \<Rightarrow> bool" where
  "stale w g \<longleftrightarrow> (case w_graphs w g of None \<Rightarrow> False | Some gr \<Rightarrow> m_bAreInstructionsStale gr)"

definition size_at :: "world \<Rightarrow> addr \<Rightarrow> DWORD" where
  "size_at w a = (case w_instrs w a of None \<Rightarrow> 0 | Some i \<Rightarrow> instr_size i)"

text \<open>The offset of \<open>a\<close> when the instructions \<open>xs\<close> are laid out from \<open>z\<close> on.\<close>

fun layout :: "world \<Rightarrow> DWORD \<Rightarrow> addr list \<Rightarrow> addr \<Rightarrow> DWORD" where
  "layout w z [] a = 0"
| "layout w z (x # xs) a = (if a = x then z else layout w (z + size_at w x) xs a)"

definition set_offsets :: "DWORD \<Rightarrow> addr list \<Rightarrow> world \<Rightarrow> world" where
  "set_offsets z xs w = w \<lparr> w_instrs := \<lambda>a. if a \<in> set xs
     then map_option (SetOffset (layout w z xs a)) (w_instrs w a) else w_instrs w a \<rparr>"

definition set_fresh :: "gid \<Rightarrow> world \<Rightarrow> world" where
  "set_fresh g w = w \<lparr> w_graphs := (w_graphs w)(g :=
     map_option (\<lambda>gr. gr \<lparr> m_bAreInstructionsStale := False \<rparr>) (w_graphs w g)) \<rparr>"

lemma set_offsets_simps [simp]:
  "w_graphs (set_offsets z xs w) = w_graphs w" "w_next (set_offsets z xs w) = w_next w"
  "w_clauses (set_offsets z xs w) = w_clauses w" "w_methods (set_offsets z xs w) = w_methods w"
  "w_nextGraph (set_offsets z xs w) = w_nextGraph w" "w_nextClause (set_offsets z xs w) = w_nextClause w"
  "set_offsets z [] w = w"
  by (simp_all add: set_offsets_def)

lemma set_fresh_simps [simp]:
  "w_instrs (set_fresh g w) = w_instrs w" "w_next (set_fresh g w) = w_next w"
  "w_clauses (set_fresh g w) = w_clauses w" "w_methods (set_fresh g w) = w_methods w"
  "w_nextGraph (set_fresh g w) = w_nextGraph w" "w_nextClause (set_fresh g w) = w_nextClause w"
  by (simp_all add: set_fresh_def)

lemma set_offsets_at: "w_instrs (set_offsets z xs w) a = (if a \<in> set xs
    then map_option (SetOffset (layout w z xs a)) (w_instrs w a) else w_instrs w a)"
  by (simp add: set_offsets_def)

lemma size_at_put [simp]:
  "size_at (put_instr a j w) x = (if x = a then instr_size j else size_at w x)"
  by (simp add: size_at_def)

lemma layout_cong: "(\<And>x. x \<in> set xs \<Longrightarrow> size_at w x = size_at w' x) \<Longrightarrow> layout w z xs a = layout w' z xs a"
  by (induction xs arbitrary: z) auto

lemma size_at_set_offsets [simp]: "size_at (set_offsets z xs w) a = size_at w a"
  by (auto simp: size_at_def set_offsets_def split: option.splits)

lemma layout_set_offsets [simp]: "layout (set_offsets z' ys w) z xs a = layout w z xs a"
  by (rule layout_cong) simp

lemma size_at_set_fresh [simp]: "size_at (set_fresh g w) a = size_at w a"
  by (simp add: size_at_def)

lemma layout_set_fresh [simp]: "layout (set_fresh g w) z xs a = layout w z xs a"
  by (rule layout_cong) simp

lemma set_offsets_idem [simp]: "set_offsets z xs (set_offsets z' xs w) = set_offsets z xs w"
proof (rule world.equality)
  show "w_instrs (set_offsets z xs (set_offsets z' xs w)) = w_instrs (set_offsets z xs w)"
    by (rule ext) (simp add: set_offsets_at option.map_comp comp_def)
qed simp_all

lemma set_offsets_Cons:
  assumes "a \<notin> set xs" and "w_instrs w a = Some i"
  shows "set_offsets z (a # xs) w = set_offsets (z + instr_size i) xs (put_instr a (SetOffset z i) w)"
proof -
  have l: "layout (put_instr a (SetOffset z i) w) (z + instr_size i) xs x = layout w (z + instr_size i) xs x" for x
    using assms by (intro layout_cong) auto
  show ?thesis
    using assms by (auto simp: set_offsets_def put_instr_def l [unfolded put_instr_def] size_at_def fun_eq_iff)
qed

lemma set_fresh_id: "\<not> stale w g \<Longrightarrow> w_graphs w g = Some gr \<Longrightarrow> set_fresh g w = w"
  by (cases w; cases gr) (auto simp: set_fresh_def stale_def fun_upd_idem_iff)

lemma dll_set_offsets [simp]: "dll (w_instrs (set_offsets z ys w)) p xs n = dll (w_instrs w) p xs n"
  by (induction xs arbitrary: p) (auto simp: set_offsets_def split: option.splits)

lemma node_ok_set_offsets [simp]: "node_ok (set_offsets z ys w) g a = node_ok w g a"
  by (auto simp: node_ok_def set_offsets_def split: option.splits)


section \<open>Recalculating offsets\<close>

lemma GetOffset_f_fresh:
  assumes "w_instrs w p = Some i" and "m_pGraph i = None \<or> (\<exists>g. m_pGraph i = Some g \<and> w_graphs w g \<noteq> None \<and> \<not> stale w g)"
    and "3 \<le> n"
  shows "GetOffset_f n p w = (Ok (m_offset i), w)"
proof -
  have "n = Suc (Suc (Suc (n - 3)))" using assms(3) by simp
  then obtain k where "n = Suc (Suc (Suc k))" by blast
  with assms show ?thesis by (auto simp: stale_def)
qed

lemma offsets_loop_fresh:
  assumes "dll (w_instrs w) p ys None" and "distinct ys" and "list_all (node_ok w g) ys"
    and "w_graphs w g \<noteq> None" and "\<not> stale w g"
    and "case p of None \<Rightarrow> z = 0 | Some q \<Rightarrow> q \<notin> set ys \<and> node_ok w g q \<and>
           (\<exists>i. w_instrs w q = Some i \<and> z = m_offset i + instr_size i)"
    and "length ys + 4 \<le> n"
  shows "offsets_loop n (nxt ys None) p w = (Ok (), set_offsets z ys w)"
  using assms
proof (induction ys arbitrary: n p w z)
  case Nil
  then obtain k where "n = Suc k" by (cases n) auto
  then show ?case by simp
next
  case (Cons y ys)
  from Cons.prems(7) obtain k where n: "n = Suc k" "length ys + 4 \<le> k" by (cases n) auto
  from Cons.prems(1) obtain iy where iy: "w_instrs w y = Some iy" "m_pNextInstruction iy = nxt ys None"
    "dll (w_instrs w) (Some y) ys None" by (auto split: option.splits)
  let ?w = "put_instr y (SetOffset z iy) w"
  have z: "(case p of None \<Rightarrow> ret 0
         | Some q \<Rightarrow> IfFailRet (GetOffset_f k q) (\<lambda>dwPrevOffset.
             IfFailRet (get_instr q) (\<lambda>i. IfFailRet (liftR (GetInstructionSize i)) (\<lambda>dwPrevLength.
               ret (dwPrevOffset + dwPrevLength))))) w = (Ok z, w)"
  proof (cases p)
    case (Some q)
    with Cons.prems obtain i where "w_instrs w q = Some i" "z = m_offset i + instr_size i" "m_pGraph i = Some g" "wf_instr i"
      by (auto simp: node_ok_def split: option.splits)
    then show ?thesis
      using Cons.prems n Some GetOffset_f_fresh [of w q i k] by (simp add: wf_instr_size)
  qed (use Cons.prems in simp)
  have "offsets_loop k (nxt ys None) (Some y) ?w = (Ok (), set_offsets (z + instr_size iy) ys ?w)"
  proof (rule Cons.IH)
    show "dll (w_instrs ?w) (Some y) ys None" using iy Cons.prems(2) by simp
    show "list_all (node_ok ?w g) ys" using Cons.prems(2,3) by (auto simp: list_all_iff node_ok_def)
    show "\<not> stale ?w g" using Cons.prems(5) by (simp add: stale_def)
    show "case Some y of None \<Rightarrow> z + instr_size iy = 0 | Some q \<Rightarrow> q \<notin> set ys \<and> node_ok ?w g q \<and>
           (\<exists>i. w_instrs ?w q = Some i \<and> z + instr_size iy = m_offset i + instr_size i)"
      using Cons.prems(2,3) iy by (auto simp: node_ok_def)
  qed (use Cons.prems n in auto)
  then show ?case
    using iy z Cons.prems(2) by (simp add: n set_offsets_Cons [OF _ iy(1)])
qed


definition refreshed :: "gid \<Rightarrow> addr list \<Rightarrow> world \<Rightarrow> world" where
  "refreshed g xs w = (if stale w g then set_offsets 0 xs (set_fresh g w) else w)"

lemma graph_list_length:
  assumes "graph_list w g xs"
  shows "length xs \<le> w_next w"
proof -
  have "set xs \<subseteq> {..<w_next w}" using assms by (auto simp: graph_list_def list_all_iff node_ok_def)
  then have "card (set xs) \<le> w_next w" using card_mono [of "{..<w_next w}"] by fastforce
  then show ?thesis using assms by (simp add: graph_list_def distinct_card)
qed

lemma graph_list_graph:
  assumes "graph_list w g xs"
  obtains gr where "w_graphs w g = Some gr" "m_pFirstInstruction gr = nxt xs None"
  using assms by (auto simp: graph_list_def split: option.splits)

lemma graph_list_node:
  assumes "graph_list w g xs" and "a \<in> set xs"
  obtains i where "w_instrs w a = Some i" "m_pGraph i = Some g" "wf_instr i"
  using assms by (auto simp: graph_list_def list_all_iff node_ok_def split: option.splits)

lemma graph_list_set_offsets [simp]: "graph_list (set_offsets z ys w) g xs = graph_list w g xs"
  by (simp add: graph_list_def list_all_iff)

lemma node_ok_set_fresh [simp]: "node_ok (set_fresh g' w) g a = node_ok w g a"
  by (simp add: node_ok_def)

lemma graph_list_set_fresh [simp]: "graph_list (set_fresh g' w) g xs = graph_list w g xs"
  by (auto simp: graph_list_def list_all_iff set_fresh_def node_ok_def split: option.splits)

lemma stale_set_fresh [simp]: "\<not> stale (set_fresh g w) g"
  by (auto simp: stale_def set_fresh_def split: option.splits)

lemma stale_set_offsets [simp]: "stale (set_offsets z xs w) g = stale w g"
  by (simp add: stale_def)

lemma Calculate_f_fresh:
  assumes "graph_list w g xs" and "\<not> stale w g" and "length xs + 5 \<le> n"
  shows "CalculateInstructionOffsets_f n g w = (Ok (), set_offsets 0 xs w)"
proof -
  obtain k where k: "n = Suc k" "length xs + 4 \<le> k" using assms(3) by (cases n) auto
  obtain gr where gr: "w_graphs w g = Some gr" "m_pFirstInstruction gr = nxt xs None"
    using assms(1) by (rule graph_list_graph)
  have "offsets_loop k (nxt xs None) None w = (Ok (), set_offsets 0 xs w)"
    using assms gr k by (intro offsets_loop_fresh) (auto simp: graph_list_def)
  with gr k show ?thesis by simp
qed

lemma Refresh_f:
  assumes "graph_list w g xs" and "length xs + 6 \<le> n"
  shows "RefreshInstructions_f n g w = (Ok (), refreshed g xs w)"
proof -
  obtain k where k: "n = Suc k" "length xs + 5 \<le> k" using assms(2) by (cases n) auto
  obtain gr where gr: "w_graphs w g = Some gr" using assms(1) by (rule graph_list_graph)
  have "put_graph g (gr \<lparr> m_bAreInstructionsStale := False \<rparr>) w = set_fresh g w"
    using gr by (simp add: put_graph_def set_fresh_def)
  moreover have "CalculateInstructionOffsets_f k g (set_fresh g w) = (Ok (), set_offsets 0 xs (set_fresh g w))"
    using assms k by (intro Calculate_f_fresh) simp_all
  ultimately show ?thesis using gr k by (simp add: refreshed_def stale_def)
qed

lemma refreshed_node:
  assumes "w_instrs w a = Some i"
  shows "w_instrs (refreshed g xs w) a =
    Some (if stale w g \<and> a \<in> set xs then SetOffset (layout w 0 xs a) i else i)"
  using assms by (simp add: refreshed_def set_offsets_at)

lemma GetOffset_f_list:
  assumes "graph_list w g xs" and "a \<in> set xs" and "length xs + 8 \<le> n"
  shows "GetOffset_f n a w = (Ok (m_offset (the (w_instrs (refreshed g xs w) a))), refreshed g xs w)"
proof -
  define k where "k = n - 2"
  have k: "n = Suc (Suc k)" "length xs + 6 \<le> k" using assms(3) by (simp_all add: k_def)
  obtain i where i: "w_instrs w a = Some i" "m_pGraph i = Some g" using assms(1,2) by (rule graph_list_node)
  show ?thesis using i k Refresh_f [OF assms(1) k(2)] refreshed_node [OF i(1), of g xs] by simp
qed

lemma graph_list_put:
  assumes "graph_list w g xs" and "w_instrs w a = Some i"
    and "m_pNextInstruction j = m_pNextInstruction i"
    and "m_pPreviousInstruction j = m_pPreviousInstruction i"
    and "m_pGraph j = m_pGraph i" and "wf_instr i \<Longrightarrow> wf_instr j"
  shows "graph_list (put_instr a j w) g xs"
proof -
  have "dll (w_instrs (put_instr a j w)) None xs None"
    using assms by (auto simp: graph_list_def intro!: dll_cong [of "w_instrs w"])
  moreover have "list_all (node_ok (put_instr a j w) g) xs"
    using assms by (auto simp: graph_list_def list_all_iff node_ok_def)
  ultimately show ?thesis using assms(1) by (simp add: graph_list_def)
qed

lemma set_offsets_put:
  assumes "w_instrs w a = Some i" and "a \<in> set xs"
  shows "set_offsets z xs (put_instr a (SetOffset y i) w) = set_offsets z xs w"
proof -
  have l: "layout (put_instr a (SetOffset y i) w) z xs b = layout w z xs b" for b
    by (rule layout_cong) (simp add: size_at_def assms(1))
  show ?thesis
    by (rule world.equality; simp?) (rule ext, simp add: set_offsets_at assms l)
qed

lemma set_fresh_put [simp]: "set_fresh g (put_instr a j w) = put_instr a j (set_fresh g w)"
  by (simp add: set_fresh_def put_instr_def)

lemma set_offsets_tail:
  assumes "x \<notin> set xs"
  shows "set_offsets (z + size_at w x) xs (set_offsets z (x # xs) w) = set_offsets z (x # xs) w"
  using assms by (intro world.equality; simp?) (auto simp: set_offsets_at option.map_comp comp_def)

lemma Calculate_f:
  assumes "graph_list w g xs" and "2 * length xs + 12 \<le> n"
  shows "CalculateInstructionOffsets_f n g w =
    (Ok (), set_offsets 0 xs (if length xs \<le> 1 then w else set_fresh g w))"
proof (cases "stale w g")
  case False
  obtain gr where gr: "w_graphs w g = Some gr" using assms(1) by (rule graph_list_graph)
  show ?thesis using Calculate_f_fresh [OF assms(1) False] assms(2) set_fresh_id [OF False gr] by simp
next
  case True
  define k where "k = n - 4"
  have k: "n = Suc (Suc (Suc (Suc k)))" "2 * length xs + 8 \<le> k"
    using assms(2) by (simp_all add: k_def)
  obtain gr where gr: "w_graphs w g = Some gr" "m_pFirstInstruction gr = nxt xs None"
    using assms(1) by (rule graph_list_graph)
  consider "xs = []" | x where "xs = [x]" | x y ys where "xs = x # y # ys" by (metis neq_Nil_conv)
  then show ?thesis
  proof cases
    case 1
    then show ?thesis using gr k by simp
  next
    case 2
    obtain i where i: "w_instrs w x = Some i" "m_pNextInstruction i = None"
      using assms(1) 2 by (auto simp: graph_list_def split: option.splits)
    then show ?thesis using gr k 2 by (simp add: set_offsets_Cons [of x "[]" w i])
  next
    case (3 x y ys)
    from assms(1) 3 obtain i where i: "w_instrs w x = Some i" "m_pNextInstruction i = Some y" and xys: "x \<notin> set (y # ys)"
      by (auto simp: graph_list_def split: option.splits)
    define w1 where "w1 = put_instr x (SetOffset 0 i) w"
    define w2 where "w2 = set_offsets 0 xs (set_fresh g w)"
    have gl1: "graph_list w1 g xs" unfolding w1_def by (rule graph_list_put [OF assms(1) i(1)]) simp_all
    have r: "refreshed g xs w1 = w2"
      using True i 3 by (simp add: refreshed_def w1_def w2_def stale_def set_offsets_put)
    have gl2: "graph_list w2 g xs" "refreshed g xs w2 = w2"
      using assms(1) by (simp_all add: w2_def refreshed_def)
    have "GetOffset_f (Suc k) x w1 = (Ok (m_offset (the (w_instrs w2 x))), w2)"
      using GetOffset_f_list [OF gl1, of x "Suc k"] r k 3 by simp
    moreover have "GetOffset_f (Suc k) x w2 = (Ok (m_offset (the (w_instrs w2 x))), w2)"
      using GetOffset_f_list [OF gl2(1), of x "Suc k"] gl2(2) k 3 by simp
    ultimately have "offsets_loop (Suc (Suc k)) (Some y) (Some x) w1 = offsets_loop (Suc (Suc k)) (Some y) (Some x) w2"
      by (simp add: IfFailRet_def)
    also have "\<dots> = (Ok (), set_offsets (instr_size i) (y # ys) w2)"
      using offsets_loop_fresh [of w2 "Some x" "y # ys" g "instr_size i" "Suc (Suc k)"] gl2 k 3 i gr
      by (auto simp: graph_list_def w2_def set_offsets_at split: option.splits)
    also have "set_offsets (instr_size i) (y # ys) w2 = w2"
      using set_offsets_tail [OF xys, of 0 "set_fresh g w"] i by (simp add: w2_def 3 size_at_def)
    finally show ?thesis using i gr k 3 by (simp add: w1_def w2_def)
  qed
qed

section \<open>Offsets are running sums\<close>

text \<open>The offsets are up to date unless the graph is marked stale.\<close>

definition graph_inv :: "world \<Rightarrow> gid \<Rightarrow> addr list \<Rightarrow> bool" where
  "graph_inv w g xs \<longleftrightarrow> graph_list w g xs \<and> (stale w g \<or>
     list_all (\<lambda>a. case w_instrs w a of None \<Rightarrow> False | Some i \<Rightarrow> m_offset i = layout w 0 xs a) xs)"

lemma layout_nth:
  assumes "distinct xs" and "k < length xs"
  shows "layout w z xs (xs ! k) = z + sum_list (map (size_at w) (take k xs))"
  using assms
proof (induction xs arbitrary: z k)
  case (Cons x xs)
  show ?case
  proof (cases k)
    case (Suc m)
    moreover have "xs ! m \<noteq> x" using Cons.prems Suc by auto
    ultimately show ?thesis using Cons by (simp add: add.assoc)
  qed simp
qed simp

lemma offset_fuel_enough: "graph_list w g xs \<Longrightarrow> 2 * length xs + 12 \<le> offset_fuel w"
  using graph_list_length [of w g xs] by (simp add: offset_fuel_def)

lemma stale_refreshed [simp]: "\<not> stale (refreshed g xs w) g"
  by (simp add: refreshed_def)

lemma graph_list_refreshed [simp]: "graph_list (refreshed g ys w) g xs = graph_list w g xs"
  by (simp add: refreshed_def)

lemma layout_refreshed [simp]: "layout (refreshed g ys w) z xs a = layout w z xs a"
  by (simp add: refreshed_def)

lemma size_at_refreshed [simp]: "size_at (refreshed g ys w) a = size_at w a"
  by (simp add: refreshed_def)

lemma graph_inv_list: "graph_inv w g xs \<Longrightarrow> graph_list w g xs"
  by (simp add: graph_inv_def)

lemma refreshed_offset:
  assumes "graph_inv w g xs" and "a \<in> set xs"
  shows "m_offset (the (w_instrs (refreshed g xs w) a)) = layout w 0 xs a"
proof -
  obtain i where i: "w_instrs w a = Some i" using assms graph_inv_list by (metis graph_list_node)
  show ?thesis
    using assms i by (auto simp: refreshed_node [OF i] graph_inv_def list_all_iff split: option.splits)
qed

lemma GetOffset_list:
  assumes "graph_inv w g xs" and "a \<in> set xs"
  shows "GetOffset a w = (Ok (layout w 0 xs a), refreshed g xs w)"
  using GetOffset_f_list [OF graph_inv_list [OF assms(1)] assms(2), of "offset_fuel w"]
    offset_fuel_enough [OF graph_inv_list [OF assms(1)]] refreshed_offset [OF assms]
  by (simp add: GetOffset_def)

lemma graph_inv_refreshed:
  assumes "graph_inv w g xs"
  shows "graph_inv (refreshed g xs w) g xs"
  unfolding graph_inv_def
proof
  show "graph_list (refreshed g xs w) g xs" using assms by (simp add: graph_inv_list)
  show "stale (refreshed g xs w) g \<or> list_all (\<lambda>a. case w_instrs (refreshed g xs w) a of None \<Rightarrow> False
      | Some i \<Rightarrow> m_offset i = layout (refreshed g xs w) 0 xs a) xs"
  proof (intro disjI2, unfold list_all_iff, rule ballI)
    fix a assume a: "a \<in> set xs"
    obtain i where i: "w_instrs w a = Some i" using assms a graph_inv_list by (metis graph_list_node)
    show "case w_instrs (refreshed g xs w) a of None \<Rightarrow> False
      | Some i \<Rightarrow> m_offset i = layout (refreshed g xs w) 0 xs a"
      using refreshed_offset [OF assms a] refreshed_node [OF i, of g xs] by simp
  qed
qed

lemma refreshed_idem [simp]: "refreshed g xs (refreshed g xs w) = refreshed g xs w"
  by (simp add: refreshed_def [of g xs "refreshed g xs w"])

lemma RefreshInstructions_list:
  assumes "graph_list w g xs"
  shows "RefreshInstructions g w = (Ok (), refreshed g xs w)"
  using Refresh_f [OF assms, of "offset_fuel w"] offset_fuel_enough [OF assms]
  by (simp add: RefreshInstructions_def)

lemma EnsureGraphUpdated_list:
  assumes "graph_list w g xs" and "a \<in> set xs"
  shows "EnsureGraphUpdated a w = (Ok (), refreshed g xs w)"
proof -
  obtain i where i: "w_instrs w a = Some i" "m_pGraph i = Some g" using assms by (rule graph_list_node)
  define k where "k = offset_fuel w - 1"
  have k: "offset_fuel w = Suc k" "length xs + 6 \<le> k"
    using offset_fuel_enough [OF assms(1)] by (simp_all add: k_def)
  show ?thesis using i Refresh_f [OF assms(1) k(2)] by (simp add: EnsureGraphUpdated_def k(1))
qed

lemma GetOriginalOffset_list:
  assumes "graph_list w g xs" and "a \<in> set xs" and "w_instrs w a = Some i"
  shows "GetOriginalOffset a w = (Ok (m_origOffset i), refreshed g xs w)"
  using EnsureGraphUpdated_list [OF assms(1,2)] refreshed_node [OF assms(3), of g xs]
  by (simp add: GetOriginalOffset_def)

lemma CalculateInstructionOffsets_list:
  assumes "graph_list w g xs"
  shows "CalculateInstructionOffsets g w =
    (Ok (), set_offsets 0 xs (if length xs \<le> 1 then w else set_fresh g w))"
  using Calculate_f [OF assms] offset_fuel_enough [OF assms] by (simp add: CalculateInstructionOffsets_def)

lemma next_in_list:
  assumes "graph_list w g (us @ a # vs)" and "w_instrs w a = Some i"
  shows "m_pNextInstruction i = nxt vs None" and "m_pPreviousInstruction i = prv us None"
  using assms by (auto simp: graph_list_def split: option.splits)

section \<open>Lookups by offset\<close>

lemma atOffset_loop_list:
  assumes "graph_inv w g (us @ vs)" and "length vs < n"
  shows "atOffset_loop n (nxt vs None) z w = (case find (\<lambda>a. layout w 0 (us @ vs) a = z) vs of
      None \<Rightarrow> (Fail E_FAIL, if vs = [] then w else refreshed g (us @ vs) w)
    | Some a \<Rightarrow> (Ok a, refreshed g (us @ vs) w))"
  using assms
proof (induction vs arbitrary: us n w)
  case Nil
  then show ?case by (cases n) auto
next
  case (Cons v vs)
  obtain k where k: "n = Suc k" "length vs < k" using Cons.prems(2) by (cases n) auto
  let ?xs = "us @ v # vs"
  let ?w = "refreshed g ?xs w"
  have g1: "graph_inv ?w g ?xs" using Cons.prems(1) by (rule graph_inv_refreshed)
  obtain i where i: "w_instrs ?w v = Some i" using graph_list_node [OF graph_inv_list [OF g1], of v] by auto
  have nx: "m_pNextInstruction i = nxt vs None" using next_in_list [OF graph_inv_list [OF g1] i] by simp
  have "atOffset_loop k (nxt vs None) z ?w = (case find (\<lambda>a. layout w 0 ?xs a = z) vs of
      None \<Rightarrow> (Fail E_FAIL, ?w) | Some a \<Rightarrow> (Ok a, ?w))"
    using Cons.IH [of ?w "us @ [v]" k] g1 k by (simp split: option.splits)
  then show ?case
    using GetOffset_list [OF Cons.prems(1), of v] i nx k
    by (simp split: option.splits)
qed

lemma endOffset_loop_list:
  assumes "graph_inv w g (us @ vs)" and "length vs < n"
  shows "endOffset_loop n (nxt vs None) z w = (case find (\<lambda>a. layout w 0 (us @ vs) a + size_at w a = z) vs of
      None \<Rightarrow> (Fail E_FAIL, if vs = [] then w else refreshed g (us @ vs) w)
    | Some a \<Rightarrow> (Ok a, refreshed g (us @ vs) w))"
  using assms
proof (induction vs arbitrary: us n w)
  case Nil
  then show ?case by (cases n) auto
next
  case (Cons v vs)
  obtain k where k: "n = Suc k" "length vs < k" using Cons.prems(2) by (cases n) auto
  let ?xs = "us @ v # vs"
  let ?w = "refreshed g ?xs w"
  have g1: "graph_inv ?w g ?xs" using Cons.prems(1) by (rule graph_inv_refreshed)
  obtain i where i: "w_instrs ?w v = Some i" "wf_instr i" using graph_list_node [OF graph_inv_list [OF g1], of v] by auto
  have nx: "m_pNextInstruction i = nxt vs None" using next_in_list [OF graph_inv_list [OF g1] i(1)] by simp
  have sz: "instr_size i = size_at w v" using i(1) size_at_refreshed [of g ?xs w v] by (simp add: size_at_def)
  have "endOffset_loop k (nxt vs None) z ?w = (case find (\<lambda>a. layout w 0 ?xs a + size_at w a = z) vs of
      None \<Rightarrow> (Fail E_FAIL, ?w) | Some a \<Rightarrow> (Ok a, ?w))"
    using Cons.IH [of ?w "us @ [v]" k] g1 k by (simp split: option.splits)
  then show ?case
    using GetOffset_list [OF Cons.prems(1), of v] i nx k sz wf_instr_size [OF i(2)]
    by (simp split: option.splits)
qed

section \<open>Properties\<close>

text \<open>A graph decoded from \<^verbatim>\<open>nop; brfalse.s +1; nop; ret\<close>, for the examples.\<close>

definition empty_world :: world where
  "empty_world = \<lparr> w_instrs = Map.empty, w_next = 0, w_graphs = Map.empty, w_nextGraph = 0,
     w_clauses = Map.empty, w_nextClause = 0, w_methods = Map.empty \<rparr>"

definition sample_code :: "byte list" where
  "sample_code = [0x00, 0x2C, 0x01, 0x00, 0x2A]"

definition sample_world :: world where
  "sample_world = snd (IfFailRet (new_graph None) (\<lambda>g. DecodeInstructions g sample_code 0 5) empty_world)"

lemma sample_graph_inv: "graph_inv sample_world 0 [0, 1, 2, 3]"
  by code_simp

text \<open>C12. However stale the graph is, \<^verbatim>\<open>GetOffset\<close> of its \<open>k\<close>-th instruction terminates and returns
  the sum of the sizes of the \<open>k\<close> instructions before it; afterwards the graph holds the same
  instructions, its offsets are up to date and it is no longer stale.\<close>

theorem GetOffset_prefix_sum:
  assumes "graph_inv w g xs" and "k < length xs"
  shows "\<exists>w'. GetOffset (xs ! k) w = (Ok (sum_list (map (size_at w) (take k xs))), w') \<and>
    graph_inv w' g xs \<and> \<not> stale w' g"
proof -
  have "distinct xs" using assms(1) by (simp add: graph_inv_def graph_list_def)
  then show ?thesis
    using GetOffset_list [OF assms(1), of "xs ! k"] assms(2) graph_inv_refreshed [OF assms(1)]
    by (simp add: layout_nth)
qed

theorem GetOffset_prefix_sum_witness:
  "\<exists>w'. GetOffset ([0, 1, 2, 3] ! 2) sample_world = (Ok (sum_list (map (size_at sample_world) (take 2 [0, 1, 2, 3]))), w') \<and>
    graph_inv w' 0 [0, 1, 2, 3] \<and> \<not> stale w' 0"
  by (rule GetOffset_prefix_sum [OF sample_graph_inv]) simp

text \<open>The lookups by offset return the first instruction that starts, respectively ends, at the
  given offset, and fail with \<^const>\<open>E_FAIL\<close> exactly when there is none; they terminate on
  every graph and leave it unchanged up to refreshed offsets.\<close>

theorem GetInstructionAtOffset_find:
  assumes "graph_inv w g xs"
  shows "fst (GetInstructionAtOffset g z w) = (case find (\<lambda>a. layout w 0 xs a = z) xs of
      None \<Rightarrow> Fail E_FAIL | Some a \<Rightarrow> Ok a) \<and>
    fst (GetInstructionAtEndOffset g z w) = (case find (\<lambda>a. layout w 0 xs a + size_at w a = z) xs of
      None \<Rightarrow> Fail E_FAIL | Some a \<Rightarrow> Ok a) \<and>
    graph_inv (snd (GetInstructionAtOffset g z w)) g xs \<and>
    graph_inv (snd (GetInstructionAtEndOffset g z w)) g xs"
proof -
  obtain gr where gr: "w_graphs w g = Some gr" "m_pFirstInstruction gr = nxt xs None"
    using graph_inv_list [OF assms] by (rule graph_list_graph)
  have n: "length xs < walk_fuel w" using graph_list_length [OF graph_inv_list [OF assms]] by (simp add: walk_fuel_def)
  show ?thesis
    using atOffset_loop_list [of w g "[]" xs "walk_fuel w" z] endOffset_loop_list [of w g "[]" xs "walk_fuel w" z]
      gr n assms graph_inv_refreshed [OF assms]
    by (auto simp: GetInstructionAtOffset_def GetInstructionAtEndOffset_def split: option.splits)
qed

theorem GetInstructionAtOffset_find_witness:
  "fst (GetInstructionAtOffset 0 3 sample_world) = Ok 2 \<and> fst (GetInstructionAtEndOffset 0 3 sample_world) = Ok 1"
proof -
  have "find (\<lambda>a. layout sample_world 0 [0, 1, 2, 3] a = 3) [0, 1, 2, 3] = Some 2"
    "find (\<lambda>a. layout sample_world 0 [0, 1, 2, 3] a + size_at sample_world a = 3) [0, 1, 2, 3] = Some 1"
    by code_simp+
  with GetInstructionAtOffset_find [OF sample_graph_inv, of 3] show ?thesis by simp
qed

end
