(* ===== verification/EncodeIL.thy ===== *)
theory EncodeIL
  imports GraphOffsets
begin

text \<open>
  What \<^verbatim>\<open>CInstructionGraph::EncodeIL\<close> and \<^verbatim>\<open>CInstruction::EmitIL\<close> produce for a graph with
  resolved branch targets: the concatenation of the encodings of its instructions at their
  offsets, and the IL map from the original offsets to the new ones.
\<close>

section \<open>The encoding of a graph\<close>

definition byte_size :: "instr \<Rightarrow> nat" where
  "byte_size i = (case opcodeInfo (m_opcode i) of
     Ok e \<Rightarrow> unat (m_opcodeLength e) + (case m_class i of
         Switch _ ts \<Rightarrow> 4 * (length ts + 1)
       | _ \<Rightarrow> operandTypeSize (m_type e))
   | _ \<Rightarrow> 0)"

definition bytes_at :: "world \<Rightarrow> addr \<Rightarrow> nat" where
  "bytes_at w a = (case w_instrs w a of None \<Rightarrow> 0 | Some i \<Rightarrow> byte_size i)"

definition total_bytes :: "world \<Rightarrow> addr list \<Rightarrow> nat" where
  "total_bytes w xs = sum_list (map (bytes_at w) xs)"

text \<open>The bytes of an instruction at offset \<open>z\<close> when \<open>off\<close> gives the offset of a target.\<close>

definition encode_operand :: "(addr \<Rightarrow> DWORD) \<Rightarrow> DWORD \<Rightarrow> nat \<Rightarrow> iclass \<Rightarrow> byte list" where
  "encode_operand off z n c = (case c of
         Plain \<Rightarrow> []
       | Operand v \<Rightarrow> take n v
       | Branch _ t _ \<Rightarrow> le_bytes n (off (the t) - (z + 1 + of_nat n))
       | Switch _ ts \<Rightarrow> le_bytes 4 (of_nat (length ts) :: DWORD) @
           concat (map (\<lambda>t. le_bytes 4 (off (the t) - (z + 1 + (1 + of_nat (length ts)) * 4))) ts))"

definition encode_instr :: "(addr \<Rightarrow> DWORD) \<Rightarrow> DWORD \<Rightarrow> instr \<Rightarrow> byte list" where
  "encode_instr off z i = (case opcodeInfo (m_opcode i) of
     Ok e \<Rightarrow> opcodeBytes (m_opcode i) @ encode_operand off z (operandTypeSize (m_type e)) (m_class i)
   | _ \<Rightarrow> [])"

definition encode_at :: "world \<Rightarrow> addr list \<Rightarrow> addr \<Rightarrow> byte list" where
  "encode_at w xs a = (case w_instrs w a of None \<Rightarrow> []
     | Some i \<Rightarrow> encode_instr (layout w 0 xs) (layout w 0 xs a) i)"

text \<open>Every branch and switch entry has a target in the graph.\<close>

definition targets_in :: "addr list \<Rightarrow> instr \<Rightarrow> bool" where
  "targets_in xs i \<longleftrightarrow> (case m_class i of
       Branch _ t _ \<Rightarrow> t \<in> Some ` set xs
     | Switch _ ts \<Rightarrow> list_all (\<lambda>t. t \<in> Some ` set xs) ts
     | _ \<Rightarrow> True)"

definition isSwitch_at :: "world \<Rightarrow> addr \<Rightarrow> bool" where
  "isSwitch_at w a = (case w_instrs w a of None \<Rightarrow> False | Some i \<Rightarrow> GetIsSwitchInternal i)"

definition encodable :: "world \<Rightarrow> addr list \<Rightarrow> bool" where
  "encodable w xs \<longleftrightarrow>
     list_all (\<lambda>a. case w_instrs w a of None \<Rightarrow> False
       | Some i \<Rightarrow> m_opcode i < Cee_Count \<and> targets_in xs i) xs \<and>
     total_bytes w xs < 2 ^ 32 \<and> (xs = [] \<or> \<not> isSwitch_at w (last xs))"

text \<open>One entry for each instruction that is not new, with its original offset and the offset
  \<open>start\<close> behind the previous such instruction.\<close>

fun ilMap_of :: "world \<Rightarrow> DWORD \<Rightarrow> DWORD \<Rightarrow> addr list \<Rightarrow> COR_IL_MAP list" where
  "ilMap_of w start z [] = []"
| "ilMap_of w start z (a # as) = (case w_instrs w a of
     None \<Rightarrow> []
   | Some i \<Rightarrow> if GetIsNew i then ilMap_of w start (z + instr_size i) as
       else \<lparr> oldOffset = m_origOffset i, newOffset = start, fAccurate = True \<rparr>
         # ilMap_of w (z + instr_size i) (z + instr_size i) as)"

section \<open>Sizes\<close>

lemma unat_of_nat_DWORD: "n < 2 ^ 32 \<Longrightarrow> unat (of_nat n :: DWORD) = n"
  by (rule unat_of_nat_small) simp

lemma row_lengths:
  assumes "opcodeInfo op = Ok e" and "op < Cee_Count"
  shows "unat (m_opcodeLength e) = length (opcodeBytes op)"
    and "op \<noteq> Cee_Switch \<Longrightarrow> m_operandLength e = of_nat (operandTypeSize (m_type e))"
    and "m_opcodeLength e = of_nat (length (opcodeBytes op))"
    and "op = Cee_Switch \<Longrightarrow> m_operandLength e = - 1"
    and "IsFlagSet (m_flags e) ILOpcodeFlag_Branch \<Longrightarrow>
      length (opcodeBytes op) = 1 \<and> m_type e \<in> {ILOperandType_Byte, ILOperandType_Int} \<and> op \<noteq> Cee_Switch"
    and "op \<noteq> Cee_Switch \<Longrightarrow> m_type e \<noteq> ILOperandType_Switch"
  using opcodeInfo_shape [OF assms(1)] assms(2)
  by (auto simp: row_shape_def opcodeBytes_def split: if_splits)

lemma operandTypeSize_le: "operandTypeSize t \<le> 8"
  by (cases t) auto

lemma switch_class:
  assumes "wf_instr i"
  shows "GetIsSwitchInternal i \<longleftrightarrow> (\<exists>ds ts. m_class i = Switch ds ts)"
proof -
  obtain e where e: "opcodeInfo (m_opcode i) = Ok e" using assms by (rule wf_instr_info)
  show ?thesis
    using assms e opcodeInfo_shape [OF e]
    by (cases "m_class i") (auto simp: wf_instr_def wf_class_def row_shape_def GetIsSwitchInternal_def)
qed

lemma instr_size_bytes:
  assumes "wf_instr i" and "m_opcode i < Cee_Count"
  shows "instr_size i = of_nat (byte_size i)"
proof -
  obtain e where e: "opcodeInfo (m_opcode i) = Ok e" using assms(1) by (rule wf_instr_info)
  have "m_opcode i \<noteq> Cee_Switch" if "\<nexists>ds ts. m_class i = Switch ds ts"
    using switch_class [OF assms(1)] that by (simp add: GetIsSwitchInternal_def)
  then show ?thesis
    using e row_lengths(1-3) [OF e assms(2)]
    by (cases "m_class i") (simp_all add: instr_size_def GetInstructionSize_def byte_size_def)
qed

lemma length_encode_instr:
  assumes "wf_instr i" and "m_opcode i < Cee_Count"
  shows "length (encode_instr off z i) = byte_size i"
proof -
  obtain e where e: "opcodeInfo (m_opcode i) = Ok e" using assms(1) by (rule wf_instr_info)
  have "operandTypeSize (m_type e) \<le> 8" by (rule operandTypeSize_le)
  then show ?thesis
    using e assms row_lengths [OF e assms(2)]
    by (auto simp: encode_instr_def encode_operand_def byte_size_def wf_instr_def wf_class_def length_concat_const [where n = 4]
        split: iclass.splits)
qed

lemma byte_size_pos: "wf_instr i \<Longrightarrow> m_opcode i < Cee_Count \<Longrightarrow> 0 < byte_size i"
  by (erule wf_instr_info) (simp add: byte_size_def row_lengths(1) opcodeBytes_def)

lemma total_bytes_simps [simp]:
  "total_bytes w [] = 0" "total_bytes w (a # as) = bytes_at w a + total_bytes w as"
  "total_bytes w (as @ bs) = total_bytes w as + total_bytes w bs"
  by (simp_all add: total_bytes_def)

lemma encodable_node:
  assumes "graph_list w g xs" and "encodable w xs" and "a \<in> set xs"
  obtains i e where "w_instrs w a = Some i" "m_pGraph i = Some g" "wf_instr i" "m_opcode i < Cee_Count"
    "targets_in xs i" "opcodeInfo (m_opcode i) = Ok e" "bytes_at w a = byte_size i"
    "size_at w a = of_nat (byte_size i)" "0 < byte_size i"
proof -
  obtain i where i: "w_instrs w a = Some i" "m_pGraph i = Some g" "wf_instr i"
    using assms(1,3) by (rule graph_list_node)
  moreover have "m_opcode i < Cee_Count" "targets_in xs i"
    using assms(2,3) i by (auto simp: encodable_def list_all_iff split: option.splits)
  moreover obtain e where "opcodeInfo (m_opcode i) = Ok e" using i(3) by (rule wf_instr_info)
  ultimately show ?thesis
    by (intro that) (auto simp: bytes_at_def size_at_def instr_size_bytes byte_size_pos)
qed

lemma layout_bytes:
  assumes "graph_list w g (us @ a # vs)" and "encodable w (us @ a # vs)"
  shows "unat (layout w 0 (us @ a # vs) a) = total_bytes w us"
    and "layout w 0 (us @ a # vs) a = of_nat (total_bytes w us)"
proof -
  have "size_at w x = of_nat (bytes_at w x)" if "x \<in> set us" for x
    by (rule encodable_node [OF assms, of x]) (use that in simp_all)
  then have "sum_list (map (size_at w) us) = of_nat (total_bytes w us)"
    by (induction us) simp_all
  moreover have "distinct (us @ a # vs)" using assms(1) by (simp add: graph_list_def)
  ultimately show l: "layout w 0 (us @ a # vs) a = of_nat (total_bytes w us)"
    using layout_nth [of "us @ a # vs" "length us" w 0] by simp
  show "unat (layout w 0 (us @ a # vs) a) = total_bytes w us"
    unfolding l using assms(2) by (intro unat_of_nat_DWORD) (simp add: encodable_def)
qed

section \<open>Laid out graphs\<close>

text \<open>Every instruction has its offset, whether or not the graph is still marked stale.\<close>

definition laid :: "world \<Rightarrow> gid \<Rightarrow> addr list \<Rightarrow> bool" where
  "laid w g xs \<longleftrightarrow> graph_list w g xs \<and>
     list_all (\<lambda>a. case w_instrs w a of None \<Rightarrow> False | Some i \<Rightarrow> m_offset i = layout w 0 xs a) xs"

lemma laid_list: "laid w g xs \<Longrightarrow> graph_list w g xs"
  by (simp add: laid_def)

lemma laid_inv: "laid w g xs \<Longrightarrow> graph_inv w g xs"
  by (simp add: laid_def graph_inv_def)

lemma laid_offset: "laid w g xs \<Longrightarrow> a \<in> set xs \<Longrightarrow> w_instrs w a = Some i \<Longrightarrow> m_offset i = layout w 0 xs a"
  by (auto simp: laid_def list_all_iff)

lemma laid_set_fresh [simp]: "laid (set_fresh g w) g xs = laid w g xs"
  by (simp add: laid_def cong: option.case_cong)

lemma set_fresh_idem [simp]: "set_fresh g (set_fresh g w) = set_fresh g w"
  by (simp add: set_fresh_def option.map_comp comp_def)

lemma set_fresh_set_offsets: "set_offsets z xs (set_fresh g w) = set_fresh g (set_offsets z xs w)"
  by (rule world.equality) (simp_all add: set_fresh_def set_offsets_def fun_eq_iff layout_set_fresh [unfolded set_fresh_def])

lemma refreshed_laid:
  assumes "laid w g xs"
  shows "refreshed g xs w = set_fresh g w"
proof (cases "stale w g")
  case True
  have "map_option (SetOffset (layout w 0 xs a)) (w_instrs w a) = w_instrs w a" if a: "a \<in> set xs" for a
  proof -
    obtain i where i: "w_instrs w a = Some i" using laid_list [OF assms] a by (rule graph_list_node)
    then have "SetOffset (layout w 0 xs a) i = i"
      using laid_offset [OF assms a i] by (simp add: SetOffset_def)
    with i show ?thesis by simp
  qed
  then have "set_offsets 0 xs (set_fresh g w) = set_fresh g w"
    by (intro world.equality; simp?) (auto simp: set_offsets_at)
  with True show ?thesis by (simp add: refreshed_def)
next
  case False
  obtain gr where "w_graphs w g = Some gr" using laid_list [OF assms] by (rule graph_list_graph)
  with False show ?thesis by (simp add: refreshed_def set_fresh_id)
qed

lemma GetOffset_laid:
  "laid w g xs \<Longrightarrow> a \<in> set xs \<Longrightarrow> GetOffset a w = (Ok (layout w 0 xs a), set_fresh g w)"
  using GetOffset_list [OF laid_inv] by (simp add: refreshed_laid)

lemma GetOriginalOffset_laid:
  "laid w g xs \<Longrightarrow> a \<in> set xs \<Longrightarrow> w_instrs w a = Some i \<Longrightarrow>
     GetOriginalOffset a w = (Ok (m_origOffset i), set_fresh g w)"
  using GetOriginalOffset_list [OF laid_list] by (simp add: refreshed_laid)

lemma laid_set_offsets:
  assumes "graph_list w g xs"
  shows "laid (set_offsets 0 xs w) g xs"
proof -
  have "\<exists>i. w_instrs (set_offsets 0 xs w) a = Some i \<and> m_offset i = layout w 0 xs a" if "a \<in> set xs" for a
    by (rule graph_list_node [OF assms that]) (simp add: set_offsets_at that)
  with assms show ?thesis by (fastforce simp: laid_def list_all_iff split: option.splits)
qed

section \<open>Emitting one instruction\<close>

lemma store_bytes_fits:
  "i + length bs \<le> length buf \<Longrightarrow> store_bytes buf i bs = Ok (take i buf @ bs @ drop (i + length bs) buf)"
  by (simp add: store_bytes_def)

lemma store_after:
  assumes "p + length as + length bs \<le> length buf"
  shows "store_bytes (take p buf @ as @ drop (p + length as) buf) (p + length as) bs =
    Ok (take p buf @ (as @ bs) @ drop (p + (length as + length bs)) buf)"
  using assms by (simp add: store_bytes_def min_absorb1 min_absorb2 ac_simps)

lemma of_nat_le_DWORD: "m \<le> n \<Longrightarrow> n < 2 ^ 32 \<Longrightarrow> (of_nat m :: DWORD) \<le> of_nat n"
  by (simp only: word_le_nat_alt unat_of_nat_DWORD le_less_trans)

lemma emitSwitch_list:
  assumes "laid u g xs" and "w_instrs u s = Some i" and "m_class i = Switch ds ts"
    and "list_all (\<lambda>t. t \<in> Some ` set xs) ts" and "list_all (\<lambda>k. k < length ts) ks"
  shows "emitSwitch_loop s z ks u =
    (Ok (concat (map (\<lambda>k. le_bytes 4 (layout u 0 xs (the (ts ! k)) - z)) ks)), if ks = [] then u else set_fresh g u)"
  using assms
proof (induction ks arbitrary: u)
  case (Cons k ks)
  have k: "k < length ts" using Cons.prems(5) by simp
  then obtain t where t: "ts ! k = Some t" "t \<in> set xs"
    using Cons.prems(4) by (fastforce simp: list_all_length)
  have st: "Switch_GetBranchTarget s k u = (Ok (Some t), u)"
    using Cons.prems(2,3) k t by (simp add: Switch_GetBranchTarget_def Switch_targets_def)
  have "emitSwitch_loop s z ks (set_fresh g u) =
    (Ok (concat (map (\<lambda>k. le_bytes 4 (layout u 0 xs (the (ts ! k)) - z)) ks)), set_fresh g u)"
    using Cons.IH [of "set_fresh g u"] Cons.prems by simp
  then show ?case using st t GetOffset_laid [OF Cons.prems(1) t(2)] by simp
qed simp

lemma emitOperand_list:
  assumes "laid u g xs" and "w_instrs u a = Some i" and "wf_instr i" and "m_opcode i < Cee_Count"
    and "targets_in xs i" and e: "opcodeInfo (m_opcode i) = Ok e"
    and "m_offset i = z" and "curpos = z + of_nat (length (opcodeBytes (m_opcode i)))"
    and "unat curpos + length (encode_operand off z (operandTypeSize (m_type e)) (m_class i)) \<le> length buf"
    and "GetIsSwitchInternal i \<Longrightarrow> unat curpos + length (encode_operand off z 0 (m_class i)) < length buf"
    and "length buf < 2 ^ 32" and off: "off = layout u 0 xs"
  shows "\<exists>u'. u' \<in> {u, set_fresh g u} \<and> emitOperand a i e curpos buf (of_nat (length buf)) u =
    (store_bytes buf (unat curpos) (encode_operand off z (operandTypeSize (m_type e)) (m_class i)), u')"
proof -
  note rl = row_lengths [OF e assms(4)]
  have ot: "unat (of_nat (operandTypeSize (m_type e)) :: DWORD) = operandTypeSize (m_type e)"
    using operandTypeSize_le [of "m_type e"] by (intro unat_of_nat_DWORD) simp
  have br: "GetIsBranchInternal i = Ok (IsFlagSet (m_flags e) ILOpcodeFlag_Branch)"
    using e by (simp add: GetIsBranchInternal_def)
  have ul: "unat (of_nat (length buf) :: DWORD) = length buf" using assms(11) by (rule unat_of_nat_DWORD)
  have wf: "wf_class (m_opcode i) (m_class i)" using assms(3) by (simp add: wf_instr_def)
  show ?thesis
  proof (cases "m_class i")
    case Plain
    with wf e opcodeInfo_shape [OF e] have "m_operandLength e = 0 \<and> m_opcode i \<noteq> Cee_Switch \<and> \<not> IsFlagSet (m_flags e) 4"
      by (auto simp: wf_class_def row_shape_def split: if_splits)
    then show ?thesis
      using Plain br assms(9) by (simp add: emitOperand_def GetIsSwitchInternal_def encode_operand_def store_bytes_def)
  next
    case (Operand v)
    with wf e have w: "length v = 8" "m_opcode i \<noteq> Cee_Switch" "\<not> IsFlagSet (m_flags e) 4"
      by (auto simp: wf_class_def)
    have l: "unat (m_operandLength e) = operandTypeSize (m_type e)"
      "unat curpos + operandTypeSize (m_type e) \<le> length buf"
      using rl(2) w(1,2) ot assms(9) Operand operandTypeSize_le [of "m_type e"] by (simp_all add: encode_operand_def)
    show ?thesis
    proof (cases "m_operandLength e = 0")
      case True
      then show ?thesis using Operand br assms(9) w l
        by (simp add: emitOperand_def GetIsSwitchInternal_def encode_operand_def store_bytes_def)
    next
      case False
      then have "m_type e \<noteq> ILOperandType_None" "m_type e \<noteq> ILOperandType_Switch" using rl(2,6) w by auto
      then have "hasOperandValue (m_type e)" by (cases "m_type e") (simp_all add: hasOperandValue_def)
      then show ?thesis using Operand br e w l ul False
        by (simp add: emitOperand_def GetIsSwitchInternal_def encode_operand_def GetOperandValue_def)
    qed
  next
    case (Branch d t orig)
    with wf e have fl: "IsFlagSet (m_flags e) 4" by (auto simp: wf_class_def)
    obtain x where x: "t = Some x" "x \<in> set xs" using assms(5) Branch by (auto simp: targets_in_def)
    show ?thesis
      using Branch br fl x GetOffset_laid [OF assms(1) x(2)] assms(2,7) rl(2,5) ot off
      by (simp add: emitOperand_def Branch_GetBranchTarget_def encode_operand_def)
  next
    case (Switch ds ts)
    with wf e opcodeInfo_shape [OF e] have sw: "m_opcode i = Cee_Switch" "\<not> IsFlagSet (m_flags e) 4"
      by (auto simp: wf_class_def row_shape_def)
    have len: "unat curpos + (4 * (length ts + 1) + 1) \<le> length buf"
      using assms(10) Switch sw by (simp add: GetIsSwitchInternal_def encode_operand_def length_concat_const [where n = 4])
    have "of_nat (unat curpos + (4 * (length ts + 1) + 1)) \<le> (of_nat (length buf) :: DWORD)"
      using len assms(11) by (rule of_nat_le_DWORD)
    then have c: "\<not> of_nat (length buf) < curpos + m_opcodeLength e + (1 + of_nat (length ts)) * 4"
      using rl(3) sw by (simp add: opcodeBytes_def algebra_simps)
    have ts: "list_all (\<lambda>t. t \<in> Some ` set xs) ts" using assms(5) Switch by (simp add: targets_in_def)
    have "map (\<lambda>k. le_bytes 4 (layout u 0 xs (the (ts ! k)) - y)) [0..<length ts] =
        map (\<lambda>t. le_bytes 4 (layout u 0 xs (the t) - y)) ts" for y
      by (simp add: map_equality_iff)
    then have "emitSwitch_loop a y [0..<length ts] u =
        (Ok (concat (map (\<lambda>t. le_bytes 4 (layout u 0 xs (the t) - y)) ts)), if ts = [] then u else set_fresh g u)" for y
      using emitSwitch_list [OF assms(1,2) Switch ts, of "[0..<length ts]" y] by (simp add: list_all_iff)
    then show ?thesis
      using c Switch sw br assms(2,7) off
      by (simp add: emitOperand_def GetIsSwitchInternal_def Switch_targets_def encode_operand_def Let_def)
  qed
qed

lemma EmitIL_list:
  assumes "laid u g (us @ a # vs)" and "encodable u (us @ a # vs)"
    and "length buf = total_bytes u (us @ a # vs)"
  shows "\<exists>u'. u' \<in> {u, set_fresh g u} \<and> EmitIL a buf (of_nat (length buf)) u =
    (Ok (take (total_bytes u us) buf @ encode_at u (us @ a # vs) a
      @ drop (total_bytes u us + bytes_at u a) buf), u')"
proof -
  let ?xs = "us @ a # vs"
  let ?z = "layout u 0 ?xs a"
  let ?p = "total_bytes u us"
  obtain i e where i: "w_instrs u a = Some i" "wf_instr i" "m_opcode i < Cee_Count"
    "targets_in ?xs i" and e: "opcodeInfo (m_opcode i) = Ok e" and b: "bytes_at u a = byte_size i"
    by (rule encodable_node [OF laid_list [OF assms(1)] assms(2), of a]) (simp, blast)
  have z: "m_offset i = ?z" "?z = of_nat ?p" "unat ?z = ?p"
    using laid_offset [OF assms(1) _ i(1)] layout_bytes [OF laid_list [OF assms(1)] assms(2)] by simp_all
  let ?o = "opcodeBytes (m_opcode i)"
  let ?n = "operandTypeSize (m_type e)"
  let ?q = "encode_operand (layout u 0 ?xs) ?z ?n (m_class i)"
  define buf1 where "buf1 = take ?p buf @ ?o @ drop (?p + length ?o) buf"
  have bs: "byte_size i = length ?o + length ?q"
    using length_encode_instr [OF i(2,3)] e by (simp add: encode_instr_def)
  have len: "?p + length ?o + length ?q \<le> length buf" "length buf < 2 ^ 32"
    using assms(2,3) b bs by (simp_all add: encodable_def)
  have len1: "length buf1 = length buf" using len by (simp add: buf1_def)
  have ucp: "unat (?z + of_nat (length ?o)) = ?p + length ?o"
    unfolding z(2) using len unat_of_nat_DWORD [of "?p + length ?o"] by simp
  have guard: "\<not> m_offset i + m_opcodeLength e + m_operandLength e > of_nat (length buf)"
  proof (cases "m_opcode i = Cee_Switch")
    case True
    then show ?thesis using row_lengths(3,4) [OF e i(3)] len z of_nat_le_DWORD [of ?p "length buf"]
      by (simp add: opcodeBytes_def not_less)
  next
    case False
    then have "length ?q = ?n" using bs e i(2) row_lengths(1) [OF e i(3)] switch_class [of i]
      by (auto simp: byte_size_def GetIsSwitchInternal_def split: iclass.splits)
    then show ?thesis using row_lengths(2,3) [OF e i(3)] False len z of_nat_le_DWORD [of "?p + length ?o + ?n" "length buf"]
      by (simp add: not_less)
  qed
  have sw: "?p + length ?o + length (encode_operand (layout u 0 ?xs) ?z 0 (m_class i)) < length buf1"
    if s: "GetIsSwitchInternal i"
  proof -
    obtain ds ts where c: "m_class i = Switch ds ts" using switch_class [OF i(2)] s by auto
    then have q: "encode_operand (layout u 0 ?xs) ?z 0 (m_class i) = ?q" by (simp add: encode_operand_def)
    obtain y ys where y: "vs = y # ys" using assms(2) i(1) s by (cases vs) (auto simp: encodable_def isSwitch_at_def)
    have "0 < bytes_at u y"
      by (rule encodable_node [OF laid_list [OF assms(1)] assms(2), of y]) (simp_all add: y)
    then have "?p + length ?o + length ?q < length buf1" using assms(3) b bs len1 y by simp
    then show ?thesis unfolding q .
  qed
  have st: "store_bytes buf ?p ?o = Ok buf1" using len by (simp add: buf1_def store_bytes_def)
  have st1: "store_bytes buf1 (?p + length ?o) ?q =
      Ok (take ?p buf @ (?o @ ?q) @ drop (?p + byte_size i) buf)"
    unfolding buf1_def bs by (rule store_after [OF len(1)])
  obtain u' where "u' \<in> {u, set_fresh g u}" "emitOperand a i e (?z + of_nat (length ?o)) buf1 (of_nat (length buf1)) u =
      (store_bytes buf1 (?p + length ?o) ?q, u')"
    using emitOperand_list [OF assms(1) i e z(1) refl, of "layout u 0 ?xs" buf1] len len1 sw ucp by auto
  then show ?thesis
    using guard i(1) e z st st1 len1 b
    by (auto simp: EmitIL_def encode_at_def encode_instr_def)
qed
section \<open>Writing the graph\<close>

definition old_count :: "world \<Rightarrow> addr list \<Rightarrow> nat" where
  "old_count w xs = length (filter (\<lambda>a. case w_instrs w a of None \<Rightarrow> False | Some i \<Rightarrow> \<not> GetIsNew i) xs)"

lemma total_bytes_length:
  assumes "graph_list w g (us @ vs)" and "encodable w (us @ vs)"
  shows "length vs \<le> total_bytes w vs"
proof -
  have "\<forall>a \<in> set vs. 0 < bytes_at w a"
    using encodable_node [OF assms] by (metis UnCI set_append)
  then show ?thesis by (induction vs) auto
qed

lemma count_loop_list:
  assumes "graph_list w g (us @ vs)" and "encodable w (us @ vs)"
    and "length vs < n" and "b + total_bytes w vs < 2 ^ 32" and "c \<le> b"
  shows "count_loop n (nxt vs None) (of_nat c) (of_nat b) w =
    (Ok (of_nat (c + old_count w vs), of_nat (b + total_bytes w vs)), w)"
  using assms
proof (induction vs arbitrary: us n b c)
  case Nil
  then show ?case by (cases n) (auto simp: old_count_def)
next
  case (Cons v vs)
  obtain k where k: "n = Suc k" "length vs < k" using Cons.prems(3) by (cases n) auto
  obtain i where i: "w_instrs w v = Some i" "wf_instr i" "bytes_at w v = byte_size i"
      "instr_size i = of_nat (byte_size i)" "0 < byte_size i"
    by (rule encodable_node [OF Cons.prems(1,2), of v]) (simp, simp add: size_at_def)
  have nx: "m_pNextInstruction i = nxt vs None" using next_in_list [OF Cons.prems(1) i(1)] by simp
  have "of_nat b \<le> (of_nat (b + byte_size i) :: DWORD)" using Cons.prems(4) i by (intro of_nat_le_DWORD) simp_all
  moreover have "(of_nat c :: DWORD) < of_nat c + 1"
    using unat_of_nat_DWORD [of c] unat_of_nat_DWORD [of "Suc c"] Cons.prems(4,5) i
    by (simp add: word_less_nat_alt add.commute [of _ 1])
  moreover have "count_loop k (nxt vs None) (of_nat c') (of_nat (b + byte_size i)) w =
      (Ok (of_nat (c' + old_count w vs), of_nat (b + byte_size i + total_bytes w vs)), w)"
    if "c' \<le> Suc c" for c'
    using Cons.IH [of "us @ [v]" k "b + byte_size i" c'] Cons.prems k i that by simp
  from this [of c] this [of "Suc c"]
  have "count_loop k (nxt vs None) (of_nat c) (of_nat (b + byte_size i)) w =
      (Ok (of_nat (c + old_count w vs), of_nat (b + byte_size i + total_bytes w vs)), w)"
    "count_loop k (nxt vs None) (of_nat (Suc c)) (of_nat (b + byte_size i)) w =
      (Ok (of_nat (Suc c + old_count w vs), of_nat (b + byte_size i + total_bytes w vs)), w)" by simp_all
  ultimately show ?case
    using i nx k wf_instr_size [OF i(2)]
    by (simp add: IfFalseRet_def old_count_def add.assoc add.commute [of 1])
qed

lemma encode_at_set_fresh [simp]: "encode_at (set_fresh g w) xs a = encode_at w xs a"
proof -
  have "layout (set_fresh g w) 0 xs = layout w 0 xs" by (rule ext) simp
  then show ?thesis by (cases "w_instrs w a") (simp_all add: encode_at_def)
qed

lemma bytes_at_set_fresh [simp]: "bytes_at (set_fresh g w) = bytes_at w"
  by (simp add: bytes_at_def fun_eq_iff)

lemma encodable_set_fresh [simp]:
  "total_bytes (set_fresh g w) = total_bytes w" "encodable (set_fresh g w) = encodable w"
  by (simp_all add: encodable_def total_bytes_def isSwitch_at_def fun_eq_iff)

lemma ilMap_of_set_fresh [simp]: "ilMap_of (set_fresh g w) s z xs = ilMap_of w s z xs"
  by (induction xs arbitrary: s z) (auto split: option.splits)

text \<open>The pending first new instruction is the one at \<open>start\<close>, when instructions were skipped.\<close>

definition pending :: "world \<Rightarrow> addr list \<Rightarrow> DWORD \<Rightarrow> DWORD \<Rightarrow> addr option \<Rightarrow> bool" where
  "pending w xs start z p \<longleftrightarrow> (case p of None \<Rightarrow> start = z | Some a \<Rightarrow> a \<in> set xs \<and> layout w 0 xs a = start)"

lemma encode_step_bytes:
  assumes "total_bytes w us + total_bytes w (a # vs) = length buf"
    and "buf = concat (map (encode_at w xs) us) @ replicate (total_bytes w (a # vs)) 0"
    and "length (encode_at w xs a) = bytes_at w a" and "length (concat (map (encode_at w xs) us)) = total_bytes w us"
  shows "take (total_bytes w us) buf @ encode_at w xs a @ drop (total_bytes w us + bytes_at w a) buf =
    concat (map (encode_at w xs) (us @ [a])) @ replicate (total_bytes w vs) 0"
  using assms by simp

lemma length_encode_at:
  assumes "graph_list w g xs" and "encodable w xs" and "a \<in> set xs"
  shows "length (encode_at w xs a) = bytes_at w a"
  by (rule encodable_node [OF assms]) (simp add: encode_at_def bytes_at_def length_encode_instr)

lemma length_encode_list:
  assumes "graph_list w g xs" and "encodable w xs" and "set us \<subseteq> set xs"
  shows "length (concat (map (encode_at w xs) us)) = total_bytes w us"
  using assms(3) length_encode_at [OF assms(1,2)] by (induction us) auto

lemma encode_loop_list:
  assumes "laid w g (us @ vs)" and "encodable w (us @ vs)" and "length vs < n" and "u \<in> {w, set_fresh g w}"
    and "buf = concat (map (encode_at w (us @ vs)) us) @ replicate (total_bytes w vs) 0"
    and "pending w (us @ vs) start (of_nat (total_bytes w us)) p"
  shows "\<exists>u'. u' \<in> {w, set_fresh g w} \<and>
    encode_loop n (nxt vs None) (of_nat (total_bytes w (us @ vs))) buf m p u =
    (Ok (concat (map (encode_at w (us @ vs)) (us @ vs)), m @ ilMap_of w start (of_nat (total_bytes w us)) vs), u')"
  using assms
proof (induction vs arbitrary: us n u buf start p m)
  case Nil
  then show ?case by (cases n) auto
next
  case (Cons v vs)
  obtain k where k: "n = Suc k" "length vs < k" using Cons.prems(3) by (cases n) auto
  let ?xs = "us @ v # vs"
  note gl = laid_list [OF Cons.prems(1)]
  have u: "laid u g ?xs" "encodable u ?xs" "total_bytes u = total_bytes w" "encode_at u = encode_at w" "bytes_at u = bytes_at w"
    "layout u = layout w" "w_instrs u = w_instrs w" "set_fresh g u = set_fresh g w"
    using Cons.prems(1,2,4) by (auto simp: fun_eq_iff)
  obtain i where i: "w_instrs w v = Some i" "wf_instr i" "bytes_at w v = byte_size i" "instr_size i = of_nat (byte_size i)"
    by (rule encodable_node [OF gl Cons.prems(2), of v]) (simp, simp add: size_at_def)
  have nx: "m_pNextInstruction i = nxt vs None" using next_in_list [OF gl i(1)] by simp
  have lu: "length (concat (map (encode_at w ?xs) us)) = total_bytes w us"
    by (rule length_encode_list [OF gl Cons.prems(2)]) auto
  then have lb: "length buf = total_bytes w ?xs" using Cons.prems(5) by simp
  let ?buf = "concat (map (encode_at w ?xs) (us @ [v])) @ replicate (total_bytes w vs) 0"
  have eb: "take (total_bytes w us) buf @ encode_at w ?xs v @ drop (total_bytes w us + bytes_at w v) buf = ?buf"
    using lb Cons.prems(5) by (intro encode_step_bytes)
      (simp_all add: length_encode_at [OF gl Cons.prems(2)] lu)
  obtain u1 where u1: "u1 \<in> {w, set_fresh g w}" "EmitIL v buf (of_nat (total_bytes w ?xs)) u = (Ok ?buf, u1)"
    using EmitIL_list [OF u(1,2), of buf] Cons.prems(4) lb eb unfolding u by auto
  have u1': "laid u1 g ?xs" "w_instrs u1 = w_instrs w" "layout u1 = layout w" "set_fresh g u1 = set_fresh g w"
    using u1(1) Cons.prems(1) by (auto simp: fun_eq_iff)
  have lv: "layout w 0 ?xs v = of_nat (total_bytes w us)" by (rule layout_bytes(2) [OF gl Cons.prems(2)])
  have IH: "\<exists>u'. u' \<in> {w, set_fresh g w} \<and> encode_loop k (nxt vs None) (of_nat (total_bytes w ?xs)) ?buf m' p' u2 =
      (Ok (concat (map (encode_at w ?xs) ?xs), m' @ ilMap_of w start' (of_nat (total_bytes w us + byte_size i)) vs), u')"
    if "pending w ?xs start' (of_nat (total_bytes w us + byte_size i)) p'" "u2 \<in> {w, set_fresh g w}" for m' p' start' u2
    using Cons.IH [of "us @ [v]" k u2 ?buf start' p' m'] Cons.prems(1,2) k(2) that i(3) by simp
  show ?case
  proof (cases "GetIsNew i")
    case True
    have "pending w ?xs start (of_nat (total_bytes w us + byte_size i)) (if p = None then Some v else p)"
      using Cons.prems(6) lv by (auto simp: pending_def)
    from IH [OF this u1(1), of m] show ?thesis
      using k(1) u1(2) i nx u1'(2) True by (auto simp: add.assoc)
  next
    case False
    have off: "(case p of None \<Rightarrow> ret (layout w 0 ?xs v) | Some q \<Rightarrow> GetOffset q) (set_fresh g w) = (Ok start, set_fresh g w)"
      using Cons.prems(1,6) lv GetOffset_laid [of "set_fresh g w" g ?xs] by (auto simp: pending_def split: option.splits)
    have "GetOriginalOffset v u1 = (Ok (m_origOffset i), set_fresh g w)"
      using GetOriginalOffset_laid [OF u1'(1), of v i] i(1) u1' by simp
    moreover have "GetOffset v (set_fresh g w) = (Ok (layout w 0 ?xs v), set_fresh g w)"
      using GetOffset_laid [of "set_fresh g w" g ?xs v] Cons.prems(1) by simp
    ultimately show ?thesis
      using IH [of "of_nat (total_bytes w us + byte_size i)" None "set_fresh g w"
          "m @ [\<lparr>oldOffset = m_origOffset i, newOffset = start, fAccurate = True\<rparr>]"]
        k(1) u1(2) i nx u1'(2) False off by (auto simp: pending_def)
  qed
qed

lemma SetOffset_encoding [simp]:
  "byte_size (SetOffset x i) = byte_size i" "encode_instr off z (SetOffset x i) = encode_instr off z i"
  "targets_in xs (SetOffset x i) = targets_in xs i" "GetIsNew (SetOffset x i) = GetIsNew i"
  "GetIsSwitchInternal (SetOffset x i) = GetIsSwitchInternal i"
  by (cases "opcodeInfo (m_opcode i)"; simp add: byte_size_def encode_instr_def targets_in_def GetIsNew_def GetIsSwitchInternal_def)+

lemma bytes_at_set_offsets [simp]: "bytes_at (set_offsets z xs w) = bytes_at w"
  by (auto simp: bytes_at_def fun_eq_iff set_offsets_at split: option.splits)

lemma encode_at_set_offsets [simp]: "encode_at (set_offsets z ys w) xs a = encode_at w xs a"
proof -
  have "layout (set_offsets z ys w) 0 xs = layout w 0 xs" by (rule ext) simp
  then show ?thesis by (cases "w_instrs w a") (simp_all add: encode_at_def set_offsets_at)
qed

lemma encodable_set_offsets [simp]:
  "total_bytes (set_offsets z ys w) = total_bytes w" "encodable (set_offsets z ys w) xs = encodable w xs"
proof -
  show t: "total_bytes (set_offsets z ys w) = total_bytes w" by (simp add: total_bytes_def fun_eq_iff)
  have "isSwitch_at (set_offsets z ys w) a = isSwitch_at w a" for a
    by (cases "w_instrs w a") (simp_all add: isSwitch_at_def set_offsets_at)
  moreover have "(case w_instrs (set_offsets z ys w) a of None \<Rightarrow> False
      | Some i \<Rightarrow> m_opcode i < Cee_Count \<and> targets_in xs i) = (case w_instrs w a of None \<Rightarrow> False
      | Some i \<Rightarrow> m_opcode i < Cee_Count \<and> targets_in xs i)" for a
    by (cases "w_instrs w a") (simp_all add: set_offsets_at)
  ultimately show "encodable (set_offsets z ys w) xs = encodable w xs" by (simp add: encodable_def t)
qed

lemma ilMap_of_set_offsets [simp]: "ilMap_of (set_offsets y ys w) s z xs = ilMap_of w s z xs"
  by (induction xs arbitrary: s z) (auto simp: set_offsets_at split: option.splits)

lemma EncodeIL_list:
  assumes "graph_list w g xs" and "encodable w xs"
  shows "\<exists>w'. EncodeIL g w = (Ok (concat (map (encode_at w xs) xs), ilMap_of w 0 0 xs), w') \<and>
    w' \<in> {set_offsets 0 xs w, set_fresh g (set_offsets 0 xs w)}"
proof -
  obtain gr where gr: "w_graphs w g = Some gr" "m_pFirstInstruction gr = nxt xs None"
    using assms(1) by (rule graph_list_graph)
  have n: "length xs < walk_fuel w" using graph_list_length [OF assms(1)] by (simp add: walk_fuel_def)
  have "count_loop (walk_fuel w) (nxt xs None) 0 0 w = (Ok (of_nat (old_count w xs), of_nat (total_bytes w xs)), w)"
    using count_loop_list [of w g "[]" xs "walk_fuel w" 0 0] assms n by (simp add: encodable_def)
  moreover define u where "u = set_offsets 0 xs (if length xs \<le> 1 then w else set_fresh g w)"
  have "CalculateInstructionOffsets g w = (Ok (), u)"
    using CalculateInstructionOffsets_list [OF assms(1)] by (simp add: u_def)
  moreover have "walk_fuel u = walk_fuel w" by (simp add: u_def walk_fuel_def)
  moreover have "laid u g xs" using assms(1) by (simp add: u_def laid_set_offsets)
  moreover have "encodable u xs" "total_bytes u = total_bytes w" "encode_at u xs = encode_at w xs" "ilMap_of u = ilMap_of w"
    using assms(2) by (auto simp: u_def fun_eq_iff)
  ultimately show ?thesis
    using encode_loop_list [of u g "[]" xs "walk_fuel w" u "replicate (total_bytes w xs) 0" 0 None "[]"] gr n
      unat_of_nat_DWORD [of "total_bytes w xs"] assms(2)
    by (auto simp: EncodeIL_def pending_def encodable_def u_def set_fresh_set_offsets)
qed

section \<open>Properties\<close>

lemma encodableI:
  assumes "list_all (\<lambda>a. case w_instrs w a of None \<Rightarrow> False
       | Some i \<Rightarrow> m_opcode i < Cee_Count \<and> targets_in xs i) xs"
    and "total_bytes w xs = n" and "n < 2 ^ 32" and "\<not> isSwitch_at w (last xs)"
  shows "encodable w xs"
  using assms by (simp add: encodable_def)

lemma sample_encodable: "encodable sample_world [0, 1, 2, 3]"
proof (rule encodableI)
  show "total_bytes sample_world [0, 1, 2, 3] = 5" by code_simp
qed (code_simp, simp, code_simp)

text \<open>C6. On a graph whose branch and switch targets lie in it, \<^verbatim>\<open>EncodeIL\<close> succeeds, terminates,
  and returns the concatenation of the encodings of the instructions in list order, each with its
  operand or with the distances to its targets, and the IL map that has one entry for each
  instruction that is not new, in order, mapping its original offset to the offset behind the
  previous such instruction, so that inserted code belongs to the instruction after it.  The
  instructions keep their order and have their offsets afterwards.\<close>

theorem EncodeIL_encoding:
  assumes "graph_list w g xs" and "encodable w xs"
  shows "\<exists>w'. EncodeIL g w = (Ok (concat (map (encode_at w xs) xs), ilMap_of w 0 0 xs), w') \<and> laid w' g xs"
  using EncodeIL_list [OF assms] laid_set_offsets [OF assms(1)] by auto

theorem EncodeIL_encoding_witness:
  "\<exists>w'. EncodeIL 0 sample_world = (Ok (concat (map (encode_at sample_world [0, 1, 2, 3]) [0, 1, 2, 3]), ilMap_of sample_world 0 0 [0, 1, 2, 3]), w')
     \<and> laid w' 0 [0, 1, 2, 3]"
  by (rule EncodeIL_encoding [OF graph_inv_list [OF sample_graph_inv] sample_encodable])

text \<open>C20. In the bytes \<^verbatim>\<open>EncodeIL\<close> writes, the operand of a long branch is the distance from the end
  of the branch to its target: adding it to the offset of the next instruction gives the offset of
  the target.\<close>

theorem EncodeIL_branch_lands:
  assumes "graph_list w g xs" and "encodable w xs" and "k < length xs" and "w_instrs w (xs ! k) = Some i"
    and "m_class i = Branch d (Some t) orig" and "opcodeInfo (m_opcode i) = Ok e" and "m_operandLength e = 4"
  shows "\<exists>bs m w' v. EncodeIL g w = (Ok (bs, m), w') \<and>
    load_le bs (total_bytes w (take k xs) + 1) 4 = Ok v \<and>
    of_nat (total_bytes w (take k xs)) + 5 + v = layout w 0 xs t"
proof -
  let ?us = "take k xs"
  let ?vs = "drop (Suc k) xs"
  let ?a = "xs ! k"
  have xs: "xs = ?us @ ?a # ?vs" using assms(3) by (rule id_take_nth_drop)
  have op: "m_opcode i < Cee_Count" "wf_instr i"
    using encodable_node [OF assms(1,2), of ?a] assms(3,4) by (metis nth_mem option.inject)+
  have z: "layout w 0 xs ?a = of_nat (total_bytes w ?us)" using layout_bytes(2) [of w g ?us ?a ?vs] assms(1,2) xs by simp
  have fl: "IsFlagSet (m_flags e) ILOpcodeFlag_Branch" using op(2) assms(5,6) by (simp add: wf_instr_def wf_class_def)
  note rl = row_lengths(2,5) [OF assms(6) op(1)]
  have n: "operandTypeSize (m_type e) = 4" "length (opcodeBytes (m_opcode i)) = 1" using rl fl assms(7) by auto
  let ?v = "layout w 0 xs t - (layout w 0 xs ?a + 1 + 4)"
  have "encode_at w xs ?a = opcodeBytes (m_opcode i) @ le_bytes 4 ?v"
    using assms(4-6) n by (simp add: encode_at_def encode_instr_def encode_operand_def)
  then have "concat (map (encode_at w xs) xs) =
      (concat (map (encode_at w xs) ?us) @ opcodeBytes (m_opcode i)) @ le_bytes 4 ?v @ concat (map (encode_at w xs) ?vs)"
    using concat_map_split [OF assms(3), of "encode_at w xs"] by simp
  moreover have "length (concat (map (encode_at w xs) ?us)) = total_bytes w ?us"
    by (rule length_encode_list [OF assms(1,2) set_take_subset])
  ultimately have "load_le (concat (map (encode_at w xs) xs)) (total_bytes w ?us + 1) 4 = Ok ?v"
    using n load_le_append [where 'a = 32 and n = 4 and w = ?v and i = "total_bytes w ?us + 1"
        and pre = "concat (map (encode_at w xs) ?us) @ opcodeBytes (m_opcode i)"] by simp
  moreover have "of_nat (total_bytes w ?us) + 5 + ?v = layout w 0 xs t" using z by simp
  ultimately show ?thesis using EncodeIL_list [OF assms(1,2)] by blast
qed

definition expanded_world :: world where
  "expanded_world = snd (ExpandBranches 0 sample_world)"

theorem EncodeIL_branch_lands_witness:
  "\<exists>bs m w' v. EncodeIL 0 expanded_world = (Ok (bs, m), w') \<and>
    load_le bs (total_bytes expanded_world (take 1 [0, 1, 2, 3]) + 1) 4 = Ok v \<and>
    of_nat (total_bytes expanded_world (take 1 [0, 1, 2, 3])) + 5 + v = layout expanded_world 0 [0, 1, 2, 3] 3"
proof -
  have g: "graph_list expanded_world 0 [0, 1, 2, 3]" by code_simp
  have "total_bytes expanded_world [0, 1, 2, 3] = 8" by code_simp
  then have en: "encodable expanded_world [0, 1, 2, 3]" by (rule encodableI [rotated]) (simp, code_simp, code_simp)
  have b: "map_option (\<lambda>i. (m_opcode i, m_class i)) (w_instrs expanded_world 1) = Some (Cee_Brfalse, Branch 3 (Some 3) (Some 3))"
    by code_simp
  have r: "bindR (opcodeInfo Cee_Brfalse) (\<lambda>e. Ok (m_operandLength e)) = Ok 4" by code_simp
  from b obtain i where i: "w_instrs expanded_world 1 = Some i" "m_opcode i = Cee_Brfalse" "m_class i = Branch 3 (Some 3) (Some 3)" by auto
  from r obtain e where e: "opcodeInfo Cee_Brfalse = Ok e" "m_operandLength e = 4" by (auto simp: bindR_Ok_iff)
  show ?thesis
    using EncodeIL_branch_lands [OF g en, of 1 i 3 3 "Some 3" e] i e by simp
qed

end
