(* ===== verification/Decode.thy ===== *)
theory Decode
  imports EncodeIL
begin

text \<open>
  What \<^verbatim>\<open>CInstructionGraph::DecodeInstructions\<close> builds from a well-formed IL stream, and that
  writing it back gives the same bytes.
\<close>

section \<open>Well-formed streams\<close>

text \<open>The instructions from position \<open>p\<close> on, with their positions; \<^const>\<open>None\<close> when the stream is
  cut or does not decode.\<close>

fun il_parse :: "nat \<Rightarrow> byte list \<Rightarrow> nat \<Rightarrow> nat \<Rightarrow> (nat \<times> instr) list option" where
  "il_parse 0 mem p e = None"
| "il_parse (Suc n) mem p e = (if p = e then Some [] else
     if mem ! p = 0xFE \<and> p + 1 = e then None
     else (case InstructionFromBytes mem p e of
         Ok i \<Rightarrow> if m_opcode i < Cee_Count \<and> p + byte_size i \<le> e
           then map_option (Cons (p, i)) (il_parse n mem (p + byte_size i) e) else None
       | _ \<Rightarrow> None))"

text \<open>Branch targets are starts of instructions; offsets are relative to the code base.\<close>

definition il_targets_ok :: "nat \<Rightarrow> (nat \<times> instr) list \<Rightarrow> bool" where
  "il_targets_ok base ps \<longleftrightarrow> (let offsets = map (\<lambda>(p, i). of_nat (p - base) :: DWORD) ps in
     list_all (\<lambda>(p, i). case m_class i of
         Branch d _ _ \<Rightarrow> d + of_nat (p - base) \<in> set offsets
       | Switch ds _ \<Rightarrow> list_all (\<lambda>d. d + of_nat (p - base + byte_size i) \<in> set offsets) ds
       | _ \<Rightarrow> True) ps)"

definition valid_il :: "byte list \<Rightarrow> nat \<Rightarrow> nat \<Rightarrow> (nat \<times> instr) list \<Rightarrow> bool" where
  "valid_il mem base e ps \<longleftrightarrow> base \<le> e \<and> e \<le> length mem \<and> e - base < 2 ^ 32 \<and>
     il_parse (e - base + 1) mem base e = Some ps \<and> il_targets_ok base ps \<and>
     (ps = [] \<or> \<not> GetIsSwitchInternal (snd (last ps)))"

section \<open>Decoding one instruction\<close>

text \<open>The class of a decoded instruction: no target is known yet.\<close>

definition raw_class :: "iclass \<Rightarrow> bool" where
  "raw_class c \<longleftrightarrow> (case c of Plain \<Rightarrow> True | Operand v \<Rightarrow> length v = 8
     | Branch d t t' \<Rightarrow> t = None \<and> t' = None | Switch ds ts \<Rightarrow> ts = replicate (length ds) None)"

text \<open>The class with its targets found in the offset map.\<close>

definition resolve :: "(DWORD \<Rightarrow> addr option) \<Rightarrow> DWORD \<Rightarrow> DWORD \<Rightarrow> iclass \<Rightarrow> iclass" where
  "resolve om off next c = (case c of
       Branch d _ _ \<Rightarrow> Branch d (om (d + off)) (om (d + off))
     | Switch ds _ \<Rightarrow> Switch ds (map (\<lambda>d. om (d + next)) ds)
     | c \<Rightarrow> c)"

lemma readSwitchOffsets_bytes:
  assumes "readSwitchOffsets mem p n = Ok ds"
  shows "length ds = n \<and> concat (map (le_bytes 4) ds) = take (4 * n) (drop p mem)"
  using assms
proof (induction n arbitrary: p ds)
  case (Suc n)
  then obtain d es where d: "load_le mem p 4 = Ok d" "readSwitchOffsets mem (p + 4) n = Ok es" "ds = d # es"
    by (auto simp: bindR_Ok_iff)
  have "le_bytes 4 d = take 4 (drop p mem)" using d(1) by (rule le_bytes_load) simp
  moreover have "take (4 * Suc n) (drop p mem) = take 4 (drop p mem) @ take (4 * n) (drop (p + 4) mem)"
    using take_add [of 4 "4 * n" "drop p mem"] by (simp add: ac_simps)
  ultimately show ?case using Suc.IH [OF d(2)] d(3) by simp
qed simp

text \<open>Opcode bytes: reading and writing agree except for a lone prefix byte.\<close>

lemma opcode_bytes_read:
  assumes "OrdinalOpcodeFromBytes mem p e = Ok (hr, op)" and "\<not> (mem ! p = 0xFE \<and> p + 1 = e)"
    and "p < e" and "e \<le> length mem"
  shows "opcodeBytes op = take (length (opcodeBytes op)) (drop p mem) \<and> 0 \<le> op"
proof (cases "mem ! p = 0xFE")
  case True
  then have p: "Suc p < e" using assms(2,3) by simp
  let ?v = "0x100 OR ucast (mem ! Suc p) :: DWORD"
  have op: "op = uint ?v" using assms(1,3,4) p True by (simp add: OrdinalOpcodeFromBytes_def mem_at_def)
  have h: "(0x100 :: DWORD) = push_bit 8 1" by simp
  have "bit ?v 8" by (simp add: h bit_simps del: push_bit_of_1)
  then have "unat ?v \<ge> 256" using small_word_bits [of ?v 8 8] by force
  then have ge: "uint ?v \<ge> 256" unfolding uint_nat by linarith
  have "(ucast ?v :: byte) = mem ! Suc p"
    unfolding h by (rule bit_word_eqI) (auto simp: bit_simps simp del: push_bit_of_1)
  then have "(of_int op :: byte) = mem ! Suc p" by (simp add: op)
  moreover have "take (Suc (Suc 0)) (drop p mem) = [mem ! p, mem ! Suc p]"
    using p assms(4) by (simp add: take_Suc_conv_app_nth [of 0] take_Suc hd_drop_conv_nth drop_Suc [symmetric] tl_drop)
  ultimately show ?thesis using ge True by (simp add: opcodeBytes_def op)
next
  case False
  then have "op = uint (mem ! p)" using assms(1,3,4) by (simp add: OrdinalOpcodeFromBytes_def mem_at_def)
  moreover have "uint (mem ! p) < 256" using uint_lt2p [of "mem ! p"] by simp
  moreover have "take 1 (drop p mem) = [mem ! p]" using assms(3,4) by (simp add: take_Suc_conv_app_nth hd_drop_conv_nth take_Suc)
  ultimately show ?thesis by (simp add: opcodeBytes_def)
qed

lemma InstructionFromBytes_cases:
  assumes "InstructionFromBytes mem p e = Ok i"
  obtains hr row where "OrdinalOpcodeFromBytes mem p e = Ok (hr, m_opcode i)" "opcodeInfo (m_opcode i) = Ok row"
    "(m_opcode i = Cee_Switch \<and> CSwitchInstruction_InitializeFromBytes mem p e (new_CSwitchInstruction (m_opcode i) False 0) = Ok i
      \<or> m_opcode i \<noteq> Cee_Switch \<and> IsFlagSet (m_flags row) ILOpcodeFlag_Branch \<and>
         CBranchInstruction_InitializeFromBytes mem p e (new_CBranchInstruction (m_opcode i) False) = Ok i
      \<or> m_opcode i \<noteq> Cee_Switch \<and> \<not> IsFlagSet (m_flags row) ILOpcodeFlag_Branch \<and> m_type row = ILOperandType_None \<and>
         i = new_CInstruction (m_opcode i) False
      \<or> m_opcode i \<noteq> Cee_Switch \<and> \<not> IsFlagSet (m_flags row) ILOpcodeFlag_Branch \<and> m_type row \<noteq> ILOperandType_None \<and>
         hasOperandValue (m_type row) \<and>
         COperandInstruction_InitializeFromBytes mem p e (new_COperandInstruction (m_opcode i) False) = Ok i)"
proof -
  have op: "m_opcode j = m_opcode i" if "COperandInstruction_InitializeFromBytes mem p e j = Ok i" for j
    using that by (auto simp: COperandInstruction_InitializeFromBytes_def storeValue_def bindR_Ok_iff Let_def
        split: if_splits iclass.splits)
  have br: "m_opcode j = m_opcode i" if "CBranchInstruction_InitializeFromBytes mem p e j = Ok i" for j
    using that by (cases "m_class j") (auto simp: CBranchInstruction_InitializeFromBytes_def bindR_Ok_iff Let_def
        split: if_splits)
  have sw: "m_opcode j = m_opcode i" if "CSwitchInstruction_InitializeFromBytes mem p e j = Ok i" for j
    using that by (cases "m_class j") (auto simp: CSwitchInstruction_InitializeFromBytes_def bindR_Ok_iff Let_def
        split: if_splits)
  obtain hr x row where x: "OrdinalOpcodeFromBytes mem p e = Ok (hr, x)" "opcodeInfo x = Ok row"
    and r: "(if x = Cee_Switch then CSwitchInstruction_InitializeFromBytes mem p e (new_CSwitchInstruction x False 0)
         else if m_flags row AND ILOpcodeFlag_Branch \<noteq> 0 then
           CBranchInstruction_InitializeFromBytes mem p e (new_CBranchInstruction x False)
         else if m_type row = ILOperandType_None then Ok (new_CInstruction x False)
         else if hasOperandValue (m_type row) then
           COperandInstruction_InitializeFromBytes mem p e (new_COperandInstruction x False)
         else Fail E_FAIL) = Ok i"
    using assms by (auto simp: InstructionFromBytes_def bindR_Ok_iff split: prod.splits if_splits)
  have "x = m_opcode i"
    using r by (auto dest!: op br sw simp: new_CSwitchInstruction_def new_CBranchInstruction_def new_COperandInstruction_def
        new_CInstruction_def split: if_splits)
  with x r show thesis by (intro that [of hr row]) (auto simp: IsFlagSet_def split: if_splits)
qed

lemma operand_bytes_Operand:
  assumes "COperandInstruction_InitializeFromBytes mem p e (new_COperandInstruction op False) = Ok i"
    and "opcodeInfo op = Ok row" and "hasOperandValue (m_type row)"
  shows "\<exists>v. i = (new_CInstruction op False) \<lparr> m_class := Operand v \<rparr> \<and> length v = 8 \<and>
    take (operandTypeSize (m_type row)) v = take (operandTypeSize (m_type row)) (drop (p + unat (m_opcodeLength row)) mem)"
proof -
  let ?n = "operandTypeSize (m_type row)"
  let ?d = "take ?n (drop (p + unat (m_opcodeLength row)) mem)"
  have "?n \<le> 8" by (rule operandTypeSize_le)
  moreover have "length ?d = ?n \<and> i = (new_CInstruction op False) \<lparr> m_class := Operand (?d @ drop ?n (replicate 8 0)) \<rparr>"
    using assms by (auto simp: COperandInstruction_InitializeFromBytes_def new_COperandInstruction_def new_CInstruction_def
        storeValue_def Let_def split: if_splits)
  ultimately show ?thesis by (intro exI [of _ "?d @ drop ?n (replicate 8 0)"]) simp
qed

lemma operand_bytes_Branch:
  assumes "CBranchInstruction_InitializeFromBytes mem p e (new_CBranchInstruction op False) = Ok i"
    and "opcodeInfo op = Ok row" and "op < Cee_Count" and "IsFlagSet (m_flags row) ILOpcodeFlag_Branch"
  shows "\<exists>d. i = (new_CInstruction op False) \<lparr> m_class := Branch d None None \<rparr> \<and>
    le_bytes (operandTypeSize (m_type row)) (d - (1 + of_nat (operandTypeSize (m_type row)))) =
      take (operandTypeSize (m_type row)) (drop (p + unat (m_opcodeLength row)) mem)"
proof -
  let ?q = "p + unat (m_opcodeLength row)"
  note rl = row_lengths(3,5) [OF assms(2,3)]
  have ol: "m_opcodeLength row = 1" using rl assms(4) by simp
  have ty: "m_type row = (if op < Cee_Br \<or> op = Cee_Leave_S then ILOperandType_Byte else ILOperandType_Int)"
    using opcodeInfo_shape [OF assms(2)] assms(4) by (simp add: row_shape_def)
  show ?thesis
  proof (cases "op < Cee_Br \<or> op = Cee_Leave_S")
    case True
    then obtain c where c: "mem_at mem ?q = Ok c" "i = (new_CInstruction op False) \<lparr> m_class := Branch (scast c + 1 + 1) None None \<rparr>"
      using assms ol by (auto simp: CBranchInstruction_InitializeFromBytes_def new_CBranchInstruction_def new_CInstruction_def
        IsShortBranch_def bindR_Ok_iff Let_def split: if_splits)
    have "take 1 (drop ?q mem) = [c]"
      using c(1) by (simp add: mem_at_def take_Suc hd_drop_conv_nth split: if_splits)
    moreover have "(ucast (scast c :: DWORD) :: byte) = c"
      by (rule bit_word_eqI) (simp add: bit_simps)
    ultimately show ?thesis using c ty True by (intro exI [of _ "scast c + 1 + 1"]) simp
  next
    case False
    then obtain v where v: "load_le mem ?q 4 = Ok v" "i = (new_CInstruction op False) \<lparr> m_class := Branch (v + 1 + 4) None None \<rparr>"
      using assms ol by (auto simp: CBranchInstruction_InitializeFromBytes_def new_CBranchInstruction_def new_CInstruction_def
        IsShortBranch_def bindR_Ok_iff Let_def split: if_splits)
    have "le_bytes 4 v = take 4 (drop ?q mem)" using v(1) by (rule le_bytes_load) simp
    then show ?thesis using v ty False by (intro exI [of _ "v + 1 + 4"]) simp
  qed
qed

lemma operand_bytes_Switch:
  assumes "CSwitchInstruction_InitializeFromBytes mem p e (new_CSwitchInstruction op False 0) = Ok i"
    and "opcodeInfo op = Ok row"
  shows "\<exists>ds. i = (new_CInstruction op False) \<lparr> m_class := Switch ds (replicate (length ds) None) \<rparr> \<and>
    le_bytes 4 (of_nat (length ds) :: DWORD) @ concat (map (le_bytes 4) ds) =
      take (4 * (length ds + 1)) (drop (p + unat (m_opcodeLength row)) mem)"
proof -
  let ?q = "p + unat (m_opcodeLength row)"
  obtain c :: DWORD and ds where c: "load_le mem ?q 4 = Ok c" "readSwitchOffsets mem (?q + 4) (unat c) = Ok ds"
    "i = (new_CInstruction op False) \<lparr> m_class := Switch ds (replicate (length ds) None) \<rparr>"
    using assms by (auto simp: CSwitchInstruction_InitializeFromBytes_def new_CSwitchInstruction_def new_CInstruction_def
        bindR_Ok_iff Let_def)
  note r = readSwitchOffsets_bytes [OF c(2)]
  have "of_nat (length ds) = c" using r by simp
  moreover have "le_bytes 4 c = take 4 (drop ?q mem)" using c(1) by (rule le_bytes_load) simp
  moreover have "take (4 * (length ds + 1)) (drop ?q mem) = take 4 (drop ?q mem) @ take (4 * length ds) (drop (?q + 4) mem)"
    using take_add [of 4 "4 * length ds" "drop ?q mem"] by (simp add: ac_simps)
  ultimately show ?thesis using r c(3) by (intro exI [of _ ds]) simp
qed

lemma new_CInstruction_simps [simp]:
  "m_opcode (new_CInstruction op b) = op" "m_class (new_CInstruction op b) = Plain"
  "m_pGraph (new_CInstruction op b) = None" "m_branchInfo (new_CInstruction op b) = None"
  "m_pOriginalNextInstruction (new_CInstruction op b) = None"
  "m_pOriginalPreviousInstruction (new_CInstruction op b) = None"
  "m_pNextInstruction (new_CInstruction op b) = None" "m_pPreviousInstruction (new_CInstruction op b) = None"
  "m_instructionGeneration (new_CInstruction op b) = (if b then Generation_New else Generation_Original)"
  by (simp_all add: new_CInstruction_def)

text \<open>The four kinds of decoded instruction, with their operand bytes.\<close>

lemma decoded_cases:
  assumes "InstructionFromBytes mem p e = Ok i" and "m_opcode i = op" and "op < Cee_Count" and "opcodeInfo op = Ok row"
  obtains (P) "i = new_CInstruction (op) False" "m_type row = ILOperandType_None"
      "op \<noteq> Cee_Switch"
  | (O) v where "i = (new_CInstruction (op) False) \<lparr> m_class := Operand v \<rparr>" "length v = 8"
      "take (operandTypeSize (m_type row)) v = take (operandTypeSize (m_type row)) (drop (p + unat (m_opcodeLength row)) mem)"
      "op \<noteq> Cee_Switch" "\<not> IsFlagSet (m_flags row) ILOpcodeFlag_Branch"
  | (B) d where "i = (new_CInstruction (op) False) \<lparr> m_class := Branch d None None \<rparr>"
      "le_bytes (operandTypeSize (m_type row)) (d - (1 + of_nat (operandTypeSize (m_type row)))) =
        take (operandTypeSize (m_type row)) (drop (p + unat (m_opcodeLength row)) mem)"
      "op \<noteq> Cee_Switch" "IsFlagSet (m_flags row) ILOpcodeFlag_Branch"
  | (S) ds where "i = (new_CInstruction (op) False) \<lparr> m_class := Switch ds (replicate (length ds) None) \<rparr>"
      "le_bytes 4 (of_nat (length ds) :: DWORD) @ concat (map (le_bytes 4) ds) =
        take (4 * (length ds + 1)) (drop (p + unat (m_opcodeLength row)) mem)" "op = Cee_Switch"
proof -
  obtain hr where c: "(op = Cee_Switch \<and> CSwitchInstruction_InitializeFromBytes mem p e (new_CSwitchInstruction op False 0) = Ok i
      \<or> op \<noteq> Cee_Switch \<and> IsFlagSet (m_flags row) ILOpcodeFlag_Branch \<and>
         CBranchInstruction_InitializeFromBytes mem p e (new_CBranchInstruction op False) = Ok i
      \<or> op \<noteq> Cee_Switch \<and> \<not> IsFlagSet (m_flags row) ILOpcodeFlag_Branch \<and> m_type row = ILOperandType_None \<and>
         i = new_CInstruction op False
      \<or> op \<noteq> Cee_Switch \<and> \<not> IsFlagSet (m_flags row) ILOpcodeFlag_Branch \<and> m_type row \<noteq> ILOperandType_None \<and>
         hasOperandValue (m_type row) \<and>
         COperandInstruction_InitializeFromBytes mem p e (new_COperandInstruction op False) = Ok i)"
    by (rule InstructionFromBytes_cases [OF assms(1)]) (use assms(2,4) in auto)
  then consider "op = Cee_Switch" "CSwitchInstruction_InitializeFromBytes mem p e (new_CSwitchInstruction op False 0) = Ok i"
    | "op \<noteq> Cee_Switch" "IsFlagSet (m_flags row) ILOpcodeFlag_Branch"
        "CBranchInstruction_InitializeFromBytes mem p e (new_CBranchInstruction op False) = Ok i"
    | "op \<noteq> Cee_Switch" "m_type row = ILOperandType_None" "i = new_CInstruction op False"
    | "op \<noteq> Cee_Switch" "\<not> IsFlagSet (m_flags row) ILOpcodeFlag_Branch" "hasOperandValue (m_type row)"
        "COperandInstruction_InitializeFromBytes mem p e (new_COperandInstruction op False) = Ok i"
    by blast
  then show thesis
  proof cases
    case 1 then show thesis using operand_bytes_Switch [OF 1(2) assms(4)] S by blast
  next
    case 2 then show thesis using operand_bytes_Branch [OF 2(3) assms(4,3) 2(2)] B by blast
  next
    case 3 then show thesis by (intro P)
  next
    case 4 then show thesis using operand_bytes_Operand [OF 4(4) assms(4) 4(3)] O by blast
  qed
qed

lemma InstructionFromBytes_shape:
  assumes "InstructionFromBytes mem p e = Ok i" and "m_opcode i = op" and "op < Cee_Count"
  shows "i = (new_CInstruction op False) \<lparr> m_class := m_class i \<rparr>"
    and "raw_class (m_class i)" and "wf_instr i"
proof -
  obtain row where r: "opcodeInfo op = Ok row" by (rule InstructionFromBytes_cases [OF assms(1)]) (use assms(2) in simp)
  have pl: "(new_CInstruction op False) \<lparr> m_class := Plain \<rparr> = new_CInstruction op False" by (simp add: new_CInstruction_def)
  have "i = (new_CInstruction op False) \<lparr> m_class := m_class i \<rparr> \<and> raw_class (m_class i) \<and> wf_class op (m_class i)"
    using assms r by (cases rule: decoded_cases) (use r in \<open>simp_all add: wf_class_def raw_class_def pl\<close>)
  then show "i = (new_CInstruction op False) \<lparr> m_class := m_class i \<rparr>"
    "raw_class (m_class i)" "wf_instr i" using assms(2) by (simp_all add: wf_instr_def)
qed

lemma encode_decoded:
  assumes "InstructionFromBytes mem p e = Ok i" and "m_opcode i = op" and "op < Cee_Count"
    and "resolve om z (z + of_nat (byte_size i)) (m_class i) = c"
    and "\<And>x t. om x = Some t \<Longrightarrow> off t = x"
    and "targets_in xs (i \<lparr> m_class := c \<rparr>)" and "p < e" and "e \<le> length mem" and "\<not> (mem ! p = 0xFE \<and> p + 1 = e)"
  shows "encode_instr off z (i \<lparr> m_class := c \<rparr>) = take (byte_size i) (drop p mem)"
proof -
  obtain hr row where o: "OrdinalOpcodeFromBytes mem p e = Ok (hr, op)" and r: "opcodeInfo op = Ok row"
    by (rule InstructionFromBytes_cases [OF assms(1)]) (use assms(2) in simp)
  let ?o = "opcodeBytes op"
  let ?n = "operandTypeSize (m_type row)"
  have ob: "?o = take (length ?o) (drop p mem)" using opcode_bytes_read [OF o assms(9,7,8)] by simp
  note rl = row_lengths(1,5) [OF r assms(3)]
  have bs: "byte_size i = length ?o + (case m_class i of Switch _ ts \<Rightarrow> 4 * (length ts + 1) | _ \<Rightarrow> ?n)"
    using r rl(1) assms(2) by (simp add: byte_size_def)
  have "encode_operand off z ?n c = take (byte_size i - length ?o) (drop (p + length ?o) mem)"
    using assms(1,2,3) r
  proof (cases rule: decoded_cases)
    case P
    then show ?thesis using bs assms(4) by (auto simp: resolve_def encode_operand_def)
  next
    case (O v)
    then show ?thesis using bs assms(4) rl by (auto simp: resolve_def encode_operand_def)
  next
    case (B d)
    then obtain t where t: "om (d + z) = Some t" using assms(4,6) by (auto simp: resolve_def targets_in_def)
    have "d + z - (z + 1 + of_nat ?n) = d - (1 + of_nat ?n)" by simp
    with B t show ?thesis using bs assms(4) rl assms(5) [OF t] by (auto simp: resolve_def encode_operand_def)
  next
    case (S ds)
    let ?x = "z + of_nat (byte_size i)"
    have nx: "?x = z + 1 + (1 + of_nat (length ds)) * 4" using bs S by (simp add: opcodeBytes_def)
    have mc: "m_class i = Switch ds (replicate (length ds) None)" using S(1) by simp
    have t: "off (the (om (d + ?x))) - ?x = d" if d: "d \<in> set ds" for d
    proof -
      have "om (d + ?x) \<in> Some ` set xs"
        using assms(4,6) mc d by (auto simp: resolve_def targets_in_def list_all_iff)
      with assms(5) show ?thesis by force
    qed
    have m: "map (\<lambda>d. le_bytes 4 (off (the (om (d + ?x))) - (z + 1 + (1 + of_nat (length ds)) * 4))) ds = map (le_bytes 4) ds"
      unfolding nx [symmetric] by (rule map_cong [OF refl]) (simp only: t)
    have "c = Switch ds (map (\<lambda>d. om (d + ?x)) ds)" using assms(4) mc by (simp add: resolve_def)
    with arg_cong [OF m, of concat] have "encode_operand off z ?n c = le_bytes 4 (of_nat (length ds) :: DWORD) @ concat (map (le_bytes 4) ds)"
      by (simp add: encode_operand_def comp_def)
    then show ?thesis using bs S(2) mc rl(1) by simp
  qed
  then show ?thesis
    using take_add [of "length ?o" "byte_size i - length ?o" "drop p mem"] ob bs r assms(2)
    by (simp add: encode_instr_def ac_simps)
qed

end
