(* ===== verification/DecodeGraph.thy ===== *)
theory DecodeGraph
  imports Decode
begin

text \<open>
  What the two passes of \<^verbatim>\<open>CInstructionGraph::DecodeInstructions\<close> build from a well-formed IL
  stream: the first links fresh instruction objects and indexes them by offset, the second walks
  back and sets the branch targets.  The result is a graph that \<^verbatim>\<open>EncodeIL\<close> writes back byte
  for byte.
\<close>

section \<open>First pass: linking\<close>

fun parsed :: "byte list \<Rightarrow> nat \<Rightarrow> nat \<Rightarrow> (nat \<times> instr) list \<Rightarrow> bool" where
  "parsed mem e p [] \<longleftrightarrow> p = e"
| "parsed mem e p ((q, i) # ps) \<longleftrightarrow> q = p \<and> p < e \<and> \<not> (mem ! p = 0xFE \<and> p + 1 = e) \<and>
     InstructionFromBytes mem p e = Ok i \<and> m_opcode i < Cee_Count \<and> p + byte_size i \<le> e \<and>
     parsed mem e (p + byte_size i) ps"

lemma il_parse_parsed: "il_parse n mem p e = Some ps \<Longrightarrow> p \<le> e \<Longrightarrow> parsed mem e p ps"
  by (induction n arbitrary: p ps) (auto split: if_splits result.splits)

lemma parsed_size:
  assumes "InstructionFromBytes mem p e = Ok i" and "m_opcode i < Cee_Count"
  shows "0 < byte_size i" and "instr_size i = of_nat (byte_size i)"
  using InstructionFromBytes_shape(3) [OF assms(1) refl assms(2)] assms(2)
  by (simp_all add: byte_size_pos instr_size_bytes)

lemma parsed_length: "parsed mem e p ps \<Longrightarrow> p + length ps \<le> e"
  by (induction ps arbitrary: p) (fastforce dest: parsed_size(1))+

text \<open>The object of a decoded instruction after it was linked into the graph.\<close>

definition node :: "gid \<Rightarrow> addr option \<Rightarrow> addr option \<Rightarrow> DWORD \<Rightarrow> instr \<Rightarrow> instr" where
  "node g prev nx off i = i \<lparr> m_pGraph := Some g, m_pPreviousInstruction := prev, m_pOriginalPreviousInstruction := prev,
     m_pNextInstruction := nx, m_pOriginalNextInstruction := nx, m_offset := off, m_origOffset := off \<rparr>"

fun nodes :: "(addr \<Rightarrow> instr option) \<Rightarrow> gid \<Rightarrow> nat \<Rightarrow> addr option \<Rightarrow> addr \<Rightarrow> (nat \<times> instr) list \<Rightarrow> bool" where
  "nodes h g base prev a [] = True"
| "nodes h g base prev a ((p, i) # ps) =
     (h a = Some (node g prev (if ps = [] then None else Some (Suc a)) (of_nat (p - base)) i) \<and>
      nodes h g base (Some a) (Suc a) ps)"

fun om_of :: "nat \<Rightarrow> addr \<Rightarrow> (nat \<times> instr) list \<Rightarrow> (DWORD \<Rightarrow> addr option) \<Rightarrow> DWORD \<Rightarrow> addr option" where
  "om_of base a [] om = om"
| "om_of base a ((p, i) # ps) om = om_of base (Suc a) ps (om(of_nat (p - base) \<mapsto> a))"

definition link :: "addr option \<Rightarrow> addr \<Rightarrow> (addr \<Rightarrow> instr option) \<Rightarrow> addr \<Rightarrow> instr option" where
  "link prev a h = (\<lambda>x. if prev = Some x
     then map_option (\<lambda>j. j \<lparr> m_pNextInstruction := Some a, m_pOriginalNextInstruction := Some a \<rparr>) (h x) else h x)"

lemma decode_step:
  assumes "w_instrs w a = Some i" and "i = (new_CInstruction op False) \<lparr> m_class := c \<rparr>" and "wf_instr i"
    and "case prev of None \<Rightarrow> True | Some q \<Rightarrow> q \<noteq> a \<and> (\<exists>j. w_instrs w q = Some j \<and> m_pOriginalNextInstruction j = None)"
  shows "decode_loop (Suc n) g mem B e p a prev om w =
    (let w1 = w \<lparr> w_instrs := (link prev a (w_instrs w))(a \<mapsto> node g prev None (of_nat (p - B)) i) \<rparr>;
         p1 = p + unat (instr_size i); om1 = om(of_nat (p - B) \<mapsto> a) in
     if p1 \<ge> e then (Ok (a, om1), w1)
     else IfFailRet (decode_one mem p1 e) (\<lambda>a'. decode_loop n g mem B e p1 a' (Some a) om1) w1)"
proof -
  let ?o = "of_nat (p - B) :: DWORD"
  let ?i = "i \<lparr> m_pGraph := Some g, m_pPreviousInstruction := prev, m_pOriginalPreviousInstruction := prev \<rparr>"
  let ?n = "node g prev None ?o i"
  have sp: "SetPreviousInstruction prev True (i \<lparr> m_pGraph := Some g \<rparr>) = ?i"
    by (simp add: SetPreviousInstruction_def assms(2))
  have so: "SetOriginalOffset ?o (SetOffset ?o ?i) = ?n"
    by (simp add: SetOriginalOffset_def SetOffset_def node_def assms(2))
  have sz: "GetInstructionSize ?n = Ok (instr_size i)"
    using wf_instr_size [OF assms(3)] instr_size_frame(3) [of ?n i] by (simp add: node_def)
  have g0: "m_pGraph i = None" by (simp add: assms(2))
  define w0 where "w0 = (case prev of None \<Rightarrow> put_instr a ?i w
    | Some q \<Rightarrow> put_instr q (SetNextInstruction (Some a) True (the (w_instrs w q))) (put_instr a ?i w))"
  have w0: "(case prev of None \<Rightarrow> ret () | Some q \<Rightarrow> upd_instr q (SetNextInstruction (Some a) True)) (put_instr a ?i w) = (Ok (), w0)"
    using assms(4) by (auto simp: w0_def split: option.splits)
  have a0: "w_instrs w0 a = Some ?i" using assms(4) by (auto simp: w0_def split: option.splits)
  have "put_instr a ?n w0 = w \<lparr> w_instrs := (link prev a (w_instrs w))(a \<mapsto> ?n) \<rparr>"
    using assms(4) by (auto simp: w0_def put_instr_def link_def SetNextInstruction_def fun_eq_iff split: option.splits)
  then show ?thesis
    using assms(1) g0 sp so sz w0 a0
    by (simp add: SetGraph_def IfFalseRet_def Let_def)
qed

lemma decode_loop_list:
  assumes "parsed mem e p ((p, i) # ps)" and "w_instrs w a = Some i" and "w_next w = Suc a" and "length ps < n"
    and "e - p < 2 ^ 32"
    and "case prev of None \<Rightarrow> True | Some q \<Rightarrow> q < a \<and> (\<exists>j. w_instrs w q = Some j \<and> m_pOriginalNextInstruction j = None)"
  shows "\<exists>h. decode_loop n g mem B e p a prev om w =
      (Ok (a + length ps, om_of B a ((p, i) # ps) om), w \<lparr> w_instrs := h, w_next := Suc a + length ps \<rparr>) \<and>
    nodes h g B prev a ((p, i) # ps) \<and> (\<forall>x<a. h x = link prev a (w_instrs w) x)"
  using assms
proof (induction ps arbitrary: n p i w a prev om)
  case Nil
  obtain k where k: "n = Suc k" using Nil.prems(4) by (cases n) auto
  have i: "InstructionFromBytes mem p e = Ok i" "m_opcode i < Cee_Count" "p + byte_size i = e"
    using Nil.prems(1) by auto
  note sh = InstructionFromBytes_shape [OF i(1) refl i(2)]
  have s: "unat (instr_size i) = byte_size i"
    unfolding parsed_size(2) [OF i(1,2)] using i(3) Nil.prems(5) by (intro unat_of_nat_DWORD) simp
  let ?h = "(link prev a (w_instrs w))(a \<mapsto> node g prev None (of_nat (p - B)) i)"
  have "decode_loop n g mem B e p a prev om w = (Ok (a, om(of_nat (p - B) \<mapsto> a)), w \<lparr> w_instrs := ?h \<rparr>)"
    using decode_step [OF Nil.prems(2) sh(1,3), of prev k g mem B e p om] Nil.prems(6) i(3) s k
    by (auto simp: Let_def split: option.splits)
  moreover have "w \<lparr> w_instrs := ?h \<rparr> = w \<lparr> w_instrs := ?h, w_next := Suc a + 0 \<rparr>" using Nil.prems(3) by simp
  ultimately show ?case by (intro exI [of _ ?h]) (simp del: fun_upd_apply, simp)
next
  case (Cons q ps)
  obtain p1 i1 where q: "q = (p1, i1)" by (cases q)
  obtain k where k: "n = Suc k" "length ps < k" using Cons.prems(4) by (cases n) auto
  have i: "InstructionFromBytes mem p e = Ok i" "m_opcode i < Cee_Count" "p1 = p + byte_size i" "p1 < e"
    and i1: "InstructionFromBytes mem p1 e = Ok i1" and pp: "parsed mem e p1 ((p1, i1) # ps)"
    using Cons.prems(1) q by auto
  note sh = InstructionFromBytes_shape [OF i(1) refl i(2)]
  have s: "unat (instr_size i) = byte_size i"
    unfolding parsed_size(2) [OF i(1,2)] using i(3,4) Cons.prems(5) by (intro unat_of_nat_DWORD) simp
  let ?h = "(link prev a (w_instrs w))(a \<mapsto> node g prev None (of_nat (p - B)) i)"
  let ?om = "om(of_nat (p - B) \<mapsto> a)"
  define w2 where "w2 = w \<lparr> w_instrs := ?h(Suc a \<mapsto> i1), w_next := Suc (Suc a) \<rparr>"
  have d1: "decode_one mem p1 e (w \<lparr> w_instrs := ?h \<rparr>) = (Ok (Suc a), w2)"
    using i1 Cons.prems(3) by (simp add: decode_one_def new_instr_def put_instr_def w2_def)
  have d: "decode_loop n g mem B e p a prev om w = decode_loop k g mem B e p1 (Suc a) (Some a) ?om w2"
    using decode_step [OF Cons.prems(2) sh(1,3), of prev k g mem B e p om] Cons.prems(6) i(3,4) s k d1
    by (auto simp: Let_def split: option.splits)
  have "\<exists>h. decode_loop k g mem B e p1 (Suc a) (Some a) ?om w2 =
      (Ok (Suc a + length ps, om_of B (Suc a) ((p1, i1) # ps) ?om), w2 \<lparr> w_instrs := h, w_next := Suc (Suc a) + length ps \<rparr>) \<and>
    nodes h g B (Some a) (Suc a) ((p1, i1) # ps) \<and> (\<forall>x<Suc a. h x = link (Some a) (Suc a) (w_instrs w2) x)"
    by (rule Cons.IH) (use pp k Cons.prems(5) i in \<open>auto simp: w2_def node_def\<close>)
  then obtain h where h: "decode_loop k g mem B e p1 (Suc a) (Some a) ?om w2 =
      (Ok (Suc a + length ps, om_of B (Suc a) ((p1, i1) # ps) ?om), w2 \<lparr> w_instrs := h, w_next := Suc (Suc a) + length ps \<rparr>)"
    "nodes h g B (Some a) (Suc a) ((p1, i1) # ps)" "\<forall>x<Suc a. h x = link (Some a) (Suc a) (w_instrs w2) x" by blast
  have "w2 \<lparr> w_instrs := h, w_next := Suc (Suc a) + length ps \<rparr> = w \<lparr> w_instrs := h, w_next := Suc a + length (q # ps) \<rparr>"
    by (simp add: w2_def)
  moreover have "h a = Some (node g prev (Some (Suc a)) (of_nat (p - B)) i)"
    using h(3) by (simp add: link_def w2_def node_def)
  moreover have "\<forall>x<a. h x = link prev a (w_instrs w) x" using h(3) by (simp add: link_def w2_def)
  ultimately show ?case
    using d h(1,2) by (intro exI [of _ h]) (simp add: q del: fun_upd_apply)
qed

lemma nodes_nth:
  "nodes h g B prev a ps \<Longrightarrow> k < length ps \<Longrightarrow> h (a + k) = Some (node g (case k of 0 \<Rightarrow> prev | Suc m \<Rightarrow> Some (a + m))
     (if Suc k = length ps then None else Some (Suc (a + k))) (of_nat (fst (ps ! k) - B)) (snd (ps ! k)))"
proof (induction ps arbitrary: a prev k)
  case (Cons q ps)
  then show ?case using Cons.IH [of "Some a" "Suc a" "k - 1"] by (cases q; cases k) (auto split: nat.splits)
qed simp

lemma om_of_Some:
  "om_of B a ps om x = Some t \<Longrightarrow> om x = Some t \<or> (\<exists>k<length ps. t = a + k \<and> x = of_nat (fst (ps ! k) - B))"
proof (induction ps arbitrary: a om)
  case (Cons q ps)
  obtain p i where q: "q = (p, i)" by (cases q)
  show ?case
    using Cons.IH [of "Suc a" "om(of_nat (p - B) \<mapsto> a)"] Cons.prems q by (fastforce split: if_splits)
qed simp

lemma om_of_other: "x \<notin> (\<lambda>(p, i). of_nat (p - B)) ` set ps \<Longrightarrow> om_of B a ps om x = om x"
  by (induction ps arbitrary: a om) (auto simp: image_iff)

lemma parsed_mono: "parsed mem e p ps \<Longrightarrow> k < length ps \<Longrightarrow> p \<le> fst (ps ! k) \<and> fst (ps ! k) < e"
proof (induction ps arbitrary: p k)
  case (Cons q ps)
  obtain i where q: "q = (p, i)" "parsed mem e (p + byte_size i) ps" "p < e" using Cons.prems(1) by (cases q) auto
  show ?case using Cons.IH [OF q(2), of "k - 1"] q Cons.prems(2) by (cases k) auto
qed simp

lemma parsed_nth:
  "parsed mem e p ps \<Longrightarrow> k < length ps \<Longrightarrow> InstructionFromBytes mem (fst (ps ! k)) e = Ok (snd (ps ! k)) \<and>
     m_opcode (snd (ps ! k)) < Cee_Count \<and> fst (ps ! k) + byte_size (snd (ps ! k)) \<le> e \<and>
     \<not> (mem ! fst (ps ! k) = 0xFE \<and> fst (ps ! k) + 1 = e) \<and>
     fst (ps ! k) + byte_size (snd (ps ! k)) = (if Suc k < length ps then fst (ps ! Suc k) else e)"
proof (induction ps arbitrary: p k)
  case (Cons q ps)
  then show ?case using Cons.IH [of "p + byte_size (snd q)" "k - 1"] by (cases q; cases k; cases ps) auto
qed simp

lemma om_of_nth:
  assumes "parsed mem e p ps" and "B \<le> p" and "e - B < 2 ^ 32" and "k < length ps"
  shows "om_of B a ps om (of_nat (fst (ps ! k) - B)) = Some (a + k)"
  using assms
proof (induction ps arbitrary: p k a om)
  case (Cons q ps)
  obtain i where q: "q = (p, i)" and pp: "parsed mem e (p + byte_size i) ps" and i: "0 < byte_size i"
    using Cons.prems(1) parsed_size(1) by (cases q) auto
  show ?case
  proof (cases k)
    case 0
    have "of_nat (p - B) \<noteq> (of_nat (fst y - B) :: DWORD)" if y: "y \<in> set ps" for y
    proof -
      obtain m where "m < length ps" "y = ps ! m" using y by (auto simp: in_set_conv_nth)
      then have "p < fst y" "fst y < e" using parsed_mono [OF pp] i by force+
      then have "p - B < fst y - B" "fst y - B < 2 ^ 32" using Cons.prems(2,3) by auto
      then show ?thesis using unat_of_nat_DWORD [of "p - B"] unat_of_nat_DWORD [of "fst y - B"] by fastforce
    qed
    then have "of_nat (p - B) \<notin> (\<lambda>(p, i). of_nat (p - B) :: DWORD) ` set ps"
      by (metis (no_types, lifting) imageE split_beta)
    then show ?thesis using 0 q by (simp add: om_of_other)
  next
    case (Suc m)
    then show ?thesis using Cons.IH [OF pp, of m "Suc a"] Cons.prems q by simp
  qed
qed simp

lemma parsed_next:
  assumes "parsed mem e p ps" and "Suc k < length ps" and "B \<le> p"
  shows "(of_nat (fst (ps ! Suc k) - B) :: DWORD) = of_nat (fst (ps ! k) - B) + of_nat (byte_size (snd (ps ! k)))"
  using parsed_nth [OF assms(1), of k] parsed_mono [OF assms(1), of k] assms(2,3) by (simp flip: of_nat_add)

section \<open>Second pass: targets\<close>

definition view :: "instr \<Rightarrow> ILOrdinalOpcode \<times> DWORD \<times> InstructionGeneration \<times> gid option \<times> addr option \<times> addr option \<times> iclass" where
  "view j = (m_opcode j, m_origOffset j, m_instructionGeneration j, m_pGraph j, m_pNextInstruction j, m_pPreviousInstruction j, m_class j)"

definition view_of :: "gid \<Rightarrow> nat \<Rightarrow> addr \<Rightarrow> (nat \<times> instr) list \<Rightarrow> nat \<Rightarrow> iclass \<Rightarrow> ILOrdinalOpcode \<times> DWORD \<times> InstructionGeneration \<times> gid option \<times> addr option \<times> addr option \<times> iclass" where
  "view_of g B a ps k c = (m_opcode (snd (ps ! k)), of_nat (fst (ps ! k) - B), Generation_Original, Some g,
     (if Suc k = length ps then None else Some (Suc (a + k))), (case k of 0 \<Rightarrow> None | Suc m \<Rightarrow> Some (a + m)), c)"

definition resolved :: "(DWORD \<Rightarrow> addr option) \<Rightarrow> nat \<Rightarrow> (nat \<times> instr) list \<Rightarrow> nat \<Rightarrow> iclass" where
  "resolved om B ps k = resolve om (of_nat (fst (ps ! k) - B)) (of_nat (fst (ps ! k) - B) + of_nat (byte_size (snd (ps ! k))))
     (m_class (snd (ps ! k)))"

text \<open>The decoded instructions are linked, with the classes \<open>cls\<close>.\<close>

definition fin_inv :: "gid \<Rightarrow> nat \<Rightarrow> addr \<Rightarrow> (nat \<times> instr) list \<Rightarrow> (nat \<Rightarrow> iclass) \<Rightarrow> world \<Rightarrow> bool" where
  "fin_inv g B a ps cls w \<longleftrightarrow> w_next w = a + length ps \<and>
     (\<exists>gr. w_graphs w g = Some gr \<and> m_pFirstInstruction gr = Some a) \<and>
     (\<forall>k<length ps. map_option view (w_instrs w (a + k)) = Some (view_of g B a ps k
        (cls k)))"

definition class_ok :: "(nat \<times> instr) list \<Rightarrow> nat \<Rightarrow> iclass \<Rightarrow> bool" where
  "class_ok ps k c \<longleftrightarrow> wf_class (m_opcode (snd (ps ! k))) c"

lemma fin_node:
  assumes "fin_inv g B a ps cls w" and "k < length ps"
  obtains j where "w_instrs w (a + k) = Some j" "view j = view_of g B a ps k (cls k)"
  using assms by (auto simp: fin_inv_def)

lemma dll_range:
  assumes "\<And>k. k < n \<Longrightarrow> \<exists>j. h (a + k) = Some j \<and> m_pNextInstruction j = (if Suc k = n then None else Some (Suc (a + k))) \<and>
      m_pPreviousInstruction j = (case k of 0 \<Rightarrow> p | Suc m \<Rightarrow> Some (a + m))"
  shows "dll h p [a..<a + n] None"
  using assms
proof (induction n arbitrary: a p)
  case (Suc n)
  obtain j where j: "h a = Some j" "m_pNextInstruction j = (if n = 0 then None else Some (Suc a))" "m_pPreviousInstruction j = p"
    using Suc.prems [of 0] by auto
  have "dll h (Some a) [Suc a..<Suc a + n] None"
  proof (rule Suc.IH)
    fix k assume "k < n"
    then show "\<exists>j. h (Suc a + k) = Some j \<and> m_pNextInstruction j = (if Suc k = n then None else Some (Suc (Suc a + k))) \<and>
      m_pPreviousInstruction j = (case k of 0 \<Rightarrow> Some a | Suc m \<Rightarrow> Some (Suc a + m))"
      using Suc.prems [of "Suc k"] by (cases k) auto
  qed
  moreover have "nxt [Suc a..<Suc (a + n)] None = (if n = 0 then None else Some (Suc a))"
    by (simp add: upt_conv_Cons del: upt_Suc)
  ultimately show ?case using j by (simp add: upt_conv_Cons del: upt_Suc)
qed simp

lemma fin_graph_list:
  assumes "fin_inv g B a ps cls w" and "\<And>k. k < length ps \<Longrightarrow> class_ok ps k (cls k)" and "ps \<noteq> []"
  shows "graph_list w g [a..<a + length ps]"
proof -
  have "dll (w_instrs w) None [a..<a + length ps] None"
    by (rule dll_range, erule fin_node [OF assms(1)]) (auto simp: view_def view_of_def)
  moreover have "node_ok w g x" if x: "x \<in> set [a..<a + length ps]" for x
  proof -
    obtain k where k: "x = a + k" "k < length ps" using x by (auto simp: le_iff_add)
    then show ?thesis using assms(1,2) by (auto elim!: fin_node [of g B a ps cls w k] simp: fin_inv_def node_ok_def view_def view_of_def wf_instr_def class_ok_def)
  qed
  ultimately show ?thesis
    using assms(1,3) by (auto simp: graph_list_def list_all_iff fin_inv_def upt_conv_Cons)
qed

lemma fin_put:
  assumes "fin_inv g B a ps cls w" and "w_instrs w x = Some j" and "view j' = view j"
  shows "fin_inv g B a ps cls (put_instr x j' w)"
  using assms by (auto simp: fin_inv_def)

lemma fin_put_class:
  assumes "fin_inv g B a ps cls w" and "w_instrs w (a + k) = Some j" and "k < length ps"
  shows "fin_inv g B a ps (cls(k := c)) (put_instr (a + k) (j \<lparr> m_class := c \<rparr>) w)"
  using assms by (auto simp: fin_inv_def view_def view_of_def)

lemma fin_refreshed:
  assumes "fin_inv g B a ps cls w"
  shows "fin_inv g B a ps cls (refreshed g xs w)"
proof -
  have "map_option view (w_instrs (refreshed g xs w) x) = map_option view (w_instrs w x)" for x
    by (cases "w_instrs w x") (auto simp: refreshed_def set_offsets_at view_def)
  moreover have "\<exists>gr'. w_graphs (refreshed g xs w) g = Some gr' \<and> m_pFirstInstruction gr' = Some a"
    using assms by (auto simp: fin_inv_def refreshed_def set_fresh_def)
  moreover have "w_next (refreshed g xs w) = w_next w" by (simp add: refreshed_def)
  ultimately show ?thesis using assms by (simp add: fin_inv_def)
qed

lemma BranchInfo_view [simp]: "view (BranchInfo_Add b i) = view i" "view (BranchInfo_Remove b i) = view i"
  by (auto simp: BranchInfo_Add_def BranchInfo_Remove_def view_def Let_def split: option.splits)

lemma fin_SetBranchTarget:
  assumes "fin_inv g B a ps cls w" and "k < length ps" and "cls k = Branch d None None" and "m < length ps"
  shows "\<exists>w'. Branch_SetBranchTarget (a + k) (Some (a + m)) w = (Ok (), w') \<and>
    fin_inv g B a ps (cls(k := Branch d (Some (a + m)) (Some (a + m)))) w'"
proof -
  let ?t = "a + m"
  let ?c = "Branch d (Some ?t)"
  obtain j where j: "w_instrs w (a + k) = Some j" "view j = view_of g B a ps k (cls k)" using assms(1,2) by (rule fin_node)
  have jc: "m_class j = Branch d None None" "m_instructionGeneration j = Generation_Original"
    using j(2) assms(3) by (simp_all add: view_def view_of_def)
  obtain jt where jt: "w_instrs w ?t = Some jt" using assms(1,4) by (rule fin_node)
  let ?w1 = "put_instr (a + k) (j \<lparr> m_class := ?c None \<rparr>) w"
  have i1: "fin_inv g B a ps (cls(k := ?c None)) ?w1" using assms(1) j(1) assms(2) by (rule fin_put_class)
  obtain j1 where j1: "w_instrs ?w1 ?t = Some j1" by (rule fin_node [OF i1 assms(4)])
  let ?w2 = "put_instr ?t (BranchInfo_Add (a + k) j1) ?w1"
  have i2: "fin_inv g B a ps (cls(k := ?c None)) ?w2" using i1 j1 by (rule fin_put) simp
  obtain j2 where j2: "w_instrs ?w2 (a + k) = Some j2" by (rule fin_node [OF i2 assms(2)])
  have "fin_inv g B a ps (cls(k := ?c (Some ?t))) (put_instr (a + k) (j2 \<lparr> m_class := ?c (Some ?t) \<rparr>) ?w2)"
    using fin_put_class [OF i2 j2 assms(2), of "?c (Some ?t)"] by simp
  moreover have "Branch_SetBranchTarget (a + k) (Some ?t) w =
      (Ok (), put_instr (a + k) (j2 \<lparr> m_class := ?c (Some ?t) \<rparr>) ?w2)"
    using j(1) jc jt j1 j2
    by (cases "m = k") (simp_all add: Branch_SetBranchTarget_def IfNullRetPointer_def BranchInfo_SetBranchTarget_def)
  ultimately show ?thesis by blast
qed

lemma fin_SetSwitchTarget:
  assumes "fin_inv g B a ps cls w" and "k < length ps" and "cls k = Switch ds ts" and "m < length ps"
    and "n < length ts" and "ts ! n = None"
  shows "\<exists>w'. Switch_SetBranchTarget (a + k) n (Some (a + m)) w = (Ok (), w') \<and>
    fin_inv g B a ps (cls(k := Switch ds (ts[n := Some (a + m)]))) w'"
proof -
  let ?t = "a + m"
  let ?c = "Switch ds (ts[n := Some ?t])"
  obtain j where j: "w_instrs w (a + k) = Some j" "view j = view_of g B a ps k (cls k)" using assms(1,2) by (rule fin_node)
  have jc: "m_class j = Switch ds ts" using j(2) assms(3) by (simp add: view_def view_of_def)
  obtain jt where jt: "w_instrs w ?t = Some jt" using assms(1,4) by (rule fin_node)
  let ?w1 = "put_instr (a + k) (j \<lparr> m_class := ?c \<rparr>) w"
  have i1: "fin_inv g B a ps (cls(k := ?c)) ?w1" using assms(1) j(1) assms(2) by (rule fin_put_class)
  obtain j1 where j1: "w_instrs ?w1 ?t = Some j1" by (rule fin_node [OF i1 assms(4)])
  have "fin_inv g B a ps (cls(k := ?c)) (put_instr ?t (BranchInfo_Add (a + k) j1) ?w1)" using i1 j1 by (rule fin_put) simp
  moreover have "Switch_SetBranchTarget (a + k) n (Some ?t) w = (Ok (), put_instr ?t (BranchInfo_Add (a + k) j1) ?w1)"
    using j(1) jc jt j1 assms(5,6)
    by (cases "m = k") (simp_all add: Switch_SetBranchTarget_def Switch_targets_def setSwitchTargets_def BranchInfo_SetBranchTarget_def)
  ultimately show ?thesis by blast
qed

lemma Switch_targets_fin:
  assumes "fin_inv g B a ps cls w" and "k < length ps" and "cls k = Switch ds ts"
  shows "Switch_targets (a + k) w = (Ok ts, w)"
    and "n < length ts \<Longrightarrow> ts ! n = None \<Longrightarrow> n < length ds \<Longrightarrow> Switch_GetBranchOffset (a + k) n w = (Ok (ds ! n), w)"
  using assms by (auto elim!: fin_node [of g B a ps cls w k] simp: Switch_targets_def Switch_GetBranchOffset_def view_def view_of_def)

lemma finalizeSwitch_fin:
  assumes "fin_inv g B a ps (cls(k := Switch ds (map (\<lambda>d. om (d + z)) (take n ds) @ replicate (length ds - n) None))) w"
    and "k < length ps" and "n \<le> length ds" and "\<forall>d \<in> set ds. \<exists>m<length ps. om (d + z) = Some (a + m)"
  shows "\<exists>w'. finalizeSwitch (a + k) z om [n..<length ds] w = (Ok (), w') \<and>
    fin_inv g B a ps (cls(k := Switch ds (map (\<lambda>d. om (d + z)) ds))) w'"
  using assms
proof (induction "length ds - n" arbitrary: n w)
  case 0
  then show ?case by auto
next
  case (Suc l)
  let ?ts = "map (\<lambda>d. om (d + z)) (take n ds) @ replicate (length ds - n) None"
  have n: "n < length ds" "length ?ts = length ds" "?ts ! n = None" using Suc.hyps(2) by (simp_all add: nth_append)
  obtain m where m: "m < length ps" "om (ds ! n + z) = Some (a + m)" using Suc.prems(4) n(1) by (metis nth_mem)
  obtain w1 where w1: "Switch_SetBranchTarget (a + k) n (Some (a + m)) w = (Ok (), w1)"
    "fin_inv g B a ps ((cls(k := Switch ds ?ts))(k := Switch ds (?ts[n := Some (a + m)]))) w1"
    using fin_SetSwitchTarget [OF Suc.prems(1,2), of ds ?ts m n] m n by auto
  have "?ts[n := Some (a + m)] = map (\<lambda>d. om (d + z)) (take (Suc n) ds) @ replicate (length ds - Suc n) None"
    using n m by (intro nth_equalityI) (auto simp: nth_append nth_list_update less_Suc_eq)
  with w1(2) have "fin_inv g B a ps (cls(k := Switch ds (map (\<lambda>d. om (d + z)) (take (Suc n) ds) @ replicate (length ds - Suc n) None))) w1"
    by simp
  moreover have "l = length ds - Suc n" using Suc.hyps(2) by simp
  ultimately obtain w' where "finalizeSwitch (a + k) z om [Suc n..<length ds] w1 = (Ok (), w')"
    "fin_inv g B a ps (cls(k := Switch ds (map (\<lambda>d. om (d + z)) ds))) w'"
    using Suc.hyps(1) [of "Suc n" w1] Suc.prems(2,4) n by auto
  moreover have "Switch_GetBranchOffset (a + k) n w = (Ok (ds ! n), w)"
    using Switch_targets_fin(2) [OF Suc.prems(1,2), of ds ?ts n] n by simp
  ultimately show ?case using w1(1) m n(1) by (simp add: upt_conv_Cons)
qed

definition target_map :: "(DWORD \<Rightarrow> addr option) \<Rightarrow> addr \<Rightarrow> nat \<Rightarrow> (nat \<times> instr) list \<Rightarrow> bool" where
  "target_map om a B ps \<longleftrightarrow> (\<forall>k<length ps. case m_class (snd (ps ! k)) of
       Branch d _ _ \<Rightarrow> \<exists>m<length ps. om (d + of_nat (fst (ps ! k) - B)) = Some (a + m)
     | Switch ds _ \<Rightarrow> Suc k < length ps \<and> (\<forall>d \<in> set ds. \<exists>m<length ps.
         om (d + of_nat (fst (ps ! Suc k) - B)) = Some (a + m))
     | _ \<Rightarrow> True)"

text \<open>The classes when the targets of the instructions from index \<open>m\<close> on are known.\<close>

definition classes :: "(DWORD \<Rightarrow> addr option) \<Rightarrow> nat \<Rightarrow> (nat \<times> instr) list \<Rightarrow> nat \<Rightarrow> nat \<Rightarrow> iclass" where
  "classes om B ps m k = (if m \<le> k then resolved om B ps k else m_class (snd (ps ! k)))"

lemma classes_ok:
  assumes "parsed mem e B ps" and "k < length ps"
  shows "class_ok ps k (classes om B ps m k)"
proof -
  have "wf_class (m_opcode (snd (ps ! k))) (m_class (snd (ps ! k)))"
    using InstructionFromBytes_shape(3) [OF _ refl, of mem "fst (ps ! k)" e "snd (ps ! k)"] parsed_nth [OF assms]
    by (simp add: wf_instr_def)
  then show ?thesis
    by (auto simp: class_ok_def classes_def resolved_def resolve_def wf_class_def split: result.splits iclass.splits)
qed

lemma classes_Suc: "(classes om B ps (Suc k))(k := resolved om B ps k) = classes om B ps k"
  by (auto simp: fun_eq_iff classes_def)

lemma branch_class:
  assumes "wf_instr i"
  shows "GetIsBranchInternal i = Ok (\<exists>d t t'. m_class i = Branch d t t')"
proof -
  obtain e where e: "opcodeInfo (m_opcode i) = Ok e" using assms by (rule wf_instr_info)
  have "IsFlagSet (m_flags e) 4 \<longleftrightarrow> (\<exists>d t t'. m_class i = Branch d t t')"
    using assms e opcodeInfo_shape [OF e]
    by (cases "m_class i") (auto simp: wf_instr_def wf_class_def row_shape_def split: if_splits)
  with e show ?thesis by (simp add: GetIsBranchInternal_def)
qed

lemma fin_current:
  assumes pp: "parsed mem e B ps" and inv: "fin_inv g B a ps (classes om B ps (Suc k)) w" and k: "k < length ps"
  obtains j where "w_instrs w (a + k) = Some j" "wf_instr j" "m_class j = m_class (snd (ps ! k))"
    "m_origOffset j = of_nat (fst (ps ! k) - B)" "raw_class (m_class j)"
    "m_pNextInstruction j = (if Suc k = length ps then None else Some (Suc (a + k)))"
    "m_pPreviousInstruction j = (case k of 0 \<Rightarrow> None | Suc m \<Rightarrow> Some (a + m))"
    "graph_list w g [a..<a + length ps]"
proof -
  let ?i = "snd (ps ! k)"
  obtain j where j: "w_instrs w (a + k) = Some j" "view j = view_of g B a ps k (classes om B ps (Suc k) k)"
    using inv k by (rule fin_node)
  have nth: "InstructionFromBytes mem (fst (ps ! k)) e = Ok ?i" "m_opcode ?i < Cee_Count"
    using parsed_nth [OF pp k] by simp_all
  note sh = InstructionFromBytes_shape(2,3) [OF nth(1) refl nth(2)]
  have "graph_list w g [a..<a + length ps]" using inv classes_ok [OF pp] k by (intro fin_graph_list) auto
  with j sh show thesis
    by (intro that [of j]) (auto simp: view_def view_of_def classes_def wf_instr_def)
qed

lemma finalizeBranch_branch:
  assumes pp: "parsed mem e B ps" and inv: "fin_inv g B a ps (classes om B ps (Suc k)) w" and k: "k < length ps"
    and c: "m_class (snd (ps ! k)) = Branch d t t'" and m: "m < length ps" "om (d + of_nat (fst (ps ! k) - B)) = Some (a + m)"
  shows "\<exists>w'. finalizeBranch (a + k) om w = (Ok (), w') \<and> fin_inv g B a ps (classes om B ps k) w'"
proof -
  let ?xs = "[a..<a + length ps]"
  obtain j where j: "w_instrs w (a + k) = Some j" "wf_instr j" "m_class j = m_class (snd (ps ! k))"
    "m_origOffset j = of_nat (fst (ps ! k) - B)" "raw_class (m_class j)" and gl: "graph_list w g ?xs"
    using pp inv k by (rule fin_current)
  then have c': "m_class (snd (ps ! k)) = Branch d None None" using c by (simp add: raw_class_def)
  have "GetOriginalOffset (a + k) w = (Ok (of_nat (fst (ps ! k) - B)), refreshed g ?xs w)"
    using GetOriginalOffset_list [OF gl _ j(1)] k j(4) by simp
  moreover have "fin_inv g B a ps (classes om B ps (Suc k)) (refreshed g ?xs w)" using inv by (rule fin_refreshed)
  from fin_SetBranchTarget [OF this k _ m(1), of d] obtain w' where
    "Branch_SetBranchTarget (a + k) (Some (a + m)) (refreshed g ?xs w) = (Ok (), w')"
    "fin_inv g B a ps ((classes om B ps (Suc k))(k := Branch d (Some (a + m)) (Some (a + m)))) w'"
    using c' by (auto simp: classes_def)
  moreover have "Branch d (Some (a + m)) (Some (a + m)) = resolved om B ps k"
    using c' m by (simp add: resolved_def resolve_def)
  moreover have "Branch_GetTargetOffset (a + k) w = (Ok d, w)"
    using j c' by (simp add: Branch_GetTargetOffset_def)
  ultimately show ?thesis
    using j branch_class [OF j(2)] c' m classes_Suc [of om B ps k] by (simp add: finalizeBranch_def outParam_def)
qed

lemma finalizeBranch_switch:
  assumes pp: "parsed mem e B ps" and inv: "fin_inv g B a ps (classes om B ps (Suc k)) w" and k: "Suc k < length ps"
    and c: "m_class (snd (ps ! k)) = Switch ds ts" and B: "e - B < 2 ^ 32"
    and m: "\<forall>d \<in> set ds. \<exists>m<length ps. om (d + of_nat (fst (ps ! Suc k) - B)) = Some (a + m)"
  shows "\<exists>w'. finalizeBranch (a + k) om w = (Ok (), w') \<and> fin_inv g B a ps (classes om B ps k) w'"
proof -
  let ?xs = "[a..<a + length ps]"
  let ?z = "of_nat (fst (ps ! Suc k) - B) :: DWORD"
  have k': "k < length ps" using k by simp
  obtain j where j: "w_instrs w (a + k) = Some j" "wf_instr j" "m_class j = m_class (snd (ps ! k))" "raw_class (m_class j)"
     "m_pNextInstruction j = (if Suc k = length ps then None else Some (Suc (a + k)))" and gl: "graph_list w g ?xs"
    using pp inv k' by (rule fin_current)
  then have c': "m_class (snd (ps ! k)) = Switch ds (replicate (length ds) None)" using c by (simp add: raw_class_def)
  obtain jn where jn: "w_instrs w (a + Suc k) = Some jn" "view jn = view_of g B a ps (Suc k) (classes om B ps (Suc k) (Suc k))"
    using inv k by (rule fin_node)
  have o: "GetOriginalOffset (Suc (a + k)) w = (Ok ?z, refreshed g ?xs w)"
    using GetOriginalOffset_list [OF gl _ jn(1)] k jn(2) by (simp add: view_def view_of_def)
  let ?cls = "classes om B ps (Suc k)"
  have i1: "fin_inv g B a ps ?cls (refreshed g ?xs w)" using inv by (rule fin_refreshed)
  have ck: "?cls k = Switch ds (replicate (length ds) None)" using c' by (simp add: classes_def)
  have st: "Switch_targets (a + k) (refreshed g ?xs w) = (Ok (replicate (length ds) None), refreshed g ?xs w)"
    using Switch_targets_fin(1) [OF i1 k' ck] .
  have "?cls(k := Switch ds (map (\<lambda>d. om (d + ?z)) (take 0 ds) @ replicate (length ds - 0) None)) = ?cls"
    using ck by (simp add: fun_upd_idem_iff)
  with i1 finalizeSwitch_fin [of g B a ps ?cls k ds om ?z 0 "refreshed g ?xs w"] k' m obtain w' where
    "finalizeSwitch (a + k) ?z om [0..<length ds] (refreshed g ?xs w) = (Ok (), w')"
    "fin_inv g B a ps (?cls(k := Switch ds (map (\<lambda>d. om (d + ?z)) ds))) w'" by (auto simp del: upt_conv_Nil)
  moreover have "Switch ds (map (\<lambda>d. om (d + ?z)) ds) = resolved om B ps k"
    using c' parsed_next [OF pp k] by (simp add: resolved_def resolve_def)
  moreover have "GetIsSwitchInternal j" using switch_class [OF j(2)] j(3) c by auto
  ultimately show ?thesis
    using j branch_class [OF j(2)] c k o st classes_Suc [of om B ps k] by (simp add: finalizeBranch_def)
qed

lemma finalizeBranch_fin:
  assumes pp: "parsed mem e B ps" and inv: "fin_inv g B a ps (classes om B ps (Suc k)) w" and k: "k < length ps"
    and tm: "target_map om a B ps" and B: "e - B < 2 ^ 32"
  shows "\<exists>w'. finalizeBranch (a + k) om w = (Ok (), w') \<and> fin_inv g B a ps (classes om B ps k) w'"
proof -
  note tk = tm [unfolded target_map_def, rule_format, OF k]
  obtain j where j: "w_instrs w (a + k) = Some j" "wf_instr j" "m_class j = m_class (snd (ps ! k))"
    using pp inv k by (rule fin_current)
  have skip: "\<exists>w'. finalizeBranch (a + k) om w = (Ok (), w') \<and> fin_inv g B a ps (classes om B ps k) w'"
    if "m_class (snd (ps ! k)) = Plain \<or> (\<exists>v. m_class (snd (ps ! k)) = Operand v)"
  proof -
    have "resolved om B ps k = m_class (snd (ps ! k))" using that by (auto simp: resolved_def resolve_def)
    then have "classes om B ps (Suc k) = classes om B ps k" by (auto simp: fun_eq_iff classes_def le_Suc_eq not_less_eq_eq)
    then show ?thesis using inv j that branch_class [OF j(2)] switch_class [OF j(2)] by (auto simp: finalizeBranch_def)
  qed
  show ?thesis
    using tk skip finalizeBranch_branch [OF pp inv k] finalizeBranch_switch [OF pp inv] B
    by (cases "m_class (snd (ps ! k))") auto
qed

lemma finalize_loop_fin:
  assumes pp: "parsed mem e B ps" and "fin_inv g B a ps (classes om B ps m) w" and "m \<le> length ps"
    and tm: "target_map om a B ps" and B: "e - B < 2 ^ 32" and "m < n"
  shows "\<exists>w'. finalize_loop n om (case m of 0 \<Rightarrow> None | Suc k \<Rightarrow> Some (a + k)) w = (Ok (), w') \<and>
    fin_inv g B a ps (classes om B ps 0) w'"
  using assms(2,3,6)
proof (induction m arbitrary: n w)
  case 0
  then show ?case by (cases n) auto
next
  case (Suc k)
  obtain n' where n: "n = Suc n'" "k < n'" using Suc.prems(3) by (cases n) auto
  obtain w1 where w1: "finalizeBranch (a + k) om w = (Ok (), w1)" "fin_inv g B a ps (classes om B ps k) w1"
    using finalizeBranch_fin [OF pp Suc.prems(1) _ tm B] Suc.prems(2) by auto
  obtain j where j: "w_instrs w1 (a + k) = Some j" "view j = view_of g B a ps k (classes om B ps k k)"
    by (rule fin_node [OF w1(2), of k]) (use Suc.prems(2) in auto)
  then have "m_pPreviousInstruction j = (case k of 0 \<Rightarrow> None | Suc m \<Rightarrow> Some (a + m))"
    by (simp add: view_def view_of_def)
  then show ?case using Suc.IH [OF w1(2), of n'] Suc.prems(2) n w1(1) j(1) by simp
qed

lemma valid_ilD:
  assumes "valid_il mem B e ps"
  shows "parsed mem e B ps" and "e - B < 2 ^ 32" and "ps = [] \<or> \<not> GetIsSwitchInternal (snd (last ps))"
    and "e \<le> length mem" and "il_targets_ok B ps"
  using assms il_parse_parsed unfolding valid_il_def by blast+

lemma target_map_om_of:
  assumes "valid_il mem B e ps"
  shows "target_map (om_of B a ps Map.empty) a B ps"
proof -
  note pp = valid_ilD(1) [OF assms] and len = valid_ilD(2) [OF assms] and last = valid_ilD(3) [OF assms]
  have om: "\<exists>m<length ps. om_of B a ps Map.empty x = Some (a + m)" if x: "x \<in> set (map (\<lambda>(p, i). of_nat (p - B)) ps)" for x
  proof -
    obtain m where "m < length ps" "x = of_nat (fst (ps ! m) - B)" using x by (auto simp: in_set_conv_nth split_beta)
    then show ?thesis using om_of_nth [OF pp _ len] by auto
  qed
  show ?thesis
    unfolding target_map_def
  proof (intro allI impI)
    fix k assume k: "k < length ps"
    let ?i = "snd (ps ! k)"
    have t: "case m_class ?i of
         Branch d _ _ \<Rightarrow> d + of_nat (fst (ps ! k) - B) \<in> set (map (\<lambda>(p, i). of_nat (p - B) :: DWORD) ps)
       | Switch ds _ \<Rightarrow> list_all (\<lambda>d. d + of_nat (fst (ps ! k) - B + byte_size ?i) \<in> set (map (\<lambda>(p, i). of_nat (p - B) :: DWORD) ps)) ds
       | _ \<Rightarrow> True"
      using valid_ilD(5) [OF assms] k by (auto simp: il_targets_ok_def Let_def list_all_length split_beta)
    note nth = parsed_nth [OF pp k]
    have wf: "wf_instr ?i" using InstructionFromBytes_shape(3) [OF _ refl] nth by blast
    show "case m_class ?i of
        Branch d _ _ \<Rightarrow> \<exists>m<length ps. om_of B a ps Map.empty (d + of_nat (fst (ps ! k) - B)) = Some (a + m)
      | Switch ds _ \<Rightarrow> Suc k < length ps \<and> (\<forall>d \<in> set ds. \<exists>m<length ps.
          om_of B a ps Map.empty (d + of_nat (fst (ps ! Suc k) - B)) = Some (a + m))
      | _ \<Rightarrow> True"
    proof (cases "m_class ?i")
      case (Switch ds ts)
      then have "GetIsSwitchInternal ?i" using switch_class [OF wf] by auto
      then have "Suc k \<noteq> length ps" using last k by (metis last_conv_nth diff_Suc_1 length_0_conv not_less_zero)
      then have s: "Suc k < length ps" using k by simp
      then have "fst (ps ! k) - B + byte_size ?i = fst (ps ! Suc k) - B" using nth parsed_mono [OF pp k] by auto
      then show ?thesis using t Switch s om by (simp add: list_all_iff)
    qed (use t om in auto)
  qed
qed

lemma view_node:
  assumes "parsed mem e B ps" and "k < length ps"
  shows "view (node g (case k of 0 \<Rightarrow> None | Suc m \<Rightarrow> Some (a + m)) (if Suc k = length ps then None else Some (Suc (a + k)))
      (of_nat (fst (ps ! k) - B)) (snd (ps ! k))) = view_of g B a ps k (m_class (snd (ps ! k)))"
proof -
  have "m_instructionGeneration (snd (ps ! k)) = Generation_Original"
    by (subst InstructionFromBytes_shape(1) [OF _ refl, of mem "fst (ps ! k)" e]) (use parsed_nth [OF assms] in simp_all)
  then show ?thesis by (simp add: view_def view_of_def node_def)
qed

lemma DecodeInstructions_list:
  assumes v: "valid_il mem B e ps" and "B < e" and gr: "w_graphs w g = Some gr"
  shows "\<exists>w'. DecodeInstructions g mem B e w = (Ok (), w') \<and> ps \<noteq> [] \<and>
    fin_inv g B (w_next w) ps (resolved (om_of B (w_next w) ps Map.empty) B ps) w' \<and>
    (\<exists>gr'. w_graphs w' g = Some gr' \<and> m_pLastInstruction gr' = Some (w_next w + length ps - 1))"
proof -
  note pp = valid_ilD(1) [OF v] and len = valid_ilD(2) [OF v]
  let ?a = "w_next w"
  let ?om = "om_of B ?a ps Map.empty"
  obtain i qs where ps: "ps = (B, i) # qs" using pp assms(2) by (cases ps) auto
  have i: "InstructionFromBytes mem B e = Ok i" using pp ps by simp
  define gr1 where "gr1 = gr \<lparr> m_pFirstInstruction := Some ?a, m_pOrigFirstInstruction := Some ?a \<rparr>"
  define w1 where "w1 = put_graph g gr1 (put_instr ?a i (w \<lparr> w_next := Suc ?a \<rparr>))"
  have "length qs < e - B + 1" using parsed_length [OF pp] ps by simp
  then have "\<exists>h. decode_loop (e - B + 1) g mem B e B ?a None Map.empty w1 =
      (Ok (?a + length qs, om_of B ?a ((B, i) # qs) Map.empty), w1 \<lparr> w_instrs := h, w_next := Suc ?a + length qs \<rparr>) \<and>
    nodes h g B None ?a ((B, i) # qs) \<and> (\<forall>x<?a. h x = link None ?a (w_instrs w1) x)"
    by (intro decode_loop_list) (use pp ps len in \<open>simp_all add: w1_def\<close>)
  then obtain h where h: "decode_loop (e - B + 1) g mem B e B ?a None Map.empty w1 =
      (Ok (?a + length qs, ?om), w1 \<lparr> w_instrs := h, w_next := Suc ?a + length qs \<rparr>)"
    "nodes h g B None ?a ps" unfolding ps by blast
  define w2 where "w2 = w1 \<lparr> w_instrs := h, w_next := Suc ?a + length qs \<rparr>"
  have "fin_inv g B ?a ps (classes ?om B ps (length ps)) w2"
    using nodes_nth [OF h(2)] view_node [OF pp] ps
    by (simp add: fin_inv_def w2_def w1_def gr1_def classes_def)
  from finalize_loop_fin [OF pp this _ target_map_om_of [OF v] len, of "walk_fuel w2"]
  obtain w3 where w3: "finalize_loop (walk_fuel w2) ?om (Some (?a + length qs)) w2 = (Ok (), w3)"
    "fin_inv g B ?a ps (classes ?om B ps 0) w3"
    using ps by (auto simp: walk_fuel_def w2_def)
  obtain gr3 where gr3: "w_graphs w3 g = Some gr3" using w3(2) by (auto simp: fin_inv_def)
  define w4 where "w4 = put_graph g (gr3 \<lparr> m_pLastInstruction := Some (?a + length qs), m_pOrigLastInstruction := Some (?a + length qs) \<rparr>) w3"
  have "put_graph g gr1 (put_instr ?a i (put_graph g x w \<lparr> w_next := Suc ?a \<rparr>)) = w1" for x
    by (simp add: w1_def put_graph_def put_instr_def)
  then have "DecodeInstructions g mem B e w = (Ok (), w4)"
    using assms(2) gr i h(1) [folded w2_def] w3(1) gr3
    by (simp add: DecodeInstructions_def decode_one_def new_instr_def w4_def gr1_def
      del: decode_loop.simps finalize_loop.simps)
  moreover have "fin_inv g B ?a ps (resolved ?om B ps) w4"
    using w3(2) gr3 by (auto simp: w4_def fin_inv_def classes_def)
  ultimately show ?thesis using ps by (auto simp: w4_def)
qed

section \<open>Writing back what was decoded\<close>

lemma byte_size_class:
  "m_opcode i = m_opcode j \<Longrightarrow> m_class i = m_class j \<Longrightarrow> byte_size i = byte_size j"
  "m_opcode i = m_opcode j \<Longrightarrow> m_class i = m_class j \<Longrightarrow> encode_instr off z i = encode_instr off z j"
  "m_class i = m_class j \<Longrightarrow> targets_in xs i = targets_in xs j"
  by (cases "opcodeInfo (m_opcode j)"; simp add: byte_size_def encode_instr_def targets_in_def)+

lemma byte_size_resolve:
  assumes "raw_class (m_class i)"
  shows "byte_size (i \<lparr> m_class := resolve om z n (m_class i) \<rparr>) = byte_size i"
  using assms by (cases "opcodeInfo (m_opcode i)"; cases "m_class i") (auto simp: byte_size_def resolve_def raw_class_def)

lemma parsed_slices:
  "parsed mem e p ps \<Longrightarrow> concat (map (\<lambda>(p, i). take (byte_size i) (drop p mem)) ps) = take (e - p) (drop p mem)"
proof (induction ps arbitrary: p)
  case (Cons q ps)
  obtain i where q: "q = (p, i)" "parsed mem e (p + byte_size i) ps" "p + byte_size i \<le> e" using Cons.prems by (cases q) auto
  then have "e - p = byte_size i + (e - (p + byte_size i))" by simp
  then show ?case using Cons.IH [OF q(2)] q(1) take_add [of "byte_size i" "e - (p + byte_size i)" "drop p mem"]
    by (simp add: ac_simps)
qed simp

text \<open>The end of the first \<open>k\<close> instructions.\<close>

definition pos :: "nat \<Rightarrow> (nat \<times> instr) list \<Rightarrow> nat \<Rightarrow> nat" where
  "pos e ps k = (if k < length ps then fst (ps ! k) else e)"

definition decoded_world :: "byte list \<Rightarrow> nat \<Rightarrow> nat \<Rightarrow> (nat \<times> instr) list \<Rightarrow> gid \<Rightarrow> addr \<Rightarrow> world \<Rightarrow> bool" where
  "decoded_world mem B e ps g a w \<longleftrightarrow> valid_il mem B e ps \<and> ps \<noteq> [] \<and>
     fin_inv g B a ps (resolved (om_of B a ps Map.empty) B ps) w"

lemma decoded_node:
  assumes "decoded_world mem B e ps g a w" and "k < length ps"
  obtains j where "w_instrs w (a + k) = Some j" "m_opcode j = m_opcode (snd (ps ! k))"
    "m_class j = resolved (om_of B a ps Map.empty) B ps k" "\<not> GetIsNew j" "m_origOffset j = of_nat (fst (ps ! k) - B)"
    "byte_size j = byte_size (snd (ps ! k))" "targets_in [a..<a + length ps] j" "instr_size j = of_nat (byte_size j)"
    "m_opcode j < Cee_Count"
proof -
  let ?om = "om_of B a ps Map.empty"
  let ?i = "snd (ps ! k)"
  have v: "valid_il mem B e ps" and inv: "fin_inv g B a ps (resolved ?om B ps) w"
    using assms(1) by (simp_all add: decoded_world_def)
  note pp = valid_ilD(1) [OF v]
  obtain j where j: "w_instrs w (a + k) = Some j" "view j = view_of g B a ps k (resolved ?om B ps k)"
    using inv assms(2) by (rule fin_node)
  have op: "m_opcode j = m_opcode ?i" "m_class j = resolved ?om B ps k" using j(2) by (simp_all add: view_def view_of_def)
  note nth = parsed_nth [OF pp assms(2)]
  have sh: "raw_class (m_class ?i)" using InstructionFromBytes_shape(2) [OF _ refl] nth by blast
  have "byte_size j = byte_size (?i \<lparr> m_class := resolved ?om B ps k \<rparr>)" using op by (intro byte_size_class) simp_all
  then have bs: "byte_size j = byte_size ?i" using byte_size_resolve [OF sh] by (simp add: resolved_def)
  have "class_ok ps k (classes ?om B ps 0 k)" using classes_ok [OF pp assms(2)] .
  then have wf: "wf_instr j" using op by (simp add: class_ok_def wf_instr_def classes_def)
  note tk = target_map_om_of [OF v, of a, unfolded target_map_def, rule_format, OF assms(2)]
  have "targets_in [a..<a + length ps] j"
  proof (cases "m_class ?i")
    case (Switch ds ts)
    with tk have k: "Suc k < length ps" by simp
    show ?thesis using tk Switch op parsed_next [OF pp k, of B]
      by (fastforce simp: targets_in_def resolved_def resolve_def list_all_iff)
  qed (use tk op in \<open>auto simp: targets_in_def resolved_def resolve_def\<close>)
  with j op bs wf nth show thesis
    by (intro that [of j]) (auto simp: view_def view_of_def GetIsNew_def instr_size_bytes)
qed

lemma decoded_total:
  assumes "decoded_world mem B e ps g a w" and "k \<le> length ps"
  shows "total_bytes w [a..<a + k] = pos e ps k - B"
  using assms(2)
proof (induction k)
  case 0
  have "parsed mem e B ps" "ps \<noteq> []" using assms(1) valid_ilD(1) by (auto simp: decoded_world_def)
  then show ?case by (cases ps) (auto simp: pos_def)
next
  case (Suc k)
  have k: "k < length ps" using Suc.prems by simp
  have pp: "parsed mem e B ps" using assms(1) valid_ilD(1) by (auto simp: decoded_world_def)
  have "bytes_at w (a + k) = byte_size (snd (ps ! k))"
    by (rule decoded_node [OF assms(1) k]) (simp add: bytes_at_def)
  then show ?case using Suc.IH k parsed_nth [OF pp k] parsed_mono [OF pp k] by (auto simp: pos_def)
qed

lemma upt_split: "k < n \<Longrightarrow> [a..<a + n] = [a..<a + k] @ (a + k) # [Suc (a + k)..<a + n]"
  by (metis add_less_cancel_left le_add1 less_imp_le_nat upt_add_eq_append upt_conv_Cons le_add_diff_inverse add_le_cancel_left)

lemma decoded_encodable:
  assumes "decoded_world mem B e ps g a w"
  shows "graph_list w g [a..<a + length ps]" and "encodable w [a..<a + length ps]"
proof -
  have v: "valid_il mem B e ps" and ne: "ps \<noteq> []" and inv: "fin_inv g B a ps (resolved (om_of B a ps Map.empty) B ps) w"
    using assms by (simp_all add: decoded_world_def)
  have "class_ok ps k (resolved (om_of B a ps Map.empty) B ps k)" if "k < length ps" for k
    using classes_ok [OF valid_ilD(1) [OF v] that, of _ 0] by (simp add: classes_def)
  then show "graph_list w g [a..<a + length ps]" by (rule fin_graph_list [OF inv _ ne])
  have "total_bytes w [a..<a + length ps] < 2 ^ 32" using decoded_total [OF assms, of "length ps"] valid_ilD(2) [OF v]
    by (simp add: pos_def)
  moreover have "\<not> isSwitch_at w (last [a..<a + length ps])"
  proof -
    have l: "last [a..<a + length ps] = a + (length ps - 1)" using ne by (cases ps rule: rev_cases) simp_all
    have k: "length ps - 1 < length ps" using ne by simp
    have "\<not> GetIsSwitchInternal (snd (ps ! (length ps - 1)))" using valid_ilD(3) [OF v] ne by (simp add: last_conv_nth)
    then show ?thesis by (rule_tac decoded_node [OF assms k]) (simp add: l isSwitch_at_def GetIsSwitchInternal_def)
  qed
  moreover have "case w_instrs w x of None \<Rightarrow> False | Some i \<Rightarrow> m_opcode i < Cee_Count \<and> targets_in [a..<a + length ps] i"
    if x: "x \<in> set [a..<a + length ps]" for x
  proof -
    obtain k where k: "x = a + k" "k < length ps" using x by (auto simp: le_iff_add)
    show ?thesis by (rule decoded_node [OF assms k(2)]) (simp add: k)
  qed
  ultimately show "encodable w [a..<a + length ps]" by (simp add: encodable_def list_all_iff)
qed

lemma decoded_layout:
  assumes "decoded_world mem B e ps g a w" and "k < length ps"
  shows "layout w 0 [a..<a + length ps] (a + k) = of_nat (fst (ps ! k) - B)"
  using layout_bytes(2) [of w g "[a..<a + k]" "a + k"] decoded_encodable [OF assms(1)] upt_split [OF assms(2), of a]
    decoded_total [OF assms(1), of k] assms(2) by (simp add: pos_def)

lemma decoded_encode_at:
  assumes "decoded_world mem B e ps g a w" and "k < length ps"
  shows "encode_at w [a..<a + length ps] (a + k) = take (byte_size (snd (ps ! k))) (drop (fst (ps ! k)) mem)"
proof -
  let ?xs = "[a..<a + length ps]"
  let ?om = "om_of B a ps Map.empty"
  let ?i = "snd (ps ! k)"
  have v: "valid_il mem B e ps" using assms(1) by (simp add: decoded_world_def)
  note pp = valid_ilD(1) [OF v]
  note nth = parsed_nth [OF pp assms(2)] and mono = parsed_mono [OF pp assms(2)]
  obtain j where j: "w_instrs w (a + k) = Some j" "m_opcode j = m_opcode ?i" "m_class j = resolved ?om B ps k" "targets_in ?xs j"
    using assms by (rule decoded_node)
  let ?c = "resolved ?om B ps k"
  have om: "layout w 0 ?xs t = x" if t: "?om x = Some t" for x t
    using om_of_Some [OF t] decoded_layout [OF assms(1)] by auto
  have "encode_instr (layout w 0 ?xs) (of_nat (fst (ps ! k) - B)) (?i \<lparr> m_class := ?c \<rparr>) =
      take (byte_size ?i) (drop (fst (ps ! k)) mem)"
  proof (rule encode_decoded [OF _ refl _ _ om])
    show "targets_in ?xs (?i \<lparr> m_class := ?c \<rparr>)" using j(3,4) byte_size_class(3) [of j "?i \<lparr> m_class := ?c \<rparr>"] by simp
  qed (use nth mono valid_ilD(4) [OF v] in \<open>auto simp: resolved_def\<close>)
  then show ?thesis
    using j decoded_layout [OF assms] byte_size_class(2) [of j "?i \<lparr> m_class := ?c \<rparr>"] by (simp add: encode_at_def)
qed

lemma decoded_ilMap:
  assumes "decoded_world mem B e ps g a w" and "k \<le> length ps"
  shows "ilMap_of w (of_nat (pos e ps k - B)) (of_nat (pos e ps k - B)) [a + k..<a + length ps] =
    map (\<lambda>(p, i). \<lparr> oldOffset = of_nat (p - B), newOffset = of_nat (p - B), fAccurate = True \<rparr>) (drop k ps)"
  using assms(2)
proof (induction "length ps - k" arbitrary: k)
  case (Suc l)
  then have k: "k < length ps" and l: "l = length ps - Suc k" by simp_all
  have v: "valid_il mem B e ps" using assms(1) by (simp add: decoded_world_def)
  note pp = valid_ilD(1) [OF v]
  have p: "of_nat (pos e ps (Suc k) - B) = of_nat (pos e ps k - B) + (of_nat (byte_size (snd (ps ! k))) :: DWORD)"
    using parsed_nth [OF pp k] parsed_mono [OF pp k] k by (auto simp: pos_def simp flip: of_nat_add)
  have pk: "pos e ps k = fst (ps ! k)" using k by (simp add: pos_def)
  obtain j where j: "w_instrs w (a + k) = Some j" "\<not> GetIsNew j" "m_origOffset j = of_nat (fst (ps ! k) - B)"
    "byte_size j = byte_size (snd (ps ! k))" "instr_size j = of_nat (byte_size j)"
    using assms(1) k by (rule decoded_node)
  show ?case
    using Suc.hyps(1) [OF l] k j p pk
    by (simp add: upt_conv_Cons Cons_nth_drop_Suc [symmetric] split_beta)
qed simp

lemma decoded_bytes:
  assumes "decoded_world mem B e ps g a w"
  shows "concat (map (encode_at w [a..<a + length ps]) [a..<a + length ps]) = take (e - B) (drop B mem)"
proof -
  have "map (encode_at w [a..<a + length ps]) [a..<a + length ps] = map (\<lambda>(p, i). take (byte_size i) (drop p mem)) ps"
    by (rule nth_equalityI) (simp_all add: decoded_encode_at [OF assms] split_beta)
  then show ?thesis using parsed_slices [of mem e B ps] assms valid_ilD(1) by (simp add: decoded_world_def)
qed

text \<open>C5. Instrumenting nothing changes nothing: on every well-formed IL stream, wherever it lies in
  the method body, \<^verbatim>\<open>DecodeInstructions\<close> succeeds, and \<^verbatim>\<open>EncodeIL\<close> on the graph it built
  succeeds and writes exactly the bytes that were decoded, together with the identity IL map.\<close>

theorem decode_encode_identity:
  assumes "valid_il mem B e ps" and "B < e" and "w_graphs w g \<noteq> None"
  shows "\<exists>w' w''. DecodeInstructions g mem B e w = (Ok (), w') \<and>
    EncodeIL g w' = (Ok (take (e - B) (drop B mem),
      map (\<lambda>(p, i). \<lparr> oldOffset = of_nat (p - B), newOffset = of_nat (p - B), fAccurate = True \<rparr>) ps), w'')"
proof -
  obtain gr where gr: "w_graphs w g = Some gr" using assms(3) by auto
  obtain w' where w': "DecodeInstructions g mem B e w = (Ok (), w')" and d: "decoded_world mem B e ps g (w_next w) w'"
    using DecodeInstructions_list [OF assms(1,2) gr] assms(1) by (auto simp: decoded_world_def)
  have "pos e ps 0 - B = 0" using valid_ilD(1) [OF assms(1)] d by (cases ps) (auto simp: pos_def decoded_world_def)
  then show ?thesis
    using EncodeIL_list [OF decoded_encodable [OF d]] decoded_bytes [OF d] decoded_ilMap [OF d, of 0] w' by auto
qed

text \<open>A body with a branch and a switch, behind a one-byte header.\<close>

definition sample_body :: "byte list" where
  "sample_body = [0x36,  0x02,  0x2C, 0x09,  0x45, 1, 0, 0, 0, 0, 0, 0, 0,  0x2A]"

definition sample_ps :: "(nat \<times> instr) list" where
  "sample_ps = the (il_parse 14 sample_body 1 14)"

theorem decode_encode_identity_witness:
  "\<exists>w' w''. DecodeInstructions 0 sample_body 1 14 (put_graph 0 (new_CInstructionGraph None) empty_world) = (Ok (), w') \<and>
    EncodeIL 0 w' = (Ok (take (14 - 1) (drop 1 sample_body),
      map (\<lambda>(p, i). \<lparr> oldOffset = of_nat (p - 1), newOffset = of_nat (p - 1), fAccurate = True \<rparr>) sample_ps), w'')"
proof (rule decode_encode_identity)
  have "il_parse 14 sample_body 1 14 = Some sample_ps" by code_simp
  moreover have "il_targets_ok 1 sample_ps" "\<not> GetIsSwitchInternal (snd (last sample_ps))" by code_simp+
  ultimately show "valid_il sample_body 1 14 sample_ps" by (simp add: valid_il_def sample_body_def)
qed simp_all

end
