(* ===== verification/Exceptions.thy ===== *)
theory Exceptions
  imports GraphOffsets
begin

text \<open>
  Exception clauses and sections: \<^verbatim>\<open>InstrumentationEngine/ExceptionClause.cpp\<close> and
  \<^verbatim>\<open>ExceptionSection.cpp\<close>.  A clause points to the first and last instruction of its ranges;
  the section of a method is the vector of its clauses, kept in the method info.
\<close>

section \<open>Clauses\<close>

definition new_CExceptionClause :: "DWORD \<Rightarrow> clause" where
  "new_CExceptionClause flags = \<lparr> m_clauseFlags = flags, m_pTryFirstInstruction = None,
     m_pTryLastInstruction = None, m_pHandlerFirstInstruction = None,
     m_pHandlerLastInstruction = None, m_pFilterFirstInstruction = None,
     m_ExceptionHandlerType = mdTokenNil \<rparr>"

definition new_clause :: "clause \<Rightarrow> (world, caddr) op" where
  "new_clause c w = (Ok (w_nextClause w), w \<lparr> w_clauses := (w_clauses w)(w_nextClause w \<mapsto> c),
     w_nextClause := w_nextClause w + 1 \<rparr>)"

text \<open>The handler lookups may fail, which leaves the pointer null.\<close>

definition InitializeFromFat :: "gid \<Rightarrow> EH_CLAUSE \<Rightarrow> (world, clause) op" where
  "InitializeFromFat g eh =
     IfFailRet (GetInstructionAtOffset g (cl_TryOffset eh)) (\<lambda>tryFirst.
     IfFailRet (GetInstructionAtEndOffset g (cl_TryOffset eh + cl_TryLength eh)) (\<lambda>tryLast.
     Discard (GetInstructionAtOffset g (cl_HandlerOffset eh)) (\<lambda>handlerFirst.
     Discard (GetInstructionAtEndOffset g (cl_HandlerOffset eh + cl_HandlerLength eh)) (\<lambda>handlerLast.
     let c = (new_CExceptionClause (cl_Flags eh)) \<lparr> m_pTryFirstInstruction := Some tryFirst,
           m_pTryLastInstruction := Some tryLast, m_pHandlerFirstInstruction := handlerFirst,
           m_pHandlerLastInstruction := handlerLast \<rparr> in
     if cl_Flags eh = COR_ILEXCEPTION_CLAUSE_NONE
     then ret (c \<lparr> m_ExceptionHandlerType := cl_ClassToken eh \<rparr>)
     else if cl_Flags eh = COR_ILEXCEPTION_CLAUSE_FILTER
     then IfFailRet (GetInstructionAtOffset g (cl_ClassToken eh)) (\<lambda>f.
       ret (c \<lparr> m_pFilterFirstInstruction := Some f \<rparr>))
     else ret c))))"

text \<open>The small clause has the same members with fewer bits; \<open>eh\<close> holds them widened, and the sums of
  a 16-bit and an 8-bit member do not wrap.\<close>

definition InitializeFromSmall :: "gid \<Rightarrow> EH_CLAUSE \<Rightarrow> (world, clause) op" where
  "InitializeFromSmall g eh = InitializeFromFat g eh"

text \<open>Rendering into a clause whose last member has the value \<open>old\<close>: a clause that is neither
  typed nor a filter leaves it.\<close>

definition RenderExceptionClause :: "DWORD \<Rightarrow> caddr \<Rightarrow> (world, EH_CLAUSE) op" where
  "RenderExceptionClause old c = IfFailRet (get_clause c) (\<lambda>cl.
     IfNullRet (m_pTryFirstInstruction cl) (\<lambda>tryFirst.
     IfNullRet (m_pTryLastInstruction cl) (\<lambda>tryLast.
     IfNullRet (m_pHandlerFirstInstruction cl) (\<lambda>handlerFirst.
     IfNullRet (m_pHandlerLastInstruction cl) (\<lambda>handlerLast.
     IfFailRet (get_instr tryLast) (\<lambda>i. IfFailRet (liftR (GetInstructionSize i)) (\<lambda>lastTrySize.
     IfFailRet (GetOffset tryFirst) (\<lambda>firstTryOffset.
     IfFailRet (GetOffset tryLast) (\<lambda>lastTryOffset.
     IfFailRet (get_instr handlerLast) (\<lambda>i. IfFailRet (liftR (GetInstructionSize i)) (\<lambda>lastHandlerSize.
     IfFailRet (GetOffset handlerFirst) (\<lambda>firstHandlerOffset.
     IfFailRet (GetOffset handlerLast) (\<lambda>lastHandlerOffset.
     let eh = \<lparr> cl_Flags = m_clauseFlags cl, cl_TryOffset = firstTryOffset,
         cl_TryLength = (lastTryOffset + lastTrySize) - firstTryOffset,
         cl_HandlerOffset = firstHandlerOffset,
         cl_HandlerLength = (lastHandlerOffset + lastHandlerSize) - firstHandlerOffset,
         cl_ClassToken = old \<rparr> in
     if m_clauseFlags cl = COR_ILEXCEPTION_CLAUSE_NONE
     then ret (eh \<lparr> cl_ClassToken := m_ExceptionHandlerType cl \<rparr>)
     else if m_clauseFlags cl = COR_ILEXCEPTION_CLAUSE_FILTER
     then (case m_pFilterFirstInstruction cl of
         None \<Rightarrow> undef
       | Some f \<Rightarrow> IfFailRet (GetOffset f) (\<lambda>off. ret (eh \<lparr> cl_ClassToken := off \<rparr>)))
     else ret eh)))))))))))))"

text \<open>A first instruction moves to the new one; a last instruction only when the old one was
  removed.\<close>

definition movedFirst :: "addr \<Rightarrow> addr option \<Rightarrow> addr option \<Rightarrow> addr option" where
  "movedFirst pOld pNew p = (if p = Some pOld then pNew else p)"

definition movedLast :: "bool \<Rightarrow> addr \<Rightarrow> addr option \<Rightarrow> addr option \<Rightarrow> addr option" where
  "movedLast isRemoved pOld pNew p = (if p = Some pOld \<and> isRemoved then pNew else p)"

definition CExceptionClause_UpdateInstruction :: "bool \<Rightarrow> addr \<Rightarrow> addr option \<Rightarrow> clause \<Rightarrow> clause" where
  "CExceptionClause_UpdateInstruction isRemoved pOld pNew c = c \<lparr>
     m_pTryFirstInstruction := movedFirst pOld pNew (m_pTryFirstInstruction c),
     m_pTryLastInstruction := movedLast isRemoved pOld pNew (m_pTryLastInstruction c),
     m_pHandlerFirstInstruction := movedFirst pOld pNew (m_pHandlerFirstInstruction c),
     m_pHandlerLastInstruction := movedLast isRemoved pOld pNew (m_pHandlerLastInstruction c),
     m_pFilterFirstInstruction := movedFirst pOld pNew (m_pFilterFirstInstruction c) \<rparr>"

text \<open>The getters and setters; a null instruction is allowed.\<close>

definition GetFlags :: "caddr \<Rightarrow> (world, DWORD) op" where
  "GetFlags c = IfFailRet (get_clause c) (\<lambda>cl. ret (m_clauseFlags cl))"

definition GetTryFirstInstruction :: "caddr \<Rightarrow> (world, addr option) op" where
  "GetTryFirstInstruction c = IfFailRet (get_clause c) (\<lambda>cl. ret (m_pTryFirstInstruction cl))"

definition GetTryLastInstruction :: "caddr \<Rightarrow> (world, addr option) op" where
  "GetTryLastInstruction c = IfFailRet (get_clause c) (\<lambda>cl. ret (m_pTryLastInstruction cl))"

definition GetHandlerFirstInstruction :: "caddr \<Rightarrow> (world, addr option) op" where
  "GetHandlerFirstInstruction c = IfFailRet (get_clause c) (\<lambda>cl. ret (m_pHandlerFirstInstruction cl))"

definition GetHandlerLastInstruction :: "caddr \<Rightarrow> (world, addr option) op" where
  "GetHandlerLastInstruction c = IfFailRet (get_clause c) (\<lambda>cl. ret (m_pHandlerLastInstruction cl))"

definition GetFilterFirstInstruction :: "caddr \<Rightarrow> (world, addr option) op" where
  "GetFilterFirstInstruction c = IfFailRet (get_clause c) (\<lambda>cl. ret (m_pFilterFirstInstruction cl))"

definition GetExceptionHandlerType :: "caddr \<Rightarrow> (world, mdToken) op" where
  "GetExceptionHandlerType c = IfFailRet (get_clause c) (\<lambda>cl. ret (m_ExceptionHandlerType cl))"

definition SetFlags :: "caddr \<Rightarrow> DWORD \<Rightarrow> (world, unit) op" where
  "SetFlags c v = upd_clause c (\<lambda>cl. cl \<lparr> m_clauseFlags := v \<rparr>)"

definition SetTryFirstInstruction :: "caddr \<Rightarrow> addr option \<Rightarrow> (world, unit) op" where
  "SetTryFirstInstruction c v = upd_clause c (\<lambda>cl. cl \<lparr> m_pTryFirstInstruction := v \<rparr>)"

definition SetTryLastInstruction :: "caddr \<Rightarrow> addr option \<Rightarrow> (world, unit) op" where
  "SetTryLastInstruction c v = upd_clause c (\<lambda>cl. cl \<lparr> m_pTryLastInstruction := v \<rparr>)"

definition SetHandlerFirstInstruction :: "caddr \<Rightarrow> addr option \<Rightarrow> (world, unit) op" where
  "SetHandlerFirstInstruction c v = upd_clause c (\<lambda>cl. cl \<lparr> m_pHandlerFirstInstruction := v \<rparr>)"

definition SetHandlerLastInstruction :: "caddr \<Rightarrow> addr option \<Rightarrow> (world, unit) op" where
  "SetHandlerLastInstruction c v = upd_clause c (\<lambda>cl. cl \<lparr> m_pHandlerLastInstruction := v \<rparr>)"

definition SetFilterFirstInstruction :: "caddr \<Rightarrow> addr option \<Rightarrow> (world, unit) op" where
  "SetFilterFirstInstruction c v = upd_clause c (\<lambda>cl. cl \<lparr> m_pFilterFirstInstruction := v \<rparr>)"

definition SetExceptionHandlerType :: "caddr \<Rightarrow> mdToken \<Rightarrow> (world, unit) op" where
  "SetExceptionHandlerType c v = upd_clause c (\<lambda>cl. cl \<lparr> m_ExceptionHandlerType := v \<rparr>)"

section \<open>The section of a method\<close>

definition get_clauses :: "mid \<Rightarrow> (world, caddr list) op" where
  "get_clauses m = IfFailRet (get_method m) (\<lambda>mi. liftR (deref (m_pExceptionSection mi)))"

definition set_clauses :: "mid \<Rightarrow> (caddr list \<Rightarrow> caddr list) \<Rightarrow> (world, unit) op" where
  "set_clauses m f = upd_method m (\<lambda>mi. mi \<lparr> m_pExceptionSection := map_option f (m_pExceptionSection mi) \<rparr>)"

fun initializeClauses :: "mid \<Rightarrow> gid \<Rightarrow> byte list \<Rightarrow> nat \<Rightarrow> nat list \<Rightarrow> (world, unit) op" where
  "initializeClauses m g mem p [] = ret ()"
| "initializeClauses m g mem p (idx # idxs) =
     IfFailRet (liftR (Sect_KindByte mem p)) (\<lambda>k.
     IfFailRet (liftR (SectEH_EHClause mem p idx)) (\<lambda>eh.
     IfFailRet (if Sect_IsFat k then InitializeFromFat g eh else InitializeFromSmall g eh) (\<lambda>c.
     IfFailRet (new_clause c) (\<lambda>a.
     IfFailRet (set_clauses m (\<lambda>cs. cs @ [a])) (\<lambda>_.
       initializeClauses m g mem p idxs)))))"

text \<open>The next exception section behind the one at \<open>p\<close>.\<close>

fun nextEHSect :: "nat \<Rightarrow> byte list \<Rightarrow> nat \<Rightarrow> nat option result" where
  "nextEHSect 0 mem p = Diverge"
| "nextEHSect (Suc n) mem p = bindR (Sect_Next mem p) (\<lambda>q. case q of
     None \<Rightarrow> Ok None
   | Some q \<Rightarrow> bindR (Sect_KindByte mem q) (\<lambda>k.
       if Sect_Kind k AND CorILMethod_Sect_KindMask \<noteq> CorILMethod_Sect_EHTable
       then nextEHSect n mem q else Ok (Some q)))"

fun initializeSections :: "nat \<Rightarrow> mid \<Rightarrow> gid \<Rightarrow> byte list \<Rightarrow> nat option \<Rightarrow> (world, unit) op" where
  "initializeSections 0 m g mem p = diverge"
| "initializeSections (Suc n) m g mem p = (case p of
     None \<Rightarrow> ret ()
   | Some p \<Rightarrow> IfFailRet (liftR (EHCount mem p)) (\<lambda>nCount.
       IfFailRet (initializeClauses m g mem p [0..<nCount]) (\<lambda>_.
       IfFailRet (liftR (nextEHSect (length mem + 1) mem p)) (\<lambda>q.
         initializeSections n m g mem q))))"

text \<open>\<open>mem\<close> is the method body with the header at 0.  The sections follow each other, so a body
  has fewer of them than bytes.\<close>

definition CExceptionSection_Initialize :: "mid \<Rightarrow> byte list \<Rightarrow> gid \<Rightarrow> (world, unit) op" where
  "CExceptionSection_Initialize m mem g = IfFailRet (liftR (load_le mem 0 1)) (\<lambda>b.
     if Tiny_IsTiny b then ret ()
     else IfFailRet (liftR (readFatHeader mem 0)) (\<lambda>h.
       if h_Flags h AND CorILMethod_MoreSects = 0 then ret ()
       else IfFailRet (liftR (DecoderInit mem h)) (\<lambda>eh.
         initializeSections (length mem + 1) m g mem eh)))"

definition AddExceptionClause :: "mid \<Rightarrow> caddr option \<Rightarrow> (world, unit) op" where
  "AddExceptionClause m pClause = IfNullRetPointer pClause (\<lambda>c. set_clauses m (\<lambda>cs. cs @ [c]))"

definition RemoveExceptionClause :: "mid \<Rightarrow> caddr option \<Rightarrow> (world, unit) op" where
  "RemoveExceptionClause m pClause = IfNullRetPointer pClause (\<lambda>c. set_clauses m (remove1 c))"

definition RemoveAllExceptionClauses :: "mid \<Rightarrow> (world, unit) op" where
  "RemoveAllExceptionClauses m = set_clauses m (\<lambda>_. [])"

fun updateClauses :: "bool \<Rightarrow> addr \<Rightarrow> addr option \<Rightarrow> caddr list \<Rightarrow> (world, unit) op" where
  "updateClauses isRemoved pOld pNew [] = ret ()"
| "updateClauses isRemoved pOld pNew (c # cs) =
     IfFailRet (upd_clause c (CExceptionClause_UpdateInstruction isRemoved pOld pNew)) (\<lambda>_.
       updateClauses isRemoved pOld pNew cs)"

definition CExceptionSection_UpdateInstruction :: "mid \<Rightarrow> addr \<Rightarrow> addr option \<Rightarrow> (world, unit) op" where
  "CExceptionSection_UpdateInstruction m pOld pNew = IfFailRet (get_clauses m) (\<lambda>cs.
     IfFailRet (get_instr pOld) (\<lambda>i. updateClauses (m_bIsRemoved i) pOld pNew cs))"

section \<open>Inserting a clause\<close>

text \<open>Null ends of a range are dereferenced.\<close>

definition tryRange :: "clause \<Rightarrow> (world, DWORD \<times> DWORD) op" where
  "tryRange c = IfFailRet (liftR (deref (m_pTryFirstInstruction c))) (\<lambda>first.
     IfFailRet (GetOffset first) (\<lambda>firstOffset.
     IfFailRet (liftR (deref (m_pTryLastInstruction c))) (\<lambda>last.
     IfFailRet (GetOffset last) (\<lambda>lastOffset.
     IfFailRet (get_instr last) (\<lambda>i.
     IfFailRet (liftR (GetInstructionLength i)) (\<lambda>len. ret (firstOffset, lastOffset + len)))))))"

definition IsExistingTryContainedWithinNewTry :: "clause \<Rightarrow> clause \<Rightarrow> (world, bool) op" where
  "IsExistingTryContainedWithinNewTry existing new =
     IfFailRet (tryRange new) (\<lambda>(newFirst, newFinal).
     IfFailRet (tryRange existing) (\<lambda>(existingFirst, existingFinal).
       ret (newFirst \<le> existingFirst \<and> existingFinal \<le> newFinal)))"

text \<open>The reverse search over the clauses \<open>cs\<close> that are not yet looked at; the result is the
  position behind the last contained clause.\<close>

fun insertionPoint_loop :: "clause \<Rightarrow> caddr list \<Rightarrow> (world, nat) op" where
  "insertionPoint_loop new [] = ret 0"
| "insertionPoint_loop new (c # rs) = IfFailRet (get_clause c) (\<lambda>existing.
     IfFailRet (IsExistingTryContainedWithinNewTry existing new) (\<lambda>bIsContained.
       if bIsContained then ret (length (c # rs)) else insertionPoint_loop new rs))"

definition FindExceptionClauseInsertionPoint :: "mid \<Rightarrow> clause \<Rightarrow> (world, nat) op" where
  "FindExceptionClauseInsertionPoint m new = IfFailRet (get_clauses m) (\<lambda>cs.
     insertionPoint_loop new (rev cs))"

definition AddNewExceptionClause :: "mid \<Rightarrow> DWORD \<Rightarrow> addr option \<Rightarrow> addr option \<Rightarrow> addr option
    \<Rightarrow> addr option \<Rightarrow> addr option \<Rightarrow> mdToken \<Rightarrow> (world, caddr) op" where
  "AddNewExceptionClause m flags tryFirst tryLast handlerFirst handlerLast filterLast token =
     (let c = \<lparr> m_clauseFlags = flags, m_pTryFirstInstruction = tryFirst,
         m_pTryLastInstruction = tryLast, m_pHandlerFirstInstruction = handlerFirst,
         m_pHandlerLastInstruction = handlerLast, m_pFilterFirstInstruction = filterLast,
         m_ExceptionHandlerType = token \<rparr> in
      IfFailRet (FindExceptionClauseInsertionPoint m c) (\<lambda>k.
      IfFailRet (new_clause c) (\<lambda>a.
      IfFailRet (set_clauses m (\<lambda>cs. take k cs @ [a] @ drop k cs)) (\<lambda>_. ret a))))"

section \<open>Writing the section\<close>

text \<open>\<open>garbage\<close> gives the bytes of the freshly allocated buffer.  A clause that cannot be rendered
  keeps them.\<close>

fun renderClauses :: "(nat \<Rightarrow> byte) \<Rightarrow> nat \<Rightarrow> caddr list \<Rightarrow> (world, byte list) op" where
  "renderClauses garbage k [] = ret []"
| "renderClauses garbage k (c # cs) = (let base = 4 + 24 * k in
     Discard (RenderExceptionClause (le_word (map garbage [base + 20..<base + 24])) c) (\<lambda>eh.
     IfFailRet (renderClauses garbage (Suc k) cs) (\<lambda>bs.
       ret ((case eh of None \<Rightarrow> map garbage [base..<base + 24] | Some eh \<Rightarrow> fatClauseBytes eh) @ bs))))"

text \<open>\<^const>\<open>None\<close> is the null buffer with \<^verbatim>\<open>S_FALSE\<close>.  The buffer has room for one clause more
  than there are.\<close>

definition CreateExceptionHeader :: "(nat \<Rightarrow> byte) \<Rightarrow> mid \<Rightarrow> (world, byte list option) op" where
  "CreateExceptionHeader garbage m = IfFailRet (get_clauses m) (\<lambda>cs.
     if cs = [] then ret None
     else (let dataSize = of_nat (length cs) * 24 :: DWORD; n = 4 + 24 * length cs in
       IfFailRet (renderClauses garbage 0 cs) (\<lambda>bs.
         ret (Some ([CorILMethod_Sect_EHTable OR CorILMethod_Sect_FatFormat] @ le_bytes 3 dataSize
           @ bs @ map garbage [n..<n + 24])))))"

end
