(* ===== verification/MethodBody.thy ===== *)
theory MethodBody
  imports Exceptions
begin

text \<open>
  The part of \<^verbatim>\<open>CMethodInfo\<close> (\<^verbatim>\<open>InstrumentationEngine/MethodInfo.cpp\<close>) that turns the method
  body into an instruction graph and an exception section on first use, and the merging of IL maps.
\<close>

section \<open>The header\<close>

definition tinyAsFat :: "byte \<Rightarrow> COR_ILMETHOD_FAT" where
  "tinyAsFat b = \<lparr> h_Flags = CorILMethod_FatFormat OR CorILMethod_InitLocals, h_Size = 3,
     h_MaxStack = 8, h_CodeSize = Tiny_GetCodeSize b, h_LocalVarSigTok = 0 \<rparr>"

definition InitializeHeader :: "mid \<Rightarrow> (world, byte list) op" where
  "InitializeHeader m = IfFailRet (get_method m) (\<lambda>mi.
     IfFailRet (liftR (m_methodIl mi)) (\<lambda>pMethodHeader.
     IfFailRet
       (if m_bIsHeaderInitialized mi then ret ()
        else IfFailRet (liftR (load_le pMethodHeader 0 1)) (\<lambda>b.
          IfFailRet (if Tiny_IsTiny b then ret (tinyAsFat b) else liftR (readFatHeader pMethodHeader 0)) (\<lambda>h.
            upd_method m (\<lambda>mi. mi \<lparr> m_newCorHeader := h \<lparr> h_Flags := h_Flags h OR CorILMethod_InitLocals \<rparr>,
              m_bIsHeaderInitialized := True \<rparr>))))
       (\<lambda>_. ret pMethodHeader)))"

section \<open>Instructions and exceptions on first use\<close>

text \<open>The code of a tiny method has the size the first initialisation of the header recorded.\<close>

definition methodCode :: "byte list \<Rightarrow> COR_ILMETHOD_FAT \<Rightarrow> (nat \<times> DWORD) result" where
  "methodCode pMethodHeader newCorHeader = bindR (load_le pMethodHeader 0 1) (\<lambda>b.
     if Tiny_IsTiny b then Ok (1, h_CodeSize newCorHeader)
     else bindR (readFatHeader pMethodHeader 0) (\<lambda>h. Ok (12, h_CodeSize h)))"

text \<open>The graph is attached before anything that can fail, and a second call finds it.\<close>

definition InitializeInstructionsAndExceptions :: "mid \<Rightarrow> (world, unit) op" where
  "InitializeInstructionsAndExceptions m = IfFailRet (get_method m) (\<lambda>mi.
     if m_pInstructionGraph mi \<noteq> None then ret ()
     else
     IfFailRet (new_graph (Some m)) (\<lambda>g.
     IfFailRet (upd_method m (\<lambda>mi. mi \<lparr> m_pInstructionGraph := Some g \<rparr>)) (\<lambda>_.
     IfFailRet (InitializeHeader m) (\<lambda>pMethodHeader.
     IfFailRet (get_method m) (\<lambda>mi.
     IfFailRet (liftR (methodCode pMethodHeader (m_newCorHeader mi))) (\<lambda>(pMethodBody, codeSize).
     IfFailRet (DecodeInstructions g pMethodHeader pMethodBody (pMethodBody + unat codeSize)) (\<lambda>_.
     IfFailRet (upd_method m (\<lambda>mi. mi \<lparr> m_pExceptionSection := Some [] \<rparr>)) (\<lambda>_.
     IfFailRet (CExceptionSection_Initialize m pMethodHeader g) (\<lambda>_.
       ExpandBranches g)))))))))"

definition GetInstructions :: "mid \<Rightarrow> (world, gid) op" where
  "GetInstructions m = IfFailRet (get_method m) (\<lambda>mi.
     IfFailRet (if m_pInstructionGraph mi = None then InitializeInstructionsAndExceptions m else ret ()) (\<lambda>_.
     IfFailRet (get_method m) (\<lambda>mi. liftR (deref (m_pInstructionGraph mi)))))"

text \<open>The result stands for the section of \<open>m\<close>; it is present when the call succeeds.\<close>

definition GetExceptionSection :: "mid \<Rightarrow> (world, unit) op" where
  "GetExceptionSection m = IfFailRet (get_method m) (\<lambda>mi.
     IfFailRet (if m_pExceptionSection mi = None \<and> m_pInstructionGraph mi = None
                then InitializeInstructionsAndExceptions m else ret ()) (\<lambda>_.
     IfFailRet (get_method m) (\<lambda>mi.
       if m_pExceptionSection mi = None then fail E_FAIL else ret ())))"

section \<open>Merging IL maps\<close>

text \<open>The index of the old entries by new offset: a later entry replaces an earlier one.\<close>

definition indexByNewOffset :: "COR_IL_MAP list \<Rightarrow> DWORD \<Rightarrow> COR_IL_MAP option" where
  "indexByNewOffset old = map_of (rev (map (\<lambda>e. (newOffset e, e)) old))"

text \<open>The conversion overwrites the caller's entries; entries without a match stay as they are.\<close>

definition convertEntry :: "COR_IL_MAP list \<Rightarrow> COR_IL_MAP \<Rightarrow> COR_IL_MAP" where
  "convertEntry old e = (case indexByNewOffset old (oldOffset e) of
     None \<Rightarrow> e | Some p \<Rightarrow> e \<lparr> oldOffset := oldOffset p \<rparr>)"

definition mergeMaps :: "COR_IL_MAP list \<Rightarrow> COR_IL_MAP list \<Rightarrow> COR_IL_MAP list" where
  "mergeMaps old new = map (convertEntry old)
     (filter (\<lambda>e. indexByNewOffset old (oldOffset e) \<noteq> None) new)"

text \<open>\<open>samePointer\<close>: the caller passes the method's own array.  The result is the caller's array
  after the call.\<close>

definition MergeILInstrumentedCodeMap ::
  "mid \<Rightarrow> bool \<Rightarrow> COR_IL_MAP list \<Rightarrow> (world, COR_IL_MAP list) op" where
  "MergeILInstrumentedCodeMap m samePointer rgILMapEntries = IfFailRet (get_method m) (\<lambda>mi.
     let old = m_pCorILMap mi in
     IfFailRet
       (if old \<noteq> [] then
          (if samePointer then ret rgILMapEntries
           else IfFailRet (upd_method m (\<lambda>mi. mi \<lparr> m_pCorILMap := mergeMaps old rgILMapEntries \<rparr>)) (\<lambda>_.
             ret (map (convertEntry old) rgILMapEntries)))
        else IfFailRet (upd_method m (\<lambda>mi. mi \<lparr> m_pCorILMap := rgILMapEntries \<rparr>)) (\<lambda>_.
          ret rgILMapEntries)) (\<lambda>entries.
     IfFailRet (upd_method m (\<lambda>mi. mi \<lparr> m_savedILMap := Some (m_pCorILMap mi) \<rparr>)) (\<lambda>_. ret entries)))"

end
