(* ===== verification/GraphEdits.thy ===== *)
theory GraphEdits
  imports MethodBody
begin

text \<open>
  The editing operations of \<^verbatim>\<open>CInstructionGraph\<close> (\<^verbatim>\<open>InstructionGraph.cpp\<close>): inserting,
  replacing and removing instructions, and replacing the whole body by a baseline.  They are shown
  to be the list operations their names promise, on graphs of any length and with any branch
  targets, and to keep the graph a well-formed doubly linked list, so any sequence of edits
  does.
\<close>

section \<open>The operations\<close>

text \<open>Linking \<open>pInstrNew\<close> in front of \<open>pInstrOrig\<close>, shared by the two insertions; \<open>pPrev\<close> is the
  result of \<^verbatim>\<open>GetPreviousInstruction\<close>, null when it fails.\<close>

definition linkBefore :: "gid \<Rightarrow> addr \<Rightarrow> addr \<Rightarrow> addr option \<Rightarrow> (world, unit) op" where
  "linkBefore g pInstrOrig pInstrNew pPrev =
     IfFailRet (upd_instr pInstrOrig (SetPreviousInstruction (Some pInstrNew) False)) (\<lambda>_.
     IfFailRet (upd_instr pInstrNew (SetNextInstruction (Some pInstrOrig) False)) (\<lambda>_.
       case pPrev of
         Some p \<Rightarrow> if p \<noteq> pInstrNew
           then IfFailRet (upd_instr p (SetNextInstruction (Some pInstrNew) False)) (\<lambda>_.
             upd_instr pInstrNew (SetPreviousInstruction (Some p) False))
           else ret ()
       | None \<Rightarrow> upd_graph g (\<lambda>gr. gr \<lparr> m_pFirstInstruction := Some pInstrNew \<rparr>)))"

definition InsertBefore :: "gid \<Rightarrow> addr option \<Rightarrow> addr option \<Rightarrow> (world, unit) op" where
  "InsertBefore g pInstructionOrig pInstructionNew =
     IfNullRetPointer pInstructionOrig (\<lambda>pInstrOrig.
     IfNullRetPointer pInstructionNew (\<lambda>pInstrNew.
     IfFailRet (get_instr pInstrOrig) (\<lambda>i.
     IfFalseRet (m_pGraph i = Some g) E_UNEXPECTED
     (IfFailRet (SetGraph pInstrNew g) (\<lambda>_.
      IfFailRet (get_instr pInstrOrig) (\<lambda>i.
      IfFailRet (linkBefore g pInstrOrig pInstrNew (m_pPreviousInstruction i)) (\<lambda>_.
        MarkInstructionsStale g))))))) "

definition InsertAfter :: "gid \<Rightarrow> addr option \<Rightarrow> addr option \<Rightarrow> (world, unit) op" where
  "InsertAfter g pInstructionOrig pInstructionNew =
     IfNullRetPointer pInstructionNew (\<lambda>pInstrNew.
     IfFailRet (SetGraph pInstrNew g) (\<lambda>_.
     IfFailRet (upd_instr pInstrNew (SetPreviousInstruction pInstructionOrig False)) (\<lambda>_.
     IfFailRet
       (case pInstructionOrig of
          Some pInstrOrig \<Rightarrow> IfFailRet (get_instr pInstrOrig) (\<lambda>i.
            IfFalseRet (m_pGraph i = Some g) E_UNEXPECTED
            (IfFailRet (upd_instr pInstrOrig (SetNextInstruction (Some pInstrNew) False)) (\<lambda>_.
              ret (m_pNextInstruction i))))
        | None \<Rightarrow> IfFailRet (upd_graph g (\<lambda>gr. gr \<lparr> m_pFirstInstruction := Some pInstrNew \<rparr>)) (\<lambda>_.
            ret None)) (\<lambda>pNextInstruction.
     IfFailRet
       (case pNextInstruction of
          Some n \<Rightarrow> if n \<noteq> pInstrNew
            then IfFailRet (upd_instr n (SetPreviousInstruction (Some pInstrNew) False)) (\<lambda>_.
              upd_instr pInstrNew (SetNextInstruction (Some n) False))
            else ret ()
        | None \<Rightarrow> upd_graph g (\<lambda>gr. gr \<lparr> m_pLastInstruction := Some pInstrNew \<rparr>)) (\<lambda>_.
       MarkInstructionsStale g)))))"

text \<open>The last step of three edits: the exception ranges that end at \<open>pOld\<close>.  The HRESULT of
  \<^verbatim>\<open>UpdateInstruction\<close> is not looked at.\<close>

definition updateExceptionSection :: "gid \<Rightarrow> addr \<Rightarrow> addr \<Rightarrow> (world, unit) op" where
  "updateExceptionSection g pOld pNew = IfFailRet (get_graph g) (\<lambda>gr. case m_pMethodInfo gr of
       None \<Rightarrow> ret ()
     | Some m \<Rightarrow> IfFailRet (GetExceptionSection m) (\<lambda>_.
         Discard (CExceptionSection_UpdateInstruction m pOld (Some pNew)) (\<lambda>_. ret ())))"

definition InsertBeforeAndRetargetOffsets :: "gid \<Rightarrow> addr option \<Rightarrow> addr option \<Rightarrow> (world, unit) op" where
  "InsertBeforeAndRetargetOffsets g pInstructionOrig pInstructionNew =
     IfNullRetPointer pInstructionOrig (\<lambda>pInstrOrig.
     IfNullRetPointer pInstructionNew (\<lambda>pInstrNew.
     IfFailRet (get_instr pInstrOrig) (\<lambda>i.
     IfFalseRet (m_pGraph i = Some g) E_UNEXPECTED
     (IfFailRet (SetGraph pInstrNew g) (\<lambda>_.
      IfFailRet (get_instr pInstrOrig) (\<lambda>i.
      IfFailRet (linkBefore g pInstrOrig pInstrNew (m_pPreviousInstruction i)) (\<lambda>_.
      IfFailRet (MarkInstructionsStale g) (\<lambda>_.
      IfFailRet (RetargetBranches pInstrOrig pInstrNew) (\<lambda>_.
        updateExceptionSection g pInstrOrig pInstrNew))))))))) "

definition Replace :: "gid \<Rightarrow> addr option \<Rightarrow> addr option \<Rightarrow> (world, unit) op" where
  "Replace g pInstructionOrig pInstructionNew =
     IfNullRetPointer pInstructionOrig (\<lambda>pInstrOrig.
     IfNullRetPointer pInstructionNew (\<lambda>pInstrNew.
     IfFailRet (get_instr pInstrOrig) (\<lambda>i.
     IfFalseRet (m_pGraph i = Some g) E_UNEXPECTED
     (IfFailRet (SetGraph pInstrNew g) (\<lambda>_.
      IfFailRet (get_instr pInstrOrig) (\<lambda>i.
      let pPrev = m_pPreviousInstruction i; pNext = m_pNextInstruction i in
      IfFailRet (upd_instr pInstrOrig SetIsRemoved) (\<lambda>_.
      IfFailRet (case pPrev of
          Some p \<Rightarrow> IfFailRet (upd_instr p (SetNextInstruction (Some pInstrNew) False)) (\<lambda>_.
            upd_instr pInstrNew (SetPreviousInstruction (Some p) False))
        | None \<Rightarrow> upd_graph g (\<lambda>gr. gr \<lparr> m_pFirstInstruction := Some pInstrNew \<rparr>)) (\<lambda>_.
      IfFailRet (case pNext of
          Some n \<Rightarrow> IfFailRet (upd_instr n (SetPreviousInstruction (Some pInstrNew) False)) (\<lambda>_.
            upd_instr pInstrNew (SetNextInstruction (Some n) False))
        | None \<Rightarrow> upd_graph g (\<lambda>gr. gr \<lparr> m_pLastInstruction := Some pInstrNew \<rparr>)) (\<lambda>_.
      IfFailRet (MarkInstructionsStale g) (\<lambda>_.
      IfFailRet (RetargetBranches pInstrOrig pInstrNew) (\<lambda>_.
        updateExceptionSection g pInstrOrig pInstrNew)))))))))))"

definition Remove :: "gid \<Rightarrow> addr option \<Rightarrow> (world, unit) op" where
  "Remove g pInstruction = IfNullRetPointer pInstruction (\<lambda>pInstr.
     IfFailRet (get_instr pInstr) (\<lambda>i.
     IfFalseRet (m_pGraph i = Some g) E_UNEXPECTED
     (let pPrev = m_pPreviousInstruction i; pNext = m_pNextInstruction i in
      IfFailRet (upd_instr pInstr SetIsRemoved) (\<lambda>_.
      IfFailRet (case pPrev of
          Some p \<Rightarrow> upd_instr p (SetNextInstruction pNext False)
        | None \<Rightarrow> upd_graph g (\<lambda>gr. gr \<lparr> m_pFirstInstruction := pNext \<rparr>)) (\<lambda>_.
      IfFailRet (case pNext of
          Some n \<Rightarrow> upd_instr n (SetPreviousInstruction pPrev False)
        | None \<Rightarrow> upd_graph g (\<lambda>gr. gr \<lparr> m_pLastInstruction := pPrev \<rparr>)) (\<lambda>_.
      IfFailRet (MarkInstructionsStale g) (\<lambda>_.
      IfFailRet (get_graph g) (\<lambda>gr. case m_pMethodInfo gr of
          None \<Rightarrow> ret ()
        | Some m \<Rightarrow> IfFailRet (GetExceptionSection m) (\<lambda>_.
            case (pNext, pPrev) of
              (Some n, _) \<Rightarrow> Discard (CExceptionSection_UpdateInstruction m pInstr (Some n)) (\<lambda>_. ret ())
            | (None, Some p) \<Rightarrow> Discard (CExceptionSection_UpdateInstruction m pInstr (Some p)) (\<lambda>_. ret ())
            | (None, None) \<Rightarrow> fail E_FAIL))))))))) "

fun removeAll_loop :: "nat \<Rightarrow> addr option \<Rightarrow> (world, unit) op" where
  "removeAll_loop 0 p = diverge"
| "removeAll_loop (Suc n) p = (case p of
     None \<Rightarrow> ret ()
   | Some a \<Rightarrow>
       IfFailRet (upd_instr a SetIsRemoved) (\<lambda>_.
       IfFailRet (get_instr a) (\<lambda>i.
       IfFailRet (upd_instr a (SetNextInstruction None False)) (\<lambda>_.
       IfFailRet (upd_instr a (SetPreviousInstruction None False)) (\<lambda>_.
         removeAll_loop n (m_pNextInstruction i))))))"

definition RemoveAll :: "gid \<Rightarrow> (world, unit) op" where
  "RemoveAll g = IfFailRet (get_graph g) (\<lambda>gr.
     IfFailRet (\<lambda>w. removeAll_loop (walk_fuel w) (m_pFirstInstruction gr) w) (\<lambda>_.
     IfFailRet (upd_graph g (\<lambda>gr. gr \<lparr> m_pFirstInstruction := None, m_pLastInstruction := None \<rparr>)) (\<lambda>_.
     IfFailRet (get_graph g) (\<lambda>gr. case m_pMethodInfo gr of
         None \<Rightarrow> ret ()
       | Some m \<Rightarrow> IfFailRet (GetExceptionSection m) (\<lambda>_. RemoveAllExceptionClauses m)))))"

section \<open>The baseline\<close>

fun generation_loop :: "nat \<Rightarrow> addr option \<Rightarrow> (world, unit) op" where
  "generation_loop 0 p = diverge"
| "generation_loop (Suc n) p = (case p of
     None \<Rightarrow> ret ()
   | Some a \<Rightarrow> IfFailRet (upd_instr a (SetInstructionGeneration Generation_Baseline)) (\<lambda>_.
       IfFailRet (get_instr a) (\<lambda>i. generation_loop n (m_pNextInstruction i))))"

text \<open>The first \<open>n\<close> elements of an array that may be null.\<close>

definition readArray :: "'a list option \<Rightarrow> DWORD \<Rightarrow> 'a list result" where
  "readArray p n = bindR (deref p) (\<lambda>xs. if unat n \<le> length xs then Ok (take (unat n) xs) else Undef)"

text \<open>The code pointers are positions of \<open>mem\<close>, or null.\<close>

definition CreateBaseline :: "gid \<Rightarrow> byte list \<Rightarrow> nat option \<Rightarrow> nat option \<Rightarrow> COR_IL_MAP list option
    \<Rightarrow> DWORD \<Rightarrow> DWORD list option \<Rightarrow> DWORD \<Rightarrow> (world, unit) op" where
  "CreateBaseline g mem pCodeBase pEndOfCode originalToBaselineCorIlMap mapSize
     baselineSequencePointList pointSize =
     IfNullRetPointer pCodeBase (\<lambda>pBase. IfNullRetPointer pEndOfCode (\<lambda>pEnd.
     if pBase \<ge> pEnd then fail E_INVALIDARG
     else if mapSize > 0 \<and> originalToBaselineCorIlMap = None then fail E_POINTER
     else if pointSize > 0 \<and> baselineSequencePointList = None then fail E_POINTER
     else IfFailRet (get_graph g) (\<lambda>gr.
     if m_pUninstrumentedFirstInstruction gr \<noteq> None then fail E_UNEXPECTED
     else IfFailRet (liftR (deref (m_pMethodInfo gr))) (\<lambda>m.
     IfFailRet (get_method m) (\<lambda>mi.
     if \<not> m_bIsCreateBaselineEnabled mi then fail E_FAIL
     else if m_bHasBaselineBeenSet gr then fail E_FAIL
     else
     IfFailRet (upd_graph g (\<lambda>gr. gr \<lparr> m_bHasBaselineBeenSet := True \<rparr>)) (\<lambda>_.
     IfFailRet (RemoveAll g) (\<lambda>_.
     IfFailRet (upd_graph g (\<lambda>gr. gr \<lparr>
         m_pUninstrumentedFirstInstruction := m_pOrigFirstInstruction gr, m_pOrigFirstInstruction := None,
         m_pUninstrumentedLastInstruction := m_pOrigLastInstruction gr, m_pOrigLastInstruction := None \<rparr>)) (\<lambda>_.
     IfFailRet (DecodeInstructions g mem pBase pEnd) (\<lambda>_.
     IfFailRet (get_graph g) (\<lambda>gr.
     IfFailRet (\<lambda>w. generation_loop (walk_fuel w) (m_pOrigFirstInstruction gr) w) (\<lambda>_.
     IfFailRet
       (if mapSize > 0 then IfFailRet (liftR (readArray originalToBaselineCorIlMap mapSize)) (\<lambda>es.
          upd_graph g (\<lambda>gr. gr \<lparr> m_originalToBaselineIlMap := es \<rparr>)) else ret ()) (\<lambda>_.
     if pointSize > 0 then
       IfFailRet (liftR (readArray baselineSequencePointList pointSize)) (\<lambda>points.
       let es = map (\<lambda>off. \<lparr> oldOffset = off, newOffset = off, fAccurate = True \<rparr>) points in
       IfFailRet (upd_graph g (\<lambda>gr. gr \<lparr> m_baselineIlMap := es \<rparr>)) (\<lambda>_.
       IfFailRet (MergeILInstrumentedCodeMap m False es) (\<lambda>entries.
         upd_graph g (\<lambda>gr. gr \<lparr> m_baselineIlMap := entries \<rparr>))))
     else ret ())))))))))))) "

definition HasBaselineBeenSet :: "gid \<Rightarrow> (world, bool) op" where
  "HasBaselineBeenSet g = IfFailRet (get_graph g) (\<lambda>gr. ret (m_bHasBaselineBeenSet gr))"

text \<open>A null result comes with \<^verbatim>\<open>S_FALSE\<close>.\<close>

definition GetUninstrumentedFirstInstruction :: "gid \<Rightarrow> (world, addr option) op" where
  "GetUninstrumentedFirstInstruction g = IfFailRet (get_graph g) (\<lambda>gr.
     ret (m_pUninstrumentedFirstInstruction gr))"

definition GetUninstrumentedLastInstruction :: "gid \<Rightarrow> (world, addr option) op" where
  "GetUninstrumentedLastInstruction g = IfFailRet (get_graph g) (\<lambda>gr.
     ret (m_pUninstrumentedLastInstruction gr))"

end
