(* ===== verification/Retarget.thy ===== *)
theory Retarget
  imports EncodeIL
begin

text \<open>
  What \<^verbatim>\<open>CBranchTargetInfo::RetargetBranches\<close> does when the bookkeeping of the original
  instruction is right: every branch and switch entry that targets it targets the new instruction
  afterwards, and nothing else changes.
\<close>

section \<open>Targets of an instruction\<close>

definition targets_of :: "instr \<Rightarrow> addr option list" where
  "targets_of i = (case m_class i of Branch _ t _ \<Rightarrow> [t] | Switch _ ts \<Rightarrow> ts | _ \<Rightarrow> [])"

definition retarget_opt :: "addr \<Rightarrow> addr \<Rightarrow> addr option \<Rightarrow> addr option" where
  "retarget_opt pOrig pNew t = (if t = Some pOrig then Some pNew else t)"

definition retarget_instr :: "addr \<Rightarrow> addr \<Rightarrow> instr \<Rightarrow> instr" where
  "retarget_instr pOrig pNew i = (case m_class i of
       Branch d t orig \<Rightarrow> i \<lparr> m_class := Branch d (retarget_opt pOrig pNew t)
         (if orig = None \<and> m_instructionGeneration i \<noteq> Generation_New then Some pNew else orig) \<rparr>
     | Switch ds ts \<Rightarrow> i \<lparr> m_class := Switch ds (map (retarget_opt pOrig pNew) ts) \<rparr>
     | _ \<Rightarrow> i)"

lemma put_instr_id: "w_instrs w a = Some i \<Longrightarrow> put_instr a i w = w"
  by (cases w) (simp add: put_instr_def fun_upd_idem)

lemma put_instr_commute: "a \<noteq> b \<Longrightarrow> put_instr a i (put_instr b j w) = put_instr b j (put_instr a i w)"
  by (cases w) (simp add: put_instr_def fun_upd_twist)

lemma BranchInfo_Remove_None [simp]: "m_branchInfo i = None \<Longrightarrow> BranchInfo_Remove b i = i"
  by (simp add: BranchInfo_Remove_def)

lemma BranchInfo_Add_twice [simp]: "BranchInfo_Add b (BranchInfo_Add b i) = BranchInfo_Add b i"
  by (auto simp: BranchInfo_Add_def split: option.splits)

lemma BranchInfo_Add_simps [simp]: "m_class (BranchInfo_Add b i) = m_class i"
  "m_opcode (BranchInfo_Add b i) = m_opcode i" "m_pGraph (BranchInfo_Add b i) = m_pGraph i"
  "m_pNextInstruction (BranchInfo_Add b i) = m_pNextInstruction i"
  "m_pPreviousInstruction (BranchInfo_Add b i) = m_pPreviousInstruction i"
  "m_instructionGeneration (BranchInfo_Add b i) = m_instructionGeneration i"
  "m_bIsRemoved (BranchInfo_Add b i) = m_bIsRemoved i"
  by (simp_all add: BranchInfo_Add_def split: option.splits)

text \<open>Detaching from an instruction whose info is gone, attaching to \<open>pNew\<close>.\<close>

lemma info_move:
  assumes "w_instrs w pOrig = Some io" and "m_branchInfo io = None" and "w_instrs w pNew = Some jn"
  shows "BranchInfo_SetBranchTarget b (Some pNew) (Some pOrig) w = (Ok (), put_instr pNew (BranchInfo_Add b jn) w)"
  using assms by (simp add: BranchInfo_SetBranchTarget_def put_instr_id)

lemma retarget_branch:
  assumes "w_instrs w b = Some i" and "m_class i = Branch d (Some pOrig) orig"
    and "w_instrs w pOrig = Some io" and "m_branchInfo io = None" and "w_instrs w pNew = Some jn" and "b \<noteq> pNew"
  shows "Branch_SetBranchTarget b (Some pNew) w =
    (Ok (), put_instr pNew (BranchInfo_Add b jn) (put_instr b (retarget_instr pOrig pNew i) w))"
proof -
  let ?w = "put_instr b (i \<lparr> m_class := Branch d (Some pNew) orig \<rparr>) w"
  have o: "\<exists>io. w_instrs ?w pOrig = Some io \<and> m_branchInfo io = None"
    using assms by (cases "pOrig = b") auto
  have "BranchInfo_SetBranchTarget b (Some pNew) (Some pOrig) ?w = (Ok (), put_instr pNew (BranchInfo_Add b jn) ?w)"
    using o info_move [of ?w pOrig _ pNew jn b] assms(5,6) by auto
  with assms show ?thesis
    by (simp add: Branch_SetBranchTarget_def IfNullRetPointer_def retarget_instr_def retarget_opt_def
        put_instr_commute [of b pNew])
qed

fun replaceIdx :: "addr \<Rightarrow> addr \<Rightarrow> nat list \<Rightarrow> addr option list \<Rightarrow> addr option list" where
  "replaceIdx pOrig pNew [] ts = ts"
| "replaceIdx pOrig pNew (k # ks) ts =
     replaceIdx pOrig pNew ks (if ts ! k = Some pOrig then ts[k := Some pNew] else ts)"

lemma replaceIdx_simps: "length (replaceIdx pOrig pNew ks ts) = length ts"
  "list_all (\<lambda>k. k < length ts) ks \<Longrightarrow> m < length ts \<Longrightarrow> pOrig \<noteq> pNew \<Longrightarrow>
     replaceIdx pOrig pNew ks ts ! m = (if m \<in> set ks then retarget_opt pOrig pNew (ts ! m) else ts ! m)"
  by (induction ks arbitrary: ts) (auto simp: retarget_opt_def nth_list_update list_all_iff)

lemma replaceIdx_all: "pOrig \<noteq> pNew \<Longrightarrow> replaceIdx pOrig pNew [0..<length ts] ts = map (retarget_opt pOrig pNew) ts"
  by (rule nth_equalityI) (auto simp: replaceIdx_simps list_all_iff)

lemma replaceTargets_exec:
  assumes "list_all (\<lambda>k. k < length ts) ks" and "w_instrs w s = Some i" and "m_class i = Switch ds ts"
    and "w_instrs w pOrig = Some io" and "m_branchInfo io = None" and "w_instrs w pNew = Some jn" and "s \<noteq> pNew"
    and "pOrig \<noteq> pNew" and "Some pOrig \<in> set (map ((!) ts) ks) \<or> BranchInfo_Add s jn = jn"
  shows "replaceTargets_loop s (Some pOrig) (Some pNew) ks w =
    (Ok (), put_instr pNew (BranchInfo_Add s jn) (put_instr s (i \<lparr> m_class := Switch ds (replaceIdx pOrig pNew ks ts) \<rparr>) w))"
  using assms
proof (induction ks arbitrary: w ts i io jn)
  case Nil
  then have "i \<lparr> m_class := Switch ds ts \<rparr> = i" by simp
  with Nil show ?case by (simp add: put_instr_id)
next
  case (Cons k ks)
  show ?case
  proof (cases "ts ! k = Some pOrig")
    case False
    have "replaceTargets_loop s (Some pOrig) (Some pNew) ks w =
      (Ok (), put_instr pNew (BranchInfo_Add s jn) (put_instr s (i \<lparr> m_class := Switch ds (replaceIdx pOrig pNew ks ts) \<rparr>) w))"
      using False Cons.prems(1,9) by (intro Cons.IH [OF _ Cons.prems(2-8)]) auto
    then show ?thesis using False Cons.prems(2,3) by (simp add: Switch_targets_def)
  next
    case True
    let ?i = "i \<lparr> m_class := Switch ds (ts[k := Some pNew]) \<rparr>" and ?j = "BranchInfo_Add s jn"
    let ?w = "put_instr pNew ?j (put_instr s ?i w)"
    have k: "k < length ts" using Cons.prems by simp
    have o: "\<exists>io. w_instrs (put_instr s ?i w) pOrig = Some io \<and> m_branchInfo io = None"
      using Cons.prems by (cases "pOrig = s") auto
    have m: "BranchInfo_SetBranchTarget s (Some pNew) (Some pOrig) (put_instr s ?i w) = (Ok (), ?w)"
      using o info_move [of "put_instr s ?i w" pOrig _ pNew jn s] Cons.prems by auto
    obtain io' where o': "w_instrs ?w pOrig = Some io'" "m_branchInfo io' = None"
      using o Cons.prems(8) by auto
    have "replaceTargets_loop s (Some pOrig) (Some pNew) ks ?w =
      (Ok (), put_instr pNew (BranchInfo_Add s ?j) (put_instr s (?i \<lparr> m_class := Switch ds (replaceIdx pOrig pNew ks (ts[k := Some pNew])) \<rparr>) ?w))"
      using Cons.prems k by (intro Cons.IH [OF _ _ _ o']) auto
    with True Cons.prems(2-8) k m show ?thesis
      by (simp add: Switch_targets_def Switch_SetBranchTarget_def setSwitchTargets_def put_instr_commute [of s pNew])
  qed
qed

definition points_at :: "world \<Rightarrow> addr \<Rightarrow> addr \<Rightarrow> bool" where
  "points_at w t b \<longleftrightarrow> b < w_next w \<and> (case w_instrs w b of None \<Rightarrow> False | Some i \<Rightarrow> wf_instr i \<and> Some t \<in> set (targets_of i))"

lemma Retarget_one_exec:
  assumes "points_at w pOrig b" and "w_instrs w b = Some i" and "w_instrs w pOrig = Some io" and "m_branchInfo io = None"
    and "w_instrs w pNew = Some jn" and "b \<noteq> pNew" and "pOrig \<noteq> pNew"
  shows "Retarget_one pOrig pNew b w =
    (Ok (), put_instr pNew (BranchInfo_Add b jn) (put_instr b (retarget_instr pOrig pNew i) w))"
proof -
  have wf: "wf_instr i" and t: "Some pOrig \<in> set (targets_of i)" using assms(1,2) by (simp_all add: points_at_def)
  obtain e where e: "opcodeInfo (m_opcode i) = Ok e" using wf by (rule wf_instr_info)
  consider d orig where "m_class i = Branch d (Some pOrig) orig"
    | ds ts where "m_class i = Switch ds ts" "Some pOrig \<in> set ts"
    using t by (auto simp: targets_of_def split: iclass.splits)
  then show ?thesis
  proof cases
    case (1 d orig)
    then have "IsFlagSet (m_flags e) ILOpcodeFlag_Branch" using wf e by (simp add: wf_instr_def wf_class_def)
    with 1 e assms retarget_branch [OF assms(2) 1 assms(3-6)] show ?thesis
      by (simp add: Retarget_one_def GetIsBranchInternal_def)
  next
    case (2 ds ts)
    have sw: "GetIsSwitchInternal i" using wf 2 switch_class by blast
    then have nb: "\<not> IsFlagSet (m_flags e) ILOpcodeFlag_Branch"
      using opcodeInfo_shape [OF e] by (auto simp: GetIsSwitchInternal_def row_shape_def)
    have "Some pOrig \<in> set (map ((!) ts) [0..<length ts])" using 2(2) by (simp add: map_nth)
    then have "replaceTargets_loop b (Some pOrig) (Some pNew) [0..<length ts] w =
      (Ok (), put_instr pNew (BranchInfo_Add b jn) (put_instr b (i \<lparr> m_class := Switch ds (replaceIdx pOrig pNew [0..<length ts] ts) \<rparr>) w))"
      using 2 assms by (intro replaceTargets_exec) (auto simp: list_all_iff)
    with sw nb e 2 assms show ?thesis
      by (auto simp: Retarget_one_def GetIsBranchInternal_def Switch_ReplaceBranchTarget_def Switch_targets_def
          IfFalseRet_def replaceIdx_all retarget_instr_def)
  qed
qed

text \<open>The state after the branches \<open>bs\<close> of \<open>pOrig\<close> moved to \<open>pNew\<close>.\<close>

definition retargeted :: "addr \<Rightarrow> addr \<Rightarrow> addr list \<Rightarrow> world \<Rightarrow> world" where
  "retargeted pOrig pNew bs w = w \<lparr> w_instrs := \<lambda>a. map_option (\<lambda>i.
     (if a = pNew then fold BranchInfo_Add bs else id)
       (if a \<in> set bs then retarget_instr pOrig pNew i else i)) (w_instrs w a) \<rparr>"

lemma retargeted_simps [simp]:
  "w_next (retargeted x y bs w) = w_next w" "w_graphs (retargeted x y bs w) = w_graphs w"
  "w_clauses (retargeted x y bs w) = w_clauses w" "w_methods (retargeted x y bs w) = w_methods w"
  by (simp_all add: retargeted_def)

lemma retargeted_Nil [simp]: "retargeted x y [] w = w"
  by (cases w) (simp add: retargeted_def fun_eq_iff option.map_id)

lemma retarget_instr_frame [simp]:
  "m_branchInfo (retarget_instr x y i) = m_branchInfo i" "m_opcode (retarget_instr x y i) = m_opcode i"
  "m_pGraph (retarget_instr x y i) = m_pGraph i" "m_offset (retarget_instr x y i) = m_offset i"
  "m_pNextInstruction (retarget_instr x y i) = m_pNextInstruction i"
  "m_pPreviousInstruction (retarget_instr x y i) = m_pPreviousInstruction i"
  "m_instructionGeneration (retarget_instr x y i) = m_instructionGeneration i"
  "m_origOffset (retarget_instr x y i) = m_origOffset i"
  "m_bIsRemoved (retarget_instr x y i) = m_bIsRemoved i"
  by (simp_all add: retarget_instr_def split: iclass.splits)

lemma retarget_instr_size [simp]:
  "wf_instr (retarget_instr x y i) = wf_instr i" "instr_size (retarget_instr x y i) = instr_size i"
  by (cases "opcodeInfo (m_opcode i)"; cases "m_class i";
      simp add: retarget_instr_def wf_instr_def wf_class_def instr_size_def GetInstructionSize_def)+

lemma targets_of_retarget [simp]:
  "targets_of (retarget_instr x y i) = map (retarget_opt x y) (targets_of i)"
  by (simp add: targets_of_def retarget_instr_def split: iclass.splits)

lemma Retarget_loop_exec:
  assumes "list_all (points_at w pOrig) bs" and "distinct bs" and "pNew \<notin> set bs" and "pOrig \<noteq> pNew"
    and "w_instrs w pOrig = Some io" and "m_branchInfo io = None" and "w_instrs w pNew = Some jn"
  shows "Retarget_loop pOrig pNew bs w = (Ok (), retargeted pOrig pNew bs w)"
  using assms
proof (induction bs arbitrary: w io jn)
  case Nil
  then show ?case by simp
next
  case (Cons b bs)
  obtain i where i: "w_instrs w b = Some i" using Cons.prems(1) by (auto simp: points_at_def split: option.splits)
  let ?w = "put_instr pNew (BranchInfo_Add b jn) (put_instr b (retarget_instr pOrig pNew i) w)"
  have one: "Retarget_one pOrig pNew b w = (Ok (), ?w)"
    using Cons.prems i by (intro Retarget_one_exec) auto
  have "points_at ?w pOrig b'" if "b' \<in> set bs" for b'
    using that Cons.prems by (auto simp: points_at_def list_all_iff)
  then have p: "list_all (points_at ?w pOrig) bs" by (simp add: list_all_iff)
  obtain io' where o: "w_instrs ?w pOrig = Some io'" "m_branchInfo io' = None"
    using Cons.prems i by (cases "pOrig = b") auto
  have "retargeted pOrig pNew bs ?w = retargeted pOrig pNew (b # bs) w"
    using Cons.prems i by (auto simp: retargeted_def put_instr_def fun_eq_iff)
  then show ?case
    using Cons.IH [OF p _ _ _ o, of "BranchInfo_Add b jn"] Cons.prems one by simp
qed

definition branches_of :: "world \<Rightarrow> addr \<Rightarrow> addr list" where
  "branches_of w x = (case w_instrs w x of None \<Rightarrow> []
     | Some i \<Rightarrow> (case m_branchInfo i of None \<Rightarrow> [] | Some bs \<Rightarrow> bs))"

lemma RetargetBranches_exec:
  assumes "w_instrs w x = Some i" and "w_instrs w y = Some j" and "x \<noteq> y"
    and "list_all (points_at w x) (branches_of w x)" and "distinct (branches_of w x)" and "y \<notin> set (branches_of w x)"
  shows "RetargetBranches x y w =
    (Ok (), retargeted x y (branches_of w x) (put_instr x (i \<lparr> m_branchInfo := None \<rparr>) w))"
proof (cases "m_branchInfo i")
  case None
  then have "i \<lparr> m_branchInfo := None \<rparr> = i" by simp
  with None assms(1) show ?thesis
    by (simp add: RetargetBranches_def branches_of_def put_instr_id)
next
  case (Some bs)
  let ?w = "put_instr x (i \<lparr> m_branchInfo := None \<rparr>) w"
  have bs: "branches_of w x = bs" using Some assms(1) by (simp add: branches_of_def)
  have "points_at ?w x b = points_at w x b" for b
    using assms(1) by (simp add: points_at_def wf_instr_def targets_of_def)
  then have "Retarget_loop x y bs ?w = (Ok (), retargeted x y bs ?w)"
    using assms bs by (intro Retarget_loop_exec [where jn = j]) (auto simp: list_all_iff)
  with Some assms(1) bs show ?thesis by (simp add: RetargetBranches_def)
qed

end
