(* ===== verification/EditRefine.thy ===== *)
theory EditRefine
  imports GraphEdits Retarget
begin

text \<open>
  The edits of \<^verbatim>\<open>GraphEdits\<close> as operations on the list of instructions of a graph: each
  succeeds on a well-formed body, gives the list its name promises, keeps the body well-formed,
  and moves exactly the branch targets and exception ranges it should.
\<close>

section \<open>Bodies\<close>

text \<open>The exception section of the method of the graph exists and its clauses are allocated.\<close>

definition section_ok :: "world \<Rightarrow> gid \<Rightarrow> bool" where
  "section_ok w g \<longleftrightarrow> (case w_graphs w g of None \<Rightarrow> False | Some gr \<Rightarrow> (case m_pMethodInfo gr of
       None \<Rightarrow> True
     | Some m \<Rightarrow> (case w_methods w m of None \<Rightarrow> False | Some mi \<Rightarrow> (case m_pExceptionSection mi of
         None \<Rightarrow> False | Some cs \<Rightarrow> list_all (\<lambda>c. w_clauses w c \<noteq> None) cs))))"

text \<open>The state between two calls of the graph interface: the graph \<open>g\<close> holds exactly the
  instructions \<open>xs\<close>, both its ends are recorded, its offsets are right unless marked stale.\<close>

definition body_ok :: "world \<Rightarrow> gid \<Rightarrow> addr list \<Rightarrow> bool" where
  "body_ok w g xs \<longleftrightarrow> graph_inv w g xs \<and> section_ok w g \<and>
     (case w_graphs w g of None \<Rightarrow> False | Some gr \<Rightarrow> m_pLastInstruction gr = prv xs None)"

text \<open>An instruction that is in no graph and was never linked.\<close>

definition detached :: "world \<Rightarrow> addr \<Rightarrow> bool" where
  "detached w a \<longleftrightarrow> a < w_next w \<and> (case w_instrs w a of None \<Rightarrow> False | Some i \<Rightarrow> wf_instr i \<and>
     m_pGraph i = None \<and> m_pNextInstruction i = None \<and> m_pPreviousInstruction i = None)"

lemma body_okE:
  assumes "body_ok w g xs"
  obtains gr where "w_graphs w g = Some gr" "m_pFirstInstruction gr = nxt xs None"
    "m_pLastInstruction gr = prv xs None" "distinct xs" "dll (w_instrs w) None xs None"
    "list_all (node_ok w g) xs" "section_ok w g"
  using assms by (auto simp: body_ok_def graph_inv_def graph_list_def split: option.splits)

lemma body_okI:
  assumes "w_graphs w g = Some gr" "m_pFirstInstruction gr = nxt xs None"
    "m_pLastInstruction gr = prv xs None" "distinct xs" "dll (w_instrs w) None xs None"
    "list_all (node_ok w g) xs" "section_ok w g" "m_bAreInstructionsStale gr"
  shows "body_ok w g xs"
  using assms by (simp add: body_ok_def graph_inv_def graph_list_def stale_def)

lemma detachedE:
  assumes "detached w a"
  obtains i where "w_instrs w a = Some i" "wf_instr i" "m_pGraph i = None" "m_pNextInstruction i = None"
    "m_pPreviousInstruction i = None" "a < w_next w"
  using assms by (auto simp: detached_def split: option.splits)

lemma detached_notin: "list_all (node_ok w g) xs \<Longrightarrow> detached w y \<Longrightarrow> y \<notin> set xs"
  by (auto simp: list_all_iff node_ok_def detached_def split: option.splits)

lemma node_okD: "node_ok w g a \<Longrightarrow> \<exists>i. w_instrs w a = Some i \<and> m_pGraph i = Some g \<and> wf_instr i \<and> a < w_next w"
  by (auto simp: node_ok_def split: option.splits)

section \<open>Executing link updates\<close>

lemma set_links_simps [simp]:
  "SetNextInstruction p False i = i \<lparr> m_pNextInstruction := p \<rparr>"
  "SetPreviousInstruction p False i = i \<lparr> m_pPreviousInstruction := p \<rparr>"
  by (simp_all add: SetNextInstruction_def SetPreviousInstruction_def Let_def)

lemma wf_instr_frame [simp]:
  "wf_instr (i \<lparr> m_pNextInstruction := p \<rparr>) = wf_instr i"
  "wf_instr (i \<lparr> m_pPreviousInstruction := p \<rparr>) = wf_instr i"
  "wf_instr (i \<lparr> m_pGraph := q \<rparr>) = wf_instr i"
  "wf_instr (i \<lparr> m_branchInfo := b \<rparr>) = wf_instr i"
  "wf_instr (SetIsRemoved i) = wf_instr i"
  by (simp_all add: wf_instr_def SetIsRemoved_def)

lemma SetIsRemoved_simps [simp]:
  "m_pGraph (SetIsRemoved i) = None" "m_bIsRemoved (SetIsRemoved i)"
  "m_pNextInstruction (SetIsRemoved i) = m_pNextInstruction i"
  "m_pPreviousInstruction (SetIsRemoved i) = m_pPreviousInstruction i"
  by (simp_all add: SetIsRemoved_def)

lemma section_ok_put_instr [simp]: "section_ok (put_instr a i w) g = section_ok w g"
  by (simp add: section_ok_def cong: option.case_cong)

lemma section_ok_put_graph [simp]:
  "w_graphs w g = Some gr \<Longrightarrow> m_pMethodInfo gr' = m_pMethodInfo gr \<Longrightarrow> section_ok (put_graph g gr' w) g = section_ok w g"
  by (simp add: section_ok_def cong: option.case_cong)

lemma node_ok_put [simp]:
  "node_ok (put_instr a i w) g x \<longleftrightarrow>
     (if x = a then x < w_next w \<and> m_pGraph i = Some g \<and> wf_instr i else node_ok w g x)"
  "node_ok (put_graph k gr w) g x = node_ok w g x"
  by (auto simp: node_ok_def)

lemma list_all_node_put [simp]:
  "a \<notin> set xs \<Longrightarrow> list_all (node_ok (put_instr a i w) g) xs \<longleftrightarrow> list_all (node_ok w g) xs"
  "list_all (node_ok (put_graph k gr w) g) xs \<longleftrightarrow> list_all (node_ok w g) xs"
  by (auto simp: list_all_iff)

lemma SetGraph_new [simp]: "w_instrs w y = Some i \<Longrightarrow> m_pGraph i = None \<Longrightarrow>
   SetGraph y g w = (Ok (), put_instr y (i \<lparr> m_pGraph := Some g \<rparr>) w)"
  by (simp add: SetGraph_def IfFalseRet_def)

text \<open>The instruction \<open>x\<close> of a body, its links, and its neighbours.\<close>

lemma body_splitE:
  assumes "body_ok w g (ps @ x # qs)"
  obtains gr i where "w_graphs w g = Some gr" "m_pFirstInstruction gr = nxt (ps @ x # qs) None"
    "m_pLastInstruction gr = prv (ps @ x # qs) None" "distinct (ps @ x # qs)"
    "dll (w_instrs w) None (ps @ x # qs) None" "list_all (node_ok w g) (ps @ x # qs)" "section_ok w g"
    "w_instrs w x = Some i" "m_pGraph i = Some g" "m_pPreviousInstruction i = prv ps None"
    "m_pNextInstruction i = nxt qs None" "wf_instr i" "x < w_next w"
proof -
  from assms obtain gr where gr: "w_graphs w g = Some gr" "m_pFirstInstruction gr = nxt (ps @ x # qs) None"
    "m_pLastInstruction gr = prv (ps @ x # qs) None" "distinct (ps @ x # qs)"
    "dll (w_instrs w) None (ps @ x # qs) None" "list_all (node_ok w g) (ps @ x # qs)" "section_ok w g"
    by (rule body_okE)
  from gr(6) obtain i where i: "w_instrs w x = Some i" "m_pGraph i = Some g" "wf_instr i" "x < w_next w"
    using node_okD by fastforce
  with gr(5) have "m_pPreviousInstruction i = prv ps None" "m_pNextInstruction i = nxt qs None" by auto
  with gr i show thesis by (intro that)
qed

named_theorems edit_defs \<open>unfolding an edit into its updates\<close>

lemmas [edit_defs] = IfNullRetPointer_def IfFalseRet_def linkBefore_def MarkInstructionsStale_def Let_def

section \<open>The edits on the list of instructions\<close>

text \<open>Objects outside \<open>xs\<close> keep their state.\<close>

definition untouched :: "addr list \<Rightarrow> world \<Rightarrow> world \<Rightarrow> bool" where
  "untouched xs w w' \<longleftrightarrow> w_next w' = w_next w \<and> (\<forall>z. z \<notin> set xs \<longrightarrow> w_instrs w' z = w_instrs w z)"

lemma detached_untouched: "untouched xs w w' \<Longrightarrow> z \<notin> set xs \<Longrightarrow> detached w z \<Longrightarrow> detached w' z"
  by (simp add: untouched_def detached_def)

definition removed_at :: "world \<Rightarrow> addr \<Rightarrow> bool" where
  "removed_at w a = (case w_instrs w a of None \<Rightarrow> False | Some i \<Rightarrow> m_bIsRemoved i)"

lemma linkBefore_list:
  assumes "body_ok w g (ps @ x # qs)" and "detached w y" and "w_instrs w y = Some j"
  shows "\<exists>w'. IfFailRet (SetGraph y g) (\<lambda>_. IfFailRet (get_instr x) (\<lambda>i.
      IfFailRet (linkBefore g x y (m_pPreviousInstruction i)) (\<lambda>_. MarkInstructionsStale g))) w = (Ok (), w') \<and>
    body_ok w' g (ps @ y # x # qs) \<and> removed_at w' x = removed_at w x \<and> untouched (y # ps @ x # qs) w w'"
proof -
  from assms(1) obtain gr i where b: "w_graphs w g = Some gr" "m_pFirstInstruction gr = nxt (ps @ x # qs) None"
    "m_pLastInstruction gr = prv (ps @ x # qs) None" "distinct (ps @ x # qs)"
    "dll (w_instrs w) None (ps @ x # qs) None" "list_all (node_ok w g) (ps @ x # qs)" "section_ok w g"
    "w_instrs w x = Some i" "m_pGraph i = Some g" "m_pPreviousInstruction i = prv ps None"
    "m_pNextInstruction i = nxt qs None" "wf_instr i" "x < w_next w" by (rule body_splitE)
  have j: "wf_instr j" "m_pGraph j = None" "m_pNextInstruction j = None" "m_pPreviousInstruction j = None" "y < w_next w"
    using assms(2,3) by (auto elim: detachedE)
  have y: "y \<notin> set (ps @ x # qs)" using detached_notin b(6) assms(2) by blast
  show ?thesis
  proof (cases ps rule: rev_cases)
    case Nil
    with b j y assms(3) show ?thesis by (auto simp: edit_defs removed_at_def untouched_def intro!: body_okI)
  next
    case (snoc ps' p)
    then obtain k where "w_instrs w p = Some k" "m_pGraph k = Some g" "wf_instr k" "p < w_next w"
      using b(6) node_okD by fastforce
    with snoc b j y assms(3) show ?thesis by (auto simp: edit_defs removed_at_def untouched_def intro!: body_okI)
  qed
qed


lemma InsertBefore_list:
  assumes "body_ok w g (ps @ x # qs)" and "detached w y"
  shows "\<exists>w'. InsertBefore g (Some x) (Some y) w = (Ok (), w') \<and>
    body_ok w' g (ps @ y # x # qs) \<and> untouched (y # ps @ x # qs) w w'"
proof -
  obtain i where "w_instrs w x = Some i" "m_pGraph i = Some g" using assms(1) by (rule body_splitE)
  moreover obtain j where "w_instrs w y = Some j" using assms(2) by (rule detachedE)
  ultimately show ?thesis
    using linkBefore_list [OF assms] by (auto simp: InsertBefore_def IfNullRetPointer_def IfFalseRet_def)
qed

lemma InsertAfter_list:
  assumes "body_ok w g (ps @ x # qs)" and "detached w y"
  shows "\<exists>w'. InsertAfter g (Some x) (Some y) w = (Ok (), w') \<and>
    body_ok w' g (ps @ x # y # qs) \<and> untouched (y # ps @ x # qs) w w'"
proof -
  from assms(1) obtain gr i where b: "w_graphs w g = Some gr" "m_pFirstInstruction gr = nxt (ps @ x # qs) None"
    "m_pLastInstruction gr = prv (ps @ x # qs) None" "distinct (ps @ x # qs)"
    "dll (w_instrs w) None (ps @ x # qs) None" "list_all (node_ok w g) (ps @ x # qs)" "section_ok w g"
    "w_instrs w x = Some i" "m_pGraph i = Some g" "m_pPreviousInstruction i = prv ps None"
    "m_pNextInstruction i = nxt qs None" "wf_instr i" "x < w_next w" by (rule body_splitE)
  from assms(2) obtain j where j: "w_instrs w y = Some j" "wf_instr j" "m_pGraph j = None"
    "m_pNextInstruction j = None" "m_pPreviousInstruction j = None" "y < w_next w" by (rule detachedE)
  have y: "y \<notin> set (ps @ x # qs)" using detached_notin b(6) assms(2) by blast
  show ?thesis
  proof (cases qs)
    case Nil
    with b j y show ?thesis by (auto simp: InsertAfter_def edit_defs untouched_def intro!: body_okI)
  next
    case (Cons q qs')
    then obtain k where "w_instrs w q = Some k" "m_pGraph k = Some g" "wf_instr k" "q < w_next w"
      using b(6) node_okD by fastforce
    with Cons b j y show ?thesis by (auto simp: InsertAfter_def edit_defs untouched_def intro!: body_okI)
  qed
qed

lemma InsertAfter_empty:
  assumes "body_ok w g []" and "detached w y"
  shows "\<exists>w'. InsertAfter g None (Some y) w = (Ok (), w') \<and> body_ok w' g [y]"
proof -
  from assms(1) obtain gr where b: "w_graphs w g = Some gr" "section_ok w g" by (rule body_okE)
  from assms(2) obtain j where j: "w_instrs w y = Some j" "wf_instr j" "m_pGraph j = None"
    "m_pNextInstruction j = None" "m_pPreviousInstruction j = None" "y < w_next w" by (rule detachedE)
  from b j show ?thesis by (auto simp: InsertAfter_def edit_defs intro!: body_okI)
qed

section \<open>Exception ranges\<close>

definition map_clauses :: "(clause \<Rightarrow> clause) \<Rightarrow> caddr list \<Rightarrow> world \<Rightarrow> world" where
  "map_clauses f cs w = w \<lparr> w_clauses := \<lambda>c. if c \<in> set cs then map_option f (w_clauses w c) else w_clauses w c \<rparr>"

lemma map_clauses_simps [simp]:
  "w_instrs (map_clauses f cs w) = w_instrs w" "w_graphs (map_clauses f cs w) = w_graphs w"
  "w_methods (map_clauses f cs w) = w_methods w" "w_next (map_clauses f cs w) = w_next w"
  "map_clauses f [] w = w"
  by (simp_all add: map_clauses_def)

lemma node_ok_map_clauses [simp]: "node_ok (map_clauses f cs w) g a = node_ok w g a"
  by (simp add: node_ok_def)

lemma Update_idem [simp]: "CExceptionClause_UpdateInstruction r pOld pNew (CExceptionClause_UpdateInstruction r pOld pNew c) =
    CExceptionClause_UpdateInstruction r pOld pNew c"
  by (simp add: CExceptionClause_UpdateInstruction_def movedFirst_def movedLast_def)

lemma updateClauses_exec:
  assumes "list_all (\<lambda>c. w_clauses w c \<noteq> None) cs"
  shows "updateClauses r pOld pNew cs w = (Ok (), map_clauses (CExceptionClause_UpdateInstruction r pOld pNew) cs w)"
  using assms
proof (induction cs arbitrary: w)
  case (Cons c cs)
  let ?f = "CExceptionClause_UpdateInstruction r pOld pNew"
  from Cons.prems obtain cl where cl: "w_clauses w c = Some cl" by auto
  let ?w = "w \<lparr> w_clauses := (w_clauses w)(c \<mapsto> ?f cl) \<rparr>"
  have "map_clauses ?f cs ?w = map_clauses ?f (c # cs) w"
    using cl by (auto simp: map_clauses_def fun_eq_iff)
  moreover have "list_all (\<lambda>c. w_clauses ?w c \<noteq> None) cs" using Cons.prems by (auto simp: list_all_iff)
  ultimately show ?case using Cons.IH [of ?w] cl by (simp add: upd_clause_def)
qed simp

lemma graph_inv_map_clauses [simp]: "graph_inv (map_clauses f cs w) g xs = graph_inv w g xs"
proof -
  have "layout (map_clauses f cs w) 0 xs a = layout w 0 xs a" for a
    by (rule layout_cong) (simp add: size_at_def)
  moreover have "node_ok (map_clauses f cs w) g = node_ok w g" by (rule ext) simp
  ultimately show ?thesis by (simp add: graph_inv_def graph_list_def stale_def cong: option.case_cong)
qed

lemma section_ok_map_clauses [simp]: "section_ok (map_clauses f cs w) g = section_ok w g"
  by (simp add: section_ok_def list_all_iff map_clauses_def split: option.splits cong: option.case_cong)

lemma body_ok_map_clauses [simp]: "body_ok (map_clauses f cs w) g xs = body_ok w g xs"
  by (simp add: body_ok_def)

definition clauses_of :: "world \<Rightarrow> gid \<Rightarrow> caddr list" where
  "clauses_of w g = (case w_graphs w g of None \<Rightarrow> [] | Some gr \<Rightarrow> (case m_pMethodInfo gr of None \<Rightarrow> []
     | Some m \<Rightarrow> (case w_methods w m of None \<Rightarrow> [] | Some mi \<Rightarrow>
         (case m_pExceptionSection mi of None \<Rightarrow> [] | Some cs \<Rightarrow> cs))))"

lemma GetExceptionSection_exec:
  assumes "w_methods w m = Some mi" and "m_pExceptionSection mi = Some cs"
  shows "GetExceptionSection m w = (Ok (), w)"
  using assms by (simp add: GetExceptionSection_def get_method_def)

lemma section_update_exec:
  assumes "w_methods w m = Some mi" and "m_pExceptionSection mi = Some cs"
    and "list_all (\<lambda>c. w_clauses w c \<noteq> None) cs" and "w_instrs w pOld = Some i"
  shows "CExceptionSection_UpdateInstruction m pOld pNew w =
    (Ok (), map_clauses (CExceptionClause_UpdateInstruction (m_bIsRemoved i) pOld pNew) cs w)"
  using assms updateClauses_exec [OF assms(3)]
  by (simp add: CExceptionSection_UpdateInstruction_def get_clauses_def get_method_def)

lemma section_okE:
  assumes "section_ok w g" and "w_graphs w g = Some gr"
  obtains "m_pMethodInfo gr = None" "clauses_of w g = []"
  | m mi cs where "m_pMethodInfo gr = Some m" "w_methods w m = Some mi" "m_pExceptionSection mi = Some cs"
    "list_all (\<lambda>c. w_clauses w c \<noteq> None) cs" "clauses_of w g = cs"
  using assms by (auto simp: section_ok_def clauses_of_def split: option.splits)

lemma updateExceptionSection_exec:
  assumes "section_ok w g" and "w_graphs w g = Some gr" and "w_instrs w pOld = Some i"
  shows "updateExceptionSection g pOld pNew w =
    (Ok (), map_clauses (CExceptionClause_UpdateInstruction (m_bIsRemoved i) pOld (Some pNew)) (clauses_of w g) w)"
  using assms(1,2)
proof (cases rule: section_okE)
  case 1
  with assms show ?thesis by (simp add: updateExceptionSection_def)
next
  case (2 m mi cs)
  with assms show ?thesis
    by (simp add: updateExceptionSection_def GetExceptionSection_exec section_update_exec)
qed

section \<open>What the link updates keep\<close>

text \<open>The part of an instruction that is neither a link of the list nor its current offset.\<close>

definition code_of :: "instr \<Rightarrow> instr" where
  "code_of i = i \<lparr> m_offset := 0, m_pGraph := None, m_pNextInstruction := None, m_pPreviousInstruction := None, m_bIsRemoved := False \<rparr>"

definition keeps :: "world \<Rightarrow> world \<Rightarrow> bool" where
  "keeps w w' \<longleftrightarrow> w_next w' = w_next w \<and> w_clauses w' = w_clauses w \<and> w_methods w' = w_methods w \<and>
     (\<forall>g. map_option m_pMethodInfo (w_graphs w' g) = map_option m_pMethodInfo (w_graphs w g)) \<and>
     (\<forall>a. map_option code_of (w_instrs w' a) = map_option code_of (w_instrs w a))"

text \<open>A call keeps it whatever its outcome.\<close>

definition preserves :: "('s, 'a) op \<Rightarrow> ('s \<Rightarrow> 's \<Rightarrow> bool) \<Rightarrow> bool" where
  "preserves m R \<longleftrightarrow> (\<forall>s. R s (snd (m s)))"

named_theorems frame \<open>calls that keep the code of every instruction\<close>

lemma keeps_refl [simp]: "keeps w w"
  by (simp add: keeps_def)

lemma keeps_trans [trans]: "keeps u v \<Longrightarrow> keeps v w \<Longrightarrow> keeps u w"
  by (simp add: keeps_def)

lemma preserves_IfFailRet [frame]:
  assumes "preserves m keeps" and "\<And>x. preserves (k x) keeps"
  shows "preserves (IfFailRet m k) keeps"
  unfolding preserves_def
proof
  fix s
  obtain r t where m: "m s = (r, t)" by fastforce
  have t: "keeps s t" using assms(1) m unfolding preserves_def by (metis snd_conv)
  have "keeps t (snd (k x t))" for x using assms(2) by (simp add: preserves_def)
  with t m show "keeps s (snd (IfFailRet m k s))"
    by (cases r) (auto simp: IfFailRet_def intro: keeps_trans)
qed

lemma preserves_prim [frame]:
  "preserves (ret x) keeps" "preserves (fail e) keeps" "preserves undef keeps" "preserves (liftR r) keeps"
  "preserves (get_instr a) keeps" "preserves (get_graph g) keeps" "preserves (get_method mm) keeps"
  by (simp_all add: preserves_def get_instr_def get_graph_def get_method_def)

lemma preserves_upd_instr [frame]:
  "(\<And>i. code_of (f i) = code_of i) \<Longrightarrow> preserves (upd_instr a f) keeps"
  by (auto simp: preserves_def upd_instr_def keeps_def split: option.splits)

lemma preserves_upd_graph [frame]:
  "(\<And>gr. m_pMethodInfo (f gr) = m_pMethodInfo gr) \<Longrightarrow> preserves (upd_graph g f) keeps"
  by (auto simp: preserves_def upd_graph_def keeps_def split: option.splits)

lemma preserves_cases [frame]:
  "preserves m keeps \<Longrightarrow> preserves n keeps \<Longrightarrow> preserves (if b then m else n) keeps"
  "preserves n keeps \<Longrightarrow> (\<And>x. preserves (k x) keeps) \<Longrightarrow> preserves (case p of None \<Rightarrow> n | Some x \<Rightarrow> k x) keeps"
  by (simp_all split: option.splits)

lemma code_of_links [simp]:
  "code_of (i \<lparr> m_pNextInstruction := p \<rparr>) = code_of i" "code_of (i \<lparr> m_pPreviousInstruction := p \<rparr>) = code_of i"
  "code_of (i \<lparr> m_pGraph := q \<rparr>) = code_of i" "code_of (SetIsRemoved i) = code_of i"
  by (simp_all add: code_of_def SetIsRemoved_def)

lemma preserves_link [frame]:
  "preserves (SetGraph a g) keeps" "preserves (MarkInstructionsStale g) keeps" "preserves (linkBefore g x y p) keeps"
  unfolding SetGraph_def IfFalseRet_def MarkInstructionsStale_def linkBefore_def
  by (intro frame; simp)+

lemma preserves_inserts [frame]:
  "preserves (InsertBefore g x y) keeps" "preserves (InsertAfter g x y) keeps"
  unfolding InsertBefore_def InsertAfter_def IfNullRetPointer_def IfFalseRet_def
  by (intro frame; simp)+

lemma section_keeps:
  assumes "keeps w w'"
  shows "section_ok w' g = section_ok w g"
proof -
  have "map_option m_pMethodInfo (w_graphs w' g) = map_option m_pMethodInfo (w_graphs w g)"
    "w_methods w' = w_methods w" "w_clauses w' = w_clauses w" using assms by (simp_all add: keeps_def)
  then show ?thesis
    by (cases "w_graphs w g"; cases "w_graphs w' g") (auto simp: section_ok_def cong: option.case_cong)
qed

lemma refreshed_keeps: "keeps w (refreshed g xs w)"
proof -
  have "code_of (SetOffset z i) = code_of i" for z i by (simp add: code_of_def SetOffset_def)
  then show ?thesis
    by (auto simp: keeps_def refreshed_def set_offsets_at option.map_comp comp_def set_fresh_def)
qed

lemma keeps_instr:
  assumes "keeps w w'" and "w_instrs w a = Some i"
  obtains j where "w_instrs w' a = Some j" "code_of j = code_of i"
  using assms by (metis keeps_def map_option_eq_Some)

lemma code_of_fields:
  assumes "code_of j = code_of i"
  shows "m_opcode j = m_opcode i" "m_class j = m_class i" "m_branchInfo j = m_branchInfo i"
    "m_instructionGeneration j = m_instructionGeneration i" "m_origOffset j = m_origOffset i"
  using assms [THEN arg_cong [where f = m_opcode]] assms [THEN arg_cong [where f = m_class]]
    assms [THEN arg_cong [where f = m_branchInfo]] assms [THEN arg_cong [where f = m_instructionGeneration]]
    assms [THEN arg_cong [where f = m_origOffset]]
  by (simp_all add: code_of_def)

definition targets_at :: "world \<Rightarrow> addr \<Rightarrow> addr option list" where
  "targets_at w a = (case w_instrs w a of None \<Rightarrow> [] | Some i \<Rightarrow> targets_of i)"

definition opcode_at :: "world \<Rightarrow> addr \<Rightarrow> ILOrdinalOpcode option" where
  "opcode_at w a = map_option m_opcode (w_instrs w a)"

definition operand_at :: "world \<Rightarrow> addr \<Rightarrow> byte list option" where
  "operand_at w a = (case w_instrs w a of None \<Rightarrow> None | Some i \<Rightarrow> (case m_class i of Operand v \<Rightarrow> Some v | _ \<Rightarrow> None))"

lemma code_of_views:
  assumes "code_of j = code_of i"
  shows "targets_of j = targets_of i" "wf_instr j = wf_instr i"
  using code_of_fields [OF assms] by (simp_all add: targets_of_def wf_instr_def)

lemma keeps_case:
  assumes "keeps w w'" and "\<And>i j. code_of j = code_of i \<Longrightarrow> f j = f i"
  shows "(case w_instrs w' a of None \<Rightarrow> d | Some i \<Rightarrow> f i) = (case w_instrs w a of None \<Rightarrow> d | Some i \<Rightarrow> f i)"
proof -
  have "map_option code_of (w_instrs w' a) = map_option code_of (w_instrs w a)" using assms(1) by (simp add: keeps_def)
  then show ?thesis
    by (cases "w_instrs w a"; cases "w_instrs w' a") (simp_all, erule assms(2))
qed

lemma keeps_views:
  assumes "keeps w w'"
  shows "targets_at w' = targets_at w" "opcode_at w' = opcode_at w" "branches_of w' = branches_of w"
    "points_at w' = points_at w" "clauses_of w' = clauses_of w" "bytes_at w' = bytes_at w"
    "operand_at w' = operand_at w"
proof -
  show "operand_at w' = operand_at w"
    unfolding operand_at_def by (rule ext) (rule keeps_case [OF assms], drule code_of_fields(2), simp)
  show "bytes_at w' = bytes_at w"
    unfolding bytes_at_def
    by (rule ext) (rule keeps_case [OF assms], frule code_of_fields(1), drule code_of_fields(2), simp only: byte_size_def)
  show "targets_at w' = targets_at w"
    unfolding targets_at_def by (rule ext) (rule keeps_case [OF assms], rule code_of_views)
  show "opcode_at w' = opcode_at w"
    unfolding opcode_at_def map_option_case
    by (rule ext) (rule keeps_case [OF assms], use code_of_fields(1) in blast)
  show "branches_of w' = branches_of w"
    unfolding branches_of_def by (rule ext) (rule keeps_case [OF assms], drule code_of_fields(3), simp)
  show "points_at w' = points_at w"
  proof (intro ext)
    fix t b
    have "w_next w' = w_next w" using assms by (simp add: keeps_def)
    moreover have "(case w_instrs w' b of None \<Rightarrow> False | Some i \<Rightarrow> wf_instr i \<and> Some t \<in> set (targets_of i)) =
      (case w_instrs w b of None \<Rightarrow> False | Some i \<Rightarrow> wf_instr i \<and> Some t \<in> set (targets_of i))"
      by (rule keeps_case [OF assms], frule code_of_views(1), drule code_of_views(2), simp)
    ultimately show "points_at w' t b = points_at w t b" by (simp add: points_at_def)
  qed
  show "clauses_of w' = clauses_of w"
  proof
    fix g
    have "map_option m_pMethodInfo (w_graphs w' g) = map_option m_pMethodInfo (w_graphs w g)" "w_methods w' = w_methods w"
      using assms by (simp_all add: keeps_def)
    then show "clauses_of w' g = clauses_of w g"
      by (cases "w_graphs w g"; cases "w_graphs w' g") (auto simp: clauses_of_def cong: option.case_cong)
  qed
qed

section \<open>Edits that retarget\<close>

text \<open>The bookkeeping of \<open>x\<close>: its info holds exactly the branches and switches that target it.\<close>

definition info_exact :: "world \<Rightarrow> addr \<Rightarrow> bool" where
  "info_exact w x \<longleftrightarrow> distinct (branches_of w x) \<and> list_all (points_at w x) (branches_of w x) \<and>
     list_all (\<lambda>b. Some x \<in> set (targets_at w b) \<longrightarrow> b \<in> set (branches_of w x)) [0..<w_next w]"

text \<open>What an edit that moves the targets of \<open>x\<close> to \<open>y\<close> does beside the list.\<close>

definition moved :: "gid \<Rightarrow> bool \<Rightarrow> addr \<Rightarrow> addr \<Rightarrow> world \<Rightarrow> world \<Rightarrow> bool" where
  "moved g removed x y w w' \<longleftrightarrow> opcode_at w' = opcode_at w \<and> bytes_at w' = bytes_at w \<and>
     operand_at w' = operand_at w \<and> w_next w' = w_next w \<and> w_methods w' = w_methods w \<and>
     (\<forall>b < w_next w. targets_at w' b = map (retarget_opt x y) (targets_at w b)) \<and>
     (\<forall>c. w_clauses w' c = (if c \<in> set (clauses_of w g)
        then map_option (CExceptionClause_UpdateInstruction removed x (Some y)) (w_clauses w c) else w_clauses w c))"

lemma fold_Add_frame [simp]:
  "m_class (fold BranchInfo_Add bs i) = m_class i" "m_opcode (fold BranchInfo_Add bs i) = m_opcode i"
  "m_pGraph (fold BranchInfo_Add bs i) = m_pGraph i" "m_offset (fold BranchInfo_Add bs i) = m_offset i"
  "m_pNextInstruction (fold BranchInfo_Add bs i) = m_pNextInstruction i"
  "m_pPreviousInstruction (fold BranchInfo_Add bs i) = m_pPreviousInstruction i"
  "m_bIsRemoved (fold BranchInfo_Add bs i) = m_bIsRemoved i"
  by (induction bs arbitrary: i) (simp_all add: BranchInfo_Add_def split: option.splits)

lemma byte_size_frame [simp]:
  "byte_size (fold BranchInfo_Add bs i) = byte_size i" "byte_size (retarget_instr x y i) = byte_size i"
  "byte_size (i \<lparr> m_branchInfo := b \<rparr>) = byte_size i"
  by (cases "opcodeInfo (m_opcode i)"; cases "m_class i"; simp add: byte_size_def retarget_instr_def)+

definition skel :: "instr \<Rightarrow> gid option \<times> addr option \<times> addr option \<times> DWORD \<times> bool \<times> DWORD" where
  "skel i = (m_pGraph i, m_pNextInstruction i, m_pPreviousInstruction i, m_offset i, wf_instr i, instr_size i)"

lemma body_ok_skel:
  assumes "body_ok w g xs" and "w_next w' = w_next w" "w_graphs w' = w_graphs w" "w_clauses w' = w_clauses w"
    "w_methods w' = w_methods w" and "\<And>a. map_option skel (w_instrs w' a) = map_option skel (w_instrs w a)"
  shows "body_ok w' g xs"
proof -
  have *: "\<exists>j. w_instrs w' a = Some j \<and> skel j = skel i" if "w_instrs w a = Some i" for a i
    using assms(6) [of a] that by auto
  have "dll (w_instrs w') None xs None"
    by (rule dll_cong [of "w_instrs w"]) (use assms(1) * in \<open>auto simp: skel_def elim: body_okE\<close>)
  moreover have nd: "node_ok w' g a" if "node_ok w g a" for a
    using node_okD [OF that] * assms(2) by (fastforce simp: node_ok_def skel_def)
  moreover have "size_at w' a = size_at w a" for a
    using assms(6) [of a] by (auto simp: size_at_def skel_def split: option.splits)
  then have "layout w' 0 xs a = layout w 0 xs a" for a by (intro layout_cong) auto
  moreover have "section_ok w' g" using assms by (simp add: body_ok_def section_ok_def cong: option.case_cong)
  ultimately show ?thesis
    using assms(1) * by (fastforce simp: body_ok_def graph_inv_def graph_list_def stale_def assms(3) list_all_iff skel_def split: option.splits)
qed

lemma retargeted_body:
  assumes "body_ok w g xs" and "w_instrs w x = Some i"
  shows "body_ok (retargeted x y bs (put_instr x (i \<lparr> m_branchInfo := None \<rparr>) w)) g xs"
proof (rule body_ok_skel [OF assms(1)])
  have s: "instr_size (fold BranchInfo_Add bs j) = instr_size j" "wf_instr (fold BranchInfo_Add bs j) = wf_instr j" for j
    by (rule instr_size_frame; simp)+
  have s': "instr_size (i \<lparr> m_branchInfo := None \<rparr>) = instr_size i" by (rule instr_size_frame; simp)
  show "map_option skel (w_instrs (retargeted x y bs (put_instr x (i \<lparr> m_branchInfo := None \<rparr>) w)) a) =
      map_option skel (w_instrs w a)" for a
    using assms(2) by (cases "w_instrs w a") (auto simp: retargeted_def skel_def s s')
qed simp_all

lemma retarget_opt_id: "Some x \<notin> set ts \<Longrightarrow> map (retarget_opt x y) ts = ts"
  by (induction ts) (auto simp: retarget_opt_def)

definition info_all :: "world \<Rightarrow> bool" where
  "info_all w \<longleftrightarrow> list_all (info_exact w) [0..<w_next w]"

definition branch_list :: "instr \<Rightarrow> addr list" where
  "branch_list i = (case m_branchInfo i of None \<Rightarrow> [] | Some cs \<Rightarrow> cs)"

lemma branch_list_Add [simp]: "branch_list (BranchInfo_Add b i) = List.insert b (branch_list i)"
  by (simp add: branch_list_def BranchInfo_Add_def split: option.splits)

lemma branch_list_fold [simp]:
  "set (branch_list (fold BranchInfo_Add bs i)) = set bs \<union> set (branch_list i)"
  "distinct (branch_list i) \<Longrightarrow> distinct (branch_list (fold BranchInfo_Add bs i))"
  by (induction bs arbitrary: i) auto

lemma branches_of_list: "w_instrs w x = Some i \<Longrightarrow> branches_of w x = branch_list i"
  by (simp add: branches_of_def branch_list_def)

lemma in_retarget_opt [simp]:
  "x \<noteq> y \<Longrightarrow> Some z \<in> retarget_opt x y ` set ts \<longleftrightarrow>
     z \<noteq> x \<and> (Some z \<in> set ts \<or> z = y \<and> Some x \<in> set ts)"
  by (induction ts) (auto simp: retarget_opt_def)

lemma targets_retargeted:
  assumes "w_instrs w x = Some i" and "y \<notin> set (branches_of w x)" and "info_exact w x" and "b < w_next w"
  shows "targets_at (retargeted x y (branches_of w x) (put_instr x (i \<lparr> m_branchInfo := None \<rparr>) w)) b =
    map (retarget_opt x y) (targets_at w b)"
proof (cases "b \<in> set (branches_of w x)")
  case True
  then show ?thesis using assms(1,2)
    by (cases "w_instrs w b") (auto simp: targets_at_def retargeted_def targets_of_def [of "i\<lparr>m_branchInfo := None\<rparr>"] targets_of_def [of i])
next
  case False
  then have "Some x \<notin> set (targets_at w b)" using assms(3,4) by (auto simp: info_exact_def list_all_iff)
  then show ?thesis using False assms(1)
    by (cases "w_instrs w b") (auto simp: targets_at_def retargeted_def targets_of_def retarget_opt_id)
qed

lemma info_all_retargeted:
  fixes w x y i
  defines "bs \<equiv> branches_of w x"
  defines "w' \<equiv> retargeted x y bs (put_instr x (i \<lparr> m_branchInfo := None \<rparr>) w)"
  assumes "w_instrs w x = Some i" and "w_instrs w y = Some j" and "x \<noteq> y" and "y \<notin> set bs"
    and "info_all w" and "x < w_next w" "y < w_next w"
  shows "info_all w'"
proof -
  have ex: "info_exact w z" if "z < w_next w" for z using assms(7) that by (auto simp: info_all_def list_all_iff)
  have t: "targets_at w' b = map (retarget_opt x y) (targets_at w b)" if "b < w_next w" for b
    unfolding w'_def bs_def using assms(3) assms(6) [unfolded bs_def] ex [OF assms(8)] that by (rule targets_retargeted)
  have wf: "(case w_instrs w' b of None \<Rightarrow> False | Some i \<Rightarrow> wf_instr i) = (case w_instrs w b of None \<Rightarrow> False | Some i \<Rightarrow> wf_instr i)" for b
    using assms(3) by (cases "w_instrs w b") (auto simp: w'_def retargeted_def wf_instr_def [of "fold _ _ _"] wf_instr_def [symmetric])
  have pt: "points_at u z b \<longleftrightarrow> b < w_next u \<and> (case w_instrs u b of None \<Rightarrow> False | Some i \<Rightarrow> wf_instr i) \<and> Some z \<in> set (targets_at u b)" for u z b
    by (auto simp: points_at_def targets_at_def split: option.splits)
  have nx: "w_next w' = w_next w" by (simp add: w'_def)
  have p: "points_at w' z b \<longleftrightarrow> z \<noteq> x \<and> (points_at w z b \<or> z = y \<and> points_at w x b)" for z b
    using assms(5) by (auto simp: pt wf nx t)
  have brx: "branches_of w' x = []" using assms(3,5) by (simp add: branches_of_def w'_def retargeted_def)
  have "w_instrs w' y = Some (fold BranchInfo_Add bs j)"
    using assms(4,5,6) by (simp add: w'_def retargeted_def)
  then have bry: "set (branches_of w' y) = set bs \<union> set (branches_of w y)"
    "distinct (branches_of w y) \<Longrightarrow> distinct (branches_of w' y)"
    using assms(4) by (simp_all add: branches_of_list)
  have br: "branches_of w' z = branches_of w z" if "z \<noteq> x" "z \<noteq> y" for z
    using that by (cases "w_instrs w z") (simp_all add: branches_of_def w'_def retargeted_def)
  have "info_exact w' z" if z: "z < w_next w" for z
  proof -
    have bs: "list_all (points_at w x) bs" using ex [OF assms(8)] by (simp add: info_exact_def bs_def)
    consider "z = x" | "z = y" | "z \<noteq> x" "z \<noteq> y" by blast
    then show ?thesis
    proof cases
      case 1
      then show ?thesis using brx t nx assms(5) by (auto simp: info_exact_def list_all_iff)
    next
      case 2
      have "list_all (points_at w' y) (branches_of w' y)"
        using bry(1) bs ex [OF assms(9)] p assms(5) by (auto simp: info_exact_def list_all_iff)
      moreover have "b \<in> set (branches_of w' y)" if "b < w_next w" "Some y \<in> set (targets_at w' b)" for b
        using that t [of b] assms(5) ex [OF assms(9)] ex [OF assms(8)] bry(1)
        by (auto simp: info_exact_def list_all_iff bs_def)
      ultimately show ?thesis using 2 bry(2) ex [OF assms(9)] nx by (auto simp: info_exact_def list_all_iff)
    next
      case 3
      then show ?thesis using ex [OF z] br [of z] p [of z] nx t assms(5)
        by (auto simp: info_exact_def list_all_iff)
    qed
  qed
  then show ?thesis by (simp add: info_all_def list_all_iff nx)
qed

text \<open>The two last steps of an edit, from the state after the links are set.\<close>

lemma retarget_and_update:
  assumes "body_ok w g xs" and "w_instrs w x = Some i" and "w_instrs w y = Some j" and "x \<noteq> y"
    and "info_all w" and "Some x \<notin> set (targets_at w y)" and "x < w_next w" "y < w_next w"
  shows "\<exists>w'. IfFailRet (RetargetBranches x y) (\<lambda>_. updateExceptionSection g x y) w = (Ok (), w') \<and>
    body_ok w' g xs \<and> moved g (m_bIsRemoved i) x y w w' \<and> removed_at w' = removed_at w \<and> info_all w'"
proof -
  have ex: "info_exact w x" using assms(5,7) by (auto simp: info_all_def list_all_iff)
  let ?bs = "branches_of w x" and ?i = "i \<lparr> m_branchInfo := None \<rparr>"
  let ?w = "retargeted x y ?bs (put_instr x ?i w)"
  have "y \<notin> set ?bs" using ex assms(6) by (auto simp: info_exact_def list_all_iff points_at_def targets_at_def split: option.splits)
  then have r: "RetargetBranches x y w = (Ok (), ?w)"
    using assms ex by (intro RetargetBranches_exec) (auto simp: info_exact_def)
  have b: "body_ok ?w g xs" using assms(1,2) by (rule retargeted_body)
  obtain gr where gr: "w_graphs ?w g = Some gr" "section_ok ?w g" using b by (rule body_okE)
  obtain ix where ix: "w_instrs ?w x = Some ix" "m_bIsRemoved ix = m_bIsRemoved i"
    by (auto simp: retargeted_def)
  have c: "clauses_of ?w g = clauses_of w g" by (simp add: clauses_of_def cong: option.case_cong)
  have t: "targets_at ?w b = map (retarget_opt x y) (targets_at w b)" if "b < w_next w" for b
    using assms(2) \<open>y \<notin> set ?bs\<close> ex that by (rule targets_retargeted)
  have ia: "info_all ?w"
    using assms(2-4) \<open>y \<notin> set ?bs\<close> assms(5,7,8) by (rule info_all_retargeted)
  have p: "opcode_at ?w = opcode_at w"
  proof
    fix a show "opcode_at ?w a = opcode_at w a"
      using assms(2) by (cases "a = x"; cases "w_instrs w a") (simp_all add: opcode_at_def retargeted_def comp_def option.map_comp)
  qed
  have bt: "bytes_at ?w = bytes_at w"
  proof
    fix a show "bytes_at ?w a = bytes_at w a"
      using assms(2) by (cases "a = x"; cases "w_instrs w a") (simp_all add: bytes_at_def retargeted_def)
  qed
  have od: "operand_at ?w = operand_at w"
  proof
    fix a show "operand_at ?w a = operand_at w a"
      using assms(2) by (cases "a = x"; cases "w_instrs w a")
        (simp_all add: operand_at_def retargeted_def retarget_instr_def split: iclass.splits)
  qed
  have rm: "removed_at ?w = removed_at w"
  proof
    fix a show "removed_at ?w a = removed_at w a"
      using assms(2) by (cases "a = x"; cases "w_instrs w a") (simp_all add: removed_at_def retargeted_def)
  qed
  let ?w' = "map_clauses (CExceptionClause_UpdateInstruction (m_bIsRemoved i) x (Some y)) (clauses_of w g) ?w"
  have "updateExceptionSection g x y ?w = (Ok (), ?w')"
    using updateExceptionSection_exec [OF gr(2,1) ix(1), of y] ix(2) c by simp
  moreover have v: "targets_at ?w' = targets_at ?w" "opcode_at ?w' = opcode_at ?w" "removed_at ?w' = removed_at ?w"
    "bytes_at ?w' = bytes_at ?w" "operand_at ?w' = operand_at ?w"
    by (simp_all add: targets_at_def opcode_at_def removed_at_def bytes_at_def operand_at_def fun_eq_iff)
  moreover have "moved g (m_bIsRemoved i) x y w ?w'"
    using t p v bt od by (simp add: moved_def map_clauses_def)
  moreover have "branches_of ?w' = branches_of ?w" "points_at ?w' = points_at ?w"
    by (simp_all add: fun_eq_iff branches_of_def points_at_def)
  then have "info_all ?w'"
    using ia v(1) by (simp add: info_all_def info_exact_def [abs_def])
  ultimately show ?thesis using r b rm by auto
qed


lemma preserves_run: "preserves m keeps \<Longrightarrow> m w = (r, w') \<Longrightarrow> keeps w w'"
  unfolding preserves_def by (metis snd_conv)

lemma IfFailRet_prefix:
  "IfFailRet a (\<lambda>x. IfFailRet (b x) (\<lambda>y. IfFailRet (c y) (\<lambda>_. d))) w = (Ok r, w') \<Longrightarrow>
    IfFailRet a (\<lambda>x. IfFailRet (b x) (\<lambda>y. IfFailRet (c y) (\<lambda>_. IfFailRet d k))) w = k r w'"
  by (auto simp: IfFailRet_def split: prod.splits result.splits)

lemma info_keeps:
  assumes "keeps w w'"
  shows "info_all w' = info_all w" "moved g r x y w' u = moved g r x y w u"
proof -
  have "w_next w' = w_next w" "w_clauses w' = w_clauses w" "w_methods w' = w_methods w" using assms by (simp_all add: keeps_def)
  with keeps_views [OF assms] show "info_all w' = info_all w" "moved g r x y w' u = moved g r x y w u"
    by (simp_all add: info_all_def info_exact_def [abs_def] moved_def)
qed

lemma InsertBeforeAndRetargetOffsets_list:
  assumes "body_ok w g (ps @ x # qs)" and "detached w y" and "info_all w" and "Some x \<notin> set (targets_at w y)"
  shows "\<exists>w'. InsertBeforeAndRetargetOffsets g (Some x) (Some y) w = (Ok (), w') \<and>
    body_ok w' g (ps @ y # x # qs) \<and> moved g (removed_at w x) x y w w' \<and> info_all w'"
proof -
  obtain i where i: "w_instrs w x = Some i" "m_pGraph i = Some g" "x < w_next w" using assms(1) by (rule body_splitE)
  obtain j where j: "w_instrs w y = Some j" "y < w_next w" using assms(2) by (rule detachedE)
  let ?link = "IfFailRet (SetGraph y g) (\<lambda>_. IfFailRet (get_instr x) (\<lambda>i.
      IfFailRet (linkBefore g x y (m_pPreviousInstruction i)) (\<lambda>_. MarkInstructionsStale g)))"
  obtain w1 where w1: "?link w = (Ok (), w1)" "body_ok w1 g (ps @ y # x # qs)" "removed_at w1 x = removed_at w x"
    using linkBefore_list [OF assms(1,2) j(1)] by blast
  have "preserves ?link keeps" by (intro frame)
  then have k: "keeps w w1" using w1(1) by (rule preserves_run)
  obtain i1 where i1: "w_instrs w1 x = Some i1" using k i(1) by (rule keeps_instr)
  obtain j1 where j1: "w_instrs w1 y = Some j1" using k j(1) by (rule keeps_instr)
  have "x \<noteq> y" using w1(2) by (auto elim: body_okE)
  then obtain w' where "IfFailRet (RetargetBranches x y) (\<lambda>_. updateExceptionSection g x y) w1 = (Ok (), w')"
    "body_ok w' g (ps @ y # x # qs)" "moved g (m_bIsRemoved i1) x y w1 w'" "info_all w'"
    using retarget_and_update [OF w1(2) i1 j1] assms(3,4) info_keeps(1) [OF k] keeps_views(1) [OF k] i(3) j(2) k by (auto simp: keeps_def)
  moreover have "m_bIsRemoved i1 = removed_at w x" using i1 w1(3) by (simp add: removed_at_def)
  ultimately show ?thesis
    using i IfFailRet_prefix [OF w1(1), of "\<lambda>_. IfFailRet (RetargetBranches x y) (\<lambda>_. updateExceptionSection g x y)"] info_keeps(2) [OF k]
    by (auto simp: InsertBeforeAndRetargetOffsets_def IfNullRetPointer_def IfFalseRet_def)
qed

text \<open>The link updates of \<^verbatim>\<open>Replace\<close>.\<close>

definition linkReplace :: "gid \<Rightarrow> addr \<Rightarrow> addr \<Rightarrow> (world, unit) op" where
  "linkReplace g x y = IfFailRet (SetGraph y g) (\<lambda>_.
      IfFailRet (get_instr x) (\<lambda>i.
      IfFailRet (upd_instr x SetIsRemoved) (\<lambda>_.
      IfFailRet (case m_pPreviousInstruction i of
          Some p \<Rightarrow> IfFailRet (upd_instr p (SetNextInstruction (Some y) False)) (\<lambda>_.
            upd_instr y (SetPreviousInstruction (Some p) False))
        | None \<Rightarrow> upd_graph g (\<lambda>gr. gr \<lparr> m_pFirstInstruction := Some y \<rparr>)) (\<lambda>_.
      IfFailRet (case m_pNextInstruction i of
          Some n \<Rightarrow> IfFailRet (upd_instr n (SetPreviousInstruction (Some y) False)) (\<lambda>_.
            upd_instr y (SetNextInstruction (Some n) False))
        | None \<Rightarrow> upd_graph g (\<lambda>gr. gr \<lparr> m_pLastInstruction := Some y \<rparr>)) (\<lambda>_.
      MarkInstructionsStale g)))))"

lemma linkReplace_list:
  assumes "body_ok w g (ps @ x # qs)" and "detached w y"
  shows "\<exists>w'. linkReplace g x y w = (Ok (), w') \<and> body_ok w' g (ps @ y # qs) \<and> removed_at w' x"
proof -
  from assms(1) obtain gr i where b: "w_graphs w g = Some gr" "m_pFirstInstruction gr = nxt (ps @ x # qs) None"
    "m_pLastInstruction gr = prv (ps @ x # qs) None" "distinct (ps @ x # qs)"
    "dll (w_instrs w) None (ps @ x # qs) None" "list_all (node_ok w g) (ps @ x # qs)" "section_ok w g"
    "w_instrs w x = Some i" "m_pGraph i = Some g" "m_pPreviousInstruction i = prv ps None"
    "m_pNextInstruction i = nxt qs None" "wf_instr i" "x < w_next w" by (rule body_splitE)
  from assms(2) obtain j where j: "w_instrs w y = Some j" "wf_instr j" "m_pGraph j = None"
    "m_pNextInstruction j = None" "m_pPreviousInstruction j = None" "y < w_next w" by (rule detachedE)
  have y: "y \<notin> set (ps @ x # qs)" using detached_notin b(6) assms(2) by blast
  have p: "\<exists>k. w_instrs w p = Some k \<and> m_pGraph k = Some g \<and> wf_instr k \<and> p < w_next w" if "p \<in> set (ps @ qs)" for p
    using b(6) that by (intro node_okD) (auto simp: list_all_iff)
  note defs = linkReplace_def edit_defs removed_at_def
  show ?thesis
  proof (cases ps rule: rev_cases)
    case Nil
    show ?thesis
    proof (cases qs)
      case Nil
      with \<open>ps = []\<close> b j y show ?thesis by (auto simp: defs intro!: body_okI)
    next
      case (Cons q qs')
      then obtain k where "w_instrs w q = Some k" "m_pGraph k = Some g" "wf_instr k" "q < w_next w" using p by auto
      with Cons \<open>ps = []\<close> b j y show ?thesis by (auto simp: defs intro!: body_okI)
    qed
  next
    case (snoc ps' r)
    then obtain l where l: "w_instrs w r = Some l" "m_pGraph l = Some g" "wf_instr l" "r < w_next w" using p by auto
    show ?thesis
    proof (cases qs)
      case Nil
      with snoc l b j y show ?thesis by (auto simp: defs intro!: body_okI)
    next
      case (Cons q qs')
      then obtain k where "w_instrs w q = Some k" "m_pGraph k = Some g" "wf_instr k" "q < w_next w" using p by auto
      with Cons snoc l b j y show ?thesis by (simp add: defs body_ok_def graph_inv_def graph_list_def stale_def)
    qed
  qed
qed

lemma Replace_list:
  assumes "body_ok w g (ps @ x # qs)" and "detached w y" and "info_all w" and "Some x \<notin> set (targets_at w y)"
  shows "\<exists>w'. Replace g (Some x) (Some y) w = (Ok (), w') \<and>
    body_ok w' g (ps @ y # qs) \<and> moved g True x y w w' \<and> removed_at w' x \<and> info_all w'"
proof -
  obtain i where i: "w_instrs w x = Some i" "m_pGraph i = Some g" "x < w_next w" using assms(1) by (rule body_splitE)
  obtain j where j: "w_instrs w y = Some j" "y < w_next w" using assms(2) by (rule detachedE)
  obtain w1 where w1: "linkReplace g x y w = (Ok (), w1)" "body_ok w1 g (ps @ y # qs)" "removed_at w1 x"
    using linkReplace_list [OF assms(1,2)] by blast
  have "preserves (linkReplace g x y) keeps" unfolding linkReplace_def by (intro frame; simp)
  then have k: "keeps w w1" using w1(1) by (rule preserves_run)
  obtain i1 where i1: "w_instrs w1 x = Some i1" using k i(1) by (rule keeps_instr)
  obtain j1 where j1: "w_instrs w1 y = Some j1" using k j(1) by (rule keeps_instr)
  have r: "m_bIsRemoved i1" using i1 w1(3) by (simp add: removed_at_def)
  have "list_all (node_ok w g) (ps @ x # qs)" using assms(1) by (rule body_okE)
  then have "x \<noteq> y" using detached_notin assms(2) by fastforce
  then obtain w' where w': "IfFailRet (RetargetBranches x y) (\<lambda>_. updateExceptionSection g x y) w1 = (Ok (), w')"
    "body_ok w' g (ps @ y # qs)" "moved g (m_bIsRemoved i1) x y w1 w'" "removed_at w' x = removed_at w1 x" "info_all w'"
    using retarget_and_update [OF w1(2) i1 j1] assms(3,4) info_keeps(1) [OF k] keeps_views(1) [OF k] i(3) j(2) k by (auto simp: keeps_def)
  have "Replace g (Some x) (Some y) w =
    IfFailRet (linkReplace g x y) (\<lambda>_. IfFailRet (RetargetBranches x y) (\<lambda>_. updateExceptionSection g x y)) w"
    using i by (simp add: Replace_def linkReplace_def IfNullRetPointer_def IfFalseRet_def Let_def IfFailRet_assoc)
  with w1 w' r info_keeps(2) [OF k] show ?thesis by auto
qed

definition linkRemove :: "gid \<Rightarrow> addr \<Rightarrow> addr option \<Rightarrow> addr option \<Rightarrow> (world, unit) op" where
  "linkRemove g x pPrev pNext = IfFailRet (upd_instr x SetIsRemoved) (\<lambda>_.
      IfFailRet (case pPrev of
          Some p \<Rightarrow> upd_instr p (SetNextInstruction pNext False)
        | None \<Rightarrow> upd_graph g (\<lambda>gr. gr \<lparr> m_pFirstInstruction := pNext \<rparr>)) (\<lambda>_.
      IfFailRet (case pNext of
          Some n \<Rightarrow> upd_instr n (SetPreviousInstruction pPrev False)
        | None \<Rightarrow> upd_graph g (\<lambda>gr. gr \<lparr> m_pLastInstruction := pPrev \<rparr>)) (\<lambda>_.
      MarkInstructionsStale g)))"

lemma linkRemove_list:
  assumes "body_ok w g (ps @ x # qs)"
  shows "\<exists>w'. linkRemove g x (prv ps None) (nxt qs None) w = (Ok (), w') \<and> body_ok w' g (ps @ qs) \<and> removed_at w' x"
proof -
  from assms obtain gr i where b: "w_graphs w g = Some gr" "m_pFirstInstruction gr = nxt (ps @ x # qs) None"
    "m_pLastInstruction gr = prv (ps @ x # qs) None" "distinct (ps @ x # qs)"
    "dll (w_instrs w) None (ps @ x # qs) None" "list_all (node_ok w g) (ps @ x # qs)" "section_ok w g"
    "w_instrs w x = Some i" "m_pGraph i = Some g" "m_pPreviousInstruction i = prv ps None"
    "m_pNextInstruction i = nxt qs None" "wf_instr i" "x < w_next w" by (rule body_splitE)
  have p: "\<exists>k. w_instrs w p = Some k \<and> m_pGraph k = Some g \<and> wf_instr k \<and> p < w_next w" if "p \<in> set (ps @ qs)" for p
    using b(6) that by (intro node_okD) (auto simp: list_all_iff)
  note defs = linkRemove_def edit_defs removed_at_def
  show ?thesis
  proof (cases ps rule: rev_cases)
    case Nil
    show ?thesis
    proof (cases qs)
      case Nil
      with \<open>ps = []\<close> b show ?thesis by (auto simp: defs intro!: body_okI)
    next
      case (Cons q qs')
      then obtain k where "w_instrs w q = Some k" "m_pGraph k = Some g" "wf_instr k" "q < w_next w" using p by auto
      with Cons \<open>ps = []\<close> b show ?thesis by (auto simp: defs intro!: body_okI)
    qed
  next
    case (snoc ps' r)
    then obtain l where l: "w_instrs w r = Some l" "m_pGraph l = Some g" "wf_instr l" "r < w_next w" using p by auto
    show ?thesis
    proof (cases qs)
      case Nil
      with snoc l b show ?thesis by (auto simp: defs intro!: body_okI)
    next
      case (Cons q qs')
      then obtain k where "w_instrs w q = Some k" "m_pGraph k = Some g" "wf_instr k" "q < w_next w" using p by auto
      with Cons snoc l b show ?thesis by (auto simp: defs intro!: body_okI)
    qed
  qed
qed

text \<open>The instruction that takes the place of a removed one in the exception ranges.\<close>

definition neighbour :: "addr list \<Rightarrow> addr list \<Rightarrow> addr option" where
  "neighbour ps qs = (case qs of q # _ \<Rightarrow> Some q | [] \<Rightarrow> prv ps None)"

definition ranges_moved :: "gid \<Rightarrow> addr \<Rightarrow> addr option \<Rightarrow> world \<Rightarrow> world \<Rightarrow> bool" where
  "ranges_moved g x y w w' \<longleftrightarrow> opcode_at w' = opcode_at w \<and> bytes_at w' = bytes_at w \<and> targets_at w' = targets_at w \<and>
     (\<forall>c. w_clauses w' c = (if c \<in> set (clauses_of w g)
        then map_option (CExceptionClause_UpdateInstruction True x y) (w_clauses w c) else w_clauses w c))"

lemma Remove_list:
  assumes "body_ok w g (ps @ x # qs)" and "ps @ qs \<noteq> []"
  shows "\<exists>w'. Remove g (Some x) w = (Ok (), w') \<and> body_ok w' g (ps @ qs) \<and> removed_at w' x \<and>
    ranges_moved g x (neighbour ps qs) w w' \<and> info_all w' = info_all w"
proof -
  obtain i where i: "w_instrs w x = Some i" "m_pGraph i = Some g" "m_pPreviousInstruction i = prv ps None"
    "m_pNextInstruction i = nxt qs None" using assms(1) by (rule body_splitE)
  obtain w1 where w1: "linkRemove g x (prv ps None) (nxt qs None) w = (Ok (), w1)" "body_ok w1 g (ps @ qs)" "removed_at w1 x"
    using linkRemove_list [OF assms(1)] by blast
  have "preserves (linkRemove g x (prv ps None) (nxt qs None)) keeps" unfolding linkRemove_def by (intro frame; simp)
  then have k: "keeps w w1" using w1(1) by (rule preserves_run)
  obtain i1 where i1: "w_instrs w1 x = Some i1" using k i(1) by (rule keeps_instr)
  have r: "m_bIsRemoved i1" using i1 w1(3) by (simp add: removed_at_def)
  obtain gr where gr: "w_graphs w1 g = Some gr" "section_ok w1 g" using w1(2) by (rule body_okE)
  let ?rest = "IfFailRet (get_graph g) (\<lambda>gr. case m_pMethodInfo gr of
          None \<Rightarrow> ret ()
        | Some m \<Rightarrow> IfFailRet (GetExceptionSection m) (\<lambda>_.
            case (nxt qs None, prv ps None) of
              (Some n, _) \<Rightarrow> Discard (CExceptionSection_UpdateInstruction m x (Some n)) (\<lambda>_. ret ())
            | (None, Some p) \<Rightarrow> Discard (CExceptionSection_UpdateInstruction m x (Some p)) (\<lambda>_. ret ())
            | (None, None) \<Rightarrow> fail E_FAIL))"
  have u: "Remove g (Some x) w = IfFailRet (linkRemove g x (prv ps None) (nxt qs None)) (\<lambda>_. ?rest) w"
    unfolding i(3,4) [symmetric] using i(1,2)
    by (simp add: Remove_def linkRemove_def IfNullRetPointer_def IfFalseRet_def Let_def IfFailRet_assoc)
  let ?w = "map_clauses (CExceptionClause_UpdateInstruction True x (neighbour ps qs)) (clauses_of w1 g) w1"
  have "?rest w1 = (Ok (), ?w)"
    using gr(2,1)
  proof (cases rule: section_okE)
    case 1
    with gr show ?thesis by simp
  next
    case (2 m mi cs)
    with gr i1 r assms(2) show ?thesis
      by (cases qs; cases ps rule: rev_cases)
        (simp_all add: GetExceptionSection_exec section_update_exec neighbour_def)
  qed
  moreover have "ranges_moved g x (neighbour ps qs) w ?w"
    using keeps_views [OF k] k
    by (simp add: ranges_moved_def map_clauses_def keeps_def targets_at_def [abs_def] opcode_at_def [abs_def] bytes_at_def [abs_def])
  moreover have "removed_at ?w x" using w1(3) by (simp add: removed_at_def)
  moreover have "branches_of ?w = branches_of w1" "points_at ?w = points_at w1" "targets_at ?w = targets_at w1"
    by (simp_all add: fun_eq_iff branches_of_def points_at_def targets_at_def)
  then have "info_all ?w = info_all w" using info_keeps(1) [OF k] by (simp add: info_all_def info_exact_def [abs_def])
  ultimately show ?thesis using u w1 by auto
qed

end
