(* ===== verification/EditSteps.thy ===== *)
theory EditSteps
  imports EditRefine
begin

text \<open>
  The contract of an instruction graph as an interface: a sequence that clients edit, and a
  sequence whose elements point at each other.  The graph is shown to meet it, and what clients
  rely on follows: whole sequences are inserted in order, every admissible series of edits and
  offset queries keeps the body well-formed, and the edited body encodes.
\<close>

section \<open>The interface of an editable sequence\<close>

text \<open>Inserting a sequence one after the other.\<close>

fun chain :: "('a \<Rightarrow> 'a \<Rightarrow> ('w, unit) op) \<Rightarrow> 'a \<Rightarrow> 'a list \<Rightarrow> ('w, unit) op" where
  "chain f x [] = ret ()"
| "chain f x (y # ys) = IfFailRet (f x y) (\<lambda>_. chain f y ys)"

locale instruction_sequence =
  fixes holds :: "'w \<Rightarrow> 'a list \<Rightarrow> bool"
    and free :: "'w \<Rightarrow> 'a \<Rightarrow> bool"
    and insert_before :: "'a \<Rightarrow> 'a \<Rightarrow> ('w, unit) op"
    and insert_after :: "'a \<Rightarrow> 'a \<Rightarrow> ('w, unit) op"
    and remove :: "'a \<Rightarrow> ('w, unit) op"
  assumes insert_before: "holds w (ps @ x # qs) \<Longrightarrow> free w y \<Longrightarrow>
      \<exists>w'. insert_before x y w = (Ok (), w') \<and> holds w' (ps @ y # x # qs) \<and>
        (\<forall>z. z \<notin> set (y # ps @ x # qs) \<longrightarrow> free w z \<longrightarrow> free w' z)"
    and insert_after: "holds w (ps @ x # qs) \<Longrightarrow> free w y \<Longrightarrow>
      \<exists>w'. insert_after x y w = (Ok (), w') \<and> holds w' (ps @ x # y # qs) \<and>
        (\<forall>z. z \<notin> set (y # ps @ x # qs) \<longrightarrow> free w z \<longrightarrow> free w' z)"
    and remove: "holds w (ps @ x # qs) \<Longrightarrow> ps @ qs \<noteq> [] \<Longrightarrow>
      \<exists>w'. remove x w = (Ok (), w') \<and> holds w' (ps @ qs)"
    and free_notin: "holds w xs \<Longrightarrow> free w y \<Longrightarrow> y \<notin> set xs"
begin

lemma insert_all_before:
  assumes "holds w (ps @ x # qs)" and "list_all (free w) ys" and "distinct ys"
  shows "\<exists>w'. each (insert_before x) ys w = (Ok (), w') \<and> holds w' (ps @ ys @ x # qs)"
  using assms
proof (induction ys arbitrary: w ps)
  case (Cons y ys)
  obtain w1 where w1: "insert_before x y w = (Ok (), w1)" "holds w1 (ps @ y # x # qs)"
    "\<forall>z. z \<notin> set (y # ps @ x # qs) \<longrightarrow> free w z \<longrightarrow> free w1 z"
    using insert_before [OF Cons.prems(1), of y] Cons.prems(2) by auto
  have "free w1 z" if "z \<in> set ys" for z
    using that Cons.prems(2,3) free_notin [OF Cons.prems(1), of z] w1(3) by (auto simp: list_all_iff)
  then have "list_all (free w1) ys" by (simp add: list_all_iff)
  then obtain w2 where "each (insert_before x) ys w1 = (Ok (), w2)" "holds w2 ((ps @ [y]) @ ys @ x # qs)"
    using Cons.IH [of w1 "ps @ [y]"] w1(2) Cons.prems(3) by auto
  with w1(1) show ?case by auto
qed simp

lemma insert_all_after:
  assumes "holds w (ps @ x # qs)" and "list_all (free w) ys" and "distinct ys"
  shows "\<exists>w'. chain insert_after x ys w = (Ok (), w') \<and> holds w' (ps @ x # ys @ qs)"
  using assms
proof (induction ys arbitrary: w ps x)
  case (Cons y ys)
  obtain w1 where w1: "insert_after x y w = (Ok (), w1)" "holds w1 (ps @ x # y # qs)"
    "\<forall>z. z \<notin> set (y # ps @ x # qs) \<longrightarrow> free w z \<longrightarrow> free w1 z"
    using insert_after [OF Cons.prems(1), of y] Cons.prems(2) by auto
  have "free w1 z" if "z \<in> set ys" for z
    using that Cons.prems(2,3) free_notin [OF Cons.prems(1), of z] w1(3) by (auto simp: list_all_iff)
  then have "list_all (free w1) ys" by (simp add: list_all_iff)
  then obtain w2 where "chain insert_after y ys w1 = (Ok (), w2)" "holds w2 ((ps @ [x]) @ y # ys @ qs)"
    using Cons.IH [of w1 "ps @ [x]" y] w1(2) Cons.prems(3) by auto
  with w1(1) show ?case by auto
qed simp

lemma remove_all:
  assumes "holds w (ps @ ys @ qs)" and "ps @ qs \<noteq> []"
  shows "\<exists>w'. each remove ys w = (Ok (), w') \<and> holds w' (ps @ qs)"
  using assms(1)
proof (induction ys arbitrary: w)
  case (Cons y ys)
  obtain w1 where "remove y w = (Ok (), w1)" "holds w1 (ps @ ys @ qs)"
    using remove [of w ps y "ys @ qs"] Cons.prems assms(2) by auto
  with Cons.IH show ?case by auto
qed simp

text \<open>Removing what was inserted gives the sequence back.\<close>

lemma insert_remove:
  assumes "holds w (ps @ x # qs)" and "list_all (free w) ys" and "distinct ys"
  shows "\<exists>w'. IfFailRet (each (insert_before x) ys) (\<lambda>_. each remove ys) w = (Ok (), w') \<and> holds w' (ps @ x # qs)"
proof -
  obtain w1 where w1: "each (insert_before x) ys w = (Ok (), w1)" "holds w1 (ps @ ys @ x # qs)"
    using insert_all_before [OF assms] by blast
  with remove_all [of w1 ps ys "x # qs"] show ?thesis by auto
qed

end

text \<open>Sequences whose elements point at each other, with edits that move the pointers.\<close>

definition closed_seq :: "('w \<Rightarrow> addr \<Rightarrow> addr option list) \<Rightarrow> 'w \<Rightarrow> addr list \<Rightarrow> bool" where
  "closed_seq targets w xs \<longleftrightarrow> (\<forall>b \<in> set xs. set (targets w b) \<subseteq> Some ` set xs)"

locale retargeting_sequence = instruction_sequence holds free insert_before insert_after remove
  for holds :: "'w \<Rightarrow> addr list \<Rightarrow> bool" and free insert_before insert_after remove +
  fixes targets :: "'w \<Rightarrow> addr \<Rightarrow> addr option list"
    and insert_retarget :: "addr \<Rightarrow> addr \<Rightarrow> ('w, unit) op"
    and replace :: "addr \<Rightarrow> addr \<Rightarrow> ('w, unit) op"
  assumes insert_retarget: "holds w (ps @ x # qs) \<Longrightarrow> free w y \<Longrightarrow> Some x \<notin> set (targets w y) \<Longrightarrow>
      \<exists>w'. insert_retarget x y w = (Ok (), w') \<and> holds w' (ps @ y # x # qs) \<and>
        (\<forall>b \<in> set (y # ps @ x # qs). targets w' b = map (retarget_opt x y) (targets w b))"
    and replace: "holds w (ps @ x # qs) \<Longrightarrow> free w y \<Longrightarrow> Some x \<notin> set (targets w y) \<Longrightarrow>
      \<exists>w'. replace x y w = (Ok (), w') \<and> holds w' (ps @ y # qs) \<and>
        (\<forall>b \<in> set (y # ps @ x # qs). targets w' b = map (retarget_opt x y) (targets w b))"
begin

lemma replace_closed:
  assumes "holds w (ps @ x # qs)" and "free w y" and "Some x \<notin> set (targets w y)"
    and "closed_seq targets w (ps @ x # qs)" and "set (targets w y) \<subseteq> Some ` set (ps @ y # qs)"
  shows "\<exists>w'. replace x y w = (Ok (), w') \<and> holds w' (ps @ y # qs) \<and> closed_seq targets w' (ps @ y # qs)"
proof -
  obtain w' where w': "replace x y w = (Ok (), w')" "holds w' (ps @ y # qs)"
    "\<And>b. b \<in> set (y # ps @ x # qs) \<Longrightarrow> targets w' b = map (retarget_opt x y) (targets w b)"
    using replace [OF assms(1-3)] by blast
  have "set (targets w b) \<subseteq> Some ` set (ps @ x # y # qs)" if "b \<in> set (ps @ y # qs)" for b
    using that assms(4,5) by (auto simp: closed_seq_def)
  then have "set (targets w' b) \<subseteq> Some ` set (ps @ y # qs)" if "b \<in> set (ps @ y # qs)" for b
    using that w'(3) [of b] by (fastforce simp: retarget_opt_def)
  then have "closed_seq targets w' (ps @ y # qs)" unfolding closed_seq_def by blast
  with w'(1,2) show ?thesis by blast
qed

lemma insert_retarget_closed:
  assumes "holds w (ps @ x # qs)" and "free w y" and "Some x \<notin> set (targets w y)"
    and "closed_seq targets w (ps @ x # qs)" and "set (targets w y) \<subseteq> Some ` set (ps @ y # x # qs)"
  shows "\<exists>w'. insert_retarget x y w = (Ok (), w') \<and> holds w' (ps @ y # x # qs) \<and>
    closed_seq targets w' (ps @ y # x # qs) \<and> (\<forall>b \<in> set (ps @ y # x # qs). Some x \<notin> set (targets w' b))"
proof -
  obtain w' where w': "insert_retarget x y w = (Ok (), w')" "holds w' (ps @ y # x # qs)"
    "\<And>b. b \<in> set (y # ps @ x # qs) \<Longrightarrow> targets w' b = map (retarget_opt x y) (targets w b)"
    using insert_retarget [OF assms(1-3)] by blast
  have "x \<noteq> y" using free_notin [OF assms(1,2)] by auto
  then have n: "Some x \<notin> set (targets w' b)" if "b \<in> set (ps @ y # x # qs)" for b
    using that w'(3) [of b] by auto
  have "set (targets w b) \<subseteq> Some ` set (ps @ y # x # qs)" if "b \<in> set (ps @ y # x # qs)" for b
    using that assms(4,5) by (auto simp: closed_seq_def)
  then have "set (targets w' b) \<subseteq> Some ` set (ps @ y # x # qs)" if "b \<in> set (ps @ y # x # qs)" for b
    using that w'(3) [of b] by (fastforce simp: retarget_opt_def)
  then have "closed_seq targets w' (ps @ y # x # qs)" unfolding closed_seq_def by blast
  with w'(1,2) n show ?thesis by blast
qed

end

section \<open>Instruction graphs are editable sequences\<close>

lemma preserves_inserts_info:
  "InsertBefore g x y w = (r, w') \<Longrightarrow> info_all w' = info_all w"
  "InsertAfter g x y w = (r, w') \<Longrightarrow> info_all w' = info_all w"
  using preserves_run [OF preserves_inserts(1)] preserves_run [OF preserves_inserts(2)] info_keeps(1) by blast+

interpretation graph_seq: instruction_sequence "\<lambda>w xs. body_ok w g xs \<and> info_all w" detached
  "\<lambda>x y. InsertBefore g (Some x) (Some y)" "\<lambda>x y. InsertAfter g (Some x) (Some y)" "\<lambda>x. Remove g (Some x)" for g
proof (unfold_locales, goal_cases)
  case (1 w ps x qs y)
  then show ?case
    using InsertBefore_list [of w g ps x qs y] preserves_inserts_info(1) detached_untouched by blast
next
  case (2 w ps x qs y)
  then show ?case
    using InsertAfter_list [of w g ps x qs y] preserves_inserts_info(2) detached_untouched by blast
next
  case (3 w ps x qs)
  then show ?case using Remove_list [of w g ps x qs] by blast
next
  case (4 w xs y)
  then show ?case using detached_notin by (auto elim: body_okE)
qed

lemma body_ok_bounded: "body_ok w g xs \<Longrightarrow> b \<in> set xs \<Longrightarrow> b < w_next w"
  by (erule body_okE) (auto simp: list_all_iff node_ok_def)

interpretation graph_rt: retargeting_sequence "\<lambda>w xs. body_ok w g xs \<and> info_all w" detached
  "\<lambda>x y. InsertBefore g (Some x) (Some y)" "\<lambda>x y. InsertAfter g (Some x) (Some y)" "\<lambda>x. Remove g (Some x)"
  targets_at "\<lambda>x y. InsertBeforeAndRetargetOffsets g (Some x) (Some y)" "\<lambda>x y. Replace g (Some x) (Some y)" for g
proof (unfold_locales, goal_cases)
  case (1 w ps x qs y)
  have "b < w_next w" if "b \<in> set (y # ps @ x # qs)" for b
    using 1 that body_ok_bounded by (fastforce elim: detachedE)
  then show ?case
    using InsertBeforeAndRetargetOffsets_list [of w g ps x qs y] 1 unfolding moved_def by blast
next
  case (2 w ps x qs y)
  have "b < w_next w" if "b \<in> set (y # ps @ x # qs)" for b
    using 2 that body_ok_bounded by (fastforce elim: detachedE)
  then show ?case
    using Replace_list [of w g ps x qs y] 2 unfolding moved_def by blast
qed

section \<open>Series of edits\<close>

datatype edit = Before addr addr | After addr addr | RetargetBefore addr addr
  | ReplaceWith addr addr | Delete addr

fun run_edit :: "gid \<Rightarrow> edit \<Rightarrow> (world, unit) op" where
  "run_edit g (Before x y) = InsertBefore g (Some x) (Some y)"
| "run_edit g (After x y) = InsertAfter g (Some x) (Some y)"
| "run_edit g (RetargetBefore x y) = InsertBeforeAndRetargetOffsets g (Some x) (Some y)"
| "run_edit g (ReplaceWith x y) = Replace g (Some x) (Some y)"
| "run_edit g (Delete x) = Remove g (Some x)"

text \<open>What the edits mean on the list.\<close>

fun ins_before :: "'a \<Rightarrow> 'a \<Rightarrow> 'a list \<Rightarrow> 'a list" where
  "ins_before x y [] = []"
| "ins_before x y (z # zs) = (if z = x then y # z # zs else z # ins_before x y zs)"

fun ins_after :: "'a \<Rightarrow> 'a \<Rightarrow> 'a list \<Rightarrow> 'a list" where
  "ins_after x y [] = []"
| "ins_after x y (z # zs) = (if z = x then z # y # zs else z # ins_after x y zs)"

fun apply_edit :: "edit \<Rightarrow> addr list \<Rightarrow> addr list" where
  "apply_edit (Before x y) xs = ins_before x y xs"
| "apply_edit (After x y) xs = ins_after x y xs"
| "apply_edit (RetargetBefore x y) xs = ins_before x y xs"
| "apply_edit (ReplaceWith x y) xs = map (\<lambda>z. if z = x then y else z) xs"
| "apply_edit (Delete x) xs = remove1 x xs"

text \<open>An edit is admissible when its anchor is in the body and its new instruction is in no graph;
  moving the targets of \<open>x\<close> to \<open>y\<close> needs a \<open>y\<close> that does not target \<open>x\<close> itself, and the last
  instruction of a body is not removed.\<close>

fun edit_pre :: "world \<Rightarrow> addr list \<Rightarrow> edit \<Rightarrow> bool" where
  "edit_pre w xs (Before x y) \<longleftrightarrow> x \<in> set xs \<and> detached w y"
| "edit_pre w xs (After x y) \<longleftrightarrow> x \<in> set xs \<and> detached w y"
| "edit_pre w xs (RetargetBefore x y) \<longleftrightarrow> x \<in> set xs \<and> detached w y \<and> Some x \<notin> set (targets_at w y)"
| "edit_pre w xs (ReplaceWith x y) \<longleftrightarrow> x \<in> set xs \<and> detached w y \<and> Some x \<notin> set (targets_at w y)"
| "edit_pre w xs (Delete x) \<longleftrightarrow> x \<in> set xs \<and> xs \<noteq> [x]"

lemma ins_split:
  "x \<notin> set ps \<Longrightarrow> ins_before x y (ps @ x # qs) = ps @ y # x # qs"
  "x \<notin> set ps \<Longrightarrow> ins_after x y (ps @ x # qs) = ps @ x # y # qs"
  by (induction ps) auto

lemma map_split: "x \<notin> set (ps @ qs) \<Longrightarrow> map (\<lambda>z. if z = x then y else z) (ps @ x # qs) = ps @ y # qs"
proof -
  assume "x \<notin> set (ps @ qs)"
  then have "map (\<lambda>z. if z = x then y else z) ps = ps" "map (\<lambda>z. if z = x then y else z) qs = qs"
    by (auto intro!: map_idI)
  then show ?thesis by simp
qed

lemma run_edit_refines:
  assumes "body_ok w g xs" and "info_all w" and "edit_pre w xs e"
  shows "\<exists>w'. run_edit g e w = (Ok (), w') \<and> body_ok w' g (apply_edit e xs) \<and> info_all w'"
proof -
  have split: "\<exists>ps qs. xs = ps @ x # qs \<and> x \<notin> set (ps @ qs)" if "x \<in> set xs" for x
  proof -
    from that obtain ps qs where "xs = ps @ x # qs" by (meson split_list)
    moreover have "distinct xs" using assms(1) by (rule body_okE)
    ultimately show ?thesis by auto
  qed
  show ?thesis
  proof (cases e)
    case (Before x y)
    with assms(3) have y: "x \<in> set xs" "detached w y" by auto
    then obtain ps qs where xs: "xs = ps @ x # qs" "x \<notin> set (ps @ qs)" using split by blast
    with y graph_seq.insert_before [of w g ps x qs y] assms Before show ?thesis by (auto simp: ins_split)
  next
    case (After x y)
    with assms(3) have y: "x \<in> set xs" "detached w y" by auto
    then obtain ps qs where xs: "xs = ps @ x # qs" "x \<notin> set (ps @ qs)" using split by blast
    with y graph_seq.insert_after [of w g ps x qs y] assms After show ?thesis by (auto simp: ins_split)
  next
    case (RetargetBefore x y)
    with assms(3) have y: "x \<in> set xs" "detached w y" "Some x \<notin> set (targets_at w y)" by auto
    then obtain ps qs where xs: "xs = ps @ x # qs" "x \<notin> set (ps @ qs)" using split by blast
    with y graph_rt.insert_retarget [of w g ps x qs y] assms RetargetBefore show ?thesis by (auto simp: ins_split)
  next
    case (ReplaceWith x y)
    with assms(3) have y: "x \<in> set xs" "detached w y" "Some x \<notin> set (targets_at w y)" by auto
    then obtain ps qs where xs: "xs = ps @ x # qs" "x \<notin> set (ps @ qs)" using split by blast
    have "apply_edit e xs = ps @ y # qs" unfolding ReplaceWith xs(1) apply_edit.simps using xs(2) by (rule map_split)
    with xs y show ?thesis using graph_rt.replace [of w g ps x qs y] assms ReplaceWith by auto
  next
    case (Delete x)
    with assms(3) have y: "x \<in> set xs" by auto
    then obtain ps qs where xs: "xs = ps @ x # qs" "x \<notin> set (ps @ qs)" using split by blast
    moreover have "ps @ qs \<noteq> []" using assms(3) Delete xs by auto
    ultimately show ?thesis using graph_seq.remove [of w g ps x qs] assms Delete by (auto simp: remove1_append)
  qed
qed

text \<open>The states a client reaches by edits and offset queries in any order, with the list the edits
  denote.\<close>

inductive reaches :: "gid \<Rightarrow> world \<Rightarrow> addr list \<Rightarrow> world \<Rightarrow> addr list \<Rightarrow> bool" for g w xs where
  start: "reaches g w xs w xs"
| edit: "reaches g w xs u ys \<Longrightarrow> edit_pre u ys e \<Longrightarrow> run_edit g e u = (r, v) \<Longrightarrow> reaches g w xs v (apply_edit e ys)"
| query: "reaches g w xs u ys \<Longrightarrow> a \<in> set ys \<Longrightarrow> GetOffset a u = (r, v) \<Longrightarrow> reaches g w xs v ys"

lemma refreshed_body:
  assumes "body_ok w g xs" and "info_all w"
  shows "body_ok (refreshed g xs w) g xs \<and> info_all (refreshed g xs w)"
proof -
  have k: "keeps w (refreshed g xs w)" by (rule refreshed_keeps)
  have "case w_graphs (refreshed g xs w) g of None \<Rightarrow> False | Some gr \<Rightarrow> m_pLastInstruction gr = prv xs None"
    using assms(1) by (auto simp: body_ok_def refreshed_def set_fresh_def split: option.splits)
  then show ?thesis
    using assms graph_inv_refreshed info_keeps(1) [OF k] section_keeps [OF k] by (simp add: body_ok_def)
qed

lemma reaches_body:
  assumes "reaches g w xs v ys" and "body_ok w g xs" and "info_all w"
  shows "body_ok v g ys \<and> info_all v"
  using assms(1)
proof induction
  case start
  then show ?case using assms(2,3) by simp
next
  case (edit u ys e r v)
  then show ?case using run_edit_refines [of u g ys e] by auto
next
  case (query u ys a r v)
  then have "GetOffset a u = (Ok (layout u 0 ys a), refreshed g ys u)"
    by (intro GetOffset_list) (simp_all add: body_ok_def)
  with query refreshed_body [of u g ys] show ?case by auto
qed

end
