(* ===== verification/EditClaims.thy ===== *)
theory EditClaims
  imports EditSteps
begin

text \<open>
  What clients of the instruction graph may rely on: the refinement of every edit to a list
  operation, the invariant of all reachable bodies, what happens to branch targets and exception
  ranges, the rejected calls, and the calls that succeed but leave the graph broken.
\<close>

section \<open>Emptying a graph\<close>

definition cleared :: "addr list \<Rightarrow> world \<Rightarrow> world" where
  "cleared xs w = w \<lparr> w_instrs := \<lambda>a. if a \<in> set xs then map_option
     (\<lambda>i. (SetIsRemoved i) \<lparr> m_pNextInstruction := None, m_pPreviousInstruction := None \<rparr>) (w_instrs w a)
     else w_instrs w a \<rparr>"

lemma removeAll_exec:
  assumes "dll (w_instrs w) p xs None" and "distinct xs" and "length xs < n"
  shows "removeAll_loop n (nxt xs None) w = (Ok (), cleared xs w)"
  using assms
proof (induction xs arbitrary: w p n)
  case Nil
  then show ?case by (cases n) (simp_all add: cleared_def)
next
  case (Cons x xs)
  then obtain k i where k: "n = Suc k" and i: "w_instrs w x = Some i" "m_pNextInstruction i = nxt xs None"
    by (cases n) (auto split: option.splits)
  let ?w = "put_instr x ((SetIsRemoved i) \<lparr> m_pNextInstruction := None, m_pPreviousInstruction := None \<rparr>) w"
  have "dll (w_instrs ?w) (Some x) xs None" using Cons.prems i by simp
  then have "removeAll_loop k (nxt xs None) ?w = (Ok (), cleared xs ?w)"
    by (rule Cons.IH) (use Cons.prems k in auto)
  moreover have "cleared xs ?w = cleared (x # xs) w"
    using i(1) Cons.prems(2) by (auto simp: cleared_def put_instr_def fun_eq_iff)
  ultimately show ?case using k i by simp
qed

lemma RemoveAll_list:
  assumes "body_ok w g xs"
  shows "\<exists>w'. RemoveAll g w = (Ok (), w') \<and> body_ok w' g [] \<and> clauses_of w' g = [] \<and>
    (\<forall>a \<in> set xs. removed_at w' a) \<and> (\<forall>a. a \<in> set xs \<or> detached w a \<longrightarrow> detached w' a)"
proof -
  from assms obtain gr where b: "w_graphs w g = Some gr" "m_pFirstInstruction gr = nxt xs None"
    "distinct xs" "dll (w_instrs w) None xs None" "list_all (node_ok w g) xs" "section_ok w g" by (rule body_okE)
  have gl: "graph_list w g xs" using assms by (simp add: body_ok_def graph_inv_def)
  let ?gr = "gr \<lparr> m_pFirstInstruction := None, m_pLastInstruction := None \<rparr>"
  let ?w = "put_graph g ?gr (cleared xs w)"
  have loop: "removeAll_loop (walk_fuel w) (m_pFirstInstruction gr) w = (Ok (), cleared xs w)"
    using removeAll_exec [OF b(4,3), of "walk_fuel w"] graph_list_length [OF gl] b(2) by (simp add: walk_fuel_def)
  have c: "w_graphs (cleared xs w) = w_graphs w" "w_methods (cleared xs w) = w_methods w" "w_clauses (cleared xs w) = w_clauses w"
    "w_next (cleared xs w) = w_next w"
    by (simp_all add: cleared_def)
  have v: "removed_at ?w a" "detached ?w a" if a: "a \<in> set xs" for a
  proof -
    obtain i where "w_instrs w a = Some i" "wf_instr i" "a < w_next w"
      using b(5) a node_okD [of w g a] unfolding list_all_iff by blast
    with a show "removed_at ?w a" "detached ?w a" by (simp_all add: removed_at_def detached_def cleared_def)
  qed
  have d: "detached ?w a" if "detached w a" for a
    using that detached_notin [OF b(5) that] by (simp add: detached_def cleared_def)
  show ?thesis
    using b(6,1)
  proof (cases rule: section_okE)
    case 1
    then have "RemoveAll g w = (Ok (), ?w)" using b(1) loop c by (simp add: RemoveAll_def)
    moreover have "body_ok ?w g []" "clauses_of ?w g = []"
      using 1 by (simp_all add: body_ok_def graph_inv_def graph_list_def section_ok_def clauses_of_def)
    ultimately show ?thesis using v d by blast
  next
    case (2 m mi cs)
    let ?w' = "?w \<lparr> w_methods := (w_methods w)(m \<mapsto> mi \<lparr> m_pExceptionSection := Some [] \<rparr>) \<rparr>"
    have "GetExceptionSection m ?w = (Ok (), ?w)" using 2 c by (intro GetExceptionSection_exec) auto
    then have "RemoveAll g w = (Ok (), ?w')"
      using b(1) loop c 2 by (simp add: RemoveAll_def RemoveAllExceptionClauses_def set_clauses_def upd_method_def)
    moreover have "body_ok ?w' g []" "clauses_of ?w' g = []"
      using 2 by (simp_all add: body_ok_def graph_inv_def graph_list_def section_ok_def clauses_of_def)
    moreover have "removed_at ?w' = removed_at ?w" "detached ?w' = detached ?w"
      by (simp_all add: removed_at_def detached_def fun_eq_iff)
    ultimately show ?thesis using v d by auto
  qed
qed

section \<open>Encoding an edited body\<close>

lemma targets_in_at: "w_instrs w a = Some i \<Longrightarrow> set (targets_at w a) \<subseteq> Some ` set xs \<longleftrightarrow> targets_in xs i"
  by (auto simp: targets_at_def targets_in_def targets_of_def list_all_iff split: iclass.splits)

lemma encodable_closed:
  assumes "body_ok w g xs" and "closed_seq targets_at w xs" and "\<And>a. a \<in> set xs \<Longrightarrow> \<exists>op. opcode_at w a = Some op \<and> op < Cee_Count"
    and "total_bytes w xs < 2 ^ 32" and "xs = [] \<or> opcode_at w (last xs) \<noteq> Some Cee_Switch"
  shows "encodable w xs"
proof -
  have "case w_instrs w a of None \<Rightarrow> False | Some i \<Rightarrow> m_opcode i < Cee_Count \<and> targets_in xs i" if a: "a \<in> set xs" for a
  proof -
    obtain op i where "w_instrs w a = Some i" "m_opcode i < Cee_Count" using assms(3) [OF a] by (auto simp: opcode_at_def)
    moreover have "set (targets_at w a) \<subseteq> Some ` set xs" using assms(2) a by (auto simp: closed_seq_def)
    ultimately show ?thesis by (simp add: targets_in_at)
  qed
  moreover have "xs = [] \<or> \<not> isSwitch_at w (last xs)"
    using assms(5) by (auto simp: opcode_at_def isSwitch_at_def GetIsSwitchInternal_def split: option.splits)
  ultimately show ?thesis using assms(4) by (simp add: encodable_def list_all_iff)
qed

lemma body_encodes:
  assumes "body_ok w g xs" and "encodable w xs"
  shows "\<exists>bs m w'. EncodeIL g w = (Ok (bs, m), w') \<and> length bs = total_bytes w xs"
proof -
  have gl: "graph_list w g xs" using assms(1) by (simp add: body_ok_def graph_inv_def)
  with EncodeIL_list [OF gl assms(2)] length_encode_list [OF gl assms(2), of xs] show ?thesis by auto
qed

section \<open>The contract of the edits\<close>

text \<open>A body of four instructions, with a branch to the last, and two new instructions beside it.\<close>

definition edit_world :: world where
  "edit_world = snd (IfFailRet (new_instr (new_CInstruction Cee_Nop True))
     (\<lambda>_. new_instr (new_CInstruction Cee_Pop True)) sample_world)"

lemma edit_world_ok: "body_ok edit_world 0 [0, 1, 2, 3]" "info_all edit_world" "detached edit_world 4" "detached edit_world 5"
  by code_simp+

text \<open>C1. Every edit of the instruction graph refines the list operation of its name.  On a
  well-formed body with right branch bookkeeping, an admissible \<^verbatim>\<open>InsertBefore\<close>, \<^verbatim>\<open>InsertAfter\<close>,
  \<^verbatim>\<open>InsertBeforeAndRetargetOffsets\<close>, \<^verbatim>\<open>Replace\<close> or \<^verbatim>\<open>Remove\<close> succeeds, the body then
  holds the list with the new instruction inserted, put in place or taken out, and both the body and
  the bookkeeping are well-formed again.\<close>

theorem edit_refines_list:
  assumes "body_ok w g xs" and "info_all w" and "edit_pre w xs e"
  shows "\<exists>w'. run_edit g e w = (Ok (), w') \<and> body_ok w' g (apply_edit e xs) \<and> info_all w'"
  using assms by (rule run_edit_refines)

theorem edit_refines_list_witness:
  "\<exists>w'. run_edit 0 (ReplaceWith 3 4) edit_world = (Ok (), w') \<and> body_ok w' 0 [0, 1, 2, 4] \<and> info_all w'"
proof -
  have "edit_pre edit_world [0, 1, 2, 3] (ReplaceWith 3 4)" by code_simp
  from edit_refines_list [OF edit_world_ok(1,2) this] show ?thesis by simp
qed

lemma reaches_run:
  "reaches g w xs u ys \<Longrightarrow> edit_pre u ys e \<Longrightarrow> reaches g w xs (snd (run_edit g e u)) (apply_edit e ys)"
  "reaches g w xs u ys \<Longrightarrow> a \<in> set ys \<Longrightarrow> reaches g w xs (snd (GetOffset a u)) ys"
  by (metis reaches.edit prod.collapse, metis reaches.query prod.collapse)

text \<open>C8. Whatever series of admissible edits and offset queries clients run, in any order, the
  graph remains a well-formed doubly linked list with both ends recorded, its offsets right unless
  marked stale, its exception section allocated and its branch bookkeeping right, and it holds
  exactly the list that the edits denote.\<close>

theorem reachable_body_ok:
  assumes "reaches g w xs v ys" and "body_ok w g xs" and "info_all w"
  shows "body_ok v g ys \<and> info_all v"
  using assms by (rule reaches_body)

theorem reachable_body_ok_witness:
  "\<exists>v. reaches 0 edit_world [0, 1, 2, 3] v [0, 2, 4, 3] \<and> body_ok v 0 [0, 2, 4, 3] \<and> info_all v"
proof -
  let ?u = "snd (run_edit 0 (RetargetBefore 3 4) edit_world)"
  let ?v = "snd (GetOffset 2 ?u)"
  let ?x = "snd (run_edit 0 (Delete 1) ?v)"
  have pre: "edit_pre edit_world [0, 1, 2, 3] (RetargetBefore 3 4)" "edit_pre ?v [0, 1, 2, 4, 3] (Delete 1)"
    by code_simp+
  have "reaches 0 edit_world [0, 1, 2, 3] ?v [0, 1, 2, 4, 3]"
    using reaches_run(2) [OF reaches_run(1) [OF reaches.start pre(1)], of 2] by simp
  then have "reaches 0 edit_world [0, 1, 2, 3] ?x [0, 2, 4, 3]"
    using reaches_run(1) [OF _ pre(2)] by simp
  with reachable_body_ok [OF this edit_world_ok(1,2)] show ?thesis by blast
qed

text \<open>C27. A sequence of new instructions inserted one by one before an instruction ends up in
  front of it in the order of insertion; chained behind an instruction, it ends up behind it in
  order; removing what was inserted gives the original body back.\<close>

theorem insert_sequence:
  assumes "body_ok w g (ps @ x # qs)" and "info_all w" and "list_all (detached w) ys" and "distinct ys"
  shows "(\<exists>w'. each (\<lambda>y. InsertBefore g (Some x) (Some y)) ys w = (Ok (), w') \<and> body_ok w' g (ps @ ys @ x # qs)) \<and>
    (\<exists>w'. chain (\<lambda>x y. InsertAfter g (Some x) (Some y)) x ys w = (Ok (), w') \<and> body_ok w' g (ps @ x # ys @ qs)) \<and>
    (\<exists>w'. IfFailRet (each (\<lambda>y. InsertBefore g (Some x) (Some y)) ys) (\<lambda>_. each (\<lambda>y. Remove g (Some y)) ys) w = (Ok (), w') \<and>
      body_ok w' g (ps @ x # qs))"
  using graph_seq.insert_all_before [of w g ps x qs ys] graph_seq.insert_all_after [of w g ps x qs ys]
    graph_seq.insert_remove [of w g ps x qs ys] assms by blast

theorem insert_sequence_witness:
  "\<exists>w'. each (\<lambda>y. InsertBefore 0 (Some 2) (Some y)) [4, 5] edit_world = (Ok (), w') \<and> body_ok w' 0 [0, 1, 4, 5, 2, 3]"
  using insert_sequence [of edit_world 0 "[0, 1]" 2 "[3]" "[4, 5]"] edit_world_ok by simp

text \<open>C18. \<^verbatim>\<open>InsertBeforeAndRetargetOffsets\<close> puts the new instruction on every path to the
  original one: the body is then the old one with the new instruction before the original one, every target of a branch or switch lies
  in it, none is the original instruction, and \<^verbatim>\<open>EncodeIL\<close> succeeds on it with the sum of the
  instruction sizes.\<close>

theorem retarget_insert_encodes:
  assumes "body_ok w g (ps @ x # qs)" and "info_all w" and "detached w y" and "Some x \<notin> set (targets_at w y)"
    and "closed_seq targets_at w (ps @ x # qs)" and "set (targets_at w y) \<subseteq> Some ` set (ps @ y # x # qs)"
    and "list_all (\<lambda>a. case opcode_at w a of None \<Rightarrow> False | Some op \<Rightarrow> op < Cee_Count) (ps @ y # x # qs)"
    and "total_bytes w (ps @ y # x # qs) < 2 ^ 32" and "opcode_at w (last (x # qs)) \<noteq> Some Cee_Switch"
  shows "\<exists>w' bs m w''. InsertBeforeAndRetargetOffsets g (Some x) (Some y) w = (Ok (), w') \<and> body_ok w' g (ps @ y # x # qs) \<and>
    (\<forall>b \<in> set (ps @ y # x # qs). set (targets_at w' b) \<subseteq> Some ` set (ps @ y # x # qs)) \<and>
    (\<forall>b \<in> set (ps @ y # x # qs). Some x \<notin> set (targets_at w' b)) \<and>
    EncodeIL g w' = (Ok (bs, m), w'') \<and> length bs = total_bytes w (ps @ y # x # qs)"
proof -
  obtain w' where w': "InsertBeforeAndRetargetOffsets g (Some x) (Some y) w = (Ok (), w')"
    "body_ok w' g (ps @ y # x # qs)" "closed_seq targets_at w' (ps @ y # x # qs)"
    "\<forall>b \<in> set (ps @ y # x # qs). Some x \<notin> set (targets_at w' b)"
    using graph_rt.insert_retarget_closed [of w g ps x qs y] assms by blast
  have v: "opcode_at w' = opcode_at w" "bytes_at w' = bytes_at w"
    using InsertBeforeAndRetargetOffsets_list [OF assms(1,3,2,4)] w'(1) by (auto simp: moved_def)
  have t: "total_bytes w' zs = total_bytes w zs" for zs by (simp add: total_bytes_def v(2))
  have op: "\<exists>op. opcode_at w' a = Some op \<and> op < Cee_Count" if "a \<in> set (ps @ y # x # qs)" for a
  proof -
    have "case opcode_at w a of None \<Rightarrow> False | Some op \<Rightarrow> op < Cee_Count" using assms(7) that unfolding list_all_iff by blast
    then show ?thesis using v(1) by (cases "opcode_at w a") auto
  qed
  have "encodable w' (ps @ y # x # qs)"
    using w'(2,3) op by (rule encodable_closed) (use assms(8,9) v t in auto)
  then obtain bs m w'' where "EncodeIL g w' = (Ok (bs, m), w'')" "length bs = total_bytes w' (ps @ y # x # qs)"
    using body_encodes [OF w'(2)] by blast
  moreover have "\<forall>b \<in> set (ps @ y # x # qs). set (targets_at w' b) \<subseteq> Some ` set (ps @ y # x # qs)"
    using w'(3) by (simp only: closed_seq_def)
  ultimately show ?thesis using w'(1,2,4) t [of "ps @ y # x # qs"] by (metis (no_types, lifting))
qed

theorem retarget_insert_encodes_witness:
  "\<exists>w' bs m w''. InsertBeforeAndRetargetOffsets 0 (Some 3) (Some 4) edit_world = (Ok (), w') \<and>
    EncodeIL 0 w' = (Ok (bs, m), w'') \<and> length bs = 6"
proof -
  have "Some 3 \<notin> set (targets_at edit_world 4)" "closed_seq targets_at edit_world ([0, 1, 2] @ 3 # [])"
    "set (targets_at edit_world 4) \<subseteq> Some ` set ([0, 1, 2] @ 4 # 3 # [])"
    "list_all (\<lambda>a. case opcode_at edit_world a of None \<Rightarrow> False | Some op \<Rightarrow> op < Cee_Count) ([0, 1, 2] @ 4 # 3 # [])"
    "opcode_at edit_world (last (3 # [])) \<noteq> Some Cee_Switch"
    by code_simp+
  moreover have "total_bytes edit_world ([0, 1, 2] @ 4 # 3 # []) = 6" by code_simp
  moreover have "body_ok edit_world 0 ([0, 1, 2] @ 3 # [])" using edit_world_ok(1) by simp
  ultimately show ?thesis
    using retarget_insert_encodes [of edit_world 0 "[0, 1, 2]" 3 "[]" 4] edit_world_ok(2,3) by fastforce
qed

text \<open>C19. \<^verbatim>\<open>Replace\<close> moves everything that refers to the replaced instruction: each branch or
  switch entry that targeted it targets the new one and no other target changes; in the exception
  clauses of the method, each first and each last instruction that was the replaced one is the new
  one, and nothing else changes.  The replaced instruction is marked removed.\<close>

theorem Replace_moves_references:
  assumes "body_ok w g (ps @ x # qs)" and "info_all w" and "detached w y" and "Some x \<notin> set (targets_at w y)"
  shows "\<exists>w'. Replace g (Some x) (Some y) w = (Ok (), w') \<and> removed_at w' x \<and>
    (\<forall>b < w_next w. targets_at w' b = map (\<lambda>t. if t = Some x then Some y else t) (targets_at w b)) \<and>
    (\<forall>c \<in> set (clauses_of w g). \<forall>cl. w_clauses w c = Some cl \<longrightarrow> (\<exists>cl'. w_clauses w' c = Some cl' \<and>
      map (\<lambda>f. f cl') [m_pTryFirstInstruction, m_pTryLastInstruction, m_pHandlerFirstInstruction,
        m_pHandlerLastInstruction, m_pFilterFirstInstruction] =
      map (\<lambda>t. if t = Some x then Some y else t) (map (\<lambda>f. f cl) [m_pTryFirstInstruction, m_pTryLastInstruction,
        m_pHandlerFirstInstruction, m_pHandlerLastInstruction, m_pFilterFirstInstruction])))"
proof -
  obtain w' where w': "Replace g (Some x) (Some y) w = (Ok (), w')" "removed_at w' x" "moved g True x y w w'"
    using Replace_list [OF assms(1,3,2,4)] by blast
  have "retarget_opt x y = (\<lambda>t. if t = Some x then Some y else t)" by (simp add: retarget_opt_def fun_eq_iff)
  with w' show ?thesis
    by (auto simp: moved_def CExceptionClause_UpdateInstruction_def movedFirst_def movedLast_def)
qed

text \<open>A method with one clause over the sample body: the try block is the branch and the
  instruction behind it, the handler is the last instruction.\<close>

definition clause_world :: world where
  "clause_world = edit_world \<lparr>
     w_graphs := map_option (\<lambda>gr. gr \<lparr> m_pMethodInfo := Some 0 \<rparr>) \<circ> w_graphs edit_world,
     w_clauses := [0 \<mapsto> (new_CExceptionClause 2) \<lparr> m_pTryFirstInstruction := Some 1, m_pTryLastInstruction := Some 2,
        m_pHandlerFirstInstruction := Some 3, m_pHandlerLastInstruction := Some 3 \<rparr>],
     w_nextClause := 1,
     w_methods := [0 \<mapsto> \<lparr> m_methodIl = Ok [], m_pInstructionGraph = Some 0, m_pExceptionSection = Some [0],
        m_newCorHeader = \<lparr> h_Flags = 0x13, h_Size = 3, h_MaxStack = 8, h_CodeSize = 5, h_LocalVarSigTok = 0 \<rparr>,
        m_bIsHeaderInitialized = True, m_pILStream = [], m_pCorILMap = [], m_pIntermediateRenderedMethod = [],
        m_bIsInstrumented = False, m_bIsCreateBaselineEnabled = False, m_signature = Ok [0, 0, 1],
        m_savedILMap = None, m_localVariables = None, m_origLocalVariables = None \<rparr>] \<rparr>"

lemma clause_world_ok: "body_ok clause_world 0 ([0, 1, 2] @ 3 # [])" "info_all clause_world" "detached clause_world 4"
  "Some 3 \<notin> set (targets_at clause_world 4)" "clauses_of clause_world 0 = [0]"
  by code_simp+

theorem Replace_moves_references_witness:
  "\<exists>w'. Replace 0 (Some 3) (Some 4) clause_world = (Ok (), w') \<and> targets_at w' 1 = [Some 4] \<and>
    map_option m_pHandlerLastInstruction (w_clauses w' 0) = Some (Some 4)"
proof -
  have "targets_at clause_world 1 = [Some 3]" "w_next clause_world = 6" by code_simp+
  moreover have "\<exists>cl. w_clauses clause_world 0 = Some cl \<and> m_pHandlerLastInstruction cl = Some 3"
    by (simp add: clause_world_def)
  ultimately show ?thesis
    using Replace_moves_references [OF clause_world_ok(1,2,3,4)] clause_world_ok(5) by fastforce
qed

text \<open>C28. \<^verbatim>\<open>Remove\<close> takes one instruction out of the body.  In the exception clauses of the method each first and each
  last instruction that was the removed one is the next instruction, or the previous one when there is no next; the other ends and the kinds of
  the clauses do not change, nor do the clauses of other methods and the branch targets.\<close>

theorem Remove_moves_ranges:
  assumes "body_ok w g (ps @ x # qs)" and "ps @ qs \<noteq> []"
  defines "n \<equiv> if qs = [] then Some (last ps) else Some (hd qs)"
  shows "\<exists>w'. Remove g (Some x) w = (Ok (), w') \<and> body_ok w' g (ps @ qs) \<and> removed_at w' x \<and>
    targets_at w' = targets_at w \<and> (\<forall>c. c \<notin> set (clauses_of w g) \<longrightarrow> w_clauses w' c = w_clauses w c) \<and>
    (\<forall>c \<in> set (clauses_of w g). \<forall>cl. w_clauses w c = Some cl \<longrightarrow> (\<exists>cl'. w_clauses w' c = Some cl' \<and>
      map (\<lambda>f. f cl') [m_pTryFirstInstruction, m_pTryLastInstruction, m_pHandlerFirstInstruction,
        m_pHandlerLastInstruction, m_pFilterFirstInstruction] =
      map (\<lambda>t. if t = Some x then n else t) (map (\<lambda>f. f cl) [m_pTryFirstInstruction, m_pTryLastInstruction,
        m_pHandlerFirstInstruction, m_pHandlerLastInstruction, m_pFilterFirstInstruction]) \<and>
      m_clauseFlags cl' = m_clauseFlags cl))"
proof -
  have "neighbour ps qs = n"
    using assms(2) by (cases qs) (auto simp: n_def neighbour_def prv_def)
  then obtain w' where w': "Remove g (Some x) w = (Ok (), w')" "body_ok w' g (ps @ qs)" "removed_at w' x" "ranges_moved g x n w w'"
    using Remove_list [OF assms(1,2)] by auto
  have c: "w_clauses w' c = (if c \<in> set (clauses_of w g) then map_option (CExceptionClause_UpdateInstruction True x n) (w_clauses w c) else w_clauses w c)" for c
    using w'(4) unfolding ranges_moved_def by blast
  show ?thesis
  proof (intro exI [of _ w'] conjI ballI allI impI)
    fix c cl assume "c \<in> set (clauses_of w g)" "w_clauses w c = Some cl"
    then have "w_clauses w' c = Some (CExceptionClause_UpdateInstruction True x n cl)" using c [of c] by simp
    then show "\<exists>cl'. w_clauses w' c = Some cl' \<and>
      map (\<lambda>f. f cl') [m_pTryFirstInstruction, m_pTryLastInstruction, m_pHandlerFirstInstruction,
        m_pHandlerLastInstruction, m_pFilterFirstInstruction] =
      map (\<lambda>t. if t = Some x then n else t) (map (\<lambda>f. f cl) [m_pTryFirstInstruction, m_pTryLastInstruction,
        m_pHandlerFirstInstruction, m_pHandlerLastInstruction, m_pFilterFirstInstruction]) \<and>
      m_clauseFlags cl' = m_clauseFlags cl"
      by (intro exI conjI) (assumption, simp_all add: CExceptionClause_UpdateInstruction_def movedFirst_def movedLast_def)
  qed (use w' c in \<open>simp_all add: ranges_moved_def\<close>)
qed

theorem Remove_moves_ranges_witness:
  "\<exists>w'. Remove 0 (Some 3) clause_world = (Ok (), w') \<and> body_ok w' 0 [0, 1, 2] \<and>
    map_option m_pHandlerFirstInstruction (w_clauses w' 0) = Some (Some 2) \<and>
    map_option m_pHandlerLastInstruction (w_clauses w' 0) = Some (Some 2)"
proof -
  have "\<exists>cl. w_clauses clause_world 0 = Some cl \<and> m_pHandlerFirstInstruction cl = Some 3 \<and> m_pHandlerLastInstruction cl = Some 3"
    by (simp add: clause_world_def)
  then show ?thesis
    using Remove_moves_ranges [OF clause_world_ok(1)] clause_world_ok(5) by fastforce
qed

text \<open>\<^verbatim>\<open>RemoveAll\<close> ends on every body, of any length, empties the graph and the exception
  section, and leaves every former instruction marked removed and free to be inserted again.\<close>

theorem RemoveAll_empties:
  assumes "body_ok w g xs"
  shows "\<exists>w'. RemoveAll g w = (Ok (), w') \<and> body_ok w' g [] \<and> clauses_of w' g = [] \<and>
    (\<forall>a \<in> set xs. removed_at w' a \<and> detached w' a)"
  using RemoveAll_list [OF assms] by blast

theorem RemoveAll_empties_witness:
  "\<exists>w'. RemoveAll 0 clause_world = (Ok (), w') \<and> body_ok w' 0 [] \<and> clauses_of w' 0 = [] \<and> detached w' 2"
  using RemoveAll_empties [OF clause_world_ok(1)] by auto

section \<open>Rejected edits\<close>

text \<open>C30. Edits that are not allowed are rejected: a null argument with \<^verbatim>\<open>E_POINTER\<close>; an anchor of another graph, or a
  new instruction that already belongs to a graph, with \<^verbatim>\<open>E_UNEXPECTED\<close>.  Nothing changes, with one exception: \<^verbatim>\<open>InsertAfter\<close>
  at an anchor of another graph has already put the new instruction in the graph and set its link to the anchor when it fails, and
  takes neither back.\<close>

theorem edits_reject:
  assumes "w_instrs w x = Some i" and "w_instrs w y = Some j" and "m_pGraph i \<noteq> Some g \<or> m_pGraph j \<noteq> None"
  shows "(\<forall>f \<in> {InsertBefore, InsertBeforeAndRetargetOffsets, Replace}.
      f g (Some x) (Some y) w = (Fail E_UNEXPECTED, w) \<and>
      f g None (Some y) w = (Fail E_POINTER, w) \<and> f g (Some x) None w = (Fail E_POINTER, w)) \<and>
    InsertAfter g (Some x) None w = (Fail E_POINTER, w) \<and> Remove g None w = (Fail E_POINTER, w) \<and>
    (m_pGraph j \<noteq> None \<longrightarrow> InsertAfter g (Some x) (Some y) w = (Fail E_UNEXPECTED, w)) \<and>
    (m_pGraph j = None \<and> x \<noteq> y \<longrightarrow> InsertAfter g (Some x) (Some y) w = (Fail E_UNEXPECTED,
      w\<lparr> w_instrs := (w_instrs w)(y \<mapsto> j\<lparr> m_pGraph := Some g, m_pPreviousInstruction := Some x \<rparr>) \<rparr>)) \<and>
    (m_pGraph i \<noteq> Some g \<longrightarrow> Remove g (Some x) w = (Fail E_UNEXPECTED, w))"
  using assms
  by (auto simp: InsertBefore_def InsertBeforeAndRetargetOffsets_def Replace_def InsertAfter_def Remove_def
      IfNullRetPointer_def IfFalseRet_def SetGraph_def SetPreviousInstruction_def Let_def)

theorem edits_reject_witness:
  "InsertBefore 0 (Some 4) (Some 5) edit_world = (Fail E_UNEXPECTED, edit_world) \<and>
    Replace 0 (Some 4) None edit_world = (Fail E_POINTER, edit_world) \<and>
    (\<exists>j. w_instrs edit_world 5 = Some j \<and> InsertAfter 0 (Some 4) (Some 5) edit_world = (Fail E_UNEXPECTED,
      edit_world\<lparr> w_instrs := (w_instrs edit_world)(5 \<mapsto> j\<lparr> m_pGraph := Some 0, m_pPreviousInstruction := Some 4 \<rparr>) \<rparr>))"
proof -
  obtain i where i: "w_instrs edit_world 4 = Some i" "m_pGraph i = None" using edit_world_ok(3) by (rule detachedE)
  obtain j where j: "w_instrs edit_world 5 = Some j" "m_pGraph j = None" using edit_world_ok(4) by (rule detachedE)
  show ?thesis using edits_reject [OF i(1) j(1), of 0] i(2) j by simp
qed

text \<open>Removing the only instruction of a method reports \<^verbatim>\<open>E_FAIL\<close>, but the graph is already
  empty by then.\<close>

theorem Remove_only_fails:
  assumes "body_ok w g [x]" and "w_graphs w g = Some gr" and "m_pMethodInfo gr = Some m"
  shows "\<exists>w'. Remove g (Some x) w = (Fail E_FAIL, w') \<and> body_ok w' g [] \<and> removed_at w' x"
proof -
  obtain i where i: "w_instrs w x = Some i" "m_pGraph i = Some g" "m_pPreviousInstruction i = prv [] None"
    "m_pNextInstruction i = nxt [] None" using body_splitE [of w g "[]" x "[]"] assms(1) by auto
  obtain w1 where w1: "linkRemove g x None None w = (Ok (), w1)" "body_ok w1 g []" "removed_at w1 x"
    using linkRemove_list [of w g "[]" x "[]"] assms(1) by auto
  have "preserves (linkRemove g x None None) keeps" unfolding linkRemove_def by (intro frame; simp)
  then have k: "keeps w w1" using w1(1) by (rule preserves_run)
  obtain gr1 where gr1: "w_graphs w1 g = Some gr1" "section_ok w1 g" using w1(2) by (rule body_okE)
  then have m: "m_pMethodInfo gr1 = Some m"
    using k assms(2,3) unfolding keeps_def by (metis option.inject option.simps(9))
  have "Remove g (Some x) w = IfFailRet (linkRemove g x None None) (\<lambda>_. IfFailRet (get_graph g) (\<lambda>gr.
      case m_pMethodInfo gr of None \<Rightarrow> ret () | Some m \<Rightarrow> IfFailRet (GetExceptionSection m) (\<lambda>_. fail E_FAIL))) w"
    using i by (simp add: Remove_def linkRemove_def IfNullRetPointer_def IfFalseRet_def Let_def IfFailRet_assoc cong: option.case_cong)
  moreover have "GetExceptionSection m w1 = (Ok (), w1)"
    using gr1(2,1) by (cases rule: section_okE) (use m in \<open>auto intro: GetExceptionSection_exec\<close>)
  ultimately show ?thesis using w1 gr1 m by auto
qed

definition single_world :: world where
  "single_world = clause_world \<lparr>
     w_instrs := [0 \<mapsto> (new_CInstruction Cee_Ret False) \<lparr> m_pGraph := Some 0 \<rparr>],
     w_graphs := [0 \<mapsto> (new_CInstructionGraph (Some 0)) \<lparr> m_pFirstInstruction := Some 0, m_pLastInstruction := Some 0 \<rparr>] \<rparr>"

theorem Remove_only_fails_witness:
  "\<exists>w'. Remove 0 (Some 0) single_world = (Fail E_FAIL, w') \<and> body_ok w' 0 [] \<and> removed_at w' 0"
proof -
  have "body_ok single_world 0 [0]" by code_simp
  then show ?thesis
    by (rule Remove_only_fails [where m = 0 and gr = "(new_CInstructionGraph (Some 0)) \<lparr> m_pFirstInstruction := Some 0, m_pLastInstruction := Some 0 \<rparr>"])
      (simp_all add: single_world_def new_CInstructionGraph_def)
qed

text \<open>A removed instruction keeps its links, and an insertion at an end of the graph does not
  reset the link beyond it: removing the second instruction of the sample body and appending it
  again succeeds twice, but the list of next pointers is then a cycle, which no walk over the
  graph leaves.\<close>

theorem reinsert_removed_cycles:
  "\<exists>w' w''. Remove 0 (Some 1) edit_world = (Ok (), w') \<and> InsertAfter 0 (Some 3) (Some 1) w' = (Ok (), w'') \<and>
    map (\<lambda>a. bindR (deref (w_instrs w'' a)) GetNextInstruction) [0, 2, 3, 1] = [Ok 2, Ok 3, Ok 1, Ok 2]"
proof -
  let ?w = "snd (Remove 0 (Some 1) edit_world)"
  let ?v = "snd (InsertAfter 0 (Some 3) (Some 1) ?w)"
  have "fst (Remove 0 (Some 1) edit_world) = Ok ()" "fst (InsertAfter 0 (Some 3) (Some 1) ?w) = Ok ()"
    "map (\<lambda>a. bindR (deref (w_instrs ?v a)) GetNextInstruction) [0, 2, 3, 1] = [Ok 2, Ok 3, Ok 1, Ok 2]"
    by code_simp+
  then show ?thesis by (metis prod.collapse)
qed

text \<open>\<^verbatim>\<open>InsertAfter\<close> checks its anchor only after it has claimed the new instruction: with an
  anchor of another graph it fails with \<^verbatim>\<open>E_UNEXPECTED\<close>, and the new instruction then counts as a
  member of the graph, so that a later insertion of it is rejected as well.\<close>

theorem InsertAfter_foreign_anchor_leaks:
  assumes "w_instrs w x = Some i" and "m_pGraph i \<noteq> Some g" and "w_instrs w y = Some j" and "m_pGraph j = None" and "x \<noteq> y"
    and "w_instrs w z = Some k" and "m_pGraph k = Some g"
  shows "\<exists>w'. InsertAfter g (Some x) (Some y) w = (Fail E_UNEXPECTED, w') \<and>
    InsertBefore g (Some z) (Some y) w' = (Fail E_UNEXPECTED, w')"
  using assms
  by (cases "z = y") (auto simp: InsertAfter_def InsertBefore_def IfNullRetPointer_def IfFalseRet_def SetGraph_def)

theorem InsertAfter_foreign_anchor_leaks_witness:
  "\<exists>w'. InsertAfter 0 (Some 4) (Some 5) edit_world = (Fail E_UNEXPECTED, w') \<and>
    InsertBefore 0 (Some 0) (Some 5) w' = (Fail E_UNEXPECTED, w')"
proof -
  obtain i where i: "w_instrs edit_world 4 = Some i" "m_pGraph i = None" using edit_world_ok(3) by (rule detachedE)
  obtain j where j: "w_instrs edit_world 5 = Some j" "m_pGraph j = None" using edit_world_ok(4) by (rule detachedE)
  have "body_ok edit_world 0 ([] @ 0 # [1, 2, 3])" using edit_world_ok(1) by simp
  then obtain k where k: "w_instrs edit_world 0 = Some k" "m_pGraph k = Some 0" by (rule body_splitE)
  show ?thesis using InsertAfter_foreign_anchor_leaks [OF i(1) _ j _ k] i(2) by simp
qed

end
