(* ===== verification/ExceptionOrder.thy ===== *)
theory ExceptionOrder
  imports EditRefine
begin

text \<open>
  Exception clauses over the offsets of a body: reading a clause and writing it again, the offsets
  a clause is written with, and the order in which new clauses are added, innermost try block
  first.
\<close>

section \<open>Lookups and offsets on a body\<close>

lemma refreshed_simps [simp]:
  "w_clauses (refreshed g xs w) = w_clauses w" "w_methods (refreshed g xs w) = w_methods w"
  "w_nextClause (refreshed g xs w) = w_nextClause w" "w_next (refreshed g xs w) = w_next w"
  by (simp_all add: refreshed_def)

definition at_offset :: "world \<Rightarrow> addr list \<Rightarrow> DWORD \<Rightarrow> addr option" where
  "at_offset w xs z = find (\<lambda>a. layout w 0 xs a = z) xs"

definition at_end :: "world \<Rightarrow> addr list \<Rightarrow> DWORD \<Rightarrow> addr option" where
  "at_end w xs z = find (\<lambda>a. layout w 0 xs a + size_at w a = z) xs"

lemma at_refreshed [simp]:
  "at_offset (refreshed g ys w) xs = at_offset w xs" "at_end (refreshed g ys w) xs = at_end w xs"
  by (simp_all add: at_offset_def at_end_def fun_eq_iff)

lemma at_Some:
  "at_offset w xs z = Some a \<Longrightarrow> a \<in> set xs \<and> layout w 0 xs a = z"
  "at_end w xs z = Some a \<Longrightarrow> a \<in> set xs \<and> layout w 0 xs a + size_at w a = z"
  by (auto simp: at_offset_def at_end_def find_Some_iff)

lemma lookups_exec:
  assumes "graph_inv w g xs"
  shows "at_offset w xs z = Some a \<Longrightarrow> GetInstructionAtOffset g z w = (Ok a, refreshed g xs w)"
    and "at_end w xs z = Some b \<Longrightarrow> GetInstructionAtEndOffset g z w = (Ok b, refreshed g xs w)"
proof -
  obtain gr where gr: "w_graphs w g = Some gr" "m_pFirstInstruction gr = nxt xs None"
    using graph_inv_list [OF assms] by (rule graph_list_graph)
  have n: "length xs < walk_fuel w" using graph_list_length [OF graph_inv_list [OF assms]] by (simp add: walk_fuel_def)
  show "at_offset w xs z = Some a \<Longrightarrow> GetInstructionAtOffset g z w = (Ok a, refreshed g xs w)"
    using atOffset_loop_list [of w g "[]" xs "walk_fuel w" z] assms gr n
    by (simp add: GetInstructionAtOffset_def at_offset_def)
  show "at_end w xs z = Some b \<Longrightarrow> GetInstructionAtEndOffset g z w = (Ok b, refreshed g xs w)"
    using endOffset_loop_list [of w g "[]" xs "walk_fuel w" z] assms gr n
    by (simp add: GetInstructionAtEndOffset_def at_end_def)
qed

lemma size_exec:
  assumes "graph_inv w g xs" and "a \<in> set xs"
  shows "\<exists>i. w_instrs w a = Some i \<and> GetInstructionSize i = Ok (size_at w a) \<and> wf_instr i"
proof -
  obtain i where i: "w_instrs w a = Some i" "wf_instr i" using graph_list_node [OF graph_inv_list [OF assms(1)] assms(2)] by auto
  then show ?thesis by (simp add: size_at_def wf_instr_size)
qed


section \<open>Writing a clause\<close>

definition ends_in :: "addr list \<Rightarrow> clause \<Rightarrow> bool" where
  "ends_in xs c \<longleftrightarrow> list_all (\<lambda>p. p \<in> Some ` set xs) [m_pTryFirstInstruction c, m_pTryLastInstruction c,
     m_pHandlerFirstInstruction c, m_pHandlerLastInstruction c] \<and>
     (m_clauseFlags c = COR_ILEXCEPTION_CLAUSE_FILTER \<longrightarrow> m_pFilterFirstInstruction c \<in> Some ` set xs)"

text \<open>The clause over the offsets of the body: a range extends from the start of its first to the
  end of its last instruction.\<close>

definition rendered :: "world \<Rightarrow> addr list \<Rightarrow> DWORD \<Rightarrow> clause \<Rightarrow> EH_CLAUSE" where
  "rendered w xs old c = (let off = (\<lambda>p. layout w 0 xs (the p)); fin = (\<lambda>p. off p + size_at w (the p)) in
     \<lparr> cl_Flags = m_clauseFlags c, cl_TryOffset = off (m_pTryFirstInstruction c),
       cl_TryLength = fin (m_pTryLastInstruction c) - off (m_pTryFirstInstruction c),
       cl_HandlerOffset = off (m_pHandlerFirstInstruction c),
       cl_HandlerLength = fin (m_pHandlerLastInstruction c) - off (m_pHandlerFirstInstruction c),
       cl_ClassToken = (if m_clauseFlags c = COR_ILEXCEPTION_CLAUSE_NONE then m_ExceptionHandlerType c
         else if m_clauseFlags c = COR_ILEXCEPTION_CLAUSE_FILTER then off (m_pFilterFirstInstruction c)
         else old) \<rparr>)"

lemma Render_exec:
  assumes "graph_inv w g xs" and "w_clauses w c = Some cl" and "ends_in xs cl"
  shows "RenderExceptionClause old c w = (Ok (rendered w xs old cl), refreshed g xs w)"
proof -
  let ?w = "refreshed g xs w"
  obtain tf tl hf hl where e: "m_pTryFirstInstruction cl = Some tf" "m_pTryLastInstruction cl = Some tl"
    "m_pHandlerFirstInstruction cl = Some hf" "m_pHandlerLastInstruction cl = Some hl"
    "{tf, tl, hf, hl} \<subseteq> set xs" using assms(3) by (auto simp: ends_in_def)
  have gi: "graph_inv ?w g xs" using assms(1) by (rule graph_inv_refreshed)
  have off: "GetOffset a w = (Ok (layout w 0 xs a), ?w)" "GetOffset a ?w = (Ok (layout w 0 xs a), ?w)" if "a \<in> set xs" for a
    using GetOffset_list [OF assms(1) that] GetOffset_list [OF gi that] by simp_all
  obtain i where i: "w_instrs w tl = Some i" "GetInstructionSize i = Ok (size_at w tl)"
    using size_exec [OF assms(1), of tl] e(5) by auto
  obtain j where j: "w_instrs ?w hl = Some j" "GetInstructionSize j = Ok (size_at w hl)"
    using size_exec [OF gi, of hl] e(5) by auto
  have f: "GetOffset f ?w = (Ok (layout w 0 xs f), ?w)"
    if "m_clauseFlags cl = COR_ILEXCEPTION_CLAUSE_FILTER" "m_pFilterFirstInstruction cl = Some f" for f
    using assms(3) that off(2) [of f] by (auto simp: ends_in_def)
  have fs: "\<exists>f. m_pFilterFirstInstruction cl = Some f" if "m_clauseFlags cl = COR_ILEXCEPTION_CLAUSE_FILTER"
    using assms(3) that by (auto simp: ends_in_def)
  show ?thesis
    using e i j off [of tf] off [of tl] off [of hf] off [of hl] f fs assms(2)
    by (auto simp: RenderExceptionClause_def get_clause_def IfNullRet_def rendered_def Let_def)
qed

text \<open>A clause of the method body whose ranges begin and end at instructions.\<close>

definition aligned :: "world \<Rightarrow> addr list \<Rightarrow> EH_CLAUSE \<Rightarrow> bool" where
  "aligned w xs eh \<longleftrightarrow> at_offset w xs (cl_TryOffset eh) \<noteq> None \<and>
     at_end w xs (cl_TryOffset eh + cl_TryLength eh) \<noteq> None \<and> at_offset w xs (cl_HandlerOffset eh) \<noteq> None \<and>
     at_end w xs (cl_HandlerOffset eh + cl_HandlerLength eh) \<noteq> None \<and>
     (cl_Flags eh = COR_ILEXCEPTION_CLAUSE_FILTER \<longrightarrow> at_offset w xs (cl_ClassToken eh) \<noteq> None)"

definition clause_of :: "world \<Rightarrow> addr list \<Rightarrow> EH_CLAUSE \<Rightarrow> clause" where
  "clause_of w xs eh = \<lparr> m_clauseFlags = cl_Flags eh,
     m_pTryFirstInstruction = at_offset w xs (cl_TryOffset eh),
     m_pTryLastInstruction = at_end w xs (cl_TryOffset eh + cl_TryLength eh),
     m_pHandlerFirstInstruction = at_offset w xs (cl_HandlerOffset eh),
     m_pHandlerLastInstruction = at_end w xs (cl_HandlerOffset eh + cl_HandlerLength eh),
     m_pFilterFirstInstruction = (if cl_Flags eh = COR_ILEXCEPTION_CLAUSE_FILTER then at_offset w xs (cl_ClassToken eh) else None),
     m_ExceptionHandlerType = (if cl_Flags eh = COR_ILEXCEPTION_CLAUSE_NONE then cl_ClassToken eh else mdTokenNil) \<rparr>"

lemma InitializeFromFat_exec:
  assumes "graph_inv w g xs" and "aligned w xs eh"
  shows "InitializeFromFat g eh w = (Ok (clause_of w xs eh), refreshed g xs w)"
proof -
  let ?w = "refreshed g xs w"
  have gi: "graph_inv ?w g xs" using assms(1) by (rule graph_inv_refreshed)
  note look = lookups_exec [OF assms(1)] lookups_exec [OF gi, simplified]
  obtain tf tl hf hl where e: "at_offset w xs (cl_TryOffset eh) = Some tf"
    "at_end w xs (cl_TryOffset eh + cl_TryLength eh) = Some tl" "at_offset w xs (cl_HandlerOffset eh) = Some hf"
    "at_end w xs (cl_HandlerOffset eh + cl_HandlerLength eh) = Some hl"
    using assms(2) by (auto simp: aligned_def)
  show ?thesis
  proof (cases "cl_Flags eh = COR_ILEXCEPTION_CLAUSE_FILTER")
    case True
    then obtain f where "at_offset w xs (cl_ClassToken eh) = Some f" using assms(2) by (auto simp: aligned_def)
    with True e look show ?thesis
      by (simp add: InitializeFromFat_def clause_of_def new_CExceptionClause_def Let_def)
  next
    case False
    with e look show ?thesis
      by (simp add: InitializeFromFat_def clause_of_def new_CExceptionClause_def Let_def)
  qed
qed

lemma rendered_clause_of:
  assumes "aligned w xs eh"
  shows "rendered w xs old (clause_of w xs eh) =
    (if cl_Flags eh = COR_ILEXCEPTION_CLAUSE_NONE \<or> cl_Flags eh = COR_ILEXCEPTION_CLAUSE_FILTER then eh
     else eh \<lparr> cl_ClassToken := old \<rparr>)"
proof -
  obtain tf tl hf hl where e: "at_offset w xs (cl_TryOffset eh) = Some tf"
    "at_end w xs (cl_TryOffset eh + cl_TryLength eh) = Some tl" "at_offset w xs (cl_HandlerOffset eh) = Some hf"
    "at_end w xs (cl_HandlerOffset eh + cl_HandlerLength eh) = Some hl"
    using assms by (auto simp: aligned_def)
  note at = e(1) [THEN at_Some(1)] e(2) [THEN at_Some(2)] e(3) [THEN at_Some(1)] e(4) [THEN at_Some(2)]
  show ?thesis
    using e at assms
    by (intro EH_CLAUSE.equality) (auto simp: rendered_def clause_of_def Let_def aligned_def dest: at_Some(1))
qed

lemma ends_in_clause_of: "aligned w xs eh \<Longrightarrow> ends_in xs (clause_of w xs eh)"
  by (auto simp: aligned_def ends_in_def clause_of_def dest: at_Some)

section \<open>The order of clauses\<close>

definition try_in :: "addr list \<Rightarrow> clause \<Rightarrow> bool" where
  "try_in xs c \<longleftrightarrow> m_pTryFirstInstruction c \<in> Some ` set xs \<and> m_pTryLastInstruction c \<in> Some ` set xs"

definition length_at :: "world \<Rightarrow> addr \<Rightarrow> DWORD" where
  "length_at w a = (case w_instrs w a of None \<Rightarrow> 0 | Some i \<Rightarrow>
     (case GetInstructionLength i of Ok n \<Rightarrow> n | _ \<Rightarrow> 0))"

definition try_of :: "world \<Rightarrow> addr list \<Rightarrow> clause \<Rightarrow> DWORD \<times> DWORD" where
  "try_of w xs c = (layout w 0 xs (the (m_pTryFirstInstruction c)),
     layout w 0 xs (the (m_pTryLastInstruction c)) + length_at w (the (m_pTryLastInstruction c)))"

definition inside :: "DWORD \<times> DWORD \<Rightarrow> DWORD \<times> DWORD \<Rightarrow> bool" where
  "inside r s \<longleftrightarrow> fst s \<le> fst r \<and> snd r \<le> snd s"

text \<open>No clause stands before one whose try block is properly inside its own.\<close>

definition innermost_first :: "(DWORD \<times> DWORD) list \<Rightarrow> bool" where
  "innermost_first rs \<longleftrightarrow> sorted_wrt (\<lambda>r s. inside s r \<longrightarrow> inside r s) rs"

lemma inside_trans: "inside r s \<Longrightarrow> inside s t \<Longrightarrow> inside r t"
  unfolding inside_def by (meson order_trans)

lemma innermost_first_insert:
  assumes "innermost_first (rs @ ss)" and "rs = [] \<or> inside (last rs) n" and "\<forall>s \<in> set ss. \<not> inside s n"
  shows "innermost_first (rs @ n # ss)"
proof -
  have "inside r n" if "r \<in> set rs" "inside n r" for r
  proof -
    from that(1) obtain qs where rs: "rs = qs @ [last rs]" by (metis append_butlast_last_id empty_iff list.set(1))
    have l: "inside (last rs) n" using assms(2) that(1) by auto
    show ?thesis
    proof (cases "r = last rs")
      case False
      then have "r \<in> set qs" using that(1) rs by (metis Un_iff empty_iff empty_set insert_iff list.simps(15) set_append)
      then have "inside (last rs) r \<longrightarrow> inside r (last rs)"
        using assms(1) rs by (metis (no_types, lifting) innermost_first_def list.set_intros(1) sorted_wrt_append)
      with l that(2) show ?thesis by (meson inside_trans)
    qed (use l in simp)
  qed
  with assms(1,3) show ?thesis by (auto simp: innermost_first_def sorted_wrt_append)
qed

lemma length_exec:
  assumes "graph_inv w g xs" and "a \<in> set xs"
  shows "\<exists>i. w_instrs w a = Some i \<and> GetInstructionLength i = Ok (length_at w a)"
proof -
  obtain i where i: "w_instrs w a = Some i" "wf_instr i" using size_exec [OF assms] by auto
  then obtain e where "opcodeInfo (m_opcode i) = Ok e" by (auto elim: wf_instr_info)
  with i show ?thesis by (simp add: length_at_def GetInstructionLength_def)
qed

lemma length_at_refreshed [simp]: "length_at (refreshed g xs w) a = length_at w a"
proof (cases "w_instrs w a")
  case (Some i)
  then show ?thesis by (simp add: length_at_def refreshed_node GetInstructionLength_def)
qed (simp add: length_at_def refreshed_def set_offsets_at)

lemma try_of_refreshed [simp]: "try_of (refreshed g ys w) xs c = try_of w xs c"
  by (simp add: try_of_def)

lemma tryRange_exec:
  assumes "graph_inv w g xs" and "try_in xs c"
  shows "tryRange c w = (Ok (try_of w xs c), refreshed g xs w)"
proof -
  let ?w = "refreshed g xs w"
  have gi: "graph_inv ?w g xs" using assms(1) by (rule graph_inv_refreshed)
  obtain f l where e: "m_pTryFirstInstruction c = Some f" "f \<in> set xs" "m_pTryLastInstruction c = Some l" "l \<in> set xs"
    using assms(2) by (auto simp: try_in_def)
  obtain i where "w_instrs ?w l = Some i" "GetInstructionLength i = Ok (length_at w l)"
    using length_exec [OF gi e(4)] by auto
  with e GetOffset_list [OF assms(1) e(2)] GetOffset_list [OF gi e(4)] show ?thesis
    by (simp add: tryRange_def try_of_def)
qed

lemma contained_exec:
  assumes "graph_inv w g xs" and "try_in xs existing" and "try_in xs new"
  shows "IsExistingTryContainedWithinNewTry existing new w =
    (Ok (inside (try_of w xs existing) (try_of w xs new)), refreshed g xs w)"
  using tryRange_exec [OF assms(1,3)] tryRange_exec [OF graph_inv_refreshed [OF assms(1)] assms(2)]
  by (simp add: IsExistingTryContainedWithinNewTry_def inside_def split_beta)

definition clause_at :: "world \<Rightarrow> caddr \<Rightarrow> clause" where
  "clause_at w c = (case w_clauses w c of Some cl \<Rightarrow> cl | None \<Rightarrow> new_CExceptionClause 0)"

definition clauses_in :: "world \<Rightarrow> addr list \<Rightarrow> caddr list \<Rightarrow> bool" where
  "clauses_in w xs cs \<longleftrightarrow> list_all (\<lambda>c. case w_clauses w c of None \<Rightarrow> False | Some cl \<Rightarrow> try_in xs cl) cs"

lemma insertionPoint_exec:
  assumes "graph_inv w g xs" and "try_in xs new" and "clauses_in w xs cs"
  shows "\<exists>w'. w' \<in> {w, refreshed g xs w} \<and> insertionPoint_loop new cs w =
    (Ok (length (dropWhile (\<lambda>c. \<not> inside (try_of w xs (clause_at w c)) (try_of w xs new)) cs)), w')"
  using assms
proof (induction cs arbitrary: w)
  case (Cons c cs)
  let ?w = "refreshed g xs w"
  obtain cl where cl: "w_clauses w c = Some cl" "try_in xs cl"
    using Cons.prems(3) by (auto simp: clauses_in_def split: option.splits)
  have at: "clause_at ?w = clause_at w" by (simp add: clause_at_def fun_eq_iff)
  have gi: "graph_inv ?w g xs" using Cons.prems(1) by (rule graph_inv_refreshed)
  have ci: "clauses_in ?w xs cs" using Cons.prems(3) by (simp add: clauses_in_def)
  obtain w' where "w' \<in> {?w, refreshed g xs ?w}" "insertionPoint_loop new cs ?w =
    (Ok (length (dropWhile (\<lambda>c. \<not> inside (try_of w xs (clause_at w c)) (try_of w xs new)) cs)), w')"
    using Cons.IH [OF gi Cons.prems(2) ci] at by auto
  with cl contained_exec [OF Cons.prems(1) cl(2) Cons.prems(2)] show ?case
    by (simp add: get_clause_def clause_at_def)
qed simp

end
