(* ===== verification/ExceptionClaims.thy ===== *)
theory ExceptionClaims
  imports EditClaims ExceptionOrder
begin

text \<open>
  The contracts of exception clauses and of the section of a method: a clause survives reading and
  writing, is written over the current offsets, is added in the order the runtime requires, and
  the written section can be read.
\<close>

section \<open>Clauses\<close>

text \<open>Worlds that differ in clauses and methods only.\<close>

lemma same_code:
  assumes "w_instrs w' = w_instrs w"
  shows "size_at w' = size_at w" "layout w' z xs a = layout w z xs a" "length_at w' = length_at w"
    "try_of w' xs = try_of w xs" "rendered w' xs = rendered w xs"
proof -
  show s: "size_at w' = size_at w" using assms by (simp add: size_at_def fun_eq_iff)
  have l: "layout w' z xs a = layout w z xs a" for z a by (rule layout_cong) (simp add: s)
  show le: "length_at w' = length_at w" using assms by (simp add: length_at_def fun_eq_iff)
  show "layout w' z xs a = layout w z xs a" by (rule l)
  show "try_of w' xs = try_of w xs" by (simp add: try_of_def l le fun_eq_iff)
  show "rendered w' xs = rendered w xs" by (simp add: rendered_def l s fun_eq_iff Let_def)
qed

lemma same_code_graph:
  assumes "w_instrs w' = w_instrs w" "w_graphs w' = w_graphs w" "w_next w' = w_next w"
  shows "graph_inv w' g xs = graph_inv w g xs"
proof -
  have "node_ok w' g = node_ok w g" using assms by (simp add: node_ok_def fun_eq_iff)
  then show ?thesis
    by (simp add: graph_inv_def graph_list_def stale_def assms same_code(2) [OF assms(1)] cong: option.case_cong)
qed

text \<open>C29. A clause read from a method body and written again without edits is the same clause: the
  flags, both ranges, and the class token or filter offset.  A finally or fault clause has no token;
  its last member keeps the bytes that were in the buffer.\<close>

theorem clause_roundtrip:
  assumes "graph_inv w g xs" and "aligned w xs eh"
  shows "\<exists>c w' w''. InitializeFromFat g eh w = (Ok c, w') \<and>
    IfFailRet (new_clause c) (RenderExceptionClause old) w' =
      (Ok (if cl_Flags eh = COR_ILEXCEPTION_CLAUSE_NONE \<or> cl_Flags eh = COR_ILEXCEPTION_CLAUSE_FILTER then eh
           else eh \<lparr> cl_ClassToken := old \<rparr>), w'')"
proof -
  let ?c = "clause_of w xs eh" and ?w = "refreshed g xs w"
  let ?v = "?w \<lparr> w_clauses := (w_clauses ?w)(w_nextClause ?w \<mapsto> ?c), w_nextClause := w_nextClause ?w + 1 \<rparr>"
  have "graph_inv ?v g xs"
    using graph_inv_refreshed [OF assms(1)] same_code_graph [of ?v ?w g xs] by simp
  then have "RenderExceptionClause old (w_nextClause ?w) ?v = (Ok (rendered ?v xs old ?c), refreshed g xs ?v)"
    by (rule Render_exec) (simp_all add: ends_in_clause_of [OF assms(2)])
  moreover have "rendered ?v xs old ?c = rendered w xs old ?c"
    using same_code(5) [of ?v ?w xs] by (simp add: rendered_def Let_def)
  ultimately show ?thesis
    using InitializeFromFat_exec [OF assms] rendered_clause_of [OF assms(2), of old]
    by (simp add: new_clause_def)
qed

definition filter_clause :: EH_CLAUSE where
  "filter_clause = \<lparr> cl_Flags = 1, cl_TryOffset = 1, cl_TryLength = 3, cl_HandlerOffset = 4, cl_HandlerLength = 1, cl_ClassToken = 4 \<rparr>"

theorem clause_roundtrip_witness:
  "\<exists>c w' w''. InitializeFromFat 0 filter_clause sample_world = (Ok c, w') \<and>
    IfFailRet (new_clause c) (RenderExceptionClause 0) w' = (Ok filter_clause, w'')"
proof -
  have "aligned sample_world [0, 1, 2, 3] filter_clause" by code_simp
  from clause_roundtrip [OF sample_graph_inv this, of 0] show ?thesis by (simp add: filter_clause_def)
qed

text \<open>After any edits a clause is written over the current offsets of its instructions: each
  range begins where its first instruction begins and ends where its last instruction ends, and a
  filter begins at its first instruction; the offsets are recalculated first when they are
  stale, and the body stays the same.\<close>

theorem RenderExceptionClause_offsets:
  assumes "graph_inv w g xs" and "w_clauses w c = Some cl" and "ends_in xs cl"
  shows "\<exists>eh w'. RenderExceptionClause old c w = (Ok eh, w') \<and> graph_inv w' g xs \<and> cl_Flags eh = m_clauseFlags cl \<and>
    Some (cl_TryOffset eh) = map_option (layout w 0 xs) (m_pTryFirstInstruction cl) \<and>
    Some (cl_TryOffset eh + cl_TryLength eh) = map_option (\<lambda>a. layout w 0 xs a + size_at w a) (m_pTryLastInstruction cl) \<and>
    Some (cl_HandlerOffset eh) = map_option (layout w 0 xs) (m_pHandlerFirstInstruction cl) \<and>
    Some (cl_HandlerOffset eh + cl_HandlerLength eh) = map_option (\<lambda>a. layout w 0 xs a + size_at w a) (m_pHandlerLastInstruction cl) \<and>
    (m_clauseFlags cl = COR_ILEXCEPTION_CLAUSE_NONE \<longrightarrow> cl_ClassToken eh = m_ExceptionHandlerType cl) \<and>
    (m_clauseFlags cl = COR_ILEXCEPTION_CLAUSE_FILTER \<longrightarrow>
      Some (cl_ClassToken eh) = map_option (layout w 0 xs) (m_pFilterFirstInstruction cl))"
proof -
  note Render_exec [OF assms, of old]
  moreover have "graph_inv (refreshed g xs w) g xs" using assms(1) by (rule graph_inv_refreshed)
  ultimately show ?thesis using assms(3) by (auto simp: ends_in_def rendered_def)
qed

lemma clause_world_clause: "\<exists>cl. w_clauses clause_world 0 = Some cl \<and> ends_in [0, 1, 2, 3] cl \<and>
   m_pTryFirstInstruction cl = Some 1 \<and> m_pTryLastInstruction cl = Some 2"
  by (simp add: clause_world_def ends_in_def new_CExceptionClause_def)

lemma clause_world_inv: "graph_inv clause_world 0 [0, 1, 2, 3]"
  by code_simp

theorem RenderExceptionClause_offsets_witness:
  "\<exists>eh w'. RenderExceptionClause 0 0 clause_world = (Ok eh, w') \<and> cl_TryOffset eh = 1 \<and> cl_TryLength eh = 3"
proof -
  obtain cl where cl: "w_clauses clause_world 0 = Some cl" "ends_in [0, 1, 2, 3] cl"
    "m_pTryFirstInstruction cl = Some 1" "m_pTryLastInstruction cl = Some 2" using clause_world_clause by blast
  have "layout clause_world 0 [0, 1, 2, 3] 1 = 1" "layout clause_world 0 [0, 1, 2, 3] 2 + size_at clause_world 2 = 4"
    by code_simp+
  with RenderExceptionClause_offsets [OF clause_world_inv cl(1,2), of 0] cl(3,4)
  show ?thesis by (auto simp: algebra_simps)
qed

section \<open>Writing the section\<close>

text \<open>The clauses as they are written; the last member of a finally or fault clause keeps the bytes
  of the buffer.\<close>

fun clauses_rendered :: "world \<Rightarrow> addr list \<Rightarrow> (nat \<Rightarrow> byte) \<Rightarrow> nat \<Rightarrow> caddr list \<Rightarrow> EH_CLAUSE list" where
  "clauses_rendered w xs garbage k [] = []"
| "clauses_rendered w xs garbage k (c # cs) =
     rendered w xs (le_word (map garbage [4 + 24 * k + 20..<4 + 24 * k + 24])) (clause_at w c)
     # clauses_rendered w xs garbage (Suc k) cs"

lemma clauses_rendered_nth:
  "j < length cs \<Longrightarrow> \<exists>old. clauses_rendered w xs garbage k cs ! j = rendered w xs old (clause_at w (cs ! j))"
  "length (clauses_rendered w xs garbage k cs) = length cs"
proof -
  show "j < length cs \<Longrightarrow> \<exists>old. clauses_rendered w xs garbage k cs ! j = rendered w xs old (clause_at w (cs ! j))"
    by (induction cs arbitrary: k j) (auto simp: less_Suc_eq_0_disj)
  show "length (clauses_rendered w xs garbage k cs) = length cs" by (induction cs arbitrary: k) auto
qed

definition all_ends_in :: "world \<Rightarrow> addr list \<Rightarrow> caddr list \<Rightarrow> bool" where
  "all_ends_in w xs cs \<longleftrightarrow> list_all (\<lambda>c. case w_clauses w c of None \<Rightarrow> False | Some cl \<Rightarrow> ends_in xs cl) cs"

lemma clauses_rendered_refreshed [simp]:
  "clauses_rendered (refreshed g ys w) xs garbage k cs = clauses_rendered w xs garbage k cs"
  by (induction cs arbitrary: k) (simp_all add: rendered_def clause_at_def Let_def)

lemma renderClauses_exec:
  assumes "graph_inv w g xs" and "all_ends_in w xs cs"
  shows "\<exists>w'. renderClauses garbage k cs w = (Ok (concat (map fatClauseBytes (clauses_rendered w xs garbage k cs))), w') \<and>
    w' \<in> {w, refreshed g xs w}"
  using assms
proof (induction cs arbitrary: k w)
  case (Cons c cs)
  let ?w = "refreshed g xs w"
  obtain cl where cl: "w_clauses w c = Some cl" "ends_in xs cl"
    using Cons.prems(2) by (auto simp: all_ends_in_def split: option.splits)
  have "all_ends_in ?w xs cs" using Cons.prems(2) by (simp add: all_ends_in_def)
  then have "renderClauses garbage (Suc k) cs ?w =
      (Ok (concat (map fatClauseBytes (clauses_rendered w xs garbage (Suc k) cs))), ?w)"
    using Cons.IH [OF graph_inv_refreshed [OF Cons.prems(1)], of "Suc k"] by auto
  with Render_exec [OF Cons.prems(1) cl] cl(1) show ?case
    by (simp add: Discard_def Let_def clause_at_def)
qed simp

text \<open>The buffer of a section with the clauses \<open>cs\<close>.\<close>

definition section_bytes :: "world \<Rightarrow> addr list \<Rightarrow> (nat \<Rightarrow> byte) \<Rightarrow> caddr list \<Rightarrow> byte list" where
  "section_bytes w xs garbage cs = ([CorILMethod_Sect_EHTable OR CorILMethod_Sect_FatFormat OR (if False then CorILMethod_Sect_MoreSects else 0)]
     @ le_bytes 3 (of_nat (24 * length cs) :: DWORD) @ concat (map fatClauseBytes (clauses_rendered w xs garbage 0 cs)))
     @ map garbage [4 + 24 * length cs..<4 + 24 * length cs + 24]"

lemma length_section_bytes: "length (section_bytes w xs garbage cs) = 28 + 24 * length cs"
  by (simp add: section_bytes_def length_concat_const [where n = 24] clauses_rendered_nth(2))

lemma section_bytes_read:
  assumes "j < length cs" and "24 * length cs < 2 ^ 24"
  shows "EHCount (pre @ section_bytes w xs garbage cs @ post) (length pre) = Ok (length cs)"
    and "\<exists>old. SectEH_EHClause (pre @ section_bytes w xs garbage cs @ post) (length pre) j = Ok (rendered w xs old (clause_at w (cs ! j)))"
proof -
  let ?r = "clauses_rendered w xs garbage 0 cs"
  have l: "length ?r = length cs" by (rule clauses_rendered_nth(2))
  have d: "24 * length cs div 24 = length ?r" "j < length ?r" using assms(1) l by simp_all
  note rd = SectEH_read_fat [OF assms(2) d(1) refl d(2), where m = False and pre = pre
    and post = "map garbage [4 + 24 * length cs..<4 + 24 * length cs + 24] @ post"]
  show "EHCount (pre @ section_bytes w xs garbage cs @ post) (length pre) = Ok (length cs)"
    using rd(1) l by (simp only: section_bytes_def append_assoc)
  have "SectEH_EHClause (pre @ section_bytes w xs garbage cs @ post) (length pre) j = Ok (?r ! j)"
    using rd(2) by (simp only: section_bytes_def append_assoc)
  then show "\<exists>old. SectEH_EHClause (pre @ section_bytes w xs garbage cs @ post) (length pre) j = Ok (rendered w xs old (clause_at w (cs ! j)))"
    using clauses_rendered_nth(1) [OF assms(1), of w xs garbage 0] by auto
qed

lemma CreateExceptionHeader_exec:
  assumes "graph_inv w g xs" and "w_methods w m = Some mi" and "m_pExceptionSection mi = Some cs"
    and "all_ends_in w xs cs"
  shows "\<exists>w'. CreateExceptionHeader garbage m w =
    (Ok (if cs = [] then None else Some (section_bytes w xs garbage cs)), w') \<and> w' \<in> {w, refreshed g xs w}"
proof -
  obtain w' where "renderClauses garbage 0 cs w = (Ok (concat (map fatClauseBytes (clauses_rendered w xs garbage 0 cs))), w')"
    "w' \<in> {w, refreshed g xs w}"
    using renderClauses_exec [OF assms(1,4), of garbage 0] by blast
  then show ?thesis
    using assms(2,3)
    by (auto simp: CreateExceptionHeader_def get_clauses_def get_method_def Let_def section_bytes_def mult.commute)
qed

text \<open>C21. The section that \<^verbatim>\<open>CreateExceptionHeader\<close> builds is one a reader of method bodies
  understands: it is a fat section whose clause count is the number of clauses, and clause \<open>j\<close> reads
  back as clause \<open>j\<close> over the current offsets.  The data size counts the clauses without the four
  header bytes, and the buffer ends with room for one clause that is never written.\<close>

theorem CreateExceptionHeader_reads_back:
  assumes "graph_inv w g xs" and "w_methods w m = Some mi" and "m_pExceptionSection mi = Some cs"
    and "all_ends_in w xs cs" and "j < length cs" and "24 * length cs < 2 ^ 24"
  shows "\<exists>buf w' old. CreateExceptionHeader garbage m w = (Ok (Some buf), w') \<and>
    length buf = 28 + 24 * length cs \<and> EHCount buf 0 = Ok (length cs) \<and>
    SectEH_EHClause buf 0 j = Ok (rendered w xs old (clause_at w (cs ! j)))"
proof -
  have "cs \<noteq> []" using assms(5) by auto
  then obtain w' where "CreateExceptionHeader garbage m w = (Ok (Some (section_bytes w xs garbage cs)), w')"
    using CreateExceptionHeader_exec [OF assms(1-4), of garbage] by auto
  with section_bytes_read [OF assms(5,6), of "[]" w xs garbage "[]"] length_section_bytes [of w xs garbage cs]
  show ?thesis by auto
qed

lemma clause_world_method: "\<exists>mi. w_methods clause_world 0 = Some mi \<and> m_pExceptionSection mi = Some [0]"
  by (simp add: clause_world_def)

theorem CreateExceptionHeader_reads_back_witness:
  "\<exists>buf w' old. CreateExceptionHeader (\<lambda>_. 0xCD) 0 clause_world = (Ok (Some buf), w') \<and> length buf = 52 \<and>
    EHCount buf 0 = Ok 1 \<and> SectEH_EHClause buf 0 0 = Ok (rendered clause_world [0, 1, 2, 3] old (clause_at clause_world 0))"
proof -
  obtain mi where mi: "w_methods clause_world 0 = Some mi" "m_pExceptionSection mi = Some [0]"
    using clause_world_method by blast
  have "all_ends_in clause_world [0, 1, 2, 3] [0]" using clause_world_clause by (auto simp: all_ends_in_def)
  from CreateExceptionHeader_reads_back [OF clause_world_inv mi this, of 0 "\<lambda>_. 0xCD"] show ?thesis by auto
qed

section \<open>Adding a clause\<close>

lemma take_drop_rev:
  "take (length (dropWhile P (rev cs))) cs = rev (dropWhile P (rev cs))"
  "drop (length (dropWhile P (rev cs))) cs = rev (takeWhile P (rev cs))"
proof -
  have "cs = rev (dropWhile P (rev cs)) @ rev (takeWhile P (rev cs))"
    by (metis rev_append rev_rev_ident takeWhile_dropWhile_id)
  then show "take (length (dropWhile P (rev cs))) cs = rev (dropWhile P (rev cs))"
    "drop (length (dropWhile P (rev cs))) cs = rev (takeWhile P (rev cs))"
    by (metis append_eq_conv_conj length_rev)+
qed

lemma FindInsertionPoint_exec:
  assumes "graph_inv w g xs" and "w_methods w m = Some mi" and "m_pExceptionSection mi = Some cs"
    and "clauses_in w xs cs" and "try_in xs new"
  shows "\<exists>k w'. FindExceptionClauseInsertionPoint m new w = (Ok k, w') \<and> w' \<in> {w, refreshed g xs w} \<and>
    (take k cs = [] \<or> inside (try_of w xs (clause_at w (last (take k cs)))) (try_of w xs new)) \<and>
    list_all (\<lambda>c. \<not> inside (try_of w xs (clause_at w c)) (try_of w xs new)) (drop k cs)"
proof -
  let ?P = "\<lambda>c. \<not> inside (try_of w xs (clause_at w c)) (try_of w xs new)"
  let ?d = "dropWhile ?P (rev cs)"
  have "clauses_in w xs (rev cs)" using assms(4) by (simp add: clauses_in_def list_all_iff)
  then obtain w' where w': "w' \<in> {w, refreshed g xs w}" "insertionPoint_loop new (rev cs) w = (Ok (length ?d), w')"
    using insertionPoint_exec [OF assms(1,5)] by blast
  have "FindExceptionClauseInsertionPoint m new w = (Ok (length ?d), w')"
    using assms(2,3) w'(2) by (simp add: FindExceptionClauseInsertionPoint_def get_clauses_def get_method_def)
  moreover have "?d = [] \<or> \<not> ?P (hd ?d)" using hd_dropWhile [of ?P "rev cs"] by auto
  moreover have "list_all ?P (takeWhile ?P (rev cs))" by (auto simp: list_all_iff dest: set_takeWhileD)
  ultimately show ?thesis
    using w'(1) by (auto simp: take_drop_rev last_rev list_all_iff)
qed

text \<open>C11. \<^verbatim>\<open>AddNewExceptionClause\<close> succeeds, keeps the relative order of the clauses that are
  there, and keeps the order the runtime requires: if no clause stood before one whose try block is
  properly inside its own, then none does afterwards.  This is the invariant the comment in
  \<^verbatim>\<open>FindExceptionClauseInsertionPoint\<close> relies on.\<close>

theorem AddNewExceptionClause_order:
  assumes "graph_inv w g xs" and "w_methods w m = Some mi" and "m_pExceptionSection mi = Some cs"
    and "clauses_in w xs cs" and "list_all (\<lambda>c. c < w_nextClause w) cs"
    and "tryFirst \<in> Some ` set xs" and "tryLast \<in> Some ` set xs"
    and "innermost_first (map (\<lambda>c. try_of w xs (clause_at w c)) cs)"
  shows "\<exists>a w' mi' ps qs. AddNewExceptionClause m flags tryFirst tryLast hFirst hLast filterFirst token w = (Ok a, w') \<and>
    w_methods w' m = Some mi' \<and> m_pExceptionSection mi' = Some (ps @ a # qs) \<and> ps @ qs = cs \<and> a \<notin> set cs \<and>
    innermost_first (map (\<lambda>c. try_of w' xs (clause_at w' c)) (ps @ a # qs))"
proof -
  let ?new = "\<lparr> m_clauseFlags = flags, m_pTryFirstInstruction = tryFirst,
         m_pTryLastInstruction = tryLast, m_pHandlerFirstInstruction = hFirst,
         m_pHandlerLastInstruction = hLast, m_pFilterFirstInstruction = filterFirst,
         m_ExceptionHandlerType = token \<rparr>"
  have n: "try_in xs ?new" using assms(6,7) by (simp add: try_in_def)
  obtain k w1 where k: "FindExceptionClauseInsertionPoint m ?new w = (Ok k, w1)" "w1 \<in> {w, refreshed g xs w}"
    "take k cs = [] \<or> inside (try_of w xs (clause_at w (last (take k cs)))) (try_of w xs ?new)"
    "list_all (\<lambda>c. \<not> inside (try_of w xs (clause_at w c)) (try_of w xs ?new)) (drop k cs)"
    using FindInsertionPoint_exec [OF assms(1-4) n] by blast
  let ?a = "w_nextClause w" and ?mi = "mi \<lparr> m_pExceptionSection := Some (take k cs @ w_nextClause w # drop k cs) \<rparr>"
  define w2 where "w2 = w1 \<lparr> w_clauses := (w_clauses w)(?a \<mapsto> ?new), w_nextClause := ?a + 1,
    w_methods := (w_methods w)(m \<mapsto> ?mi) \<rparr>"
  have f: "w_clauses w1 = w_clauses w" "w_methods w1 = w_methods w" "w_nextClause w1 = w_nextClause w"
    "try_of w1 xs = try_of w xs" using k(2) by (auto simp: fun_eq_iff)
  have run: "AddNewExceptionClause m flags tryFirst tryLast hFirst hLast filterFirst token w = (Ok ?a, w2)"
    using k(1) f assms(2,3) by (simp add: AddNewExceptionClause_def new_clause_def set_clauses_def upd_method_def get_method_def w2_def Let_def)
  have t: "try_of w2 xs = try_of w xs" using same_code(4) [of w2 w1 xs] f(4) by (simp add: w2_def)
  have c: "clause_at w2 c = (if c = ?a then ?new else clause_at w c)" for c by (simp add: clause_at_def w2_def)
  have a: "?a \<notin> set cs" using assms(5) by (auto simp: list_all_iff)
  then have na: "?a \<notin> set (take k cs)" "?a \<notin> set (drop k cs)" by (auto dest: in_set_takeD in_set_dropD)
  let ?r = "\<lambda>c. try_of w xs (clause_at w c)"
  have "innermost_first (map ?r (take k cs) @ try_of w xs ?new # map ?r (drop k cs))"
  proof (rule innermost_first_insert)
    show "innermost_first (map ?r (take k cs) @ map ?r (drop k cs))"
      using assms(8) by (metis append_take_drop_id map_append)
    show "map ?r (take k cs) = [] \<or> inside (last (map ?r (take k cs))) (try_of w xs ?new)"
      using k(3) by (cases "take k cs = []") (simp_all only: last_map list.map simp_thms)
    show "\<forall>s \<in> set (map ?r (drop k cs)). \<not> inside s (try_of w xs ?new)" using k(4) by (auto simp: list_all_iff)
  qed
  moreover have "map (\<lambda>c. try_of w2 xs (clause_at w2 c)) (take k cs @ ?a # drop k cs) =
      map ?r (take k cs) @ try_of w xs ?new # map ?r (drop k cs)"
    using na by (auto simp: t c)
  ultimately have "innermost_first (map (\<lambda>c. try_of w2 xs (clause_at w2 c)) (take k cs @ ?a # drop k cs))" by (simp only:)
  moreover have "w_methods w2 m = Some ?mi" by (simp add: w2_def)
  moreover have "m_pExceptionSection ?mi = Some (take k cs @ ?a # drop k cs)" by simp
  ultimately show ?thesis using run a append_take_drop_id by blast
qed

theorem AddNewExceptionClause_order_witness:
  "\<exists>a w' mi' ps qs. AddNewExceptionClause 0 2 (Some 0) (Some 2) (Some 3) (Some 3) None 0 clause_world = (Ok a, w') \<and>
    w_methods w' 0 = Some mi' \<and> m_pExceptionSection mi' = Some (ps @ a # qs) \<and> ps @ qs = [0] \<and> a \<notin> set [0] \<and>
    innermost_first (map (\<lambda>c. try_of w' [0, 1, 2, 3] (clause_at w' c)) (ps @ a # qs))"
proof -
  obtain mi where mi: "w_methods clause_world 0 = Some mi" "m_pExceptionSection mi = Some [0]"
    using clause_world_method by blast
  have "clauses_in clause_world [0, 1, 2, 3] [0]" using clause_world_clause
    by (auto simp: clauses_in_def try_in_def)
  moreover have "w_nextClause clause_world = 1" by (simp add: clause_world_def)
  ultimately show ?thesis
    using AddNewExceptionClause_order [OF clause_world_inv mi, of "Some 0" "Some 2" 2 "Some 3" "Some 3" None 0]
    by (simp add: innermost_first_def)
qed

end
