(* ===== verification/Enumerator.thy ===== *)
theory Enumerator
  imports Prelude
begin

text \<open>
  The enumerator template (\<^verbatim>\<open>InstrumentationEngine.Lib/EnumeratorImpl.h\<close>) that hands sequences of objects
  across interfaces, and the loop with which every client drains one.
\<close>

section \<open>The enumerator\<close>

record 'a CEnumerator =
  m_dwLength :: DWORD
  m_members :: "'a list"
  m_dwCurrentIndex :: DWORD

definition new_CEnumerator :: "'a CEnumerator" where
  "new_CEnumerator = \<lparr> m_dwLength = 0, m_members = [], m_dwCurrentIndex = 0 \<rparr>"

text \<open>The overload that takes a vector.\<close>

definition Enum_Initialize :: "'a list \<Rightarrow> 'a CEnumerator \<Rightarrow> 'a CEnumerator" where
  "Enum_Initialize members e = e \<lparr> m_members := members, m_dwLength := of_nat (length members) \<rparr>"

text \<open>The overload that takes a length and an array.\<close>

definition Enum_Initialize_array :: "DWORD \<Rightarrow> 'a list \<Rightarrow> 'a CEnumerator \<Rightarrow> 'a CEnumerator result" where
  "Enum_Initialize_array dwLength members e = (if unat dwLength \<le> length members
     then Ok (e \<lparr> m_members := take (unat dwLength) members, m_dwLength := dwLength \<rparr>) else Undef)"

text \<open>The loop of \<^verbatim>\<open>Next\<close>: \<open>k\<close> is \<^verbatim>\<open>celt - i\<close>.\<close>

fun next_loop :: "nat \<Rightarrow> DWORD \<Rightarrow> 'a option list \<Rightarrow> ('a CEnumerator, 'a option list) op" where
  "next_loop 0 i rgelt e = (Ok rgelt, e)"
| "next_loop (Suc k) i rgelt e =
     (if i + m_dwCurrentIndex e < m_dwLength e then
        if unat (i + m_dwCurrentIndex e) < length (m_members e)
        then next_loop k (i + 1) (rgelt[unat i := Some (m_members e ! unat (i + m_dwCurrentIndex e))])
               (e \<lparr> m_dwCurrentIndex := m_dwCurrentIndex e + 1 \<rparr>)
        else (Undef, e)
      else (Ok rgelt, e))"

text \<open>The result is the caller's array, \<^verbatim>\<open>*pceltFetched\<close>, and whether the return code is \<^verbatim>\<open>S_OK\<close>
  (otherwise it is \<^verbatim>\<open>S_FALSE\<close>).\<close>

definition Enum_Next :: "DWORD \<Rightarrow> ('a CEnumerator, 'a option list \<times> DWORD \<times> bool) op" where
  "Enum_Next celt e = IfFailRet (next_loop (unat celt) 0 (replicate (unat celt) None)) (\<lambda>rgelt.
     IfFailRet (gets m_dwCurrentIndex) (\<lambda>cur.
     ret (rgelt, cur - m_dwCurrentIndex e, celt = cur - m_dwCurrentIndex e))) e"

definition Enum_Skip :: "DWORD \<Rightarrow> ('a CEnumerator, bool) op" where
  "Enum_Skip celt e = (let cur = m_dwCurrentIndex e + celt in
     if cur \<ge> m_dwLength e then (Ok False, e \<lparr> m_dwCurrentIndex := m_dwLength e \<rparr>)
     else (Ok True, e \<lparr> m_dwCurrentIndex := cur \<rparr>))"

definition Enum_Reset :: "('a CEnumerator, unit) op" where
  "Enum_Reset = modify (\<lambda>e. e \<lparr> m_dwCurrentIndex := 0 \<rparr>)"

definition Enum_Clone :: "'a CEnumerator \<Rightarrow> 'a CEnumerator result" where
  "Enum_Clone e = Enum_Initialize_array (m_dwLength e) (m_members e) new_CEnumerator"

definition Enum_GetCount :: "'a CEnumerator \<Rightarrow> DWORD" where
  "Enum_GetCount e = m_dwLength e"

text \<open>The clients' loop: \<^verbatim>\<open>while (S_OK == (hr = pEnum->Next(1, &p, &c)))\<close>, collecting the elements.
  Each round that continues moves the index, so the length bounds the rounds.\<close>

fun drain_loop :: "nat \<Rightarrow> 'a list \<Rightarrow> ('a CEnumerator, 'a list) op" where
  "drain_loop 0 acc = diverge"
| "drain_loop (Suc n) acc = IfFailRet (Enum_Next 1) (\<lambda>(rgelt, fetched, ok).
     if ok then IfFailRet (liftR (deref (hd rgelt))) (\<lambda>x. drain_loop n (acc @ [x])) else ret acc)"

definition drain :: "'a CEnumerator \<Rightarrow> 'a list result" where
  "drain e = fst (drain_loop (Suc (unat (m_dwLength e))) [] e)"

section \<open>Draining gives the members\<close>

definition enum_of :: "'a list \<Rightarrow> 'a CEnumerator" where
  "enum_of xs = Enum_Initialize xs new_CEnumerator"

definition at_index :: "'a list \<Rightarrow> nat \<Rightarrow> 'a CEnumerator" where
  "at_index xs k = \<lparr> m_dwLength = of_nat (length xs), m_members = xs, m_dwCurrentIndex = of_nat k \<rparr>"

lemma unat_DWORD: "n < 2 ^ 32 \<Longrightarrow> unat (of_nat n :: DWORD) = n"
  by (simp add: unat_of_nat take_bit_nat_eq_self)

lemma next_loop_stride:
  assumes "length xs < 2 ^ 31" and "length pre = i" and "0 < k \<Longrightarrow> c + 2 * (i + k - 1) < length xs"
  shows "next_loop k (of_nat i) (pre @ replicate k None) (at_index xs (c + i)) =
    (Ok (pre @ map (\<lambda>j. Some (xs ! (c + 2 * j))) [i..<i + k]), at_index xs (c + i + k))"
  using assms
proof (induction k arbitrary: i pre)
  case 0
  then show ?case by simp
next
  case (Suc k)
  have l: "c + 2 * i < length xs" "c + 2 * i < 2 ^ 32" using Suc.prems by auto
  have w: "(of_nat i + of_nat (c + i) :: DWORD) = of_nat (c + 2 * i)" by simp
  have a: "unat (of_nat i + of_nat (c + i) :: DWORD) = c + 2 * i" unfolding w using l(2) by (rule unat_DWORD)
  have n: "unat (of_nat (length xs) :: DWORD) = length xs" using Suc.prems(1) by (intro unat_DWORD) simp
  have i: "unat (of_nat i :: DWORD) = i" using l by (intro unat_DWORD) simp
  let ?pre = "pre @ [Some (xs ! (c + 2 * i))]"
  have "next_loop (Suc k) (of_nat i) (pre @ replicate (Suc k) None) (at_index xs (c + i)) =
      next_loop k (of_nat (Suc i)) (?pre @ replicate k None) (at_index xs (c + Suc i))"
    using l a n i Suc.prems(2)
    by (simp add: at_index_def word_less_nat_alt ac_simps list_update_append)
  also have "\<dots> = (Ok (?pre @ map (\<lambda>j. Some (xs ! (c + 2 * j))) [Suc i..<Suc i + k]), at_index xs (c + Suc i + k))"
    by (rule Suc.IH) (use Suc.prems in auto)
  finally show ?case by (simp add: upt_rec [of i])
qed

lemma Enum_Next_end:
  assumes "length xs < 2 ^ 31"
  shows "Enum_Next 1 (at_index xs (length xs)) = (Ok ([None], 0, False), at_index xs (length xs))"
  by (simp add: Enum_Next_def IfFailRet_def at_index_def gets_def ret_def)

lemma Enum_Next_one:
  assumes "length xs < 2 ^ 31" and "c < length xs"
  shows "Enum_Next 1 (at_index xs c) = (Ok ([Some (xs ! c)], 1, True), at_index xs (Suc c))"
  using next_loop_stride [OF assms(1), of "[]" 0 1 c] assms(2)
  by (simp add: Enum_Next_def IfFailRet_def gets_def ret_def at_index_def [of xs "Suc c"] at_index_def [of xs c])

lemma drain_loop_rest:
  assumes "length xs < 2 ^ 31" and "c \<le> length xs" and "length xs - c < n"
  shows "drain_loop n acc (at_index xs c) = (Ok (acc @ drop c xs), at_index xs (length xs))"
  using assms(2,3)
proof (induction n arbitrary: acc c)
  case (Suc n)
  show ?case
  proof (cases "c = length xs")
    case True
    then show ?thesis using Enum_Next_end [OF assms(1)] by (simp add: ret_def)
  next
    case False
    then have c: "c < length xs" using Suc.prems by simp
    then show ?thesis using Suc.IH [of "Suc c"] Suc.prems Enum_Next_one [OF assms(1) c]
      by (simp add: liftR_def Cons_nth_drop_Suc [symmetric])
  qed
qed simp

lemma enum_of_at: "enum_of xs = at_index xs 0"
  by (simp add: enum_of_def at_index_def Enum_Initialize_def new_CEnumerator_def)

lemma drain_enum_of:
  assumes "length xs < 2 ^ 31"
  shows "drain (enum_of xs) = Ok xs"
  using drain_loop_rest [OF assms, of 0 "Suc (length xs)" "[]"] assms unat_DWORD [of "length xs"]
  by (simp add: drain_def enum_of_at at_index_def [of xs 0])

lemma enum_ops:
  assumes "length xs < 2 ^ 31"
  shows "snd (Enum_Reset (at_index xs c)) = enum_of xs" and "Enum_Clone (at_index xs c) = Ok (enum_of xs)"
    and "c < length xs \<Longrightarrow> k < length xs \<Longrightarrow> Enum_Skip (of_nat k) (at_index xs c) = (Ok (c + k < length xs), at_index xs (min (c + k) (length xs)))"
    and "0 < k \<Longrightarrow> c + 2 * (k - 1) < length xs \<Longrightarrow> Enum_Next (of_nat k) (at_index xs c) =
      (Ok (map (\<lambda>j. Some (xs ! (c + 2 * j))) [0..<k], of_nat k, True), at_index xs (c + k))"
proof -
  show "snd (Enum_Reset (at_index xs c)) = enum_of xs" by (simp add: Enum_Reset_def modify_def enum_of_at at_index_def)
  show "Enum_Clone (at_index xs c) = Ok (enum_of xs)"
    using assms unat_DWORD [of "length xs"]
    by (simp add: Enum_Clone_def Enum_Initialize_array_def enum_of_at at_index_def new_CEnumerator_def)
  show "Enum_Skip (of_nat k) (at_index xs c) = (Ok (c + k < length xs), at_index xs (min (c + k) (length xs)))"
    if a: "c < length xs" "k < length xs"
  proof -
    have "unat (of_nat c + of_nat k :: DWORD) = c + k" unfolding of_nat_add [symmetric] using a assms by (intro unat_DWORD) simp
    moreover have "unat (of_nat (length xs) :: DWORD) = length xs" using assms by (intro unat_DWORD) simp
    ultimately show ?thesis by (simp add: Enum_Skip_def at_index_def word_le_nat_alt min_def Let_def)
  qed
  show "Enum_Next (of_nat k) (at_index xs c) =
      (Ok (map (\<lambda>j. Some (xs ! (c + 2 * j))) [0..<k], of_nat k, True), at_index xs (c + k))"
    if a: "0 < k" "c + 2 * (k - 1) < length xs"
  proof -
    have "unat (of_nat k :: DWORD) = k" using a assms by (intro unat_DWORD) simp
    then show ?thesis using next_loop_stride [OF assms, of "[]" 0 k c] a(2)
      by (simp add: Enum_Next_def IfFailRet_def gets_def ret_def at_index_def [of xs "c + k"] at_index_def [of xs c])
  qed
qed

section \<open>Properties\<close>

text \<open>The loop that asks an enumerator for one element at a time ends and yields its members in
  order, from the start after \<^verbatim>\<open>Initialize\<close>, \<^verbatim>\<open>Reset\<close> or \<^verbatim>\<open>Clone\<close>, and past the skipped ones after
  \<^verbatim>\<open>Skip\<close>; a request for several elements, in contrast, returns every second member.\<close>

theorem CEnumerator_sequence:
  assumes "length xs < 2 ^ 31"
  shows "drain (enum_of xs) = Ok xs \<and>
    (\<forall>c \<le> length xs. fst (drain_loop (Suc (length xs)) [] (at_index xs c)) = Ok (drop c xs)) \<and>
    (\<forall>c. snd (Enum_Reset (at_index xs c)) = enum_of xs \<and> Enum_Clone (at_index xs c) = Ok (enum_of xs)) \<and>
    (\<forall>c k. c < length xs \<and> k < length xs \<longrightarrow>
      Enum_Skip (of_nat k) (at_index xs c) = (Ok (c + k < length xs), at_index xs (min (c + k) (length xs)))) \<and>
    (\<forall>c k. 0 < k \<and> c + 2 * (k - 1) < length xs \<longrightarrow> Enum_Next (of_nat k) (at_index xs c) =
      (Ok (map (\<lambda>j. Some (xs ! (c + 2 * j))) [0..<k], of_nat k, True), at_index xs (c + k)))"
proof (intro conjI allI impI)
  fix c assume "c \<le> length xs"
  then show "fst (drain_loop (Suc (length xs)) [] (at_index xs c)) = Ok (drop c xs)"
    using drain_loop_rest [OF assms, of c "Suc (length xs)" "[]"] by simp
qed (use drain_enum_of [OF assms] enum_ops [OF assms] in simp_all)

theorem CEnumerator_sequence_witness:
  "length ''abc'' < 2 ^ 31 \<and> drain (enum_of ''abc'') = Ok ''abc'' \<and>
   Enum_Next (of_nat 2) (at_index ''abc'' 0) = (Ok ([Some CHR ''a'', Some CHR ''c''], 2, True), at_index ''abc'' 2)"
proof -
  have l: "length ''abc'' < 2 ^ 31" by simp
  have b: "0 < (2 :: nat) \<and> 0 + 2 * (2 - 1) < length ''abc''" by simp
  have d: "drain (enum_of ''abc'') = Ok ''abc''" using CEnumerator_sequence [OF l] by (rule conjunct1)
  have "Enum_Next (of_nat 2) (at_index ''abc'' 0) =
      (Ok (map (\<lambda>j. Some (''abc'' ! (0 + 2 * j))) [0..<2], of_nat 2, True), at_index ''abc'' (0 + 2))"
    using CEnumerator_sequence [OF l] b by blast
  then show ?thesis using l d by (simp add: upt_rec numeral_2_eq_2)
qed

end
