(* ===== verification/TypeCreator.thy ===== *)
theory TypeCreator
  imports Types Enumerator
begin

text \<open>
  Creating type objects from signatures (\<^verbatim>\<open>InstrumentationEngine/TypeCreator.cpp\<close>).  A pointer into a
  signature is the list of the bytes readable from it, which may be more than the \<open>cbBuffer\<close> bytes
  the caller vouches for; sizes and positions are the 32-bit numbers of the code and wrap as they
  do.  \<open>FromSignature\<close> recurses at a later position of the buffer, so the length of the buffer bounds
  the nesting; the loop over custom modifiers is the only one that may not end.
\<close>

section \<open>Types from tokens and element types\<close>

definition simpleElements :: "CorElementType list" where
  "simpleElements = [ELEMENT_TYPE_VOID, ELEMENT_TYPE_BOOLEAN, ELEMENT_TYPE_CHAR, ELEMENT_TYPE_I1, ELEMENT_TYPE_U1, ELEMENT_TYPE_I2,
     ELEMENT_TYPE_U2, ELEMENT_TYPE_I4, ELEMENT_TYPE_U4, ELEMENT_TYPE_I8, ELEMENT_TYPE_U8, ELEMENT_TYPE_R4, ELEMENT_TYPE_R8,
     ELEMENT_TYPE_I, ELEMENT_TYPE_U, ELEMENT_TYPE_STRING, ELEMENT_TYPE_OBJECT]"

definition FromCorElement :: "CorElementType \<Rightarrow> CType result" where
  "FromCorElement t = (if t \<in> set simpleElements then Ok (new_CType t SimpleType) else Fail E_NOTIMPL)"

definition FromToken :: "CorElementType \<Rightarrow> mdToken \<Rightarrow> CType result" where
  "FromToken t token = (if t \<noteq> ELEMENT_TYPE_CLASS \<and> t \<noteq> ELEMENT_TYPE_VALUETYPE then Fail E_INVALIDARG
     else Ok (new_CType t (TokenType token)))"

section \<open>Reading a signature\<close>

text \<open>\<open>parse cb p\<close> stands for \<^verbatim>\<open>FromSignature(cb, p, ...)\<close>; it yields the type and the number of bytes
  read.\<close>

type_synonym type_parser = "DWORD \<Rightarrow> byte list \<Rightarrow> (CType \<times> DWORD) result"

abbreviation at_pos :: "byte list \<Rightarrow> DWORD \<Rightarrow> byte list" where
  "at_pos p pos \<equiv> drop (unat pos) p"

text \<open>\<^verbatim>\<open>IfFailRet(cond ? S_OK : E_UNEXPECTED)\<close>\<close>

definition expect :: "bool \<Rightarrow> 'a result \<Rightarrow> 'a result" where
  "expect c k = (if c then k else Fail E_UNEXPECTED)"

text \<open>Reading \<open>n\<close> numbers from position \<open>pos\<close> on.\<close>

fun numbers_loop :: "nat \<Rightarrow> byte list \<Rightarrow> DWORD \<Rightarrow> (DWORD list \<times> DWORD) result" where
  "numbers_loop 0 p pos = Ok ([], pos)"
| "numbers_loop (Suc n) p pos = bindR (CorSigUncompressData (at_pos p pos)) (\<lambda>(cb, x).
     bindR (numbers_loop n p (pos + cb)) (\<lambda>(xs, pos). Ok (x # xs, pos)))"

text \<open>Reading \<open>n\<close> types from position \<open>pos\<close> on, with a check after each that the buffer was not
  left: the loop of \<^verbatim>\<open>ParseTypeSequence\<close>, and of the arguments of a generic instance.\<close>

fun types_loop :: "type_parser \<Rightarrow> nat \<Rightarrow> DWORD \<Rightarrow> byte list \<Rightarrow> DWORD \<Rightarrow> (CType list \<times> DWORD) result" where
  "types_loop parse 0 cb p pos = Ok ([], pos)"
| "types_loop parse (Suc n) cb p pos = bindR (parse (cb - pos) (at_pos p pos)) (\<lambda>(t, newSize).
     expect (cb \<ge> pos + newSize)
       (bindR (types_loop parse n cb p (pos + newSize)) (\<lambda>(ts, pos). Ok (t # ts, pos))))"

definition parseTypeSequence :: "type_parser \<Rightarrow> byte list \<Rightarrow> DWORD \<Rightarrow> DWORD \<Rightarrow> (CType CEnumerator \<times> DWORD) result" where
  "parseTypeSequence parse p cb cTypes = bindR (types_loop parse (unat cTypes) cb p 0) (\<lambda>(types, cbRead).
     Ok (Enum_Initialize types new_CEnumerator, cbRead))"

record methodSignature =
  s_callingConvention :: DWORD
  s_returnType :: CType
  s_parameterTypes :: "CType CEnumerator"
  s_genericCount :: DWORD
  s_cbRead :: DWORD

definition parseMethodSignature :: "type_parser \<Rightarrow> byte list \<Rightarrow> DWORD \<Rightarrow> methodSignature result" where
  "parseMethodSignature parse p cb = bindR (CorSigUncompressData p) (\<lambda>(cbRead, conv).
     if conv = IMAGE_CEE_CS_CALLCONV_MAX \<or> conv = IMAGE_CEE_CS_CALLCONV_FIELD \<or> conv = IMAGE_CEE_CS_CALLCONV_GENERICINST \<or>
        conv = IMAGE_CEE_CS_CALLCONV_LOCAL_SIG \<or> conv = IMAGE_CEE_CS_CALLCONV_PROPERTY
     then Fail E_UNEXPECTED
     else expect (cb > cbRead)
     (bindR (if conv AND IMAGE_CEE_CS_CALLCONV_GENERIC = IMAGE_CEE_CS_CALLCONV_GENERIC
             then bindR (CorSigUncompressData (at_pos p cbRead)) (\<lambda>(n, g). expect (cb > cbRead + n) (Ok (g, cbRead + n)))
             else Ok (0, cbRead)) (\<lambda>(genericCount, cbRead).
      bindR (CorSigUncompressData (at_pos p cbRead)) (\<lambda>(n, cParameterTypes).
      let cbRead = cbRead + n in expect (cb > cbRead)
      (bindR (parse (cb - cbRead) (at_pos p cbRead)) (\<lambda>(returnType, cbReadType).
       let cbRead = cbRead + cbReadType in expect (cb \<ge> cbRead)
       (bindR (parseTypeSequence parse (at_pos p cbRead) (cb - cbRead) cParameterTypes) (\<lambda>(parameterTypes, cbReadType).
        let cbRead = cbRead + cbReadType in expect (cb \<ge> cbRead)
        (Ok \<lparr> s_callingConvention = conv, s_returnType = returnType, s_parameterTypes = parameterTypes,
              s_genericCount = genericCount, s_cbRead = cbRead \<rparr>)))))))))"

text \<open>The custom modifiers at position \<open>pos\<close>.  A round that can read its token moves on by two bytes
  or more; one that cannot returns to where it was.  So with more fuel than bytes, running out of
  fuel is running forever.\<close>

fun modifiers_loop :: "nat \<Rightarrow> byte list \<Rightarrow> DWORD \<Rightarrow> (CType list \<times> DWORD) result" where
  "modifiers_loop 0 p pos = Diverge"
| "modifiers_loop (Suc n) p pos = bindR (byte_at p (unat pos)) (\<lambda>e.
     if e = ELEMENT_TYPE_CMOD_REQD \<or> e = ELEMENT_TYPE_CMOD_OPT then
       bindR (CorSigUncompressToken (at_pos p (pos + 1))) (\<lambda>(cb, token).
       bindR (modifiers_loop n p (pos + 1 + cb)) (\<lambda>(ms, pos). Ok (new_CType e (ModifierType token) # ms, pos)))
     else Ok ([], pos))"

text \<open>The body of \<^verbatim>\<open>FromSignature\<close>, one definition per group of cases of its switch.  \<open>e\<close> is the
  element type at the start; \<open>currentSize\<close> is 1.\<close>

definition fromToken_case :: "CorElementType \<Rightarrow> byte list \<Rightarrow> (CType \<times> DWORD) result" where
  "fromToken_case e p = bindR (CorSigUncompressToken (at_pos p 1)) (\<lambda>(n, token).
     bindR (FromToken e token) (\<lambda>t. Ok (t, 1 + n)))"

definition composite_case :: "type_parser \<Rightarrow> CorElementType \<Rightarrow> DWORD \<Rightarrow> byte list \<Rightarrow> (CType \<times> DWORD) result" where
  "composite_case parse e cb p = bindR (parse (cb - 1) (at_pos p 1)) (\<lambda>(related, newSize).
     Ok (new_CType e (CompositeType related), 1 + newSize))"

definition function_case :: "type_parser \<Rightarrow> DWORD \<Rightarrow> byte list \<Rightarrow> (CType \<times> DWORD) result" where
  "function_case parse cb p = bindR (parseMethodSignature parse (at_pos p 1) (cb - 1)) (\<lambda>s.
     bindR (drain (s_parameterTypes s)) (\<lambda>parameters.
     Ok (new_CType ELEMENT_TYPE_FNPTR (FunctionType (s_callingConvention s) (s_returnType s) parameters (s_genericCount s)),
         1 + s_cbRead s)))"

definition array_case :: "type_parser \<Rightarrow> DWORD \<Rightarrow> byte list \<Rightarrow> (CType \<times> DWORD) result" where
  "array_case parse cb p = bindR (parse (cb - 1) (at_pos p 1)) (\<lambda>(related, newSize).
     let pos = 1 + newSize in expect (cb > pos)
     (bindR (CorSigUncompressData (at_pos p pos)) (\<lambda>(n, rank). let pos = pos + n in
      bindR (CorSigUncompressData (at_pos p pos)) (\<lambda>(n, sizeCount). let pos = pos + n in
      bindR (numbers_loop (unat sizeCount) p pos) (\<lambda>(counts, pos).
      bindR (CorSigUncompressData (at_pos p pos)) (\<lambda>(n, boundsCount). let pos = pos + n in
      bindR (numbers_loop (unat boundsCount) p pos) (\<lambda>(bounds, pos).
      Ok (new_CType ELEMENT_TYPE_ARRAY (ArrayType related rank counts bounds), pos))))))))"

definition genericParameter_case :: "CorElementType \<Rightarrow> byte list \<Rightarrow> (CType \<times> DWORD) result" where
  "genericParameter_case e p = bindR (CorSigUncompressData (at_pos p 1)) (\<lambda>(n, position).
     Ok (new_CType e (GenericParameterType position), 1 + n))"

definition genericInstance_case :: "type_parser \<Rightarrow> DWORD \<Rightarrow> byte list \<Rightarrow> (CType \<times> DWORD) result" where
  "genericInstance_case parse cb p = bindR (parse (cb - 1) (at_pos p 1)) (\<lambda>(related, newSize).
     let pos = 1 + newSize in expect (cb > pos)
     (bindR (CorSigUncompressData (at_pos p pos)) (\<lambda>(n, argumentCount).
      bindR (types_loop parse (unat argumentCount) cb p (pos + n)) (\<lambda>(parameters, pos).
      Ok (new_CType ELEMENT_TYPE_GENERICINST (GenericInstance related parameters), pos)))))"

definition flag_case :: "type_parser \<Rightarrow> (CType \<Rightarrow> CType) \<Rightarrow> DWORD \<Rightarrow> byte list \<Rightarrow> (CType \<times> DWORD) result" where
  "flag_case parse setFlag cb p = bindR (parse (cb - 1) (at_pos p 1)) (\<lambda>(t, newSize). Ok (setFlag t, 1 + newSize))"

definition modifier_case :: "type_parser \<Rightarrow> CorElementType \<Rightarrow> DWORD \<Rightarrow> byte list \<Rightarrow> (CType \<times> DWORD) result" where
  "modifier_case parse e cb p = bindR (CorSigUncompressToken (at_pos p 1)) (\<lambda>(n, token).
     bindR (modifiers_loop (Suc (length p)) p (1 + n)) (\<lambda>(ms, pos).
     bindR (parse (cb - pos) (at_pos p pos)) (\<lambda>(t, newSize).
     Ok (SetModifers (new_CType e (ModifierType token) # ms) t, pos + newSize))))"

definition fromSignature_body :: "type_parser \<Rightarrow> DWORD \<Rightarrow> byte list \<Rightarrow> (CType \<times> DWORD) result" where
  "fromSignature_body parse cb p = (if cb = 0 then Fail E_INVALIDARG else
     bindR (byte_at p 0) (\<lambda>e.
       if e \<in> set simpleElements \<or> e = ELEMENT_TYPE_TYPEDBYREF then Ok (new_CType e SimpleType, 1)
       else if e = ELEMENT_TYPE_CLASS \<or> e = ELEMENT_TYPE_VALUETYPE then fromToken_case e p
       else if e = ELEMENT_TYPE_PTR \<or> e = ELEMENT_TYPE_BYREF \<or> e = ELEMENT_TYPE_SZARRAY then composite_case parse e cb p
       else if e = ELEMENT_TYPE_FNPTR then function_case parse cb p
       else if e = ELEMENT_TYPE_ARRAY then array_case parse cb p
       else if e = ELEMENT_TYPE_MVAR \<or> e = ELEMENT_TYPE_VAR then genericParameter_case e p
       else if e = ELEMENT_TYPE_GENERICINST then genericInstance_case parse cb p
       else if e = ELEMENT_TYPE_PINNED then flag_case parse (SetIsPinned True) cb p
       else if e = ELEMENT_TYPE_SENTINEL then flag_case parse (SetIsSentinel True) cb p
       else if e = ELEMENT_TYPE_CMOD_REQD \<or> e = ELEMENT_TYPE_CMOD_OPT then modifier_case parse e cb p
       else Fail E_NOTIMPL))"

primrec FromSignature_f :: "nat \<Rightarrow> type_parser" where
  "FromSignature_f 0 = (\<lambda>cb p. Diverge)"
| "FromSignature_f (Suc n) = fromSignature_body (FromSignature_f n)"

definition FromSignature :: type_parser where
  "FromSignature cb p = FromSignature_f (Suc (length p)) cb p"

definition ParseTypeSequence :: "byte list \<Rightarrow> DWORD \<Rightarrow> DWORD \<Rightarrow> (CType CEnumerator \<times> DWORD) result" where
  "ParseTypeSequence = parseTypeSequence FromSignature"

definition ParseMethodSignature :: "byte list \<Rightarrow> DWORD \<Rightarrow> methodSignature result" where
  "ParseMethodSignature = parseMethodSignature FromSignature"

definition ParseLocalVarSignature :: "byte list \<Rightarrow> DWORD \<Rightarrow> (DWORD \<times> CType CEnumerator \<times> DWORD) result" where
  "ParseLocalVarSignature p cb = bindR (CorSigUncompressData p) (\<lambda>(cbRead, conv).
     if conv \<noteq> IMAGE_CEE_CS_CALLCONV_LOCAL_SIG then Fail E_UNEXPECTED
     else expect (cb > cbRead)
     (bindR (CorSigUncompressData (at_pos p cbRead)) (\<lambda>(n, cLocals).
      let cbRead = cbRead + n in expect (cb \<ge> cbRead)
      (bindR (ParseTypeSequence (at_pos p cbRead) (cb - cbRead) cLocals) (\<lambda>(types, cbReadTypes).
       let cbRead = cbRead + cbReadTypes in expect (cb \<ge> cbRead)
       (Ok (conv, types, cbRead)))))))"

end
