(* ===== verification/MethodSignature.thy ===== *)
theory MethodSignature
  imports World TypeCreator
begin

text \<open>
  The signature of a method (\<^verbatim>\<open>InitializeMethodSignature\<close>, \<^verbatim>\<open>GetReturnType\<close>, \<^verbatim>\<open>GetParameters\<close> and
  \<^verbatim>\<open>GetCorSignature\<close> of \<^verbatim>\<open>MethodInfo.cpp\<close>).  The code parses the blob on the first call and keeps the return
  type and the parameters, and the blob does not change afterwards; a failing parse keeps nothing.  So every call
  yields what parsing the blob yields.
\<close>

definition InitializeMethodSignature :: "methodinfo \<Rightarrow> (CType \<times> CType list) result" where
  "InitializeMethodSignature mi = bindR (m_signature mi) (\<lambda>sig.
     bindR (ParseMethodSignature sig (of_nat (length sig))) (\<lambda>s.
     bindR (drain (s_parameterTypes s)) (\<lambda>parameters.
     Ok (s_returnType s, parameters))))"

definition GetReturnType :: "methodinfo \<Rightarrow> CType result" where
  "GetReturnType mi = bindR (InitializeMethodSignature mi) (\<lambda>(returnType, parameters). Ok returnType)"

definition GetParameters :: "methodinfo \<Rightarrow> CType CEnumerator result" where
  "GetParameters mi = bindR (InitializeMethodSignature mi) (\<lambda>(returnType, parameters).
     Ok (Enum_Initialize parameters new_CEnumerator))"

text \<open>The result is the size, and the buffer if there is one; a buffer too small is an error.\<close>

definition GetCorSignature :: "nat \<Rightarrow> byte list option \<Rightarrow> methodinfo \<Rightarrow> (DWORD \<times> byte list option) result" where
  "GetCorSignature cbBuffer pCorSignature mi = bindR (InitializeMethodSignature mi) (\<lambda>_.
     bindR (m_signature mi) (\<lambda>sig.
     case pCorSignature of
       None \<Rightarrow> Ok (of_nat (length sig), None)
     | Some buf \<Rightarrow> if cbBuffer \<ge> length sig then bindR (copyBytes buf 0 sig (length sig)) (\<lambda>buf. Ok (of_nat (length sig), Some buf))
         else Fail E_FAIL))"

text \<open>The element type of the return type, as the stack impact of a return needs it.\<close>

definition returnElementType :: "methodinfo \<Rightarrow> CorElementType result" where
  "returnElementType mi = bindR (GetReturnType mi) (\<lambda>t. Ok (m_corType t))"

lemmas returnElementType_defs = returnElementType_def GetReturnType_def InitializeMethodSignature_def

end
