(* ===== verification/MaxStack.thy ===== *)
theory MaxStack
  imports GraphEdits MethodSignature
begin

text \<open>
  The stack impact of an instruction (\<^verbatim>\<open>CInstruction::GetStackImpact\<close>), the signature of a call
  (\<^verbatim>\<open>GetSignatureInfoFromCallToken\<close>) and the heuristic of
  \<^verbatim>\<open>CInstructionGraph::CalculateMaxStack\<close>.

  The metadata of the module comes from the runtime's \<^verbatim>\<open>IMetaDataImport\<close>; it is a parameter of the
  definitions.  Its functions return the signature blob for a token.  An \<^verbatim>\<open>int\<close> impact is kept as
  the 32 bits of its two's complement, which is how it is added to the unsigned depth.
\<close>

section \<open>The signature of a call\<close>

record metadata =
  GetMethodSpecProps :: "mdToken \<Rightarrow> mdToken result"
  GetMemberRefProps :: "mdToken \<Rightarrow> byte list result"
  GetMemberProps :: "mdToken \<Rightarrow> byte list result"
  GetSigFromToken :: "mdToken \<Rightarrow> byte list result"

record callSignature =
  pSig :: "byte list"
  callConv :: DWORD
  parameterCount :: DWORD
  retTypeElementType :: DWORD


text \<open>\<^verbatim>\<open>pSig += CorSigUncompressData(pSig, &value)\<close>.  On bad data the pointer moves by
  \<^verbatim>\<open>(ULONG)-1\<close>, outside the blob.\<close>

definition readSig :: "byte list \<Rightarrow> (DWORD \<times> byte list) result" where
  "readSig sig = bindR (CorSigUncompressData sig) (\<lambda>(cb, value). Ok (value, drop (unat cb) sig))"

text \<open>The signature blob for a call token; a token of another table leaves the pointer null.\<close>

definition callSignatureBlob :: "metadata \<Rightarrow> mdToken \<Rightarrow> byte list option result" where
  "callSignatureBlob md callToken =
     bindR (if TypeFromToken callToken = mdtMethodSpec then GetMethodSpecProps md callToken else Ok callToken) (\<lambda>callToken.
     if TypeFromToken callToken = mdtMemberRef then bindR (GetMemberRefProps md callToken) (\<lambda>s. Ok (Some s))
     else if TypeFromToken callToken = mdtMethodDef then bindR (GetMemberProps md callToken) (\<lambda>s. Ok (Some s))
     else if TypeFromToken callToken = mdtSignature then bindR (GetSigFromToken md callToken) (\<lambda>s. Ok (Some s))
     else Ok None)"

definition parseCallSignature :: "byte list \<Rightarrow> callSignature result" where
  "parseCallSignature sig =
     bindR (readSig sig) (\<lambda>(callConv, p).
     if callConv = IMAGE_CEE_CS_CALLCONV_MAX \<or> callConv = IMAGE_CEE_CS_CALLCONV_FIELD then Fail E_UNEXPECTED
     else
     bindR (if IsFlagSet callConv IMAGE_CEE_CS_CALLCONV_GENERIC
            then bindR (readSig p) (\<lambda>(dwGenericParameterCount, p). Ok p) else Ok p) (\<lambda>p.
     bindR (readSig p) (\<lambda>(parameterCount, p).
     bindR (readSig p) (\<lambda>(retTypeElementType, p).
       Ok \<lparr> pSig = sig, callConv = callConv, parameterCount = parameterCount,
         retTypeElementType = retTypeElementType \<rparr>))))"

definition GetSignatureInfoFromCallToken :: "metadata result \<Rightarrow> instr \<Rightarrow> callSignature result" where
  "GetSignatureInfoFromCallToken metaDataImport i =
     bindR (GetOperandType i) (\<lambda>operandType.
     if operandType \<noteq> ILOperandType_Token then Fail E_FAIL
     else
     bindR (GetOperandValue 4 i) (\<lambda>v.
     bindR metaDataImport (\<lambda>md.
     bindR (callSignatureBlob md (le_word v)) (\<lambda>s.
     bindR (deref s) parseCallSignature))))"

section \<open>Stack impact\<close>

definition pushImpact :: "metadata result \<Rightarrow> instr \<Rightarrow> DWORD \<Rightarrow> DWORD result" where
  "pushImpact md i pushSlots =
     (if pushSlots = of_int VarPush then
        bindR (GetSignatureInfoFromCallToken md i) (\<lambda>s.
          Ok (if retTypeElementType s \<noteq> ELEMENT_TYPE_VOID then 1 else 0))
      else Ok pushSlots)"

text \<open>\<open>returnType\<close> is the element type of \<^verbatim>\<open>GetReturnType\<close> of the method that holds the code.\<close>

definition popImpact :: "metadata result \<Rightarrow> DWORD result \<Rightarrow> instr \<Rightarrow> DWORD \<Rightarrow> DWORD result" where
  "popImpact md returnType i popSlots =
     (if popSlots = of_int VarPop then
        (if m_opcode i \<in> {Cee_Call, Cee_Calli, Cee_Callvirt, Cee_Newobj} then
           bindR (GetSignatureInfoFromCallToken md i) (\<lambda>s.
             Ok (parameterCount s + (if IsFlagSet (callConv s) IMAGE_CEE_CS_CALLCONV_HASTHIS \<and> m_opcode i \<noteq> Cee_Newobj
                                     then 1 else 0)))
         else if m_opcode i = Cee_Ret then
           bindR returnType (\<lambda>t. Ok (if t \<noteq> ELEMENT_TYPE_VOID then 1 else 0))
         else Ok 0)
      else Ok popSlots)"

definition GetStackImpact :: "metadata result \<Rightarrow> mid option \<Rightarrow> addr \<Rightarrow> DWORD \<Rightarrow> (world, DWORD) op" where
  "GetStackImpact md pMethodInfo a currStackDepth = IfNullRetPointer pMethodInfo (\<lambda>m.
     IfFailRet (get_instr a) (\<lambda>i.
     if m_opcode i = Cee_Leave \<or> m_opcode i = Cee_Leave_S then ret (- 1 * currStackDepth)
     else
     IfFailRet (liftR (opcodeInfo (m_opcode i))) (\<lambda>e.
     IfFailRet (liftR (pushImpact md i (m_pushSlots e))) (\<lambda>push.
     IfFailRet (gets (\<lambda>w. bindR (deref (w_methods w m)) returnElementType)) (\<lambda>returnType.
     IfFailRet (liftR (popImpact md returnType i (m_popSlots e))) (\<lambda>pop.
       ret (push - pop)))))))"

section \<open>The maximal depth\<close>

text \<open>The \<^verbatim>\<open>unordered_map\<close> from offsets to depths as an association list.\<close>

type_synonym depthMap = "(DWORD \<times> DWORD) list"

fun insertOrUpdateStackDepthMap :: "depthMap \<Rightarrow> DWORD \<Rightarrow> DWORD \<Rightarrow> depthMap" where
  "insertOrUpdateStackDepthMap [] offset stackDepth = [(offset, stackDepth)]"
| "insertOrUpdateStackDepthMap ((k, d) # m) offset stackDepth =
     (if k = offset then (k, if stackDepth > d then stackDepth else d) # m
      else (k, d) # insertOrUpdateStackDepthMap m offset stackDepth)"

fun handlerStart_loop :: "addr \<Rightarrow> caddr list \<Rightarrow> (world, bool) op" where
  "handlerStart_loop a [] = ret False"
| "handlerStart_loop a (c # cs) = IfFailRet (GetFlags c) (\<lambda>exceptionFlags.
     IfFailRet (if exceptionFlags = COR_ILEXCEPTION_CLAUSE_NONE \<or> exceptionFlags = COR_ILEXCEPTION_CLAUSE_FILTER
                then GetHandlerFirstInstruction c else ret None) (\<lambda>pCurrHandlerInstr.
     if pCurrHandlerInstr = Some a then ret True
     else
     IfFailRet (if exceptionFlags = COR_ILEXCEPTION_CLAUSE_FILTER
                then GetFilterFirstInstruction c else ret None) (\<lambda>pCurrFilterInstr.
     if pCurrFilterInstr = Some a then ret True else handlerStart_loop a cs)))"

definition IsFirstInstructionInCatchOrFilter :: "gid \<Rightarrow> addr \<Rightarrow> (world, bool) op" where
  "IsFirstInstructionInCatchOrFilter g a = IfFailRet (get_graph g) (\<lambda>gr.
     IfFailRet (liftR (deref (m_pMethodInfo gr))) (\<lambda>m.
     IfFailRet (GetExceptionSection m) (\<lambda>_.
     IfFailRet (get_clauses m) (\<lambda>cs. handlerStart_loop a cs))))"

definition depthAt :: "addr \<Rightarrow> depthMap \<Rightarrow> DWORD \<Rightarrow> (world, DWORD) op" where
  "depthAt a m stackDepth =
     (if m = [] then ret stackDepth
      else IfFailRet (GetOffset a) (\<lambda>dwOffset.
        ret (case map_of m dwOffset of None \<Rightarrow> stackDepth | Some d \<Rightarrow> if d > stackDepth then d else stackDepth)))"

definition recordBranch :: "addr \<Rightarrow> DWORD \<Rightarrow> depthMap \<Rightarrow> (world, depthMap) op" where
  "recordBranch a stackDepth m = IfFailRet (get_instr a) (\<lambda>i.
     IfFailRet (liftR (GetIsBranchInternal i)) (\<lambda>isBranch.
       if isBranch then IfFailRet (Branch_GetTargetOffset a) (\<lambda>dwTargetOffset.
         ret (insertOrUpdateStackDepthMap m dwTargetOffset stackDepth))
       else ret m))"

fun recordSwitch_loop :: "addr \<Rightarrow> DWORD \<Rightarrow> nat list \<Rightarrow> depthMap \<Rightarrow> (world, depthMap) op" where
  "recordSwitch_loop a stackDepth [] m = ret m"
| "recordSwitch_loop a stackDepth (k # ks) m = IfFailRet (Switch_GetBranchOffset a k) (\<lambda>dwTargetOffset.
     recordSwitch_loop a stackDepth ks (insertOrUpdateStackDepthMap m dwTargetOffset stackDepth))"

definition recordSwitch :: "addr \<Rightarrow> DWORD \<Rightarrow> depthMap \<Rightarrow> (world, depthMap) op" where
  "recordSwitch a stackDepth m = IfFailRet (get_instr a) (\<lambda>i.
     if GetIsSwitchInternal i then IfFailRet (Switch_GetBranchCount a) (\<lambda>branchCount.
       recordSwitch_loop a stackDepth [0..<unat branchCount] m)
     else ret m)"

fun maxStack_loop :: "nat \<Rightarrow> metadata result \<Rightarrow> gid \<Rightarrow> mid option \<Rightarrow> addr option \<Rightarrow> DWORD \<Rightarrow> DWORD \<Rightarrow> depthMap
    \<Rightarrow> (world, DWORD) op" where
  "maxStack_loop 0 md g pMethodInfo p maxStackDepth stackDepth m = diverge"
| "maxStack_loop (Suc n) md g pMethodInfo p maxStackDepth stackDepth m = (case p of
     None \<Rightarrow> ret maxStackDepth
   | Some a \<Rightarrow>
       IfFailRet (get_instr a) (\<lambda>i.
       IfFailRet (depthAt a m stackDepth) (\<lambda>stackDepth.
       IfFailRet (IsFirstInstructionInCatchOrFilter g a) (\<lambda>isFirst.
       let stackDepth = (if isFirst then 1 else stackDepth);
           maxStackDepth = (if isFirst \<and> maxStackDepth < 1 then 1 else maxStackDepth) in
       IfFailRet (GetStackImpact md pMethodInfo a stackDepth) (\<lambda>stackImpact.
       let stackDepth = stackDepth + stackImpact in
       IfFailRet (recordBranch a stackDepth m) (\<lambda>m.
       IfFailRet (recordSwitch a stackDepth m) (\<lambda>m.
         maxStack_loop n md g pMethodInfo (m_pNextInstruction i)
           (if stackDepth > maxStackDepth then stackDepth else maxStackDepth) stackDepth m)))))))"

definition CalculateMaxStack :: "metadata result \<Rightarrow> gid \<Rightarrow> (world, DWORD) op" where
  "CalculateMaxStack md g w = IfFailRet (get_graph g) (\<lambda>gr.
     maxStack_loop (walk_fuel w) md g (m_pMethodInfo gr) (m_pFirstInstruction gr) 0 0 []) w"

end
