(* ===== verification/StackPass.thy ===== *)
theory StackPass
  imports ExceptionClaims MaxStack
begin

text \<open>
  \<^verbatim>\<open>CalculateMaxStack\<close> computes a pass over the list of instructions: on a well-formed body the
  loop with its lookups, lazily refreshed offsets and exception clauses ends and returns what a
  function over the list returns.
\<close>

section \<open>The reference pass\<close>

abbreviation record_all :: "(addr \<Rightarrow> DWORD) \<Rightarrow> DWORD \<Rightarrow> addr option list \<Rightarrow> depthMap \<Rightarrow> depthMap" where
  "record_all off d \<equiv> fold (\<lambda>t m. insertOrUpdateStackDepthMap m (off (the t)) d)"

text \<open>The pass of \<^const>\<open>CalculateMaxStack\<close> over a list, with the offsets, the handler starts, the stack
  impacts and the targets of the instructions given.\<close>

fun depth_pass :: "(addr \<Rightarrow> DWORD) \<Rightarrow> (addr \<Rightarrow> bool) \<Rightarrow> (addr \<Rightarrow> DWORD \<Rightarrow> DWORD) \<Rightarrow> (addr \<Rightarrow> addr option list)
    \<Rightarrow> addr list \<Rightarrow> DWORD \<Rightarrow> DWORD \<Rightarrow> depthMap \<Rightarrow> DWORD" where
  "depth_pass off hs imp tgt [] mx d m = mx"
| "depth_pass off hs imp tgt (a # as) mx d m =
     (let d0 = (case map_of m (off a) of None \<Rightarrow> d | Some d' \<Rightarrow> if d' > d then d' else d);
          d1 = (if hs a then 1 else d0); mx1 = (if hs a \<and> mx < 1 then 1 else mx); d2 = d1 + imp a d1 in
      depth_pass off hs imp tgt as (if d2 > mx1 then d2 else mx1) d2
        (record_all off d2 (tgt a) m))"

definition handler_start :: "world \<Rightarrow> gid \<Rightarrow> addr \<Rightarrow> bool" where
  "handler_start w g a \<longleftrightarrow> list_ex (\<lambda>c. case w_clauses w c of None \<Rightarrow> False | Some cl \<Rightarrow>
     (m_clauseFlags cl = COR_ILEXCEPTION_CLAUSE_NONE \<or> m_clauseFlags cl = COR_ILEXCEPTION_CLAUSE_FILTER) \<and>
       m_pHandlerFirstInstruction cl = Some a \<or>
     m_clauseFlags cl = COR_ILEXCEPTION_CLAUSE_FILTER \<and> m_pFilterFirstInstruction cl = Some a) (clauses_of w g)"

definition is_leave :: "world \<Rightarrow> addr \<Rightarrow> bool" where
  "is_leave w a \<longleftrightarrow> opcode_at w a = Some Cee_Leave \<or> opcode_at w a = Some Cee_Leave_S"

text \<open>The net effect of an instruction that does not empty the stack: slots pushed less slots popped;
  \<^const>\<open>None\<close> when the signature of a call cannot be had.\<close>

definition net_effect :: "metadata result \<Rightarrow> world \<Rightarrow> mid \<Rightarrow> addr \<Rightarrow> int option" where
  "net_effect md w m a = (case w_instrs w a of None \<Rightarrow> None | Some i \<Rightarrow>
     (case bindR (opcodeInfo (m_opcode i)) (\<lambda>e. bindR (pushImpact md i (m_pushSlots e)) (\<lambda>push.
         bindR (popImpact md (bindR (deref (w_methods w m)) returnElementType) i (m_popSlots e)) (\<lambda>pop.
           Ok (uint push - uint pop)))) of Ok n \<Rightarrow> Some n | _ \<Rightarrow> None))"

definition impact_of :: "metadata result \<Rightarrow> world \<Rightarrow> mid \<Rightarrow> addr \<Rightarrow> DWORD \<Rightarrow> DWORD" where
  "impact_of md w m a d = (if is_leave w a then - d else of_int (the (net_effect md w m a)))"

section \<open>The loop runs the pass\<close>

lemma handlerStart_exec:
  assumes "list_all (\<lambda>c. w_clauses w c \<noteq> None) cs"
  shows "handlerStart_loop a cs w = (Ok (list_ex (\<lambda>c. case w_clauses w c of None \<Rightarrow> False | Some cl \<Rightarrow>
     (m_clauseFlags cl = COR_ILEXCEPTION_CLAUSE_NONE \<or> m_clauseFlags cl = COR_ILEXCEPTION_CLAUSE_FILTER) \<and>
       m_pHandlerFirstInstruction cl = Some a \<or>
     m_clauseFlags cl = COR_ILEXCEPTION_CLAUSE_FILTER \<and> m_pFilterFirstInstruction cl = Some a) cs), w)"
  using assms
proof (induction cs)
  case (Cons c cs)
  then obtain cl where "w_clauses w c = Some cl" by auto
  with Cons show ?case
    by (auto simp: GetFlags_def GetHandlerFirstInstruction_def GetFilterFirstInstruction_def get_clause_def)
qed simp

lemma IsFirst_exec:
  assumes "section_ok w g" and "w_graphs w g = Some gr" and "m_pMethodInfo gr = Some m"
  shows "IsFirstInstructionInCatchOrFilter g a w = (Ok (handler_start w g a), w)"
  using assms(1,2)
proof (cases rule: section_okE)
  case (2 m' mi cs)
  with assms show ?thesis
    by (simp add: IsFirstInstructionInCatchOrFilter_def GetExceptionSection_exec get_clauses_def get_method_def
      get_graph_def handler_start_def handlerStart_exec)
qed (use assms in simp)

lemma GetStackImpact_exec:
  assumes "w_instrs w a = Some i" and "is_leave w a \<or> net_effect md w m a = Some n"
  shows "GetStackImpact md (Some m) a d w = (Ok (impact_of md w m a d), w)"
proof (cases "is_leave w a")
  case True
  with assms(1) show ?thesis
    by (auto simp: GetStackImpact_def get_instr_def is_leave_def opcode_at_def impact_of_def IfNullRetPointer_def)
next
  case False
  then have n: "net_effect md w m a = Some n" using assms(2) by simp
  then obtain e push pop where "opcodeInfo (m_opcode i) = Ok e" "pushImpact md i (m_pushSlots e) = Ok push"
    "popImpact md (bindR (deref (w_methods w m)) returnElementType) i (m_popSlots e) = Ok pop" "n = uint push - uint pop"
    using assms(1) by (auto simp: net_effect_def bindR_Ok_iff split: result.splits option.splits)
  with assms(1) False n show ?thesis
    by (auto simp: GetStackImpact_def get_instr_def is_leave_def opcode_at_def impact_of_def IfNullRetPointer_def gets_def)
qed


text \<open>What the pass looks at does not depend on the recorded offsets.\<close>

lemma impact_code:
  assumes "code_of j = code_of i"
  shows "pushImpact md j = pushImpact md i" "popImpact md r j = popImpact md r i"
proof -
  have "GetOperandType j = GetOperandType i" "GetOperandValue 4 j = GetOperandValue 4 i"
    by (simp_all only: GetOperandType_def GetOperandValue_def code_of_fields(1,2) [OF assms])
  then have "GetSignatureInfoFromCallToken md j = GetSignatureInfoFromCallToken md i"
    by (simp only: GetSignatureInfoFromCallToken_def)
  then show "pushImpact md j = pushImpact md i" "popImpact md r j = popImpact md r i"
    by (simp_all add: pushImpact_def popImpact_def code_of_fields [OF assms] fun_eq_iff)
qed

lemma refreshed_views [simp]:
  "targets_at (refreshed g xs w) = targets_at w" "opcode_at (refreshed g xs w) = opcode_at w"
  "clauses_of (refreshed g xs w) = clauses_of w" "bytes_at (refreshed g xs w) = bytes_at w"
  "total_bytes (refreshed g xs w) ys = total_bytes w ys"
  using keeps_views [OF refreshed_keeps [of w g xs]] by (simp_all add: total_bytes_def)

lemma keeps_pass:
  assumes "keeps w w'"
  shows "handler_start w' h = handler_start w h" "is_leave w' = is_leave w"
    "net_effect md w' m = net_effect md w m" "impact_of md w' m = impact_of md w m"
proof -
  have k: "w_clauses w' = w_clauses w" "w_methods w' = w_methods w" "\<And>a. map_option code_of (w_instrs w' a) = map_option code_of (w_instrs w a)"
    using assms by (simp_all add: keeps_def)
  show "handler_start w' h = handler_start w h" and l: "is_leave w' = is_leave w"
    using k(1) keeps_views [OF assms] by (simp_all add: handler_start_def is_leave_def fun_eq_iff)
  show n: "net_effect md w' m = net_effect md w m"
  proof
    fix a
    show "net_effect md w' m a = net_effect md w m a"
    proof (cases "w_instrs w a")
      case None
      then have "w_instrs w' a = None" using k(3) [of a] by simp
      with None show ?thesis by (simp add: net_effect_def)
    next
      case (Some i)
      then obtain j where "w_instrs w' a = Some j" "code_of j = code_of i" by (rule keeps_instr [OF assms])
      with Some show ?thesis using code_of_fields(1) [of j i] impact_code [of j i] k(2) by (simp add: net_effect_def)
    qed
  qed
  then show "impact_of md w' m = impact_of md w m" by (simp add: impact_of_def l fun_eq_iff)
qed

lemma pass_refreshed [simp]:
  "handler_start (refreshed g xs w) h = handler_start w h" "is_leave (refreshed g xs w) = is_leave w"
  "net_effect md (refreshed g xs w) m = net_effect md w m" "impact_of md (refreshed g xs w) m = impact_of md w m"
  by (rule keeps_pass [OF refreshed_keeps])+

definition pass_ready :: "metadata result \<Rightarrow> world \<Rightarrow> gid \<Rightarrow> mid \<Rightarrow> addr list \<Rightarrow> bool" where
  "pass_ready md w g m xs \<longleftrightarrow> graph_inv w g xs \<and> section_ok w g \<and> encodable w xs \<and>
     (case w_graphs w g of None \<Rightarrow> False | Some gr \<Rightarrow> m_pMethodInfo gr = Some m) \<and>
     list_all (\<lambda>a. is_leave w a \<or> net_effect md w m a \<noteq> None) xs"

lemma pass_ready_refreshed:
  assumes "pass_ready md w g m xs"
  shows "pass_ready md (refreshed g xs w) g m xs"
proof -
  obtain gr where gr: "w_graphs w g = Some gr" "m_pMethodInfo gr = Some m"
    using assms by (auto simp: pass_ready_def split: option.splits)
  have "section_ok (refreshed g xs w) g" using assms by (simp add: pass_ready_def section_keeps [OF refreshed_keeps])
  moreover have "encodable (refreshed g xs w) xs"
    using assms by (simp add: pass_ready_def refreshed_def)
  moreover have "case w_graphs (refreshed g xs w) g of None \<Rightarrow> False | Some gr \<Rightarrow> m_pMethodInfo gr = Some m"
    using gr by (simp add: refreshed_def set_fresh_def)
  ultimately show ?thesis using assms graph_inv_refreshed [of w g xs] by (simp add: pass_ready_def)
qed

lemma fold_targets:
  assumes "graph_inv w g xs" and "w_instrs w a = Some i" and "m_class i = Switch ds ts" and "list_all (\<lambda>t. t \<in> Some ` set xs) ts"
    and "k \<le> length ts"
  shows "\<exists>w'. w' \<in> {w, refreshed g xs w} \<and> recordSwitch_loop a d [k..<length ts] m w =
    (Ok (record_all (layout w 0 xs) d (drop k ts) m), w')"
  using assms
proof (induction "length ts - k" arbitrary: k m w i)
  case (Suc n)
  let ?w = "refreshed g xs w"
  have k: "k < length ts" using Suc.hyps(2) by simp
  obtain t where t: "ts ! k = Some t" "t \<in> set xs" using Suc.prems(4) k by (auto simp: list_all_length)
  have o: "Switch_GetBranchOffset a k w = (Ok (layout w 0 xs t), ?w)"
    using Suc.prems(2,3) k t GetOffset_list [OF Suc.prems(1) t(2)] by (simp add: Switch_GetBranchOffset_def get_instr_def)
  obtain j where j: "w_instrs ?w a = Some j" "code_of j = code_of i" using keeps_instr [OF refreshed_keeps Suc.prems(2)] .
  have "m_class j = Switch ds ts" using code_of_fields(2) [OF j(2)] Suc.prems(3) by simp
  then obtain w' where "w' \<in> {?w, refreshed g xs ?w}" "recordSwitch_loop a d [Suc k..<length ts] (insertOrUpdateStackDepthMap m (layout w 0 xs t) d) ?w =
      (Ok (record_all (layout w 0 xs) d (drop (Suc k) ts) (insertOrUpdateStackDepthMap m (layout w 0 xs t) d)), w')"
    using Suc.hyps(1) [of "Suc k" ?w j "insertOrUpdateStackDepthMap m (layout w 0 xs t) d"] Suc.hyps(2) j(1) k Suc.prems(4)
      graph_inv_refreshed [OF Suc.prems(1)] by auto
  with o k t show ?case by (auto simp: upt_conv_Cons refreshed_idem Cons_nth_drop_Suc [symmetric])
qed simp

lemma record_exec:
  assumes "graph_inv w g xs" and "encodable w xs" and "a \<in> set xs"
  shows "\<exists>w'. w' \<in> {w, refreshed g xs w} \<and> IfFailRet (recordBranch a d m) (recordSwitch a d) w =
    (Ok (record_all (layout w 0 xs) d (targets_at w a) m), w')"
proof (rule encodable_node [OF graph_inv_list [OF assms(1)] assms(2,3)])
  fix i e
  assume i: "w_instrs w a = Some i" "wf_instr i" "targets_in xs i" "opcodeInfo (m_opcode i) = Ok e" "bytes_at w a = byte_size i"
  let ?w = "refreshed g xs w"
  have s: "GetIsSwitchInternal i \<longleftrightarrow> (\<exists>ds ts. m_class i = Switch ds ts)" using i(2) by (rule switch_class)
  have b: "GetIsBranchInternal i = Ok (\<exists>p t o'. m_class i = Branch p t o')"
    using i(2,4) opcodeInfo_shape [OF i(4)] switch_class [OF i(2)]
    by (cases "m_class i") (auto simp: GetIsBranchInternal_def GetIsSwitchInternal_def wf_instr_def wf_class_def row_shape_def split: if_splits)
  have "byte_size i \<le> total_bytes w xs"
    unfolding i(5) [symmetric] total_bytes_def by (rule member_le_sum_list) (use assms(3) in auto)
  then have le: "byte_size i < 2 ^ 32" using assms(2) by (simp add: encodable_def)
  show ?thesis
  proof (cases "m_class i")
    case (Branch p t o')
    then obtain t' where t': "t = Some t'" "t' \<in> set xs" using i(3) by (auto simp: targets_in_def)
    obtain j where j: "w_instrs ?w a = Some j" "code_of j = code_of i" using keeps_instr [OF refreshed_keeps i(1)] .
    have "\<not> GetIsSwitchInternal j" using s Branch code_of_fields(1) [OF j(2)] by (simp add: GetIsSwitchInternal_def)
    with Branch i(1) b t' j(1) GetOffset_list [OF assms(1) t'(2)] show ?thesis
      by (auto simp: recordBranch_def recordSwitch_def get_instr_def Branch_GetTargetOffset_def targets_at_def targets_of_def)
  next
    case (Switch ds ts)
    have "unat (of_nat (length ts) :: DWORD) = length ts"
      using le Switch i(4) by (intro unat_of_nat_small) (simp add: byte_size_def)
    moreover have "list_all (\<lambda>t. t \<in> Some ` set xs) ts" using i(3) Switch by (simp add: targets_in_def)
    ultimately show ?thesis
      using Switch i(1) b s fold_targets [OF assms(1) i(1) Switch, of 0 d m]
      by (auto simp: recordBranch_def recordSwitch_def get_instr_def Switch_GetBranchCount_def Switch_targets_def targets_at_def targets_of_def)
  qed (use i(1) b s in \<open>simp_all add: recordBranch_def recordSwitch_def get_instr_def targets_at_def targets_of_def\<close>)
qed

lemma depthAt_exec:
  assumes "graph_inv w g xs" and "a \<in> set xs"
  shows "\<exists>w'. w' \<in> {w, refreshed g xs w} \<and> depthAt a m d w =
    (Ok (case map_of m (layout w 0 xs a) of None \<Rightarrow> d | Some d' \<Rightarrow> if d' > d then d' else d), w')"
  using GetOffset_list [OF assms] by (cases "m = []") (auto simp: depthAt_def)


text \<open>One iteration.\<close>

lemma maxStack_step:
  assumes "pass_ready md w g m xs" and "xs = ps @ a # ys"
    and d0: "d0 = (case map_of dm (layout w 0 xs a) of None \<Rightarrow> d | Some d' \<Rightarrow> if d' > d then d' else d)"
    and d1: "d1 = (if handler_start w g a then 1 else d0)" and d2: "d2 = d1 + impact_of md w m a d1"
    and mx1: "mx1 = (if handler_start w g a \<and> mx < 1 then 1 else mx)"
  shows "\<exists>u. u \<in> {w, refreshed g xs w} \<and> maxStack_loop (Suc n) md g (Some m) (Some a) mx d dm w =
    maxStack_loop n md g (Some m) (nxt ys None) (if d2 > mx1 then d2 else mx1) d2
      (record_all (layout w 0 xs) d2 (targets_at w a) dm) u"
proof -
  let ?R = "refreshed g xs"
  have gi: "graph_inv w g xs" using assms(1) by (simp add: pass_ready_def)
  have ax: "a \<in> set xs" using assms(2) by simp
  obtain i where i: "w_instrs w a = Some i" using graph_list_node [OF graph_inv_list [OF gi] ax] by blast
  have nx: "m_pNextInstruction i = nxt ys None" using next_in_list(1) [OF _ i] graph_inv_list [OF gi] assms(2) by simp
  obtain w1 where w1: "w1 \<in> {w, ?R w}" "depthAt a dm d w = (Ok d0, w1)"
    using depthAt_exec [OF gi ax, of dm d] unfolding d0 by auto
  have r: "pass_ready md w1 g m xs" and v: "layout w1 0 xs = layout w 0 xs" "handler_start w1 g = handler_start w g"
    "impact_of md w1 m = impact_of md w m" "targets_at w1 = targets_at w" "?R w1 = ?R w"
    using w1(1) assms(1) pass_ready_refreshed [OF assms(1)] refreshed_idem [of g xs w] by (auto simp: fun_eq_iff)
  obtain gr where "w_graphs w1 g = Some gr" "m_pMethodInfo gr = Some m" "section_ok w1 g"
    using r by (auto simp: pass_ready_def split: option.splits)
  then have f: "IsFirstInstructionInCatchOrFilter g a w1 = (Ok (handler_start w g a), w1)"
    using IsFirst_exec v(2) by simp
  have gi1: "graph_inv w1 g xs" "encodable w1 xs" using r by (auto simp: pass_ready_def)
  obtain i1 where "w_instrs w1 a = Some i1" using graph_list_node [OF graph_inv_list [OF gi1(1)] ax] by blast
  moreover have "is_leave w1 a \<or> net_effect md w1 m a = Some (the (net_effect md w1 m a))"
    using r ax by (auto simp: pass_ready_def list_all_iff)
  ultimately have s: "GetStackImpact md (Some m) a x w1 = (Ok (impact_of md w m a x), w1)" for x
    using GetStackImpact_exec [of w1 a i1 md m "the (net_effect md w1 m a)" x] v(3) by simp
  obtain w2 where w2: "w2 \<in> {w1, ?R w1}" "IfFailRet (recordBranch a d2 dm) (recordSwitch a d2) w1 =
      (Ok (record_all (layout w 0 xs) d2 (targets_at w a) dm), w2)"
    using record_exec [OF gi1 ax, of d2 dm] by (auto simp: v)
  have "maxStack_loop (Suc n) md g (Some m) (Some a) mx d dm w =
      IfFailRet (IfFailRet (recordBranch a d2 dm) (recordSwitch a d2)) (\<lambda>m'. maxStack_loop n md g (Some m) (nxt ys None)
        (if d2 > mx1 then d2 else mx1) d2 m') w1"
    using i nx w1(2) f s by (simp add: get_instr_def Let_def d1 [symmetric] d2 [symmetric] mx1 IfFailRet_assoc)
  with w2 show ?thesis using w1(1) v(5) by auto
qed

lemma maxStack_exec:
  assumes "pass_ready md w g m xs" and "xs = ps @ ys" and "length ys < n"
  shows "\<exists>w'. maxStack_loop n md g (Some m) (nxt ys None) mx d dm w =
    (Ok (depth_pass (layout w 0 xs) (handler_start w g) (impact_of md w m) (targets_at w) ys mx d dm), w') \<and>
    w' \<in> {w, refreshed g xs w}"
  using assms
proof (induction ys arbitrary: n ps mx d dm w)
  case Nil
  then show ?case by (cases n) auto
next
  case (Cons a ys)
  obtain n' where n: "n = Suc n'" "length ys < n'" using Cons.prems(3) by (cases n) auto
  let ?F = "\<lambda>w. depth_pass (layout w 0 xs) (handler_start w g) (impact_of md w m) (targets_at w)"
  obtain u mx' d' dm' where u: "u \<in> {w, refreshed g xs w}" "maxStack_loop n md g (Some m) (Some a) mx d dm w =
      maxStack_loop n' md g (Some m) (nxt ys None) mx' d' dm' u" "?F w (a # ys) mx d dm = ?F w ys mx' d' dm'"
    using maxStack_step [OF Cons.prems(1,2) refl refl refl refl, where mx = mx and n = n' and dm = dm and d = d] unfolding n(1) depth_pass.simps Let_def by blast
  have r: "pass_ready md u g m xs" using u(1) Cons.prems(1) pass_ready_refreshed [OF Cons.prems(1)] by auto
  have "layout (refreshed g xs w) 0 xs = layout w 0 xs" by (rule ext) simp
  then have v: "?F u = ?F w" "refreshed g xs u = refreshed g xs w" using u(1) refreshed_idem [of g xs w] by auto
  from Cons.IH [OF r _ n(2), of "ps @ [a]" mx' d' dm'] Cons.prems(2) show ?case
    using u v by auto
qed

text \<open>The whole function.\<close>

lemma CalculateMaxStack_exec:
  assumes "pass_ready md w g m xs"
  shows "\<exists>w'. CalculateMaxStack md g w =
    (Ok (depth_pass (layout w 0 xs) (handler_start w g) (impact_of md w m) (targets_at w) xs 0 0 []), w') \<and>
    w' \<in> {w, refreshed g xs w}"
proof -
  have gl: "graph_list w g xs" using assms by (simp add: pass_ready_def graph_inv_list)
  obtain gr where "w_graphs w g = Some gr" "m_pMethodInfo gr = Some m" "m_pFirstInstruction gr = nxt xs None"
    using assms gl by (auto simp: pass_ready_def graph_list_def split: option.splits)
  moreover have "length xs < walk_fuel w" using graph_list_length [OF gl] by (simp add: walk_fuel_def)
  ultimately show ?thesis using maxStack_exec [OF assms, of "[]" xs "walk_fuel w" 0 0 "[]"]
    by (simp add: CalculateMaxStack_def get_graph_def)
qed

end
