(* ===== verification/StackBound.thy ===== *)
theory StackBound
  imports StackPass
begin

text \<open>
  The depth that \<^verbatim>\<open>CalculateMaxStack\<close> reports is an upper bound of the stack height on every run
  of the method, and the stack impact of calls is the one their signatures say.
\<close>

section \<open>Runs of the method\<close>

definition falls :: "instr \<Rightarrow> bool" where
  "falls i \<longleftrightarrow> GetTerminationType i \<notin> {TerminationType_Branch, TerminationType_Return, TerminationType_Throw}"

definition falls_at :: "world \<Rightarrow> addr \<Rightarrow> bool" where
  "falls_at w a \<longleftrightarrow> (case w_instrs w a of None \<Rightarrow> False | Some i \<Rightarrow> falls i)"

definition cleanup_start :: "world \<Rightarrow> gid \<Rightarrow> addr \<Rightarrow> bool" where
  "cleanup_start w g a \<longleftrightarrow> list_ex (\<lambda>c. case w_clauses w c of None \<Rightarrow> False | Some cl \<Rightarrow>
     m_clauseFlags cl \<noteq> COR_ILEXCEPTION_CLAUSE_NONE \<and> m_clauseFlags cl \<noteq> COR_ILEXCEPTION_CLAUSE_FILTER \<and>
     m_pHandlerFirstInstruction cl = Some a) (clauses_of w g)"

text \<open>The height behind an instruction that is entered with height \<open>n\<close>.\<close>

definition height_after :: "metadata result \<Rightarrow> world \<Rightarrow> mid \<Rightarrow> addr \<Rightarrow> int \<Rightarrow> int" where
  "height_after md w m a n = (if is_leave w a then 0 else n + the (net_effect md w m a))"

text \<open>The heights with which control can reach an instruction: at the entry of the method, in the
  handlers, by falling through, by a branch.\<close>

inductive stack_run :: "metadata result \<Rightarrow> world \<Rightarrow> gid \<Rightarrow> mid \<Rightarrow> addr list \<Rightarrow> addr \<Rightarrow> int \<Rightarrow> bool"
  for md w g m xs where
  entry: "xs = a # as \<Longrightarrow> stack_run md w g m xs a 0"
| handler: "a \<in> set xs \<Longrightarrow> handler_start w g a \<Longrightarrow> stack_run md w g m xs a 1"
| cleanup: "a \<in> set xs \<Longrightarrow> cleanup_start w g a \<Longrightarrow> stack_run md w g m xs a 0"
| fall: "stack_run md w g m xs a n \<Longrightarrow> falls_at w a \<Longrightarrow> xs = ps @ a # b # qs \<Longrightarrow>
    stack_run md w g m xs b (height_after md w m a n)"
| jump: "stack_run md w g m xs a n \<Longrightarrow> Some b \<in> set (targets_at w a) \<Longrightarrow>
    stack_run md w g m xs b (height_after md w m a n)"

text \<open>The rule of the common language infrastructure for the heights \<open>h\<close>: one height per
  instruction, never negative, the same on every way to it; an instruction behind an unconditional
  transfer is a target of an earlier branch, a handler, or has an empty stack.\<close>

definition height_at :: "metadata result \<Rightarrow> world \<Rightarrow> gid \<Rightarrow> mid \<Rightarrow> (addr \<Rightarrow> int) \<Rightarrow> addr list \<Rightarrow> addr \<Rightarrow> addr list \<Rightarrow> bool" where
  "height_at md w g m h ps a qs \<longleftrightarrow> (let n = height_after md w m a (h a) in
     0 \<le> h a \<and> 0 \<le> n \<and> list_all (\<lambda>t. h (the t) = n) (targets_at w a) \<and>
     (handler_start w g a \<longrightarrow> h a = 1) \<and> (cleanup_start w g a \<longrightarrow> h a = 0) \<and> (ps = [] \<longrightarrow> h a = 0) \<and>
     (case qs of [] \<Rightarrow> True | b # _ \<Rightarrow> if falls_at w a then h b = n
        else handler_start w g b \<or> h b = 0 \<or> list_ex (\<lambda>z. Some b \<in> set (targets_at w z)) (ps @ [a])))"

definition heights_ok :: "metadata result \<Rightarrow> world \<Rightarrow> gid \<Rightarrow> mid \<Rightarrow> addr list \<Rightarrow> (addr \<Rightarrow> int) \<Rightarrow> bool" where
  "heights_ok md w g m xs h \<longleftrightarrow>
     list_all (\<lambda>k. height_at md w g m h (take k xs) (xs ! k) (drop (Suc k) xs)) [0..<length xs]"

lemma heights_okD:
  assumes "heights_ok md w g m (ps @ a # qs) h"
  defines "n \<equiv> height_after md w m a (h a)"
  shows "0 \<le> h a" "0 \<le> n" "Some t \<in> set (targets_at w a) \<Longrightarrow> h t = n" "handler_start w g a \<Longrightarrow> h a = 1"
    "cleanup_start w g a \<Longrightarrow> h a = 0" "ps = [] \<Longrightarrow> h a = 0"
    "qs = b # rs \<Longrightarrow> falls_at w a \<Longrightarrow> h b = n"
    "qs = b # rs \<Longrightarrow> \<not> falls_at w a \<Longrightarrow> handler_start w g b \<or> h b = 0 \<or> (\<exists>z \<in> set (ps @ [a]). Some b \<in> set (targets_at w z))"
proof -
  have "length ps \<in> set [0..<length (ps @ a # qs)]" by simp
  then have "height_at md w g m h (take (length ps) (ps @ a # qs)) ((ps @ a # qs) ! length ps) (drop (Suc (length ps)) (ps @ a # qs))"
    using assms(1) unfolding heights_ok_def list_all_iff by blast
  then have f: "height_at md w g m h ps a qs" by simp
  then show "0 \<le> h a" "0 \<le> n" "handler_start w g a \<Longrightarrow> h a = 1" "cleanup_start w g a \<Longrightarrow> h a = 0" "ps = [] \<Longrightarrow> h a = 0"
    by (simp_all add: height_at_def Let_def n_def)
  show "Some t \<in> set (targets_at w a) \<Longrightarrow> h t = n" using f by (force simp: height_at_def Let_def n_def list_all_iff)
  show "qs = b # rs \<Longrightarrow> falls_at w a \<Longrightarrow> h b = n" using f by (simp add: height_at_def Let_def n_def)
  show "qs = b # rs \<Longrightarrow> \<not> falls_at w a \<Longrightarrow> handler_start w g b \<or> h b = 0 \<or> (\<exists>z \<in> set (ps @ [a]). Some b \<in> set (targets_at w z))"
    using f by (auto simp: height_at_def Let_def list_ex_iff)
qed

lemma run_height:
  assumes "stack_run md w g m xs a n" and "heights_ok md w g m xs h" and "closed_seq targets_at w xs"
  shows "a \<in> set xs \<and> n = h a"
  using assms(1)
proof induction
  case (entry a as)
  then show ?case using heights_okD(6) [of md w g m "[]" a as h] assms(2) by simp
next
  case (handler a)
  then obtain ps qs where "xs = ps @ a # qs" by (auto dest: split_list)
  with handler show ?case using heights_okD(4) [of md w g m ps a qs h] assms(2) by simp
next
  case (cleanup a)
  then obtain ps qs where "xs = ps @ a # qs" by (auto dest: split_list)
  with cleanup show ?case using heights_okD(5) [of md w g m ps a qs h] assms(2) by simp
next
  case (fall a n ps b qs)
  then show ?case using heights_okD(7) [of md w g m ps a "b # qs" h b qs] assms(2) by simp
next
  case (jump a n b)
  then obtain ps qs where "xs = ps @ a # qs" by (auto dest: split_list)
  with jump show ?case using heights_okD(3) [of md w g m ps a qs h b] assms(2,3) by (auto simp: closed_seq_def)
qed

section \<open>The pass bounds the heights\<close>

lemma map_of_insertOrUpdate:
  "map_of (insertOrUpdateStackDepthMap m k d) k' =
    (if k' = k then Some (case map_of m k of None \<Rightarrow> d | Some e \<Rightarrow> if d > e then d else e) else map_of m k')"
  by (induction m k d rule: insertOrUpdateStackDepthMap.induct) auto

lemma record_all_keeps:
  "map_of m k = Some e \<Longrightarrow> \<exists>e' \<ge> e. map_of (record_all off d ts m) k = Some e'"
proof (induction ts arbitrary: m e)
  case (Cons t ts)
  from Cons.prems have "\<exists>e' \<ge> e. map_of (insertOrUpdateStackDepthMap m (off (the t)) d) k = Some e'"
    by (auto simp: map_of_insertOrUpdate)
  then obtain e1 where e1: "e1 \<ge> e" "map_of (insertOrUpdateStackDepthMap m (off (the t)) d) k = Some e1" by blast
  from Cons.IH [OF e1(2)] e1(1) show ?case by (auto intro: order_trans)
qed simp

lemma record_all_target:
  "t \<in> set ts \<Longrightarrow> \<exists>e' \<ge> d. map_of (record_all off d ts m) (off (the t)) = Some e'"
proof (induction ts arbitrary: m)
  case (Cons s ts)
  show ?case
  proof (cases "t = s")
    case True
    have "\<exists>e' \<ge> d. map_of (insertOrUpdateStackDepthMap m (off (the t)) d) (off (the t)) = Some e'"
      by (auto simp: map_of_insertOrUpdate split: option.splits)
    then obtain e1 where e1: "e1 \<ge> d" "map_of (insertOrUpdateStackDepthMap m (off (the t)) d) (off (the t)) = Some e1" by blast
    show ?thesis using True e1(1) record_all_keeps [OF e1(2), of off d ts] by (auto intro: order_trans)
  qed (use Cons in auto)
qed simp

lemma record_all_bounded:
  "(\<And>k e. map_of m k = Some e \<Longrightarrow> e \<le> B) \<Longrightarrow> d \<le> B \<Longrightarrow> map_of (record_all off d ts m) k = Some e \<Longrightarrow> e \<le> B"
proof (induction ts arbitrary: m e k)
  case (Cons t ts)
  have "map_of (insertOrUpdateStackDepthMap m (off (the t)) d) k' = Some e' \<Longrightarrow> e' \<le> B" for k' e'
    using Cons.prems(1,2) by (auto simp: map_of_insertOrUpdate split: if_splits option.splits)
  from Cons.IH [OF this Cons.prems(2)] Cons.prems(3) show ?case by simp
qed simp

text \<open>The invariant of the pass: \<open>ps\<close> are done, \<open>ys\<close> are left.  \<open>h\<close> and \<open>f\<close> are the heights before and
  behind an instruction.\<close>

definition pass_inv :: "(addr \<Rightarrow> DWORD) \<Rightarrow> (addr \<Rightarrow> bool) \<Rightarrow> (addr \<Rightarrow> addr option list) \<Rightarrow> (addr \<Rightarrow> int) \<Rightarrow> (addr \<Rightarrow> int)
    \<Rightarrow> addr list \<Rightarrow> addr list \<Rightarrow> DWORD \<Rightarrow> DWORD \<Rightarrow> depthMap \<Rightarrow> bool" where
  "pass_inv off hs tgt h f ps ys mx d dm \<longleftrightarrow>
     (\<forall>z \<in> set ps. h z \<le> uint mx \<and> f z \<le> uint mx \<and>
        (\<forall>t \<in> set (tgt z). \<exists>e. map_of dm (off (the t)) = Some e \<and> h (the t) \<le> uint e)) \<and>
     d \<le> mx \<and> (\<forall>k e. map_of dm k = Some e \<longrightarrow> e \<le> mx) \<and> uint mx \<le> 2 * int (length ps) + 1 \<and>
     (ys \<noteq> [] \<longrightarrow> h (hd ys) \<le> uint d \<or> hs (hd ys) \<or> (\<exists>z \<in> set ps. Some (hd ys) \<in> set (tgt z)))"

lemma pass_depth:
  assumes "pass_inv off hs tgt h f ps (a # ys) mx d dm" and "hs a \<Longrightarrow> h a = 1"
    and "d0 = (case map_of dm (off a) of None \<Rightarrow> d | Some d' \<Rightarrow> if d' > d then d' else d)"
    and "d1 = (if hs a then 1 else d0)" and "mx1 = (if hs a \<and> mx < 1 then 1 else mx)"
  shows "h a \<le> uint d1" "d1 \<le> mx1" "mx \<le> mx1" "uint mx1 \<le> 2 * int (length ps) + 1"
proof -
  have "d0 \<le> mx" "d \<le> d0" "map_of dm (off a) = Some e \<Longrightarrow> e \<le> d0" for e
    using assms(1,3) by (auto simp: pass_inv_def split: option.splits)
  moreover have "h a \<le> uint d0" if "\<not> hs a"
  proof -
    have "h a \<le> uint d \<or> (\<exists>z \<in> set ps. Some a \<in> set (tgt z))" using assms(1) that by (simp add: pass_inv_def)
    then consider "h a \<le> uint d" | e where "map_of dm (off a) = Some e" "h a \<le> uint e"
      using assms(1) by (fastforce simp: pass_inv_def)
    then show ?thesis using \<open>d \<le> d0\<close> \<open>\<And>e. map_of dm (off a) = Some e \<Longrightarrow> e \<le> d0\<close>
      by cases (auto simp: word_le_def intro: order_trans)
  qed
  moreover have "1 \<le> mx" if "\<not> mx < 1" using that by (simp only: not_less)
  ultimately show "h a \<le> uint d1" "d1 \<le> mx1" using assms(2,4,5) by (auto simp del: word_less_1)
  show "mx \<le> mx1" "uint mx1 \<le> 2 * int (length ps) + 1" using assms(1,5) by (auto simp: pass_inv_def)
qed


lemma pass_step:
  assumes "pass_inv off hs tgt h f ps (a # ys) mx d dm" and "hs a \<Longrightarrow> h a = 1"
    and d0: "d0 = (case map_of dm (off a) of None \<Rightarrow> d | Some d' \<Rightarrow> if d' > d then d' else d)"
    and d1: "d1 = (if hs a then 1 else d0)" and mx1: "mx1 = (if hs a \<and> mx < 1 then 1 else mx)"
    and d2: "uint d2 = 0 \<and> f a = 0 \<or> uint d2 = uint d1 + (f a - h a) \<and> f a - h a \<le> 2"
    and tgt: "\<And>t. t \<in> set (tgt a) \<Longrightarrow> h (the t) = f a"
    and nx: "ys \<noteq> [] \<Longrightarrow> h (hd ys) = f a \<or> hs (hd ys) \<or> h (hd ys) = 0 \<or> (\<exists>z \<in> set (ps @ [a]). Some (hd ys) \<in> set (tgt z))"
  shows "pass_inv off hs tgt h f (ps @ [a]) ys (if d2 > mx1 then d2 else mx1) d2 (record_all off d2 (tgt a) dm)"
proof -
  note p = pass_depth [OF assms(1,2) d0 d1 mx1]
  let ?mx = "if d2 > mx1 then d2 else mx1" and ?dm = "record_all off d2 (tgt a) dm"
  have fa: "f a \<le> uint d2" using d2 p(1) by auto
  have m: "mx1 \<le> ?mx" "d2 \<le> ?mx" by auto
  have u: "uint mx \<le> uint ?mx" "uint d1 \<le> uint ?mx" "uint d2 \<le> uint ?mx"
    using order_trans [OF p(3) m(1)] order_trans [OF p(2) m(1)] m(2) by (simp_all add: word_le_def)
  have "uint d2 \<le> 2 * int (length (ps @ [a])) + 1" using d2 p(2,4) by (auto simp: word_le_def)
  then have "uint ?mx \<le> 2 * int (length (ps @ [a])) + 1" using p(4) by simp
  moreover have "e \<le> mx" if "map_of dm k = Some e" for k e using assms(1) that by (auto simp: pass_inv_def)
  then have "e \<le> ?mx" if "map_of dm k = Some e" for k e using that order_trans [OF p(3) m(1)] order_trans by blast
  then have "e \<le> ?mx" if "map_of ?dm k = Some e" for k e using record_all_bounded [OF _ m(2) that] by blast
  moreover have "h z \<le> uint ?mx \<and> f z \<le> uint ?mx" if "z \<in> set (ps @ [a])" for z
  proof (cases "z = a")
    case True
    with u p(1) fa show ?thesis by (auto intro: order_trans)
  next
    case False
    then have "h z \<le> uint mx \<and> f z \<le> uint mx" using that assms(1) by (simp add: pass_inv_def)
    with u(1) show ?thesis by linarith
  qed
  moreover have "\<exists>e. map_of ?dm (off (the t)) = Some e \<and> h (the t) \<le> uint e" if zt: "z \<in> set (ps @ [a])" "t \<in> set (tgt z)" for z t
  proof (cases "z = a")
    case True
    with record_all_target [of t "tgt a" d2 off dm] zt(2) tgt fa show ?thesis by (fastforce simp: word_le_def)
  next
    case False
    then have "z \<in> set ps" using zt(1) by simp
    then obtain e where "map_of dm (off (the t)) = Some e" "h (the t) \<le> uint e"
      using zt(2) assms(1) unfolding pass_inv_def by blast
    with record_all_keeps [of dm "off (the t)" e off d2 "tgt a"] show ?thesis by (fastforce simp: word_le_def)
  qed
  moreover have "ys \<noteq> [] \<longrightarrow> h (hd ys) \<le> uint d2 \<or> hs (hd ys) \<or> (\<exists>z \<in> set (ps @ [a]). Some (hd ys) \<in> set (tgt z))"
    using nx fa by auto
  ultimately show ?thesis using m(2) unfolding pass_inv_def by blast
qed


definition flow_ok :: "(addr \<Rightarrow> bool) \<Rightarrow> (addr \<Rightarrow> DWORD \<Rightarrow> DWORD) \<Rightarrow> (addr \<Rightarrow> addr option list) \<Rightarrow> (addr \<Rightarrow> int) \<Rightarrow> (addr \<Rightarrow> int)
    \<Rightarrow> addr list \<Rightarrow> bool" where
  "flow_ok hs imp tgt h f xs \<longleftrightarrow> (\<forall>qs a rs. xs = qs @ a # rs \<longrightarrow>
     (hs a \<longrightarrow> h a = 1) \<and> 0 \<le> f a \<and> (\<forall>t \<in> set (tgt a). h (the t) = f a) \<and>
     (rs \<noteq> [] \<longrightarrow> h (hd rs) = f a \<or> hs (hd rs) \<or> h (hd rs) = 0 \<or> (\<exists>z \<in> set (qs @ [a]). Some (hd rs) \<in> set (tgt z))) \<and>
     ((\<forall>x. imp a x = - x) \<and> f a = 0 \<or> f a - h a \<le> 2 \<and> (\<forall>x. imp a x = of_int (f a - h a))))"

lemma pass_sound:
  assumes "pass_inv off hs tgt h f ps ys mx d dm" and "flow_ok hs imp tgt h f (ps @ ys)"
    and "2 * int (length (ps @ ys)) + 1 < 2 ^ 32"
  shows "(\<forall>z \<in> set (ps @ ys). h z \<le> uint (depth_pass off hs imp tgt ys mx d dm) \<and> f z \<le> uint (depth_pass off hs imp tgt ys mx d dm)) \<and>
    uint (depth_pass off hs imp tgt ys mx d dm) \<le> 2 * int (length (ps @ ys)) + 1"
  using assms
proof (induction ys arbitrary: ps mx d dm)
  case Nil
  then show ?case by (simp add: pass_inv_def)
next
  case (Cons a ys)
  define d0 where "d0 = (case map_of dm (off a) of None \<Rightarrow> d | Some d' \<Rightarrow> if d' > d then d' else d)"
  define d1 where "d1 = (if hs a then 1 else d0)"
  define d2 where "d2 = d1 + imp a d1"
  define mx1 where "mx1 = (if hs a \<and> mx < 1 then 1 else mx)"
  note c = Cons.prems(2) [unfolded flow_ok_def, rule_format, OF refl]
  have p: "h a \<le> uint d1" "d1 \<le> mx1" "uint mx1 \<le> 2 * int (length ps) + 1"
    using pass_depth [OF Cons.prems(1) _ d0_def d1_def mx1_def] c by simp_all
  have "uint d2 = 0 \<and> f a = 0 \<or> uint d2 = uint d1 + (f a - h a) \<and> f a - h a \<le> 2"
  proof (cases "(\<forall>x. imp a x = - x) \<and> f a = 0")
    case False
    then have f: "f a - h a \<le> 2" "imp a d1 = of_int (f a - h a)" using c by auto
    have "0 \<le> uint d1 + (f a - h a)" "uint d1 + (f a - h a) < 2 ^ 32"
      using p f(1) c Cons.prems(3) by (auto simp: word_le_def)
    then have "uint (of_int (uint d1 + (f a - h a)) :: DWORD) = uint d1 + (f a - h a)"
      by (simp only: uint_word_of_int_eq take_bit_int_eq_self_iff) simp
    moreover have "d2 = of_int (uint d1 + (f a - h a))" by (simp add: d2_def f(2))
    ultimately show ?thesis using f(1) by (simp only:) simp
  qed (simp add: d2_def)
  then have inv: "pass_inv off hs tgt h f (ps @ [a]) ys (if d2 > mx1 then d2 else mx1) d2 (record_all off d2 (tgt a) dm)"
    using c by (intro pass_step [OF Cons.prems(1) _ d0_def d1_def mx1_def]) auto
  have eq: "depth_pass off hs imp tgt (a # ys) mx d dm =
      depth_pass off hs imp tgt ys (if d2 > mx1 then d2 else mx1) d2 (record_all off d2 (tgt a) dm)"
    by (simp only: depth_pass.simps Let_def d0_def d1_def d2_def mx1_def)
  have "flow_ok hs imp tgt h f ((ps @ [a]) @ ys)" "2 * int (length ((ps @ [a]) @ ys)) + 1 < 2 ^ 32"
    using Cons.prems(2,3) by simp_all
  from Cons.IH [OF inv this] show ?case unfolding eq append_assoc append.simps .
qed

section \<open>Push slots\<close>

definition row_push :: "int \<Rightarrow> ILOpcodeInfo \<Rightarrow> bool" where
  "row_push i e \<longleftrightarrow> m_pushSlots e = of_int VarPush \<or> m_pushSlots e \<le> 2"

lemma row_push_table: "rows_ok 0 row_push s_ilOpcodeInfo"
  by code_simp

lemma net_effect_le:
  assumes "net_effect md w m a = Some n"
  shows "n \<le> 2"
proof -
  obtain i where i: "w_instrs w a = Some i" using assms by (auto simp: net_effect_def split: option.splits)
  then obtain e push pop where o: "opcodeInfo (m_opcode i) = Ok e" "pushImpact md i (m_pushSlots e) = Ok push"
    "popImpact md (bindR (deref (w_methods w m)) returnElementType) i (m_popSlots e) = Ok pop" "n = uint push - uint pop"
    using assms by (auto simp: net_effect_def bindR_Ok_iff split: result.splits)
  have "row_push (m_opcode i) e"
    using rows_ok_nth [OF row_push_table, of "nat (m_opcode i)"] o(1) by (auto simp: opcodeInfo_def split: if_splits)
  then have "push \<le> 2" using o(2) by (auto simp: pushImpact_def row_push_def bindR_Ok_iff split: if_splits)
  then have "uint push \<le> 2" by (simp add: word_le_def)
  then show ?thesis using o(4) uint_ge_0 [of pop] by linarith
qed

text \<open>C9. \<^verbatim>\<open>CalculateMaxStack\<close> never reports too small a stack.  It ends with a depth that bounds the
  height of every run of the method, before and behind each instruction, when the code has one stack
  height per instruction in the sense of the common language infrastructure; it ends with at most two slots per
  instruction and one more.\<close>

theorem CalculateMaxStack_sound:
  assumes "pass_ready md w g m xs" and "heights_ok md w g m xs h" and "total_bytes w xs < 2 ^ 31 - 1"
  shows "\<exists>ms w'. CalculateMaxStack md g w = (Ok ms, w') \<and> unat ms \<le> 2 * length xs + 1 \<and>
    (\<forall>a n. stack_run md w g m xs a n \<longrightarrow> n \<le> uint ms \<and> height_after md w m a n \<le> uint ms)"
proof -
  let ?f = "\<lambda>a. height_after md w m a (h a)" and ?hs = "handler_start w g"
  let ?R = "depth_pass (layout w 0 xs) ?hs (impact_of md w m) (targets_at w) xs 0 0 []"
  have gl: "graph_list w g xs" and en: "encodable w xs" using assms(1) by (simp_all add: pass_ready_def graph_inv_list)
  have len: "length xs \<le> total_bytes w xs" using total_bytes_length [of w g "[]" xs] gl en by simp
  have "set (targets_at w b) \<subseteq> Some ` set xs" if "b \<in> set xs" for b
    by (rule encodable_node [OF gl en that])
       (auto simp: targets_at_def targets_of_def targets_in_def list_all_iff split: iclass.splits)
  then have cl: "closed_seq targets_at w xs" by (simp add: closed_seq_def)
  have "flow_ok ?hs (impact_of md w m) (targets_at w) h ?f xs"
    unfolding flow_ok_def
  proof (intro allI impI)
    fix qs a rs assume s: "xs = qs @ a # rs"
    have ho: "heights_ok md w g m (qs @ a # rs) h" using assms(2) s by simp
    have "a \<in> set xs" using s by simp
    then have "set (targets_at w a) \<subseteq> Some ` set xs" using cl by (simp add: closed_seq_def)
    then have "\<forall>t \<in> set (targets_at w a). h (the t) = ?f a" using heights_okD(3) [OF ho] by force
    moreover have "is_leave w a \<or> (\<exists>n. net_effect md w m a = Some n)"
      using assms(1) \<open>a \<in> set xs\<close> by (auto simp: pass_ready_def list_all_iff)
    then have "(\<forall>x. impact_of md w m a x = - x) \<and> ?f a = 0 \<or> ?f a - h a \<le> 2 \<and> (\<forall>x. impact_of md w m a x = of_int (?f a - h a))"
      using net_effect_le [of md w m a] by (auto simp: impact_of_def height_after_def)
    moreover have "rs \<noteq> [] \<longrightarrow> h (hd rs) = ?f a \<or> ?hs (hd rs) \<or> h (hd rs) = 0 \<or> (\<exists>z \<in> set (qs @ [a]). Some (hd rs) \<in> set (targets_at w z))"
      using heights_okD(7,8) [OF ho] by (cases rs) auto
    ultimately show "(?hs a \<longrightarrow> h a = 1) \<and> 0 \<le> ?f a \<and> (\<forall>t \<in> set (targets_at w a). h (the t) = ?f a) \<and>
       (rs \<noteq> [] \<longrightarrow> h (hd rs) = ?f a \<or> ?hs (hd rs) \<or> h (hd rs) = 0 \<or> (\<exists>z \<in> set (qs @ [a]). Some (hd rs) \<in> set (targets_at w z))) \<and>
       ((\<forall>x. impact_of md w m a x = - x) \<and> ?f a = 0 \<or> ?f a - h a \<le> 2 \<and> (\<forall>x. impact_of md w m a x = of_int (?f a - h a)))"
      using heights_okD(2,4) [OF ho] by blast
  qed
  moreover have "xs = [] \<or> h (hd xs) = 0" using heights_okD(6) [of md w g m "[]" "hd xs" "tl xs" h] assms(2) by (cases xs) auto
  then have "pass_inv (layout w 0 xs) ?hs (targets_at w) h ?f [] xs 0 0 []" by (auto simp: pass_inv_def)
  ultimately have b: "\<forall>z \<in> set xs. h z \<le> uint ?R \<and> ?f z \<le> uint ?R" "uint ?R \<le> 2 * int (length xs) + 1"
    using pass_sound [of "layout w 0 xs" ?hs "targets_at w" h ?f "[]" xs 0 0 "[]" "impact_of md w m"] len assms(3)
    by (simp_all only: append_Nil) simp_all
  have "int (unat ?R) \<le> int (2 * length xs + 1)" using b(2) by simp
  then have "unat ?R \<le> 2 * length xs + 1" by (simp only: of_nat_le_iff)
  moreover have "n \<le> uint ?R \<and> height_after md w m a n \<le> uint ?R" if "stack_run md w g m xs a n" for a n
    using run_height [OF that assms(2) cl] b(1) by auto
  moreover obtain w' where "CalculateMaxStack md g w = (Ok ?R, w')" using CalculateMaxStack_exec [OF assms(1)] by blast
  ultimately show ?thesis by (intro exI [of _ ?R] exI [of _ w']) simp
qed

section \<open>A method with a call\<close>

definition call_metadata :: metadata where
  "call_metadata = \<lparr> GetMethodSpecProps = (\<lambda>_. Fail E_FAIL), GetMemberRefProps = (\<lambda>_. Ok [0, 1, 1, 8]),
     GetMemberProps = (\<lambda>_. Fail E_FAIL), GetSigFromToken = (\<lambda>_. Fail E_FAIL) \<rparr>"

definition call_instr :: "ILOrdinalOpcode \<Rightarrow> iclass \<Rightarrow> DWORD \<Rightarrow> addr option \<Rightarrow> addr option \<Rightarrow> instr" where
  "call_instr op c offset p n = (new_CInstruction op False) \<lparr> m_class := c, m_offset := offset, m_pGraph := Some 0,
     m_pPreviousInstruction := p, m_pNextInstruction := n \<rparr>"

definition call_method :: methodinfo where
  "call_method = \<lparr> m_methodIl = Ok [], m_pInstructionGraph = Some 0, m_pExceptionSection = Some [],
     m_newCorHeader = \<lparr> h_Flags = 0x13, h_Size = 3, h_MaxStack = 8, h_CodeSize = 7, h_LocalVarSigTok = 0 \<rparr>,
     m_bIsHeaderInitialized = True, m_pILStream = [], m_pCorILMap = [], m_pIntermediateRenderedMethod = [],
     m_bIsInstrumented = False, m_bIsCreateBaselineEnabled = False, m_signature = Ok [0, 0, 1],
     m_savedILMap = None, m_localVariables = None, m_origLocalVariables = None \<rparr>"

definition call_world :: world where
  "call_world = empty_world \<lparr>
     w_instrs := [0 \<mapsto> call_instr Cee_Ldarg_0 Plain 0 None (Some 1),
        1 \<mapsto> call_instr Cee_Call (Operand [1, 0, 0, 0x0A, 0, 0, 0, 0]) 1 (Some 0) (Some 2),
        2 \<mapsto> call_instr Cee_Ret Plain 6 (Some 1) None],
     w_next := 3,
     w_graphs := [0 \<mapsto> (new_CInstructionGraph (Some 0)) \<lparr> m_pFirstInstruction := Some 0, m_pLastInstruction := Some 2 \<rparr>],
     w_methods := [0 \<mapsto> call_method] \<rparr>"

lemma call_bytes: "total_bytes call_world [0, 1, 2] = 7" by code_simp

lemma call_ready: "pass_ready (Ok call_metadata) call_world 0 0 [0, 1, 2]"
proof -
  have "encodable call_world [0, 1, 2]"
    by (rule encodableI [OF _ call_bytes]) (code_simp, simp, code_simp)
  moreover have "graph_inv call_world 0 [0, 1, 2]" "section_ok call_world 0"
    "case w_graphs call_world 0 of None \<Rightarrow> False | Some gr \<Rightarrow> m_pMethodInfo gr = Some 0"
    "list_all (\<lambda>a. is_leave call_world a \<or> net_effect (Ok call_metadata) call_world 0 a \<noteq> None) [0, 1, 2]"
    by code_simp+
  ultimately show ?thesis by (simp add: pass_ready_def)
qed

theorem CalculateMaxStack_sound_witness:
  "\<exists>ms w'. CalculateMaxStack (Ok call_metadata) 0 call_world = (Ok ms, w') \<and> unat ms \<le> 2 * length [0 :: addr, 1, 2] + 1 \<and>
    (\<forall>a n. stack_run (Ok call_metadata) call_world 0 0 [0, 1, 2] a n \<longrightarrow>
      n \<le> uint ms \<and> height_after (Ok call_metadata) call_world 0 a n \<le> uint ms)"
proof (rule CalculateMaxStack_sound)
  show "pass_ready (Ok call_metadata) call_world 0 0 [0, 1, 2]" by (rule call_ready)
  show "heights_ok (Ok call_metadata) call_world 0 0 [0, 1, 2] (\<lambda>a. [0, 1, 0] ! a)" by code_simp
  show "total_bytes call_world [0, 1, 2] < 2 ^ 31 - 1" by (simp only: call_bytes) simp
qed

section \<open>Calls\<close>

lemma call_rows:
  "\<exists>e. opcodeInfo Cee_Call = Ok e \<and> m_type e = ILOperandType_Token \<and> m_operandLength e = 4 \<and>
     m_pushSlots e = of_int VarPush \<and> m_popSlots e = of_int VarPop"
  "\<exists>e. opcodeInfo Cee_Callvirt = Ok e \<and> m_type e = ILOperandType_Token \<and> m_operandLength e = 4 \<and>
     m_pushSlots e = of_int VarPush \<and> m_popSlots e = of_int VarPop"
  by (simp_all add: opcodeInfo_code ilOpcodes_20_def ilOpcodes_60_def OPDEF_def)

lemma readSig_compress:
  assumes "v \<le> 0x1FFFFFFF"
  shows "readSig (snd (CorSigCompressData v) @ rest) = Ok (v, rest)"
proof (cases "CorSigCompressData v")
  case (Pair cb bs)
  with uncompress_compress [OF assms Pair, of rest] compress_count(1) [OF assms Pair]
  show ?thesis by (simp add: readSig_def)
qed

text \<open>C32. The stack impact of a call is read from its signature: with the compressed calling
  convention, the number of generic parameters if the convention is a generic one, the number of parameters and the return type in the
  blob that the metadata gives for the token, a \<^verbatim>\<open>call\<close> or \<^verbatim>\<open>callvirt\<close> pops the parameters, and \<^verbatim>\<open>this\<close> when the
  convention has it, and pushes one slot unless the return type begins with \<^verbatim>\<open>void\<close>.  So it counts a slot for a
  \<^verbatim>\<open>void\<close> behind a custom modifier.\<close>

theorem GetStackImpact_call:
  assumes "w_instrs w a = Some i" and "m_opcode i = Cee_Call \<or> m_opcode i = Cee_Callvirt" and "m_class i = Operand v"
    and "callSignatureBlob md (le_word (take 4 v)) =
      Ok (Some (snd (CorSigCompressData conv) @
        (if IsFlagSet conv IMAGE_CEE_CS_CALLCONV_GENERIC then snd (CorSigCompressData genericCount) else []) @
        snd (CorSigCompressData n) @ snd (CorSigCompressData retType) @ rest))"
    and "conv \<le> 0xff" and "genericCount \<le> 0x1FFFFFFF" and "n \<le> 0x1FFFFFFF" and "retType \<le> 0x1FFFFFFF"
    and "conv \<noteq> IMAGE_CEE_CS_CALLCONV_MAX" and "conv \<noteq> IMAGE_CEE_CS_CALLCONV_FIELD"
  shows "GetStackImpact (Ok md) (Some m) a d w = (Ok ((if retType = ELEMENT_TYPE_VOID then 0 else 1) -
    (n + (if IsFlagSet conv IMAGE_CEE_CS_CALLCONV_HASTHIS then 1 else 0))), w)"
proof -
  let ?s = "snd (CorSigCompressData conv) @ (if IsFlagSet conv IMAGE_CEE_CS_CALLCONV_GENERIC then snd (CorSigCompressData genericCount) else []) @
    snd (CorSigCompressData n) @ snd (CorSigCompressData retType) @ rest"
  have c: "conv \<le> 0x1FFFFFFF" using assms(5) by (rule order_trans) simp
  have p: "parseCallSignature ?s = Ok \<lparr> pSig = ?s, callConv = conv, parameterCount = n, retTypeElementType = retType \<rparr>"
    using assms(9,10) by (simp add: parseCallSignature_def readSig_compress [OF c] readSig_compress [OF assms(6)] readSig_compress [OF assms(7)] readSig_compress [OF assms(8)])
  obtain e where e: "opcodeInfo (m_opcode i) = Ok e" "m_type e = ILOperandType_Token" "m_operandLength e = 4"
    "m_pushSlots e = of_int VarPush" "m_popSlots e = of_int VarPop"
    using assms(2) call_rows by auto
  have "GetSignatureInfoFromCallToken (Ok md) i = Ok \<lparr> pSig = ?s, callConv = conv, parameterCount = n, retTypeElementType = retType \<rparr>"
    using e assms(3,4) p by (simp add: GetSignatureInfoFromCallToken_def GetOperandType_def GetOperandValue_def hasOperandValue_def)
  with e assms(1,2) show ?thesis
    by (auto simp: GetStackImpact_def get_instr_def IfNullRetPointer_def gets_def pushImpact_def popImpact_def)
qed

theorem GetStackImpact_call_witness:
  "GetStackImpact (Ok call_metadata) (Some 0) 1 1 call_world = (Ok (- 1), call_world) \<and>
   GetStackImpact (Ok (call_metadata\<lparr> GetMemberRefProps := \<lambda>_. Ok [0x10, 2, 3, 8] \<rparr>)) (Some 0) 1 1 call_world = (Ok (- 2), call_world)"
proof -
  let ?md = "call_metadata\<lparr> GetMemberRefProps := \<lambda>_. Ok [0x10, 2, 3, 8] \<rparr>"
  obtain i where i: "w_instrs call_world 1 = Some i" "m_opcode i = Cee_Call" "m_class i = Operand [1, 0, 0, 0x0A, 0, 0, 0, 0]"
    by (simp add: call_world_def call_instr_def new_CInstruction_def)
  have "callSignatureBlob call_metadata (le_word (take 4 [1, 0, 0, 0x0A, 0, 0, 0, 0])) =
      Ok (Some (snd (CorSigCompressData 0) @ (if IsFlagSet 0 IMAGE_CEE_CS_CALLCONV_GENERIC then snd (CorSigCompressData 0) else []) @
        snd (CorSigCompressData 1) @ snd (CorSigCompressData 1) @ [8]))"
    by code_simp
  moreover have "callSignatureBlob ?md (le_word (take 4 [1, 0, 0, 0x0A, 0, 0, 0, 0])) =
      Ok (Some (snd (CorSigCompressData 0x10) @ (if IsFlagSet 0x10 IMAGE_CEE_CS_CALLCONV_GENERIC then snd (CorSigCompressData 2) else []) @
        snd (CorSigCompressData 3) @ snd (CorSigCompressData 8) @ []))"
    by code_simp
  ultimately show ?thesis
    using GetStackImpact_call [OF i(1) _ i(3), where md = call_metadata and conv = 0 and genericCount = 0 and n = 1 and retType = 1 and rest = "[8]"] GetStackImpact_call [OF i(1) _ i(3), where md = ?md and conv = "0x10" and genericCount = 2 and n = 3 and retType = 8 and rest = "[]"] i(2)
    by (simp add: IsFlagSet_def)
qed

end
