(* ===== verification/TypeParse.thy ===== *)
theory TypeParse
  imports TypeCreator
begin

text \<open>
  Reading back what was written: every type object that fits its element type, with numbers and
  tokens that can be compressed, is what the reader makes of its signature.
\<close>

section \<open>Types that fit their element type\<close>

fun is_modifier :: "CType \<Rightarrow> bool" where
  "is_modifier (CType t s p ms (ModifierType tk)) \<longleftrightarrow> t \<in> {ELEMENT_TYPE_CMOD_REQD, ELEMENT_TYPE_CMOD_OPT} \<and> \<not> s \<and> \<not> p \<and> ms = []"
| "is_modifier _ \<longleftrightarrow> False"

definition method_convention :: "DWORD \<Rightarrow> bool" where
  "method_convention conv \<longleftrightarrow> conv \<notin> {IMAGE_CEE_CS_CALLCONV_MAX, IMAGE_CEE_CS_CALLCONV_FIELD, IMAGE_CEE_CS_CALLCONV_GENERICINST,
     IMAGE_CEE_CS_CALLCONV_LOCAL_SIG, IMAGE_CEE_CS_CALLCONV_PROPERTY}"

fun typed_type :: "CType \<Rightarrow> bool" and typed_body :: "CorElementType \<Rightarrow> tbody \<Rightarrow> bool" and typed_types :: "CType list \<Rightarrow> bool" where
  "typed_type (CType t s p ms b) \<longleftrightarrow> list_all is_modifier ms \<and> typed_body t b"
| "typed_body t SimpleType \<longleftrightarrow> t \<in> set simpleElements \<or> t = ELEMENT_TYPE_TYPEDBYREF"
| "typed_body t (TokenType tk) \<longleftrightarrow> t = ELEMENT_TYPE_CLASS \<or> t = ELEMENT_TYPE_VALUETYPE"
| "typed_body t (ModifierType tk) \<longleftrightarrow> False"
| "typed_body t (CompositeType r) \<longleftrightarrow> (t = ELEMENT_TYPE_PTR \<or> t = ELEMENT_TYPE_BYREF \<or> t = ELEMENT_TYPE_SZARRAY) \<and> typed_type r"
| "typed_body t (ArrayType r rank counts bounds) \<longleftrightarrow> t = ELEMENT_TYPE_ARRAY \<and> typed_type r"
| "typed_body t (GenericInstance r ps) \<longleftrightarrow> t = ELEMENT_TYPE_GENERICINST \<and> typed_type r \<and> typed_types ps"
| "typed_body t (GenericParameterType pos) \<longleftrightarrow> t = ELEMENT_TYPE_MVAR \<or> t = ELEMENT_TYPE_VAR"
| "typed_body t (FunctionType conv r ps n) \<longleftrightarrow> t = ELEMENT_TYPE_FNPTR \<and> method_convention conv \<and>
     (conv AND IMAGE_CEE_CS_CALLCONV_GENERIC = 0 \<longrightarrow> n = 0) \<and> typed_type r \<and> typed_types ps"
| "typed_types [] \<longleftrightarrow> True"
| "typed_types (t # ts) \<longleftrightarrow> typed_type t \<and> typed_types ts"

lemma typed_types_all: "typed_types ts \<longleftrightarrow> list_all typed_type ts"
  by (induction ts) simp_all

lemma encodable_types_all: "encodable_types ts \<longleftrightarrow> list_all encodable_type ts"
  by (induction ts) simp_all

section \<open>Positions\<close>

lemma at_pos_of_nat: "k < 2 ^ 32 \<Longrightarrow> at_pos p (of_nat k) = drop k p"
  by (simp add: unat_DWORD)

lemma drop_past: "drop k p = a @ b \<Longrightarrow> drop (k + length a) p = b"
  by (metis add.commute append_eq_conv_conj drop_drop)

lemma unat_bound: "unat (cb :: DWORD) < 2 ^ 32"
  using unsigned_less [of cb] by simp

lemma unat_minus_pos: "k \<le> unat cb \<Longrightarrow> unat (cb - of_nat k :: DWORD) = unat cb - k"
proof -
  assume k: "k \<le> unat cb"
  then have u: "unat (of_nat k :: DWORD) = k" using unat_bound [of cb] by (intro unat_DWORD) simp
  then have "of_nat k \<le> cb" using k by (simp add: word_le_nat_alt)
  then show ?thesis using unat_sub [of "of_nat k" cb] u by simp
qed

lemma pos_le: "k < 2 ^ 32 \<Longrightarrow> of_nat k \<le> (cb :: DWORD) \<longleftrightarrow> k \<le> unat cb" "k < 2 ^ 32 \<Longrightarrow> of_nat k < (cb :: DWORD) \<longleftrightarrow> k < unat cb"
  by (simp_all add: word_le_nat_alt word_less_nat_alt unat_DWORD)

lemma read_data: "small x \<Longrightarrow> CorSigUncompressData (data_bytes x @ rest) = Ok (of_nat (length (data_bytes x)), x)"
proof -
  assume s: "small x"
  have e: "CorSigCompressData x = (fst (CorSigCompressData x), data_bytes x)" by (simp add: data_bytes_def)
  show ?thesis using data.dec_enc [OF s e] unfolding data.enc_count [OF s e, symmetric] by simp
qed

lemma read_token:
  "TypeFromToken tk \<in> set g_tkCorEncodeToken \<Longrightarrow> CorSigUncompressToken (token_bytes tk @ rest) = Ok (of_nat (length (token_bytes tk)), tk)"
proof -
  assume s: "TypeFromToken tk \<in> set g_tkCorEncodeToken"
  have e: "CorSigCompressToken tk = (fst (CorSigCompressToken tk), token_bytes tk)" by (simp add: token_bytes_def)
  show ?thesis using token.dec_enc [OF s e] unfolding token.enc_count [OF s e, symmetric] by simp
qed

lemma numbers_loop_read:
  assumes "list_all small xs" and "drop k p = concat (map data_bytes xs) @ rest" and "k + length (concat (map data_bytes xs)) < 2 ^ 32"
  shows "numbers_loop (length xs) p (of_nat k) = Ok (xs, of_nat (k + length (concat (map data_bytes xs))))"
  using assms
proof (induction xs arbitrary: k)
  case (Cons x xs)
  let ?k = "k + length (data_bytes x)"
  have d: "drop ?k p = concat (map data_bytes xs) @ rest" using Cons.prems(2) by (intro drop_past) simp
  have "numbers_loop (length xs) p (of_nat ?k) = Ok (xs, of_nat (?k + length (concat (map data_bytes xs))))"
    by (rule Cons.IH) (use Cons.prems d in auto)
  moreover have "CorSigUncompressData (at_pos p (of_nat k)) = Ok (of_nat (length (data_bytes x)), x)"
    using Cons.prems read_data [of x "concat (map data_bytes xs) @ rest"] by (simp add: at_pos_of_nat)
  ultimately show ?case by (simp add: ac_simps)
qed simp

section \<open>Each case of the reader\<close>

text \<open>\<open>parse\<close> reads the signature of \<open>t\<close> back, whatever follows it, from a buffer that holds it.\<close>

definition parses :: "type_parser \<Rightarrow> CType \<Rightarrow> bool" where
  "parses parse t \<longleftrightarrow> (\<forall>cb rest. length (sig_of t) \<le> unat cb \<longrightarrow>
     parse cb (sig_of t @ rest) = Ok (t, of_nat (length (sig_of t))))"

lemma parsesD:
  assumes "parses parse t" and "drop k p = sig_of t @ rest" and "k + length (sig_of t) \<le> unat cb"
  shows "parse (cb - of_nat k) (at_pos p (of_nat k)) = Ok (t, of_nat (length (sig_of t)))"
proof -
  have "k < 2 ^ 32" using assms(3) unat_bound [of cb] by simp
  with assms show ?thesis by (simp add: at_pos_of_nat parses_def unat_minus_pos del: drop_append)
qed

lemma types_loop_read:
  assumes "\<forall>t \<in> set ts. parses parse t" and "drop k p = sig_types ts @ rest" and "k + length (sig_types ts) \<le> unat cb"
  shows "types_loop parse (length ts) cb p (of_nat k) = Ok (ts, of_nat (k + length (sig_types ts)))"
  using assms
proof (induction ts arbitrary: k)
  case (Cons t ts)
  let ?k = "k + length (sig_of t)"
  have d: "drop ?k p = sig_types ts @ rest" using Cons.prems(2) by (intro drop_past) simp
  have l: "?k \<le> unat cb" "?k < 2 ^ 32" using Cons.prems(3) unat_bound [of cb] by auto
  have "types_loop parse (length ts) cb p (of_nat ?k) = Ok (ts, of_nat (?k + length (sig_types ts)))"
    by (rule Cons.IH) (use Cons.prems d in auto)
  moreover have "parse (cb - of_nat k) (at_pos p (of_nat k)) = Ok (t, of_nat (length (sig_of t)))"
    by (rule parsesD) (use Cons.prems in auto)
  moreover have "of_nat k + of_nat (length (sig_of t)) \<le> cb" using l pos_le(1) [of ?k cb] by simp
  ultimately show ?case by (simp add: expect_def ac_simps)
qed simp

lemma sequence_read:
  assumes "\<forall>t \<in> set ts. parses parse t" and "length (sig_types ts) \<le> unat cb" and "length ts \<le> 0x1FFFFFFF"
  shows "parseTypeSequence parse (sig_types ts @ rest) cb (of_nat (length ts)) = Ok (enum_of ts, of_nat (length (sig_types ts)))"
  using types_loop_read [OF assms(1), of 0 "sig_types ts @ rest" rest cb] assms(2,3)
  by (simp add: parseTypeSequence_def enum_of_def unat_DWORD)

lemma data_bytes_pos: "small x \<Longrightarrow> 0 < length (data_bytes x)"
  using data.snd_enc_nonempty [of x] by (simp add: data_bytes_def)

lemma sig_of_pos: "0 < length (sig_of t)"
  by (cases t) simp

lemma data_bytes_one: "conv \<le> 0x7F \<Longrightarrow> data_bytes conv = [ucast conv]"
  by (simp add: data_bytes_def CorSigCompressData_def)

text \<open>Reading a number at position \<open>k\<close>.\<close>

lemma read_data_at:
  assumes "drop k p = data_bytes x @ rest" and "small x" and "k < 2 ^ 32"
  shows "CorSigUncompressData (at_pos p (of_nat k)) = Ok (of_nat (length (data_bytes x)), x)"
  using assms read_data [OF assms(2), of rest] by (simp add: at_pos_of_nat)

lemma bit_16: "bit (0x10 :: DWORD) n \<longleftrightarrow> n = 4"
proof -
  have m: "(0x10 :: DWORD) = push_bit 4 1" by simp
  show ?thesis unfolding m by (auto simp only: bit_simps) auto
qed

lemma generic_flag: "conv AND 0x10 \<noteq> 0 \<Longrightarrow> conv AND 0x10 = (0x10 :: DWORD)"
proof -
  assume n: "conv AND 0x10 \<noteq> 0"
  have "bit conv 4"
  proof (rule ccontr)
    assume "\<not> bit conv 4"
    then have "conv AND 0x10 = 0" by (intro bit_word_eqI) (simp only: bit_and_iff bit_16 bit_0_eq, auto)
    with n show False by blast
  qed
  then show ?thesis by (intro bit_word_eqI) (simp only: bit_and_iff bit_16, auto)
qed

lemma method_read:
  assumes "parses parse r" and "\<forall>t \<in> set ps. parses parse t"
    and "encodable_body (FunctionType conv r ps n)" and "method_convention conv"
    and "conv AND IMAGE_CEE_CS_CALLCONV_GENERIC = 0 \<longrightarrow> n = 0"
    and l: "length (sig_body (FunctionType conv r ps n)) \<le> unat cb"
  shows "parseMethodSignature parse (sig_body (FunctionType conv r ps n) @ rest) cb =
    Ok \<lparr> s_callingConvention = conv, s_returnType = r, s_parameterTypes = enum_of ps, s_genericCount = n,
         s_cbRead = of_nat (length (sig_body (FunctionType conv r ps n))) \<rparr>"
proof -
  define gen where "gen = (if conv AND IMAGE_CEE_CS_CALLCONV_GENERIC \<noteq> 0 then data_bytes n else [])"
  define np where "np = data_bytes (of_nat (length ps))"
  define p where "p = [ucast conv] @ gen @ np @ sig_of r @ sig_types ps @ rest"
  have len: "length (sig_body (FunctionType conv r ps n)) = 1 + length gen + length np + length (sig_of r) + length (sig_types ps)"
    by (simp add: gen_def np_def)
  have p: "sig_body (FunctionType conv r ps n) @ rest = p" by (simp add: p_def gen_def np_def)
  have c: "conv \<le> 0x7F" "small n" "length ps \<le> 0x1FFFFFFF" using assms(3) by simp_all
  then have sc: "small conv" by (auto simp: word_le_nat_alt)
  have snp: "small (of_nat (length ps))" using c(3) by (rule small_of_nat)
  have pos: "0 < length np" "0 < length (sig_of r)" using data_bytes_pos [OF snp] sig_of_pos by (simp_all add: np_def)
  have b: "unat cb < 2 ^ 32" by (rule unat_bound)
  have ll: "1 + length gen + length np + length (sig_of r) + length (sig_types ps) \<le> unat cb" using l unfolding len .
  have d: "drop 1 p = gen @ np @ sig_of r @ sig_types ps @ rest" by (simp add: p_def)
  note d2 = drop_past [OF d] note d3 = drop_past [OF d2] note d4 = drop_past [OF d3]
  have r1: "CorSigUncompressData p = Ok (1, conv)"
    using read_data [OF sc, of "gen @ np @ sig_of r @ sig_types ps @ rest"] data_bytes_one [OF c(1)] by (simp add: p_def)
  have g1: "1 < cb" proof -
    have "1 < unat cb" using ll pos by linarith
    then show ?thesis by (simp add: word_less_nat_alt)
  qed
  have lt: "of_nat k < cb" if "k < 1 + length gen + length np + length (sig_of r) + length (sig_types ps)" for k
    using that ll b by (intro pos_le(2) [THEN iffD2]) linarith+
  have le: "of_nat k \<le> cb" if "k \<le> 1 + length gen + length np + length (sig_of r) + length (sig_types ps)" for k
    using that ll b by (intro pos_le(1) [THEN iffD2]) linarith+
  have rg: "(if conv AND IMAGE_CEE_CS_CALLCONV_GENERIC = IMAGE_CEE_CS_CALLCONV_GENERIC
      then bindR (CorSigUncompressData (at_pos p 1)) (\<lambda>(n, g). expect (cb > 1 + n) (Ok (g, 1 + n)))
      else Ok (0, 1)) = Ok (n, of_nat (1 + length gen))"
  proof (cases "conv AND IMAGE_CEE_CS_CALLCONV_GENERIC = 0")
    case True
    then show ?thesis using assms(5) by (simp add: gen_def)
  next
    case False
    then have g: "gen = data_bytes n" by (simp add: gen_def)
    have f: "conv AND IMAGE_CEE_CS_CALLCONV_GENERIC = IMAGE_CEE_CS_CALLCONV_GENERIC"
      using False by (rule generic_flag)
    have "CorSigUncompressData (at_pos p (of_nat 1)) = Ok (of_nat (length gen), n)"
      using d g read_data_at [of 1 p n] c(2) by simp
    moreover have "of_nat (1 + length gen) < cb" using lt [of "1 + length gen"] pos by linarith
    ultimately show ?thesis using f by (simp add: expect_def)
  qed
  have rn: "CorSigUncompressData (at_pos p (of_nat (1 + length gen))) = Ok (of_nat (length np), of_nat (length ps))"
    unfolding np_def by (rule read_data_at) (use d2 snp ll b in \<open>simp_all add: np_def\<close>)
  have g2: "of_nat (1 + length gen + length np) < cb" using lt [of "1 + length gen + length np"] pos by linarith
  have rr: "parse (cb - of_nat (1 + length gen + length np)) (at_pos p (of_nat (1 + length gen + length np))) = Ok (r, of_nat (length (sig_of r)))"
    by (rule parsesD [OF assms(1) d3]) (use ll in linarith)
  let ?k = "1 + length gen + length np + length (sig_of r)"
  have g3: "of_nat ?k \<le> cb" using le [of ?k] by linarith
  have rs: "parseTypeSequence parse (at_pos p (of_nat ?k)) (cb - of_nat ?k) (of_nat (length ps)) = Ok (enum_of ps, of_nat (length (sig_types ps)))"
  proof -
    have "?k < 2 ^ 32" using ll b by linarith
    then have "at_pos p (of_nat ?k) = sig_types ps @ rest" using d4 at_pos_of_nat [of ?k p] by simp
    moreover have "length (sig_types ps) \<le> unat (cb - of_nat ?k)" using ll by (subst unat_minus_pos) linarith+
    ultimately show ?thesis using sequence_read [OF assms(2) _ c(3)] by simp
  qed
  have g4: "of_nat (?k + length (sig_types ps)) \<le> cb" using le [of "?k + length (sig_types ps)"] by linarith
  show ?thesis
    unfolding p parseMethodSignature_def r1 len
    using assms(4) g1 rg rn g2 rr g3 rs g4
    by (simp add: method_convention_def expect_def Let_def ac_simps)
qed

lemma array_read:
  assumes "parses parse r" and "encodable_body (ArrayType r rank counts bounds)"
    and l: "Suc (length (sig_body (ArrayType r rank counts bounds))) \<le> unat cb"
  shows "array_case parse cb (e # sig_body (ArrayType r rank counts bounds) @ rest) =
    Ok (new_CType ELEMENT_TYPE_ARRAY (ArrayType r rank counts bounds), of_nat (Suc (length (sig_body (ArrayType r rank counts bounds)))))"
proof -
  define A where "A = data_bytes rank"
  define B where "B = data_bytes (of_nat (length counts))"
  define C where "C = concat (map data_bytes counts)"
  define D where "D = data_bytes (of_nat (length bounds))"
  define E where "E = concat (map data_bytes bounds)"
  define p where "p = [e] @ sig_of r @ A @ B @ C @ D @ E @ rest"
  note defs = A_def B_def C_def D_def E_def
  have len: "Suc (length (sig_body (ArrayType r rank counts bounds))) =
      1 + length (sig_of r) + length A + length B + length C + length D + length E" by (simp add: defs)
  have p: "e # sig_body (ArrayType r rank counts bounds) @ rest = p" by (simp add: p_def defs)
  have s: "small rank" "list_all small counts" "list_all small bounds" "small (of_nat (length counts))" "small (of_nat (length bounds))"
    and n: "unat (of_nat (length counts) :: DWORD) = length counts" "unat (of_nat (length bounds) :: DWORD) = length bounds"
    using assms(2) by (simp_all add: small_of_nat unat_DWORD)
  have A: "0 < length A" using data_bytes_pos [OF s(1)] by (simp add: A_def)
  have ll: "1 + length (sig_of r) + length A + length B + length C + length D + length E \<le> unat cb" using l unfolding len .
  then have b: "1 + length (sig_of r) + length A + length B + length C + length D + length E < 2 ^ 32" using unat_bound [of cb] by linarith
  have d: "drop 1 p = sig_of r @ A @ B @ C @ D @ E @ rest" by (simp add: p_def)
  note d1 = drop_past [OF d] note d2 = drop_past [OF d1] note d3 = drop_past [OF d2] note d4 = drop_past [OF d3] note d5 = drop_past [OF d4]
  let ?k1 = "1 + length (sig_of r)" let ?k2 = "?k1 + length A" let ?k3 = "?k2 + length B" let ?k4 = "?k3 + length C" let ?k5 = "?k4 + length D"
  have r1: "parse (cb - of_nat 1) (at_pos p (of_nat 1)) = Ok (r, of_nat (length (sig_of r)))"
    by (rule parsesD [OF assms(1) d]) (use ll in linarith)
  have g: "of_nat ?k1 < cb" using ll b A by (intro pos_le(2) [THEN iffD2]) linarith+
  have r2: "CorSigUncompressData (at_pos p (of_nat ?k1)) = Ok (of_nat (length A), rank)"
    using read_data_at [OF d1 [unfolded A_def] s(1)] b by (simp add: A_def)
  have r3: "CorSigUncompressData (at_pos p (of_nat ?k2)) = Ok (of_nat (length B), of_nat (length counts))"
    using read_data_at [OF d2 [unfolded B_def] s(4)] b by (simp add: B_def)
  have r4: "numbers_loop (length counts) p (of_nat ?k3) = Ok (counts, of_nat ?k4)"
    using numbers_loop_read [OF s(2) d3 [unfolded C_def]] b by (simp add: C_def)
  have r5: "CorSigUncompressData (at_pos p (of_nat ?k4)) = Ok (of_nat (length D), of_nat (length bounds))"
    using read_data_at [OF d4 [unfolded D_def] s(5)] b by (simp add: D_def)
  have r6: "numbers_loop (length bounds) p (of_nat ?k5) = Ok (bounds, of_nat (?k5 + length E))"
    using numbers_loop_read [OF s(3) d5 [unfolded E_def]] b by (simp add: E_def)
  show ?thesis unfolding p len array_case_def
    using r1 g r2 r3 r4 r5 r6 n by (simp add: expect_def Let_def add.assoc)
qed

lemma genericInstance_read:
  assumes "parses parse r" and "\<forall>t \<in> set ps. parses parse t" and n: "length ps \<le> 0x1FFFFFFF"
    and l: "Suc (length (sig_body (GenericInstance r ps))) \<le> unat cb"
  shows "genericInstance_case parse cb (e # sig_body (GenericInstance r ps) @ rest) =
    Ok (new_CType ELEMENT_TYPE_GENERICINST (GenericInstance r ps), of_nat (Suc (length (sig_body (GenericInstance r ps)))))"
proof -
  define A where "A = data_bytes (of_nat (length ps))"
  define p where "p = [e] @ sig_of r @ A @ sig_types ps @ rest"
  have len: "Suc (length (sig_body (GenericInstance r ps))) = 1 + length (sig_of r) + length A + length (sig_types ps)" by (simp add: A_def)
  have p: "e # sig_body (GenericInstance r ps) @ rest = p" by (simp add: p_def A_def)
  have s: "small (of_nat (length ps))" "unat (of_nat (length ps) :: DWORD) = length ps" using n by (simp_all add: small_of_nat unat_DWORD)
  have A: "0 < length A" using data_bytes_pos [OF s(1)] by (simp add: A_def)
  have ll: "1 + length (sig_of r) + length A + length (sig_types ps) \<le> unat cb" using l unfolding len .
  then have b: "1 + length (sig_of r) + length A + length (sig_types ps) < 2 ^ 32" using unat_bound [of cb] by linarith
  have d: "drop 1 p = sig_of r @ A @ sig_types ps @ rest" by (simp add: p_def)
  note d1 = drop_past [OF d] note d2 = drop_past [OF d1]
  let ?k1 = "1 + length (sig_of r)"
  have r1: "parse (cb - of_nat 1) (at_pos p (of_nat 1)) = Ok (r, of_nat (length (sig_of r)))"
    by (rule parsesD [OF assms(1) d]) (use ll in linarith)
  have g: "of_nat ?k1 < cb" using ll b A by (intro pos_le(2) [THEN iffD2]) linarith+
  have r2: "CorSigUncompressData (at_pos p (of_nat ?k1)) = Ok (of_nat (length A), of_nat (length ps))"
    using read_data_at [OF d1 [unfolded A_def] s(1)] b by (simp add: A_def)
  have r3: "types_loop parse (length ps) cb p (of_nat (?k1 + length A)) = Ok (ps, of_nat (?k1 + length A + length (sig_types ps)))"
    by (rule types_loop_read [OF assms(2) d2 ll])
  show ?thesis unfolding p len genericInstance_case_def
    using r1 g r2 r3 s(2) by (simp add: expect_def Let_def add.assoc)
qed

lemma is_modifierE:
  assumes "is_modifier m"
  obtains t tk where "m = CType t False False [] (ModifierType tk)" "t = ELEMENT_TYPE_CMOD_REQD \<or> t = ELEMENT_TYPE_CMOD_OPT"
  using assms by (cases m rule: is_modifier.cases) auto

lemma sig_types_append: "sig_types (xs @ ys) = sig_types xs @ sig_types ys"
  by (induction xs) simp_all

lemma byte_at_drop: "drop k p = b # rest \<Longrightarrow> byte_at p k = Ok (ucast b)"
  by (metis byte_at_def drop_eq_Nil hd_drop_conv_nth linorder_not_le list.distinct(1) list.sel(1))

lemma ucast_byte_inj: "(ucast (a :: byte) :: DWORD) = ucast b \<longleftrightarrow> a = b"
  by (simp add: word_unat_eq_iff unat_ucast_up)

lemma ucast_cmod: "e \<noteq> 0x1f \<Longrightarrow> (ucast (e :: byte) :: DWORD) \<noteq> 0x1f" "e \<noteq> 0x20 \<Longrightarrow> (ucast (e :: byte) :: DWORD) \<noteq> 0x20"
  using ucast_byte_inj [of e "0x1f"] ucast_byte_inj [of e "0x20"] by simp_all

lemma modifiers_read:
  assumes "list_all is_modifier ms" and "encodable_types ms" and "drop k p = sig_types ms @ e # rest"
    and "e \<noteq> 0x1f" "e \<noteq> 0x20" and "k + length (sig_types ms) < 2 ^ 32" and "length ms < n"
  shows "modifiers_loop n p (of_nat k) = Ok (ms, of_nat (k + length (sig_types ms)))"
  using assms
proof (induction ms arbitrary: k n)
  case Nil
  then obtain j where n: "n = Suc j" by (cases n) auto
  have "byte_at p k = Ok (ucast e)" using Nil.prems(3) by (intro byte_at_drop) simp
  then show ?case using n ucast_cmod [of e] Nil.prems(4-6) by (simp add: unat_DWORD)
next
  case (Cons m ms)
  then obtain j where n: "n = Suc j" "length ms < j" by (cases n) auto
  obtain t tk where m: "m = CType t False False [] (ModifierType tk)" "t = ELEMENT_TYPE_CMOD_REQD \<or> t = ELEMENT_TYPE_CMOD_OPT"
    using Cons.prems(1) by (auto elim: is_modifierE)
  have d: "drop k p = ucast t # token_bytes tk @ sig_types ms @ e # rest" using Cons.prems(3) m by simp
  have b: "byte_at p k = Ok t" using byte_at_drop [OF d] m(2) by auto
  have d1: "drop (k + 1) p = token_bytes tk @ sig_types ms @ e # rest"
    using drop_past [of k p "[ucast t]"] d by simp
  have l: "k + 1 + length (token_bytes tk) + length (sig_types ms) < 2 ^ 32" using Cons.prems(6) m by simp
  have tok: "CorSigUncompressToken (at_pos p (of_nat (k + 1))) = Ok (of_nat (length (token_bytes tk)), tk)"
    using d1 l Cons.prems(2) m(1) read_token [of tk "sig_types ms @ e # rest"] at_pos_of_nat [of "k + 1" p] by simp
  have "modifiers_loop j p (of_nat (k + 1 + length (token_bytes tk))) = Ok (ms, of_nat (k + 1 + length (token_bytes tk) + length (sig_types ms)))"
    by (rule Cons.IH) (use Cons.prems n l drop_past [OF d1] in auto)
  moreover have "unat (of_nat k :: DWORD) = k" using l by (intro unat_DWORD) simp
  ultimately show ?case using n b tok m by (simp add: new_CType_def ac_simps)
qed

section \<open>The reader reads every signature back\<close>

lemma typed_element:
  assumes "typed_body t b"
  shows "(ucast (ucast t :: byte) :: DWORD) = t" "t \<noteq> 0x1f" "t \<noteq> 0x20" "(ucast t :: byte) \<noteq> 0x1f" "(ucast t :: byte) \<noteq> 0x20"
  using assms by (cases b; auto simp: simpleElements_def)+

lemma sig_types_member: "t \<in> set ts \<Longrightarrow> length (sig_of t) \<le> length (sig_types ts)"
  by (induction ts) auto

lemma body_read:
  assumes "typed_body t b" and "encodable_body b" and "Suc (length (sig_body b)) \<le> unat cb"
    and sub: "\<And>r. length (sig_of r) \<le> length (sig_body b) \<Longrightarrow> typed_type r \<Longrightarrow> encodable_type r \<Longrightarrow> parses parse r"
  shows "fromSignature_body parse cb (ucast t # sig_body b @ rest) = Ok (new_CType t b, of_nat (Suc (length (sig_body b))))"
proof -
  have cb: "cb \<noteq> 0" using assms(3) by auto
  note e = typed_element(1) [OF assms(1)]
  show ?thesis
  proof (cases b)
    case SimpleType
    then show ?thesis using assms(1) cb e by (simp add: fromSignature_body_def)
  next
    case (TokenType tk)
    then show ?thesis using assms(1,2) cb e read_token [of tk rest]
      by (auto simp: fromSignature_body_def simpleElements_def fromToken_case_def FromToken_def)
  next
    case (CompositeType r)
    have "parses parse r" using assms(1,2) CompositeType by (intro sub) auto
    then have "parse (cb - of_nat 1) (at_pos (ucast t # sig_of r @ rest) (of_nat 1)) = Ok (r, of_nat (length (sig_of r)))"
      using assms(3) CompositeType by (intro parsesD) auto
    then show ?thesis using assms(1) CompositeType cb e
      by (auto simp: fromSignature_body_def simpleElements_def composite_case_def)
  next
    case (GenericParameterType pos)
    then show ?thesis using assms(1,2) cb e read_data [of pos rest]
      by (auto simp: fromSignature_body_def simpleElements_def genericParameter_case_def)
  next
    case (ArrayType r rank counts bounds)
    have "parses parse r" using assms(1,2) ArrayType by (intro sub) auto
    then show ?thesis using array_read [of parse r rank counts bounds cb "ucast t" rest] assms ArrayType cb e
      by (simp add: fromSignature_body_def simpleElements_def)
  next
    case (GenericInstance r ps)
    have r: "parses parse r" using assms(1,2) GenericInstance by (intro sub) auto
    have ps: "\<forall>t \<in> set ps. parses parse t"
    proof
      fix t' assume t': "t' \<in> set ps"
      show "parses parse t'" using assms(1,2) GenericInstance t' sig_types_member [OF t']
        by (intro sub) (auto simp: typed_types_all encodable_types_all list_all_iff)
    qed
    show ?thesis using genericInstance_read [OF r ps, of cb "ucast t" rest] assms(1-3) GenericInstance cb e
      by (simp add: fromSignature_body_def simpleElements_def)
  next
    case (FunctionType conv r ps n)
    have r: "parses parse r" using assms(1,2) FunctionType by (intro sub) auto
    have ps: "\<forall>t \<in> set ps. parses parse t"
    proof
      fix t' assume t': "t' \<in> set ps"
      show "parses parse t'" using assms(1,2) FunctionType t' sig_types_member [OF t']
        by (intro sub) (auto simp: typed_types_all encodable_types_all list_all_iff)
    qed
    have c: "unat (cb - 1) = unat cb - 1" using unat_minus_pos [of 1 cb] assms(3) by simp
    have m: "parseMethodSignature parse (sig_body b @ rest) (cb - 1) =
      Ok \<lparr> s_callingConvention = conv, s_returnType = r, s_parameterTypes = enum_of ps, s_genericCount = n, s_cbRead = of_nat (length (sig_body b)) \<rparr>"
      unfolding FunctionType
      by (rule method_read [OF r ps]) (use assms(1-3) FunctionType c in \<open>simp_all only: typed_body.simps\<close>, simp_all)
    have "drain (enum_of ps) = Ok ps" using assms(2) FunctionType by (intro drain_enum_of) simp
    with m have "function_case parse cb (ucast t # sig_body b @ rest) = Ok (new_CType t b, of_nat (Suc (length (sig_body b))))"
      using assms(1) FunctionType by (simp add: function_case_def)
    then show ?thesis using assms(1) FunctionType cb e by (simp add: fromSignature_body_def simpleElements_def)
  qed (use assms(1) in simp)
qed

lemma flag_read:
  assumes "parses parse t" and "Suc (length (sig_of t)) \<le> unat cb"
  shows "flag_case parse f cb (b # sig_of t @ rest) = Ok (f t, of_nat (Suc (length (sig_of t))))"
  using parsesD [OF assms(1), of 1 "b # sig_of t @ rest" rest cb] assms(2) by (simp add: flag_case_def)

lemma length_types: "length ts \<le> length (sig_types ts)"
proof (induction ts)
  case (Cons t ts)
  then show ?case using sig_of_pos [of t] by (simp del: length_greater_0_conv)
qed simp

lemma modifier_read:
  assumes "parses parse t" and t: "t = CType c False False [] b" "typed_body c b"
    and "list_all is_modifier (m # ms)" and "encodable_types (m # ms)"
    and l: "length (sig_types (m # ms) @ sig_of t) \<le> unat cb"
  shows "modifier_case parse (m_corType m) cb (sig_types (m # ms) @ sig_of t @ rest) =
    Ok (SetModifers (m # ms) t, of_nat (length (sig_types (m # ms) @ sig_of t)))"
proof -
  have "is_modifier m" using assms(4) by simp
  then obtain e tk where m: "m = CType e False False [] (ModifierType tk)" by (rule is_modifierE)
  define p where "p = sig_types (m # ms) @ sig_of t @ rest"
  let ?k = "1 + length (token_bytes tk)"
  have tk: "TypeFromToken tk \<in> set g_tkCorEncodeToken" using assms(5) m by simp
  have d: "drop 1 p = token_bytes tk @ sig_types ms @ sig_of t @ rest" using m by (simp add: p_def)
  have d1: "drop ?k p = sig_types ms @ sig_of t @ rest" by (rule drop_past [OF d])
  have ll: "?k + length (sig_types ms) + length (sig_of t) \<le> unat cb" using l m by simp
  have tok: "CorSigUncompressToken (at_pos p 1) = Ok (of_nat (length (token_bytes tk)), tk)"
    using d read_token [OF tk, of "sig_types ms @ sig_of t @ rest"] by simp
  have f: "length ms < Suc (length p)" using length_types [of ms] by (simp add: p_def)
  have loop: "modifiers_loop (Suc (length p)) p (of_nat ?k) = Ok (ms, of_nat (?k + length (sig_types ms)))"
    by (rule modifiers_read [where e = "ucast c" and rest = "sig_body b @ rest"])
      (use assms(4,5) d1 t typed_element [OF t(2)] ll unat_bound [of cb] f in simp_all)
  have "parse (cb - of_nat (?k + length (sig_types ms))) (at_pos p (of_nat (?k + length (sig_types ms)))) = Ok (t, of_nat (length (sig_of t)))"
    by (rule parsesD [OF assms(1) drop_past [OF d1] ll])
  with tok loop show ?thesis unfolding p_def [symmetric]
    using m by (simp add: modifier_case_def new_CType_def ac_simps del: modifiers_loop.simps)
qed

lemma reads_back:
  "length (sig_of t) \<le> n \<Longrightarrow> typed_type t \<Longrightarrow> encodable_type t \<Longrightarrow> parses (FromSignature_f n) t"
proof (induction n arbitrary: t)
  case 0
  then show ?case using sig_of_pos [of t] by simp
next
  case (Suc n)
  obtain c s p ms b where t: "t = CType c s p ms b" by (cases t)
  show ?case unfolding parses_def
  proof (intro allI impI)
    fix cb :: DWORD and rest assume l: "length (sig_of t) \<le> unat cb"
    then have cb: "cb \<noteq> 0" using sig_of_pos [of t] by auto
    consider s | "\<not> s" p | "\<not> s" "\<not> p" "ms \<noteq> []" | "\<not> s" "\<not> p" "ms = []" by blast
    then show "FromSignature_f (Suc n) cb (sig_of t @ rest) = Ok (t, of_nat (length (sig_of t)))"
    proof cases
      case 1
      have "parses (FromSignature_f n) (CType c False p ms b)" using Suc.prems t 1 by (intro Suc.IH) auto
      from flag_read [OF this, of cb "SetIsSentinel True" "0x41" rest] show ?thesis using t 1 l cb
        by (simp add: fromSignature_body_def simpleElements_def SetIsSentinel_def)
    next
      case 2
      have "parses (FromSignature_f n) (CType c False False ms b)" using Suc.prems t 2 by (intro Suc.IH) auto
      from flag_read [OF this, of cb "SetIsPinned True" "0x45" rest] show ?thesis using t 2 l cb
        by (simp add: fromSignature_body_def simpleElements_def SetIsPinned_def)
    next
      case 3
      then obtain m ms' where ms: "ms = m # ms'" by (cases ms) auto
      let ?t = "CType c False False [] b"
      have "parses (FromSignature_f n) ?t" using Suc.prems t 3 ms sig_of_pos [of m] by (intro Suc.IH) (auto simp del: length_greater_0_conv)
      from modifier_read [OF this refl, of m ms' cb rest] have r: "modifier_case (FromSignature_f n) (m_corType m) cb (sig_of t @ rest) = Ok (t, of_nat (length (sig_of t)))"
        using Suc.prems t 3 ms l by (simp add: SetModifers_def)
      obtain e tk where m: "m = CType e False False [] (ModifierType tk)" "e = ELEMENT_TYPE_CMOD_REQD \<or> e = ELEMENT_TYPE_CMOD_OPT"
        using Suc.prems(2) t ms by (auto elim: is_modifierE)
      have "byte_at (sig_of t @ rest) 0 = Ok e" using t 3 ms m by auto
      then show ?thesis using r m cb by (auto simp: fromSignature_body_def simpleElements_def)
    next
      case 4
      have "fromSignature_body (FromSignature_f n) cb (ucast c # sig_body b @ rest) = Ok (new_CType c b, of_nat (Suc (length (sig_body b))))"
        by (rule body_read) (use Suc t 4 l in auto)
      then show ?thesis using t 4 by (simp add: new_CType_def)
    qed
  qed
qed

end
