(* ===== verification/TypeTotal.thy ===== *)
theory TypeTotal
  imports TypeParse
begin

text \<open>
  The reader of signatures never counts more bytes than can be read, and it comes to an end, except
  on a custom modifier whose token is malformed: it agrees with a reader that reports these.
\<close>

section \<open>Positions stay inside the buffer\<close>

definition start_ok :: "byte list \<Rightarrow> bool" where
  "start_ok p \<longleftrightarrow> (case CorSigUncompressData p of Ok (cb, x) \<Rightarrow> cb \<noteq> - 1 | _ \<Rightarrow> False)"

lemma byte_at_OkD: "byte_at p i = Ok b \<Longrightarrow> i < length p"
  by (simp add: byte_at_def split: if_splits)

lemma uncompress_bound:
  assumes "CorSigUncompressData p = Ok (cb, x)"
  shows "cb = - 1 \<and> x = 0 \<or> 0 < unat cb \<and> unat cb \<le> length p \<and> cb \<noteq> - 1"
  using assms
  by (auto simp: CorSigUncompressData_def CorSigUncompressData_len_def bindR_Ok_iff SUCCEEDED_def Suc_le_eq dest!: byte_at_OkD split: if_splits)

lemma token_bound:
  assumes "CorSigUncompressToken p = Ok (cb, x)"
  shows "cb = - 1 \<or> 0 < unat cb \<and> unat cb \<le> length p \<and> cb \<noteq> - 1"
  using assms uncompress_bound by (auto simp: CorSigUncompressToken_def bindR_Ok_iff)

lemma start_ok_byte: "byte_at p 0 = Ok e \<Longrightarrow> e AND 0x80 = 0 \<Longrightarrow> start_ok p"
  by (simp add: start_ok_def CorSigUncompressData_def CorSigUncompressData_len_def SUCCEEDED_def)

text \<open>A read moves the position forward inside the buffer; a failed one moves it back by one, but
  never from the start.\<close>

lemma pos_add:
  assumes "unat pos + k \<le> length p" and "length p < 2 ^ 31" and "unat n = k"
  shows "unat (pos + n :: DWORD) = unat pos + k"
  using assms by (simp add: unat_word_ariths)

lemma read_bound:
  assumes "start_ok p" and "length p < 2 ^ 31" and "unat pos \<le> length p" and "CorSigUncompressData (at_pos p pos) = Ok (n, x)"
  shows "unat (pos + n) \<le> length p \<and> (n = - 1 \<and> x = 0 \<or> unat (pos + n) = unat pos + unat n \<and> 0 < unat n)"
proof (cases "n = - 1")
  case True
  have "unat pos \<noteq> 0"
  proof
    assume "unat pos = 0"
    then have "CorSigUncompressData p = Ok (- 1, x)" using assms(4) True by simp
    then show False using assms(1) by (simp add: start_ok_def)
  qed
  then have "unat (pos - 1) = unat pos - 1" by (intro unat_minus_one) auto
  then show ?thesis using True assms(3) uncompress_bound [OF assms(4)] by auto
next
  case False
  then have "0 < unat n" "unat n \<le> length p - unat pos" using uncompress_bound [OF assms(4)] by auto
  then show ?thesis using assms(2,3) pos_add [of pos "unat n" p n] by simp
qed

definition bounded_parser :: "type_parser \<Rightarrow> bool" where
  "bounded_parser parse \<longleftrightarrow> (\<forall>cb p t n. length p < 2 ^ 31 \<longrightarrow> parse cb p = Ok (t, n) \<longrightarrow> unat n \<le> length p)"

lemma parse_bound:
  assumes "bounded_parser parse" and "length p < 2 ^ 31" and "unat pos \<le> length p" and "parse cb (at_pos p pos) = Ok (t, n)"
  shows "unat (pos + n) = unat pos + unat n \<and> unat (pos + n) \<le> length p"
proof -
  have "length (at_pos p pos) < 2 ^ 31" using assms(2) by simp
  then have "unat n \<le> length p - unat pos" using assms(1,4) unfolding bounded_parser_def by fastforce
  then show ?thesis using assms(2,3) pos_add [of pos "unat n" p n] by simp
qed

lemma numbers_bound:
  "start_ok p \<Longrightarrow> length p < 2 ^ 31 \<Longrightarrow> unat pos \<le> length p \<Longrightarrow> numbers_loop n p pos = Ok (xs, pos') \<Longrightarrow> unat pos' \<le> length p"
proof (induction n arbitrary: pos xs)
  case (Suc n)
  then obtain cb x ys where r: "CorSigUncompressData (at_pos p pos) = Ok (cb, x)" "numbers_loop n p (pos + cb) = Ok (ys, pos')"
    by (auto simp: bindR_Ok_iff)
  show ?case by (rule Suc.IH [OF Suc.prems(1,2) _ r(2)]) (use read_bound [OF Suc.prems(1-3) r(1)] in blast)
qed simp

lemma types_bound:
  assumes "bounded_parser parse" and "length p < 2 ^ 31"
  shows "unat pos \<le> length p \<Longrightarrow> types_loop parse n cb p pos = Ok (ts, pos') \<Longrightarrow> unat pos' \<le> length p"
proof (induction n arbitrary: pos ts)
  case (Suc n)
  then obtain t m ys where r: "parse (cb - pos) (at_pos p pos) = Ok (t, m)" "types_loop parse n cb p (pos + m) = Ok (ys, pos')"
    by (auto simp: bindR_Ok_iff expect_def split: if_splits)
  show ?case by (rule Suc.IH [OF _ r(2)]) (use parse_bound [OF assms Suc.prems(1) r(1)] in blast)
qed simp

lemma modifiers_bound:
  assumes "length p < 2 ^ 31"
  shows "unat pos \<le> length p \<Longrightarrow> modifiers_loop n p pos = Ok (ms, pos') \<Longrightarrow> unat pos' \<le> length p"
proof (induction n arbitrary: pos ms)
  case (Suc n)
  show ?case
  proof (cases "pos' = pos")
    case False
    then obtain e tk cb ms' where r: "byte_at p (unat pos) = Ok e" "CorSigUncompressToken (at_pos p (pos + 1)) = Ok (cb, tk)"
      "modifiers_loop n p (pos + 1 + cb) = Ok (ms', pos')"
      using Suc.prems(2) by (auto simp: bindR_Ok_iff split: if_splits)
    have p1: "unat (pos + 1) = unat pos + 1" using byte_at_OkD [OF r(1)] assms by (intro pos_add [of _ _ p]) auto
    have "unat (pos + 1 + cb) \<le> length p"
      using token_bound [OF r(2)] Suc.prems(1) byte_at_OkD [OF r(1)] p1 assms pos_add [of "pos + 1" "unat cb" p cb] by auto
    then show ?thesis by (rule Suc.IH [OF _ r(3)])
  qed (use Suc.prems in simp)
qed simp

text \<open>The same for each case of the reader.\<close>

lemma one_pos: "p \<noteq> [] \<Longrightarrow> unat (1 :: DWORD) \<le> length p"
  by (cases p) simp_all

lemma token_at_bound:
  assumes "length p < 2 ^ 31" and "0 < unat pos" "unat pos \<le> length p" and "CorSigUncompressToken (at_pos p pos) = Ok (n, tk)"
  shows "unat (pos + n) \<le> length p \<and> (n = - 1 \<or> unat (pos + n) = unat pos + unat n)"
proof (cases "n = - 1")
  case True
  have "unat (pos - 1) = unat pos - 1" using assms(2) by (intro unat_minus_one) auto
  with True assms(3) show ?thesis by simp
next
  case False
  then have "unat n \<le> length p - unat pos" using token_bound [OF assms(4)] by simp
  then show ?thesis using assms(1,3) pos_add [of pos "unat n" p n] by simp
qed

lemma method_bound:
  assumes b: "bounded_parser parse" and l: "length p < 2 ^ 31" and "parseMethodSignature parse p cb = Ok s"
  shows "unat (s_cbRead s) \<le> length p"
proof -
  obtain c conv where c: "CorSigUncompressData p = Ok (c, conv)" "c < cb"
    using assms(3) by (auto simp: parseMethodSignature_def bindR_Ok_iff expect_def split: if_splits)
  have n1: "c \<noteq> - 1" using c(2) by (auto simp: word_less_nat_alt) (metis leD word_le_nat_alt word_n1_ge)
  then have s: "start_ok p" and c1: "unat c \<le> length p" using c uncompress_bound [OF c(1)] by (auto simp: start_ok_def)
  obtain c2 g where c2: "(if conv AND IMAGE_CEE_CS_CALLCONV_GENERIC = IMAGE_CEE_CS_CALLCONV_GENERIC
       then bindR (CorSigUncompressData (at_pos p c)) (\<lambda>(n, g). expect (cb > c + n) (Ok (g, c + n))) else Ok (0, c)) = Ok (g, c2)"
    and k: "\<exists>n np r m ps m'. CorSigUncompressData (at_pos p c2) = Ok (n, np) \<and> parse (cb - (c2 + n)) (at_pos p (c2 + n)) = Ok (r, m) \<and>
       types_loop parse (unat np) (cb - (c2 + n + m)) (at_pos p (c2 + n + m)) 0 = Ok (ps, m') \<and> s_cbRead s = c2 + n + m + m'"
    using assms(3) unfolding parseMethodSignature_def c(1)
    by (auto simp: bindR_Ok_iff expect_def Let_def parseTypeSequence_def split: if_splits)
  have c2b: "unat c2 \<le> length p"
    using c2 c1 read_bound [OF s l c1] by (auto simp: bindR_Ok_iff expect_def split: if_splits)
  from k obtain n np r m ps m' where k: "CorSigUncompressData (at_pos p c2) = Ok (n, np)"
      "parse (cb - (c2 + n)) (at_pos p (c2 + n)) = Ok (r, m)"
      "types_loop parse (unat np) (cb - (c2 + n + m)) (at_pos p (c2 + n + m)) 0 = Ok (ps, m')" "s_cbRead s = c2 + n + m + m'" by blast
  have b2: "unat (c2 + n) \<le> length p" using read_bound [OF s l c2b k(1)] by blast
  have b3: "unat (c2 + n + m) \<le> length p" using parse_bound [OF b l b2 k(2)] by blast
  have "unat m' \<le> length (at_pos p (c2 + n + m))" by (rule types_bound [OF b _ _ k(3)]) (use l in simp_all)
  then show ?thesis using b3 l k(4) pos_add [of "c2 + n + m" "unat m'" p m'] by simp
qed

lemma array_bound:
  assumes b: "bounded_parser parse" and l: "length p < 2 ^ 31" and s: "start_ok p" "p \<noteq> []" and "array_case parse cb p = Ok (t, n)"
  shows "unat n \<le> length p"
proof -
  obtain r m n1 rank n2 c cs pos n3 d ds where k: "parse (cb - 1) (at_pos p 1) = Ok (r, m)"
    "CorSigUncompressData (at_pos p (1 + m)) = Ok (n1, rank)" "CorSigUncompressData (at_pos p (1 + m + n1)) = Ok (n2, c)"
    "numbers_loop (unat c) p (1 + m + n1 + n2) = Ok (cs, pos)" "CorSigUncompressData (at_pos p pos) = Ok (n3, d)"
    "numbers_loop (unat d) p (pos + n3) = Ok (ds, n)"
    using assms(5) by (auto simp: array_case_def bindR_Ok_iff expect_def Let_def split: if_splits)
  have "unat (1 + m) \<le> length p" using parse_bound [OF b l one_pos [OF s(2)] k(1)] by blast
  then have "unat (1 + m + n1) \<le> length p" using read_bound [OF s(1) l _ k(2)] by blast
  then have "unat (1 + m + n1 + n2) \<le> length p" using read_bound [OF s(1) l _ k(3)] by blast
  then have "unat pos \<le> length p" using numbers_bound [OF s(1) l _ k(4)] by blast
  then have "unat (pos + n3) \<le> length p" using read_bound [OF s(1) l _ k(5)] by blast
  then show ?thesis using numbers_bound [OF s(1) l _ k(6)] by blast
qed

lemma genericInstance_bound:
  assumes b: "bounded_parser parse" and l: "length p < 2 ^ 31" and s: "start_ok p" "p \<noteq> []" and "genericInstance_case parse cb p = Ok (t, n)"
  shows "unat n \<le> length p"
proof -
  obtain r m n1 c ps where k: "parse (cb - 1) (at_pos p 1) = Ok (r, m)"
    "CorSigUncompressData (at_pos p (1 + m)) = Ok (n1, c)" "types_loop parse (unat c) cb p (1 + m + n1) = Ok (ps, n)"
    using assms(5) by (auto simp: genericInstance_case_def bindR_Ok_iff expect_def Let_def split: if_splits)
  have "unat (1 + m) \<le> length p" using parse_bound [OF b l one_pos [OF s(2)] k(1)] by blast
  then have "unat (1 + m + n1) \<le> length p" using read_bound [OF s(1) l _ k(2)] by blast
  then show ?thesis using types_bound [OF b l _ k(3)] by blast
qed

lemma modifier_bound:
  assumes b: "bounded_parser parse" and l: "length p < 2 ^ 31" and "p \<noteq> []" and "modifier_case parse e cb p = Ok (t, n)"
  shows "unat n \<le> length p"
proof -
  obtain n1 tk ms pos t' m where k: "CorSigUncompressToken (at_pos p 1) = Ok (n1, tk)"
    "modifiers_loop (Suc (length p)) p (1 + n1) = Ok (ms, pos)" "parse (cb - pos) (at_pos p pos) = Ok (t', m)" "n = pos + m"
    using assms(4) by (auto simp: modifier_case_def bindR_Ok_iff simp del: modifiers_loop.simps)
  have "unat (1 + n1) \<le> length p" using token_at_bound [OF l _ one_pos [OF assms(3)] k(1)] by simp
  then have "unat pos \<le> length p" using modifiers_bound [OF l _ k(2)] by blast
  then show ?thesis using parse_bound [OF b l _ k(3)] k(4) by blast
qed

lemma body_bound:
  assumes b: "bounded_parser parse" and l: "length p < 2 ^ 31" and a: "fromSignature_body parse cb p = Ok (t, n)"
  shows "unat n \<le> length p"
proof -
  obtain e where e: "byte_at p 0 = Ok e" using a by (auto simp: fromSignature_body_def bindR_Ok_iff split: if_splits)
  then have p: "p \<noteq> []" by (auto simp: byte_at_def split: if_splits)
  have one: "unat (1 + m) \<le> length p" if "parse (cb - 1) (at_pos p 1) = Ok (t, m)" for t m
    using parse_bound [OF b l one_pos [OF p] that] by blast
  have tok: "unat (1 + m) \<le> length p" if "CorSigUncompressToken (at_pos p 1) = Ok (m, tk)" for m tk
    using token_at_bound [OF l _ one_pos [OF p] that] by simp
  have meth: "unat (1 + s_cbRead s) \<le> length p" if "parseMethodSignature parse (at_pos p 1) (cb - 1) = Ok s" for s
    using method_bound [OF b _ that] l pos_add [of 1 "unat (s_cbRead s)" p "s_cbRead s"] p by (cases p) simp_all
  consider "e \<in> set simpleElements \<or> e = ELEMENT_TYPE_TYPEDBYREF" | "e = ELEMENT_TYPE_MVAR \<or> e = ELEMENT_TYPE_VAR" | "e = ELEMENT_TYPE_ARRAY"
    | "e = ELEMENT_TYPE_GENERICINST" | "e = ELEMENT_TYPE_CMOD_REQD \<or> e = ELEMENT_TYPE_CMOD_OPT"
    | "e \<in> set [ELEMENT_TYPE_CLASS, ELEMENT_TYPE_VALUETYPE, ELEMENT_TYPE_PTR, ELEMENT_TYPE_BYREF, ELEMENT_TYPE_SZARRAY, ELEMENT_TYPE_FNPTR, ELEMENT_TYPE_PINNED, ELEMENT_TYPE_SENTINEL]"
    using a e by (auto simp: fromSignature_body_def split: if_splits)
  then show ?thesis
  proof cases
    case 1
    then have "n = 1" using a e by (auto simp: fromSignature_body_def split: if_splits)
    then show ?thesis using one_pos [OF p] by simp
  next
    case 2
    then have s: "start_ok p" using start_ok_byte [OF e] by auto
    obtain m x where "CorSigUncompressData (at_pos p 1) = Ok (m, x)" "n = 1 + m"
      using a e 2 by (auto simp: fromSignature_body_def simpleElements_def genericParameter_case_def bindR_Ok_iff split: if_splits)
    then show ?thesis using read_bound [OF s l one_pos [OF p]] by blast
  next
    case 3
    then have s: "start_ok p" using start_ok_byte [OF e] by auto
    have "array_case parse cb p = Ok (t, n)" using a e 3 by (auto simp: fromSignature_body_def simpleElements_def split: if_splits)
    then show ?thesis by (rule array_bound [OF b l s p])
  next
    case 4
    then have s: "start_ok p" using start_ok_byte [OF e] by auto
    have "genericInstance_case parse cb p = Ok (t, n)" using a e 4 by (auto simp: fromSignature_body_def simpleElements_def split: if_splits)
    then show ?thesis by (rule genericInstance_bound [OF b l s p])
  next
    case 5
    have "modifier_case parse e cb p = Ok (t, n)" using a e 5 by (auto simp: fromSignature_body_def simpleElements_def split: if_splits)
    then show ?thesis by (rule modifier_bound [OF b l p])
  next
    case 6
    then show ?thesis using a e one tok meth
      by (auto simp: fromSignature_body_def simpleElements_def fromToken_case_def composite_case_def flag_case_def function_case_def bindR_Ok_iff
        split: if_splits)
  qed
qed

lemma FromSignature_f_bounded: "bounded_parser (FromSignature_f n)"
proof (induction n)
  case (Suc n)
  then show ?case using body_bound [OF Suc] by (simp add: bounded_parser_def)
qed (simp add: bounded_parser_def)

section \<open>A reader that reports malformed modifiers\<close>

text \<open>The specification of when reading ends: the same reader, except that a custom modifier whose token cannot be decompressed
  ends it with \<^verbatim>\<open>META_E_BAD_SIGNATURE\<close>, an error that the code's reader never returns.\<close>

fun checked_modifiers_loop :: "nat \<Rightarrow> byte list \<Rightarrow> DWORD \<Rightarrow> (CType list \<times> DWORD) result" where
  "checked_modifiers_loop 0 p pos = Diverge"
| "checked_modifiers_loop (Suc n) p pos = bindR (byte_at p (unat pos)) (\<lambda>e.
     if e = ELEMENT_TYPE_CMOD_REQD \<or> e = ELEMENT_TYPE_CMOD_OPT then
       bindR (CorSigUncompressToken (at_pos p (pos + 1))) (\<lambda>(cb, token).
       if cb = - 1 then Fail META_E_BAD_SIGNATURE else
       bindR (checked_modifiers_loop n p (pos + 1 + cb)) (\<lambda>(ms, pos). Ok (new_CType e (ModifierType token) # ms, pos)))
     else Ok ([], pos))"

definition checked_modifier_case :: "type_parser \<Rightarrow> CorElementType \<Rightarrow> DWORD \<Rightarrow> byte list \<Rightarrow> (CType \<times> DWORD) result" where
  "checked_modifier_case parse e cb p = bindR (CorSigUncompressToken (at_pos p 1)) (\<lambda>(n, token).
     if n = - 1 then Fail META_E_BAD_SIGNATURE else
     bindR (checked_modifiers_loop (Suc (length p)) p (1 + n)) (\<lambda>(ms, pos).
     bindR (parse (cb - pos) (at_pos p pos)) (\<lambda>(t, newSize).
     Ok (SetModifers (new_CType e (ModifierType token) # ms) t, pos + newSize))))"

definition checked_body :: "type_parser \<Rightarrow> DWORD \<Rightarrow> byte list \<Rightarrow> (CType \<times> DWORD) result" where
  "checked_body parse cb p = (case byte_at p 0 of
       Ok e \<Rightarrow> if cb \<noteq> 0 \<and> (e = ELEMENT_TYPE_CMOD_REQD \<or> e = ELEMENT_TYPE_CMOD_OPT) then checked_modifier_case parse e cb p
         else fromSignature_body parse cb p
     | _ \<Rightarrow> fromSignature_body parse cb p)"

primrec checkedFromSignature_f :: "nat \<Rightarrow> type_parser" where
  "checkedFromSignature_f 0 = (\<lambda>cb p. Diverge)"
| "checkedFromSignature_f (Suc n) = checked_body (checkedFromSignature_f n)"

definition checkedFromSignature :: type_parser where
  "checkedFromSignature cb p = checkedFromSignature_f (Suc (length p)) cb p"

text \<open>What the code's reader does where the other reports a malformed modifier.\<close>

definition stuck :: "'a result \<Rightarrow> 'a result" where
  "stuck r = (case r of Fail META_E_BAD_SIGNATURE \<Rightarrow> Diverge | _ \<Rightarrow> r)"

lemma stuck_simps [simp]: "stuck (Ok x) = Ok x" "stuck Undef = Undef" "stuck Diverge = Diverge" "stuck (Fail META_E_BAD_SIGNATURE) = Diverge"
  by (simp_all add: stuck_def)

lemma stuck_other: "r \<noteq> Fail META_E_BAD_SIGNATURE \<Longrightarrow> stuck r = r"
  by (auto simp: stuck_def split: result.splits hresult.splits)

lemma stuck_bindR: "stuck (bindR m k) = bindR (stuck m) (\<lambda>x. stuck (k x))"
  by (cases m) (auto simp: stuck_def split: hresult.splits)

lemma stuck_expect: "stuck (expect c k) = expect c (stuck k)"
  by (simp add: expect_def stuck_other)

lemma bad_bindR: "bindR m k \<noteq> Fail hr \<longleftrightarrow> m \<noteq> Fail hr \<and> (\<forall>x. m = Ok x \<longrightarrow> k x \<noteq> Fail hr)"
  by (cases m) auto

lemma byte_not_bad: "byte_at p i \<noteq> Fail hr"
  by (simp add: byte_at_def)

lemma data_not_bad: "CorSigUncompressData p \<noteq> Fail hr"
  by (auto simp: CorSigUncompressData_def CorSigUncompressData_len_def bad_bindR byte_not_bad split: prod.splits)

lemma token_not_bad: "CorSigUncompressToken p \<noteq> Fail hr"
  by (auto simp: CorSigUncompressToken_def bad_bindR data_not_bad)

lemma numbers_not_bad: "numbers_loop n p pos \<noteq> Fail hr"
  by (induction n arbitrary: pos) (auto simp: bad_bindR data_not_bad)

lemma drain_not_bad:
  fixes e :: "'a CEnumerator"
  shows "drain e \<noteq> Fail META_E_BAD_SIGNATURE"
proof -
  have n: "fst (next_loop n i xs e) \<noteq> Fail META_E_BAD_SIGNATURE" for n i xs and e :: "'a CEnumerator"
    by (induction n arbitrary: i xs e) (auto simp: op_defs IfFailRet_def deref_def split: prod.splits result.splits option.splits if_splits)
  have "fst (drain_loop n acc e) \<noteq> Fail META_E_BAD_SIGNATURE" for n acc and e :: "'a CEnumerator"
  proof (induction n arbitrary: acc e)
    case (Suc n)
    have "fst (Enum_Next 1 e) \<noteq> Fail META_E_BAD_SIGNATURE" for e :: "'a CEnumerator"
      using n [of "unat (1 :: DWORD)" 0 "replicate (unat (1 :: DWORD)) None" e]
      by (auto simp: op_defs IfFailRet_def Enum_Next_def split: prod.splits result.splits)
    then show ?case using Suc
      by (auto simp: op_defs IfFailRet_def deref_def split: prod.splits result.splits option.splits) (metis fst_conv)+
  qed (simp add: op_defs)
  then show ?thesis by (simp add: drain_def del: drain_loop.simps)
qed

lemma stuck_reads [simp]: "stuck (byte_at p i) = byte_at p i" "stuck (CorSigUncompressData p) = CorSigUncompressData p"
  "stuck (CorSigUncompressToken p) = CorSigUncompressToken p" "stuck (FromToken e tk) = FromToken e tk"
  "stuck (numbers_loop n p pos) = numbers_loop n p pos" "stuck (drain en) = drain en"
  by (rule stuck_other; simp add: byte_not_bad data_not_bad numbers_not_bad drain_not_bad token_not_bad FromToken_def
      split: prod.splits)+

lemma stuck_prod: "stuck (case x of (a, b) \<Rightarrow> f a b) = (case x of (a, b) \<Rightarrow> stuck (f a b))"
  by (cases x) simp

lemmas stuck_defs = stuck_bindR stuck_expect stuck_prod if_distrib [of stuck] Let_def

lemma modifiers_diverge:
  assumes "byte_at p (unat pos) = Ok e" and "e = ELEMENT_TYPE_CMOD_REQD \<or> e = ELEMENT_TYPE_CMOD_OPT"
    and "CorSigUncompressToken (at_pos p (pos + 1)) = Ok (- 1, tk)"
  shows "modifiers_loop n p pos = Diverge"
  using assms by (induction n) auto

lemma modifiers_stuck: "modifiers_loop n p pos = stuck (checked_modifiers_loop n p pos)"
proof (induction n arbitrary: pos)
  case (Suc n)
  show ?case
  proof (cases "\<exists>e tk. byte_at p (unat pos) = Ok e \<and> (e = ELEMENT_TYPE_CMOD_REQD \<or> e = ELEMENT_TYPE_CMOD_OPT) \<and>
      CorSigUncompressToken (at_pos p (pos + 1)) = Ok (- 1, tk)")
    case True
    then obtain e tk where e: "byte_at p (unat pos) = Ok e" "e = ELEMENT_TYPE_CMOD_REQD \<or> e = ELEMENT_TYPE_CMOD_OPT"
      "CorSigUncompressToken (at_pos p (pos + 1)) = Ok (- 1, tk)" by blast
    have "checked_modifiers_loop (Suc n) p pos = Fail META_E_BAD_SIGNATURE" using e by auto
    then show ?thesis using modifiers_diverge [OF e] by (simp del: modifiers_loop.simps checked_modifiers_loop.simps)
  next
    case False
    then show ?thesis
      by (cases "byte_at p (unat pos)"; cases "CorSigUncompressToken (at_pos p (pos + 1))") (auto simp: stuck_defs Suc byte_not_bad token_not_bad)
  qed
qed simp

lemma types_stuck: "types_loop (\<lambda>cb p. stuck (parse cb p)) n cb p pos = stuck (types_loop parse n cb p pos)"
  by (induction n arbitrary: pos) (simp_all add: stuck_defs)

lemma method_stuck: "parseMethodSignature (\<lambda>cb p. stuck (parse cb p)) p cb = stuck (parseMethodSignature parse p cb)"
  by (simp add: parseMethodSignature_def parseTypeSequence_def types_stuck stuck_defs stuck_other cong: if_cong)

lemma modifier_case_stuck:
  assumes "byte_at p 0 = Ok e" and "e = ELEMENT_TYPE_CMOD_REQD \<or> e = ELEMENT_TYPE_CMOD_OPT"
  shows "modifier_case (\<lambda>cb p. stuck (parse cb p)) e cb p = stuck (checked_modifier_case parse e cb p)"
proof (cases "\<exists>tk. CorSigUncompressToken (at_pos p 1) = Ok (- 1, tk)")
  case True
  then obtain tk where t: "CorSigUncompressToken (at_pos p 1) = Ok (- 1, tk)" by blast
  have "modifiers_loop (Suc (length p)) p 0 = Diverge" using modifiers_diverge [of p 0 e tk] assms t by simp
  then show ?thesis unfolding modifier_case_def checked_modifier_case_def t by (simp del: modifiers_loop.simps)
next
  case False
  then show ?thesis unfolding modifier_case_def checked_modifier_case_def
    by (cases "CorSigUncompressToken (at_pos p 1)")
      (auto simp: stuck_defs modifiers_stuck token_not_bad simp del: modifiers_loop.simps checked_modifiers_loop.simps)
qed

lemma body_stuck: "fromSignature_body (\<lambda>cb p. stuck (parse cb p)) cb p = stuck (checked_body parse cb p)"
proof (cases "\<exists>e. byte_at p 0 = Ok e \<and> cb \<noteq> 0 \<and> (e = ELEMENT_TYPE_CMOD_REQD \<or> e = ELEMENT_TYPE_CMOD_OPT)")
  case True
  then obtain e where e: "byte_at p 0 = Ok e" "cb \<noteq> 0" "e = ELEMENT_TYPE_CMOD_REQD \<or> e = ELEMENT_TYPE_CMOD_OPT" by blast
  then have "fromSignature_body parse' cb p = modifier_case parse' e cb p" for parse' by (auto simp: fromSignature_body_def simpleElements_def)
  moreover have "checked_body parse cb p = checked_modifier_case parse e cb p" using e by (simp add: checked_body_def)
  ultimately show ?thesis using modifier_case_stuck [OF e(1,3)] by simp
next
  case False
  then have "checked_body parse cb p = fromSignature_body parse cb p" by (auto simp: checked_body_def split: result.splits)
  then show ?thesis using False
    by (cases "byte_at p 0")
      (auto simp: fromSignature_body_def fromToken_case_def composite_case_def function_case_def array_case_def genericParameter_case_def
        genericInstance_case_def flag_case_def types_stuck method_stuck stuck_defs stuck_other byte_not_bad cong: if_cong)
qed

lemma FromSignature_f_stuck: "FromSignature_f n = (\<lambda>cb p. stuck (checkedFromSignature_f n cb p))"
proof (induction n)
  case (Suc n)
  show ?case by (simp add: Suc.IH body_stuck fun_eq_iff)
qed (simp add: fun_eq_iff)

lemma checkedFromSignature_f_bounded: "bounded_parser (checkedFromSignature_f n)"
  using FromSignature_f_bounded [of n] unfolding bounded_parser_def FromSignature_f_stuck by (metis stuck_simps(1))

section \<open>The reader comes to an end\<close>

definition ends :: "'a result \<Rightarrow> bool" where
  "ends r \<longleftrightarrow> r \<noteq> Diverge"

lemma ends_simps [simp]: "ends (Ok x)" "ends (Fail e)" "ends Undef" "\<not> ends Diverge"
  by (simp_all add: ends_def)

lemma ends_bindR: "ends m \<Longrightarrow> (\<And>x. m = Ok x \<Longrightarrow> ends (k x)) \<Longrightarrow> ends (bindR m k)"
  by (cases m) auto

lemma ends_expect: "(c \<Longrightarrow> ends k) \<Longrightarrow> ends (expect c k)"
  by (simp add: expect_def)

lemma reads_end: "ends (byte_at p i)" "ends (CorSigUncompressData p)" "ends (CorSigUncompressToken p)" "ends (FromToken e tk)"
proof -
  show b: "ends (byte_at p i)" for i by (simp add: byte_at_def)
  show d: "ends (CorSigUncompressData p)"
    unfolding CorSigUncompressData_def CorSigUncompressData_len_def by (auto intro!: ends_bindR b split: prod.splits)
  show "ends (CorSigUncompressToken p)" unfolding CorSigUncompressToken_def by (auto intro!: ends_bindR d)
  show "ends (FromToken e tk)" by (simp add: FromToken_def)
qed

lemma numbers_end: "ends (numbers_loop n p pos)"
  by (induction n arbitrary: pos) (auto intro!: ends_bindR reads_end)

definition ends_below :: "nat \<Rightarrow> type_parser \<Rightarrow> bool" where
  "ends_below L parse \<longleftrightarrow> (\<forall>cb p. length p < L \<longrightarrow> ends (parse cb p))"

lemma parse_ends:
  assumes "ends_below L parse" and "length p \<le> L" "0 < unat pos" "p \<noteq> []"
  shows "ends (parse cb (at_pos p pos))"
proof -
  have "length (at_pos p pos) < L" using assms(2-4) by (cases p) auto
  then show ?thesis using assms(1) unfolding ends_below_def by blast
qed

lemma types_end:
  assumes "bounded_parser parse" "length p < 2 ^ 31" and e: "\<And>cb pos. 0 < unat pos \<or> \<not> strict \<Longrightarrow> ends (parse cb (at_pos p pos))"
  shows "0 < unat pos \<or> \<not> strict \<Longrightarrow> unat pos \<le> length p \<Longrightarrow> ends (types_loop parse n cb p pos)"
proof (induction n arbitrary: pos)
  case (Suc n)
  have "ends (types_loop parse n cb p (pos + m))" if r: "parse (cb - pos) (at_pos p pos) = Ok (t, m)" for t m
    using parse_bound [OF assms(1,2) Suc.prems(2) r] Suc.prems(1) by (intro Suc.IH) auto
  then show ?case using e [OF Suc.prems(1)] by (auto intro!: ends_bindR ends_expect)
qed simp

lemma types_length: "types_loop parse n cb p pos = Ok (ts, pos') \<Longrightarrow> length ts = n"
  by (induction n arbitrary: pos ts) (auto simp: bindR_Ok_iff expect_def split: if_splits)

lemma byte_at_bits: "byte_at p i = Ok b \<Longrightarrow> bit b n \<Longrightarrow> n < 8"
  using bit_imp_le_length [of "p ! i" n] by (auto simp: byte_at_def bit_simps split: if_splits)

lemma uncompress_small: assumes "CorSigUncompressData p = Ok (cb, x)" shows "small x"
proof -
  consider "x = 0" | "byte_at p 0 = Ok x"
    | b0 b1 where "x = push_bit 8 (b0 AND 0x3f) OR b1" "byte_at p 1 = Ok b1"
    | b0 b1 b2 b3 where "x = push_bit 24 (b0 AND 0x1f) OR push_bit 16 b1 OR push_bit 8 b2 OR b3"
        "byte_at p 1 = Ok b1" "byte_at p 2 = Ok b2" "byte_at p 3 = Ok b3"
    using assms by (auto simp: CorSigUncompressData_def CorSigUncompressData_len_def bindR_Ok_iff SUCCEEDED_def split: if_splits)
  then have "\<forall>n. bit x n \<longrightarrow> n \<le> 28"
  proof cases
    case 2
    then show ?thesis using byte_at_bits [OF 2] by fastforce
  next
    case 3
    have "n \<le> 28" if "bit x n" for n
    proof -
      from that consider "bit (push_bit 8 (b0 AND 0x3f)) n" | "bit b1 n" unfolding 3(1) bit_or_iff by blast
      then show ?thesis
      proof cases
        case 1
        then have "bit (0x3f :: DWORD) (n - 8)" unfolding bit_push_bit_iff bit_and_iff by blast
        then show ?thesis unfolding mask_bits by simp
      next
        case 2
        then show ?thesis using byte_at_bits [OF 3(2), of n] by simp
      qed
    qed
    then show ?thesis by blast
  next
    case 4
    have "n \<le> 28" if "bit x n" for n
    proof -
      from that consider "bit (push_bit 24 (b0 AND 0x1f)) n" | "bit (push_bit 16 b1) n" | "bit (push_bit 8 b2) n" | "bit b3 n"
        unfolding 4(1) bit_or_iff by blast
      then show ?thesis
      proof cases
        case 1
        then have "bit (0x1f :: DWORD) (n - 24)" unfolding bit_push_bit_iff bit_and_iff by blast
        then show ?thesis unfolding mask_bits by simp
      next
        case 2
        then show ?thesis using byte_at_bits [OF 4(2), of "n - 16"] by (simp add: bit_push_bit_iff)
      next
        case 3
        then show ?thesis using byte_at_bits [OF 4(3), of "n - 8"] by (simp add: bit_push_bit_iff)
      next
        case c: 4
        then show ?thesis using byte_at_bits [OF 4(4), of n] by simp
      qed
    qed
    then show ?thesis by blast
  qed simp
  then have "x \<le> mask (Suc 28)" by (intro bits_le_mask) simp_all
  then show ?thesis by (simp add: mask_eq_exp_minus_1)
qed

lemma modifiers_step:
  assumes l: "length p < 2 ^ 31" and b: "byte_at p (unat pos) = Ok e"
    and t: "CorSigUncompressToken (at_pos p (pos + 1)) = Ok (cb, tk)" and "cb \<noteq> - 1"
  shows "unat pos < unat (pos + 1 + cb)" "unat (pos + 1 + cb) \<le> length p"
proof -
  have i: "unat pos < length p" using byte_at_OkD [OF b] by simp
  have p1: "unat (pos + 1) = unat pos + 1" using i l by (intro pos_add [of _ _ p]) auto
  then show "unat pos < unat (pos + 1 + cb)" "unat (pos + 1 + cb) \<le> length p"
    using token_at_bound [OF l _ _ t] i assms(4) by auto
qed

lemma modifiers_end:
  assumes l: "length p < 2 ^ 31"
  shows "unat pos \<le> length p \<Longrightarrow> length p - unat pos < n \<Longrightarrow> ends (checked_modifiers_loop n p pos)"
    and "checked_modifiers_loop n p pos = Ok (ms, pos') \<Longrightarrow> unat pos \<le> unat pos'"
proof -
  show "unat pos \<le> length p \<Longrightarrow> length p - unat pos < n \<Longrightarrow> ends (checked_modifiers_loop n p pos)"
  proof (induction n arbitrary: pos)
    case (Suc n)
    have "ends (checked_modifiers_loop n p (pos + 1 + cb))"
      if "byte_at p (unat pos) = Ok e" "CorSigUncompressToken (at_pos p (pos + 1)) = Ok (cb, tk)" "cb \<noteq> - 1" for e cb tk
      using modifiers_step [OF l that] Suc.prems by (intro Suc.IH) auto
    then show ?case by (auto intro!: ends_bindR reads_end)
  qed simp
  show "checked_modifiers_loop n p pos = Ok (ms, pos') \<Longrightarrow> unat pos \<le> unat pos'"
  proof (induction n arbitrary: pos ms)
    case (Suc n)
    then show ?case using modifiers_step [OF l, of pos] by (fastforce simp: bindR_Ok_iff split: if_splits)
  qed simp
qed

end
