(* ===== verification/TypeTyped.thy ===== *)
theory TypeTyped
  imports TypeParse
begin

text \<open>
  What the reader of signatures yields: types whose class fits their element type, and the fuel it
  needs.
\<close>

section \<open>The reader yields types that fit\<close>

definition yields_typed :: "type_parser \<Rightarrow> bool" where
  "yields_typed parse \<longleftrightarrow> (\<forall>cb p t n. parse cb p = Ok (t, n) \<longrightarrow> typed_type t)"

lemma yields_typedD: "yields_typed parse \<Longrightarrow> parse cb p = Ok (t, n) \<Longrightarrow> typed_type t"
  unfolding yields_typed_def by blast

lemma types_loop_typed:
  "yields_typed parse \<Longrightarrow> types_loop parse n cb p pos = Ok (ts, pos') \<Longrightarrow> list_all typed_type ts"
  by (induction n arbitrary: pos ts) (auto simp: bindR_Ok_iff expect_def yields_typedD split: if_splits)

lemma modifiers_loop_typed: "modifiers_loop n p pos = Ok (ms, pos') \<Longrightarrow> list_all is_modifier ms"
  by (induction n arbitrary: pos ms) (auto simp: bindR_Ok_iff new_CType_def split: if_splits)

lemma next_loop_members:
  "next_loop k i rgelt e = (Ok r, e') \<Longrightarrow> m_members e' = m_members e \<and> (\<forall>x. Some x \<in> set r \<longrightarrow> Some x \<in> set rgelt \<or> x \<in> set (m_members e))"
proof (induction k arbitrary: i rgelt e)
  case (Suc k)
  show ?case
  proof (cases "i + m_dwCurrentIndex e < m_dwLength e")
    case True
    let ?e = "e \<lparr> m_dwCurrentIndex := m_dwCurrentIndex e + 1 \<rparr>" and ?x = "m_members e ! unat (i + m_dwCurrentIndex e)"
    have l: "unat (i + m_dwCurrentIndex e) < length (m_members e)" and n: "next_loop k (i + 1) (rgelt[unat i := Some ?x]) ?e = (Ok r, e')"
      using Suc.prems True by (auto split: if_splits)
    have "?x \<in> set (m_members e)" using l by simp
    with Suc.IH [OF n] show ?thesis using set_update_subset_insert [of rgelt "unat i" "Some ?x"] by auto
  qed (use Suc.prems in simp)
qed simp

lemma drain_loop_members:
  "drain_loop n acc e = (Ok r, e') \<Longrightarrow> set r \<subseteq> set acc \<union> set (m_members e)"
proof (induction n arbitrary: acc e)
  case (Suc n)
  from Suc.prems obtain rg f ok e1 where nx: "Enum_Next 1 e = (Ok (rg, f, ok), e1)"
    and k: "(if ok then IfFailRet (liftR (deref (hd rg))) (\<lambda>x. drain_loop n (acc @ [x])) else ret acc) e1 = (Ok r, e')"
    by (auto elim!: IfFailRet_Ok)
  from nx have lp: "next_loop 1 0 [None] e = (Ok rg, e1)" by (auto simp: Enum_Next_def ret_def gets_def simp del: next_loop.simps elim!: IfFailRet_Ok)
  note mem = next_loop_members [OF lp]
  show ?case
  proof (cases ok)
    case True
    then obtain x where x: "hd rg = Some x" "drain_loop n (acc @ [x]) e1 = (Ok r, e')" using k by (auto simp: liftR_def elim!: IfFailRet_Ok)
    have "length rg = 1" using lp by (auto split: if_splits)
    then have "Some x \<in> set rg" using x(1) by (cases rg) auto
    then show ?thesis using Suc.IH [OF x(2)] mem by auto
  qed (use k in \<open>simp add: ret_def\<close>)
qed (simp add: diverge_def)

lemma drain_members: "drain e = Ok xs \<Longrightarrow> set xs \<subseteq> set (m_members e)"
  using drain_loop_members [of "Suc (unat (m_dwLength e))" "[]" e xs]
  by (cases "drain_loop (Suc (unat (m_dwLength e))) [] e") (auto simp: drain_def)

lemma method_typed:
  assumes "yields_typed parse" and "parseMethodSignature parse p cb = Ok s"
  shows "method_convention (s_callingConvention s)"
    and "s_callingConvention s AND IMAGE_CEE_CS_CALLCONV_GENERIC = 0 \<longrightarrow> s_genericCount s = 0"
    and "typed_type (s_returnType s)" and "list_all typed_type (m_members (s_parameterTypes s))"
  using assms(2) unfolding parseMethodSignature_def
  by (auto simp: bindR_Ok_iff expect_def Let_def parseTypeSequence_def method_convention_def Enum_Initialize_def
    dest: yields_typedD [OF assms(1)] types_loop_typed [OF assms(1)] split: if_splits)

lemma fromSignature_typed:
  assumes "yields_typed parse"
  shows "yields_typed (fromSignature_body parse)"
  unfolding yields_typed_def
proof (intro allI impI)
  note y = yields_typedD [OF assms]
  fix cb p t n assume a: "fromSignature_body parse cb p = Ok (t, n)"
  then have "cb \<noteq> 0" by (auto simp: fromSignature_body_def)
  with a obtain e where e: "(if e \<in> set simpleElements \<or> e = ELEMENT_TYPE_TYPEDBYREF then Ok (new_CType e SimpleType, 1)
       else if e = ELEMENT_TYPE_CLASS \<or> e = ELEMENT_TYPE_VALUETYPE then fromToken_case e p
       else if e = ELEMENT_TYPE_PTR \<or> e = ELEMENT_TYPE_BYREF \<or> e = ELEMENT_TYPE_SZARRAY then composite_case parse e cb p
       else if e = ELEMENT_TYPE_FNPTR then function_case parse cb p
       else if e = ELEMENT_TYPE_ARRAY then array_case parse cb p
       else if e = ELEMENT_TYPE_MVAR \<or> e = ELEMENT_TYPE_VAR then genericParameter_case e p
       else if e = ELEMENT_TYPE_GENERICINST then genericInstance_case parse cb p
       else if e = ELEMENT_TYPE_PINNED then flag_case parse (SetIsPinned True) cb p
       else if e = ELEMENT_TYPE_SENTINEL then flag_case parse (SetIsSentinel True) cb p
       else if e = ELEMENT_TYPE_CMOD_REQD \<or> e = ELEMENT_TYPE_CMOD_OPT then modifier_case parse e cb p
       else Fail E_NOTIMPL) = Ok (t, n)"
    by (auto simp only: fromSignature_body_def bindR_Ok_iff if_False)
  have f: "typed_type t" if x: "flag_case parse f cb p = Ok (t, n)" and z: "f = SetIsPinned True \<or> f = SetIsSentinel True" for f
  proof -
    obtain t' m where t': "parse (cb - 1) (at_pos p 1) = Ok (t', m)" "t = f t'" using x by (auto simp: flag_case_def bindR_Ok_iff)
    then show ?thesis using z y [OF t'(1)] by (cases t') (auto simp: SetIsPinned_def SetIsSentinel_def)
  qed
  have m: "typed_type t" if x: "modifier_case parse e cb p = Ok (t, n)" and z: "e = ELEMENT_TYPE_CMOD_REQD \<or> e = ELEMENT_TYPE_CMOD_OPT"
  proof -
    obtain ms pos pos' t' m tk where t': "modifiers_loop (Suc (length p)) p pos = Ok (ms, pos')" "parse (cb - pos') (at_pos p pos') = Ok (t', m)"
      "t = SetModifers (new_CType e (ModifierType tk) # ms) t'"
      using x by (auto simp: modifier_case_def bindR_Ok_iff simp del: modifiers_loop.simps)
    then show ?thesis using z y [OF t'(2)] modifiers_loop_typed [OF t'(1)]
      by (cases t') (auto simp: SetModifers_def new_CType_def simp del: modifiers_loop.simps)
  qed
  have g: "typed_type t" if "genericInstance_case parse cb p = Ok (t, n)"
    using that y types_loop_typed [OF assms] by (fastforce simp: genericInstance_case_def bindR_Ok_iff expect_def Let_def new_CType_def typed_types_all split: if_splits)
  have h: "typed_type t" if x: "function_case parse cb p = Ok (t, n)"
  proof -
    obtain s ps where s: "parseMethodSignature parse (at_pos p 1) (cb - 1) = Ok s" "drain (s_parameterTypes s) = Ok ps"
      "t = new_CType ELEMENT_TYPE_FNPTR (FunctionType (s_callingConvention s) (s_returnType s) ps (s_genericCount s))"
      using x by (auto simp: function_case_def bindR_Ok_iff)
    show ?thesis using method_typed [OF assms s(1)] drain_members [OF s(2)] s(3)
      by (auto simp: new_CType_def typed_types_all list_all_iff)
  qed
  show "typed_type t"
  proof (cases "e \<in> set simpleElements \<or> e = ELEMENT_TYPE_TYPEDBYREF")
    case True
    with e show ?thesis by (auto simp: new_CType_def)
  next
    case False
    with e f [of "SetIsPinned True"] f [of "SetIsSentinel True"] m g h show ?thesis
      by (auto simp: fromToken_case_def FromToken_def composite_case_def array_case_def genericParameter_case_def new_CType_def
        bindR_Ok_iff expect_def Let_def dest: y split: if_splits)
  qed
qed

lemma FromSignature_f_typed: "yields_typed (FromSignature_f n)"
  by (induction n) (simp_all add: fromSignature_typed, simp add: yields_typed_def)

end
