(* ===== verification/TypeClaims.thy ===== *)
theory TypeClaims
  imports TypeTotal TypeTyped
begin

text \<open>
  The properties of type signatures: writing, reading back, what the reader yields, and when it
  comes to an end.
\<close>

section \<open>The reader comes to an end\<close>

lemma method_ends:
  assumes b: "bounded_parser parse" and l: "length p < 2 ^ 31" and e: "\<And>cb j. ends (parse cb (drop j p))"
  shows "ends (parseMethodSignature parse p cb)" and "parseMethodSignature parse p cb = Ok s \<Longrightarrow> ends (drain (s_parameterTypes s))"
proof -
  have t: "ends (types_loop parse n cb' (at_pos p pos) 0)" for n cb' pos
  proof (rule types_end [where strict = False, OF b])
    show "ends (parse cb (at_pos (at_pos p pos) pos'))" for cb pos' by (simp add: e)
  qed (use l in simp_all)
  show "ends (parseMethodSignature parse p cb)"
    unfolding parseMethodSignature_def parseTypeSequence_def
    by (auto simp: Let_def intro!: ends_bindR ends_expect reads_end e t)
  show "ends (drain (s_parameterTypes s))" if a: "parseMethodSignature parse p cb = Ok s"
  proof -
    obtain np n ts cb' p' pos pos' q where k: "CorSigUncompressData q = Ok (n, np)" "types_loop parse (unat np) cb' p' pos = Ok (ts, pos')"
      "s_parameterTypes s = enum_of ts"
      using a unfolding parseMethodSignature_def parseTypeSequence_def
      by (auto simp: bindR_Ok_iff expect_def Let_def enum_of_def split: if_splits)
    have "length ts < 2 ^ 31" using types_length [OF k(2)] uncompress_small [OF k(1)] by (simp add: word_le_nat_alt)
    then show ?thesis using k(3) drain_enum_of [of ts] by simp
  qed
qed

lemma body_ends:
  assumes b: "bounded_parser parse" and l: "length p < 2 ^ 31" and e: "ends_below (length p) parse"
  shows "ends (checked_body parse cb p)"
proof (cases "p = []")
  case True
  then show ?thesis by (simp add: checked_body_def fromSignature_body_def byte_at_def)
next
  case False
  have one: "unat (1 :: DWORD) \<le> length p" by (rule one_pos [OF False])
  have pe: "ends (parse cb (at_pos p pos))" if "0 < unat pos" for cb pos by (rule parse_ends [OF e order_refl that False])
  have p1: "ends (parse cb (drop (Suc 0) p))" for cb using pe [of 1 cb] by simp
  have m: "ends (parse cb (drop j (drop (Suc 0) p)))" for cb j
  proof -
    have "length (drop j (drop (Suc 0) p)) < length p" using False by (cases p) auto
    then show ?thesis using e unfolding ends_below_def by blast
  qed
  note meth = method_ends [OF b _ m]
  have inst: "ends (types_loop parse (unat c) cb p (1 + k + n))"
    if k: "parse (cb - 1) (at_pos p 1) = Ok (r, k)" and n: "CorSigUncompressData (at_pos p (1 + k)) = Ok (n, c)" and s: "start_ok p" for r k n c
  proof (cases "c = 0")
    case c: False
    have b1: "unat (1 + k) \<le> length p" "0 < unat (1 + k)" using parse_bound [OF b l one k] by simp_all
    then show ?thesis using read_bound [OF s l b1(1) n] c pe
      by (intro types_end [where strict = True, OF b l]) auto
  qed simp
  have mods: "ends (checked_modifier_case parse e cb p)" if h: "byte_at p 0 = Ok e" for e
  proof -
    have st: "0 < unat (1 + n)" "unat (1 + n) \<le> length p" if "CorSigUncompressToken (at_pos p 1) = Ok (n, tk)" "n \<noteq> - 1" for n tk
      using modifiers_step [OF l, of 0 e n tk] h that by simp_all
    have "ends (checked_modifiers_loop (Suc (length p)) p (1 + n))" if "CorSigUncompressToken (at_pos p 1) = Ok (n, tk)" "n \<noteq> - 1" for n tk
      using st [OF that] by (intro modifiers_end(1) [OF l]) auto
    moreover have "ends (parse cb' (at_pos p pos))"
      if "CorSigUncompressToken (at_pos p 1) = Ok (n, tk)" "n \<noteq> - 1" "checked_modifiers_loop (Suc (length p)) p (1 + n) = Ok (ms, pos)" for n tk ms pos cb'
      using modifiers_end(2) [OF l that(3)] st [OF that(1,2)] by (intro pe) linarith
    ultimately show ?thesis unfolding checked_modifier_case_def
      by (auto intro!: ends_bindR reads_end simp del: checked_modifiers_loop.simps)
  qed
  have rest: "ends (fromToken_case e p)" "ends (composite_case parse e cb p)" "ends (function_case parse cb p)" "ends (array_case parse cb p)"
    "ends (genericParameter_case e p)" "ends (flag_case parse f cb p)" for e f
    unfolding fromToken_case_def composite_case_def function_case_def array_case_def genericParameter_case_def flag_case_def
    using p1 meth l by (auto simp: Let_def intro!: ends_bindR ends_expect reads_end numbers_end)
  have gi: "ends (genericInstance_case parse cb p)" if "start_ok p"
    unfolding genericInstance_case_def using p1 inst that by (auto simp: Let_def intro!: ends_bindR ends_expect reads_end)
  show ?thesis
  proof (cases "\<exists>e. byte_at p 0 = Ok e \<and> cb \<noteq> 0 \<and> (e = ELEMENT_TYPE_CMOD_REQD \<or> e = ELEMENT_TYPE_CMOD_OPT)")
    case True
    then show ?thesis using mods by (auto simp: checked_body_def)
  next
    case m: False
    then have "checked_body parse cb p = fromSignature_body parse cb p" by (auto simp: checked_body_def split: result.splits)
    moreover have "ends (fromSignature_body parse cb p)"
      using m unfolding fromSignature_body_def by (auto intro!: ends_bindR reads_end rest gi start_ok_byte)
    ultimately show ?thesis by simp
  qed
qed

lemma checkedFromSignature_f_ends: "length p < n \<Longrightarrow> length p < 2 ^ 31 \<Longrightarrow> ends (checkedFromSignature_f n cb p)"
proof (induction n arbitrary: cb p)
  case (Suc n)
  have "ends_below (length p) (checkedFromSignature_f n)" unfolding ends_below_def using Suc by auto
  then show ?case using body_ends [OF checkedFromSignature_f_bounded Suc.prems(2)] by simp
qed simp

section \<open>Properties\<close>

text \<open>C10. Writing a type and reading it back are inverse: \<^verbatim>\<open>AddToSignature\<close> on a fresh builder succeeds for every
  type whose numbers and tokens can be compressed, and \<^verbatim>\<open>FromSignature\<close>, on the bytes of the builder
  with anything behind them, creates the same type, nested types, custom modifiers and flags
  included, and reports exactly the bytes written.\<close>

theorem type_signature_roundtrip:
  assumes "typed_type t" and "encodable_type t" and "length (sig_of t) + 4 \<le> 2 ^ 30"
  shows "\<exists>b. AddToSignature garbage t new_CSignatureBuilder = (Ok (), b) \<and> SigBuilder_GetSize b = of_nat (length (bytes_of b)) \<and>
    (\<forall>rest cb. length (bytes_of b) \<le> unat cb \<longrightarrow> FromSignature cb (bytes_of b @ rest) = Ok (t, SigBuilder_GetSize b))"
proof -
  obtain b where b: "AddToSignature garbage t new_CSignatureBuilder = (Ok (), b)" "builder_ok b" "bytes_of b = sig_of t"
    using appends_run [OF appends_signature(1) [OF assms(2)] assms(3)] by blast
  have s: "SigBuilder_GetSize b = of_nat (length (bytes_of b))"
    using length_bytes_of [OF b(2)] by (simp add: SigBuilder_GetSize_def)
  have "FromSignature cb (sig_of t @ rest) = Ok (t, of_nat (length (sig_of t)))" if c: "length (sig_of t) \<le> unat cb" for rest cb
  proof -
    have "parses (FromSignature_f (Suc (length (sig_of t @ rest)))) t" by (rule reads_back) (use assms in simp_all)
    with c show ?thesis unfolding parses_def FromSignature_def by blast
  qed
  with b s show ?thesis by auto
qed

definition sample_type :: CType where
  "sample_type = CType ELEMENT_TYPE_GENERICINST False True [CType ELEMENT_TYPE_CMOD_OPT False False [] (ModifierType 0x01000005)]
     (GenericInstance (CType ELEMENT_TYPE_CLASS False False [] (TokenType 0x02000003))
       [CType ELEMENT_TYPE_SZARRAY False False [] (CompositeType (CType ELEMENT_TYPE_I4 False False [] SimpleType)),
        CType ELEMENT_TYPE_FNPTR False False [] (FunctionType 0x20 (CType ELEMENT_TYPE_VOID False False [] SimpleType)
          [CType ELEMENT_TYPE_ARRAY True False [] (ArrayType (CType ELEMENT_TYPE_VAR False False [] (GenericParameterType 1)) 2 [3, 0x100] [0])] 0)])"

theorem type_signature_roundtrip_witness:
  "\<exists>b. AddToSignature (\<lambda>_. 0) sample_type new_CSignatureBuilder = (Ok (), b) \<and> SigBuilder_GetSize b = of_nat (length (bytes_of b)) \<and>
    (\<forall>rest cb. length (bytes_of b) \<le> unat cb \<longrightarrow> FromSignature cb (bytes_of b @ rest) = Ok (sample_type, SigBuilder_GetSize b))"
proof -
  have "typed_type sample_type" by code_simp
  moreover have "encodable_type sample_type" by (simp add: sample_type_def TypeFromToken_def g_tkCorEncodeToken_def)
  moreover have "length (sig_of sample_type) = 24" by code_simp
  ultimately show ?thesis by (intro type_signature_roundtrip) simp_all
qed

text \<open>C24. Every type object the reader creates is well formed: its class is the one of its element type, its
  modifiers are custom modifiers, function types have the calling convention of a method, and so on
  for all nested types; and the reported size never exceeds what can be read from the pointer.\<close>

theorem FromSignature_typed:
  assumes "FromSignature cb p = Ok (t, n)" and "length p < 2 ^ 31"
  shows "typed_type t \<and> unat n \<le> length p"
  using assms yields_typedD [OF FromSignature_f_typed] FromSignature_f_bounded
  unfolding FromSignature_def bounded_parser_def by blast

theorem FromSignature_typed_witness:
  "FromSignature 3 [0x1d, 0x13, 0x05] = Ok (new_CType 0x1d (CompositeType (new_CType 0x13 (GenericParameterType 5))), 3) \<and>
   typed_type (new_CType 0x1d (CompositeType (new_CType 0x13 (GenericParameterType 5)))) \<and> unat (3 :: DWORD) \<le> length [0x1d, 0x13, 0x05 :: byte]"
proof -
  have r: "FromSignature 3 [0x1d, 0x13, 0x05] = Ok (new_CType 0x1d (CompositeType (new_CType 0x13 (GenericParameterType 5))), 3)"
    by code_simp
  with FromSignature_typed [OF r] show ?thesis by simp
qed

text \<open>C23. When reading a signature ends: compare it with a reader that ends with an error when it meets a custom
  modifier, first or later, outermost or nested, whose token cannot be decompressed.  That reader comes to an end on every input.  Where
  it reports such a modifier, the code's reader goes round forever; everywhere else the two agree, so the code's reader ends too, with
  a type, an error or an access outside the buffer.\<close>

theorem FromSignature_ends:
  assumes "length p < 2 ^ 31"
  shows "checkedFromSignature cb p \<noteq> Diverge \<and>
    FromSignature cb p = (if checkedFromSignature cb p = Fail META_E_BAD_SIGNATURE then Diverge else checkedFromSignature cb p)"
proof
  show "checkedFromSignature cb p \<noteq> Diverge"
    using checkedFromSignature_f_ends [of p "Suc (length p)" cb] assms unfolding checkedFromSignature_def ends_def by simp
  show "FromSignature cb p = (if checkedFromSignature cb p = Fail META_E_BAD_SIGNATURE then Diverge else checkedFromSignature cb p)"
    by (simp add: FromSignature_def checkedFromSignature_def FromSignature_f_stuck stuck_other
      del: FromSignature_f.simps checkedFromSignature_f.simps)
qed

theorem FromSignature_ends_witness:
  "FromSignature 2 [0x0f, 0x08] = Ok (new_CType 0x0f (CompositeType (new_CType 0x08 SimpleType)), 2) \<and>
   FromSignature 3 [0x20, 0xff, 0x08] = Diverge \<and> FromSignature 5 [0x0f, 0x20, 0x05, 0x1f, 0xe0] = Diverge"
proof -
  have "checkedFromSignature 2 [0x0f, 0x08] = Ok (new_CType 0x0f (CompositeType (new_CType 0x08 SimpleType)), 2)"
    "checkedFromSignature 3 [0x20, 0xff, 0x08] = Fail META_E_BAD_SIGNATURE"
    "checkedFromSignature 5 [0x0f, 0x20, 0x05, 0x1f, 0xe0] = Fail META_E_BAD_SIGNATURE"
    by code_simp+
  then show ?thesis
    using FromSignature_ends [of "[0x0f, 0x08]" 2] FromSignature_ends [of "[0x20, 0xff, 0x08]" 3]
      FromSignature_ends [of "[0x0f, 0x20, 0x05, 0x1f, 0xe0]" 5] by simp
qed

end
