(* ===== verification/Locals.thy ===== *)
theory Locals
  imports MethodBody TypeClaims MaxStack
begin

text \<open>
  The local variables of a method (\<^verbatim>\<open>InstrumentationEngine/LocalVariableCollection.cpp\<close>): a collection is
  initialised lazily from the signature the method header names, types are added to it, and
  committing it writes the new signature and puts its token into the header.

  A method has two collections, the one that instrumentation changes and a read-only one.  The
  runtime's metadata is a parameter: \<open>md\<close> imports signatures, \<open>emit\<close> is
  \<^verbatim>\<open>IMetaDataEmit::GetTokenFromSig\<close>.
\<close>

section \<open>The collections of a method\<close>

datatype whichLocals = CurrentLocals | OriginalLocals

definition locals_of :: "whichLocals \<Rightarrow> methodinfo \<Rightarrow> CLocalVariableCollection option" where
  "locals_of s mi = (case s of CurrentLocals \<Rightarrow> m_localVariables mi | OriginalLocals \<Rightarrow> m_origLocalVariables mi)"

definition set_locals :: "whichLocals \<Rightarrow> CLocalVariableCollection \<Rightarrow> methodinfo \<Rightarrow> methodinfo" where
  "set_locals s c mi = (case s of CurrentLocals \<Rightarrow> mi \<lparr> m_localVariables := Some c \<rparr> | OriginalLocals \<Rightarrow> mi \<lparr> m_origLocalVariables := Some c \<rparr>)"

definition get_locals :: "whichLocals \<Rightarrow> mid \<Rightarrow> (world, CLocalVariableCollection) op" where
  "get_locals s m = IfFailRet (get_method m) (\<lambda>mi. liftR (deref (locals_of s mi)))"

definition put_locals :: "whichLocals \<Rightarrow> mid \<Rightarrow> CLocalVariableCollection \<Rightarrow> (world, unit) op" where
  "put_locals s m c = upd_method m (set_locals s c)"

definition new_CLocalVariableCollection :: "bool \<Rightarrow> CLocalVariableCollection" where
  "new_CLocalVariableCollection bReadOnly = \<lparr> m_typesToAdd = [], m_originalLocalsCount = 0, m_initialized = False,
     m_replacementSig = [], m_bReadOnly = bReadOnly \<rparr>"

definition GetLocalVariables :: "mid \<Rightarrow> (world, unit) op" where
  "GetLocalVariables m = IfFailRet (get_method m) (\<lambda>mi.
     if m_localVariables mi = None then put_locals CurrentLocals m (new_CLocalVariableCollection False) else ret ())"

definition GetOriginalLocalVariables :: "mid \<Rightarrow> (world, unit) op" where
  "GetOriginalLocalVariables m = IfFailRet (get_method m) (\<lambda>mi.
     if m_origLocalVariables mi = None then put_locals OriginalLocals m (new_CLocalVariableCollection True) else ret ())"

definition GetLocalVarSigToken :: "mid \<Rightarrow> (world, mdToken) op" where
  "GetLocalVarSigToken m = IfFailRet (InitializeHeader m) (\<lambda>_. IfFailRet (get_method m) (\<lambda>mi.
     ret (h_LocalVarSigTok (m_newCorHeader mi))))"

definition SetLocalVarSigToken :: "mid \<Rightarrow> mdToken \<Rightarrow> (world, unit) op" where
  "SetLocalVarSigToken m token = IfFailRet (InitializeHeader m) (\<lambda>_.
     upd_method m (\<lambda>mi. mi \<lparr> m_newCorHeader := (m_newCorHeader mi) \<lparr> h_LocalVarSigTok := token \<rparr> \<rparr>))"

section \<open>The operations\<close>

text \<open>The enumerator of the types of the original signature, and whether there is one (\<^verbatim>\<open>S_OK\<close> or
  \<^verbatim>\<open>S_FALSE\<close>).\<close>

definition GetOriginalSignatureInfo :: "metadata result \<Rightarrow> whichLocals \<Rightarrow> mid \<Rightarrow> (world, CType CEnumerator \<times> bool) op" where
  "GetOriginalSignatureInfo md s m = IfFailRet (get_locals s m) (\<lambda>c.
     IfFailRet (if m_replacementSig c = [] then
         IfFailRet (liftR md) (\<lambda>import.
         IfFailRet (GetLocalVarSigToken m) (\<lambda>tkLocalVarSig.
         if tkLocalVarSig \<noteq> mdTokenNil then liftR (GetSigFromToken import tkLocalVarSig) else ret []))
       else ret (m_replacementSig c)) (\<lambda>sig.
     if length sig \<ge> 2 then
       IfFailRet (liftR (ParseLocalVarSignature sig (of_nat (length sig)))) (\<lambda>(conv, types, cbRead). ret (types, True))
     else ret (new_CEnumerator, False)))"

definition Locals_Initialize :: "metadata result \<Rightarrow> whichLocals \<Rightarrow> mid \<Rightarrow> (world, unit) op" where
  "Locals_Initialize md s m = IfFailRet (get_locals s m) (\<lambda>c.
     if m_initialized c then ret ()
     else IfFailRet (GetOriginalSignatureInfo md s m) (\<lambda>(types, ok).
       put_locals s m (c \<lparr> m_originalLocalsCount := (if ok then Enum_GetCount types else m_originalLocalsCount c),
         m_initialized := True \<rparr>)))"

definition ReplaceSignature :: "metadata result \<Rightarrow> whichLocals \<Rightarrow> mid \<Rightarrow> byte list option \<Rightarrow> DWORD \<Rightarrow> (world, unit) op" where
  "ReplaceSignature md s m pSignature dwSigSize = IfFailRet (get_locals s m) (\<lambda>c.
     if m_bReadOnly c then fail E_FAIL
     else if m_initialized c then fail E_FAIL
     else IfNullRetPointer pSignature (\<lambda>p.
       if dwSigSize < 2 then fail E_INVALIDARG
       else IfFailRet (liftR (byte_at p 0)) (\<lambda>b.
       if b AND IMAGE_CEE_CS_CALLCONV_LOCAL_SIG = 0 then fail E_INVALIDARG
       else if length p < unat dwSigSize then undef
       else IfFailRet (put_locals s m (c \<lparr> m_replacementSig := take (unat dwSigSize) p \<rparr>)) (\<lambda>_.
         Locals_Initialize md s m))))"

definition Locals_GetCount :: "metadata result \<Rightarrow> whichLocals \<Rightarrow> mid \<Rightarrow> (world, DWORD) op" where
  "Locals_GetCount md s m = IfFailRet (Locals_Initialize md s m) (\<lambda>_. IfFailRet (get_locals s m) (\<lambda>c.
     ret (m_originalLocalsCount c + of_nat (length (m_typesToAdd c)))))"

definition AddLocal :: "metadata result \<Rightarrow> whichLocals \<Rightarrow> mid \<Rightarrow> CType option \<Rightarrow> (world, DWORD) op" where
  "AddLocal md s m pType = IfNullRetPointer pType (\<lambda>t.
     IfFailRet (Locals_Initialize md s m) (\<lambda>_. IfFailRet (get_locals s m) (\<lambda>c.
     if m_bReadOnly c then fail E_FAIL
     else IfFailRet (put_locals s m (c \<lparr> m_typesToAdd := m_typesToAdd c @ [t] \<rparr>)) (\<lambda>_.
       ret (m_originalLocalsCount c + of_nat (length (m_typesToAdd c @ [t])) - 1)))))"

text \<open>Running a function of the builder that the call owns.\<close>

definition inBuilder :: "(CSignatureBuilder, unit) op \<Rightarrow> CSignatureBuilder \<Rightarrow> (world, CSignatureBuilder) op" where
  "inBuilder f b = (case f b of
       (Ok x, b') \<Rightarrow> ret b' | (Fail e, b') \<Rightarrow> fail e | (Undef, b') \<Rightarrow> undef | (Diverge, b') \<Rightarrow> diverge)"

definition Locals_GetCorSignature :: "(nat \<Rightarrow> byte) \<Rightarrow> metadata result \<Rightarrow> whichLocals \<Rightarrow> mid \<Rightarrow> (world, CSignatureBuilder) op" where
  "Locals_GetCorSignature garbage md s m = IfFailRet (Locals_Initialize md s m) (\<lambda>_. IfFailRet (get_locals s m) (\<lambda>c.
     IfFailRet (inBuilder (Discard (SigBuilder_Add garbage IMAGE_CEE_CS_CALLCONV_LOCAL_SIG) (\<lambda>_.
       Discard (SigBuilder_Add garbage (m_originalLocalsCount c + of_nat (length (m_typesToAdd c)))) (\<lambda>_. ret ()))) new_CSignatureBuilder) (\<lambda>pSignature.
     IfFailRet (if m_originalLocalsCount c > 0 then
         IfFailRet (GetOriginalSignatureInfo md s m) (\<lambda>(types, ok).
         if ok then IfFailRet (liftR (drain types)) (\<lambda>ts. inBuilder (AddTypes garbage ts) pSignature) else ret pSignature)
       else ret pSignature) (\<lambda>pSignature.
     inBuilder (AddTypes garbage (m_typesToAdd c)) pSignature))))"

definition CommitSignature :: "(nat \<Rightarrow> byte) \<Rightarrow> metadata result \<Rightarrow> (byte list \<Rightarrow> mdToken result) \<Rightarrow> whichLocals \<Rightarrow> mid \<Rightarrow> (world, unit) op" where
  "CommitSignature garbage md emit s m = IfFailRet (get_locals s m) (\<lambda>c.
     if \<not> m_initialized c \<or> m_typesToAdd c = [] \<and> m_replacementSig c = [] then ret ()
     else if m_bReadOnly c then fail E_FAIL
     else IfFailRet (Locals_GetCorSignature garbage md s m) (\<lambda>signatureBuilder.
       let size = SigBuilder_GetSize signatureBuilder in
       IfFailRet (liftR (deref (SigBuilder_GetCorSignaturePtr signatureBuilder))) (\<lambda>signatureBuffer.
       IfFailRet (liftR (emit (take (unat size) signatureBuffer))) (\<lambda>newSigToken.
       IfFailRet (SetLocalVarSigToken m newSigToken) (\<lambda>_.
       IfFailRet (get_locals s m) (\<lambda>c.
       put_locals s m (c \<lparr> m_typesToAdd := [], m_originalLocalsCount := 0, m_initialized := False, m_replacementSig := [] \<rparr>)))))))"

text \<open>The local variables as \<^verbatim>\<open>IMethodLocal\<close> objects, which hold the type.\<close>

definition Locals_GetEnum :: "metadata result \<Rightarrow> whichLocals \<Rightarrow> mid \<Rightarrow> (world, CType CEnumerator) op" where
  "Locals_GetEnum md s m = IfFailRet (Locals_Initialize md s m) (\<lambda>_.
     IfFailRet (GetOriginalSignatureInfo md s m) (\<lambda>(types, ok).
     IfFailRet (liftR (drain types)) (\<lambda>methodLocals.
     ret (Enum_Initialize methodLocals new_CEnumerator))))"

end
