(* ===== verification/Render.thy ===== *)
theory Render
  imports Locals
begin

text \<open>
  Rendering an instrumented method: \<^verbatim>\<open>CMethodInfo::CreateILFunctionBody\<close> and
  \<^verbatim>\<open>ApplyIntermediateMethodInstrumentation\<close> (\<^verbatim>\<open>InstrumentationEngine/MethodInfo.cpp\<close>).
  The body is laid out as fat header, code, padding to a multiple of four, exception section.
\<close>

text \<open>The size of the section part: room for one clause, and the data size of the section when
  there is one.\<close>

definition cbSehExtra :: "byte list option \<Rightarrow> DWORD result" where
  "cbSehExtra pSectEh = (case pSectEh of
     None \<Rightarrow> Ok 28
   | Some buf \<Rightarrow> bindR (load_le buf 1 3) (\<lambda>DataSize. Ok (28 + DataSize)))"

definition updatedHeader :: "COR_ILMETHOD_FAT \<Rightarrow> DWORD \<Rightarrow> DWORD \<Rightarrow> bool \<Rightarrow> COR_ILMETHOD_FAT" where
  "updatedHeader h maxStack codeSize hasSect = h \<lparr> h_MaxStack := ucast maxStack, h_CodeSize := codeSize,
     h_Flags := (if hasSect then h_Flags h OR CorILMethod_MoreSects else h_Flags h) \<rparr>"

text \<open>The buffer with the copied header is already part of the method when the calculation of the
  stack depth can fail.  \<open>garbage\<close> gives the bytes of a fresh exception buffer.\<close>

definition CreateILFunctionBody :: "(nat \<Rightarrow> byte) \<Rightarrow> metadata result \<Rightarrow> mid \<Rightarrow> (world, unit) op" where
  "CreateILFunctionBody garbage md m = IfFailRet (get_method m) (\<lambda>mi.
     if m_pIntermediateRenderedMethod mi \<noteq> [] then fail E_FAIL
     else
     let h = m_newCorHeader mi;
         cbHeaderAndIL = ucast (h_Size h) * 4 + of_nat (length (m_pILStream mi)) :: DWORD;
         nNewDelta = (4 - (cbHeaderAndIL AND 3)) AND 3;
         cbNewMethodSizeWithoutHeader = cbHeaderAndIL - of_nat FAT_HEADER_SIZE in
     IfFailRet (CreateExceptionHeader garbage m) (\<lambda>pSectEh.
     IfFailRet (liftR (cbSehExtra pSectEh)) (\<lambda>cbSehExtra.
     let cbNewMethodSize = cbHeaderAndIL + nNewDelta + cbSehExtra in
     IfFailRet (liftR (store_bytes (replicate (unat cbNewMethodSize) 0) 0 (fatHeaderBytes h))) (\<lambda>buf.
     IfFailRet (upd_method m (\<lambda>mi. mi \<lparr> m_pIntermediateRenderedMethod := buf \<rparr>)) (\<lambda>_.
     IfFailRet (liftR (deref (m_pInstructionGraph mi))) (\<lambda>g.
     IfFailRet (CalculateMaxStack md g) (\<lambda>maxStack.
     IfFailRet (liftR (store_bytes buf 0
         (fatHeaderBytes (updatedHeader h maxStack cbNewMethodSizeWithoutHeader (pSectEh \<noteq> None))))) (\<lambda>buf.
     IfFailRet (liftR (if cbNewMethodSizeWithoutHeader > 0
         then copyBytes buf FAT_HEADER_SIZE (m_pILStream mi) (unat cbNewMethodSizeWithoutHeader) else Ok buf)) (\<lambda>buf.
     IfFailRet (liftR (case pSectEh of None \<Rightarrow> Ok buf
         | Some s \<Rightarrow> copyBytes buf (FAT_HEADER_SIZE + unat cbNewMethodSizeWithoutHeader + unat nNewDelta) s (unat cbSehExtra))) (\<lambda>buf.
       upd_method m (\<lambda>mi. mi \<lparr> m_pIntermediateRenderedMethod := buf \<rparr>)))))))))))"

text \<open>\<open>emit\<close> is the function of the runtime that makes a token for a signature.\<close>

definition commitLocals :: "(nat \<Rightarrow> byte) \<Rightarrow> metadata result \<Rightarrow> (byte list \<Rightarrow> mdToken result) \<Rightarrow> mid \<Rightarrow> (world, unit) op" where
  "commitLocals garbage md emit m = IfFailRet (get_method m) (\<lambda>mi.
     if m_localVariables mi \<noteq> None then CommitSignature garbage md emit CurrentLocals m else ret ())"

definition ApplyIntermediateMethodInstrumentation ::
  "(nat \<Rightarrow> byte) \<Rightarrow> metadata result \<Rightarrow> (byte list \<Rightarrow> mdToken result) \<Rightarrow> mid \<Rightarrow> (world, unit) op" where
  "ApplyIntermediateMethodInstrumentation garbage md emit m = IfFailRet (get_method m) (\<lambda>mi.
     IfFailRet (if m_pInstructionGraph mi = None then InitializeInstructionsAndExceptions m else ret ()) (\<lambda>_.
     IfFailRet (get_method m) (\<lambda>mi.
     IfFailRet (liftR (deref (m_pInstructionGraph mi))) (\<lambda>g.
     IfFailRet (EncodeIL g) (\<lambda>(il, pCorILMap).
     IfFailRet (upd_method m (\<lambda>mi. mi \<lparr> m_pILStream := il \<rparr>)) (\<lambda>_.
     IfFailRet (MergeILInstrumentedCodeMap m False pCorILMap) (\<lambda>_.
     IfFailRet (commitLocals garbage md emit m) (\<lambda>_.
     IfFailRet (CreateILFunctionBody garbage md m) (\<lambda>_.
       upd_method m (\<lambda>mi. mi \<lparr> m_bIsInstrumented := True \<rparr>))))))))))"

end
