(* ===== verification/LocalsClaims.thy ===== *)
theory LocalsClaims
  imports Locals
begin

text \<open>
  The local variables of a method denote a list of types: those of the signature its header names,
  followed by the added ones.
\<close>

section \<open>Updates of a method\<close>

definition put_method :: "mid \<Rightarrow> methodinfo \<Rightarrow> world \<Rightarrow> world" where
  "put_method m mi w = w \<lparr> w_methods := (w_methods w)(m \<mapsto> mi) \<rparr>"

lemma put_method_simps [simp]:
  "w_instrs (put_method m mi w) = w_instrs w" "w_graphs (put_method m mi w) = w_graphs w"
  "w_clauses (put_method m mi w) = w_clauses w" "w_next (put_method m mi w) = w_next w"
  "w_methods (put_method m mi w) = (w_methods w)(m \<mapsto> mi)"
  "put_method m mi (put_method m mi' w) = put_method m mi w"
  by (simp_all add: put_method_def)

lemma upd_method_exec: "w_methods w m = Some mi \<Longrightarrow> upd_method m f w = (Ok (), put_method m (f mi) w)"
  by (simp add: upd_method_def put_method_def)

lemma put_method_id: "w_methods w m = Some mi \<Longrightarrow> put_method m mi w = w"
  by (simp add: put_method_def fun_upd_idem)

section \<open>Signatures of locals\<close>

definition local_sig :: "CType list \<Rightarrow> byte list" where
  "local_sig ts = data_bytes IMAGE_CEE_CS_CALLCONV_LOCAL_SIG @ data_bytes (of_nat (length ts)) @ sig_types ts"

definition local_types :: "CType list \<Rightarrow> bool" where
  "local_types ts \<longleftrightarrow> typed_types ts \<and> encodable_types ts \<and> length ts \<le> 0x1FFFFFFF \<and> length (local_sig ts) + 4 \<le> 2 ^ 30"

lemma parses_FromSignature: "typed_type t \<Longrightarrow> encodable_type t \<Longrightarrow> parses FromSignature t"
  unfolding parses_def FromSignature_def
proof (intro allI impI)
  fix cb :: DWORD and rest assume a: "typed_type t" "encodable_type t" "length (sig_of t) \<le> unat cb"
  have "parses (FromSignature_f (Suc (length (sig_of t @ rest)))) t" by (rule reads_back) (use a in simp_all)
  with a(3) show "FromSignature_f (Suc (length (sig_of t @ rest))) cb (sig_of t @ rest) = Ok (t, of_nat (length (sig_of t)))"
    unfolding parses_def by blast
qed

lemma seven: "data_bytes IMAGE_CEE_CS_CALLCONV_LOCAL_SIG = [7]"
  by (simp add: data_bytes_def CorSigCompressData_def)

lemma local_sig_length: "length ts \<le> 0x1FFFFFFF \<Longrightarrow> 2 \<le> length (local_sig ts)"
  using data_bytes_pos [OF small_of_nat, of "length ts"] by (simp add: local_sig_def seven Suc_le_eq)

lemma parse_local_sig:
  assumes "local_types ts"
  shows "ParseLocalVarSignature (local_sig ts) (of_nat (length (local_sig ts))) = Ok (7, enum_of ts, of_nat (length (local_sig ts)))"
proof -
  define A where "A = data_bytes (of_nat (length ts))"
  define p where "p = [7] @ A @ sig_types ts"
  have n: "length ts \<le> 0x1FFFFFFF" and t: "\<forall>t \<in> set ts. parses FromSignature t"
    using assms by (auto simp: local_types_def typed_types_all encodable_types_all list_all_iff intro: parses_FromSignature)
  note s = small_of_nat [OF n]
  have p: "local_sig ts = p" by (simp add: local_sig_def p_def A_def seven)
  have l: "length p = 1 + length A + length (sig_types ts)" by (simp add: p_def)
  have b: "length p < 2 ^ 32" using assms by (simp add: local_types_def p)
  define cb :: DWORD where "cb = of_nat (length p)"
  have cb: "unat cb = length p" using b by (simp add: cb_def unat_DWORD)
  have r1: "CorSigUncompressData p = Ok (1, 7)" using read_data [of 7 "A @ sig_types ts"] by (simp add: p_def seven)
  have A: "0 < length A" using data_bytes_pos [OF s] by (simp add: A_def)
  have g1: "1 < cb" using l A cb by (simp add: word_less_nat_alt del: length_greater_0_conv)
  have d: "drop 1 p = A @ sig_types ts" by (simp add: p_def)
  have r2: "CorSigUncompressData (at_pos p (of_nat 1)) = Ok (of_nat (length A), of_nat (length ts))"
    using read_data_at [OF d [unfolded A_def] s] by (simp add: A_def)
  have g2: "of_nat (1 + length A) \<le> cb" using l b cb by (intro pos_le(1) [THEN iffD2]) linarith+
  have d2: "at_pos p (of_nat (1 + length A)) = sig_types ts @ []" using drop_past [OF d] l b at_pos_of_nat [of "1 + length A" p] by simp
  have r3: "ParseTypeSequence (at_pos p (of_nat (1 + length A))) (cb - of_nat (1 + length A)) (of_nat (length ts)) = Ok (enum_of ts, of_nat (length (sig_types ts)))"
    unfolding ParseTypeSequence_def d2 using l cb by (intro sequence_read [OF t _ n]) (subst unat_minus_pos, linarith, linarith)
  have g3: "of_nat (1 + length A + length (sig_types ts)) \<le> cb" by (simp add: cb_def l)
  show ?thesis unfolding p cb_def [symmetric]
    using r1 g1 r2 g2 r3 g3 by (simp add: ParseLocalVarSignature_def expect_def Let_def add.assoc cb_def l)
qed

text \<open>\<^verbatim>\<open>GetCorSignature\<close> writes that form.\<close>

lemma appends_local_header:
  assumes "small n"
  shows "appends (Discard (SigBuilder_Add garbage IMAGE_CEE_CS_CALLCONV_LOCAL_SIG) (\<lambda>_. Discard (SigBuilder_Add garbage n) (\<lambda>_. ret ())))
    (data_bytes IMAGE_CEE_CS_CALLCONV_LOCAL_SIG @ data_bytes n)"
  unfolding appends_def
proof (intro allI impI)
  fix b assume b: "builder_ok b \<and> length (bytes_of b) + length (data_bytes IMAGE_CEE_CS_CALLCONV_LOCAL_SIG @ data_bytes n) + 4 \<le> 2 ^ 30"
  have "appends (SigBuilder_Add garbage IMAGE_CEE_CS_CALLCONV_LOCAL_SIG) (data_bytes IMAGE_CEE_CS_CALLCONV_LOCAL_SIG)" by (rule appends_data_bytes) simp
  then obtain c where c: "SigBuilder_Add garbage IMAGE_CEE_CS_CALLCONV_LOCAL_SIG b = (Ok (), c)" "builder_ok c"
    "bytes_of c = bytes_of b @ data_bytes IMAGE_CEE_CS_CALLCONV_LOCAL_SIG" using b unfolding appends_def by fastforce
  obtain d where d: "SigBuilder_Add garbage n c = (Ok (), d)" "builder_ok d" "bytes_of d = bytes_of c @ data_bytes n"
    using appends_data_bytes [OF assms, of garbage] b c(2,3) unfolding appends_def by fastforce
  show "\<exists>b'. Discard (SigBuilder_Add garbage IMAGE_CEE_CS_CALLCONV_LOCAL_SIG) (\<lambda>_. Discard (SigBuilder_Add garbage n) (\<lambda>_. ret ())) b = (Ok (), b') \<and>
      builder_ok b' \<and> bytes_of b' = bytes_of b @ data_bytes IMAGE_CEE_CS_CALLCONV_LOCAL_SIG @ data_bytes n"
    using c d by (simp add: ret_def)
qed

lemma inBuilder_appends:
  assumes "appends f bs" and "builder_ok b" and "length (bytes_of b) + length bs + 4 \<le> 2 ^ 30"
  obtains b' where "inBuilder f b w = (Ok b', w)" "builder_ok b'" "bytes_of b' = bytes_of b @ bs"
proof -
  obtain b' where "f b = (Ok (), b')" "builder_ok b'" "bytes_of b' = bytes_of b @ bs" using assms unfolding appends_def by blast
  then show thesis by (intro that [of b']) (simp_all add: inBuilder_def ret_def)
qed

section \<open>The view of a collection\<close>

text \<open>The types of the signature the collection starts from.\<close>

definition original_types :: "metadata \<Rightarrow> methodinfo \<Rightarrow> CLocalVariableCollection \<Rightarrow> CType list \<Rightarrow> bool" where
  "original_types import mi c ts \<longleftrightarrow> (let tok = h_LocalVarSigTok (m_newCorHeader mi) in
     if m_replacementSig c \<noteq> [] then m_replacementSig c = local_sig ts \<and> local_types ts
     else if tok = mdTokenNil then ts = []
     else GetSigFromToken import tok = Ok (local_sig ts) \<and> local_types ts)"

text \<open>The header was read before, and the IL of the method can be had.\<close>

abbreviation header_ready :: "methodinfo \<Rightarrow> bool" where
  "header_ready mi \<equiv> m_bIsHeaderInitialized mi \<and> (\<exists>il. m_methodIl mi = Ok il)"

text \<open>The collection stands for the types \<open>ts\<close> of its signature and the added types \<open>us\<close>.\<close>

definition locals_view :: "metadata \<Rightarrow> whichLocals \<Rightarrow> methodinfo \<Rightarrow> CType list \<Rightarrow> CType list \<Rightarrow> bool" where
  "locals_view import s mi ts us \<longleftrightarrow> (\<exists>c. locals_of s mi = Some c \<and> \<not> m_bReadOnly c \<and> header_ready mi \<and>
     original_types import mi c ts \<and> m_typesToAdd c = us \<and> (us \<noteq> [] \<longrightarrow> m_initialized c) \<and>
     m_originalLocalsCount c = (if m_initialized c then of_nat (length ts) else 0))"

lemma set_locals_simps [simp]:
  "locals_of s (set_locals s c mi) = Some c" "m_newCorHeader (set_locals s c mi) = m_newCorHeader mi"
  "m_bIsHeaderInitialized (set_locals s c mi) = m_bIsHeaderInitialized mi" "m_methodIl (set_locals s c mi) = m_methodIl mi" "set_locals s c (set_locals s c' mi) = set_locals s c mi"
  "locals_of s (mi \<lparr> m_newCorHeader := h \<rparr>) = locals_of s mi"
  by (cases s; simp add: locals_of_def set_locals_def)+

lemma original_types_cong:
  "m_replacementSig c' = m_replacementSig c \<Longrightarrow> m_newCorHeader mi' = m_newCorHeader mi \<Longrightarrow> original_types import mi' c' ts = original_types import mi c ts"
  by (simp add: original_types_def)

lemma locals_exec:
  assumes "w_methods w m = Some mi"
  shows "locals_of s mi = Some c \<Longrightarrow> get_locals s m w = (Ok c, w)"
    and "put_locals s m c w = (Ok (), put_method m (set_locals s c mi) w)"
    and "header_ready mi \<Longrightarrow> GetLocalVarSigToken m w = (Ok (h_LocalVarSigTok (m_newCorHeader mi)), w)"
    and "header_ready mi \<Longrightarrow> SetLocalVarSigToken m tok w =
      (Ok (), put_method m (mi \<lparr> m_newCorHeader := (m_newCorHeader mi) \<lparr> h_LocalVarSigTok := tok \<rparr> \<rparr>) w)"
  using assms by (auto simp: get_locals_def put_locals_def get_method_def liftR_def upd_method_exec
    GetLocalVarSigToken_def SetLocalVarSigToken_def InitializeHeader_def ret_def IfFailRet_def Let_def)

lemma original_exec:
  assumes "w_methods w m = Some mi" "locals_of s mi = Some c" "header_ready mi" "original_types import mi c ts"
  shows "GetOriginalSignatureInfo (Ok import) s m w = (Ok (enum_of ts, ts \<noteq> [] \<or> m_replacementSig c \<noteq> [] \<or> h_LocalVarSigTok (m_newCorHeader mi) \<noteq> mdTokenNil), w)"
proof -
  note e = locals_exec [OF assms(1)]
  have parse: "IfFailRet (liftR (ParseLocalVarSignature (local_sig ts) (of_nat (length (local_sig ts))))) (\<lambda>(conv, types, cbRead). ret (types, True)) w = (Ok (enum_of ts, True), w)"
    and len: "2 \<le> length (local_sig ts)" if "local_types ts"
    using parse_local_sig [OF that] local_sig_length that by (simp_all add: liftR_def ret_def local_types_def)
  have empty: "enum_of ([] :: CType list) = new_CEnumerator" by (simp add: enum_of_def Enum_Initialize_def new_CEnumerator_def)
  let ?tok = "h_LocalVarSigTok (m_newCorHeader mi)"
  define sig where "sig = (if m_replacementSig c \<noteq> [] \<or> ?tok \<noteq> mdTokenNil then local_sig ts else [])"
  have src: "(if m_replacementSig c = [] then IfFailRet (liftR (Ok import)) (\<lambda>import. IfFailRet (GetLocalVarSigToken m) (\<lambda>tkLocalVarSig.
         if tkLocalVarSig \<noteq> mdTokenNil then liftR (GetSigFromToken import tkLocalVarSig) else ret [])) else ret (m_replacementSig c)) w = (Ok sig, w)"
    using assms(4) e(3) [OF assms(3)] by (auto simp: original_types_def sig_def liftR_def ret_def split: if_splits)
  have step: "GetOriginalSignatureInfo (Ok import) s m w =
     (if 2 \<le> length sig then IfFailRet (liftR (ParseLocalVarSignature sig (of_nat (length sig)))) (\<lambda>(conv, types, cbRead). ret (types, True))
      else ret (new_CEnumerator, False)) w"
    unfolding GetOriginalSignatureInfo_def using e(1) [OF assms(2)] src by (simp only: IfFailRet_simps(1))
  show ?thesis
  proof (cases "m_replacementSig c \<noteq> [] \<or> ?tok \<noteq> mdTokenNil")
    case True
    then have "local_types ts" using assms(4) by (auto simp: original_types_def Let_def split: if_splits)
    then show ?thesis using True parse len by (simp add: step sig_def)
  next
    case False
    then have "ts = []" using assms(4) by (simp add: original_types_def Let_def)
    then show ?thesis using False empty by (simp add: step sig_def ret_def)
  qed
qed

section \<open>The operations on the view\<close>

lemma Initialize_exec:
  assumes "w_methods w m = Some mi" "locals_view import s mi ts us"
  shows "\<exists>c. Locals_Initialize (Ok import) s m w = (Ok (), put_method m (set_locals s c mi) w) \<and> m_initialized c \<and> \<not> m_bReadOnly c \<and>
    m_typesToAdd c = us \<and> m_originalLocalsCount c = of_nat (length ts) \<and> original_types import (set_locals s c mi) c ts \<and> header_ready mi \<and>
    (\<forall>c0. locals_of s mi = Some c0 \<longrightarrow> m_replacementSig c = m_replacementSig c0)"
proof -
  from assms(2) obtain c where c: "locals_of s mi = Some c" "\<not> m_bReadOnly c" "header_ready mi" "original_types import mi c ts"
    "m_typesToAdd c = us" "us \<noteq> [] \<longrightarrow> m_initialized c" "m_originalLocalsCount c = (if m_initialized c then of_nat (length ts) else 0)"
    by (auto simp: locals_view_def)
  note e = locals_exec [OF assms(1)]
  show ?thesis
  proof (cases "m_initialized c")
    case True
    have "set_locals s c mi = mi" using c(1) by (cases s; cases mi) (auto simp: set_locals_def locals_of_def)
    then have "Locals_Initialize (Ok import) s m w = (Ok (), put_method m (set_locals s c mi) w)"
      using e(1) [OF c(1)] True assms(1) by (simp add: Locals_Initialize_def ret_def put_method_id)
    then show ?thesis using c True original_types_cong [of c c "set_locals s c mi" mi] by (intro exI [of _ c]) simp
  next
    case False
    let ?ok = "ts \<noteq> [] \<or> m_replacementSig c \<noteq> [] \<or> h_LocalVarSigTok (m_newCorHeader mi) \<noteq> mdTokenNil"
    let ?c = "c \<lparr> m_originalLocalsCount := (if ?ok then Enum_GetCount (enum_of ts) else m_originalLocalsCount c), m_initialized := True \<rparr>"
    have n: "m_originalLocalsCount ?c = of_nat (length ts)"
      using c(7) False by (auto simp: Enum_GetCount_def enum_of_def Enum_Initialize_def)
    have "Locals_Initialize (Ok import) s m w = (Ok (), put_method m (set_locals s ?c mi) w)"
      using e(1) [OF c(1)] e(2) original_exec [OF assms(1) c(1,3,4)] False by (simp add: Locals_Initialize_def)
    then show ?thesis using c n original_types_cong [of ?c c "set_locals s ?c mi" mi] by (intro exI [of _ ?c]) simp
  qed
qed

lemma GetCount_view:
  assumes "w_methods w m = Some mi" "locals_view import s mi ts us"
  shows "\<exists>mi'. Locals_GetCount (Ok import) s m w = (Ok (of_nat (length (ts @ us))), put_method m mi' w) \<and> locals_view import s mi' ts us"
proof -
  obtain c where c: "Locals_Initialize (Ok import) s m w = (Ok (), put_method m (set_locals s c mi) w)" "m_initialized c" "\<not> m_bReadOnly c"
    "m_typesToAdd c = us" "m_originalLocalsCount c = of_nat (length ts)" "original_types import (set_locals s c mi) c ts" "header_ready mi"
    using Initialize_exec [OF assms] by blast
  have w: "w_methods (put_method m (set_locals s c mi) w) m = Some (set_locals s c mi)" by simp
  have "get_locals s m (put_method m (set_locals s c mi) w) = (Ok c, put_method m (set_locals s c mi) w)" by (rule locals_exec(1) [OF w]) simp
  then have "Locals_GetCount (Ok import) s m w = (Ok (of_nat (length (ts @ us))), put_method m (set_locals s c mi) w)"
    using c by (simp add: Locals_GetCount_def ret_def)
  moreover have "locals_view import s (set_locals s c mi) ts us" using c by (simp add: locals_view_def)
  ultimately show ?thesis by blast
qed

lemma AddLocal_view:
  assumes "w_methods w m = Some mi" "locals_view import s mi ts us"
  shows "\<exists>mi'. AddLocal (Ok import) s m (Some t) w = (Ok (of_nat (length (ts @ us))), put_method m mi' w) \<and> locals_view import s mi' ts (us @ [t]) \<and> (\<exists>c. mi' = set_locals s c mi)"
proof -
  obtain c where c: "Locals_Initialize (Ok import) s m w = (Ok (), put_method m (set_locals s c mi) w)" "m_initialized c" "\<not> m_bReadOnly c"
    "m_typesToAdd c = us" "m_originalLocalsCount c = of_nat (length ts)" "original_types import (set_locals s c mi) c ts" "header_ready mi"
    using Initialize_exec [OF assms] by blast
  let ?w = "put_method m (set_locals s c mi) w" and ?c = "c \<lparr> m_typesToAdd := us @ [t] \<rparr>"
  have w: "w_methods ?w m = Some (set_locals s c mi)" by simp
  have "get_locals s m ?w = (Ok c, ?w)" by (rule locals_exec(1) [OF w]) simp
  then have "AddLocal (Ok import) s m (Some t) w = (Ok (of_nat (length (ts @ us))), put_method m (set_locals s ?c mi) w)"
    using c locals_exec(2) [OF w, of s ?c] by (simp add: AddLocal_def IfNullRetPointer_def ret_def)
  moreover have "locals_view import s (set_locals s ?c mi) ts (us @ [t])"
    using c original_types_cong [of ?c c "set_locals s ?c mi" "set_locals s c mi"] by (simp add: locals_view_def)
  ultimately show ?thesis by blast
qed

lemma GetCorSignature_view:
  assumes "w_methods w m = Some mi" "locals_view import s mi ts us" and t: "local_types (ts @ us)"
  shows "\<exists>b c. Locals_GetCorSignature garbage (Ok import) s m w = (Ok b, put_method m (set_locals s c mi) w) \<and> \<not> m_bReadOnly c \<and> builder_ok b \<and> bytes_of b = local_sig (ts @ us)"
proof -
  obtain c where c: "Locals_Initialize (Ok import) s m w = (Ok (), put_method m (set_locals s c mi) w)" "m_initialized c" "\<not> m_bReadOnly c"
    "m_typesToAdd c = us" "m_originalLocalsCount c = of_nat (length ts)" "original_types import (set_locals s c mi) c ts" "header_ready mi"
    using Initialize_exec [OF assms(1,2)] by blast
  let ?w = "put_method m (set_locals s c mi) w"
  have w: "w_methods ?w m = Some (set_locals s c mi)" by simp
  have g: "get_locals s m ?w = (Ok c, ?w)" by (rule locals_exec(1) [OF w]) simp
  have n: "length ts + length us \<le> 0x1FFFFFFF" "length (local_sig (ts @ us)) + 4 \<le> 2 ^ 30" using t by (simp_all add: local_types_def)
  have ty: "appends (AddTypes garbage ts) (sig_types ts)" "appends (AddTypes garbage us) (sig_types us)"
    using t by (auto simp: local_types_def encodable_types_all intro: appends_signature(3))
  let ?h = "data_bytes IMAGE_CEE_CS_CALLCONV_LOCAL_SIG @ data_bytes (of_nat (length ts) + of_nat (length us))"
  have len: "local_sig (ts @ us) = ?h @ sig_types ts @ sig_types us" by (simp add: local_sig_def sig_types_append)
  have "small (of_nat (length ts) + of_nat (length us))" using small_of_nat [OF n(1)] by simp
  from appends_local_header [OF this, of garbage] obtain b1 where b1: "inBuilder (Discard (SigBuilder_Add garbage IMAGE_CEE_CS_CALLCONV_LOCAL_SIG) (\<lambda>_.
       Discard (SigBuilder_Add garbage (of_nat (length ts) + of_nat (length us))) (\<lambda>_. ret ()))) new_CSignatureBuilder ?w = (Ok b1, ?w)"
    "builder_ok b1" "bytes_of b1 = ?h"
    by (rule inBuilder_appends [of _ _ new_CSignatureBuilder ?w]) (use n(2) len new_builder in auto)
  have "\<exists>b2. (if of_nat (length ts) > (0 :: DWORD) then
         IfFailRet (GetOriginalSignatureInfo (Ok import) s m) (\<lambda>(types, ok).
         if ok then IfFailRet (liftR (drain types)) (\<lambda>ts. inBuilder (AddTypes garbage ts) b1) else ret b1)
       else ret b1) ?w = (Ok b2, ?w) \<and> builder_ok b2 \<and> bytes_of b2 = ?h @ sig_types ts"
  proof (cases "ts = []")
    case True
    then show ?thesis using b1 by (simp add: ret_def)
  next
    case False
    have o: "GetOriginalSignatureInfo (Ok import) s m ?w = (Ok (enum_of ts, True), ?w)"
      using original_exec [OF w _ _ c(6)] c(7) False by simp
    have d: "drain (enum_of ts) = Ok ts" using n by (intro drain_enum_of) simp
    have "0 < (of_nat (length ts) :: DWORD)" using False n by (simp add: word_less_nat_alt unat_DWORD)
    moreover obtain b2 where "inBuilder (AddTypes garbage ts) b1 ?w = (Ok b2, ?w)" "builder_ok b2" "bytes_of b2 = bytes_of b1 @ sig_types ts"
      by (rule inBuilder_appends [OF ty(1) b1(2)]) (use n(2) len b1(3) in auto)
    ultimately show ?thesis using o d b1(3) by (simp add: liftR_def)
  qed
  then obtain b2 where b2: "(if of_nat (length ts) > (0 :: DWORD) then
         IfFailRet (GetOriginalSignatureInfo (Ok import) s m) (\<lambda>(types, ok).
         if ok then IfFailRet (liftR (drain types)) (\<lambda>ts. inBuilder (AddTypes garbage ts) b1) else ret b1)
       else ret b1) ?w = (Ok b2, ?w)" "builder_ok b2" "bytes_of b2 = ?h @ sig_types ts" by blast
  obtain b3 where b3: "inBuilder (AddTypes garbage us) b2 ?w = (Ok b3, ?w)" "builder_ok b3" "bytes_of b3 = bytes_of b2 @ sig_types us"
    by (rule inBuilder_appends [OF ty(2) b2(2)]) (use n(2) len b2(3) in auto)
  have "Locals_GetCorSignature garbage (Ok import) s m w = (Ok b3, ?w)"
    unfolding Locals_GetCorSignature_def using c(1,4,5) g b1(1) b2(1) b3(1) by (simp only: IfFailRet_simps(1))
  then show ?thesis using b3 b2(3) len c(3) by (intro exI [of _ b3] exI [of _ c]) simp
qed

text \<open>What committing leaves behind.\<close>

definition committed :: "whichLocals \<Rightarrow> mdToken \<Rightarrow> methodinfo \<Rightarrow> methodinfo" where
  "committed s tok mi = set_locals s \<lparr> m_typesToAdd = [], m_originalLocalsCount = 0, m_initialized = False, m_replacementSig = [], m_bReadOnly = False \<rparr>
     (mi \<lparr> m_newCorHeader := (m_newCorHeader mi) \<lparr> h_LocalVarSigTok := tok \<rparr> \<rparr>)"

lemma CommitSignature_view:
  assumes "w_methods w m = Some mi" "locals_view import s mi ts us" and t: "local_types (ts @ us)" and ne: "us \<noteq> []"
    and tok: "emit (local_sig (ts @ us)) = Ok tok"
  shows "CommitSignature garbage (Ok import) emit s m w = (Ok (), put_method m (committed s tok mi) w)"
proof -
  from assms(2) ne obtain c0 where c0: "locals_of s mi = Some c0" "m_initialized c0" "m_typesToAdd c0 = us" "\<not> m_bReadOnly c0" "header_ready mi"
    by (auto simp: locals_view_def)
  obtain b c where b: "Locals_GetCorSignature garbage (Ok import) s m w = (Ok b, put_method m (set_locals s c mi) w)" "\<not> m_bReadOnly c"
    "builder_ok b" "bytes_of b = local_sig (ts @ us)" using GetCorSignature_view [OF assms(1,2) t, of garbage] by blast
  obtain mem where mem: "m_memory b = Some mem" "take (unat (m_used b)) mem = local_sig (ts @ us)"
    using b(4) local_sig_length [of "ts @ us"] t by (auto simp: bytes_of_def local_types_def split: option.splits)
  let ?w = "put_method m (set_locals s c mi) w" and ?h = "(m_newCorHeader mi) \<lparr> h_LocalVarSigTok := tok \<rparr>"
  let ?mi = "(set_locals s c mi) \<lparr> m_newCorHeader := ?h \<rparr>" let ?v = "put_method m ?mi w"
  have w: "w_methods ?w m = Some (set_locals s c mi)" by simp
  have set: "SetLocalVarSigToken m tok ?w = (Ok (), ?v)" using locals_exec(4) [OF w, of tok] c0(5) by simp
  have v: "w_methods ?v m = Some ?mi" by simp
  have get: "get_locals s m ?v = (Ok c, ?v)" by (rule locals_exec(1) [OF v]) simp
  let ?c = "c \<lparr> m_typesToAdd := [], m_originalLocalsCount := 0, m_initialized := False, m_replacementSig := [] \<rparr>"
  have "set_locals s ?c ?mi = committed s tok mi"
    using b(2) by (cases s; cases c) (simp_all add: committed_def set_locals_def)
  then have put: "put_locals s m ?c ?v = (Ok (), put_method m (committed s tok mi) w)"
    using locals_exec(2) [OF v, of s ?c] by simp
  show ?thesis
    unfolding CommitSignature_def
    using c0 ne b(1) mem set get put tok locals_exec(1) [OF assms(1) c0(1)]
    by (simp add: Let_def liftR_def SigBuilder_GetSize_def SigBuilder_GetCorSignaturePtr_def)
qed

section \<open>Properties\<close>

text \<open>C17. The local variables of a method behave as a list of types, those \<open>ts\<close> of the signature the method
  header names followed by the added ones \<open>us\<close>: the count is the length of the list, a new local gets
  the next index and is appended, and committing the collection writes a signature token into the
  header that stands for the whole list, after which the collection starts over from it with nothing
  pending.\<close>

theorem local_variables_list:
  assumes "w_methods w m = Some mi" and "locals_view import CurrentLocals mi ts us"
  shows "(\<exists>mi'. Locals_GetCount (Ok import) CurrentLocals m w = (Ok (of_nat (length (ts @ us))), put_method m mi' w) \<and>
      locals_view import CurrentLocals mi' ts us) \<and>
    (\<exists>mi'. AddLocal (Ok import) CurrentLocals m (Some t) w = (Ok (of_nat (length (ts @ us))), put_method m mi' w) \<and>
      locals_view import CurrentLocals mi' ts (us @ [t])) \<and>
    (us \<noteq> [] \<and> local_types (ts @ us) \<and> emit (local_sig (ts @ us)) = Ok tok \<and> tok \<noteq> mdTokenNil \<and> GetSigFromToken import tok = Ok (local_sig (ts @ us)) \<longrightarrow>
      (\<exists>mi'. CommitSignature garbage (Ok import) emit CurrentLocals m w = (Ok (), put_method m mi' w) \<and>
        h_LocalVarSigTok (m_newCorHeader mi') = tok \<and> locals_view import CurrentLocals mi' (ts @ us) []))"
proof (intro conjI impI)
  assume a: "us \<noteq> [] \<and> local_types (ts @ us) \<and> emit (local_sig (ts @ us)) = Ok tok \<and> tok \<noteq> mdTokenNil \<and> GetSigFromToken import tok = Ok (local_sig (ts @ us))"
  have "CommitSignature garbage (Ok import) emit CurrentLocals m w = (Ok (), put_method m (committed CurrentLocals tok mi) w)"
    using a by (intro CommitSignature_view [OF assms]) simp_all
  moreover have "locals_view import CurrentLocals (committed CurrentLocals tok mi) (ts @ us) []"
    using a assms(2) by (simp add: locals_view_def committed_def original_types_def Let_def) (auto simp: set_locals_def)
  moreover have "h_LocalVarSigTok (m_newCorHeader (committed CurrentLocals tok mi)) = tok" by (simp add: committed_def)
  ultimately show "\<exists>mi'. CommitSignature garbage (Ok import) emit CurrentLocals m w = (Ok (), put_method m mi' w) \<and>
        h_LocalVarSigTok (m_newCorHeader mi') = tok \<and> locals_view import CurrentLocals mi' (ts @ us) []" by blast
qed (use GetCount_view [OF assms] AddLocal_view [OF assms] in blast)+

definition int_type :: CType where "int_type = new_CType ELEMENT_TYPE_I4 SimpleType"
definition string_type :: CType where "string_type = new_CType ELEMENT_TYPE_STRING SimpleType"

definition locals_metadata :: metadata where
  "locals_metadata = \<lparr> GetMethodSpecProps = (\<lambda>_. Fail E_FAIL), GetMemberRefProps = (\<lambda>_. Fail E_FAIL), GetMemberProps = (\<lambda>_. Fail E_FAIL),
     GetSigFromToken = (\<lambda>tk. if tk = 0x11000001 then Ok [7, 1, 8] else if tk = 0x11000002 then Ok [7, 2, 8, 0x0e] else Fail E_FAIL) \<rparr>"

definition locals_emit :: "byte list \<Rightarrow> mdToken result" where
  "locals_emit sig = (if sig = [7, 2, 8, 0x0e] then Ok 0x11000002 else Fail E_FAIL)"

definition locals_method :: methodinfo where
  "locals_method = \<lparr> m_methodIl = Ok [], m_pInstructionGraph = None, m_pExceptionSection = None,
     m_newCorHeader = \<lparr> h_Flags = 0x13, h_Size = 3, h_MaxStack = 8, h_CodeSize = 0, h_LocalVarSigTok = 0x11000001 \<rparr>,
     m_bIsHeaderInitialized = True, m_pILStream = [], m_pCorILMap = [], m_pIntermediateRenderedMethod = [],
     m_bIsInstrumented = False, m_bIsCreateBaselineEnabled = False, m_signature = Ok [0, 0, 1],
     m_savedILMap = None,
     m_localVariables = Some \<lparr> m_typesToAdd = [string_type], m_originalLocalsCount = 1, m_initialized = True, m_replacementSig = [], m_bReadOnly = False \<rparr>,
     m_origLocalVariables = None \<rparr>"

definition locals_world :: world where
  "locals_world = \<lparr> w_instrs = (\<lambda>_. None), w_next = 0, w_graphs = (\<lambda>_. None), w_nextGraph = 0, w_clauses = (\<lambda>_. None), w_nextClause = 0,
     w_methods = [0 \<mapsto> locals_method] \<rparr>"

lemma sample_locals:
  "local_sig [int_type] = [7, 1, 8]" "local_sig [int_type, string_type] = [7, 2, 8, 0x0e]"
  "local_types [int_type]" "local_types [int_type, string_type]"
  by (simp_all add: local_types_def local_sig_def seven data_bytes_def CorSigCompressData_def int_type_def string_type_def new_CType_def simpleElements_def)

theorem local_variables_list_witness:
  "(\<exists>mi'. AddLocal (Ok locals_metadata) CurrentLocals 0 (Some int_type) locals_world = (Ok 2, put_method 0 mi' locals_world)) \<and>
   (\<exists>mi'. CommitSignature (\<lambda>_. 0) (Ok locals_metadata) locals_emit CurrentLocals 0 locals_world = (Ok (), put_method 0 mi' locals_world) \<and>
        h_LocalVarSigTok (m_newCorHeader mi') = 0x11000002 \<and> locals_view locals_metadata CurrentLocals mi' ([int_type] @ [string_type]) [])"
proof -
  have m: "w_methods locals_world 0 = Some locals_method" by (simp add: locals_world_def)
  have v: "locals_view locals_metadata CurrentLocals locals_method [int_type] [string_type]"
    by (simp add: locals_view_def locals_of_def locals_method_def original_types_def locals_metadata_def sample_locals)
  note r = local_variables_list [OF m v, where garbage = "\<lambda>_. 0" and emit = locals_emit and tok = "0x11000002" and t = int_type]
  have e: "[string_type] \<noteq> [] \<and> local_types ([int_type] @ [string_type]) \<and> locals_emit (local_sig ([int_type] @ [string_type])) = Ok 0x11000002 \<and>
      0x11000002 \<noteq> mdTokenNil \<and> GetSigFromToken locals_metadata 0x11000002 = Ok (local_sig ([int_type] @ [string_type]))"
    using sample_locals by (simp add: locals_emit_def locals_metadata_def)
  have two: "of_nat (length ([int_type] @ [string_type])) = (2 :: DWORD)" by simp
  from r e show ?thesis unfolding two by blast
qed

end
