(* ===== verification/RenderBody.thy ===== *)
theory RenderBody
  imports StackBound Render LocalsClaims
begin

text \<open>
  Running \<^verbatim>\<open>CreateILFunctionBody\<close>: the sizes it computes with 32-bit arithmetic, the writes into the
  buffer, and the layout of the rendered body.
\<close>

section \<open>Sizes\<close>

definition padding :: "nat \<Rightarrow> nat" where
  "padding n = (4 - n mod 4) mod 4"

lemma unat_and_3: "unat (x AND 3 :: DWORD) = unat x mod 4"
proof -
  have "x AND 3 = take_bit 2 x" by (simp add: take_bit_eq_mask mask_eq_exp_minus_1 del: take_bit_eq_mod)
  then show ?thesis by (simp only: unsigned_take_bit_eq) (simp add: take_bit_eq_mod)
qed

lemma delta_padding:
  assumes "12 + n < 2 ^ 32"
  shows "unat ((4 - ((12 + of_nat n :: DWORD) AND 3)) AND 3) = padding n"
proof -
  have u: "unat (12 + of_nat n :: DWORD) = 12 + n"
    using assms unat_of_nat_small [of "12 + n", where 'a = 32] by simp
  have r: "unat ((12 + of_nat n :: DWORD) AND 3) = n mod 4" by (simp add: unat_and_3 u) presburger
  then have "(12 + of_nat n :: DWORD) AND 3 \<le> 4" by (simp add: word_le_nat_alt)
  then have "unat (4 - ((12 + of_nat n :: DWORD) AND 3)) = 4 - n mod 4" by (simp add: unat_sub r)
  then show ?thesis by (simp add: unat_and_3 padding_def)
qed

lemma Align_padding: "Align (12 + n) = 12 + n + padding n"
proof -
  obtain q r where n: "n = 4 * q + r" "r < 4" by (metis mult_div_mod_eq mod_less_divisor zero_less_numeral)
  then have "r = 0 \<or> r = 1 \<or> r = 2 \<or> r = 3" by auto
  with n(1) show ?thesis by (auto simp: Align_def padding_def)
qed


section \<open>Updates of a method the pass does not see\<close>

lemma same_code_views:
  assumes "w_instrs w' = w_instrs w"
  shows "encodable w' xs = encodable w xs" "targets_at w' = targets_at w" "opcode_at w' = opcode_at w" "is_leave w' = is_leave w"
proof -
  have "bytes_at w' = bytes_at w" "isSwitch_at w' = isSwitch_at w"
    using assms by (simp_all add: bytes_at_def isSwitch_at_def fun_eq_iff)
  then show "encodable w' xs = encodable w xs" by (simp only: encodable_def total_bytes_def assms)
  show "targets_at w' = targets_at w" "opcode_at w' = opcode_at w" "is_leave w' = is_leave w"
    using assms by (simp_all add: targets_at_def opcode_at_def is_leave_def fun_eq_iff)
qed

lemma put_method_pass:
  assumes "w_methods w m = Some mi" and "m_pExceptionSection mi' = m_pExceptionSection mi" and "returnElementType mi' = returnElementType mi"
  defines "w' \<equiv> put_method m mi' w"
  shows "clauses_of w' = clauses_of w" "handler_start w' g = handler_start w g" "net_effect md w' k = net_effect md w k"
    "impact_of md w' k = impact_of md w k" "section_ok w' g = section_ok w g" "pass_ready md w' g k xs = pass_ready md w g k xs"
proof -
  have i: "w_instrs w' = w_instrs w" "w_graphs w' = w_graphs w" "w_next w' = w_next w" by (simp_all add: w'_def)
  note v = same_code_views [OF i(1)]
  show c: "clauses_of w' = clauses_of w"
    using assms(1,2) by (auto simp: fun_eq_iff clauses_of_def w'_def split: option.splits)
  then show h: "handler_start w' g = handler_start w g" by (simp add: handler_start_def fun_eq_iff w'_def)
  have "bindR (deref (w_methods w' k)) returnElementType = bindR (deref (w_methods w k)) returnElementType"
    using assms(1,3) by (simp add: w'_def)
  then show n: "net_effect md w' k = net_effect md w k" by (simp only: net_effect_def fun_eq_iff i) simp
  then show "impact_of md w' k = impact_of md w k" by (simp add: impact_of_def fun_eq_iff v)
  show s: "section_ok w' g = section_ok w g"
    using assms(1,2) by (auto simp: section_ok_def w'_def split: option.splits)
  show "pass_ready md w' g k xs = pass_ready md w g k xs"
    by (simp only: pass_ready_def same_code_graph [OF i] s v n i)
qed

lemma maxStack_stable:
  assumes "pass_ready md w g m xs" and "w_methods w1 k = Some mi" and "w1 \<in> {w, refreshed g xs w}"
    and "m_pExceptionSection mi' = m_pExceptionSection mi" and "returnElementType mi' = returnElementType mi"
  shows "\<exists>ms u u'. CalculateMaxStack md g w = (Ok ms, u) \<and> CalculateMaxStack md g (put_method k mi' w1) = (Ok ms, u') \<and>
    w_methods u' k = Some mi'"
proof -
  let ?R = "\<lambda>w. depth_pass (layout w 0 xs) (handler_start w g) (impact_of md w m) (targets_at w) xs 0 0 []"
  let ?w = "put_method k mi' w1"
  have lr: "layout (refreshed g xs w) 0 xs = layout w 0 xs" by (rule ext) simp
  have r1: "pass_ready md w1 g m xs" "?R w1 = ?R w"
    using assms(1,3) pass_ready_refreshed [OF assms(1)] by (auto simp: lr)
  note f = put_method_pass [OF assms(2,4,5)]
  have r2: "pass_ready md ?w g m xs" using r1(1) f(6) by simp
  have i2: "w_instrs ?w = w_instrs w1" by simp
  have "layout ?w 0 xs = layout w1 0 xs" using same_code(2) [OF i2] by (simp add: fun_eq_iff)
  then have "?R ?w = ?R w" using f(2,4) same_code_views(2) [OF i2] r1(2) by simp
  then obtain u' where "CalculateMaxStack md g ?w = (Ok (?R w), u')" "u' \<in> {?w, refreshed g xs ?w}"
    using CalculateMaxStack_exec [OF r2] by auto
  moreover obtain u where "CalculateMaxStack md g w = (Ok (?R w), u)" using CalculateMaxStack_exec [OF assms(1)] by blast
  ultimately show ?thesis by auto
qed

section \<open>The rendered body\<close>

definition body_bytes :: "COR_ILMETHOD_FAT \<Rightarrow> byte list \<Rightarrow> byte list \<Rightarrow> byte list" where
  "body_bytes h il sect = fatHeaderBytes h @ il @ replicate (padding (length il)) 0 @ sect"

lemma write_body:
  assumes "length hd1 = 12" and "length hd2 = 12" and "n = 12 + length il + padding (length il) + length sect"
  shows "store_bytes (replicate n 0) 0 hd1 = Ok (hd1 @ replicate (n - 12) 0)"
    "store_bytes (hd1 @ replicate (n - 12) 0) 0 hd2 = Ok (hd2 @ replicate (n - 12) 0)"
    "copyBytes (hd2 @ replicate (n - 12) 0) 12 il (length il) = Ok (hd2 @ il @ replicate (padding (length il)) 0 @ replicate (length sect) 0)"
    "copyBytes (hd2 @ il @ replicate (padding (length il)) 0 @ replicate (length sect) 0) (12 + length il + padding (length il)) sect (length sect) =
      Ok (hd2 @ il @ replicate (padding (length il)) 0 @ sect)"
  using assms by (simp_all add: store_bytes_def copyBytes_def replicate_add [symmetric])

lemma cbSehExtra_section:
  assumes "24 * length cs < 2 ^ 24"
  shows "cbSehExtra (if cs = [] then None else Some (section_bytes w xs garbage cs)) = Ok (of_nat (28 + 24 * length cs))"
proof (cases "cs = []")
  case False
  let ?d = "of_nat (24 * length cs) :: DWORD"
  have "load_le (section_bytes w xs garbage cs) 1 3 = Ok (take_bit 24 ?d)"
    using load_le_append [where 'a = 32 and n = 3 and w = ?d and pre = "[CorILMethod_Sect_EHTable OR CorILMethod_Sect_FatFormat]" and i = 1]
    by (simp add: section_bytes_def)
  moreover have "unat ?d = 24 * length cs" using assms by (intro unat_of_nat_small) simp
  then have "take_bit 24 ?d = ?d" using assms by (intro take_bit_small) (simp only:)
  ultimately show ?thesis using False by (simp add: cbSehExtra_def)
qed (simp add: cbSehExtra_def)


lemma size_words:
  assumes "h_Size h = 3" and "n < 2 ^ 31" and "k < 2 ^ 25"
  shows "ucast (h_Size h) * 4 + of_nat n = (12 + of_nat n :: DWORD)"
    "unat (12 + of_nat n - of_nat FAT_HEADER_SIZE :: DWORD) = n"
    "unat ((12 + of_nat n) + ((4 - ((12 + of_nat n) AND 3)) AND 3) + of_nat k :: DWORD) = 12 + n + padding n + k"
proof -
  show "ucast (h_Size h) * 4 + of_nat n = (12 + of_nat n :: DWORD)" by (simp add: assms(1))
  show "unat (12 + of_nat n - of_nat FAT_HEADER_SIZE :: DWORD) = n" using assms(2) by (simp add: unat_of_nat_small)
  let ?d = "(4 - ((12 + of_nat n) AND 3)) AND 3 :: DWORD"
  have p: "unat ?d = padding n" using assms(2) by (intro delta_padding) simp
  then have d: "?d = of_nat (padding n)" by (metis of_nat_unat ucast_id)
  have "padding n < 4" by (simp add: padding_def)
  then have "unat (of_nat (12 + n + padding n + k) :: DWORD) = 12 + n + padding n + k"
    using assms(2,3) by (intro unat_of_nat_small) simp
  then show "unat ((12 + of_nat n) + ?d + of_nat k :: DWORD) = 12 + n + padding n + k" unfolding d by simp
qed

text \<open>The writes of the function for the code \<open>il\<close> and the section \<open>s\<close>.\<close>

lemma write_all:
  fixes cw dl ex :: DWORD
  assumes "unat cw = length il" and "unat dl = padding (length il)" and "unat ex = length sect"
    and "N = 12 + length il + padding (length il) + length sect"
    and "sect = (case s of None \<Rightarrow> replicate (length sect) 0 | Some b \<Rightarrow> b)"
  shows "store_bytes (replicate N 0) 0 (fatHeaderBytes h) = Ok (fatHeaderBytes h @ replicate (N - 12) 0)"
    "store_bytes (fatHeaderBytes h @ replicate (N - 12) 0) 0 (fatHeaderBytes h') = Ok (fatHeaderBytes h' @ replicate (N - 12) 0)"
    "(if cw > 0 then copyBytes (fatHeaderBytes h' @ replicate (N - 12) 0) FAT_HEADER_SIZE il (unat cw) else Ok (fatHeaderBytes h' @ replicate (N - 12) 0)) =
      Ok (fatHeaderBytes h' @ il @ replicate (padding (length il)) 0 @ replicate (length sect) 0)"
    "(case s of None \<Rightarrow> Ok (fatHeaderBytes h' @ il @ replicate (padding (length il)) 0 @ replicate (length sect) 0)
      | Some b \<Rightarrow> copyBytes (fatHeaderBytes h' @ il @ replicate (padding (length il)) 0 @ replicate (length sect) 0)
          (FAT_HEADER_SIZE + unat cw + unat dl) b (unat ex)) = Ok (body_bytes h' il sect)"
proof -
  show "store_bytes (replicate N 0) 0 (fatHeaderBytes h) = Ok (fatHeaderBytes h @ replicate (N - 12) 0)"
    "store_bytes (fatHeaderBytes h @ replicate (N - 12) 0) 0 (fatHeaderBytes h') = Ok (fatHeaderBytes h' @ replicate (N - 12) 0)"
    using assms(4) by (simp_all add: store_bytes_def)
  have "cw > 0 \<longleftrightarrow> il \<noteq> []" using assms(1) by (metis length_0_conv unat_0 unat_eq_zero word_gt_0)
  then show "(if cw > 0 then copyBytes (fatHeaderBytes h' @ replicate (N - 12) 0) FAT_HEADER_SIZE il (unat cw) else Ok (fatHeaderBytes h' @ replicate (N - 12) 0)) =
      Ok (fatHeaderBytes h' @ il @ replicate (padding (length il)) 0 @ replicate (length sect) 0)"
    using assms(1,4) by (auto simp: store_bytes_def copyBytes_def replicate_add [symmetric])
  show "(case s of None \<Rightarrow> Ok (fatHeaderBytes h' @ il @ replicate (padding (length il)) 0 @ replicate (length sect) 0)
      | Some b \<Rightarrow> copyBytes (fatHeaderBytes h' @ il @ replicate (padding (length il)) 0 @ replicate (length sect) 0)
          (FAT_HEADER_SIZE + unat cw + unat dl) b (unat ex)) = Ok (body_bytes h' il sect)"
    using assms(1-3,5) by (auto simp: store_bytes_def copyBytes_def body_bytes_def split: option.splits)
qed

lemma CreateILFunctionBody_exec:
  fixes garbage :: "nat \<Rightarrow> byte"
  assumes "w_methods w m = Some mi" "m_pIntermediateRenderedMethod mi = []" "h_Size (m_newCorHeader mi) = 3"
    "m_pInstructionGraph mi = Some g" "m_pExceptionSection mi = Some cs"
    and "pass_ready md w g m xs" and "all_ends_in w xs cs"
    and "24 * length cs < 2 ^ 24" and "length (m_pILStream mi) < 2 ^ 31"
  defines "sect \<equiv> if cs = [] then replicate 28 0 else section_bytes w xs garbage cs"
  shows "\<exists>ms u w'. CalculateMaxStack md g w = (Ok ms, u) \<and> CreateILFunctionBody garbage md m w = (Ok (), w') \<and>
    w_methods w' m = Some (mi \<lparr> m_pIntermediateRenderedMethod := body_bytes
      (updatedHeader (m_newCorHeader mi) ms (of_nat (length (m_pILStream mi))) (cs \<noteq> [])) (m_pILStream mi) sect \<rparr>)"
proof -
  let ?h = "m_newCorHeader mi" and ?il = "m_pILStream mi"
  define s where "s = (if cs = [] then None else Some (section_bytes w xs garbage cs))"
  define cb :: DWORD where "cb = ucast (h_Size ?h) * 4 + of_nat (length ?il)"
  define dl where "dl = (4 - (cb AND 3)) AND 3"
  define cw where "cw = cb - of_nat FAT_HEADER_SIZE"
  define ex :: DWORD where "ex = of_nat (28 + 24 * length cs)"
  define N where "N = 12 + length ?il + padding (length ?il) + length sect"
  have "28 + 24 * length cs < 2 ^ 25" using assms(8) by simp
  note sz = size_words [OF assms(3,9) this]
  have cb: "cb = 12 + of_nat (length ?il)" by (simp add: cb_def assms(3))
  have ls: "length sect = 28 + 24 * length cs" by (simp add: sect_def length_section_bytes)
  have cw: "unat cw = length ?il" "cw = of_nat (length ?il)" using sz(2) by (simp_all add: cw_def cb)
  have dl: "unat dl = padding (length ?il)" using delta_padding [of "length ?il"] assms(9) by (simp add: dl_def cb)
  have ex: "unat ex = length sect" unfolding ex_def ls using assms(8) by (intro unat_of_nat_small) simp
  have N: "unat (cb + dl + ex) = N" using sz(3) assms(8) by (simp add: N_def ls cb dl_def ex_def)
  have se: "sect = (case s of None \<Rightarrow> replicate (length sect) 0 | Some b \<Rightarrow> b)" by (simp add: s_def sect_def)
  have gi: "graph_inv w g xs" using assms(6) by (simp add: pass_ready_def)
  obtain w1 where w1: "CreateExceptionHeader garbage m w = (Ok s, w1)" "w1 \<in> {w, refreshed g xs w}"
    using CreateExceptionHeader_exec [OF gi assms(1,5,7), of garbage] unfolding s_def by blast
  have m1: "w_methods w1 m = Some mi" using w1(2) assms(1) by auto
  define buf where "buf = fatHeaderBytes ?h @ replicate (N - 12) 0"
  define w2 where "w2 = put_method m (mi \<lparr> m_pIntermediateRenderedMethod := buf \<rparr>) w1"
  obtain ms w3 where w3: "CalculateMaxStack md g w2 = (Ok ms, w3)" "w_methods w3 m = Some (mi \<lparr> m_pIntermediateRenderedMethod := buf \<rparr>)"
    and u: "\<exists>u. CalculateMaxStack md g w = (Ok ms, u)"
    using maxStack_stable [OF assms(6) m1 w1(2), of "mi \<lparr> m_pIntermediateRenderedMethod := buf \<rparr>"] unfolding w2_def by (auto simp: returnElementType_defs)
  define h' where "h' = updatedHeader ?h ms cw (s \<noteq> None)"
  have h': "h' = updatedHeader ?h ms (of_nat (length ?il)) (cs \<noteq> [])" by (simp add: h'_def cw(2) s_def)
  have se': "cbSehExtra s = Ok ex" using cbSehExtra_section [OF assms(8), of w xs garbage] by (simp add: s_def ex_def)
  note wr = write_all(1) [OF cw(1) dl ex N_def se, of ?h, folded buf_def] write_all(2) [OF cw(1) dl ex N_def se, of ?h h', folded buf_def]
    write_all(3,4) [OF cw(1) dl ex N_def se, of h']
  have "CreateILFunctionBody garbage md m w = (Ok (), put_method m (mi \<lparr> m_pIntermediateRenderedMethod := body_bytes h' ?il sect \<rparr>) w3)"
    unfolding CreateILFunctionBody_def Let_def
    using assms(1,2,4) w1(1) se' wr m1 w3 N
    by (simp only: IfFailRet_simps get_method_def deref_simps upd_method_exec [OF m1] upd_method_exec [OF w3(2)] w2_def [symmetric]
      cb_def [symmetric] dl_def [symmetric] cw_def [symmetric] h'_def [symmetric] if_False simp_thms exec_liftR) simp
  then show ?thesis using u unfolding h' by auto
qed


lemma body_bytes_parts:
  assumes "h_Size h = 3" and "h_CodeSize h = of_nat (length il)" and "length il < 2 ^ 31"
  shows "readFatHeader (body_bytes h il sect) 0 = Ok h" "take (length il) (drop 12 (body_bytes h il sect)) = il"
    "Fat_GetSect h = (if h_Flags h AND CorILMethod_MoreSects = 0 then None else Some (12 + length il + padding (length il)))"
proof -
  show "readFatHeader (body_bytes h il sect) 0 = Ok h"
    using readFatHeader_bytes [of "[]" 0 h] by (simp add: body_bytes_def)
  show "take (length il) (drop 12 (body_bytes h il sect)) = il" by (simp add: body_bytes_def)
  have "unat (h_CodeSize h) = length il" unfolding assms(2) using assms(3) by (intro unat_of_nat_small) simp
  then show "Fat_GetSect h = (if h_Flags h AND CorILMethod_MoreSects = 0 then None else Some (12 + length il + padding (length il)))"
    by (simp add: Fat_GetSect_def Fat_GetCode_def assms(1) Align_padding)
qed

lemma or_MoreSects: "(f OR CorILMethod_MoreSects) AND CorILMethod_MoreSects \<noteq> 0"
proof
  assume "(f OR CorILMethod_MoreSects) AND CorILMethod_MoreSects = 0"
  then have "\<not> bit ((f OR CorILMethod_MoreSects) AND CorILMethod_MoreSects) 3" by simp
  then show False by (simp add: bit_simps)
qed

end
