(* ===== verification/RenderClaims.thy ===== *)
theory RenderClaims
  imports RenderBody
begin

text \<open>
  The contracts of rendering: the rendered body reads back, instrumenting a method renders its
  current instructions, and IL maps compose.
\<close>

section \<open>Rendering a method\<close>

lemma keeps_pass_ready:
  assumes "keeps w w'" and "pass_ready md w g m xs" and "graph_inv w' g xs" and "encodable w' xs"
  shows "pass_ready md w' g m xs"
proof -
  have "map_option m_pMethodInfo (w_graphs w' g) = map_option m_pMethodInfo (w_graphs w g)" using assms(1) by (simp add: keeps_def)
  then show ?thesis
    using assms(2-4) section_keeps [OF assms(1)] keeps_pass [OF assms(1)]
    by (auto simp: pass_ready_def split: option.splits)
qed

lemma EncodeIL_run:
  assumes "pass_ready md w g m xs"
  shows "\<exists>w'. EncodeIL g w = (Ok (concat (map (encode_at w xs) xs), ilMap_of w 0 0 xs), w') \<and> keeps w w' \<and>
    pass_ready md w' g m xs \<and> rendered w' xs = rendered w xs \<and> w_clauses w' = w_clauses w \<and> w_methods w' = w_methods w"
proof -
  have gl: "graph_list w g xs" and en: "encodable w xs" using assms by (simp_all add: pass_ready_def graph_inv_list)
  obtain w' where w': "EncodeIL g w = (Ok (concat (map (encode_at w xs) xs), ilMap_of w 0 0 xs), w')"
    "w' \<in> {set_offsets 0 xs w, set_fresh g (set_offsets 0 xs w)}" using EncodeIL_list [OF gl en] by blast
  have "code_of (SetOffset z i) = code_of i" for z i by (simp add: code_of_def SetOffset_def)
  then have k: "keeps w w'"
    using w'(2) by (auto simp: keeps_def set_offsets_at option.map_comp comp_def set_fresh_def)
  have "laid w' g xs" "encodable w' xs" using w'(2) laid_set_offsets [OF gl] en by auto
  then have "pass_ready md w' g m xs" by (intro keeps_pass_ready [OF k assms]) (simp_all add: laid_inv)
  moreover have "rendered w' xs = rendered w xs" using w'(2) by (auto simp: rendered_def Let_def fun_eq_iff)
  ultimately show ?thesis using w'(1) k by (simp add: keeps_def)
qed

lemma Merge_exec:
  assumes "w_methods w m = Some mi"
  shows "\<exists>es w'. MergeILInstrumentedCodeMap m False new w = (Ok es, w') \<and> (let l = if m_pCorILMap mi = [] then new else mergeMaps (m_pCorILMap mi) new in
    w' = put_method m (mi \<lparr> m_pCorILMap := l, m_savedILMap := Some l \<rparr>) w)"
  using assms by (simp add: MergeILInstrumentedCodeMap_def get_method_def upd_method_exec Let_def)


text \<open>C4. The body that \<^verbatim>\<open>CreateILFunctionBody\<close> renders is a method body that reads back: the fat
   header is the method's header with the new code size and the stack depth that
   \<^verbatim>\<open>CalculateMaxStack\<close> reports, kept to its sixteen bits; the code follows it unchanged.  When there are
   exception clauses the header announces a section, which is found behind the padding and holds
   every clause over the current offsets.  When there are none, no exception section is found; but the header still announces a
   section if the original one did, as it does when all clauses of a method have been removed, and what is there are zeros.\<close>

theorem CreateILFunctionBody_reads_back:
  assumes "w_methods w m = Some mi" "m_pIntermediateRenderedMethod mi = []" "h_Size (m_newCorHeader mi) = 3"
    "m_pInstructionGraph mi = Some g" "m_pExceptionSection mi = Some cs"
    and "pass_ready md w g m xs" and "all_ends_in w xs cs"
    and "24 * length cs < 2 ^ 24" and "length (m_pILStream mi) < 2 ^ 31"
  shows "\<exists>ms u w' mi' hdr. CalculateMaxStack md g w = (Ok ms, u) \<and> CreateILFunctionBody garbage md m w = (Ok (), w') \<and>
    w_methods w' m = Some mi' \<and> readFatHeader (m_pIntermediateRenderedMethod mi') 0 = Ok hdr \<and>
    h_MaxStack hdr = ucast ms \<and> h_CodeSize hdr = of_nat (length (m_pILStream mi)) \<and> h_LocalVarSigTok hdr = h_LocalVarSigTok (m_newCorHeader mi) \<and>
    take (unat (h_CodeSize hdr)) (drop (Fat_GetCode hdr) (m_pIntermediateRenderedMethod mi')) = m_pILStream mi \<and>
    (h_Flags hdr AND CorILMethod_MoreSects \<noteq> 0 \<longleftrightarrow> cs \<noteq> [] \<or> h_Flags (m_newCorHeader mi) AND CorILMethod_MoreSects \<noteq> 0) \<and>
    (cs = [] \<longrightarrow> DecoderInit (m_pIntermediateRenderedMethod mi') hdr = Ok None \<and>
      (\<forall>p. Fat_GetSect hdr = Some p \<longrightarrow> Sect_KindByte (m_pIntermediateRenderedMethod mi') p = Ok 0)) \<and>
    (cs \<noteq> [] \<longrightarrow> (\<exists>p. DecoderInit (m_pIntermediateRenderedMethod mi') hdr = Ok (Some p) \<and>
      EHCount (m_pIntermediateRenderedMethod mi') p = Ok (length cs) \<and>
      (\<forall>j < length cs. \<exists>old. SectEH_EHClause (m_pIntermediateRenderedMethod mi') p j = Ok (rendered w xs old (clause_at w (cs ! j))))))"
proof -
  let ?il = "m_pILStream mi" and ?sect = "if cs = [] then replicate 28 0 else section_bytes w xs garbage cs"
  obtain ms u w' where r: "CalculateMaxStack md g w = (Ok ms, u)" "CreateILFunctionBody garbage md m w = (Ok (), w')"
    "w_methods w' m = Some (mi \<lparr> m_pIntermediateRenderedMethod :=
       body_bytes (updatedHeader (m_newCorHeader mi) ms (of_nat (length ?il)) (cs \<noteq> [])) ?il ?sect \<rparr>)"
    using CreateILFunctionBody_exec [OF assms(1-9)] by blast
  define hdr where "hdr = updatedHeader (m_newCorHeader mi) ms (of_nat (length ?il)) (cs \<noteq> [])"
  define buf where "buf = body_bytes hdr ?il ?sect"
  have hs: "h_Size hdr = 3" "h_CodeSize hdr = of_nat (length ?il)" by (simp_all add: hdr_def updatedHeader_def assms(3))
  note b = body_bytes_parts(1,2) [OF hs assms(9), of ?sect, folded buf_def] body_bytes_parts(3) [OF hs assms(9)]
  have uc: "unat (h_CodeSize hdr) = length ?il" unfolding hs(2) using assms(9) by (intro unat_of_nat_small) simp
  have fl: "h_Flags hdr = (if cs \<noteq> [] then h_Flags (m_newCorHeader mi) OR CorILMethod_MoreSects else h_Flags (m_newCorHeader mi))"
    by (simp add: hdr_def updatedHeader_def)
  have k: "Sect_KindByte buf (12 + length ?il + padding (length ?il)) = Ok 0" if "cs = []"
    using that by (simp add: buf_def body_bytes_def Sect_KindByte_def load_byte nth_append)
  have "cs = [] \<longrightarrow> DecoderInit buf hdr = Ok None \<and> (\<forall>p. Fat_GetSect hdr = Some p \<longrightarrow> Sect_KindByte buf p = Ok 0)"
    using b(3) k by (auto simp: DecoderInit_def Sect_Kind_def split: if_splits)
  moreover have "h_Flags hdr AND CorILMethod_MoreSects \<noteq> 0 \<longleftrightarrow> cs \<noteq> [] \<or> h_Flags (m_newCorHeader mi) AND CorILMethod_MoreSects \<noteq> 0"
    using or_MoreSects fl by simp
  moreover have "\<exists>p. DecoderInit buf hdr = Ok (Some p) \<and> EHCount buf p = Ok (length cs) \<and>
      (\<forall>j < length cs. \<exists>old. SectEH_EHClause buf p j = Ok (rendered w xs old (clause_at w (cs ! j))))" if ne: "cs \<noteq> []"
  proof -
    let ?pre = "fatHeaderBytes hdr @ ?il @ replicate (padding (length ?il)) 0"
    have bp: "buf = ?pre @ section_bytes w xs garbage cs @ []" "length ?pre = 12 + length ?il + padding (length ?il)"
      using ne by (simp_all add: buf_def body_bytes_def)
    have "Fat_GetSect hdr = Some (length ?pre)"
      using b(3) ne or_MoreSects bp(2) fl by simp
    moreover have "Sect_KindByte buf (length ?pre) = Ok (CorILMethod_Sect_EHTable OR CorILMethod_Sect_FatFormat)"
      unfolding bp(1) by (simp add: Sect_KindByte_def load_byte section_bytes_def nth_append)
    ultimately have "DecoderInit buf hdr = Ok (Some (length ?pre))" by (simp add: DecoderInit_def Sect_Kind_def)
    then show ?thesis using section_bytes_read [OF _ assms(8), of _ ?pre w xs garbage "[]"] ne bp(1) by auto
  qed
  ultimately show ?thesis
    using r b uc hs by (intro exI [of _ ms] exI [of _ u] exI [of _ w'] exI [of _ "mi \<lparr> m_pIntermediateRenderedMethod := buf \<rparr>"] exI [of _ hdr])
      (simp add: buf_def hdr_def [symmetric] Fat_GetCode_def, simp add: hdr_def updatedHeader_def)
qed

lemma commitLocals_exec:
  assumes "w_methods w m = Some mi"
    and "m_localVariables mi = None \<and> tok = h_LocalVarSigTok (m_newCorHeader mi) \<or>
      (\<exists>import ts us. md = Ok import \<and> locals_view import CurrentLocals mi ts us \<and> us \<noteq> [] \<and> local_types (ts @ us) \<and> emit (local_sig (ts @ us)) = Ok tok)"
  shows "\<exists>lv. commitLocals garbage md emit m w =
    (Ok (), put_method m (mi \<lparr> m_newCorHeader := (m_newCorHeader mi) \<lparr> h_LocalVarSigTok := tok \<rparr>, m_localVariables := lv \<rparr>) w)"
proof (cases "m_localVariables mi")
  case None
  then have tok: "tok = h_LocalVarSigTok (m_newCorHeader mi)" using assms(2) by (auto simp: locals_view_def locals_of_def)
  have "mi \<lparr> m_newCorHeader := (m_newCorHeader mi) \<lparr> h_LocalVarSigTok := tok \<rparr>, m_localVariables := None \<rparr> = mi"
    using None tok by (cases mi) simp
  then show ?thesis using None assms(1) by (intro exI [of _ None]) (simp add: commitLocals_def get_method_def ret_def put_method_id)
next
  case (Some c)
  then obtain import ts us where "md = Ok import" "locals_view import CurrentLocals mi ts us" "us \<noteq> []" "local_types (ts @ us)" "emit (local_sig (ts @ us)) = Ok tok"
    using assms(2) by auto
  then have "commitLocals garbage md emit m w = (Ok (), put_method m (committed CurrentLocals tok mi) w)"
    using CommitSignature_view [OF assms(1)] Some assms(1) by (simp add: commitLocals_def get_method_def)
  then show ?thesis by (auto simp: committed_def set_locals_def)
qed

text \<open>C3. \<^verbatim>\<open>ApplyIntermediateMethodInstrumentation\<close> on an edited method succeeds and marks it instrumented: the
  rendered body holds the encoding of the current instructions behind a header with their total
  size and the committed locals signature, and the method's IL map is the map of the new code, merged with
  the one it had, and saved with the module.\<close>

theorem ApplyIntermediateMethodInstrumentation_renders:
  assumes "w_methods w m = Some mi" "m_pIntermediateRenderedMethod mi = []" "h_Size (m_newCorHeader mi) = 3"
    "m_pInstructionGraph mi = Some g" "m_pExceptionSection mi = Some cs"
    and "pass_ready md w g m xs" and "all_ends_in w xs cs"
    and "24 * length cs < 2 ^ 24" and "total_bytes w xs < 2 ^ 31"
    and "m_localVariables mi = None \<and> tok = h_LocalVarSigTok (m_newCorHeader mi) \<or>
      (\<exists>import ts us. md = Ok import \<and> locals_view import CurrentLocals mi ts us \<and> us \<noteq> [] \<and> local_types (ts @ us) \<and> emit (local_sig (ts @ us)) = Ok tok)"
  shows "\<exists>w' mi' hdr. ApplyIntermediateMethodInstrumentation garbage md emit m w = (Ok (), w') \<and>
    w_methods w' m = Some mi' \<and> m_bIsInstrumented mi' \<and>
    readFatHeader (m_pIntermediateRenderedMethod mi') 0 = Ok hdr \<and> h_LocalVarSigTok hdr = tok \<and>
    unat (h_CodeSize hdr) = total_bytes w xs \<and>
    take (total_bytes w xs) (drop 12 (m_pIntermediateRenderedMethod mi')) = concat (map (encode_at w xs) xs) \<and>
    m_pCorILMap mi' = (if m_pCorILMap mi = [] then ilMap_of w 0 0 xs else mergeMaps (m_pCorILMap mi) (ilMap_of w 0 0 xs)) \<and>
    m_savedILMap mi' = Some (m_pCorILMap mi')"
proof -
  let ?il = "concat (map (encode_at w xs) xs)" and ?new = "ilMap_of w 0 0 xs"
  let ?l = "if m_pCorILMap mi = [] then ?new else mergeMaps (m_pCorILMap mi) ?new"
  have "graph_list w g xs" "encodable w xs" using assms(6) by (simp_all add: pass_ready_def graph_inv_list)
  then have len: "length ?il = total_bytes w xs" using length_encode_list [of w g xs xs] by simp
  obtain w1 where w1: "EncodeIL g w = (Ok (?il, ?new), w1)" "pass_ready md w1 g m xs" "w_clauses w1 = w_clauses w" "w_methods w1 = w_methods w"
    using EncodeIL_run [OF assms(6)] by blast
  define mi2 where "mi2 = mi \<lparr> m_pILStream := ?il, m_pCorILMap := ?l, m_savedILMap := Some ?l \<rparr>"
  have "w_methods (put_method m mi2 w1) m = Some mi2" by simp
  from commitLocals_exec [OF this, of tok md emit garbage] obtain lv
    where cm: "commitLocals garbage md emit m (put_method m mi2 w1) = (Ok (), put_method m (mi2 \<lparr> m_newCorHeader := (m_newCorHeader mi) \<lparr> h_LocalVarSigTok := tok \<rparr>, m_localVariables := lv \<rparr>) w1)"
    using assms(10) by (auto simp: mi2_def locals_view_def locals_of_def original_types_def)
  define mi3 where "mi3 = mi2 \<lparr> m_newCorHeader := (m_newCorHeader mi) \<lparr> h_LocalVarSigTok := tok \<rparr>, m_localVariables := lv \<rparr>"
  define w3 where "w3 = put_method m mi3 w1"
  have m1: "w_methods w1 m = Some mi" using assms(1) w1(4) by simp
  have "pass_ready md w3 g m xs"
    using w1(2) put_method_pass(6) [OF m1, of mi3] by (simp add: w3_def mi3_def mi2_def returnElementType_defs)
  moreover have "all_ends_in w3 xs cs" using assms(7) w1(3) by (simp add: all_ends_in_def w3_def)
  moreover have "w_methods w3 m = Some mi3" by (simp add: w3_def)
  ultimately obtain ms w4 sect where w4: "CreateILFunctionBody garbage md m w3 = (Ok (), w4)"
    "w_methods w4 m = Some (mi3 \<lparr> m_pIntermediateRenderedMethod := body_bytes
      (updatedHeader (m_newCorHeader mi3) ms (of_nat (length ?il)) (cs \<noteq> [])) ?il sect \<rparr>)"
    using CreateILFunctionBody_exec [of w3 m mi3 g cs md xs garbage] assms(2-5,8,9) len by (auto simp: mi3_def mi2_def)
  define hdr where "hdr = updatedHeader (m_newCorHeader mi3) ms (of_nat (length ?il)) (cs \<noteq> [])"
  have hs: "h_Size hdr = 3" "h_CodeSize hdr = of_nat (length ?il)" "h_LocalVarSigTok hdr = tok"
    by (simp_all add: hdr_def updatedHeader_def mi3_def assms(3))
  have l31: "length ?il < 2 ^ 31" using len assms(9) by simp
  note b = body_bytes_parts(1,2) [OF hs(1,2) l31, of sect]
  have uc: "unat (h_CodeSize hdr) = total_bytes w xs" unfolding hs(2) len using assms(9) by (intro unat_of_nat_small) simp
  define mi4 where "mi4 = mi3 \<lparr> m_pIntermediateRenderedMethod := body_bytes hdr ?il sect, m_bIsInstrumented := True \<rparr>"
  define ws where "ws = put_method m (mi \<lparr> m_pILStream := ?il \<rparr>) w1"
  obtain es where mg: "MergeILInstrumentedCodeMap m False ?new ws = (Ok es, put_method m mi2 w1)"
    using Merge_exec [of ws m "mi \<lparr> m_pILStream := ?il \<rparr>" ?new] by (auto simp: ws_def mi2_def Let_def)
  note cm = cm [folded mi3_def, folded w3_def]
  have run: "ApplyIntermediateMethodInstrumentation garbage md emit m w = (Ok (), put_method m mi4 w4)"
    unfolding ApplyIntermediateMethodInstrumentation_def
    using assms(1,4) w1(1) m1 mg cm w4(1) upd_method_exec [OF m1, of "m_pILStream_update (\<lambda>_. ?il)", folded ws_def] upd_method_exec [OF w4(2), of "m_bIsInstrumented_update (\<lambda>_. True)"]
    by (simp add: get_method_def mi4_def hdr_def)
  have "m_pIntermediateRenderedMethod mi4 = body_bytes hdr ?il sect" "m_bIsInstrumented mi4" "m_pCorILMap mi4 = ?l" "m_savedILMap mi4 = Some ?l"
    by (simp_all add: mi4_def mi3_def mi2_def)
  moreover have "w_methods (put_method m mi4 w4) m = Some mi4" by simp
  ultimately show ?thesis using run b [unfolded len] uc hs(3)
    by (intro exI [of _ "put_method m mi4 w4"] exI [of _ mi4] exI [of _ hdr] conjI) (simp_all only:)
qed


section \<open>IL maps\<close>

lemma index_distinct:
  assumes "distinct (map newOffset l)"
  shows "indexByNewOffset l n = Some e \<longleftrightarrow> e \<in> set l \<and> newOffset e = n"
proof -
  have "distinct (map fst (rev (map (\<lambda>e. (newOffset e, e)) l)))" using assms by (simp add: rev_map [symmetric] comp_def)
  then show ?thesis by (auto simp: indexByNewOffset_def)
qed

lemma convertEntry_newOffset [simp]: "newOffset (convertEntry old e) = newOffset e"
  by (simp add: convertEntry_def split: option.splits)

text \<open>C22. \<^verbatim>\<open>MergeILInstrumentedCodeMap\<close> composes maps: when the method already has a map, looking up an offset of the
  newest code in the merged map is looking it up in the new map and then in the old one; offsets that
  the old map does not know are dropped.  The merged map is also what the module saves.\<close>

theorem MergeILInstrumentedCodeMap_composes:
  assumes "w_methods w m = Some mi" and "m_pCorILMap mi \<noteq> []" and "distinct (map newOffset new)"
  shows "\<exists>es w' mi'. MergeILInstrumentedCodeMap m False new w = (Ok es, w') \<and> w_methods w' m = Some mi' \<and>
    m_savedILMap mi' = Some (m_pCorILMap mi') \<and>
    (\<forall>n. map_option oldOffset (indexByNewOffset (m_pCorILMap mi') n) =
      Option.bind (indexByNewOffset new n) (\<lambda>e. map_option oldOffset (indexByNewOffset (m_pCorILMap mi) (oldOffset e))))"
proof -
  let ?old = "m_pCorILMap mi"
  let ?l = "mergeMaps ?old new"
  obtain es where m: "MergeILInstrumentedCodeMap m False new w = (Ok es, put_method m (mi \<lparr> m_pCorILMap := ?l, m_savedILMap := Some ?l \<rparr>) w)"
    using Merge_exec [OF assms(1), of new] assms(2) by (auto simp: Let_def)
  have d: "distinct (map newOffset ?l)"
    using assms(3) by (simp add: mergeMaps_def comp_def distinct_map_filter)
  have "map_option oldOffset (indexByNewOffset ?l n) =
      Option.bind (indexByNewOffset new n) (\<lambda>e. map_option oldOffset (indexByNewOffset ?old (oldOffset e)))" for n
  proof (cases "indexByNewOffset ?l n")
    case (Some e')
    then have "e' \<in> set ?l" "newOffset e' = n" by (simp_all add: index_distinct [OF d])
    then obtain e p where e: "e \<in> set new" "indexByNewOffset ?old (oldOffset e) = Some p" "e' = convertEntry ?old e" "newOffset e = n"
      by (auto simp: mergeMaps_def)
    then have "indexByNewOffset new n = Some e" by (simp add: index_distinct [OF assms(3)])
    with Some e show ?thesis by (simp add: convertEntry_def)
  next
    case None
    have "indexByNewOffset ?old (oldOffset e) = None" if e: "indexByNewOffset new n = Some e" for e
    proof (rule ccontr)
      assume "indexByNewOffset ?old (oldOffset e) \<noteq> None"
      then have "convertEntry ?old e \<in> set ?l" "newOffset (convertEntry ?old e) = n"
        using e by (auto simp: index_distinct [OF assms(3)] mergeMaps_def)
      then have "indexByNewOffset ?l n = Some (convertEntry ?old e)" by (simp add: index_distinct [OF d])
      with None show False by simp
    qed
    with None show ?thesis by (cases "indexByNewOffset new n") auto
  qed
  with m show ?thesis
    by (intro exI [of _ es] exI [of _ "put_method m (mi \<lparr> m_pCorILMap := ?l, m_savedILMap := Some ?l \<rparr>) w"]
      exI [of _ "mi \<lparr> m_pCorILMap := ?l, m_savedILMap := Some ?l \<rparr>"]) simp
qed

section \<open>An instrumented method\<close>

definition render_method :: methodinfo where
  "render_method = call_method \<lparr> m_pExceptionSection := Some [0], m_pILStream := [0x02, 0x28, 1, 0, 0, 0x0A, 0x2A],
     m_pCorILMap := [\<lparr> oldOffset = 0, newOffset = 0, fAccurate = True \<rparr>, \<lparr> oldOffset = 4, newOffset = 1, fAccurate = True \<rparr>],
     m_localVariables := Some \<lparr> m_typesToAdd = [int_type], m_originalLocalsCount = 0, m_initialized = True, m_replacementSig = [], m_bReadOnly = False \<rparr> \<rparr>"

definition render_world :: world where
  "render_world = call_world \<lparr> w_methods := [0 \<mapsto> render_method], w_nextClause := 1,
     w_clauses := [0 \<mapsto> (new_CExceptionClause 2) \<lparr> m_pTryFirstInstruction := Some 0, m_pTryLastInstruction := Some 1,
        m_pHandlerFirstInstruction := Some 2, m_pHandlerLastInstruction := Some 2 \<rparr>] \<rparr>"

lemma render_world_method:
  "w_methods render_world 0 = Some render_method" "m_pIntermediateRenderedMethod render_method = []"
  "h_Size (m_newCorHeader render_method) = 3" "m_pInstructionGraph render_method = Some 0"
  "m_pExceptionSection render_method = Some [0]" "h_Flags (m_newCorHeader render_method) AND CorILMethod_MoreSects = 0"
  by (simp_all add: render_world_def render_method_def call_method_def)

lemma render_ends: "all_ends_in render_world [0, 1, 2] [0]"
  by (simp add: all_ends_in_def render_world_def ends_in_def new_CExceptionClause_def)

lemma render_bytes: "total_bytes render_world [0, 1, 2] = 7"
  by code_simp

lemma render_ready: "pass_ready (Ok call_metadata) render_world 0 0 [0, 1, 2]"
proof -
  have "encodable render_world [0, 1, 2]"
    by (rule encodableI [OF _ render_bytes]) (code_simp, simp, code_simp)
  moreover have "graph_inv render_world 0 [0, 1, 2]" "section_ok render_world 0"
    "case w_graphs render_world 0 of None \<Rightarrow> False | Some gr \<Rightarrow> m_pMethodInfo gr = Some 0"
    "list_all (\<lambda>a. is_leave render_world a \<or> net_effect (Ok call_metadata) render_world 0 a \<noteq> None) [0, 1, 2]"
    by code_simp+
  ultimately show ?thesis by (simp add: pass_ready_def)
qed

theorem CreateILFunctionBody_reads_back_witness:
  "\<exists>w' mi' hdr p. CreateILFunctionBody (\<lambda>_. 0xCD) (Ok call_metadata) 0 render_world = (Ok (), w') \<and> w_methods w' 0 = Some mi' \<and>
    readFatHeader (m_pIntermediateRenderedMethod mi') 0 = Ok hdr \<and> h_CodeSize hdr = 7 \<and>
    DecoderInit (m_pIntermediateRenderedMethod mi') hdr = Ok (Some p) \<and> EHCount (m_pIntermediateRenderedMethod mi') p = Ok 1"
proof -
  have "length (m_pILStream render_method) = 7" by (simp add: render_method_def)
  then show ?thesis
    using CreateILFunctionBody_reads_back [OF render_world_method(1-5) render_ready render_ends, of "\<lambda>_. 0xCD"]
    by auto
qed

theorem ApplyIntermediateMethodInstrumentation_renders_witness:
  "\<exists>w' mi' hdr. ApplyIntermediateMethodInstrumentation (\<lambda>_. 0xCD) (Ok call_metadata) (\<lambda>_. Ok 0x11000001) 0 render_world = (Ok (), w') \<and>
    w_methods w' 0 = Some mi' \<and> m_bIsInstrumented mi' \<and>
    readFatHeader (m_pIntermediateRenderedMethod mi') 0 = Ok hdr \<and> h_LocalVarSigTok hdr = 0x11000001 \<and>
    take (total_bytes render_world [0, 1, 2]) (drop 12 (m_pIntermediateRenderedMethod mi')) = concat (map (encode_at render_world [0, 1, 2]) [0, 1, 2])"
proof -
  have l: "total_bytes render_world [0, 1, 2] < 2 ^ 31" by (simp only: render_bytes) simp
  have n: "24 * length [0 :: caddr] < 2 ^ 24" by simp
  have "locals_view call_metadata CurrentLocals render_method [] [int_type]"
    by (simp add: locals_view_def locals_of_def render_method_def call_method_def original_types_def)
  then have v: "\<exists>import ts us. Ok call_metadata = Ok import \<and> locals_view import CurrentLocals render_method ts us \<and> us \<noteq> [] \<and> local_types (ts @ us) \<and>
      (\<lambda>_. Ok 0x11000001) (local_sig (ts @ us)) = Ok (0x11000001 :: mdToken)"
    using sample_locals(3) by (intro exI [of _ call_metadata] exI [of _ "[]"] exI [of _ "[int_type]"]) simp
  show ?thesis
    using ApplyIntermediateMethodInstrumentation_renders [OF render_world_method(1-5) render_ready render_ends n l disjI2 [OF v], of "\<lambda>_. 0xCD"] by blast
qed

theorem MergeILInstrumentedCodeMap_composes_witness:
  "\<exists>es w' mi'. MergeILInstrumentedCodeMap 0 False [\<lparr> oldOffset = 1, newOffset = 6, fAccurate = True \<rparr>] render_world = (Ok es, w') \<and>
    w_methods w' 0 = Some mi' \<and> map_option oldOffset (indexByNewOffset (m_pCorILMap mi') 6) = Some 4"
proof -
  have "m_pCorILMap render_method \<noteq> []" by (simp add: render_method_def)
  moreover have "distinct (map newOffset [\<lparr> oldOffset = 1, newOffset = 6, fAccurate = True \<rparr>])" by simp
  moreover have "Option.bind (indexByNewOffset [\<lparr> oldOffset = 1, newOffset = 6, fAccurate = True \<rparr>] 6)
      (\<lambda>e. map_option oldOffset (indexByNewOffset (m_pCorILMap render_method) (oldOffset e))) = Some 4"
    by (simp add: indexByNewOffset_def render_method_def)
  ultimately show ?thesis
    using MergeILInstrumentedCodeMap_composes [OF render_world_method(1), of "[\<lparr> oldOffset = 1, newOffset = 6, fAccurate = True \<rparr>]"] by metis
qed

end
