(* ===== verification/Disconnect.thy ===== *)
theory Disconnect
  imports EditClaims
begin

text \<open>
  Destruction of an instruction graph (\<^verbatim>\<open>CInstructionGraph::~CInstructionGraph\<close> and the
  \<^verbatim>\<open>Disconnect\<close> functions of \<^verbatim>\<open>Instruction.cpp\<close>).  Instructions reference each other with counted
  pointers; the destructor takes the references apart one instruction at a time, so that releasing
  the first instruction does not destroy the others recursively.  The counts themselves are not
  part of the model.
\<close>

section \<open>Taking references apart\<close>

definition CInstruction_Disconnect :: "instr \<Rightarrow> instr" where
  "CInstruction_Disconnect i = i \<lparr> m_pPreviousInstruction := None, m_pOriginalPreviousInstruction := None,
     m_pNextInstruction := None, m_pOriginalNextInstruction := None, m_branchInfo := None \<rparr>"

definition CBranchInstruction_Disconnect :: "instr \<Rightarrow> instr" where
  "CBranchInstruction_Disconnect i = CInstruction_Disconnect (case m_class i of
     Branch d t orig \<Rightarrow> i \<lparr> m_class := Branch d None None \<rparr> | _ \<Rightarrow> i)"

definition CSwitchInstruction_Disconnect :: "instr \<Rightarrow> instr" where
  "CSwitchInstruction_Disconnect i = CInstruction_Disconnect (setSwitchTargets (\<lambda>_. []) i)"

text \<open>The virtual call.\<close>

definition Disconnect :: "instr \<Rightarrow> instr" where
  "Disconnect i = (case m_class i of
     Branch _ _ _ \<Rightarrow> CBranchInstruction_Disconnect i
   | Switch _ _ \<Rightarrow> CSwitchInstruction_Disconnect i
   | _ \<Rightarrow> CInstruction_Disconnect i)"

fun disconnect_loop :: "nat \<Rightarrow> addr option \<Rightarrow> (world, unit) op" where
  "disconnect_loop 0 p = diverge"
| "disconnect_loop (Suc n) p = (case p of
     None \<Rightarrow> ret ()
   | Some a \<Rightarrow> IfFailRet (get_instr a) (\<lambda>i.
       IfFailRet (upd_instr a Disconnect) (\<lambda>_. disconnect_loop n (m_pNextInstruction i))))"

definition destroy_CInstructionGraph :: "gid \<Rightarrow> (world, unit) op" where
  "destroy_CInstructionGraph g w = IfFailRet (get_graph g) (\<lambda>gr.
     disconnect_loop (walk_fuel w) (m_pFirstInstruction gr)) w"

section \<open>The destructor ends and leaves no reference\<close>

definition disconnected :: "addr list \<Rightarrow> world \<Rightarrow> world" where
  "disconnected xs w = w \<lparr> w_instrs := \<lambda>a. if a \<in> set xs then map_option Disconnect (w_instrs w a) else w_instrs w a \<rparr>"

text \<open>The instructions that \<open>i\<close> holds a reference to.\<close>

definition references :: "instr \<Rightarrow> addr set" where
  "references i = set (concat (map (\<lambda>p. case p of None \<Rightarrow> [] | Some a \<Rightarrow> [a])
     ([m_pNextInstruction i, m_pPreviousInstruction i, m_pOriginalNextInstruction i, m_pOriginalPreviousInstruction i] @
      (case m_class i of Branch _ t orig \<Rightarrow> [t, orig] | Switch _ ts \<Rightarrow> ts | _ \<Rightarrow> []))
     @ [case m_branchInfo i of None \<Rightarrow> [] | Some bs \<Rightarrow> bs]))"

lemma references_Disconnect: "references (Disconnect i) = {}"
  by (cases "m_class i")
    (simp_all add: references_def Disconnect_def CInstruction_Disconnect_def CBranchInstruction_Disconnect_def
      CSwitchInstruction_Disconnect_def setSwitchTargets_def)

lemma disconnect_exec:
  assumes "dll (w_instrs w) p xs None" and "distinct xs" and "length xs < n"
  shows "disconnect_loop n (nxt xs None) w = (Ok (), disconnected xs w)"
  using assms
proof (induction xs arbitrary: w p n)
  case Nil
  then show ?case by (cases n) (simp_all add: disconnected_def)
next
  case (Cons x xs)
  then obtain k i where k: "n = Suc k" and i: "w_instrs w x = Some i" "m_pNextInstruction i = nxt xs None"
    by (cases n) (auto split: option.splits)
  let ?w = "put_instr x (Disconnect i) w"
  have "dll (w_instrs ?w) (Some x) xs None" using Cons.prems i by simp
  then have "disconnect_loop k (nxt xs None) ?w = (Ok (), disconnected xs ?w)"
    by (rule Cons.IH) (use Cons.prems k in auto)
  moreover have "disconnected xs ?w = disconnected (x # xs) w"
    using i(1) Cons.prems(2) by (auto simp: disconnected_def put_instr_def fun_eq_iff)
  ultimately show ?case using k i by simp
qed

text \<open>C33. The destructor of a graph ends on every body, however long, and leaves no instruction of it
  with a reference to another one, neither as neighbour nor as branch target nor in the branch
  bookkeeping; instructions outside the graph are not touched.\<close>

theorem destroy_CInstructionGraph_disconnects:
  assumes "body_ok w g xs"
  shows "\<exists>w'. destroy_CInstructionGraph g w = (Ok (), w') \<and>
    (\<forall>a \<in> set xs. \<exists>i. w_instrs w' a = Some i \<and> references i = {}) \<and>
    (\<forall>a. a \<notin> set xs \<longrightarrow> w_instrs w' a = w_instrs w a)"
proof -
  from assms obtain gr where b: "w_graphs w g = Some gr" "m_pFirstInstruction gr = nxt xs None"
    "distinct xs" "dll (w_instrs w) None xs None" "list_all (node_ok w g) xs" by (rule body_okE)
  have gl: "graph_list w g xs" using assms by (simp add: body_ok_def graph_inv_def)
  have "destroy_CInstructionGraph g w = (Ok (), disconnected xs w)"
    using disconnect_exec [OF b(4,3), of "walk_fuel w"] graph_list_length [OF gl] b(1,2)
    by (simp add: destroy_CInstructionGraph_def get_graph_def walk_fuel_def)
  moreover have "\<exists>i. w_instrs (disconnected xs w) a = Some i \<and> references i = {}" if a: "a \<in> set xs" for a
  proof -
    obtain i where "w_instrs w a = Some i" using graph_list_node [OF gl a] by blast
    with a show ?thesis by (simp add: disconnected_def references_Disconnect)
  qed
  moreover have "\<forall>a. a \<notin> set xs \<longrightarrow> w_instrs (disconnected xs w) a = w_instrs w a" by (simp add: disconnected_def)
  ultimately show ?thesis by blast
qed

theorem destroy_CInstructionGraph_disconnects_witness:
  "\<exists>w'. destroy_CInstructionGraph 0 clause_world = (Ok (), w') \<and> (\<forall>a \<in> set ([0, 1, 2] @ 3 # []). \<exists>i. w_instrs w' a = Some i \<and> references i = {}) \<and>
    (\<forall>a. a \<notin> set ([0, 1, 2] @ 3 # []) \<longrightarrow> w_instrs w' a = w_instrs clause_world a)"
  by (rule destroy_CInstructionGraph_disconnects [OF clause_world_ok(1)])

end
