(* ===== verification/InstrClaims.thy ===== *)
theory InstrClaims
  imports Decode
begin

text \<open>
  What the instruction constructors denote: the constant, local or argument an instruction built by
  the factory refers to when it is encoded, and the long form of a short branch.
\<close>

section \<open>The operand of a built instruction\<close>

definition operand_row :: "ILOrdinalOpcode \<Rightarrow> ILOperandType \<Rightarrow> bool" where
  "operand_row op t \<longleftrightarrow> (case opcodeInfo op of Ok e \<Rightarrow> m_type e = t \<and> m_operandLength e = of_nat (operandTypeSize t) | _ \<Rightarrow> False)"

lemma operand_rows:
  "operand_row Cee_Ldc_I4_S ILOperandType_Byte" "operand_row Cee_Ldc_I4 ILOperandType_Int"
  "operand_row Cee_Ldloc_S ILOperandType_Byte" "operand_row Cee_Ldloc ILOperandType_UShort"
  "operand_row Cee_Ldloca_S ILOperandType_Byte" "operand_row Cee_Ldloca ILOperandType_UShort"
  "operand_row Cee_Stloc_S ILOperandType_Byte" "operand_row Cee_Stloc ILOperandType_UShort"
  "operand_row Cee_Ldarg_S ILOperandType_Byte" "operand_row Cee_Ldarg ILOperandType_UShort"
  "operand_row Cee_Ldarga_S ILOperandType_Byte" "operand_row Cee_Ldarga ILOperandType_UShort"
  by (simp_all add: operand_row_def opcodeInfo_code ilOpcodes_00_def ilOpcodes_10_def ilOpcodes_20_def ilOpcodes_FE00_def OPDEF_def)

lemma GetOperandValue_row:
  assumes "operand_row (m_opcode i) t" and "m_class i = Operand v" and "t \<in> {ILOperandType_Byte, ILOperandType_UShort, ILOperandType_Int}"
  shows "GetOperandValue 8 i = Ok (take (operandTypeSize t) v)"
  using assms by (auto simp: operand_row_def GetOperandValue_def hasOperandValue_def split: result.splits)

lemma byte_size_row:
  assumes "operand_row (m_opcode i) t" and "m_class i = Operand v"
  shows "byte_size i = (if m_opcode i < 0x100 then 1 else if m_opcode i < Cee_Count then 2 else 0) + operandTypeSize t"
  using assms opcodeInfo_shape [of "m_opcode i"]
  by (auto simp: operand_row_def byte_size_def row_shape_def split: result.splits)

lemma byte_size_None:
  assumes "Cee_Ldc_I4_M1 \<le> m_opcode i" and "m_opcode i \<le> Cee_Ldc_I4_8" and "m_class i = Operand v"
  shows "byte_size i = 1"
proof -
  have "list_all (\<lambda>op. operand_row op ILOperandType_None) [Cee_Ldc_I4_M1..Cee_Ldc_I4_8]" by code_simp
  moreover have "m_opcode i \<in> set [Cee_Ldc_I4_M1..Cee_Ldc_I4_8]" using assms(1,2) by (simp only: set_upto atLeastAtMost_iff)
  ultimately have "operand_row (m_opcode i) ILOperandType_None" unfolding list_all_iff by blast
  then show ?thesis using byte_size_row [OF _ assms(3)] assms(2) by simp
qed

lemma setValue_simps [simp]:
  "m_opcode (setValue bs i) = m_opcode i" "m_class (setValue bs i) = Operand (bs @ replicate (8 - length bs) 0)"
  by (simp_all add: setValue_def)

lemma new_COperandInstruction_simps [simp]:
  "m_opcode (new_COperandInstruction op isNew) = op" "m_class (new_COperandInstruction op isNew) = Operand (replicate 8 0)"
  by (simp_all add: new_COperandInstruction_def new_CInstruction_def)

text \<open>Reading the bytes of a wider value back at another width.\<close>

lemma le_word_prefix:
  fixes x :: "'a::len word"
  assumes "n \<le> k" and "8 * n = LENGTH('b::len)"
  shows "(le_word (take n (le_bytes k x)) :: 'b word) = ucast x"
proof (rule bit_word_eqI)
  fix j assume j: "j < LENGTH('b)"
  then have d: "j div 8 < n" using assms(2) by (simp add: div_less_iff_less_mult mult.commute)
  moreover have "8 * (j div 8) + j mod 8 = j" by simp
  ultimately show "bit (le_word (take n (le_bytes k x)) :: 'b word) j = bit (ucast x :: 'b word) j"
    using j assms(1) by (simp add: bit_le_word le_bytes_nth bit_simps)
qed

text \<open>The constant an \<^verbatim>\<open>ldc.i4\<close> instruction pushes: implied by the opcode, the sign-extended byte, or
  the four operand bytes.\<close>

definition const_value :: "instr \<Rightarrow> DWORD option" where
  "const_value i = (if Cee_Ldc_I4_M1 \<le> m_opcode i \<and> m_opcode i \<le> Cee_Ldc_I4_8 then Some (of_int (m_opcode i - Cee_Ldc_I4_0))
     else case GetOperandValue 8 i of
       Ok bs \<Rightarrow> if m_opcode i = Cee_Ldc_I4_S then Some (scast (hd bs)) else if m_opcode i = Cee_Ldc_I4 then Some (le_word bs) else None
     | _ \<Rightarrow> None)"

text \<open>The index an instruction of one of the families \<^verbatim>\<open>ldloc\<close>, \<^verbatim>\<open>stloc\<close>, \<^verbatim>\<open>ldarg\<close> refers to: implied by the four
  short opcodes from \<open>base\<close> on, the byte of the short form \<open>s\<close>, or the two bytes of the long form
  \<open>l\<close>.\<close>

definition index_value :: "ILOrdinalOpcode option \<Rightarrow> ILOrdinalOpcode \<Rightarrow> ILOrdinalOpcode \<Rightarrow> instr \<Rightarrow> USHORT option" where
  "index_value base s l i = (if (case base of None \<Rightarrow> False | Some b \<Rightarrow> b \<le> m_opcode i \<and> m_opcode i < b + 4) then Some (of_int (m_opcode i - the base))
     else case GetOperandValue 8 i of
       Ok bs \<Rightarrow> if m_opcode i = s then Some (ucast (hd bs)) else if m_opcode i = l then Some (le_word bs) else None
     | _ \<Rightarrow> None)"


lemma sint_small:
  "uint (v :: DWORD) < 128 \<Longrightarrow> sint v = uint v" "0 \<le> sint v \<Longrightarrow> sint v \<le> 127 \<Longrightarrow> uint v = sint v"
proof -
  show "uint v < 128 \<Longrightarrow> sint v = uint v"
    unfolding sint_uint by (rule signed_take_bit_int_eq_self) (auto intro: order_trans [OF _ uint_ge_0])
  show "0 \<le> sint v \<Longrightarrow> sint v \<le> 127 \<Longrightarrow> uint v = sint v"
    unfolding uint_sint by (rule take_bit_int_eq_self) auto
qed

lemma and_not_7f: "(v :: DWORD) AND NOT 0x7f = 0 \<longleftrightarrow> 0 \<le> sint v \<and> sint v \<le> 127"
proof -
  have "v AND NOT 0x7f = 0 \<longleftrightarrow> take_bit 7 v = v"
  proof -
    have m: "(0x7f :: DWORD) = mask 7" by (simp add: mask_eq_exp_minus_1)
    show ?thesis unfolding m
      by (auto simp: take_bit_eq_mask bit_eq_iff bit_simps)
  qed
  also have "\<dots> \<longleftrightarrow> uint v < 128"
  proof
    assume "take_bit 7 v = v"
    then have "uint v = take_bit 7 (uint v)" by (metis unsigned_take_bit_eq)
    then show "uint v < 128" using take_bit_int_less_exp [of 7 "uint v"] by simp
  next
    assume "uint v < 128"
    then have "v < 128" by (simp add: word_less_def)
    then have "unat v < 2 ^ 7" by (simp add: word_less_nat_alt)
    then show "take_bit 7 v = v" by (rule take_bit_small)
  qed
  also have "\<dots> \<longleftrightarrow> 0 \<le> sint v \<and> sint v \<le> 127" using sint_small [of v] uint_ge_0 [of v] by auto
  finally show ?thesis .
qed

lemma scast_small: "uint (v :: DWORD) < 128 \<Longrightarrow> scast (ucast v :: byte) = v"
proof -
  assume "uint v < 128"
  then have "v < 128" by (simp add: word_less_def)
  then have "unat v < 2 ^ 7" by (simp add: word_less_nat_alt)
  then have "\<not> bit v n" if "7 \<le> n" for n using small_word_bits [of v 7 n] that by simp
  then show ?thesis by (intro bit_word_eqI) (auto simp: bit_simps min_def)
qed

lemmas and_128 = and_not_7f [simplified]

text \<open>The constructor of a constant load picks the shortest form and keeps the constant: the
  instruction pushes exactly the given 32-bit value, in one byte for -1 to 8, in two bytes up to
  127, in five bytes otherwise.\<close>

theorem CLoadConstInstruction_denotes:
  "const_value (new_CLoadConstInstruction v) = Some v \<and>
   byte_size (new_CLoadConstInstruction v) =
     (if - 1 \<le> sint v \<and> sint v \<le> 8 then 1 else if 0 \<le> sint v \<and> sint v \<le> 127 then 2 else 5)"
proof -
  let ?i = "new_CLoadConstInstruction v"
  consider (implied) "- 1 \<le> sint v" "sint v \<le> 8" | (short) "\<not> (- 1 \<le> sint v \<and> sint v \<le> 8)" "0 \<le> sint v" "sint v \<le> 127"
    | (long) "\<not> (- 1 \<le> sint v \<and> sint v \<le> 8)" "\<not> (0 \<le> sint v \<and> sint v \<le> 127)" by blast
  then show ?thesis
  proof cases
    case implied
    then have i: "m_opcode ?i = sint v + Cee_Ldc_I4_0" "m_class ?i = Operand (replicate 8 0)"
      by (simp_all add: new_CLoadConstInstruction_def Let_def)
    have "byte_size ?i = 1" using implied i by (intro byte_size_None) simp_all
    with implied i show ?thesis by (simp add: const_value_def)
  next
    case short
    then have i: "m_opcode ?i = Cee_Ldc_I4_S" "m_class ?i = Operand (le_bytes 1 v @ replicate 7 0)"
      by (simp_all add: new_CLoadConstInstruction_def Let_def and_128)
    have "uint v = sint v" using short by (intro sint_small)
    then have "scast (ucast v :: byte) = v" using short by (intro scast_small) simp
    moreover have "GetOperandValue 8 ?i = Ok (le_bytes 1 v)" using GetOperandValue_row [of ?i ILOperandType_Byte] operand_rows(1) i by simp
    ultimately have "const_value ?i = Some v" using i by (simp add: const_value_def)
    moreover have "byte_size ?i = 2" using byte_size_row [of ?i ILOperandType_Byte] operand_rows(1) i by simp
    ultimately show ?thesis using short by simp
  next
    case long
    then have i: "m_opcode ?i = Cee_Ldc_I4" "m_class ?i = Operand (le_bytes 4 v @ replicate 4 0)"
      by (auto simp: new_CLoadConstInstruction_def Let_def and_128)
    have "GetOperandValue 8 ?i = Ok (le_bytes 4 v)" using GetOperandValue_row [of ?i ILOperandType_Int] operand_rows(2) i by simp
    then have "const_value ?i = Some v" using i by (simp add: const_value_def le_word_le_bytes)
    moreover have "byte_size ?i = 5" using byte_size_row [of ?i ILOperandType_Int] operand_rows(2) i by simp
    ultimately show ?thesis using long by simp
  qed
qed

text \<open>The three forms of an index.\<close>

lemma index_implied:
  assumes "m_opcode i = uint index + base" and "index < 4"
  shows "index_value (Some base) s l i = Some index"
proof -
  have "uint index < 4" using assms(2) by (simp add: word_less_def)
  then show ?thesis using assms(1) by (simp add: index_value_def)
qed

lemma index_form:
  assumes "case base of None \<Rightarrow> True | Some b \<Rightarrow> m_opcode i < b \<or> b + 4 \<le> m_opcode i" and "s \<noteq> l"
    and "operand_row s ILOperandType_Byte" and "operand_row l ILOperandType_UShort"
  shows "m_opcode i = s \<Longrightarrow> m_class i = Operand (le_bytes 1 (x :: USHORT) @ r) \<Longrightarrow> index_value base s l i = Some (ucast (ucast x :: byte))"
    and "m_opcode i = l \<Longrightarrow> m_class i = Operand (le_bytes 4 (d :: DWORD) @ r) \<Longrightarrow> index_value base s l i = Some (ucast d)"
proof -
  show "m_opcode i = s \<Longrightarrow> m_class i = Operand (le_bytes 1 x @ r) \<Longrightarrow> index_value base s l i = Some (ucast (ucast x :: byte))"
    using assms(1,3) GetOperandValue_row [of i ILOperandType_Byte] by (auto simp: index_value_def split: option.splits)
  have "(le_word (take 2 (le_bytes 4 d)) :: USHORT) = ucast d" by (rule le_word_prefix) simp_all
  then show "m_opcode i = l \<Longrightarrow> m_class i = Operand (le_bytes 4 d @ r) \<Longrightarrow> index_value base s l i = Some (ucast d)"
    using assms(1,2,4) GetOperandValue_row [of i ILOperandType_UShort] by (auto simp: index_value_def split: option.splits)
qed

lemma ucast_byte: "(index :: USHORT) \<le> 0xff \<Longrightarrow> ucast (ucast index :: byte) = index"
proof -
  assume "index \<le> 0xff"
  then have "unat index < 2 ^ 8" by (simp add: word_le_nat_alt)
  then have "\<not> bit index n" if "8 \<le> n" for n using small_word_bits [of index 8 n] that by simp
  then show ?thesis by (intro bit_word_eqI) (auto simp: bit_simps simp flip: not_le)
qed

lemma ucast_wide: "ucast (ucast (index :: USHORT) :: DWORD) = index"
  by (intro bit_word_eqI) (auto simp: bit_simps)

lemma ucast_mask: "ucast (ucast (ucast (index :: USHORT) :: byte) :: DWORD) = index AND 0xff"
proof -
  have m: "(0xff :: USHORT) = mask 8" by (simp add: mask_eq_exp_minus_1)
  show ?thesis unfolding m by (intro bit_word_eqI) (auto simp: bit_simps)
qed

text \<open>The constructors of local loads, stores and address loads keep the index they are given, over
  the whole range of 16 bits.\<close>

theorem local_constructors_denote:
  "index_value (Some Cee_Ldloc_0) Cee_Ldloc_S Cee_Ldloc (new_CLoadLocalInstruction index) = Some index \<and>
   index_value (Some Cee_Stloc_0) Cee_Stloc_S Cee_Stloc (new_CStoreLocalInstruction index) = Some index \<and>
   index_value None Cee_Ldloca_S Cee_Ldloca (new_CLoadLocalAddrInstruction index) = Some index"
proof (intro conjI)
  note f = index_form [OF _ _ operand_rows(3,4)] index_form [OF _ _ operand_rows(5,6)] index_form [OF _ _ operand_rows(7,8)]
  show "index_value (Some Cee_Ldloc_0) Cee_Ldloc_S Cee_Ldloc (new_CLoadLocalInstruction index) = Some index"
    using ucast_byte [of index] ucast_wide [of index]
    by (auto simp: new_CLoadLocalInstruction_def Let_def index_implied f(1) [where x = index and r = "replicate 7 0"]
      f(2) [where d = "ucast index" and r = "replicate 4 0"])
  show "index_value (Some Cee_Stloc_0) Cee_Stloc_S Cee_Stloc (new_CStoreLocalInstruction index) = Some index"
    using ucast_byte [of index] ucast_wide [of index]
    by (auto simp: new_CStoreLocalInstruction_def Let_def index_implied f(5) [where x = index and r = "replicate 7 0"]
      f(6) [where d = "ucast index" and r = "replicate 4 0"])
  show "index_value None Cee_Ldloca_S Cee_Ldloca (new_CLoadLocalAddrInstruction index) = Some index"
    using ucast_byte [of index] ucast_wide [of index]
    by (auto simp: new_CLoadLocalAddrInstruction_def Let_def f(3) [where x = index and r = "replicate 7 0"]
      f(4) [where d = "ucast index" and r = "replicate 4 0"])
qed

text \<open>The constructors of argument loads keep an index up to 255 only: a larger index loses its upper
  byte, because the value is cast to a byte before it is stored into the two-byte operand, so the
  instruction loads another argument.\<close>

theorem argument_constructors_truncate:
  "index_value (Some Cee_Ldarg_0) Cee_Ldarg_S Cee_Ldarg (new_CLoadArgInstruction index) =
     Some (if index \<le> 0xff then index else index AND 0xff) \<and>
   index_value None Cee_Ldarga_S Cee_Ldarga (new_CLoadArgAddrInstruction index) =
     Some (if index \<le> 0xff then index else index AND 0xff)"
proof (intro conjI)
  note f = index_form [OF _ _ operand_rows(9,10)] index_form [OF _ _ operand_rows(11,12)]
  have le: "index < 4 \<Longrightarrow> index \<le> 0xff" by (simp add: word_le_nat_alt word_less_nat_alt)
  show "index_value (Some Cee_Ldarg_0) Cee_Ldarg_S Cee_Ldarg (new_CLoadArgInstruction index) =
     Some (if index \<le> 0xff then index else index AND 0xff)"
    using ucast_byte [of index] ucast_mask [of index] le
    by (auto simp: new_CLoadArgInstruction_def Let_def index_implied f(1) [where x = index and r = "replicate 7 0"]
      f(2) [where d = "ucast (ucast index :: byte)" and r = "replicate 4 0"])
  show "index_value None Cee_Ldarga_S Cee_Ldarga (new_CLoadArgAddrInstruction index) =
     Some (if index \<le> 0xff then index else index AND 0xff)"
    using ucast_byte [of index] ucast_mask [of index]
    by (auto simp: new_CLoadArgAddrInstruction_def Let_def f(3) [where x = index and r = "replicate 7 0"]
      f(4) [where d = "ucast (ucast index :: byte)" and r = "replicate 4 0"])
qed

definition row_branch :: "int \<Rightarrow> ILOpcodeInfo \<Rightarrow> bool" where
  "row_branch i e \<longleftrightarrow> (IsFlagSet (m_flags e) ILOpcodeFlag_Branch \<and> m_operandLength e = 1 \<longrightarrow>
     m_alternate e = (if i = Cee_Leave_S then Cee_Leave else i + (Cee_Br - Cee_Br_S)))"

lemma row_branch_table: "rows_ok 0 row_branch s_ilOpcodeInfo"
  by code_simp

lemma opcodeInfo_branch: "opcodeInfo op = Ok e \<Longrightarrow> row_branch op e"
  using rows_ok_nth [OF row_branch_table, of "nat op"] by (auto simp: opcodeInfo_def split: if_splits)

lemma branch_operandLength:
  assumes "opcodeInfo op = Ok e" and "IsFlagSet (m_flags e) ILOpcodeFlag_Branch"
  shows "m_operandLength e = 1 \<or> m_operandLength e = 4"
  using opcodeInfo_shape [OF assms(1)] assms(2) by (auto simp: row_shape_def split: if_splits)

text \<open>\<^verbatim>\<open>ExpandBranch\<close> replaces a short branch by the alternate of its row in the opcode table, which is
  the same branch with a four-byte operand, and leaves every other branch alone; target and links
  stay.\<close>

theorem ExpandBranch_alternate:
  assumes "wf_instr i" and "GetIsBranchInternal i = Ok True"
  shows "\<exists>e. opcodeInfo (m_opcode i) = Ok e \<and>
    ExpandBranch i = Ok (if m_operandLength e = 1 then i \<lparr> m_opcode := m_alternate e \<rparr> else i) \<and>
    (\<exists>i' e'. ExpandBranch i = Ok i' \<and> opcodeInfo (m_opcode i') = Ok e' \<and> m_operandLength e' = 4 \<and> m_flags e' = m_flags e \<and> wf_instr i')"
proof -
  obtain e where e: "opcodeInfo (m_opcode i) = Ok e" using assms(1) by (rule wf_instr_info)
  have f: "IsFlagSet (m_flags e) ILOpcodeFlag_Branch" using assms(2) e by (simp add: GetIsBranchInternal_def)
  obtain p t o' where c: "m_class i = Branch p t o'"
    using assms(1) e f opcodeInfo_shape [OF e]
    by (cases "m_class i") (auto simp: wf_instr_def wf_class_def row_shape_def split: if_splits)
  show ?thesis
  proof (cases "m_operandLength e = 1")
    case True
    have a: "m_alternate e = (if m_opcode i = Cee_Leave_S then Cee_Leave else m_opcode i + (Cee_Br - Cee_Br_S))"
      using opcodeInfo_branch [OF e] f True by (simp add: row_branch_def)
    have x: "ExpandBranch i = Ok (i \<lparr> m_opcode := m_alternate e \<rparr>)" using e True a by (simp add: ExpandBranch_def)
    have "m_opcode i < 0x125" using opcodeInfo_range [OF e] by simp
    then have "m_alternate e \<noteq> Cee_Invalid" using a by auto
    then obtain e' where e': "opcodeInfo (m_alternate e) = Ok e'" "m_flags e' = m_flags e" "m_operandLength e' \<noteq> 1"
      using opcodeInfo_alternate [OF e] True by (auto simp: row_alternate_def split: result.splits)
    have "m_operandLength e' = 4" using branch_operandLength [OF e'(1)] e'(2,3) f by auto
    moreover have "wf_instr (i \<lparr> m_opcode := m_alternate e \<rparr>)"
      using c e'(1,2) f by (simp add: wf_instr_def wf_class_def)
    ultimately show ?thesis using e True x e' by auto
  next
    case False
    then have "ExpandBranch i = Ok i" using e by (simp add: ExpandBranch_def)
    with e False assms(1) branch_operandLength [OF e f] show ?thesis by auto
  qed
qed

theorem ExpandBranch_alternate_witness:
  "\<exists>e. opcodeInfo Cee_Leave_S = Ok e \<and>
    ExpandBranch (new_CBranchInstruction Cee_Leave_S True) = Ok (if m_operandLength e = 1 then (new_CBranchInstruction Cee_Leave_S True) \<lparr> m_opcode := m_alternate e \<rparr> else new_CBranchInstruction Cee_Leave_S True)"
proof -
  have "wf_instr (new_CBranchInstruction Cee_Leave_S True)" by code_simp
  moreover have "GetIsBranchInternal (new_CBranchInstruction Cee_Leave_S True) = Ok True" by code_simp
  moreover have "m_opcode (new_CBranchInstruction Cee_Leave_S True) = Cee_Leave_S" by (simp add: new_CBranchInstruction_def new_CInstruction_def)
  ultimately show ?thesis using ExpandBranch_alternate by fastforce
qed

end
