(* ===== verification/Factory.thy ===== *)
theory Factory
  imports Graph
begin

text \<open>
  Creating instructions for insertion (\<^verbatim>\<open>InstrumentationEngine/InstructionFactory.cpp\<close>).  A created instruction
  is a new object in no graph; the out pointers are those of the caller and are not null.
  The operand constructor leaves the union of an operand as it was allocated when the opcode takes an
  operand of another length: \<open>garbage\<close> is that memory.
\<close>

section \<open>Single instructions\<close>

definition CreateInstruction :: "ILOrdinalOpcode \<Rightarrow> (world, addr) op" where
  "CreateInstruction opcode = new_instr (new_CInstruction opcode True)"

definition CreateByteOperandInstruction :: "byte list \<Rightarrow> ILOrdinalOpcode \<Rightarrow> byte \<Rightarrow> (world, addr) op" where
  "CreateByteOperandInstruction garbage opcode operand =
     IfFailRet (liftR (new_COperandInstruction_bytes garbage opcode True 1 [operand])) new_instr"

definition CreateUShortOperandInstruction :: "byte list \<Rightarrow> ILOrdinalOpcode \<Rightarrow> USHORT \<Rightarrow> (world, addr) op" where
  "CreateUShortOperandInstruction garbage opcode operand =
     IfFailRet (liftR (new_COperandInstruction_bytes garbage opcode True 2 (le_bytes 2 operand))) new_instr"

definition CreateIntOperandInstruction :: "byte list \<Rightarrow> ILOrdinalOpcode \<Rightarrow> DWORD \<Rightarrow> (world, addr) op" where
  "CreateIntOperandInstruction garbage opcode operand =
     IfFailRet (liftR (new_COperandInstruction_bytes garbage opcode True 4 (le_bytes 4 operand))) new_instr"

definition CreateLongOperandInstruction :: "byte list \<Rightarrow> ILOrdinalOpcode \<Rightarrow> ULONGLONG \<Rightarrow> (world, addr) op" where
  "CreateLongOperandInstruction garbage opcode operand =
     IfFailRet (liftR (new_COperandInstruction_bytes garbage opcode True 8 (le_bytes 8 operand))) new_instr"

text \<open>A float and a double are their bit patterns.\<close>

definition CreateFloatOperandInstruction :: "byte list \<Rightarrow> ILOrdinalOpcode \<Rightarrow> DWORD \<Rightarrow> (world, addr) op" where
  "CreateFloatOperandInstruction garbage opcode operand =
     IfFailRet (liftR (new_COperandInstruction_bytes garbage opcode True 4 (le_bytes 4 operand))) new_instr"

definition CreateDoubleOperandInstruction :: "byte list \<Rightarrow> ILOrdinalOpcode \<Rightarrow> ULONGLONG \<Rightarrow> (world, addr) op" where
  "CreateDoubleOperandInstruction garbage opcode operand =
     IfFailRet (liftR (new_COperandInstruction_bytes garbage opcode True 8 (le_bytes 8 operand))) new_instr"

definition CreateTokenOperandInstruction :: "byte list \<Rightarrow> ILOrdinalOpcode \<Rightarrow> mdToken \<Rightarrow> (world, addr) op" where
  "CreateTokenOperandInstruction garbage opcode operand =
     IfFailRet (liftR (new_COperandInstruction_bytes garbage opcode True 4 (le_bytes 4 operand))) new_instr"

definition CreateBranchInstruction :: "ILOrdinalOpcode \<Rightarrow> addr option \<Rightarrow> (world, addr) op" where
  "CreateBranchInstruction opcode pBranchTarget = IfFailRet (new_instr (new_CBranchInstruction opcode True)) (\<lambda>b.
     IfFailRet (if pBranchTarget \<noteq> None then Branch_SetBranchTarget b pBranchTarget else ret ()) (\<lambda>_.
     ret b))"

fun setTargets_loop :: "addr \<Rightarrow> nat \<Rightarrow> addr option list \<Rightarrow> (world, unit) op" where
  "setTargets_loop s i [] = ret ()"
| "setTargets_loop s i (t # ts) = IfFailRet (liftR (deref t)) (\<lambda>a. IfFailRet (get_instr a) (\<lambda>_.
     IfFailRet (Switch_SetBranchTarget s i t) (\<lambda>_. setTargets_loop s (Suc i) ts)))"

definition CreateSwitchInstruction :: "ILOrdinalOpcode \<Rightarrow> DWORD \<Rightarrow> addr option list \<Rightarrow> (world, addr) op" where
  "CreateSwitchInstruction opcode cBranchTargets ppBranchTargets =
     IfFailRet (new_instr (new_CSwitchInstruction opcode True cBranchTargets)) (\<lambda>s.
     IfFailRet (if unat cBranchTargets \<le> length ppBranchTargets
                then setTargets_loop s 0 (take (unat cBranchTargets) ppBranchTargets)
                else IfFailRet (setTargets_loop s 0 ppBranchTargets) (\<lambda>_. undef)) (\<lambda>_.
     ret s))"

definition CreateLoadConstInstruction :: "DWORD \<Rightarrow> (world, addr) op" where
  "CreateLoadConstInstruction v = new_instr (new_CLoadConstInstruction v)"

definition CreateLoadLocalInstruction :: "USHORT \<Rightarrow> (world, addr) op" where
  "CreateLoadLocalInstruction index = new_instr (new_CLoadLocalInstruction index)"

definition CreateLoadLocalAddressInstruction :: "USHORT \<Rightarrow> (world, addr) op" where
  "CreateLoadLocalAddressInstruction index = new_instr (new_CLoadLocalAddrInstruction index)"

definition CreateStoreLocalInstruction :: "USHORT \<Rightarrow> (world, addr) op" where
  "CreateStoreLocalInstruction index = new_instr (new_CStoreLocalInstruction index)"

definition CreateLoadArgInstruction :: "USHORT \<Rightarrow> (world, addr) op" where
  "CreateLoadArgInstruction index = new_instr (new_CLoadArgInstruction index)"

definition CreateLoadArgAddressInstruction :: "USHORT \<Rightarrow> (world, addr) op" where
  "CreateLoadArgAddressInstruction index = new_instr (new_CLoadArgAddrInstruction index)"

section \<open>Streams of instructions\<close>

fun markNew_loop :: "nat \<Rightarrow> addr option \<Rightarrow> (world, unit) op" where
  "markNew_loop 0 p = diverge"
| "markNew_loop (Suc n) p = (case p of
     None \<Rightarrow> ret ()
   | Some a \<Rightarrow> IfFailRet (upd_instr a (SetOriginalOffset 0)) (\<lambda>_.
       IfFailRet (upd_instr a (SetInstructionGeneration Generation_New)) (\<lambda>_.
       IfFailRet (get_instr a) (\<lambda>i. markNew_loop n (m_pNextInstruction i)))))"

text \<open>The stream is decoded as a graph of its own, which belongs to no method.\<close>

definition DecodeInstructionByteStream :: "DWORD \<Rightarrow> byte list option \<Rightarrow> (world, gid) op" where
  "DecodeInstructionByteStream cbMethod instructionBytes = IfNullRetPointer instructionBytes (\<lambda>mem.
     IfFailRet (new_graph None) (\<lambda>g.
     IfFailRet (DecodeInstructions g mem 0 (unat cbMethod)) (\<lambda>_.
     IfFailRet (get_graph g) (\<lambda>gr.
     IfFailRet (\<lambda>w. markNew_loop (walk_fuel w) (m_pFirstInstruction gr) w) (\<lambda>_.
     ret g)))))"

end
