(* ===== verification/SingleRet.thy ===== *)
theory SingleRet
  imports Factory Locals
begin

text \<open>
  The single return instrumentation (\<^verbatim>\<open>InstrumentationEngine/SingleRetDefaultInstrumentation.cpp\<close>), which
  the engine applies to a method before instrumentation methods see it: every return is replaced with a branch
  to one return at the end of the method, and the return value travels through a new local variable.
\<close>

definition Graph_GetMethodInfo :: "gid \<Rightarrow> (world, mid) op" where
  "Graph_GetMethodInfo g = IfFailRet (get_graph g) (\<lambda>gr. case m_pMethodInfo gr of None \<Rightarrow> fail E_FAIL | Some m \<Rightarrow> ret m)"

record CSingleRetDefaultInstrumentation =
  sr_pInstructionGraph :: "gid option"
  sr_pJumpTarget :: "addr option"

definition SingleRet_Initialize :: "gid option \<Rightarrow> CSingleRetDefaultInstrumentation \<Rightarrow> CSingleRetDefaultInstrumentation" where
  "SingleRet_Initialize pInstructionGraph sr = sr \<lparr> sr_pInstructionGraph := pInstructionGraph \<rparr>"

definition GetBranchTargetInstruction :: "CSingleRetDefaultInstrumentation \<Rightarrow> addr option" where
  "GetBranchTargetInstruction sr = sr_pJumpTarget sr"

section \<open>The returns to replace\<close>

text \<open>First pass: the return instructions in order.\<close>

fun rets_loop :: "nat \<Rightarrow> addr list \<Rightarrow> addr option \<Rightarrow> (world, addr list) op" where
  "rets_loop 0 retInstructions p = diverge"
| "rets_loop (Suc n) retInstructions p = (case p of
     None \<Rightarrow> ret retInstructions
   | Some a \<Rightarrow> IfFailRet (get_instr a) (\<lambda>i.
       let retInstructions = (if m_opcode i = Cee_Ret then retInstructions @ [a] else retInstructions) in
       Discard (liftR (GetNextInstruction i)) (\<lambda>pNext. rets_loop n retInstructions pNext)))"

definition previousOf :: "addr \<Rightarrow> (world, addr option) op" where
  "previousOf a = IfFailRet (get_instr a) (\<lambda>i. Discard (liftR (GetPreviousInstruction i)) ret)"

text \<open>Is the return preceded by a tail call, possibly with a pop between them?\<close>

definition followsTailCall :: "addr \<Rightarrow> (world, bool) op" where
  "followsTailCall pCurrRet = IfFailRet (previousOf pCurrRet) (\<lambda>pPrev. case pPrev of
     None \<Rightarrow> ret False
   | Some p \<Rightarrow> IfFailRet (get_instr p) (\<lambda>i.
       IfFailRet (if m_opcode i = Cee_Pop then previousOf p else ret (Some p)) (\<lambda>pPrev. case pPrev of
         None \<Rightarrow> ret False
       | Some p \<Rightarrow> IfFailRet (get_instr p) (\<lambda>i.
           if GetIsCallInstruction i then
             IfFailRet (previousOf p) (\<lambda>pPrevPrev. case pPrevPrev of
               None \<Rightarrow> ret False
             | Some q \<Rightarrow> IfFailRet (get_instr q) (\<lambda>j. ret (m_opcode j = Cee_Tailcall)))
           else ret False))))"

text \<open>Second pass.  After an erase the iterator steps back by one and the loop increment moves it on; stepping
  back from the first element is undefined.  \<open>before\<close> are the elements before the iterator.\<close>

fun erase_loop :: "addr list \<Rightarrow> addr list \<Rightarrow> (world, addr list) op" where
  "erase_loop before [] = ret before"
| "erase_loop before (r # rs) = IfFailRet (followsTailCall r) (\<lambda>b.
     if b then (if before = [] then undef else erase_loop before rs)
     else erase_loop (before @ [r]) rs)"

definition GetReplaceableRets :: "gid \<Rightarrow> (world, addr list) op" where
  "GetReplaceableRets g = IfFailRet (GetFirstInstruction g) (\<lambda>p.
     IfFailRet (\<lambda>w. rets_loop (walk_fuel w) [] p w) (\<lambda>retInstructions. erase_loop [] retInstructions))"

section \<open>The rewriting\<close>

fun replaceRets_loop :: "byte list \<Rightarrow> gid \<Rightarrow> bool \<Rightarrow> DWORD \<Rightarrow> addr \<Rightarrow> addr list \<Rightarrow> (world, unit) op" where
  "replaceRets_loop garbage g bStoreRetVal slot pBranchTarget [] = ret ()"
| "replaceRets_loop garbage g bStoreRetVal slot pBranchTarget (r # rs) =
     IfFailRet (CreateBranchInstruction Cee_Br (Some pBranchTarget)) (\<lambda>pNewBranch.
     IfFailRet (Replace g (Some r) (Some pNewBranch)) (\<lambda>_.
     IfFailRet (if bStoreRetVal then
         IfFailRet (CreateUShortOperandInstruction garbage Cee_Stloc (ucast slot)) (\<lambda>pStoreLocal.
           InsertBeforeAndRetargetOffsets g (Some pNewBranch) (Some pStoreLocal))
       else ret ()) (\<lambda>_.
     replaceRets_loop garbage g bStoreRetVal slot pBranchTarget rs)))"

text \<open>The load of the return value in front of the new return; the result is the load and the slot.\<close>

definition loadRetVal :: "byte list \<Rightarrow> metadata result \<Rightarrow> gid \<Rightarrow> mid \<Rightarrow> CType \<Rightarrow> addr \<Rightarrow> (world, addr \<times> DWORD) op" where
  "loadRetVal garbage md g m pRetType pNewRet =
     Discard (GetLocalVariables m) (\<lambda>_.
     IfFailRet (AddLocal md CurrentLocals m (Some pRetType)) (\<lambda>slot.
     IfFailRet (CreateUShortOperandInstruction garbage Cee_Ldloc (ucast slot)) (\<lambda>pNewLoadLocal.
     IfFailRet (InsertBeforeAndRetargetOffsets g (Some pNewRet) (Some pNewLoadLocal)) (\<lambda>_.
     ret (pNewLoadLocal, slot)))))"

text \<open>The new return, and the branches to it; the result is \<^verbatim>\<open>pBranchTarget\<close>.\<close>

definition redirectRets :: "byte list \<Rightarrow> metadata result \<Rightarrow> gid \<Rightarrow> mid \<Rightarrow> addr list \<Rightarrow> (world, addr) op" where
  "redirectRets garbage md g m retInstructions =
     IfFailRet (CreateInstruction Cee_Ret) (\<lambda>pNewRet.
     IfFailRet (GetLastInstruction g) (\<lambda>pLast.
     IfFailRet (InsertAfter g pLast (Some pNewRet)) (\<lambda>_.
     IfFailRet (get_method m) (\<lambda>mi.
     IfFailRet (liftR (GetReturnType mi)) (\<lambda>pRetType.
     let bStoreRetVal = m_corType pRetType \<noteq> ELEMENT_TYPE_VOID \<and> m_corType pRetType \<noteq> ELEMENT_TYPE_BYREF in
     IfFailRet (if bStoreRetVal then loadRetVal garbage md g m pRetType pNewRet else ret (pNewRet, 0)) (\<lambda>(pBranchTarget, slot).
     IfFailRet (replaceRets_loop garbage g bStoreRetVal slot pBranchTarget retInstructions) (\<lambda>_.
     ret pBranchTarget)))))))"

definition ApplySingleRetDefaultInstrumentation ::
  "byte list \<Rightarrow> metadata result \<Rightarrow> CSingleRetDefaultInstrumentation \<Rightarrow> (world, CSingleRetDefaultInstrumentation) op" where
  "ApplySingleRetDefaultInstrumentation garbage md sr = IfFailRet (liftR (deref (sr_pInstructionGraph sr))) (\<lambda>g.
     IfFailRet (Graph_GetMethodInfo g) (\<lambda>m.
     IfFailRet (GetReplaceableRets g) (\<lambda>retInstructions.
     if length retInstructions = 0 then ret sr
     else if length retInstructions = 1 then ret sr
     else IfFailRet (redirectRets garbage md g m retInstructions) (\<lambda>pBranchTarget.
       ret (sr \<lparr> sr_pJumpTarget := Some pBranchTarget \<rparr>)))))"

end
