(* ===== verification/FactoryClaims.thy ===== *)
theory FactoryClaims
  imports Factory EditSteps
begin

text \<open>
  What the instruction factory promises the clients of a graph: a created instruction is in no graph and can
  be inserted, the bodies that exist are not affected, and a created branch is recorded at its target.
\<close>

section \<open>Worlds in which objects are created\<close>

text \<open>The bookkeeping of branch targets is exact and every target is an object.\<close>

definition heap_ok :: "world \<Rightarrow> bool" where
  "heap_ok w \<longleftrightarrow> info_all w \<and> list_all (\<lambda>b. list_all (\<lambda>t. case t of None \<Rightarrow> True | Some a \<Rightarrow> a < w_next w) (targets_at w b)) [0..<w_next w]"

lemma heap_okD: "heap_ok w \<Longrightarrow> b < w_next w \<Longrightarrow> Some t \<in> set (targets_at w b) \<Longrightarrow> t < w_next w"
  by (fastforce simp: heap_ok_def list_all_iff)

lemma heap_okI: "info_all w \<Longrightarrow> (\<And>b t. b < w_next w \<Longrightarrow> Some t \<in> set (targets_at w b) \<Longrightarrow> t < w_next w) \<Longrightarrow> heap_ok w"
  by (auto simp: heap_ok_def list_all_iff split: option.splits)

lemma info_exactI:
  assumes "distinct (branches_of w x)" "\<And>b. b \<in> set (branches_of w x) \<Longrightarrow> points_at w x b"
    "\<And>b. b < w_next w \<Longrightarrow> Some x \<in> set (targets_at w b) \<Longrightarrow> b \<in> set (branches_of w x)"
  shows "info_exact w x"
  using assms by (auto simp: info_exact_def list_all_iff)

lemma info_allD:
  assumes "info_all w" "x < w_next w"
  shows "distinct (branches_of w x)" "b \<in> set (branches_of w x) \<Longrightarrow> points_at w x b"
    "b < w_next w \<Longrightarrow> Some x \<in> set (targets_at w b) \<Longrightarrow> b \<in> set (branches_of w x)"
  using assms by (auto simp: info_all_def info_exact_def list_all_iff)

text \<open>The objects of \<open>w\<close> keep their code in \<open>w'\<close>.\<close>

definition grows :: "world \<Rightarrow> world \<Rightarrow> bool" where
  "grows w w' \<longleftrightarrow> w_next w \<le> w_next w' \<and> w_methods w' = w_methods w \<and> w_graphs w' = w_graphs w \<and> w_clauses w' = w_clauses w \<and>
     (\<forall>a < w_next w. opcode_at w' a = opcode_at w a \<and> operand_at w' a = operand_at w a \<and> targets_at w' a = targets_at w a)"

lemma grows_trans: "grows u v \<Longrightarrow> grows v w \<Longrightarrow> grows u w"
  by (auto simp: grows_def)

section \<open>Creating an object\<close>

definition created :: "instr \<Rightarrow> world \<Rightarrow> world" where
  "created i w = put_instr (w_next w) i (w \<lparr> w_next := w_next w + 1 \<rparr>)"

lemma created_simps [simp]:
  "w_next (created i w) = Suc (w_next w)" "w_graphs (created i w) = w_graphs w" "w_methods (created i w) = w_methods w"
  "w_clauses (created i w) = w_clauses w" "w_instrs (created i w) = (w_instrs w)(w_next w \<mapsto> i)"
  by (simp_all add: created_def)

text \<open>A new object: in no graph, and nothing points at it or from it.\<close>

definition fresh_instr :: "instr \<Rightarrow> bool" where
  "fresh_instr i \<longleftrightarrow> wf_instr i \<and> m_pGraph i = None \<and> m_pNextInstruction i = None \<and> m_pPreviousInstruction i = None \<and>
     m_branchInfo i = None \<and> set (targets_of i) \<subseteq> {None}"

lemma new_instr_created: "new_instr i w = (Ok (w_next w), created i w)"
  by (simp add: new_instr_def created_def)

lemma body_bounded: "body_ok w g xs \<Longrightarrow> w_next w \<notin> set xs"
  using body_ok_bounded by blast

lemma body_ok_created:
  assumes "body_ok w g xs"
  shows "body_ok (created i w) g xs"
proof -
  have n: "w_next w \<notin> set xs" using assms by (rule body_bounded)
  have a: "w_instrs (created i w) a = w_instrs w a" if "a \<in> set xs" for a using that n by auto
  have "dll (w_instrs (created i w)) None xs None" using assms n by (auto elim: body_okE)
  moreover have "list_all (node_ok (created i w) g) xs"
    using assms a by (auto simp: list_all_iff node_ok_def less_SucI elim!: body_okE)
  moreover have "size_at (created i w) a = size_at w a" if "a \<in> set xs" for a using a [OF that] by (simp add: size_at_def)
  then have "layout (created i w) 0 xs a = layout w 0 xs a" for a by (rule layout_cong)
  moreover have "section_ok (created i w) g = section_ok w g" by (simp add: section_ok_def cong: option.case_cong)
  moreover have "stale (created i w) g = stale w g" by (simp add: stale_def)
  ultimately show ?thesis
    using assms a by (simp add: body_ok_def graph_inv_def graph_list_def list_all_iff cong: option.case_cong)
qed

lemma grows_created: "grows w (created i w)"
  by (simp add: grows_def opcode_at_def operand_at_def targets_at_def)

lemma heap_ok_created:
  assumes "heap_ok w" "fresh_instr i"
  shows "heap_ok (created i w)"
proof (rule heap_okI)
  let ?w = "created i w"
  have t: "targets_at ?w b = (if b = w_next w then targets_of i else targets_at w b)" for b by (simp add: targets_at_def)
  have br: "branches_of ?w b = (if b = w_next w then [] else branches_of w b)" for b
    using assms(2) by (simp add: branches_of_def fresh_instr_def)
  have p: "points_at ?w x b" if "points_at w x b" for x b using that by (auto simp: points_at_def)
  have nt: "Some t \<notin> set (targets_of i)" for t using assms(2) by (auto simp: fresh_instr_def)
  have ia: "info_all w" using assms(1) by (simp add: heap_ok_def)
  have "info_exact ?w x" if x: "x < w_next ?w" for x
  proof (rule info_exactI)
    show "distinct (branches_of ?w x)" using info_allD(1) [OF ia] x by (auto simp: br less_Suc_eq)
    show "points_at ?w x b" if "b \<in> set (branches_of ?w x)" for b
      using that x info_allD(2) [OF ia] p by (auto simp: br less_Suc_eq split: if_splits)
    show "b \<in> set (branches_of ?w x)" if "b < w_next ?w" "Some x \<in> set (targets_at ?w b)" for b
      using that x nt info_allD(3) [OF ia] heap_okD [OF assms(1)] by (fastforce simp: br t less_Suc_eq split: if_splits)
  qed
  then show "info_all ?w" by (simp add: info_all_def list_all_iff)
  show "t < w_next ?w" if "b < w_next ?w" "Some t \<in> set (targets_at ?w b)" for b t
    using that nt heap_okD [OF assms(1)] by (fastforce simp: t less_Suc_eq split: if_splits)
qed

lemma detached_created: "fresh_instr i \<Longrightarrow> detached (created i w) (w_next w)"
  by (simp add: detached_def fresh_instr_def)

section \<open>Created branches\<close>

lemma CreateBranchInstruction_exec:
  assumes "body_ok w g xs" "heap_ok w" "p < w_next w" "w_instrs w p = Some ip" "fresh_instr (new_CBranchInstruction op True)"
  shows "\<exists>w'. CreateBranchInstruction op (Some p) w = (Ok (w_next w), w') \<and> body_ok w' g xs \<and> heap_ok w' \<and>
    detached w' (w_next w) \<and> grows w w' \<and> w_next w' = Suc (w_next w) \<and> opcode_at w' (w_next w) = Some op \<and>
    targets_at w' (w_next w) = [Some p]"
proof -
  let ?b = "w_next w" and ?i = "new_CBranchInstruction op True"
  let ?j = "?i \<lparr> m_class := Branch 0 (Some p) None \<rparr>"
  let ?w1 = "created ?i w"
  let ?w2 = "put_instr p (BranchInfo_Add ?b ip) (put_instr ?b ?j ?w1)"
  have pb: "p \<noteq> ?b" using assms(3) by simp
  have g: "m_class ?i = Branch 0 None None" "m_instructionGeneration ?i = Generation_New" "m_opcode ?i = op"
    "m_branchInfo ?i = None"
    by (simp_all add: new_CBranchInstruction_def new_CInstruction_def)
  have e: "CreateBranchInstruction op (Some p) w = (Ok ?b, ?w2)"
    using assms(4) pb g by (simp add: CreateBranchInstruction_def new_instr_created Branch_SetBranchTarget_def IfNullRetPointer_def
        BranchInfo_SetBranchTarget_def IfFailRet_def get_instr_def upd_instr_def ret_def put_instr_def fun_upd_twist)
  have f: "wf_instr ?i" "m_pGraph ?i = None" "m_pNextInstruction ?i = None" "m_pPreviousInstruction ?i = None" "wf_instr ?j"
    using assms(5) g(1) by (auto simp: fresh_instr_def wf_instr_def wf_class_def split: result.splits)
  have sz: "instr_size ?j = instr_size ?i" using g(1) by (simp add: instr_size_def GetInstructionSize_def split: result.splits)
  have sp: "skel (BranchInfo_Add ?b ip) = skel ip"
    by (simp add: skel_def BranchInfo_Add_def wf_instr_def instr_size_def GetInstructionSize_def split: option.splits)
  have "body_ok ?w2 g xs"
  proof (rule body_ok_skel [OF body_ok_created [OF assms(1)]])
    show "map_option skel (w_instrs ?w2 a) = map_option skel (w_instrs ?w1 a)" for a
      using assms(4) pb f sz sp by (auto simp: skel_def)
  qed simp_all
  moreover have t: "targets_at ?w2 a = (if a = ?b then [Some p] else targets_at w a)" for a
    using assms(4) pb by (auto simp: targets_at_def targets_of_def BranchInfo_Add_def split: option.splits)
  have br: "branches_of ?w2 a = (if a = p then List.insert ?b (branches_of w p) else if a = ?b then [] else branches_of w a)" for a
    using assms(4) pb g(4) by (auto simp: branches_of_def BranchInfo_Add_def split: option.splits)
  have pt: "points_at ?w2 x a" if "points_at w x a" for x a
    using that assms(4) pb by (auto simp: points_at_def BranchInfo_Add_def targets_of_def wf_instr_def split: option.splits)
  have pt2: "points_at ?w2 p ?b" using pb f(5) by (simp add: points_at_def targets_of_def)
  have ia: "info_all w" using assms(2) by (simp add: heap_ok_def)
  have "heap_ok ?w2"
  proof (rule heap_okI)
    have "info_exact ?w2 x" if x: "x < w_next ?w2" for x
    proof (rule info_exactI)
      show "distinct (branches_of ?w2 x)" using info_allD(1) [OF ia] x assms(3) by (auto simp: br less_Suc_eq)
      show "points_at ?w2 x c" if "c \<in> set (branches_of ?w2 x)" for c
        using that x info_allD(2) [OF ia] pt pt2 assms(3) by (auto simp: br less_Suc_eq split: if_splits)
      show "c \<in> set (branches_of ?w2 x)" if "c < w_next ?w2" "Some x \<in> set (targets_at ?w2 c)" for c
        using that x info_allD(3) [OF ia] heap_okD [OF assms(2)] by (fastforce simp: br t less_Suc_eq split: if_splits)
    qed
    then show "info_all ?w2" by (simp add: info_all_def list_all_iff)
    show "u < w_next ?w2" if "c < w_next ?w2" "Some u \<in> set (targets_at ?w2 c)" for c u
      using that assms(3) heap_okD [OF assms(2)] by (fastforce simp: t less_Suc_eq split: if_splits)
  qed
  moreover have "grows w ?w2"
    using assms(4) pb t by (auto simp: grows_def opcode_at_def operand_at_def BranchInfo_Add_def split: option.splits)
  moreover have "detached ?w2 ?b" "opcode_at ?w2 ?b = Some op" using f g pb by (simp_all add: detached_def opcode_at_def)
  ultimately show ?thesis using e t by auto
qed

end
