(* ===== verification/SingleRetClaims.thy ===== *)
theory SingleRetClaims
  imports SingleRet FactoryClaims LocalsClaims InstrClaims
begin

text \<open>
  What the single return instrumentation does to a method: which returns it replaces, and the code it leaves.
\<close>

section \<open>The returns to replace\<close>

text \<open>The opcodes before a return, nearest first: a tail call, possibly with a pop in between.\<close>

definition after_tail_call :: "ILOrdinalOpcode list \<Rightarrow> bool" where
  "after_tail_call ops = (case (case ops of [] \<Rightarrow> [] | p # ps \<Rightarrow> if p = Cee_Pop then ps else ops) of
     c # t # _ \<Rightarrow> c \<in> {Cee_Call, Cee_Calli, Cee_Callvirt} \<and> t = Cee_Tailcall | _ \<Rightarrow> False)"

definition code :: "world \<Rightarrow> addr \<Rightarrow> ILOrdinalOpcode" where
  "code w a = (case w_instrs w a of None \<Rightarrow> -1 | Some i \<Rightarrow> m_opcode i)"

text \<open>The returns of \<open>xs\<close> that do not follow a tail call; \<open>before\<close> is what precedes \<open>xs\<close>, nearest first.\<close>

fun replaceable :: "(addr \<Rightarrow> ILOrdinalOpcode) \<Rightarrow> addr list \<Rightarrow> addr list \<Rightarrow> addr list" where
  "replaceable op before [] = []"
| "replaceable op before (x # xs) = (if op x = Cee_Ret \<and> \<not> after_tail_call (map op before)
     then x # replaceable op (x # before) xs else replaceable op (x # before) xs)"

text \<open>The first return of the method does not follow a tail call.\<close>

fun first_ret_plain :: "(addr \<Rightarrow> ILOrdinalOpcode) \<Rightarrow> addr list \<Rightarrow> addr list \<Rightarrow> bool" where
  "first_ret_plain op before [] = True"
| "first_ret_plain op before (x # xs) = (if op x = Cee_Ret then \<not> after_tail_call (map op before)
     else first_ret_plain op (x # before) xs)"

lemma code_Some [simp]: "w_instrs w a = Some i \<Longrightarrow> code w a = m_opcode i"
  by (simp add: code_def)

lemma rets_loop_list:
  assumes "graph_list w g (us @ vs)" and "length vs < n"
  shows "rets_loop n acc (nxt vs None) w = (Ok (acc @ filter (\<lambda>x. code w x = Cee_Ret) vs), w)"
  using assms
proof (induction vs arbitrary: us n acc)
  case Nil
  then show ?case by (cases n) (auto simp: ret_def)
next
  case (Cons v vs)
  obtain k where k: "n = Suc k" "length vs < k" using Cons.prems(2) by (cases n) auto
  obtain i where i: "w_instrs w v = Some i"
    using Cons.prems(1) graph_list_node [of w g "us @ v # vs" v] by (auto simp: node_ok_def split: option.splits)
  have nx: "m_pNextInstruction i = nxt vs None" using Cons.prems(1) i by (rule next_in_list)
  have "graph_list w g ((us @ [v]) @ vs)" using Cons.prems(1) by simp
  from Cons.IH [OF this k(2)] show ?case
    using i nx k by (cases vs) (simp_all add: GetNextInstruction_def Discard_def liftR_def Let_def IfFailRet_def get_instr_def)
qed

lemma previousOf_list:
  assumes "graph_list w g (us @ v # vs)"
  shows "previousOf v w = (Ok (prv us None), w)" "\<exists>i. w_instrs w v = Some i \<and> code w v = m_opcode i"
proof -
  obtain i where i: "w_instrs w v = Some i"
    using assms graph_list_node [of w g "us @ v # vs" v] by (auto simp: node_ok_def split: option.splits)
  have "m_pPreviousInstruction i = prv us None" using assms i by (rule next_in_list)
  then show "previousOf v w = (Ok (prv us None), w)"
    using i by (cases "prv us None") (simp_all add: previousOf_def GetPreviousInstruction_def Discard_def liftR_def ret_def IfFailRet_def get_instr_def)
  show "\<exists>i. w_instrs w v = Some i \<and> code w v = m_opcode i" using i by simp
qed

lemma followsTailCall_list:
  assumes "graph_list w g (us @ v # vs)"
  shows "followsTailCall v w = (Ok (after_tail_call (map (code w) (rev us))), w)"
proof -
  note e = followsTailCall_def IfFailRet_def get_instr_def ret_def after_tail_call_def GetIsCallInstruction_def previousOf_list(1) [OF assms]
  show ?thesis
  proof (cases us rule: rev_cases)
    case Nil
    then show ?thesis by (simp add: e)
  next
    case (snoc us1 p)
    have l1: "graph_list w g (us1 @ p # v # vs)" using assms snoc by simp
    obtain i where i: "w_instrs w p = Some i" "code w p = m_opcode i" using previousOf_list(2) [OF l1] by blast
    show ?thesis
    proof (cases us1 rule: rev_cases)
      case Nil
      then show ?thesis using snoc i previousOf_list(1) [OF l1] by (simp add: e)
    next
      case (snoc us2 q)
      have l2: "graph_list w g (us2 @ q # p # v # vs)" using l1 snoc by simp
      obtain j where j: "w_instrs w q = Some j" "code w q = m_opcode j" using previousOf_list(2) [OF l2] by blast
      show ?thesis
      proof (cases us2 rule: rev_cases)
        case Nil
        then show ?thesis using snoc \<open>us = us1 @ [p]\<close> i j previousOf_list(1) [OF l1] previousOf_list(1) [OF l2] by (simp add: e)
      next
        case (snoc us3 r)
        have l3: "graph_list w g (us3 @ r # q # p # v # vs)" using l2 snoc by simp
        obtain k where k: "w_instrs w r = Some k" "code w r = m_opcode k" using previousOf_list(2) [OF l3] by blast
        show ?thesis
          using snoc \<open>us1 = us2 @ [q]\<close> \<open>us = us1 @ [p]\<close> i j k previousOf_list(1) [OF l1] previousOf_list(1) [OF l2] by (simp add: e)
      qed
    qed
  qed
qed

lemma erase_loop_list:
  assumes "graph_list w g (us @ vs)"
    and "acc = [] \<Longrightarrow> first_ret_plain (code w) (rev us) vs"
  shows "erase_loop acc (filter (\<lambda>x. code w x = Cee_Ret) vs) w = (Ok (acc @ replaceable (code w) (rev us) vs), w)"
  using assms
proof (induction vs arbitrary: us acc)
  case Nil
  then show ?case by (simp add: ret_def)
next
  case (Cons v vs)
  have l: "graph_list w g ((us @ [v]) @ vs)" using Cons.prems(1) by simp
  note f = followsTailCall_list [OF Cons.prems(1)]
  show ?case
  proof (cases "code w v = Cee_Ret")
    case False
    then show ?thesis using Cons.IH [OF l] Cons.prems(2) by simp
  next
    case True
    show ?thesis
    proof (cases "after_tail_call (map (code w) (rev us))")
      case True
      then have "acc \<noteq> []" using Cons.prems(2) \<open>code w v = _\<close> by auto
      then show ?thesis using Cons.IH [OF l, of acc] f True \<open>code w v = _\<close> by (simp add: IfFailRet_def)
    next
      case False
      then show ?thesis using Cons.IH [OF l, of "acc @ [v]"] f \<open>code w v = _\<close> by (simp add: IfFailRet_def)
    qed
  qed
qed

lemma GetReplaceableRets_list:
  assumes "graph_list w g xs" and "first_ret_plain (code w) [] xs"
  shows "GetReplaceableRets g w = (Ok (replaceable (code w) [] xs), w)"
proof -
  obtain gr where gr: "w_graphs w g = Some gr" "m_pFirstInstruction gr = nxt xs None"
    using assms(1) by (auto simp: graph_list_def split: option.splits)
  have "length xs < walk_fuel w" using graph_list_length [OF assms(1)] by (simp add: walk_fuel_def)
  then have "rets_loop (walk_fuel w) [] (nxt xs None) w = (Ok (filter (\<lambda>x. code w x = Cee_Ret) xs), w)"
    using rets_loop_list [of w g "[]" xs] assms(1) by simp
  moreover have "erase_loop [] (filter (\<lambda>x. code w x = Cee_Ret) xs) w = (Ok (replaceable (code w) [] xs), w)"
    using erase_loop_list [of w g "[]" xs "[]"] assms by simp
  ultimately show ?thesis using gr by (simp add: GetReplaceableRets_def GetFirstInstruction_def IfFailRet_def get_graph_def ret_def)
qed

section \<open>The code that replaces a return\<close>

text \<open>A branch to \<open>t\<close>, after a store into the local \<open>slot\<close> if there is one.\<close>

definition jumps_to :: "world \<Rightarrow> addr \<Rightarrow> addr \<Rightarrow> bool" where
  "jumps_to w t b \<longleftrightarrow> opcode_at w b = Some Cee_Br \<and> targets_at w b = [Some t]"

definition accesses_local :: "world \<Rightarrow> ILOrdinalOpcode \<Rightarrow> USHORT \<Rightarrow> addr \<Rightarrow> bool" where
  "accesses_local w op slot s \<longleftrightarrow> opcode_at w s = Some op \<and> map_option (take 2) (operand_at w s) = Some (le_bytes 2 slot)"

definition leaves_by :: "world \<Rightarrow> addr \<Rightarrow> USHORT option \<Rightarrow> addr list \<Rightarrow> bool" where
  "leaves_by w t slot ys \<longleftrightarrow> (case slot of
       None \<Rightarrow> (\<exists>b. ys = [b] \<and> jumps_to w t b)
     | Some k \<Rightarrow> (\<exists>s b. ys = [s, b] \<and> accesses_local w Cee_Stloc k s \<and> jumps_to w t b))"

text \<open>Later states of the heap: the objects of \<open>w\<close> keep opcode and operand, and their targets are mapped.\<close>

definition later :: "(addr \<Rightarrow> addr) \<Rightarrow> world \<Rightarrow> world \<Rightarrow> bool" where
  "later h w w' \<longleftrightarrow> w_next w \<le> w_next w' \<and> (\<forall>a < w_next w. opcode_at w' a = opcode_at w a \<and>
     operand_at w' a = operand_at w a \<and> targets_at w' a = map (map_option h) (targets_at w a))"

lemma later_trans: "later h u v \<Longrightarrow> later k v w \<Longrightarrow> later (k \<circ> h) u w"
  by (auto simp: later_def option.map_comp comp_def)

lemma later_cong:
  assumes "later h w w'" and "heap_ok w" and "\<And>u. u < w_next w \<Longrightarrow> h u = k u"
  shows "later k w w'"
proof -
  have "map (map_option h) (targets_at w a) = map (map_option k) (targets_at w a)" if "a < w_next w" for a
    using heap_okD [OF assms(2) that] assms(3) by (auto intro: option.map_cong)
  then show ?thesis using assms(1) by (simp add: later_def)
qed

lemma later_grows: "grows w w' \<Longrightarrow> later id w w'"
  by (simp add: grows_def later_def option.map_id0)

lemma retarget_opt_map: "retarget_opt x y = map_option (\<lambda>u. if u = x then y else u)"
  by (rule ext) (simp add: retarget_opt_def split: option.splits, auto simp: map_option_case split: option.splits)

lemma later_moved: "moved g c x y w w' \<Longrightarrow> later (\<lambda>u. if u = x then y else u) w w'"
  by (simp add: moved_def later_def retarget_opt_map)

lemma heap_ok_moved:
  assumes "heap_ok w" and "moved g c x y w w'" and "info_all w'" and "y < w_next w"
  shows "heap_ok w'"
proof (rule heap_okI [OF assms(3)])
  fix b t assume b: "b < w_next w'" "Some t \<in> set (targets_at w' b)"
  have n: "w_next w' = w_next w" using assms(2) by (simp add: moved_def)
  then have "targets_at w' b = map (retarget_opt x y) (targets_at w b)" using assms(2) b(1) by (simp add: moved_def)
  with b(2) obtain u where "u \<in> set (targets_at w b)" "retarget_opt x y u = Some t" by auto
  then have "t = y \<or> Some t \<in> set (targets_at w b)" by (auto simp: retarget_opt_def split: if_splits)
  then show "t < w_next w'" using heap_okD [OF assms(1), of b t] assms(4) b(1) n by auto
qed

lemma leaves_by_later:
  assumes "leaves_by w t slot ys" and "later h w w'" and "h t = t" and "\<And>y. y \<in> set ys \<Longrightarrow> y < w_next w"
  shows "leaves_by w' t slot ys"
  using assms by (auto simp: leaves_by_def jumps_to_def accesses_local_def later_def split: option.splits)

text \<open>The instructions the instrumentation creates.\<close>

lemma CreateLocal_exec:
  assumes "op \<in> {Cee_Stloc, Cee_Ldloc}" and "length garbage = 8"
  shows "\<exists>i. CreateUShortOperandInstruction garbage op slot w = (Ok (w_next w), created i w) \<and> fresh_instr i \<and>
    accesses_local (created i w) op slot (w_next w) \<and> targets_of i = []"
proof -
  have "operand_row op ILOperandType_UShort" using assms(1) operand_rows(4,8) by auto
  then obtain e where e: "opcodeInfo op = Ok e" "m_operandLength e = 2" "m_type e = ILOperandType_UShort"
    by (auto simp: operand_row_def split: result.splits)
  have f: "\<not> IsFlagSet (m_flags e) ILOpcodeFlag_Branch"
    using assms(1) e(1) by (auto simp: opcodeInfo_code ilOpcodes_FE00_def OPDEF_def IsFlagSet_def)
  let ?i = "(new_CInstruction op True) \<lparr> m_class := Operand (le_bytes 2 slot @ drop 2 garbage) \<rparr>"
  have "new_COperandInstruction_bytes garbage op True 2 (le_bytes 2 slot) = Ok ?i"
    using e by (simp add: new_COperandInstruction_bytes_def SetOperandValue_def hasOperandValue_def storeValue_def Let_def new_CInstruction_def)
  then have "CreateUShortOperandInstruction garbage op slot w = (Ok (w_next w), created ?i w)"
    by (simp add: CreateUShortOperandInstruction_def new_instr_created liftR_def IfFailRet_def)
  moreover have "fresh_instr ?i"
    using e f assms by (auto simp: fresh_instr_def wf_instr_def wf_class_def targets_of_def new_CInstruction_def)
  ultimately show ?thesis
    by (intro exI [of _ ?i]) (simp add: accesses_local_def opcode_at_def operand_at_def targets_of_def new_CInstruction_def)
qed

lemma fresh_br: "fresh_instr (new_CBranchInstruction Cee_Br True)" "fresh_instr (new_CInstruction Cee_Ret True)"
  by (simp_all add: fresh_instr_def wf_instr_def wf_class_def targets_of_def new_CBranchInstruction_def new_CInstruction_def
      opcodeInfo_code ilOpcodes_00_def ilOpcodes_10_def ilOpcodes_20_def ilOpcodes_30_def OPDEF_def IsFlagSet_def)

definition replaceRet_step :: "byte list \<Rightarrow> gid \<Rightarrow> USHORT option \<Rightarrow> addr \<Rightarrow> addr \<Rightarrow> (world, unit) op" where
  "replaceRet_step garbage g slot t r = IfFailRet (CreateBranchInstruction Cee_Br (Some t)) (\<lambda>b.
     IfFailRet (Replace g (Some r) (Some b)) (\<lambda>_.
     case slot of None \<Rightarrow> ret () | Some k \<Rightarrow>
       IfFailRet (CreateUShortOperandInstruction garbage Cee_Stloc k) (\<lambda>s.
         InsertBeforeAndRetargetOffsets g (Some b) (Some s))))"

lemma replaceRet_step_list:
  assumes "body_ok w g (A @ r # B)" and "heap_ok w" and "t \<in> set B" and "length garbage = 8"
  shows "\<exists>w' ys. replaceRet_step garbage g slot t r w = (Ok (), w') \<and> body_ok w' g (A @ ys @ B) \<and> heap_ok w' \<and>
    leaves_by w' t slot ys \<and> later (\<lambda>u. if u = r then hd ys else u) w w' \<and> (\<forall>y \<in> set ys. w_next w \<le> y \<and> y < w_next w') \<and>
    w_methods w' = w_methods w"
proof -
  let ?b = "w_next w"
  have "distinct (A @ r # B)" using assms(1) by (rule body_okE)
  moreover have "list_all (node_ok w g) (A @ r # B)" using assms(1) by (rule body_okE)
  ultimately have n: "node_ok w g t" "node_ok w g r" "r \<noteq> t" using assms(3) by (auto simp: list_all_iff)
  from node_okD [OF n(1)] obtain ip where ip: "w_instrs w t = Some ip" "t < w_next w" "r \<noteq> t" using n(3) by blast
  obtain w1 where w1: "CreateBranchInstruction Cee_Br (Some t) w = (Ok ?b, w1)" "body_ok w1 g (A @ r # B)" "heap_ok w1"
    "detached w1 ?b" "grows w w1" "w_next w1 = Suc ?b" "opcode_at w1 ?b = Some Cee_Br" "targets_at w1 ?b = [Some t]"
    using CreateBranchInstruction_exec [OF assms(1,2) ip(2,1) fresh_br(1)] by blast
  have i1: "info_all w1" using w1(3) by (simp add: heap_ok_def)
  obtain w2 where w2: "Replace g (Some r) (Some ?b) w1 = (Ok (), w2)" "body_ok w2 g (A @ ?b # B)" "moved g True r ?b w1 w2" "info_all w2"
    using Replace_list [OF w1(2,4) i1] w1(8) ip(3) by auto
  have h2: "heap_ok w2" using heap_ok_moved [OF w1(3) w2(3,4)] w1(6) by simp
  have n2: "w_next w2 = Suc ?b" using w2(3) w1(6) by (simp add: moved_def)
  have m2: "w_methods w2 = w_methods w" using w2(3) w1(5) by (simp add: moved_def grows_def)
  have b2: "jumps_to w2 t ?b" using w2(3) w1(6-8) ip(3) by (simp add: moved_def jumps_to_def retarget_opt_def)
  have l2: "later (\<lambda>u. if u = r then ?b else u) w w2"
    using later_trans [OF later_grows [OF w1(5)] later_moved [OF w2(3)]] by (simp add: comp_def id_def)
  show ?thesis
  proof (cases slot)
    case None
    then show ?thesis using w1(1) w2(1,2) h2 n2 b2 l2 m2
      by (intro exI [of _ w2] exI [of _ "[?b]"]) (simp add: replaceRet_step_def leaves_by_def ret_def cong: if_cong)
  next
    case (Some k)
    let ?s = "w_next w2"
    obtain i where i: "CreateUShortOperandInstruction garbage Cee_Stloc k w2 = (Ok ?s, created i w2)" "fresh_instr i"
      "accesses_local (created i w2) Cee_Stloc k ?s" "targets_of i = []"
      using CreateLocal_exec [of Cee_Stloc garbage k w2] assms(4) by auto
    let ?w3 = "created i w2"
    have t3: "targets_at ?w3 ?s = []" using i(4) by (simp add: targets_at_def)
    have h3: "heap_ok ?w3" using h2 i(2) by (rule heap_ok_created)
    obtain w4 where w4: "InsertBeforeAndRetargetOffsets g (Some ?b) (Some ?s) ?w3 = (Ok (), w4)" "body_ok w4 g (A @ ?s # ?b # B)"
      "\<exists>c. moved g c ?b ?s ?w3 w4" "info_all w4"
      using InsertBeforeAndRetargetOffsets_list [OF body_ok_created [OF w2(2)] detached_created [OF i(2)]] h3 t3
      by (fastforce simp: heap_ok_def)
    then obtain c where c: "moved g c ?b ?s ?w3 w4" by blast
    have h4: "heap_ok w4" using heap_ok_moved [OF h3 c w4(4)] by simp
    have l4: "later (\<lambda>u. if u = ?b then ?s else u) ?w3 w4" using c by (rule later_moved)
    have l3: "later (\<lambda>u. if u = ?b then ?s else u) w2 w4"
      using later_trans [OF later_grows [OF grows_created] l4] by simp
    have "later ((\<lambda>u. if u = ?b then ?s else u) \<circ> (\<lambda>u. if u = r then ?b else u)) w w4"
      using l2 l3 by (rule later_trans)
    then have "later (\<lambda>u. if u = r then ?s else u) w w4"
      by (rule later_cong [OF _ assms(2)]) auto
    moreover have "accesses_local w4 Cee_Stloc k ?s" using i(3) l4 by (auto simp: accesses_local_def later_def)
    moreover have "jumps_to w4 t ?b" using b2 l3 n2 ip(2) by (simp add: jumps_to_def later_def)
    moreover have "w_next w4 = Suc ?s" "w_methods w4 = w_methods w" using c m2 by (simp_all add: moved_def)
    ultimately show ?thesis using Some w1(1) w2(1) i(1) w4(1,2) h4 n2
      by (intro exI [of _ w4] exI [of _ "[?s, ?b]"]) (simp add: replaceRet_step_def leaves_by_def cong: if_cong)
  qed
qed

lemma replaceRets_loop_step:
  "replaceRets_loop garbage g st slot t (r # rs) =
    IfFailRet (replaceRet_step garbage g (if st then Some (ucast slot) else None) t r) (\<lambda>_. replaceRets_loop garbage g st slot t rs)"
  by (rule ext) (simp add: replaceRet_step_def IfFailRet_assoc)

lemma concat_upd:
  assumes "x \<notin> set (ps @ qs)"
  shows "concat (map (f(x := ys)) (ps @ x # qs)) = concat (map f ps) @ ys @ concat (map f qs)"
proof -
  have "map (f(x := ys)) ps = map f ps" "map (f(x := ys)) qs = map f qs" using assms by auto
  then show ?thesis by (simp only: map_append list.map concat_append concat.simps fun_upd_same)
qed

lemma replaceRets_list:
  assumes "body_ok w g (concat (map f xs) @ t # B)" and "heap_ok w" and "distinct xs" and "distinct rs" and "set rs \<subseteq> set xs"
    and "\<And>r. r \<in> set rs \<Longrightarrow> f r = [r]" and "length garbage = 8" and "slot' = (if st then Some (ucast slot) else None)"
  shows "\<exists>w' f'. replaceRets_loop garbage g st slot t rs w = (Ok (), w') \<and> body_ok w' g (concat (map f' xs) @ t # B) \<and> heap_ok w' \<and>
    (\<forall>x. x \<notin> set rs \<longrightarrow> f' x = f x) \<and> (\<forall>r \<in> set rs. leaves_by w' t slot' (f' r)) \<and>
    later (\<lambda>u. if u \<in> set rs then hd (f' u) else u) w w' \<and> w_methods w' = w_methods w"
  using assms(1,2,4-6)
proof (induction rs arbitrary: w f)
  case Nil
  then show ?case by (intro exI [of _ w] exI [of _ f]) (simp add: ret_def later_def map_option.id [unfolded id_def])
next
  case (Cons r rs)
  obtain ps qs where xs: "xs = ps @ r # qs" "r \<notin> set (ps @ qs)"
    using Cons.prems(4) assms(3) split_list [of r xs] by fastforce
  have fr: "f r = [r]" using Cons.prems(5) by simp
  let ?A = "concat (map f ps)" and ?B = "concat (map f qs) @ t # B"
  have b: "body_ok w g (?A @ r # ?B)" using Cons.prems(1) xs(1) fr by simp
  obtain w1 ys where w1: "replaceRet_step garbage g slot' t r w = (Ok (), w1)" "body_ok w1 g (?A @ ys @ ?B)" "heap_ok w1"
    "leaves_by w1 t slot' ys" "later (\<lambda>u. if u = r then hd ys else u) w w1" "\<forall>y \<in> set ys. w_next w \<le> y \<and> y < w_next w1"
    "w_methods w1 = w_methods w"
    using replaceRet_step_list [OF b Cons.prems(2) _ assms(7), of t slot'] by auto
  let ?f = "f(r := ys)"
  have "body_ok w1 g (concat (map ?f xs) @ t # B)" using w1(2) xs concat_upd [OF xs(2), of f ys] by simp
  moreover have "\<And>q. q \<in> set rs \<Longrightarrow> ?f q = [q]" using Cons.prems(3,5) by auto
  moreover have "distinct rs" "set rs \<subseteq> set xs" using Cons.prems(3,4) by auto
  ultimately obtain w2 f' where w2: "replaceRets_loop garbage g st slot t rs w1 = (Ok (), w2)"
    "body_ok w2 g (concat (map f' xs) @ t # B)" "heap_ok w2" "\<forall>x. x \<notin> set rs \<longrightarrow> f' x = ?f x"
    "\<forall>r \<in> set rs. leaves_by w2 t slot' (f' r)" "later (\<lambda>u. if u \<in> set rs then hd (f' u) else u) w1 w2" "w_methods w2 = w_methods w1"
    using Cons.IH [of w1 ?f] w1(3) by blast
  have mem: "u \<in> set (concat (map f xs))" if u: "u \<in> set (r # rs)" for u
  proof -
    have "f u = [u]" "u \<in> set xs" using u Cons.prems(4,5) by blast+
    then show ?thesis by force
  qed
  then have old: "u < w_next w" if "u \<in> set (r # rs)" for u
    using body_ok_bounded [OF Cons.prems(1), of u] that by simp
  have ft: "f' r = ys" using w2(4) Cons.prems(3) by simp
  have "t \<notin> set (r # rs)"
  proof
    assume "t \<in> set (r # rs)"
    then have "t \<in> set (concat (map f xs))" by (rule mem)
    moreover have "distinct (concat (map f xs) @ t # B)" using Cons.prems(1) by (rule body_okE)
    ultimately show False by simp
  qed
  then have "leaves_by w2 t slot' ys" using leaves_by_later [OF w1(4) w2(6)] w1(6) by auto
  moreover have ne: "ys \<noteq> []" using w1(4) by (auto simp: leaves_by_def split: option.splits)
  then have nw: "w_next w \<le> hd ys" using w1(6) by simp
  have "later ((\<lambda>u. if u \<in> set rs then hd (f' u) else u) \<circ> (\<lambda>u. if u = r then hd ys else u)) w w2"
    using w1(5) w2(6) by (rule later_trans)
  then have "later (\<lambda>u. if u \<in> set (r # rs) then hd (f' u) else u) w w2"
    by (rule later_cong [OF _ Cons.prems(2)]) (use nw old ft in \<open>fastforce\<close>)
  moreover have "replaceRets_loop garbage g st slot t (r # rs) w = (Ok (), w2)"
    using w1(1) w2(1) assms(8) by (simp only: replaceRets_loop_step) (simp add: IfFailRet_def)
  ultimately show ?case using w2 ft w1(7) Cons.prems(3) by (intro exI [of _ w2] exI [of _ f']) auto
qed

section \<open>The code at the end of the method\<close>

definition epilogue :: "world \<Rightarrow> USHORT option \<Rightarrow> addr list \<Rightarrow> bool" where
  "epilogue w slot ys \<longleftrightarrow> (case slot of
       None \<Rightarrow> (\<exists>r. ys = [r] \<and> opcode_at w r = Some Cee_Ret)
     | Some k \<Rightarrow> (\<exists>l r. ys = [l, r] \<and> accesses_local w Cee_Ldloc k l \<and> opcode_at w r = Some Cee_Ret))"

lemma epilogue_later: "epilogue w slot ys \<Longrightarrow> later h w w' \<Longrightarrow> (\<And>y. y \<in> set ys \<Longrightarrow> y < w_next w) \<Longrightarrow> epilogue w' slot ys"
  by (auto simp: epilogue_def accesses_local_def later_def split: option.splits)

lemma heap_ok_keeps: "keeps w w' \<Longrightarrow> heap_ok w' = heap_ok w"
  using info_keeps(1) [of w w'] keeps_views(1) [of w w'] by (simp add: heap_ok_def keeps_def cong: option.case_cong)

lemma later_keeps: "keeps w w' \<Longrightarrow> later id w w'"
  using keeps_views [of w w'] by (simp add: later_def option.map_id0 keeps_def)

lemma append_ret:
  assumes "body_ok w g xs" and "heap_ok w" and "xs \<noteq> []"
  shows "\<exists>w0 w1. CreateInstruction Cee_Ret w = (Ok (w_next w), w0) \<and> GetLastInstruction g w0 = (Ok (Some (last xs)), w0) \<and>
    InsertAfter g (Some (last xs)) (Some (w_next w)) w0 = (Ok (), w1) \<and> body_ok w1 g (xs @ [w_next w]) \<and> heap_ok w1 \<and>
    later id w w1 \<and> w_methods w1 = w_methods w \<and> opcode_at w1 (w_next w) = Some Cee_Ret \<and> w_next w1 = Suc (w_next w)"
proof -
  let ?i = "new_CInstruction Cee_Ret True" and ?n = "w_next w"
  let ?w0 = "created ?i w"
  have xs: "xs = butlast xs @ last xs # []" using assms(3) by simp
  have b: "body_ok ?w0 g (butlast xs @ last xs # [])" using body_ok_created [OF assms(1)] xs by simp
  obtain gr where gr: "w_graphs ?w0 g = Some gr" "m_pLastInstruction gr = prv (butlast xs @ last xs # []) None" using b by (rule body_okE)
  obtain w1 where w1: "InsertAfter g (Some (last xs)) (Some ?n) ?w0 = (Ok (), w1)" "body_ok w1 g (butlast xs @ last xs # ?n # [])"
    using InsertAfter_list [OF b detached_created [OF fresh_br(2)]] by blast
  have k: "keeps ?w0 w1" using preserves_run [OF preserves_inserts(2) w1(1)] .
  have "later (id \<circ> id) w w1" using later_trans [OF later_grows [OF grows_created] later_keeps [OF k]] .
  moreover have "opcode_at w1 ?n = Some Cee_Ret" using keeps_views(2) [OF k] by (simp add: opcode_at_def new_CInstruction_def)
  moreover have "heap_ok w1" using heap_ok_keeps [OF k] heap_ok_created [OF assms(2) fresh_br(2)] by simp
  moreover have "CreateInstruction Cee_Ret w = (Ok ?n, ?w0)" by (simp add: CreateInstruction_def new_instr_created)
  moreover have "GetLastInstruction g ?w0 = (Ok (Some (last xs)), ?w0)"
    using gr by (simp add: GetLastInstruction_def get_graph_def IfFailRet_def ret_def)
  moreover have "body_ok w1 g (xs @ [?n])"
  proof -
    have "butlast xs @ last xs # ?n # [] = (butlast xs @ [last xs]) @ [?n]" by simp
    also have "\<dots> = xs @ [?n]" by (simp only: append_butlast_last_id [OF assms(3)])
    finally show ?thesis using w1(2) by (simp only:)
  qed
  ultimately show ?thesis using w1(1) k by (intro exI [of _ ?w0] exI [of _ w1]) (simp add: keeps_def)
qed

definition with_locals :: "methodinfo \<Rightarrow> methodinfo" where
  "with_locals mi = (if m_localVariables mi = None then mi \<lparr> m_localVariables := Some (new_CLocalVariableCollection False) \<rparr> else mi)"

lemma GetLocalVariables_exec: "w_methods w m = Some mi \<Longrightarrow> GetLocalVariables m w = (Ok (), put_method m (with_locals mi) w)"
  by (simp add: GetLocalVariables_def get_method_def IfFailRet_def put_locals_def upd_method_exec with_locals_def set_locals_def ret_def put_method_id)

lemma put_method_body:
  assumes "body_ok w g xs" and "w_methods w m = Some mi" and "m_pExceptionSection mi' = m_pExceptionSection mi"
  shows "body_ok (put_method m mi' w) g xs"
proof -
  have "section_ok (put_method m mi' w) g = section_ok w g"
    using assms(2,3) by (auto simp: section_ok_def split: option.splits)
  moreover have "size_at (put_method m mi' w) = size_at w" by (simp add: size_at_def fun_eq_iff)
  then have "layout (put_method m mi' w) 0 xs a = layout w 0 xs a" for a by (intro layout_cong) simp
  moreover have "node_ok (put_method m mi' w) g = node_ok w g" by (simp add: node_ok_def fun_eq_iff)
  ultimately show ?thesis using assms(1) by (simp add: body_ok_def graph_inv_def graph_list_def stale_def cong: option.case_cong)
qed

lemma put_method_heap: "heap_ok (put_method m mi w) = heap_ok w" "later id w (put_method m mi w)"
proof -
  have "targets_at (put_method m mi w) = targets_at w" "branches_of (put_method m mi w) = branches_of w"
    "points_at (put_method m mi w) = points_at w" "opcode_at (put_method m mi w) = opcode_at w" "operand_at (put_method m mi w) = operand_at w"
    by (simp_all add: targets_at_def branches_of_def points_at_def opcode_at_def operand_at_def fun_eq_iff)
  then show "heap_ok (put_method m mi w) = heap_ok w" "later id w (put_method m mi w)"
    by (simp_all add: heap_ok_def info_all_def info_exact_def [abs_def] later_def option.map_id0 cong: option.case_cong)
qed

lemma prepend_load:
  assumes "body_ok w g (xs @ [n])" and "heap_ok w" and "w_methods w m = Some mi" and "locals_view import CurrentLocals (with_locals mi) ts us"
    and "length garbage = 8" and "opcode_at w n = Some Cee_Ret"
  defines "k \<equiv> of_nat (length (ts @ us)) :: DWORD"
  shows "\<exists>w4 l mi'. loadRetVal garbage (Ok import) g m rt n w = (Ok (l, k), w4) \<and> body_ok w4 g (xs @ l # [n]) \<and> heap_ok w4 \<and>
    later (\<lambda>u. if u = n then l else u) w w4 \<and> epilogue w4 (Some (ucast k)) [l, n] \<and>
    w_methods w4 = (w_methods w)(m \<mapsto> mi') \<and> locals_view import CurrentLocals mi' ts (us @ [rt])"
proof -
  let ?w1 = "put_method m (with_locals mi) w"
  have m1: "w_methods ?w1 m = Some (with_locals mi)" by simp
  obtain mi' where mi': "AddLocal (Ok import) CurrentLocals m (Some rt) ?w1 = (Ok k, put_method m mi' ?w1)"
    "locals_view import CurrentLocals mi' ts (us @ [rt])" "\<exists>c. mi' = set_locals CurrentLocals c (with_locals mi)"
    using AddLocal_view [OF m1 assms(4), of rt] unfolding k_def by blast
  let ?w2 = "put_method m mi' w"
  have "m_pExceptionSection mi' = m_pExceptionSection mi" using mi'(3) by (auto simp: set_locals_def with_locals_def)
  then have b2: "body_ok ?w2 g (xs @ [n])" using put_method_body [OF assms(1,3)] by simp
  let ?l = "w_next w"
  obtain i where i: "CreateUShortOperandInstruction garbage Cee_Ldloc (ucast k) ?w2 = (Ok ?l, created i ?w2)" "fresh_instr i"
    "accesses_local (created i ?w2) Cee_Ldloc (ucast k) ?l" "targets_of i = []"
    using CreateLocal_exec [of Cee_Ldloc garbage "ucast k" ?w2] assms(5) by auto
  have d: "detached (created i ?w2) ?l" using detached_created [OF i(2), of ?w2] by simp
  let ?w3 = "created i ?w2"
  have h2: "heap_ok ?w2" using assms(2) by (simp add: put_method_heap)
  have h3: "heap_ok ?w3" using h2 i(2) by (rule heap_ok_created)
  have t3: "targets_at ?w3 ?l = []" using i(4) by (simp add: targets_at_def)
  have b3: "body_ok ?w3 g (xs @ n # [])" using b2 by (simp add: body_ok_created)
  obtain w4 where w4: "InsertBeforeAndRetargetOffsets g (Some n) (Some ?l) ?w3 = (Ok (), w4)" "body_ok w4 g (xs @ ?l # [n])"
    "\<exists>c. moved g c n ?l ?w3 w4" "info_all w4"
    using InsertBeforeAndRetargetOffsets_list [OF b3 d] h3 t3 by (fastforce simp: heap_ok_def)
  then obtain c where c: "moved g c n ?l ?w3 w4" by blast
  have l4: "later (\<lambda>u. if u = n then ?l else u) ?w3 w4" using c by (rule later_moved)
  have n: "n < w_next w" using body_ok_bounded [OF assms(1)] by simp
  have l: "later (\<lambda>u. if u = n then ?l else u) w w4"
    using later_trans [OF later_trans [OF put_method_heap(2) later_grows [OF grows_created]] l4] by (simp add: comp_def id_def)
  moreover have "epilogue w4 (Some (ucast k)) [?l, n]"
    using i(3) l4 l n assms(6) by (auto simp: epilogue_def accesses_local_def later_def)
  moreover have "heap_ok w4" using heap_ok_moved [OF h3 c w4(4)] by simp
  moreover have "w_methods w4 = (w_methods w)(m \<mapsto> mi')" using c by (simp add: moved_def)
  moreover have "loadRetVal garbage (Ok import) g m rt n w = (Ok (?l, k), w4)"
    using GetLocalVariables_exec [OF assms(3)] mi'(1) i(1) w4(1) by (simp add: loadRetVal_def Discard_def IfFailRet_def ret_def)
  ultimately show ?thesis using mi'(2) w4(2) by blast
qed

section \<open>The instrumented method\<close>

text \<open>The local variable that carries a return value of type \<open>rt\<close>, if it needs one; \<open>n\<close> is the number of locals.\<close>

definition ret_slot :: "CType \<Rightarrow> nat \<Rightarrow> USHORT option" where
  "ret_slot rt n = (if m_corType rt \<noteq> ELEMENT_TYPE_VOID \<and> m_corType rt \<noteq> ELEMENT_TYPE_BYREF then Some (ucast (of_nat n :: DWORD)) else None)"

text \<open>\<open>f\<close> maps each instruction of \<open>xs\<close> to what stands in its place in \<open>w'\<close>.\<close>

definition rewritten :: "world \<Rightarrow> world \<Rightarrow> gid \<Rightarrow> addr list \<Rightarrow> addr list \<Rightarrow> USHORT option \<Rightarrow> (addr \<Rightarrow> addr list) \<Rightarrow> addr list \<Rightarrow> bool" where
  "rewritten w w' g xs rs slot f ys \<longleftrightarrow> body_ok w' g (concat (map f xs) @ ys) \<and> epilogue w' slot ys \<and>
     (\<forall>r \<in> set rs. leaves_by w' (hd ys) slot (f r)) \<and> (\<forall>x. x \<notin> set rs \<longrightarrow> f x = [x]) \<and>
     (\<forall>x \<in> set xs. opcode_at w' x = opcode_at w x \<and> operand_at w' x = operand_at w x \<and>
       targets_at w' x = map (map_option (\<lambda>u. hd (f u))) (targets_at w x))"

lemma replaceable_subset: "set (replaceable op b xs) \<subseteq> set xs" "distinct xs \<Longrightarrow> distinct (replaceable op b xs)"
proof -
  show sub: "set (replaceable op b xs) \<subseteq> set xs" for b by (induction xs arbitrary: b) auto
  show "distinct xs \<Longrightarrow> distinct (replaceable op b xs)"
  proof (induction xs arbitrary: b)
    case (Cons x xs)
    have "set (replaceable op c xs) \<subseteq> set xs" for c by (induction xs arbitrary: c) auto
    with Cons show ?case by auto
  qed simp
qed

lemma rewritten_loop:
  assumes "body_ok w1 g (xs @ t # B)" and "heap_ok w1" and "later h w w1" and "heap_ok w" and "\<And>u. u < w_next w \<Longrightarrow> h u = u"
    and "epilogue w1 slot' (t # B)" and "slot' = (if st then Some (ucast slot) else None)" and "body_ok w g xs"
    and "rs = replaceable (code w) [] xs" and "length garbage = 8"
  shows "\<exists>w' f. replaceRets_loop garbage g st slot t rs w1 = (Ok (), w') \<and> rewritten w w' g xs rs slot' f (t # B) \<and> heap_ok w' \<and>
    w_methods w' = w_methods w1"
proof -
  have d: "distinct xs" using assms(8) by (rule body_okE)
  have id: "concat (map (\<lambda>x. [x]) xs) = xs" by (induction xs) auto
  obtain w' f where w': "replaceRets_loop garbage g st slot t rs w1 = (Ok (), w')" "body_ok w' g (concat (map f xs) @ t # B)" "heap_ok w'"
    "\<forall>x. x \<notin> set rs \<longrightarrow> f x = [x]" "\<forall>r \<in> set rs. leaves_by w' t slot' (f r)"
    "later (\<lambda>u. if u \<in> set rs then hd (f u) else u) w1 w'" "w_methods w' = w_methods w1"
    using replaceRets_list [of w1 g "\<lambda>x. [x]" xs t B rs garbage slot' st slot] assms(1,2,7,9,10) d replaceable_subset [where op = "code w" and b = "[]" and xs = xs] id by auto
  have "later ((\<lambda>u. if u \<in> set rs then hd (f u) else u) \<circ> h) w w'" using assms(3) w'(6) by (rule later_trans)
  then have l: "later (\<lambda>u. hd (f u)) w w'"
    by (rule later_cong [OF _ assms(4)]) (use assms(5) w'(4) in auto)
  have "y < w_next w1" if "y \<in> set (t # B)" for y using body_ok_bounded [OF assms(1)] that by auto
  then have "epilogue w' slot' (t # B)" using epilogue_later [OF assms(6) w'(6)] by blast
  moreover have "x < w_next w" if "x \<in> set xs" for x using body_ok_bounded [OF assms(8) that] .
  ultimately have "rewritten w w' g xs rs slot' f (t # B)" using w' l by (auto simp: rewritten_def later_def)
  then show ?thesis using w' by blast
qed

lemma redirectRets_list:
  assumes "body_ok w g xs" and "heap_ok w" and "w_methods w m = Some mi" and "xs \<noteq> []" and "GetReturnType mi = Ok rt"
    and "locals_view import CurrentLocals (with_locals mi) ts us" and "length garbage = 8" and "rs = replaceable (code w) [] xs"
  defines "slot \<equiv> ret_slot rt (length (ts @ us))"
  shows "\<exists>w' f ys mi'. redirectRets garbage (Ok import) g m rs w = (Ok (hd ys), w') \<and> rewritten w w' g xs rs slot f ys \<and>
    w_methods w' m = Some mi' \<and> (slot \<noteq> None \<longrightarrow> locals_view import CurrentLocals mi' ts (us @ [rt]))"
proof -
  obtain w0 w1 where w1: "CreateInstruction Cee_Ret w = (Ok (w_next w), w0)" "GetLastInstruction g w0 = (Ok (Some (last xs)), w0)"
    "InsertAfter g (Some (last xs)) (Some (w_next w)) w0 = (Ok (), w1)" "body_ok w1 g (xs @ [w_next w])" "heap_ok w1" "later id w w1"
    "w_methods w1 = w_methods w" "opcode_at w1 (w_next w) = Some Cee_Ret"
    using append_ret [OF assms(1,2,4)] by blast
  have m1: "w_methods w1 m = Some mi" using w1(7) assms(3) by simp
  note run = redirectRets_def IfFailRet_def get_method_def m1 liftR_def assms(5) Let_def ret_def
  show ?thesis
  proof (cases "m_corType rt \<noteq> ELEMENT_TYPE_VOID \<and> m_corType rt \<noteq> ELEMENT_TYPE_BYREF")
    case False
    then have s: "slot = None" by (simp add: slot_def ret_slot_def)
    then have "epilogue w1 slot [w_next w]" using w1(8) by (simp add: epilogue_def)
    then obtain w' f where w': "replaceRets_loop garbage g False 0 (w_next w) rs w1 = (Ok (), w')" "rewritten w w' g xs rs slot f [w_next w]"
      "w_methods w' = w_methods w1"
      using rewritten_loop [of w1 g xs "w_next w" "[]" id w slot False 0 rs garbage] w1 assms(1,2,7,8) s by auto
    have "redirectRets garbage (Ok import) g m rs w = (Ok (w_next w), w')"
      using w1(1-3) w'(1) False by (auto simp: run)
    then show ?thesis using w' s m1
      by (intro exI [of _ w'] exI [of _ f] exI [of _ "[w_next w]"] exI [of _ mi]) simp
  next
    case True
    let ?k = "of_nat (length (ts @ us)) :: DWORD"
    have s: "slot = Some (ucast ?k)" using True by (simp add: slot_def ret_slot_def)
    obtain w5 l mi' where w5: "loadRetVal garbage (Ok import) g m rt (w_next w) w1 = (Ok (l, ?k), w5)" "body_ok w5 g (xs @ l # [w_next w])" "heap_ok w5"
      "later (\<lambda>u. if u = w_next w then l else u) w1 w5" "epilogue w5 (Some (ucast ?k)) [l, w_next w]"
      "w_methods w5 = (w_methods w1)(m \<mapsto> mi')" "locals_view import CurrentLocals mi' ts (us @ [rt])"
      using prepend_load [OF w1(4,5) m1 assms(6,7) w1(8), of rt] by blast
    have l5: "later ((\<lambda>u. if u = w_next w then l else u) \<circ> id) w w5" using w1(6) w5(4) by (rule later_trans)
    obtain w' f where w': "replaceRets_loop garbage g True ?k l rs w5 = (Ok (), w')" "rewritten w w' g xs rs slot f [l, w_next w]"
      "w_methods w' = w_methods w5"
      using rewritten_loop [OF w5(2,3) l5 assms(2) _ w5(5) _ assms(1,8,7), of True ?k] s by auto
    have "redirectRets garbage (Ok import) g m rs w = (Ok l, w')"
      using w1(1-3) w5(1) w'(1) True by (simp add: run)
    then show ?thesis using w' w5(6,7)
      by (intro exI [of _ w'] exI [of _ f] exI [of _ "[l, w_next w]"] exI [of _ mi']) simp
  qed
qed

text \<open>C2. The single return instrumentation.  With fewer than two returns to replace it changes nothing.  Otherwise it
  ends with success and the method consists of its old instructions with every replaceable return turned into a branch to one
  return at the end, which is the only new one: for a method that returns a value (not by reference) the branch is preceded by a
  store into a new local variable of the return type and the final return by a load of it.  Every other instruction keeps
  opcode, operand and place, and a branch to a replaced return now targets the code in its place.\<close>

theorem ApplySingleRetDefaultInstrumentation_rewrites:
  assumes "body_ok w g xs" and "heap_ok w" and "w_graphs w g = Some gr" and "m_pMethodInfo gr = Some m" and "w_methods w m = Some mi"
    and "sr_pInstructionGraph sr = Some g" and "first_ret_plain (code w) [] xs" and "GetReturnType mi = Ok rt"
    and "locals_view import CurrentLocals (with_locals mi) ts us" and "length garbage = 8"
  defines "rs \<equiv> replaceable (code w) [] xs" and "slot \<equiv> ret_slot rt (length (ts @ us))"
  shows "if length rs \<le> 1 then ApplySingleRetDefaultInstrumentation garbage (Ok import) sr w = (Ok sr, w)
    else \<exists>w' f ys mi'. ApplySingleRetDefaultInstrumentation garbage (Ok import) sr w = (Ok (sr \<lparr> sr_pJumpTarget := Some (hd ys) \<rparr>), w') \<and>
      rewritten w w' g xs rs slot f ys \<and> w_methods w' m = Some mi' \<and>
      (slot \<noteq> None \<longrightarrow> locals_view import CurrentLocals mi' ts (us @ [rt]))"
proof -
  have "graph_list w g xs" using assms(1) by (simp add: body_ok_def graph_inv_list)
  then have "GetReplaceableRets g w = (Ok rs, w)" unfolding rs_def using assms(7) by (rule GetReplaceableRets_list)
  moreover have "Graph_GetMethodInfo g w = (Ok m, w)" using assms(3,4) by (simp add: Graph_GetMethodInfo_def get_graph_def IfFailRet_def ret_def)
  ultimately have e: "ApplySingleRetDefaultInstrumentation garbage (Ok import) sr w = (if length rs \<le> 1 then (Ok sr, w)
      else IfFailRet (redirectRets garbage (Ok import) g m rs) (\<lambda>t. ret (sr \<lparr> sr_pJumpTarget := Some t \<rparr>)) w)"
    using assms(6) by (auto simp: ApplySingleRetDefaultInstrumentation_def liftR_def ret_def le_Suc_eq)
  show ?thesis
  proof (cases "length rs \<le> 1")
    case False
    then have "xs \<noteq> []" unfolding rs_def by auto
    from redirectRets_list [OF assms(1,2,5) this assms(8-10) rs_def [THEN meta_eq_to_obj_eq]]
    show ?thesis using False e unfolding slot_def by (fastforce simp: ret_def)
  qed (use e in simp)
qed

text \<open>A method with two returns: \<^verbatim>\<open>if (arg0) return 1; return 0;\<close>\<close>

definition sr_instr :: "ILOrdinalOpcode \<Rightarrow> iclass \<Rightarrow> DWORD \<Rightarrow> addr option \<Rightarrow> addr option \<Rightarrow> instr" where
  "sr_instr op c offset p n = (new_CInstruction op False) \<lparr> m_class := c, m_offset := offset, m_pGraph := Some 0,
     m_pPreviousInstruction := p, m_pNextInstruction := n \<rparr>"

definition sr_method :: methodinfo where
  "sr_method = \<lparr> m_methodIl = Ok [], m_pInstructionGraph = Some 0, m_pExceptionSection = Some [],
     m_newCorHeader = \<lparr> h_Flags = 0x13, h_Size = 3, h_MaxStack = 8, h_CodeSize = 10, h_LocalVarSigTok = 0 \<rparr>,
     m_bIsHeaderInitialized = True, m_pILStream = [], m_pCorILMap = [], m_pIntermediateRenderedMethod = [],
     m_bIsInstrumented = False, m_bIsCreateBaselineEnabled = False, m_signature = Ok [0, 1, 8, 2],
     m_savedILMap = None, m_localVariables = None, m_origLocalVariables = None \<rparr>"

definition sr_world :: world where
  "sr_world = empty_world \<lparr>
     w_instrs := [0 \<mapsto> sr_instr Cee_Ldarg_0 Plain 0 None (Some 1),
        1 \<mapsto> sr_instr Cee_Brtrue (Branch 2 (Some 4) None) 1 (Some 0) (Some 2),
        2 \<mapsto> sr_instr Cee_Ldc_I4_0 Plain 6 (Some 1) (Some 3), 3 \<mapsto> sr_instr Cee_Ret Plain 7 (Some 2) (Some 4),
        4 \<mapsto> (sr_instr Cee_Ldc_I4_1 Plain 8 (Some 3) (Some 5)) \<lparr> m_branchInfo := Some [1] \<rparr>, 5 \<mapsto> sr_instr Cee_Ret Plain 9 (Some 4) None],
     w_next := 6,
     w_graphs := [0 \<mapsto> (new_CInstructionGraph (Some 0)) \<lparr> m_pFirstInstruction := Some 0, m_pLastInstruction := Some 5 \<rparr>],
     w_methods := [0 \<mapsto> sr_method] \<rparr>"

lemma sr_world_ok: "body_ok sr_world 0 [0, 1, 2, 3, 4, 5]" "heap_ok sr_world" "first_ret_plain (code sr_world) [] [0, 1, 2, 3, 4, 5]"
  "replaceable (code sr_world) [] [0, 1, 2, 3, 4, 5] = [3, 5]"
  by code_simp+

lemma sr_method_ok: "GetReturnType sr_method = Ok int_type" "locals_view locals_metadata CurrentLocals (with_locals sr_method) [] []"
proof -
  show "GetReturnType sr_method = Ok int_type" by code_simp
  show "locals_view locals_metadata CurrentLocals (with_locals sr_method) [] []"
    by (simp add: locals_view_def with_locals_def sr_method_def locals_of_def new_CLocalVariableCollection_def original_types_def)
qed

theorem ApplySingleRetDefaultInstrumentation_rewrites_witness:
  "\<exists>w' f ys. ApplySingleRetDefaultInstrumentation (replicate 8 0) (Ok locals_metadata) \<lparr> sr_pInstructionGraph = Some 0, sr_pJumpTarget = None \<rparr> sr_world =
      (Ok \<lparr> sr_pInstructionGraph = Some 0, sr_pJumpTarget = Some (hd ys) \<rparr>, w') \<and>
    rewritten sr_world w' 0 [0, 1, 2, 3, 4, 5] [3, 5] (Some 0) f ys"
proof -
  have g: "w_graphs sr_world 0 = Some ((new_CInstructionGraph (Some 0)) \<lparr> m_pFirstInstruction := Some 0, m_pLastInstruction := Some 5 \<rparr>)"
    "w_methods sr_world 0 = Some sr_method" by (simp_all add: sr_world_def)
  have "ret_slot int_type (length ([] @ [] :: CType list)) = Some 0" by code_simp
  moreover note ApplySingleRetDefaultInstrumentation_rewrites [OF sr_world_ok(1,2) g(1) _ g(2) _ sr_world_ok(3) sr_method_ok(1,2),
      of "\<lparr> sr_pInstructionGraph = Some 0, sr_pJumpTarget = None \<rparr>" "replicate 8 0"]
  ultimately show ?thesis unfolding sr_world_ok(4) by (fastforce simp: new_CInstructionGraph_def)
qed

end
