(* ===== verification/InlineSites.thy ===== *)
theory InlineSites
  imports Prelude "HOL-Library.AList"
begin

text \<open>
  Where methods were inlined (\<^verbatim>\<open>InstrumentationEngine/InlineSiteMap.cpp\<close>, \<^verbatim>\<open>InlineSite.cpp\<close>): a map from
  inlinees to modules to inline sites, which the engine fills from the inlining callback and reads when it
  rejits a method together with the methods that inlined it.

  An \<^verbatim>\<open>unordered_map\<close> is an association list without duplicate keys; nothing below depends on its order.
\<close>

section \<open>The map\<close>

type_synonym ModuleID = "64 word"

record CInlineSite =
  m_inlineeToken :: mdToken
  m_inlineSiteToken :: mdToken
  m_moduleID :: ModuleID

type_synonym TInlineSiteMap = "(mdToken \<times> CInlineSite) list"
type_synonym TModulesToInlineSitesMap = "(ModuleID \<times> TInlineSiteMap) list"
type_synonym TInlineeToModulesMap = "(mdToken \<times> TModulesToInlineSitesMap) list"

text \<open>\<^verbatim>\<open>find\<close>, and a new empty map when there is no entry.\<close>

definition entryOr :: "('k \<times> 'v) list \<Rightarrow> 'k \<Rightarrow> 'v \<Rightarrow> 'v" where
  "entryOr m k d = (case map_of m k of None \<Rightarrow> d | Some v \<Rightarrow> v)"

text \<open>\<open>moduleInfo\<close> is the outcome of \<^verbatim>\<open>pSiteModuleInfo->GetModuleID\<close>; the entry of the inlinee is made
  before it is called.\<close>

definition AddInlineSite :: "mdToken \<Rightarrow> mdToken \<Rightarrow> ModuleID result \<Rightarrow> (TInlineeToModulesMap, unit) op" where
  "AddInlineSite inlinee inlineSite moduleInfo =
     IfFailRet (modify (\<lambda>m. AList.update inlinee (entryOr m inlinee []) m)) (\<lambda>_.
     IfFailRet (liftR moduleInfo) (\<lambda>moduleID.
     modify (\<lambda>m.
       let modules = entryOr m inlinee []; sites = entryOr modules moduleID [];
           sites' = (if map_of sites inlineSite = None
             then AList.update inlineSite \<lparr> m_inlineeToken = inlinee, m_inlineSiteToken = inlineSite, m_moduleID = moduleID \<rparr> sites
             else sites)
       in AList.update inlinee (AList.update moduleID sites' modules) m)))"

definition FindInlineSites :: "mdToken \<Rightarrow> TInlineeToModulesMap \<Rightarrow> ModuleID list \<times> mdToken list" where
  "FindInlineSites inlinee m = (case map_of m inlinee of
       None \<Rightarrow> ([], [])
     | Some modules \<Rightarrow> (let found = concat (map (\<lambda>(k, sites). map snd sites) modules) in
         (map m_moduleID found, map m_inlineSiteToken found)))"

section \<open>What a registry of sites promises\<close>

text \<open>A registry starts empty, and a site that is added is found from then on, once, however often it was
  added, and without an effect on the others.\<close>

locale site_registry =
  fixes wf :: "'m \<Rightarrow> bool" and start :: 'm and add :: "'i \<Rightarrow> 's \<Rightarrow> ('m, unit) op" and find :: "'i \<Rightarrow> 'm \<Rightarrow> 's list"
  assumes start: "wf start" "find i start = []"
    and add: "wf m \<Longrightarrow> \<exists>m'. add i s m = (Ok (), m') \<and> wf m' \<and>
      (\<forall>j. set (find j m') = (if j = i then insert s (set (find j m)) else set (find j m)))"
    and once: "wf m \<Longrightarrow> distinct (find i m)"
begin

lemma add_all_from:
  assumes "wf m"
  shows "\<exists>m'. each (\<lambda>(i, s). add i s) xs m = (Ok (), m') \<and> wf m' \<and> (\<forall>j. set (find j m') = set (find j m) \<union> {s. (j, s) \<in> set xs})"
  using assms
proof (induction xs arbitrary: m)
  case Nil
  then show ?case by (simp add: ret_def)
next
  case (Cons x xs)
  obtain i s where x: "x = (i, s)" by force
  obtain m1 where m1: "add i s m = (Ok (), m1)" "wf m1" "\<forall>j. set (find j m1) = (if j = i then insert s (set (find j m)) else set (find j m))"
    using add [OF Cons.prems] by blast
  obtain m2 where "each (\<lambda>(i, s). add i s) xs m1 = (Ok (), m2)" "wf m2" "\<forall>j. set (find j m2) = set (find j m1) \<union> {s. (j, s) \<in> set xs}"
    using Cons.IH [OF m1(2)] by blast
  with m1 x show ?case by auto
qed

lemma add_all_finds:
  "\<exists>m'. each (\<lambda>(i, s). add i s) xs start = (Ok (), m') \<and> (\<forall>j. distinct (find j m') \<and> set (find j m') = {s. (j, s) \<in> set xs})"
  using add_all_from [OF start(1), of xs] start(2) once by fastforce

end

section \<open>The inline site map is a registry\<close>

text \<open>No duplicate keys, and every site sits under its own module and token.\<close>

definition sites_ok :: "ModuleID \<Rightarrow> TInlineSiteMap \<Rightarrow> bool" where
  "sites_ok k sites \<longleftrightarrow> distinct (map fst sites) \<and> list_all (\<lambda>(t, s). m_inlineSiteToken s = t \<and> m_moduleID s = k) sites"

definition modules_ok :: "TModulesToInlineSitesMap \<Rightarrow> bool" where
  "modules_ok modules \<longleftrightarrow> distinct (map fst modules) \<and> list_all (\<lambda>(k, sites). sites_ok k sites) modules"

definition map_ok :: "TInlineeToModulesMap \<Rightarrow> bool" where
  "map_ok m \<longleftrightarrow> distinct (map fst m) \<and> list_all (\<lambda>(i, modules). modules_ok modules) m"

definition found_sites :: "TModulesToInlineSitesMap \<Rightarrow> (ModuleID \<times> mdToken) list" where
  "found_sites modules = concat (map (\<lambda>(k, sites). map (\<lambda>(t, s). (k, t)) sites) modules)"

definition find_pairs :: "mdToken \<Rightarrow> TInlineeToModulesMap \<Rightarrow> (ModuleID \<times> mdToken) list" where
  "find_pairs i m = (case FindInlineSites i m of (ks, ts) \<Rightarrow> zip ks ts)"

lemma entryOr_wf: "list_all (\<lambda>(k, v). P k v) m \<Longrightarrow> P k d \<Longrightarrow> P k (entryOr m k d)"
  by (auto simp: entryOr_def list_all_iff split: option.splits dest: map_of_SomeD)

lemma update_wf:
  assumes "distinct (map fst m)" "list_all (\<lambda>(k, v). P k v) m" "P k v"
  shows "distinct (map fst (AList.update k v m))" "list_all (\<lambda>(k, v). P k v) (AList.update k v m)"
proof -
  show d: "distinct (map fst (AList.update k v m))" using assms(1) by (rule distinct_update)
  have "P k' v'" if "(k', v') \<in> set (AList.update k v m)" for k' v'
  proof -
    have "map_of (AList.update k v m) k' = Some v'" using d that by simp
    then have "(if k' = k then Some v else map_of m k') = Some v'" by (simp add: update_conv')
    then show ?thesis using assms(2,3) by (auto simp: list_all_iff split: if_splits dest: map_of_SomeD)
  qed
  then show "list_all (\<lambda>(k, v). P k v) (AList.update k v m)" by (auto simp: list_all_iff)
qed

lemma find_pairs_found:
  assumes "map_ok m"
  shows "find_pairs i m = found_sites (entryOr m i [])"
proof (cases "map_of m i")
  case None
  then show ?thesis by (simp add: find_pairs_def FindInlineSites_def found_sites_def entryOr_def)
next
  case (Some modules)
  then have "modules_ok modules" using assms by (auto simp: map_ok_def list_all_iff dest: map_of_SomeD)
  then have "m_moduleID s = k \<and> m_inlineSiteToken s = t" if "(k, sites) \<in> set modules" "(t, s) \<in> set sites" for k sites t s
    using that by (fastforce simp: modules_ok_def sites_ok_def list_all_iff)
  then have "map (\<lambda>s. (m_moduleID s, m_inlineSiteToken s)) (concat (map (\<lambda>(k, sites). map snd sites) modules)) = found_sites modules"
    unfolding found_sites_def map_concat by (auto intro!: arg_cong [where f = concat])
  then show ?thesis using Some by (simp add: find_pairs_def FindInlineSites_def entryOr_def Let_def zip_map_map zip_same_conv_map comp_def)
qed

lemma set_found_sites:
  assumes "modules_ok modules"
  shows "(k, t) \<in> set (found_sites modules) \<longleftrightarrow> map_of (entryOr modules k []) t \<noteq> None"
proof -
  have d: "distinct (map fst modules)" using assms by (simp add: modules_ok_def)
  have "(k, t) \<in> set (found_sites modules) \<longleftrightarrow> (\<exists>sites. (k, sites) \<in> set modules \<and> t \<in> fst ` set sites)"
    by (force simp: found_sites_def)
  also have "\<dots> \<longleftrightarrow> (\<exists>sites. map_of modules k = Some sites \<and> t \<in> fst ` set sites)"
    by (simp only: map_of_eq_Some_iff [OF d])
  also have "\<dots> \<longleftrightarrow> map_of (entryOr modules k []) t \<noteq> None"
  proof (cases "map_of modules k")
    case (Some sites)
    then show ?thesis by (simp add: entryOr_def map_of_eq_None_iff)
  qed (simp add: entryOr_def)
  finally show ?thesis .
qed

lemma distinct_found_sites:
  assumes "modules_ok modules"
  shows "distinct (found_sites modules)"
  using assms unfolding modules_ok_def
proof (induction modules)
  case (Cons p modules)
  obtain k sites where p: "p = (k, sites)" by force
  have "distinct (map (\<lambda>(t, s). (k, t)) sites)"
  proof -
    have "map (\<lambda>(t, s). (k, t)) sites = map (Pair k) (map fst sites)" by auto
    then show ?thesis using Cons.prems p by (simp only:) (simp add: sites_ok_def distinct_map inj_on_def)
  qed
  moreover have "(k, t) \<notin> set (found_sites modules)" for t
    using Cons.prems p by (force simp: found_sites_def)
  moreover have "found_sites (p # modules) = map (\<lambda>(t, s). (k, t)) sites @ found_sites modules" by (simp add: found_sites_def p)
  ultimately show ?case using Cons by auto
qed (simp add: found_sites_def)

lemma AddInlineSite_ok:
  assumes "map_ok m"
  shows "\<exists>m'. AddInlineSite inlinee site (Ok k) m = (Ok (), m') \<and> map_ok m' \<and>
    (\<forall>j. set (find_pairs j m') = (if j = inlinee then insert (k, site) (set (find_pairs j m)) else set (find_pairs j m)))"
proof -
  define modules where "modules = entryOr m inlinee []"
  define sites where "sites = entryOr modules k []"
  define sites' where "sites' = (if map_of sites site = None
     then AList.update site \<lparr> m_inlineeToken = inlinee, m_inlineSiteToken = site, m_moduleID = k \<rparr> sites else sites)"
  define m1 where "m1 = AList.update inlinee modules m"
  define m2 where "m2 = AList.update inlinee (AList.update k sites' modules) m1"
  have ok: "distinct (map fst m)" "list_all (\<lambda>(i, modules). modules_ok modules) m" using assms by (simp_all add: map_ok_def)
  have mo: "modules_ok modules" unfolding modules_def using ok(2) by (rule entryOr_wf) (simp add: modules_ok_def)
  have so: "sites_ok k sites"
    unfolding sites_def by (rule entryOr_wf [where P = sites_ok]) (use mo in \<open>simp_all add: modules_ok_def sites_ok_def\<close>)
  have so': "sites_ok k sites'"
    using so update_wf [of sites "\<lambda>t s. m_inlineSiteToken s = t \<and> m_moduleID s = k" site
        "\<lparr> m_inlineeToken = inlinee, m_inlineSiteToken = site, m_moduleID = k \<rparr>"] by (simp add: sites'_def sites_ok_def)
  have mo': "modules_ok (AList.update k sites' modules)"
    using mo so' update_wf [of modules sites_ok] unfolding modules_ok_def by auto
  have e1: "entryOr m1 inlinee [] = modules" by (simp add: m1_def entryOr_def update_conv')
  have m1: "map_ok m1" using ok mo update_wf [of m "\<lambda>_. modules_ok"] unfolding map_ok_def m1_def by auto
  then have m2: "map_ok m2" using mo' update_wf [of m1 "\<lambda>_. modules_ok"] unfolding map_ok_def m2_def by auto
  have "AddInlineSite inlinee site (Ok k) m = (Ok (), m2)"
    using e1 by (simp add: AddInlineSite_def op_defs IfFailRet_def Let_def m2_def sites'_def sites_def m1_def modules_def)
  moreover have "entryOr m2 j [] = (if j = inlinee then AList.update k sites' modules else entryOr m j [])" for j
    by (simp add: m2_def m1_def entryOr_def update_conv')
  moreover have "set (found_sites (AList.update k sites' modules)) = insert (k, site) (set (found_sites modules))"
  proof -
    have "entryOr (AList.update k sites' modules) k' [] = (if k' = k then sites' else entryOr modules k' [])" for k'
      by (simp add: entryOr_def update_conv')
    moreover have "map_of sites' t \<noteq> None \<longleftrightarrow> t = site \<or> map_of sites t \<noteq> None" for t
      by (auto simp: sites'_def update_conv')
    ultimately show ?thesis using set_found_sites [OF mo] set_found_sites [OF mo'] by (auto simp: sites_def split: if_splits)
  qed
  ultimately show ?thesis using m2 find_pairs_found [OF m2] find_pairs_found [OF assms] by (auto simp: modules_def)
qed

interpretation inline_sites: site_registry map_ok "[]" "\<lambda>i (k, site). AddInlineSite i site (Ok k)" find_pairs
proof (unfold_locales, goal_cases)
  case 1
  then show ?case by (simp add: map_ok_def)
next
  case 2
  then show ?case by (simp add: find_pairs_def FindInlineSites_def)
next
  case (3 m i s)
  obtain k site where "s = (k, site)" by force
  then show ?case using AddInlineSite_ok [OF 3, of i site k] by (simp only: prod.case)
next
  case (4 m i)
  have "modules_ok (entryOr m i [])"
    by (rule entryOr_wf [where P = "\<lambda>_. modules_ok"]) (use 4 in \<open>simp_all add: map_ok_def modules_ok_def\<close>)
  then show ?case using find_pairs_found [OF 4] distinct_found_sites by simp
qed

text \<open>C25. Looking up the inline sites of a method: after any series of recorded inlinings, in whatever order and
  with whatever repetitions, the lookup returns the two vectors in step, with every pair of module and method that
  inlined it exactly once and no other.\<close>

theorem FindInlineSites_recorded:
  "\<exists>m'. each (\<lambda>(inlinee, k, site). AddInlineSite inlinee site (Ok k)) xs [] = (Ok (), m') \<and>
    (\<forall>inlinee moduleIds methodTokens. FindInlineSites inlinee m' = (moduleIds, methodTokens) \<longrightarrow>
      length moduleIds = length methodTokens \<and> distinct (zip moduleIds methodTokens) \<and>
      set (zip moduleIds methodTokens) = {(k, site). (inlinee, k, site) \<in> set xs})"
proof -
  obtain m' where m': "each (\<lambda>(inlinee, k, site). AddInlineSite inlinee site (Ok k)) xs [] = (Ok (), m')"
    "\<forall>j. distinct (find_pairs j m') \<and> set (find_pairs j m') = {s. (j, s) \<in> set xs}"
    using inline_sites.add_all_finds [of xs] by blast
  have "length moduleIds = length methodTokens" if "FindInlineSites j m' = (moduleIds, methodTokens)" for j moduleIds methodTokens
    using that by (auto simp: FindInlineSites_def Let_def split: option.splits)
  moreover have "distinct (zip moduleIds methodTokens) \<and> set (zip moduleIds methodTokens) = {(k, site). (j, k, site) \<in> set xs}"
    if "FindInlineSites j m' = (moduleIds, methodTokens)" for j moduleIds methodTokens
    using m'(2) [rule_format, of j] that by (auto simp: find_pairs_def)
  ultimately show ?thesis using m'(1) by blast
qed

theorem FindInlineSites_recorded_witness:
  "\<exists>m'. each (\<lambda>(inlinee, k, site). AddInlineSite inlinee site (Ok k)) [(1, 7, 2), (1, 7, 3), (1, 7, 2), (4, 7, 2)] [] = (Ok (), m') \<and>
    FindInlineSites 1 m' = ([7, 7], [2, 3]) \<and> set (zip [7 :: ModuleID, 7] [2 :: mdToken, 3]) = {(7, 2), (7, 3)}"
proof -
  let ?xs = "[(1, 7, 2), (1, 7, 3), (1, 7, 2), (4, 7, 2)] :: (mdToken \<times> ModuleID \<times> mdToken) list"
  obtain m' where m': "each (\<lambda>(inlinee, k, site). AddInlineSite inlinee site (Ok k)) ?xs [] = (Ok (), m')"
    and f: "\<forall>inlinee moduleIds methodTokens. FindInlineSites inlinee m' = (moduleIds, methodTokens) \<longrightarrow>
      length moduleIds = length methodTokens \<and> distinct (zip moduleIds methodTokens) \<and>
      set (zip moduleIds methodTokens) = {(k, site). (inlinee, k, site) \<in> set ?xs}"
    using FindInlineSites_recorded [of ?xs] by blast
  have "m' = snd (each (\<lambda>(inlinee, k, site). AddInlineSite inlinee site (Ok k)) ?xs [])" using m' by simp
  moreover have "FindInlineSites 1 (snd (each (\<lambda>(inlinee, k, site). AddInlineSite inlinee site (Ok k)) ?xs [])) = ([7, 7], [2, 3])"
    by code_simp
  ultimately have "FindInlineSites 1 m' = ([7, 7], [2, 3])" by simp
  with f have "set (zip [7 :: ModuleID, 7] [2 :: mdToken, 3]) = {(k, site). (1, k, site) \<in> set ?xs}" by blast
  also have "\<dots> = {(7, 2), (7, 3)}" by auto
  finally show ?thesis using m' \<open>FindInlineSites 1 m' = _\<close> by blast
qed

end
