(* ===== verification/EngineVersion.thy ===== *)
theory EngineVersion
  imports Prelude "HOL-Library.Char_ord" "HOL-Library.List_Lexorder" "HOL-Library.Product_Lexorder"
begin

text \<open>
  Choosing the engine to load (\<^verbatim>\<open>ProfilerProxy.Lib/InstrumentationEngineVersion.cpp\<close> and
  \<^verbatim>\<open>GetLatestVersionFolder\<close> of \<^verbatim>\<open>ProfilerProxy/dllmain.cpp\<close>): the names of the installed versions are
  parsed and compared, and the folder of the latest one is used.

  The regular expression of a version is a parser here; that it accepts the language of the expression is a theorem.
  The file system and the environment are parameters.  Strings are sequences of characters below 256, and the digits are
  the ASCII ones.
\<close>

section \<open>Version strings\<close>

definition isDigit :: "char \<Rightarrow> bool" where
  "isDigit c \<longleftrightarrow> CHR ''0'' \<le> c \<and> c \<le> CHR ''9''"

text \<open>Matching a literal and one or more digits at the start of a string; the result is what is left.\<close>

fun literal :: "string \<Rightarrow> string \<Rightarrow> string option" where
  "literal [] s = Some s"
| "literal (c # cs) [] = None"
| "literal (c # cs) (d # s) = (if c = d then literal cs s else None)"

definition digits :: "string \<Rightarrow> (string \<times> string) option" where
  "digits s = (if takeWhile isDigit s = [] then None else Some (takeWhile isDigit s, dropWhile isDigit s))"

record InstrumentationEngineVersion =
  m_versionStr :: string
  m_semanticVersionStr :: string
  m_isPreview :: bool
  m_isDebug :: bool

text \<open>The groups of \<^verbatim>\<open>^(1\.\d+\.\d+)(-build\d+)?(_Debug)?$\<close>\<close>

definition matchSemantic :: "string \<Rightarrow> (string \<times> string) option" where
  "matchSemantic s = (case literal ''1.'' s of None \<Rightarrow> None | Some r \<Rightarrow> (case digits r of None \<Rightarrow> None | Some (d, r) \<Rightarrow>
     (case literal ''.'' r of None \<Rightarrow> None | Some r \<Rightarrow> (case digits r of None \<Rightarrow> None | Some (e, r) \<Rightarrow>
       Some (''1.'' @ d @ ''.'' @ e, r)))))"

definition matchPreview :: "string \<Rightarrow> bool \<times> string" where
  "matchPreview s = (case literal ''-build'' s of None \<Rightarrow> (False, s) | Some r \<Rightarrow>
     (case digits r of None \<Rightarrow> (False, s) | Some (d, r) \<Rightarrow> (True, r)))"

definition matchDebug :: "string \<Rightarrow> bool \<times> string" where
  "matchDebug s = (case literal ''_Debug'' s of None \<Rightarrow> (False, s) | Some r \<Rightarrow> (True, r))"

definition Create :: "string \<Rightarrow> InstrumentationEngineVersion result" where
  "Create versionStr = (case matchSemantic versionStr of None \<Rightarrow> Fail E_INVALIDARG | Some (semantic, r) \<Rightarrow>
     (case matchPreview r of (preview, r) \<Rightarrow> (case matchDebug r of (debug, r) \<Rightarrow>
       if r = [] then Ok \<lparr> m_versionStr = versionStr, m_semanticVersionStr = semantic, m_isPreview = preview, m_isDebug = debug \<rparr>
       else Fail E_INVALIDARG)))"

text \<open>\<^verbatim>\<open>std::wstring::compare\<close>\<close>

fun compare_str :: "string \<Rightarrow> string \<Rightarrow> int" where
  "compare_str [] [] = 0"
| "compare_str [] (d # t) = -1"
| "compare_str (c # s) [] = 1"
| "compare_str (c # s) (d # t) = (if c = d then compare_str s t else if c < d then -1 else 1)"

definition Compare :: "InstrumentationEngineVersion \<Rightarrow> InstrumentationEngineVersion \<Rightarrow> int" where
  "Compare left right =
     (if compare_str (m_semanticVersionStr left) (m_semanticVersionStr right) = 0 \<and> m_isPreview left \<noteq> m_isPreview right
      then compare_str (m_versionStr right) (m_versionStr left)
      else compare_str (m_versionStr left) (m_versionStr right))"

section \<open>The latest folder\<close>






section \<open>The language of the expression\<close>

definition number :: "string \<Rightarrow> bool" where
  "number d \<longleftrightarrow> d \<noteq> [] \<and> list_all isDigit d"

text \<open>The strings the regular expression matches, with their groups.\<close>

inductive version_string :: "string \<Rightarrow> string \<Rightarrow> bool \<Rightarrow> bool \<Rightarrow> bool" where
  "number d \<Longrightarrow> number e \<Longrightarrow> p = (if preview then ''-build'' @ b else []) \<Longrightarrow> (preview \<Longrightarrow> number b) \<Longrightarrow>
   g = (if debug then ''_Debug'' else []) \<Longrightarrow>
   version_string ((''1.'' @ d @ ''.'' @ e) @ p @ g) (''1.'' @ d @ ''.'' @ e) preview debug"

lemma literal_Some: "literal l s = Some r \<longleftrightarrow> s = l @ r"
  by (induction l s rule: literal.induct) auto

lemma literal_None: "literal l s = None \<longleftrightarrow> (\<forall>r. s \<noteq> l @ r)"
  using literal_Some [of l s] by (cases "literal l s") auto

lemma digits_append:
  assumes "number d" and "r = [] \<or> \<not> isDigit (hd r)"
  shows "digits (d @ r) = Some (d, r)"
proof -
  have "takeWhile isDigit r = []" "dropWhile isDigit r = r" using assms(2) by (cases r; simp)+
  then show ?thesis using assms(1) by (simp add: digits_def number_def list_all_iff takeWhile_append2 dropWhile_append2)
qed

lemma digits_SomeD: "digits s = Some (d, r) \<Longrightarrow> s = d @ r \<and> number d"
  by (auto simp: digits_def number_def list_all_iff split: if_splits dest: set_takeWhileD)

lemma not_digit: "\<not> isDigit CHR ''.''" "\<not> isDigit CHR ''-''" "\<not> isDigit CHR ''_''"
  by (simp_all add: isDigit_def less_eq_char_def)

lemma match_tags:
  fixes preview debug b
  defines "p \<equiv> (if preview then ''-build'' @ b else [])" and "g \<equiv> (if debug then ''_Debug'' else [])"
  assumes "preview \<Longrightarrow> number b"
  shows "matchPreview (p @ g) = (preview, g)" "matchDebug g = (debug, [])" "p @ g = [] \<or> \<not> isDigit (hd (p @ g))"
proof -
  have g: "g = [] \<or> \<not> isDigit (hd g)" by (simp add: g_def not_digit)
  then show "p @ g = [] \<or> \<not> isDigit (hd (p @ g))" by (simp add: p_def not_digit)
  show "matchPreview (p @ g) = (preview, g)"
    using assms(3) digits_append [OF _ g, of b] by (cases preview; cases debug) (simp_all add: p_def g_def matchPreview_def)
  show "matchDebug g = (debug, [])" by (simp add: g_def matchDebug_def)
qed

lemma Create_accepts:
  assumes "version_string s semantic preview debug"
  shows "Create s = Ok \<lparr> m_versionStr = s, m_semanticVersionStr = semantic, m_isPreview = preview, m_isDebug = debug \<rparr>"
  using assms
proof cases
  case (1 d e p b g)
  note t = match_tags [OF 1(6), where debug = debug]
  have "digits (d @ ''.'' @ e @ p @ g) = Some (d, ''.'' @ e @ p @ g)" using 1(3) by (rule digits_append) (simp add: not_digit)
  moreover have "digits (e @ p @ g) = Some (e, p @ g)" using 1(4,5,7) t(3) by (intro digits_append) simp_all
  ultimately have "matchSemantic s = Some (semantic, p @ g)" using 1(1,2) by (simp add: matchSemantic_def)
  then show ?thesis using t(1,2) 1(5,7) by (simp add: Create_def)
qed

lemma Create_sound:
  assumes "Create s = Ok v"
  shows "version_string s (m_semanticVersionStr v) (m_isPreview v) (m_isDebug v) \<and> m_versionStr v = s"
proof -
  from assms obtain semantic r1 r2 where m: "matchSemantic s = Some (semantic, r1)" "matchPreview r1 = (m_isPreview v, r2)"
    "matchDebug r2 = (m_isDebug v, [])" "m_semanticVersionStr v = semantic" "m_versionStr v = s"
    by (auto simp: Create_def split: option.splits prod.splits if_splits)
  from m(1) obtain d e where d: "s = (''1.'' @ d @ ''.'' @ e) @ r1" "semantic = ''1.'' @ d @ ''.'' @ e" "number d" "number e"
    by (auto simp: matchSemantic_def literal_Some split: option.splits prod.splits dest!: digits_SomeD)
  have g: "r2 = (if m_isDebug v then ''_Debug'' else [])"
    using m(3) by (auto simp: matchDebug_def literal_Some split: option.splits)
  obtain b where "r1 = (if m_isPreview v then ''-build'' @ b else []) @ r2" "m_isPreview v \<Longrightarrow> number b"
    using m(2) by (auto simp: matchPreview_def literal_Some split: option.splits prod.splits dest!: digits_SomeD)
  with d g m(4,5) show ?thesis using version_string.intros [OF d(3,4) refl, of "m_isPreview v" b _ "m_isDebug v"] by simp
qed

section \<open>The order of versions\<close>











text \<open>The parser of version strings accepts exactly the language of the regular expression, and yields its groups;
  every other string is an invalid argument.\<close>

theorem Create_language:
  "(\<forall>semantic preview debug. version_string s semantic preview debug \<longrightarrow>
      Create s = Ok \<lparr> m_versionStr = s, m_semanticVersionStr = semantic, m_isPreview = preview, m_isDebug = debug \<rparr>) \<and>
   ((\<forall>semantic preview debug. \<not> version_string s semantic preview debug) \<longrightarrow> Create s = Fail E_INVALIDARG)"
proof (intro conjI allI impI)
  assume "\<forall>semantic preview debug. \<not> version_string s semantic preview debug"
  then have "Create s \<noteq> Ok v" for v using Create_sound by blast
  moreover have "Create s = Fail E_INVALIDARG \<or> (\<exists>v. Create s = Ok v)" by (auto simp: Create_def split: option.splits prod.splits)
  ultimately show "Create s = Fail E_INVALIDARG" by blast
qed (rule Create_accepts)

theorem Create_language_witness:
  "Create ''1.0.12-build345_Debug'' = Ok \<lparr> m_versionStr = ''1.0.12-build345_Debug'', m_semanticVersionStr = ''1.0.12'', m_isPreview = True, m_isDebug = True \<rparr>"
proof -
  have "version_string ((''1.'' @ ''0'' @ ''.'' @ ''12'') @ ''-build345'' @ ''_Debug'') (''1.'' @ ''0'' @ ''.'' @ ''12'') True True"
    by (rule version_string.intros [where b = "''345''"]) (simp_all add: number_def isDigit_def less_eq_char_def)
  then show ?thesis using Create_language [of "''1.0.12-build345_Debug''"] by simp
qed



text \<open>With the debug flag the comparison is not an order: three versions that are each later than the one before.  And numbers are compared as
  strings, so 1.0.10 comes before 1.0.9.\<close>

lemma Compare_debug_cycle:
  "map (\<lambda>(s, t). case (Create s, Create t) of (Ok v, Ok u) \<Rightarrow> Compare v u < 0 | _ \<Rightarrow> False)
     [(''1.0.1_Debug'', ''1.0.1-build5_Debug''), (''1.0.1-build5_Debug'', ''1.0.10_Debug''), (''1.0.10_Debug'', ''1.0.1_Debug''),
      (''1.0.10'', ''1.0.9'')] = [True, True, True, True]"
  by code_simp

end
