(* ===== verification/MethodProps.thy ===== *)
theory MethodProps
  imports Opcodes TypeCreator
begin

text \<open>
  The name and the attributes of a method (\<^verbatim>\<open>InstrumentationEngine/MethodInfo.cpp\<close>): what a
  \<^verbatim>\<open>CMethodInfo\<close> reads from the metadata of its module on demand and keeps.  The metadata reader and the
  runtime's \<^verbatim>\<open>GetFunctionInfo2\<close> are parameters.  Strings are sequences of 16-bit characters.
\<close>

section \<open>The runtime's metadata\<close>

type_synonym WCHAR = USHORT
type_synonym ClassID = ULONGLONG
type_synonym FunctionID = ULONGLONG

definition wide :: "string \<Rightarrow> WCHAR list" where
  "wide s = map of_char s"

text \<open>What a query of the properties of a method yields; \<open>p_szMethod\<close> are the characters written to the buffer, the
  terminating zero included.  A member reference has no attributes, flags or address.\<close>

record methodProps =
  p_tkTypeDef :: mdToken
  p_szMethod :: "WCHAR list"
  p_dwAttr :: DWORD
  p_sigBlob :: "byte list"
  p_ulCodeRVA :: DWORD
  p_dwImplFlags :: DWORD

record IMetaDataImport2 =
  GetMethodProps :: "mdToken \<Rightarrow> methodProps result"
  GetMemberRefProps :: "mdToken \<Rightarrow> methodProps result"
  GetMethodSpecProps :: "mdToken \<Rightarrow> (mdToken \<times> byte list) result"
  EnumGenericParams :: "mdToken \<Rightarrow> mdToken list list"

text \<open>\<open>EnumGenericParams\<close> are the batches that the successive calls of the enumeration return, and
  \<open>e_stack\<close> is how many nested calls the stack of the thread has room for.\<close>

record methodEnv =
  e_metaDataImport :: "IMetaDataImport2 option"
  e_getFunctionInfo2 :: "FunctionID \<Rightarrow> ClassID list result"
  e_stack :: nat

section \<open>State\<close>

record CMethodProps =
  m_functionId :: FunctionID
  m_tkFunction :: mdToken
  m_classId :: ClassID
  m_tkTypeDef :: mdToken
  m_bstrMethodName :: "WCHAR list option"
  m_methodAttr :: DWORD
  m_implFlags :: DWORD
  m_rva :: DWORD
  m_pSig :: "byte list"
  m_genericParameters :: "CType list"
  m_bCorAttributesInitialized :: bool
  m_bGenericParametersInitialized :: bool
  m_dwRejitCodeGenFlags :: DWORD
  m_bMethodSignatureInitialized :: bool
  m_pReturnType :: "CType option"
  m_parameters :: "CType list"

text \<open>The constructor; it leaves \<^verbatim>\<open>m_tkTypeDef\<close> unset, and \<open>garbage\<close> is what it holds then.\<close>

definition new_CMethodProps :: "mdToken \<Rightarrow> FunctionID \<Rightarrow> mdToken \<Rightarrow> ClassID \<Rightarrow> CMethodProps" where
  "new_CMethodProps garbage functionId functionToken classId = \<lparr> m_functionId = functionId, m_tkFunction = functionToken,
     m_classId = classId, m_tkTypeDef = garbage, m_bstrMethodName = None, m_methodAttr = - 1, m_implFlags = 0xffff, m_rva = 0,
     m_pSig = [], m_genericParameters = [], m_bCorAttributesInitialized = False, m_bGenericParametersInitialized = False,
     m_dwRejitCodeGenFlags = 0, m_bMethodSignatureInitialized = False, m_pReturnType = None, m_parameters = [] \<rparr>"

abbreviation (input) "mdStatic \<equiv> (0x10 :: DWORD)"
abbreviation (input) "mdPrivate \<equiv> (1 :: DWORD)"
abbreviation (input) "mdPublic \<equiv> (6 :: DWORD)"
abbreviation (input) "mdMemberAccessMask \<equiv> (7 :: DWORD)"

section \<open>Reading the attributes\<close>

text \<open>A buffer of \<open>n\<close> zeros after the call wrote \<open>s\<close> to it, and the string assigned from it: an empty vector has no
  data, and the characters up to the first zero are copied.\<close>

definition nameBuilder :: "nat \<Rightarrow> WCHAR list \<Rightarrow> WCHAR list" where
  "nameBuilder n s = take n s @ replicate (n - length s) 0"

definition assignBSTR :: "WCHAR list \<Rightarrow> WCHAR list option result" where
  "assignBSTR s = (if s = [] then Ok None else if 0 \<in> set s then Ok (Some (takeWhile (\<lambda>c. c \<noteq> 0) s)) else Undef)"

definition bstr_Length :: "WCHAR list option \<Rightarrow> nat" where
  "bstr_Length s = (case s of None \<Rightarrow> 0 | Some s \<Rightarrow> length s)"

definition readMethodDef :: "IMetaDataImport2 \<Rightarrow> mdToken \<Rightarrow> (CMethodProps, unit) op" where
  "readMethodDef md tkFunction = IfFailRet (gets m_tkFunction) (\<lambda>tk.
     IfFailRet (liftR (GetMethodProps md tk)) (\<lambda>q.
     IfFailRet (liftR (GetMethodProps md tkFunction)) (\<lambda>p.
     IfFailRet (modify (\<lambda>s. s\<lparr> m_tkTypeDef := p_tkTypeDef p, m_methodAttr := p_dwAttr p, m_pSig := p_sigBlob p,
        m_rva := p_ulCodeRVA p, m_implFlags := p_dwImplFlags p \<rparr>)) (\<lambda>_.
     IfFailRet (liftR (assignBSTR (nameBuilder (length (p_szMethod q)) (p_szMethod p)))) (\<lambda>name.
     modify (m_bstrMethodName_update (\<lambda>_. name)))))))"

definition readMemberRef :: "IMetaDataImport2 \<Rightarrow> mdToken \<Rightarrow> (CMethodProps, unit) op" where
  "readMemberRef md tkFunction = IfFailRet (gets m_tkFunction) (\<lambda>tk.
     IfFailRet (liftR (GetMemberRefProps md tk)) (\<lambda>q.
     IfFailRet (liftR (GetMemberRefProps md tkFunction)) (\<lambda>p.
     IfFailRet (modify (\<lambda>s. s\<lparr> m_tkTypeDef := p_tkTypeDef p, m_pSig := p_sigBlob p \<rparr>)) (\<lambda>_.
     IfFailRet (liftR (assignBSTR (nameBuilder (length (p_szMethod q)) (p_szMethod p)))) (\<lambda>name.
     modify (m_bstrMethodName_update (\<lambda>_. name)))))))"

text \<open>After the three cases of the token.\<close>

definition finishAttributes :: "(CMethodProps, unit) op" where
  "finishAttributes = modify (\<lambda>s. s\<lparr> m_bstrMethodName := (case m_bstrMethodName s of None \<Rightarrow> Some [] | Some n \<Rightarrow> Some n),
     m_bCorAttributesInitialized := True \<rparr>)"

text \<open>The kind of the token is that of the method itself, not of the argument; the recursion of the last case
  need not end, so it has fuel.\<close>

primrec InitializeCorAttributes_f :: "nat \<Rightarrow> methodEnv \<Rightarrow> mdToken \<Rightarrow> (CMethodProps, unit) op" where
  "InitializeCorAttributes_f 0 e tkFunction = diverge"
| "InitializeCorAttributes_f (Suc n) e tkFunction = IfFailRet (gets m_bCorAttributesInitialized) (\<lambda>initialized.
     if initialized then ret () else
     IfFailRet (liftR (deref (e_metaDataImport e))) (\<lambda>md.
     IfFailRet (gets m_tkFunction) (\<lambda>tk.
     IfFailRet (if TypeFromToken tk = mdtMethodDef then readMethodDef md tkFunction
       else if TypeFromToken tk = mdtMemberRef then readMemberRef md tkFunction
       else IfFailRet (liftR (GetMethodSpecProps md tkFunction)) (\<lambda>(tkMethodDef, blob).
         InitializeCorAttributes_f n e tkMethodDef)) (\<lambda>_.
     finishAttributes))))"

definition InitializeCorAttributes :: "methodEnv \<Rightarrow> mdToken \<Rightarrow> (CMethodProps, unit) op" where
  "InitializeCorAttributes e tkFunction = InitializeCorAttributes_f (Suc (e_stack e)) e tkFunction"

section \<open>Generic parameters\<close>

definition pushParameter :: "CType \<Rightarrow> (CMethodProps, unit) op" where
  "pushParameter t = modify (m_genericParameters_update (\<lambda>ts. ts @ [t]))"

text \<open>The loop over the arguments of a method specification: the offset is computed from \<^verbatim>\<open>sigBlob\<close>, which the
  loop does not advance.\<close>

fun specArguments_loop :: "nat \<Rightarrow> byte list \<Rightarrow> DWORD \<Rightarrow> (CMethodProps, unit) op" where
  "specArguments_loop 0 pSigBlob offset = ret ()"
| "specArguments_loop (Suc n) pSigBlob offset =
     IfFailRet (liftR (FromSignature (of_nat (length pSigBlob) - offset) (at_pos pSigBlob offset))) (\<lambda>(parameter, used).
     IfFailRet (pushParameter parameter) (\<lambda>_. specArguments_loop n pSigBlob offset))"

definition specParameters :: "byte list \<Rightarrow> (CMethodProps, unit) op" where
  "specParameters pSigBlob = IfFailRet (liftR (CorSigUncompressData pSigBlob)) (\<lambda>(n, callConv).
     IfFailRet (liftR (CorSigUncompressData (at_pos pSigBlob n))) (\<lambda>(m, nArgGeneric).
     specArguments_loop (unat nArgGeneric) pSigBlob (n + m)))"

definition objectParameter :: "ClassID \<Rightarrow> (CMethodProps, unit) op" where
  "objectParameter classId = IfFailRet (liftR (FromCorElement ELEMENT_TYPE_OBJECT)) pushParameter"

text \<open>One batch of the enumeration; a failure ends it without being reported.\<close>

fun batch_loop :: "mdToken list \<Rightarrow> (CMethodProps, unit) op" where
  "batch_loop [] = ret ()"
| "batch_loop (tk # tks) = (case FromCorElement ELEMENT_TYPE_OBJECT of
       Ok genericParameter \<Rightarrow> IfFailRet (pushParameter genericParameter) (\<lambda>_. batch_loop tks)
     | Fail hr \<Rightarrow> ret ()
     | r \<Rightarrow> liftR (bindR r (\<lambda>_. Ok ())))"

definition InitializeGenericParameters :: "methodEnv \<Rightarrow> mdToken \<Rightarrow> (CMethodProps, unit) op" where
  "InitializeGenericParameters e tkFunction = IfFailRet (gets m_bGenericParametersInitialized) (\<lambda>initialized.
     if initialized then ret () else
     IfFailRet (gets m_functionId) (\<lambda>functionId.
     IfFailRet (if TypeFromToken tkFunction = mdtMethodSpec then
         IfFailRet (liftR (deref (e_metaDataImport e))) (\<lambda>md.
         IfFailRet (liftR (GetMethodSpecProps md tkFunction)) (\<lambda>(tkMethodDef, blob). specParameters blob))
       else if functionId \<noteq> 0 then
         IfFailRet (liftR (e_getFunctionInfo2 e functionId)) (\<lambda>classIds. each objectParameter classIds)
       else IfFailRet (liftR (deref (e_metaDataImport e))) (\<lambda>md. each batch_loop (EnumGenericParams md tkFunction))) (\<lambda>_.
     modify (m_bGenericParametersInitialized_update (\<lambda>_. True)))))"

section \<open>The name\<close>

text \<open>\<^verbatim>\<open>_ultow_s\<close> in base ten\<close>

fun ultow :: "nat \<Rightarrow> WCHAR list" where
  "ultow i = (if i < 10 then [of_nat (48 + i)] else ultow (i div 10) @ [of_nat (48 + i mod 10)])"

declare ultow.simps [simp del]

function parameters_loop :: "nat \<Rightarrow> nat \<Rightarrow> WCHAR list" where
  "parameters_loop i cparams = (if i < cparams then
     wide ''!!'' @ ultow i @ (if i < cparams - 1 then wide '','' else []) @ parameters_loop (Suc i) cparams else [])"
  by auto
termination by (relation "measure (\<lambda>(i, cparams). cparams - i)") auto

declare parameters_loop.simps [simp del]

definition genericName :: "WCHAR list \<Rightarrow> nat \<Rightarrow> WCHAR list" where
  "genericName name cparams = name @ wide ''<'' @ parameters_loop 0 cparams @ wide ''>''"

definition InitializeName :: "methodEnv \<Rightarrow> mdToken \<Rightarrow> (CMethodProps, unit) op" where
  "InitializeName e tkFunction = IfFailRet (gets m_bstrMethodName) (\<lambda>name.
     if bstr_Length name \<noteq> 0 then ret () else
     IfFailRet (InitializeCorAttributes e tkFunction) (\<lambda>_.
     IfFailRet (InitializeGenericParameters e tkFunction) (\<lambda>_.
     IfFailRet (gets m_genericParameters) (\<lambda>parameters.
     if parameters = [] then ret () else
     IfFailRet (gets m_bstrMethodName) (\<lambda>name. IfFailRet (liftR (deref name)) (\<lambda>name.
     IfFalseRet (length parameters < 2 ^ 32) E_BOUNDS
       (modify (m_bstrMethodName_update (\<lambda>_. Some (genericName name (length parameters)))))))))))"

definition GetName :: "methodEnv \<Rightarrow> 'p option \<Rightarrow> (CMethodProps, WCHAR list option) op" where
  "GetName e pbstrName = IfNullRetPointer pbstrName (\<lambda>_. IfFailRet (gets m_tkFunction) (\<lambda>tk.
     IfFailRet (InitializeName e tk) (\<lambda>_. gets m_bstrMethodName)))"

section \<open>Queries\<close>

text \<open>A query of an attribute, and a test of the name; the name is read through its pointer.\<close>

definition queryAttr :: "methodEnv \<Rightarrow> 'p option \<Rightarrow> (CMethodProps \<Rightarrow> 'a) \<Rightarrow> (CMethodProps, 'a) op" where
  "queryAttr e out f = IfNullRetPointer out (\<lambda>_. IfFailRet (gets m_tkFunction) (\<lambda>tk.
     IfFailRet (InitializeCorAttributes e tk) (\<lambda>_. gets f)))"

definition testName :: "methodEnv \<Rightarrow> 'p option \<Rightarrow> (WCHAR list \<Rightarrow> bool) \<Rightarrow> (CMethodProps, bool) op" where
  "testName e out f = IfNullRetPointer out (\<lambda>_. IfFailRet (gets m_tkFunction) (\<lambda>tk.
     IfFailRet (InitializeName e tk) (\<lambda>_. IfFailRet (gets m_bstrMethodName) (\<lambda>name.
     IfFailRet (liftR (deref name)) (\<lambda>name. ret (f name))))))"

definition GetIsStatic :: "methodEnv \<Rightarrow> 'p option \<Rightarrow> (CMethodProps, bool) op" where
  "GetIsStatic e pbValue = queryAttr e pbValue (\<lambda>s. IsFlagSet (m_methodAttr s) mdStatic)"

definition GetIsPublic :: "methodEnv \<Rightarrow> 'p option \<Rightarrow> (CMethodProps, bool) op" where
  "GetIsPublic e pbValue = queryAttr e pbValue (\<lambda>s. IsFlagSet (m_methodAttr s) mdPublic)"

definition GetIsPrivate :: "methodEnv \<Rightarrow> 'p option \<Rightarrow> (CMethodProps, bool) op" where
  "GetIsPrivate e pbValue = queryAttr e pbValue (\<lambda>s. IsFlagSet (m_methodAttr s) mdPrivate)"

definition GetAttributes :: "methodEnv \<Rightarrow> 'p option \<Rightarrow> (CMethodProps, DWORD) op" where
  "GetAttributes e pCorMethodAttr = queryAttr e pCorMethodAttr m_methodAttr"

definition GetCodeRva :: "methodEnv \<Rightarrow> 'p option \<Rightarrow> (CMethodProps, DWORD) op" where
  "GetCodeRva e pRva = queryAttr e pRva m_rva"

definition MethodImplFlags :: "methodEnv \<Rightarrow> 'p option \<Rightarrow> (CMethodProps, DWORD) op" where
  "MethodImplFlags e pCorMethodImpl = queryAttr e pCorMethodImpl m_implFlags"

text \<open>\<^verbatim>\<open>wcsncmp(a, b, 4) == 0\<close> for a literal \<open>b\<close> of four characters\<close>

definition GetIsPropertyGetter :: "methodEnv \<Rightarrow> 'p option \<Rightarrow> (CMethodProps, bool) op" where
  "GetIsPropertyGetter e pbValue = testName e pbValue (\<lambda>name. take 4 name = wide ''get_'')"

definition GetIsPropertySetter :: "methodEnv \<Rightarrow> 'p option \<Rightarrow> (CMethodProps, bool) op" where
  "GetIsPropertySetter e pbValue = testName e pbValue (\<lambda>name. take 4 name = wide ''get_'')"

definition GetIsFinalizer :: "methodEnv \<Rightarrow> 'p option \<Rightarrow> (CMethodProps, bool) op" where
  "GetIsFinalizer e pbValue = testName e pbValue (\<lambda>name. name = wide ''Finalize'')"

definition GetIsConstructor :: "methodEnv \<Rightarrow> 'p option \<Rightarrow> (CMethodProps, bool) op" where
  "GetIsConstructor e pbValue = testName e pbValue (\<lambda>name. name = wide ''.ctor'')"

definition GetIsStaticConstructor :: "methodEnv \<Rightarrow> 'p option \<Rightarrow> (CMethodProps, bool) op" where
  "GetIsStaticConstructor e pbValue = testName e pbValue (\<lambda>name. name = wide ''.cctor'')"

definition GetGenericParameterCount :: "methodEnv \<Rightarrow> (CMethodProps, DWORD) op" where
  "GetGenericParameterCount e = IfFailRet (gets m_tkFunction) (\<lambda>tk.
     IfFailRet (InitializeGenericParameters e tk) (\<lambda>_. gets (\<lambda>s. of_nat (length (m_genericParameters s)))))"

text \<open>The signature: the first query reads the attributes, parses the blob and keeps the return type and the parameters.
  The name of each operation is that of the code with \<open>Props\<close> before it.\<close>

definition Props_InitializeMethodSignature :: "methodEnv \<Rightarrow> (CMethodProps, unit) op" where
  "Props_InitializeMethodSignature e = IfFailRet (gets m_bMethodSignatureInitialized) (\<lambda>initialized.
     if initialized then ret () else
     IfFailRet (gets m_tkFunction) (\<lambda>tk.
     IfFailRet (InitializeCorAttributes e tk) (\<lambda>_.
     IfFailRet (gets m_pSig) (\<lambda>sig.
     IfFailRet (liftR (ParseMethodSignature sig (of_nat (length sig)))) (\<lambda>p.
     IfFailRet (modify (m_pReturnType_update (\<lambda>_. Some (s_returnType p)))) (\<lambda>_.
     IfFailRet (liftR (drain (s_parameterTypes p))) (\<lambda>parameters.
     modify (\<lambda>s. s\<lparr> m_parameters := m_parameters s @ parameters, m_bMethodSignatureInitialized := True \<rparr>))))))))"

definition Props_GetReturnType :: "methodEnv \<Rightarrow> 'p option \<Rightarrow> (CMethodProps, CType option) op" where
  "Props_GetReturnType e ppType = IfNullRetPointer ppType (\<lambda>_.
     IfFailRet (Props_InitializeMethodSignature e) (\<lambda>_. gets m_pReturnType))"

definition Props_GetParameters :: "methodEnv \<Rightarrow> 'p option \<Rightarrow> (CMethodProps, CType CEnumerator) op" where
  "Props_GetParameters e ppMethodArgs = IfNullRetPointer ppMethodArgs (\<lambda>_.
     IfFailRet (Props_InitializeMethodSignature e) (\<lambda>_. gets (\<lambda>s. Enum_Initialize (m_parameters s) new_CEnumerator)))"

text \<open>The size, and the buffer if there is one.\<close>

definition Props_GetCorSignature :: "methodEnv \<Rightarrow> nat \<Rightarrow> byte list option \<Rightarrow> 'p option \<Rightarrow> (CMethodProps, DWORD \<times> byte list option) op" where
  "Props_GetCorSignature e cbBuffer pCorSignature pcbSignature = IfNullRetPointer pcbSignature (\<lambda>_.
     IfFailRet (Props_InitializeMethodSignature e) (\<lambda>_.
     IfFailRet (gets m_pSig) (\<lambda>sig.
     case pCorSignature of
       None \<Rightarrow> ret (of_nat (length sig), None)
     | Some buf \<Rightarrow> if cbBuffer \<ge> length sig
         then IfFailRet (liftR (copyBytes buf 0 sig (length sig))) (\<lambda>buf. ret (of_nat (length sig), Some buf))
         else fail E_FAIL)))"

text \<open>An identifier of zero means the method is being compiled again.\<close>

definition GetClassId :: "'p option \<Rightarrow> (CMethodProps, ClassID) op" where
  "GetClassId pClassId = IfNullRetPointer pClassId (\<lambda>_. IfFailRet (gets m_classId) (\<lambda>classId.
     if classId = 0 then fail E_FAIL else ret classId))"

definition GetFunctionId :: "'p option \<Rightarrow> (CMethodProps, FunctionID) op" where
  "GetFunctionId pFunctionID = IfNullRetPointer pFunctionID (\<lambda>_. IfFailRet (gets m_functionId) (\<lambda>functionId.
     if functionId = 0 then fail E_FAIL else ret functionId))"

definition GetMethodToken :: "'p option \<Rightarrow> (CMethodProps, mdToken) op" where
  "GetMethodToken pToken = IfNullRetPointer pToken (\<lambda>_. gets m_tkFunction)"

definition GetRejitCodeGenFlags :: "'p option \<Rightarrow> (CMethodProps, DWORD) op" where
  "GetRejitCodeGenFlags pRefitFlags = IfNullRetPointer pRefitFlags (\<lambda>_. gets m_dwRejitCodeGenFlags)"

definition SetRejitCodeGenFlags :: "DWORD \<Rightarrow> (CMethodProps, unit) op" where
  "SetRejitCodeGenFlags dwFlags = modify (m_dwRejitCodeGenFlags_update (\<lambda>_. dwFlags))"

section \<open>What the metadata says of a method\<close>

text \<open>The names of the generic parameters, in the order of their numbers.\<close>

definition parameterNames :: "nat \<Rightarrow> WCHAR list" where
  "parameterNames k = concat (map (\<lambda>i. (if i = 0 then [] else wide '','') @ wide ''!!'' @ ultow i) [0..<k])"

text \<open>The types of the signature: what comes back and what is passed.\<close>

definition signatureTypes :: "methodProps \<Rightarrow> (CType \<times> CType list) option" where
  "signatureTypes p = (case bindR (ParseMethodSignature (p_sigBlob p) (of_nat (length (p_sigBlob p)))) (\<lambda>s.
       bindR (drain (s_parameterTypes s)) (\<lambda>parameters. Ok (s_returnType s, parameters))) of
     Ok ts \<Rightarrow> Some ts | _ \<Rightarrow> None)"

text \<open>A method definition with properties \<open>p\<close>, the name \<open>n\<close> and \<open>k\<close> generic parameters, whose signature can be parsed.\<close>

definition describes :: "methodEnv \<Rightarrow> FunctionID \<Rightarrow> mdToken \<Rightarrow> methodProps \<Rightarrow> WCHAR list \<Rightarrow> nat \<Rightarrow> bool" where
  "describes e functionId tk p n k \<longleftrightarrow> TypeFromToken tk = mdtMethodDef \<and> p_szMethod p = n @ [0] \<and> 0 \<notin> set n \<and> k < 2 ^ 32 \<and>
     (case e_metaDataImport e of None \<Rightarrow> False | Some md \<Rightarrow> GetMethodProps md tk = Ok p \<and>
       (if functionId = 0 then length (concat (EnumGenericParams md tk)) = k
        else (case e_getFunctionInfo2 e functionId of Ok classIds \<Rightarrow> length classIds = k | _ \<Rightarrow> False))) \<and>
     signatureTypes p \<noteq> None"

text \<open>The questions about a method, except those about its declaring type.\<close>

datatype methodQuery = Query_Name | Query_Static | Query_Public | Query_Private | Query_Attributes | Query_CodeRva
  | Query_ImplFlags | Query_PropertyGetter | Query_PropertySetter | Query_Finalizer | Query_Constructor
  | Query_StaticConstructor | Query_GenericParameterCount | Query_ReturnType | Query_Parameters | Query_CorSignature

definition answer :: "('s, 'a) op \<Rightarrow> ('s, unit) op" where
  "answer m = IfFailRet m (\<lambda>_. ret ())"

fun runQuery :: "methodEnv \<Rightarrow> methodQuery \<Rightarrow> (CMethodProps, unit) op" where
  "runQuery e Query_Name = answer (GetName e (Some ()))"
| "runQuery e Query_Static = answer (GetIsStatic e (Some ()))"
| "runQuery e Query_Public = answer (GetIsPublic e (Some ()))"
| "runQuery e Query_Private = answer (GetIsPrivate e (Some ()))"
| "runQuery e Query_Attributes = answer (GetAttributes e (Some ()))"
| "runQuery e Query_CodeRva = answer (GetCodeRva e (Some ()))"
| "runQuery e Query_ImplFlags = answer (MethodImplFlags e (Some ()))"
| "runQuery e Query_PropertyGetter = answer (GetIsPropertyGetter e (Some ()))"
| "runQuery e Query_PropertySetter = answer (GetIsPropertySetter e (Some ()))"
| "runQuery e Query_Finalizer = answer (GetIsFinalizer e (Some ()))"
| "runQuery e Query_Constructor = answer (GetIsConstructor e (Some ()))"
| "runQuery e Query_StaticConstructor = answer (GetIsStaticConstructor e (Some ()))"
| "runQuery e Query_GenericParameterCount = answer (GetGenericParameterCount e)"
| "runQuery e Query_ReturnType = answer (Props_GetReturnType e (Some ()))"
| "runQuery e Query_Parameters = answer (Props_GetParameters e (Some ()))"
| "runQuery e Query_CorSignature = answer (Props_GetCorSignature e 0 None (Some ()))"

fun ofAttributes :: "methodQuery \<Rightarrow> bool" where
  "ofAttributes q \<longleftrightarrow> q \<in> {Query_Static, Query_Public, Query_Private, Query_Attributes, Query_CodeRva, Query_ImplFlags}"

fun ofSignature :: "methodQuery \<Rightarrow> bool" where
  "ofSignature q \<longleftrightarrow> q \<in> {Query_ReturnType, Query_Parameters, Query_CorSignature}"

text \<open>Whether an attribute or the signature is asked for before anything that depends on the name.\<close>

fun attributesFirst :: "methodQuery list \<Rightarrow> bool" where
  "attributesFirst [] = False"
| "attributesFirst (q # qs) = (if q = Query_GenericParameterCount then attributesFirst qs else ofAttributes q \<or> ofSignature q)"

lemma parameters_loop_eq:
  "i \<le> k \<Longrightarrow> parameters_loop i k = concat (map (\<lambda>i. wide ''!!'' @ ultow i @ (if i < k - 1 then wide '','' else [])) [i..<k])"
  by (induction i k rule: parameters_loop.induct) (subst parameters_loop.simps, auto simp: upt_conv_Cons)

lemma separators:
  "k \<noteq> 0 \<Longrightarrow> concat (map (\<lambda>i. g i @ (if i < k - 1 then c else [])) [0..<k]) = concat (map (\<lambda>i. (if i = 0 then [] else c) @ g i) [0..<k])"
proof (induction k)
  case (Suc k)
  show ?case
  proof (cases "k = 0")
    case False
    have "concat (map (\<lambda>i. g i @ (if i < k then c else [])) [0..<k]) = concat (map (\<lambda>i. g i @ (if i < k - 1 then c else [])) [0..<k]) @ c"
      using False by (cases k) (auto intro!: arg_cong [where f = concat])
    with Suc False show ?thesis by simp
  qed simp
qed simp

lemma parameters_loop_names: "parameters_loop 0 k = parameterNames k"
proof (cases "k = 0")
  case True
  then show ?thesis by (simp add: parameterNames_def parameters_loop.simps)
next
  case False
  then show ?thesis using separators [of k "\<lambda>i. wide ''!!'' @ ultow i" "wide '',''"]
    by (simp add: parameterNames_def parameters_loop_eq)
qed

section \<open>What the queries change\<close>

abbreviation "objectType \<equiv> new_CType ELEMENT_TYPE_OBJECT SimpleType"

definition withAttributes :: "methodProps \<Rightarrow> WCHAR list \<Rightarrow> CMethodProps \<Rightarrow> CMethodProps" where
  "withAttributes p n s = (if m_bCorAttributesInitialized s then s else
     s\<lparr> m_tkTypeDef := p_tkTypeDef p, m_methodAttr := p_dwAttr p, m_pSig := p_sigBlob p, m_rva := p_ulCodeRVA p,
        m_implFlags := p_dwImplFlags p, m_bstrMethodName := Some n, m_bCorAttributesInitialized := True \<rparr>)"

definition withParameters :: "nat \<Rightarrow> CMethodProps \<Rightarrow> CMethodProps" where
  "withParameters k s = (if m_bGenericParametersInitialized s then s else
     s\<lparr> m_genericParameters := replicate k objectType, m_bGenericParametersInitialized := True \<rparr>)"

definition withSignature :: "methodProps \<Rightarrow> WCHAR list \<Rightarrow> CMethodProps \<Rightarrow> CMethodProps" where
  "withSignature p n s = (if m_bMethodSignatureInitialized s then s else
     (withAttributes p n s)\<lparr> m_pReturnType := map_option fst (signatureTypes p), m_parameters := snd (the (signatureTypes p)),
        m_bMethodSignatureInitialized := True \<rparr>)"

text \<open>The states of the object: what has been read is what the metadata says, and the name is that of the
  metadata with or without its generic parameters.\<close>

definition fullName :: "WCHAR list \<Rightarrow> nat \<Rightarrow> WCHAR list" where
  "fullName n k = (if k = 0 then n else genericName n k)"

definition props_inv :: "FunctionID \<Rightarrow> mdToken \<Rightarrow> methodProps \<Rightarrow> WCHAR list \<Rightarrow> nat \<Rightarrow> CMethodProps \<Rightarrow> bool" where
  "props_inv functionId tk p n k s \<longleftrightarrow> m_functionId s = functionId \<and> m_tkFunction s = tk \<and>
     (if m_bCorAttributesInitialized s
      then m_methodAttr s = p_dwAttr p \<and> m_implFlags s = p_dwImplFlags p \<and> m_rva s = p_ulCodeRVA p \<and>
        m_tkTypeDef s = p_tkTypeDef p \<and> m_pSig s = p_sigBlob p \<and> m_bstrMethodName s \<in> {Some n, Some (fullName n k)}
      else m_bstrMethodName s = None) \<and>
     m_genericParameters s = (if m_bGenericParametersInitialized s then replicate k objectType else []) \<and>
     (if m_bMethodSignatureInitialized s
      then m_bCorAttributesInitialized s \<and> m_pReturnType s = map_option fst (signatureTypes p) \<and> m_parameters s = snd (the (signatureTypes p))
      else m_parameters s = [])"

lemma props_inv_new: "props_inv functionId tk p n k (new_CMethodProps garbage functionId tk classId)"
  by (simp add: props_inv_def new_CMethodProps_def)

lemma FromCorElement_object: "FromCorElement ELEMENT_TYPE_OBJECT = Ok objectType"
  by (simp add: FromCorElement_def simpleElements_def)

lemma pushParameter_eq: "pushParameter t s = (Ok (), s\<lparr> m_genericParameters := m_genericParameters s @ [t] \<rparr>)"
  by (simp add: pushParameter_def op_defs)

lemma each_objectParameter:
  "each objectParameter ids s = (Ok (), s\<lparr> m_genericParameters := m_genericParameters s @ replicate (length ids) objectType \<rparr>)"
  by (induction ids arbitrary: s)
    (simp_all add: op_defs objectParameter_def FromCorElement_object IfFailRet_def pushParameter_eq)

lemma batch_loop_eq:
  "batch_loop tks s = (Ok (), s\<lparr> m_genericParameters := m_genericParameters s @ replicate (length tks) objectType \<rparr>)"
  by (induction tks arbitrary: s) (simp_all add: op_defs FromCorElement_object IfFailRet_def pushParameter_eq)

lemma each_batch_loop:
  "each batch_loop bs s =
     (Ok (), s\<lparr> m_genericParameters := m_genericParameters s @ replicate (length (concat bs)) objectType \<rparr>)"
  by (induction bs arbitrary: s) (simp_all add: op_defs batch_loop_eq IfFailRet_def replicate_add)

lemma takeWhile_terminated: "0 \<notin> set n \<Longrightarrow> takeWhile (\<lambda>c. c \<noteq> 0) (n @ [0]) = (n :: WCHAR list)"
  by (induction n) auto

lemma assignBSTR_name: "0 \<notin> set n \<Longrightarrow> assignBSTR (nameBuilder (length (n @ [0])) (n @ [0])) = Ok (Some n)"
  using takeWhile_terminated [of n] by (auto simp: assignBSTR_def nameBuilder_def)

lemma InitializeCorAttributes_eq:
  assumes "describes e functionId tk p n k" and "props_inv functionId tk p n k s"
  shows "InitializeCorAttributes e tk s = (Ok (), withAttributes p n s)"
proof -
  obtain md where md: "e_metaDataImport e = Some md" "GetMethodProps md tk = Ok p"
    using assms(1) by (auto simp: describes_def split: option.splits)
  have n: "TypeFromToken tk = mdtMethodDef" "p_szMethod p = n @ [0]" "0 \<notin> set n" using assms(1) by (auto simp: describes_def)
  have "m_tkFunction s = tk" using assms(2) by (simp add: props_inv_def)
  then show ?thesis
    by (simp add: InitializeCorAttributes_def md n readMethodDef_def finishAttributes_def withAttributes_def op_defs IfFailRet_def
      assignBSTR_name [OF n(3), simplified])
qed

lemma InitializeGenericParameters_eq:
  assumes "describes e functionId tk p n k" and "props_inv functionId tk p n k s"
  shows "InitializeGenericParameters e tk s = (Ok (), withParameters k s)"
proof -
  obtain md where md: "e_metaDataImport e = Some md" using assms(1) by (auto simp: describes_def split: option.splits)
  have tk: "TypeFromToken tk = mdtMethodDef" using assms(1) by (simp add: describes_def)
  have s: "m_functionId s = functionId" "\<not> m_bGenericParametersInitialized s \<Longrightarrow> m_genericParameters s = []"
    using assms(2) by (simp_all add: props_inv_def)
  show ?thesis
  proof (cases "functionId = 0")
    case True
    then have "length (concat (EnumGenericParams md tk)) = k" using assms(1) md by (simp add: describes_def)
    then show ?thesis using True s(2)
      by (simp add: InitializeGenericParameters_def md tk s(1) withParameters_def op_defs IfFailRet_def each_batch_loop)
  next
    case False
    then obtain ids where "e_getFunctionInfo2 e functionId = Ok ids" "length ids = k"
      using assms(1) md by (auto simp: describes_def split: result.splits)
    then show ?thesis using False s(2)
      by (simp add: InitializeGenericParameters_def tk s(1) withParameters_def op_defs IfFailRet_def each_objectParameter)
  qed
qed

text \<open>\<^verbatim>\<open>InitializeName\<close> does nothing once there is a name, so the parameters are added only by the query that
  reads the attributes too, or if the name is empty.\<close>

definition withName :: "methodProps \<Rightarrow> WCHAR list \<Rightarrow> nat \<Rightarrow> CMethodProps \<Rightarrow> CMethodProps" where
  "withName p n k s = (if bstr_Length (m_bstrMethodName s) \<noteq> 0 then s
     else (withParameters k (withAttributes p n s))\<lparr> m_bstrMethodName := Some (fullName n k) \<rparr>)"

lemma props_inv_with:
  assumes "props_inv functionId tk p n k s"
  shows "props_inv functionId tk p n k (withAttributes p n s)" "props_inv functionId tk p n k (withParameters k s)"
  using assms by (auto simp: props_inv_def withAttributes_def withParameters_def split: if_splits)

lemma withAttributes_initialized: "m_bCorAttributesInitialized (withAttributes p n s)"
  by (simp add: withAttributes_def)

lemma withParameters_parameters:
  "props_inv functionId tk p n k s \<Longrightarrow> m_genericParameters (withParameters k s) = replicate k objectType"
  by (simp add: props_inv_def withParameters_def)

lemma genericName_nonempty: "genericName n k \<noteq> []"
  by (simp add: genericName_def wide_def)

lemma withAttributes_name:
  assumes "props_inv functionId tk p n k s" and "bstr_Length (m_bstrMethodName s) = 0"
  shows "m_bstrMethodName (withAttributes p n s) = Some n"
  using assms genericName_nonempty [of n k]
  by (auto simp: props_inv_def withAttributes_def bstr_Length_def fullName_def split: if_splits)

lemma InitializeName_eq:
  assumes d: "describes e functionId tk p n k" and s: "props_inv functionId tk p n k s"
  shows "InitializeName e tk s = (Ok (), withName p n k s)"
proof (cases "bstr_Length (m_bstrMethodName s) = 0")
  case False
  then show ?thesis by (simp add: InitializeName_def withName_def op_defs)
next
  case True
  let ?a = "withAttributes p n s"
  let ?b = "withParameters k ?a"
  have a: "props_inv functionId tk p n k ?a" by (rule props_inv_with(1) [OF s])
  have b: "m_genericParameters ?b = replicate k objectType" by (rule withParameters_parameters [OF a])
  have n: "m_bstrMethodName ?b = Some n" using withAttributes_name [OF s True] by (simp add: withParameters_def)
  have k: "k < 2 ^ 32" using d by (simp add: describes_def)
  have "InitializeName e tk s = (if m_genericParameters ?b = [] then ret () else
     IfFalseRet (length (m_genericParameters ?b) < 2 ^ 32) E_BOUNDS
       (modify (m_bstrMethodName_update (\<lambda>_. Some (genericName n (length (m_genericParameters ?b))))))) ?b"
    using True n
    by (simp add: InitializeName_def op_defs IfFailRet_def InitializeCorAttributes_eq [OF d s] InitializeGenericParameters_eq [OF d a])
  also have "\<dots> = (Ok (), ?b\<lparr> m_bstrMethodName := Some (fullName n k) \<rparr>)"
    using k by (simp add: b fullName_def op_defs) (simp add: n [symmetric])
  finally show ?thesis using True by (simp add: withName_def)
qed

lemma props_inv_withSignature:
  assumes "props_inv functionId tk p n k s"
  shows "props_inv functionId tk p n k (withSignature p n s)"
  using assms by (auto simp: props_inv_def withSignature_def withAttributes_def split: if_splits)

lemma Props_InitializeMethodSignature_eq:
  assumes d: "describes e functionId tk p n k" and s: "props_inv functionId tk p n k s"
  shows "Props_InitializeMethodSignature e s = (Ok (), withSignature p n s)"
proof (cases "m_bMethodSignatureInitialized s")
  case True
  then show ?thesis by (simp add: Props_InitializeMethodSignature_def withSignature_def op_defs)
next
  case False
  let ?a = "withAttributes p n s"
  obtain r ts where t: "signatureTypes p = Some (r, ts)" using d by (auto simp: describes_def)
  then obtain g where g: "ParseMethodSignature (p_sigBlob p) (of_nat (length (p_sigBlob p))) = Ok g" "drain (s_parameterTypes g) = Ok ts" "s_returnType g = r"
    by (auto simp: signatureTypes_def bindR_Ok_iff split: result.splits)
  have "m_tkFunction s = tk" "m_pSig ?a = p_sigBlob p" "m_parameters ?a = []" "\<not> m_bMethodSignatureInitialized ?a"
    using s False by (auto simp: props_inv_def withAttributes_def split: if_splits)
  then show ?thesis using False g t
    by (simp add: Props_InitializeMethodSignature_def op_defs IfFailRet_def InitializeCorAttributes_eq [OF d s] withSignature_def)
qed

lemma props_inv_withName: "props_inv functionId tk p n k s \<Longrightarrow> props_inv functionId tk p n k (withName p n k s)"
  by (auto simp: props_inv_def withName_def withAttributes_def withParameters_def)

lemma withName_name: "props_inv functionId tk p n k s \<Longrightarrow> m_bstrMethodName (withName p n k s) \<noteq> None"
  by (auto simp: withName_def bstr_Length_def split: option.splits)

lemma queryAttr_eq:
  assumes "describes e functionId tk p n k" and s: "props_inv functionId tk p n k s"
  shows "queryAttr e (Some out) f s = (Ok (f (withAttributes p n s)), withAttributes p n s)"
proof -
  have "m_tkFunction s = tk" using s by (simp add: props_inv_def)
  then show ?thesis by (simp add: queryAttr_def op_defs IfFailRet_def InitializeCorAttributes_eq [OF assms])
qed

lemma testName_eq:
  assumes "describes e functionId tk p n k" and s: "props_inv functionId tk p n k s"
  shows "testName e (Some out) f s = (Ok (f (the (m_bstrMethodName (withName p n k s)))), withName p n k s)"
proof -
  have "m_tkFunction s = tk" using s by (simp add: props_inv_def)
  then show ?thesis using withName_name [OF s]
    by (auto simp: testName_def op_defs IfFailRet_def InitializeName_eq [OF assms])
qed

lemma GetName_eq:
  assumes "describes e functionId tk p n k" and s: "props_inv functionId tk p n k s"
  shows "GetName e (Some out) s = (Ok (m_bstrMethodName (withName p n k s)), withName p n k s)"
proof -
  have "m_tkFunction s = tk" using s by (simp add: props_inv_def)
  then show ?thesis by (simp add: GetName_def op_defs IfFailRet_def InitializeName_eq [OF assms])
qed

lemma GetGenericParameterCount_eq:
  assumes "describes e functionId tk p n k" and s: "props_inv functionId tk p n k s"
  shows "GetGenericParameterCount e s = (Ok (of_nat k), withParameters k s)"
proof -
  have "m_tkFunction s = tk" using s by (simp add: props_inv_def)
  then show ?thesis using withParameters_parameters [OF s]
    by (simp add: GetGenericParameterCount_def op_defs IfFailRet_def InitializeGenericParameters_eq [OF assms])
qed

lemmas query_defs = GetIsStatic_def GetIsPublic_def GetIsPrivate_def GetAttributes_def GetCodeRva_def MethodImplFlags_def
  GetIsPropertyGetter_def GetIsPropertySetter_def GetIsFinalizer_def GetIsConstructor_def GetIsStaticConstructor_def
  Props_GetReturnType_def Props_GetParameters_def Props_GetCorSignature_def

definition afterQuery :: "methodProps \<Rightarrow> WCHAR list \<Rightarrow> nat \<Rightarrow> methodQuery \<Rightarrow> CMethodProps \<Rightarrow> CMethodProps" where
  "afterQuery p n k q s = (if q = Query_GenericParameterCount then withParameters k s
     else if ofAttributes q then withAttributes p n s
     else if ofSignature q then withSignature p n s else withName p n k s)"

lemma runQuery_eq:
  assumes "describes e functionId tk p n k" and "props_inv functionId tk p n k s"
  shows "runQuery e q s = (Ok (), afterQuery p n k q s)"
  by (cases q) (simp_all add: answer_def op_defs IfFailRet_def query_defs afterQuery_def queryAttr_eq [OF assms] testName_eq [OF assms]
      GetName_eq [OF assms] GetGenericParameterCount_eq [OF assms] Props_InitializeMethodSignature_eq [OF assms])

lemma props_inv_afterQuery: "props_inv functionId tk p n k s \<Longrightarrow> props_inv functionId tk p n k (afterQuery p n k q s)"
  by (simp add: afterQuery_def props_inv_with props_inv_withName props_inv_withSignature)

lemma runQueries:
  assumes d: "describes e functionId tk p n k"
  shows "props_inv functionId tk p n k s \<Longrightarrow> each (runQuery e) qs s = (Ok (), fold (afterQuery p n k) qs s) \<and>
    props_inv functionId tk p n k (fold (afterQuery p n k) qs s)"
  by (induction qs arbitrary: s) (auto simp: op_defs IfFailRet_def runQuery_eq [OF d] props_inv_afterQuery)

text \<open>A name once there stays; the first query that is not about the parameters decides which it is.\<close>

lemma afterQuery_named:
  assumes "bstr_Length (m_bstrMethodName s) \<noteq> 0" and "props_inv functionId tk p n k s"
  shows "m_bstrMethodName (afterQuery p n k q s) = m_bstrMethodName s"
proof -
  have "m_bCorAttributesInitialized s"
    using assms by (cases "m_bCorAttributesInitialized s") (auto simp: props_inv_def bstr_Length_def)
  then show ?thesis using assms(1) by (simp add: afterQuery_def withAttributes_def withParameters_def withName_def withSignature_def)
qed

lemma fold_named: "bstr_Length (m_bstrMethodName s) \<noteq> 0 \<Longrightarrow> props_inv functionId tk p n k s \<Longrightarrow>
    m_bstrMethodName (fold (afterQuery p n k) qs s) = m_bstrMethodName s"
proof (induction qs arbitrary: s)
  case (Cons q qs)
  have "m_bstrMethodName (afterQuery p n k q s) = m_bstrMethodName s" by (rule afterQuery_named [OF Cons.prems])
  then show ?case using Cons.IH [of "afterQuery p n k q s"] Cons.prems by (simp add: props_inv_afterQuery)
qed simp

lemma withName_named: "m_bstrMethodName (withName p n k s) =
    (if bstr_Length (m_bstrMethodName s) \<noteq> 0 then m_bstrMethodName s else Some (fullName n k))"
  by (simp add: withName_def)

lemma fullName_empty: "fullName n k = [] \<Longrightarrow> n = []"
  using genericName_nonempty [of n k] by (auto simp: fullName_def split: if_splits)

lemma name_after:
  assumes "n \<noteq> []"
  shows "props_inv functionId tk p n k s \<Longrightarrow> m_bstrMethodName s = None \<Longrightarrow>
    m_bstrMethodName (withName p n k (fold (afterQuery p n k) qs s)) = Some (if attributesFirst qs then n else fullName n k)"
proof (induction qs arbitrary: s)
  case Nil
  then show ?case by (simp add: withName_named bstr_Length_def)
next
  case (Cons q qs)
  let ?t = "afterQuery p n k q s"
  have t: "props_inv functionId tk p n k ?t" by (rule props_inv_afterQuery [OF Cons.prems(1)])
  show ?case
  proof (cases "q = Query_GenericParameterCount")
    case True
    then have "m_bstrMethodName ?t = None" using Cons.prems(2) by (simp add: afterQuery_def withParameters_def)
    then show ?thesis using Cons.IH [OF t] True by simp
  next
    case False
    have "m_bstrMethodName (withSignature p n s) = Some n" if "\<not> m_bMethodSignatureInitialized s"
      using that withAttributes_name [OF Cons.prems(1)] Cons.prems(2) by (simp add: withSignature_def bstr_Length_def)
    moreover have "\<not> m_bMethodSignatureInitialized s" using Cons.prems by (auto simp: props_inv_def split: if_splits)
    ultimately have m: "m_bstrMethodName ?t = Some (if ofAttributes q \<or> ofSignature q then n else fullName n k)"
      using False Cons.prems withAttributes_name [OF Cons.prems(1)]
      by (simp add: afterQuery_def withName_named bstr_Length_def del: ofAttributes.simps ofSignature.simps)
    then have l: "bstr_Length (m_bstrMethodName ?t) \<noteq> 0" using assms fullName_empty [of n k] by (auto simp: bstr_Length_def)
    have "m_bstrMethodName (fold (afterQuery p n k) qs ?t) = m_bstrMethodName ?t" by (rule fold_named [OF l t])
    then show ?thesis using False l m by (simp add: withName_named del: ofAttributes.simps ofSignature.simps)
  qed
qed

section \<open>The claims\<close>

lemma access_cases:
  fixes a :: DWORD
  shows "a AND 6 \<noteq> 0 \<longleftrightarrow> a AND 7 \<notin> {0, 1}" "a AND 1 \<noteq> 0 \<longleftrightarrow> a AND 7 \<in> {1, 3, 5, 7}"
proof -
  define x where "x = a AND 7"
  have "x \<le> 7" by (simp add: x_def word_and_le1)
  then have "unat x \<le> 7" by (simp add: word_le_nat_alt)
  then have "unat x \<in> {0, 1, 2, 3, 4, 5, 6, 7}" by (simp add: atLeastAtMost_iff) presburger
  then have x: "x \<in> {0, 1, 2, 3, 4, 5, 6, 7}" by (auto simp: word_unat_eq_iff)
  have "a AND 6 = x AND 6" "a AND 1 = x AND 1" by (simp_all add: x_def and.assoc)
  then have *: "a AND 6 \<noteq> 0 \<longleftrightarrow> x \<notin> {0, 1}" "a AND 1 \<noteq> 0 \<longleftrightarrow> x \<in> {1, 3, 5, 7}" using x by auto
  show "a AND 6 \<noteq> 0 \<longleftrightarrow> a AND 7 \<notin> {0, 1}" using *(1) by (simp add: x_def)
  show "a AND 1 \<noteq> 0 \<longleftrightarrow> a AND 7 \<in> {1, 3, 5, 7}" using *(2) by (simp add: x_def)
qed

lemma attribute_answers:
  assumes "describes e functionId tk p n k" and "props_inv functionId tk p n k s"
  shows "fst (GetAttributes e (Some ()) s) = Ok (p_dwAttr p)" "fst (GetCodeRva e (Some ()) s) = Ok (p_ulCodeRVA p)"
    "fst (MethodImplFlags e (Some ()) s) = Ok (p_dwImplFlags p)"
    "fst (GetIsStatic e (Some ()) s) = Ok (p_dwAttr p AND mdStatic \<noteq> 0)"
    "fst (GetIsPublic e (Some ()) s) = Ok (p_dwAttr p AND mdPublic \<noteq> 0)"
    "fst (GetIsPrivate e (Some ()) s) = Ok (p_dwAttr p AND mdPrivate \<noteq> 0)"
  using assms(2) by (auto simp: query_defs queryAttr_eq [OF assms] props_inv_def withAttributes_def IsFlagSet_def split: if_splits)

lemma signature_answer:
  assumes "describes e functionId tk p n k" and s: "props_inv functionId tk p n k s"
  shows "fst (Props_GetReturnType e (Some ()) s) = Ok (map_option fst (signatureTypes p))"
  using s by (auto simp: Props_GetReturnType_def op_defs IfFailRet_def Props_InitializeMethodSignature_eq [OF assms] withSignature_def props_inv_def)

lemma spec_never:
  assumes "\<not> m_bCorAttributesInitialized s" and "TypeFromToken (m_tkFunction s) \<notin> {mdtMethodDef, mdtMemberRef}"
  shows "fst (InitializeCorAttributes_f fuel e tk s) \<noteq> Ok ()"
proof (induction fuel arbitrary: tk)
  case 0
  then show ?case by (simp add: op_defs)
next
  case (Suc fuel)
  then show ?case using assms
    by (auto simp: op_defs IfFailRet_def deref_def split: option.splits result.splits prod.splits)
      (metis fst_conv)
qed

text \<open>C26. A client that asks a method definition any sequence of these questions: its name, the tests of the name, its attributes, their
  tests, its address, implementation flags, number of generic parameters, return type, parameters and signature, gets an answer to each;
  afterwards the attributes, the address, the implementation flags, the number of generic parameters and the return type are those of the
  metadata.  The name is that of the metadata followed by the generic parameters in angle brackets, unless an attribute or something of the
  signature was asked for before anything that depends on the name: then it is, from then on, the bare name.\<close>

theorem GetName_after_queries:
  assumes "describes e functionId tk p n k" and "n \<noteq> []"
  shows "\<exists>s. each (runQuery e) qs (new_CMethodProps garbage functionId tk classId) = (Ok (), s) \<and>
    fst (GetAttributes e (Some ()) s) = Ok (p_dwAttr p) \<and> fst (GetCodeRva e (Some ()) s) = Ok (p_ulCodeRVA p) \<and>
    fst (MethodImplFlags e (Some ()) s) = Ok (p_dwImplFlags p) \<and> fst (GetGenericParameterCount e s) = Ok (of_nat k) \<and>
    fst (Props_GetReturnType e (Some ()) s) = Ok (map_option fst (signatureTypes p)) \<and>
    fst (GetName e (Some ()) s) = Ok (Some (if k = 0 \<or> attributesFirst qs then n
      else n @ wide ''<'' @ parameterNames k @ wide ''>''))"
proof -
  let ?new = "new_CMethodProps garbage functionId tk classId"
  let ?s = "fold (afterQuery p n k) qs ?new"
  have new: "props_inv functionId tk p n k ?new" by (rule props_inv_new)
  note s = conjunct1 [OF runQueries [OF assms(1) new, of qs]] conjunct2 [OF runQueries [OF assms(1) new, of qs]]
  have "m_bstrMethodName ?new = None" by (simp add: new_CMethodProps_def)
  from name_after [OF assms(2) new this, of qs]
  have "fst (GetName e (Some ()) ?s) = Ok (Some (if k = 0 \<or> attributesFirst qs then n
      else n @ wide ''<'' @ parameterNames k @ wide ''>''))"
    by (simp add: GetName_eq [OF assms(1) s(2)] fullName_def genericName_def parameters_loop_names)
  then show ?thesis using s(1) attribute_answers [OF assms(1) s(2)] signature_answer [OF assms(1) s(2)] by (simp add: GetGenericParameterCount_eq [OF assms(1) s(2)])
qed

definition sampleProps :: methodProps where
  "sampleProps = \<lparr> p_tkTypeDef = 0x02000002, p_szMethod = wide ''Map'' @ [0], p_dwAttr = 0x14, p_sigBlob = [0x10, 2, 0, 1],
     p_ulCodeRVA = 0x2050, p_dwImplFlags = 0 \<rparr>"

definition sampleEnv :: methodEnv where
  "sampleEnv = \<lparr> e_metaDataImport = Some \<lparr> GetMethodProps = (\<lambda>tk. if tk = 0x06000001 then Ok sampleProps else Fail E_FAIL),
       GetMemberRefProps = (\<lambda>tk. Fail E_FAIL), GetMethodSpecProps = (\<lambda>tk. Fail E_FAIL),
       EnumGenericParams = (\<lambda>tk. if tk = 0x06000001 then [[0x2a000001, 0x2a000002]] else []) \<rparr>,
     e_getFunctionInfo2 = (\<lambda>f. Fail E_FAIL), e_stack = 100 \<rparr>"

lemma sample_describes: "describes sampleEnv 0 0x06000001 sampleProps (wide ''Map'') 2"
proof -
  have "signatureTypes sampleProps = Some (new_CType ELEMENT_TYPE_VOID SimpleType, [])" by code_simp
  then show ?thesis by (simp add: describes_def sampleEnv_def TypeFromToken_def) (simp add: sampleProps_def wide_def)
qed

theorem GetName_after_queries_witness:
  "wide ''Map'' \<noteq> [] \<and> describes sampleEnv 0 0x06000001 sampleProps (wide ''Map'') 2 \<and>
   (\<exists>s. each (runQuery sampleEnv) [] (new_CMethodProps 0 0 0x06000001 0) = (Ok (), s) \<and>
      fst (GetName sampleEnv (Some ()) s) = Ok (Some (wide ''Map<!!0,!!1>''))) \<and>
   (\<exists>s. each (runQuery sampleEnv) [Query_GenericParameterCount, Query_ReturnType] (new_CMethodProps 0 0 0x06000001 0) = (Ok (), s) \<and>
      fst (GetName sampleEnv (Some ()) s) = Ok (Some (wide ''Map'')))"
proof -
  have n: "wide ''Map'' \<noteq> []" by (simp add: wide_def)
  have "wide ''Map'' @ wide ''<'' @ parameterNames 2 @ wide ''>'' = wide ''Map<!!0,!!1>''"
    by (simp add: parameterNames_def wide_def ultow.simps upt_rec numeral_2_eq_2)
  then show ?thesis
    using n sample_describes GetName_after_queries [OF sample_describes n, of "[]" 0 0]
      GetName_after_queries [OF sample_describes n, of "[Query_GenericParameterCount, Query_ReturnType]" 0 0]
    by simp blast
qed

text \<open>C31. The name and the attributes of a method instantiation (a token that is neither a definition nor a member
  reference) are never available, whatever the metadata answers: the recursion for the instantiated definition tests the token
  of the instantiation again.\<close>

theorem method_spec_has_no_name:
  assumes "TypeFromToken tk \<notin> {mdtMethodDef, mdtMemberRef}"
  shows "fst (GetName e out (new_CMethodProps garbage functionId tk classId)) \<noteq> Ok name \<and>
    fst (GetAttributes e out (new_CMethodProps garbage functionId tk classId)) \<noteq> Ok attributes"
proof -
  let ?s = "new_CMethodProps garbage functionId tk classId"
  have "fst (InitializeCorAttributes e tk ?s) \<noteq> Ok ()"
    unfolding InitializeCorAttributes_def by (rule spec_never) (use assms in \<open>simp_all add: new_CMethodProps_def\<close>)
  moreover have "m_tkFunction ?s = tk" "bstr_Length (m_bstrMethodName ?s) = 0" by (simp_all add: new_CMethodProps_def bstr_Length_def)
  ultimately show ?thesis
    by (auto simp: GetName_def GetAttributes_def queryAttr_def InitializeName_def op_defs IfFailRet_def
      split: option.splits result.splits prod.splits)
qed

theorem method_spec_has_no_name_witness:
  "TypeFromToken 0x2b000001 \<notin> {mdtMethodDef, mdtMemberRef} \<and>
   fst (GetName sampleEnv (Some ()) (new_CMethodProps 0 0 0x2b000001 0)) \<noteq> Ok (Some (wide ''Map''))"
  using method_spec_has_no_name [of "0x2b000001" sampleEnv "Some ()" 0 0 0 "Some (wide ''Map'')" 0] by (simp add: TypeFromToken_def)

text \<open>What the access tests answer: a method counts as public unless its access is private or compiler
  controlled, so protected and internal methods are public too, and as private if its access is private, internal or
  protected internal.\<close>

theorem access_tests:
  assumes "describes e functionId tk p n k" and "props_inv functionId tk p n k s"
  shows "fst (GetIsPublic e (Some ()) s) = Ok (p_dwAttr p AND mdMemberAccessMask \<notin> {0, 1}) \<and>
    fst (GetIsPrivate e (Some ()) s) = Ok (p_dwAttr p AND mdMemberAccessMask \<in> {1, 3, 5, 7})"
  using attribute_answers(5,6) [OF assms] by (simp add: access_cases)

theorem access_tests_witness:
  "describes sampleEnv 0 0x06000001 sampleProps (wide ''Map'') 2 \<and>
   props_inv 0 0x06000001 sampleProps (wide ''Map'') 2 (new_CMethodProps 0 0 0x06000001 0) \<and>
   fst (GetIsPublic sampleEnv (Some ()) (new_CMethodProps 0 0 0x06000001 0)) = Ok True"
  using access_tests [OF sample_describes props_inv_new, of 0 0] sample_describes props_inv_new
  by (simp add: sampleProps_def)

end
