(* ===== verification/RuntimeObjects.thy ===== *)
theory RuntimeObjects
  imports MethodProps
begin

text \<open>
  The objects that stand for what the runtime has loaded: application domains, assemblies and modules
  (\<^verbatim>\<open>AppDomainCollection.cpp\<close>, \<^verbatim>\<open>AppDomainInfo.cpp\<close>, \<^verbatim>\<open>AssemblyInfo.cpp\<close>, the links of \<^verbatim>\<open>ModuleInfo.cpp\<close>).  Objects
  live in a store and refer to each other by address.  A hash map is an association list with distinct keys; the order in
  which it is traversed is a parameter.
\<close>

section \<open>Hash maps\<close>

type_synonym umap = "(ULONGLONG \<times> addr) list"

definition umap_set :: "ULONGLONG \<Rightarrow> addr \<Rightarrow> umap \<Rightarrow> umap" where
  "umap_set k v m = (k, v) # filter (\<lambda>p. fst p \<noteq> k) m"

definition umap_erase :: "ULONGLONG \<Rightarrow> umap \<Rightarrow> umap" where
  "umap_erase k m = filter (\<lambda>p. fst p \<noteq> k) m"

definition umap_find :: "ULONGLONG \<Rightarrow> umap \<Rightarrow> addr option" where
  "umap_find k m = map_of m k"

section \<open>Objects\<close>

type_synonym AppDomainID = ULONGLONG
type_synonym AssemblyID = ULONGLONG
type_synonym ModuleID = ULONGLONG
type_synonym MVID = "128 word"

record CAppDomainInfo =
  dom_appDomainId :: AppDomainID
  dom_bIsInitialized :: bool
  dom_bIsSystemDomain :: bool
  dom_bIsSharedDomain :: bool
  dom_bIsDefaultDomain :: bool
  dom_bstrAppDomainName :: "WCHAR list option"
  dom_assemblyInfos :: umap
  dom_moduleInfos :: umap

record CAssemblyInfo =
  asm_assemblyId :: AssemblyID
  asm_bstrAssemblyName :: "WCHAR list option"
  asm_pAppDomainInfo :: "addr option"
  asm_manifestModuleID :: ModuleID
  asm_pManifestModule :: "addr option"
  asm_moduleInfos :: umap
  asm_tkAssembly :: mdToken
  asm_pPublicKey :: "byte list"
  asm_publicKeyTokenInitialized :: bool
  asm_bstrPublicKeyToken :: "WCHAR list option"

record CModuleInfo =
  mod_moduleID :: ModuleID
  mod_bstrModuleName :: "WCHAR list"
  mod_mvid :: MVID
  mod_pAssemblyInfo :: "addr option"
  mod_pAppDomainInfo :: "addr option"

text \<open>What is sent to the instrumentation methods, about an object, and to a raw profiler, about an identifier.\<close>

datatype methodEvent = OnAppDomainCreated addr | OnAppDomainShutdown addr | OnAssemblyLoaded addr | OnAssemblyUnloaded addr
  | OnModuleLoaded addr | OnModuleUnloaded addr

datatype rawEvent = Raw_AppDomainCreationStarted AppDomainID | Raw_AppDomainCreationFinished AppDomainID hresult
  | Raw_AppDomainShutdownStarted AppDomainID | Raw_AppDomainShutdownFinished AppDomainID hresult
  | Raw_AssemblyLoadStarted AssemblyID | Raw_AssemblyLoadFinished AssemblyID hresult
  | Raw_AssemblyUnloadStarted AssemblyID | Raw_AssemblyUnloadFinished AssemblyID hresult
  | Raw_ModuleLoadStarted ModuleID | Raw_ModuleLoadFinished ModuleID hresult
  | Raw_ModuleUnloadStarted ModuleID | Raw_ModuleUnloadFinished ModuleID hresult
  | Raw_ModuleAttachedToAssembly ModuleID AssemblyID

datatype sentEvent = Sent nat methodEvent | SentRaw rawEvent

record runtime =
  m_appDomains :: umap
  r_domains :: "addr \<Rightarrow> CAppDomainInfo option"
  r_assemblies :: "addr \<Rightarrow> CAssemblyInfo option"
  r_modules :: "addr \<Rightarrow> CModuleInfo option"
  r_next :: addr
  r_sent :: "sentEvent list"

text \<open>The runtime's answers, the instrumentation methods and the platform: the properties of an assembly with its
  domain and manifest module, of a module with its assembly, whether the module has metadata, its scope, the manifest of
  an assembly, and the strong name token of a key.  \<open>rt_readModule\<close> is the outcome of reading the headers and the version of a
  module file, and \<open>rt_iterate\<close> the order in which a hash map is traversed.\<close>

record runtimeEnv =
  rt_net20 :: bool
  rt_windows :: bool
  rt_coreClr :: bool
  rt_iterate :: "umap \<Rightarrow> umap"
  rt_GetAppDomainInfo :: "nat \<Rightarrow> AppDomainID \<Rightarrow> WCHAR list result"
  rt_GetAssemblyInfo :: "AssemblyID \<Rightarrow> (WCHAR list \<times> AppDomainID \<times> ModuleID) result"
  rt_GetModuleInfo :: "ModuleID \<Rightarrow> (WCHAR list \<times> AssemblyID) result"
  rt_assemblyImport :: "ModuleID \<Rightarrow> hresult"
  rt_metaDataImport :: "ModuleID \<Rightarrow> unit result"
  rt_GetScopeProps :: "ModuleID \<Rightarrow> MVID result"
  rt_PathFindFileName :: "WCHAR list \<Rightarrow> WCHAR list"
  rt_readModule :: "ModuleID \<Rightarrow> unit result"
  rt_GetAssemblyFromScope :: "ModuleID \<Rightarrow> mdToken result"
  rt_GetAssemblyProps :: "ModuleID \<Rightarrow> mdToken \<Rightarrow> byte list result"
  rt_StrongNameToken :: "(byte list \<Rightarrow> byte list result) option"
  rt_methods :: "(sentEvent list \<Rightarrow> methodEvent \<Rightarrow> hresult) list"
  rt_raw :: bool

text \<open>Reading and writing an object through its address.\<close>

definition domainAt :: "addr \<Rightarrow> (runtime, CAppDomainInfo) op" where
  "domainAt a = IfFailRet (gets (\<lambda>r. r_domains r a)) (\<lambda>d. liftR (deref d))"

definition assemblyAt :: "addr \<Rightarrow> (runtime, CAssemblyInfo) op" where
  "assemblyAt a = IfFailRet (gets (\<lambda>r. r_assemblies r a)) (\<lambda>x. liftR (deref x))"

definition moduleAt :: "addr \<Rightarrow> (runtime, CModuleInfo) op" where
  "moduleAt a = IfFailRet (gets (\<lambda>r. r_modules r a)) (\<lambda>x. liftR (deref x))"

definition setDomain :: "addr \<Rightarrow> CAppDomainInfo \<Rightarrow> (runtime, unit) op" where
  "setDomain a d = modify (r_domains_update (\<lambda>h. h(a \<mapsto> d)))"

definition setAssembly :: "addr \<Rightarrow> CAssemblyInfo \<Rightarrow> (runtime, unit) op" where
  "setAssembly a x = modify (r_assemblies_update (\<lambda>h. h(a \<mapsto> x)))"

definition setModule :: "addr \<Rightarrow> CModuleInfo \<Rightarrow> (runtime, unit) op" where
  "setModule a x = modify (r_modules_update (\<lambda>h. h(a \<mapsto> x)))"

section \<open>The collection of domains\<close>

definition OnShutdown :: "(runtime, unit) op" where
  "OnShutdown = modify (m_appDomains_update (\<lambda>_. []))"

definition AddAppDomainInfo :: "AppDomainID \<Rightarrow> addr \<Rightarrow> (runtime, unit) op" where
  "AddAppDomainInfo appDomainId p = modify (m_appDomains_update (umap_set appDomainId p))"

definition GetAppDomainCount :: "'p option \<Rightarrow> (runtime, DWORD) op" where
  "GetAppDomainCount pdwCount = IfNullRetPointer pdwCount (\<lambda>_. gets (\<lambda>r. of_nat (length (m_appDomains r))))"

definition GetAppDomainById :: "AppDomainID \<Rightarrow> (runtime, addr) op" where
  "GetAppDomainById appDomainId = IfFailRet (gets m_appDomains) (\<lambda>m.
     case umap_find appDomainId m of None \<Rightarrow> fail E_FAIL | Some a \<Rightarrow> ret a)"

definition RemoveAppDomainInfo :: "AppDomainID \<Rightarrow> (runtime, unit) op" where
  "RemoveAppDomainInfo appDomainId = IfFailRet (gets m_appDomains) (\<lambda>m.
     case umap_find appDomainId m of None \<Rightarrow> fail E_FAIL
     | Some a \<Rightarrow> modify (m_appDomains_update (umap_erase appDomainId)))"

text \<open>\<^verbatim>\<open>memset(pAppDomainIDs, 0, cAppDomains)\<close> clears that many bytes, not identifiers, of the caller's array.\<close>

definition clearBytes :: "nat \<Rightarrow> AppDomainID list \<Rightarrow> AppDomainID list" where
  "clearBytes n ids = map (\<lambda>(i, x). x AND NOT (mask (8 * min 8 (n - 8 * i)))) (enumerate 0 ids)"

fun fillIDs_loop :: "umap \<Rightarrow> nat \<Rightarrow> AppDomainID list \<Rightarrow> (nat \<times> AppDomainID list) result" where
  "fillIDs_loop [] i ids = Ok (i, ids)"
| "fillIDs_loop (p # ps) i ids = (if i < length ids then fillIDs_loop ps (Suc i) (ids[i := fst p]) else Undef)"

text \<open>\<open>pAppDomainIDs\<close> is the caller's array of \<open>cAppDomains\<close> elements.\<close>

definition GetAppDomainIDs :: "runtimeEnv \<Rightarrow> DWORD \<Rightarrow> 'p option \<Rightarrow> AppDomainID list option \<Rightarrow> (runtime, DWORD \<times> AppDomainID list) op" where
  "GetAppDomainIDs e cAppDomains pcActual pAppDomainIDs = IfNullRetPointer pcActual (\<lambda>_. IfNullRetPointer pAppDomainIDs (\<lambda>ids.
     IfFailRet (gets m_appDomains) (\<lambda>m.
     if unat cAppDomains \<ge> length m then fail E_FAIL
     else IfFailRet (liftR (fillIDs_loop (rt_iterate e m) 0 (clearBytes (unat cAppDomains) ids))) (\<lambda>(i, ids). ret (of_nat i, ids)))))"

definition enumerated :: "'a list \<Rightarrow> (runtime, 'a CEnumerator) op" where
  "enumerated xs = ret (Enum_Initialize xs new_CEnumerator)"

definition GetAppDomains :: "runtimeEnv \<Rightarrow> (runtime, addr CEnumerator) op" where
  "GetAppDomains e = IfFailRet (gets m_appDomains) (\<lambda>m. enumerated (map snd (rt_iterate e m)))"

section \<open>An application domain\<close>

definition new_CAppDomainInfo :: "AppDomainID \<Rightarrow> CAppDomainInfo" where
  "new_CAppDomainInfo appDomainId = \<lparr> dom_appDomainId = appDomainId, dom_bIsInitialized = False, dom_bIsSystemDomain = False,
     dom_bIsSharedDomain = False, dom_bIsDefaultDomain = False, dom_bstrAppDomainName = None, dom_assemblyInfos = [],
     dom_moduleInfos = [] \<rparr>"

text \<open>\<^verbatim>\<open>_wcsicmp\<close> compares the lower-case letters of the ASCII range.\<close>

definition lowerCase :: "WCHAR \<Rightarrow> WCHAR" where
  "lowerCase c = (if 65 \<le> c \<and> c \<le> 90 then c + 32 else c)"

definition namesSystem :: "bool \<Rightarrow> WCHAR list \<Rightarrow> string \<Rightarrow> bool" where
  "namesSystem windows name s \<longleftrightarrow> (if windows then map lowerCase name = map lowerCase (wide s) else name = wide s)"

definition classifyDomain :: "bool \<Rightarrow> WCHAR list \<Rightarrow> CAppDomainInfo \<Rightarrow> CAppDomainInfo" where
  "classifyDomain windows name d =
     (if name = wide ''EE Shared Assembly Repository'' then d\<lparr> dom_bIsSharedDomain := True \<rparr>
      else if namesSystem windows name ''mscorlib.dll'' \<or> namesSystem windows name ''System.Private.CoreLib.dll''
        then d\<lparr> dom_bIsSystemDomain := True \<rparr>
      else if name = wide ''DefaultDomain'' then d\<lparr> dom_bIsDefaultDomain := True \<rparr> else d)"

text \<open>The runtime is asked for the length of the name and then for the name; a failure of the second question is not
  reported.\<close>

definition FinishInitialization :: "runtimeEnv \<Rightarrow> addr \<Rightarrow> (runtime, unit) op" where
  "FinishInitialization e p = IfFailRet (domainAt p) (\<lambda>d.
     case rt_GetAppDomainInfo e 0 (dom_appDomainId d) of
       Ok s \<Rightarrow> if s = [] then fail E_FAIL else
         (case rt_GetAppDomainInfo e 1 (dom_appDomainId d) of
            Ok t \<Rightarrow> if length t \<noteq> length s then ret ()
              else IfFailRet (liftR (assignBSTR t)) (\<lambda>name. IfFailRet (liftR (deref name)) (\<lambda>name.
              let d = d\<lparr> dom_bstrAppDomainName := Some name \<rparr> in
              setDomain p (if dom_bIsInitialized d then d else (classifyDomain (rt_windows e) name d)\<lparr> dom_bIsInitialized := True \<rparr>)))
          | Fail hr \<Rightarrow> ret ()
          | r \<Rightarrow> liftR (bindR r (\<lambda>_. Ok ())))
     | Fail hr \<Rightarrow> fail E_FAIL
     | r \<Rightarrow> liftR (bindR r (\<lambda>_. Ok ())))"

definition AddAssemblyInfo :: "addr \<Rightarrow> addr \<Rightarrow> (runtime, unit) op" where
  "AddAssemblyInfo p a = IfFailRet (assemblyAt a) (\<lambda>x. IfFailRet (domainAt p) (\<lambda>d.
     setDomain p (d\<lparr> dom_assemblyInfos := umap_set (asm_assemblyId x) a (dom_assemblyInfos d) \<rparr>)))"

definition AssemblyInfoUnloaded :: "addr \<Rightarrow> addr \<Rightarrow> (runtime, unit) op" where
  "AssemblyInfoUnloaded p a = IfFailRet (assemblyAt a) (\<lambda>x. IfFailRet (domainAt p) (\<lambda>d.
     setDomain p (d\<lparr> dom_assemblyInfos := umap_erase (asm_assemblyId x) (dom_assemblyInfos d) \<rparr>)))"

definition Domain_AddModuleInfo :: "addr \<Rightarrow> addr \<Rightarrow> (runtime, unit) op" where
  "Domain_AddModuleInfo p m = IfFailRet (moduleAt m) (\<lambda>x. IfFailRet (domainAt p) (\<lambda>d.
     setDomain p (d\<lparr> dom_moduleInfos := umap_set (mod_moduleID x) m (dom_moduleInfos d) \<rparr>)))"

definition Domain_ModuleInfoUnloaded :: "addr \<Rightarrow> addr \<Rightarrow> (runtime, unit) op" where
  "Domain_ModuleInfoUnloaded p m = IfFailRet (moduleAt m) (\<lambda>x. IfFailRet (domainAt p) (\<lambda>d.
     setDomain p (d\<lparr> dom_moduleInfos := umap_erase (mod_moduleID x) (dom_moduleInfos d) \<rparr>)))"

definition GetAssemblyIds :: "runtimeEnv \<Rightarrow> addr \<Rightarrow> (runtime, AssemblyID list) op" where
  "GetAssemblyIds e p = IfFailRet (domainAt p) (\<lambda>d. ret (map fst (rt_iterate e (dom_assemblyInfos d))))"

definition GetModuleIds :: "runtimeEnv \<Rightarrow> addr \<Rightarrow> (runtime, ModuleID list) op" where
  "GetModuleIds e p = IfFailRet (domainAt p) (\<lambda>d. ret (map fst (rt_iterate e (dom_moduleInfos d))))"

definition GetAppDomainId :: "addr \<Rightarrow> 'p option \<Rightarrow> (runtime, AppDomainID) op" where
  "GetAppDomainId p pAppDomainId = IfNullRetPointer pAppDomainId (\<lambda>_. IfFailRet (domainAt p) (\<lambda>d. ret (dom_appDomainId d)))"

definition domainFlag :: "(CAppDomainInfo \<Rightarrow> 'a) \<Rightarrow> addr \<Rightarrow> 'p option \<Rightarrow> (runtime, 'a) op" where
  "domainFlag f p out = IfNullRetPointer out (\<lambda>_. IfFailRet (domainAt p) (\<lambda>d.
     IfFalseRet (dom_bIsInitialized d) E_FAIL (ret (f d))))"

definition GetIsSystemDomain :: "addr \<Rightarrow> 'p option \<Rightarrow> (runtime, bool) op" where
  "GetIsSystemDomain = domainFlag dom_bIsSystemDomain"

definition GetIsSharedDomain :: "addr \<Rightarrow> 'p option \<Rightarrow> (runtime, bool) op" where
  "GetIsSharedDomain = domainFlag dom_bIsSharedDomain"

definition GetIsDefaultDomain :: "addr \<Rightarrow> 'p option \<Rightarrow> (runtime, bool) op" where
  "GetIsDefaultDomain = domainFlag dom_bIsDefaultDomain"

definition Domain_GetName :: "addr \<Rightarrow> 'p option \<Rightarrow> (runtime, WCHAR list option) op" where
  "Domain_GetName = domainFlag dom_bstrAppDomainName"

definition Domain_GetAssemblies :: "runtimeEnv \<Rightarrow> addr \<Rightarrow> 'p option \<Rightarrow> (runtime, addr CEnumerator) op" where
  "Domain_GetAssemblies e p out = IfNullRetPointer out (\<lambda>_. IfFailRet (domainAt p) (\<lambda>d.
     enumerated (map snd (rt_iterate e (dom_assemblyInfos d)))))"

definition Domain_GetModules :: "runtimeEnv \<Rightarrow> addr \<Rightarrow> 'p option \<Rightarrow> (runtime, addr CEnumerator) op" where
  "Domain_GetModules e p out = IfNullRetPointer out (\<lambda>_. IfFailRet (domainAt p) (\<lambda>d.
     enumerated (map snd (rt_iterate e (dom_moduleInfos d)))))"

definition Domain_GetModuleCount :: "addr \<Rightarrow> 'p option \<Rightarrow> (runtime, DWORD) op" where
  "Domain_GetModuleCount p out = IfNullRetPointer out (\<lambda>_. IfFailRet (domainAt p) (\<lambda>d. ret (of_nat (length (dom_moduleInfos d)))))"

definition Domain_GetAssemblyInfoById :: "addr \<Rightarrow> AssemblyID \<Rightarrow> (runtime, addr) op" where
  "Domain_GetAssemblyInfoById p assemblyID = IfFailRet (domainAt p) (\<lambda>d.
     case umap_find assemblyID (dom_assemblyInfos d) of None \<Rightarrow> fail E_FAIL | Some a \<Rightarrow> ret a)"

definition Domain_GetModuleInfoById :: "addr \<Rightarrow> ModuleID \<Rightarrow> (runtime, addr) op" where
  "Domain_GetModuleInfoById p moduleId = IfFailRet (domainAt p) (\<lambda>d.
     case umap_find moduleId (dom_moduleInfos d) of None \<Rightarrow> fail E_FAIL | Some a \<Rightarrow> ret a)"

text \<open>The loops that collect the objects with a given name or version.\<close>

fun collect_loop :: "(addr \<Rightarrow> (runtime, bool) op) \<Rightarrow> umap \<Rightarrow> addr list \<Rightarrow> (runtime, addr list) op" where
  "collect_loop test [] found = ret found"
| "collect_loop test (p # ps) found = IfFailRet (test (snd p)) (\<lambda>b.
     collect_loop test ps (if b then found @ [snd p] else found))"

definition hasMvid :: "MVID \<Rightarrow> addr \<Rightarrow> (runtime, bool) op" where
  "hasMvid mvid m = IfFailRet (moduleAt m) (\<lambda>x. ret (mod_mvid x = mvid))"

definition hasModuleName :: "WCHAR list \<Rightarrow> addr \<Rightarrow> (runtime, bool) op" where
  "hasModuleName name m = IfFailRet (moduleAt m) (\<lambda>x. ret (name = mod_bstrModuleName x))"

definition hasAssemblyName :: "WCHAR list \<Rightarrow> addr \<Rightarrow> (runtime, bool) op" where
  "hasAssemblyName name a = IfFailRet (assemblyAt a) (\<lambda>x. IfFailRet (liftR (deref (asm_bstrAssemblyName x))) (\<lambda>n. ret (name = n)))"

definition Domain_GetModuleInfosByMvid :: "runtimeEnv \<Rightarrow> addr \<Rightarrow> MVID \<Rightarrow> (runtime, addr CEnumerator) op" where
  "Domain_GetModuleInfosByMvid e p mvid = IfFailRet (domainAt p) (\<lambda>d.
     IfFailRet (collect_loop (hasMvid mvid) (rt_iterate e (dom_moduleInfos d)) []) enumerated)"

definition Domain_GetModuleInfosByName :: "runtimeEnv \<Rightarrow> addr \<Rightarrow> WCHAR list \<Rightarrow> (runtime, addr CEnumerator) op" where
  "Domain_GetModuleInfosByName e p name = IfFailRet (domainAt p) (\<lambda>d.
     IfFailRet (collect_loop (hasModuleName name) (rt_iterate e (dom_moduleInfos d)) []) enumerated)"

definition Domain_GetAssemblyInfosByName :: "runtimeEnv \<Rightarrow> addr \<Rightarrow> WCHAR list \<Rightarrow> (runtime, addr CEnumerator) op" where
  "Domain_GetAssemblyInfosByName e p name = IfFailRet (domainAt p) (\<lambda>d.
     IfFailRet (collect_loop (hasAssemblyName name) (rt_iterate e (dom_assemblyInfos d)) []) enumerated)"

section \<open>An assembly\<close>

definition new_CAssemblyInfo :: CAssemblyInfo where
  "new_CAssemblyInfo = \<lparr> asm_assemblyId = 0, asm_bstrAssemblyName = None, asm_pAppDomainInfo = None, asm_manifestModuleID = 0,
     asm_pManifestModule = None, asm_moduleInfos = [], asm_tkAssembly = 0, asm_pPublicKey = [],
     asm_publicKeyTokenInitialized = False, asm_bstrPublicKeyToken = None \<rparr>"

definition Assembly_Initialize :: "AssemblyID \<Rightarrow> WCHAR list option \<Rightarrow> addr \<Rightarrow> ModuleID \<Rightarrow> CAssemblyInfo \<Rightarrow> CAssemblyInfo" where
  "Assembly_Initialize assemblyId wszAssemblyName pAppDomainInfo manifestModuleID x = x\<lparr> asm_assemblyId := assemblyId,
     asm_bstrAssemblyName := wszAssemblyName, asm_pAppDomainInfo := Some pAppDomainInfo, asm_manifestModuleID := manifestModuleID \<rparr>"

text \<open>\<^verbatim>\<open>%02X\<close>\<close>

definition hexDigit :: "nat \<Rightarrow> WCHAR" where
  "hexDigit n = (if n < 10 then of_nat (48 + n) else of_nat (55 + n))"

definition hex2 :: "byte \<Rightarrow> WCHAR list" where
  "hex2 b = [hexDigit (unat b div 16), hexDigit (unat b mod 16)]"

text \<open>The buffer has room for sixteen characters.\<close>

definition tokenString :: "byte list \<Rightarrow> WCHAR list" where
  "tokenString token = concat (map hex2 (take 8 token))"

definition InitializePublicKeyToken :: "runtimeEnv \<Rightarrow> addr \<Rightarrow> (runtime, unit) op" where
  "InitializePublicKeyToken e a = (if \<not> rt_windows e then ret () else IfFailRet (assemblyAt a) (\<lambda>x.
     if asm_publicKeyTokenInitialized x then ret () else
     let x = x\<lparr> asm_publicKeyTokenInitialized := True \<rparr> in IfFailRet (setAssembly a x) (\<lambda>_.
     if asm_pPublicKey x = [] then ret () else
     (case rt_StrongNameToken e of
        None \<Rightarrow> fail E_FAIL
      | Some f \<Rightarrow> (case f (asm_pPublicKey x) of
           Ok token \<Rightarrow> setAssembly a (x\<lparr> asm_bstrPublicKeyToken := Some (tokenString token) \<rparr>)
         | Fail hr \<Rightarrow> fail E_FAIL
         | r \<Rightarrow> liftR (bindR r (\<lambda>_. Ok ())))))))"

definition HandleManifestModuleLoad :: "runtimeEnv \<Rightarrow> addr \<Rightarrow> (runtime, unit) op" where
  "HandleManifestModuleLoad e a = IfFailRet (assemblyAt a) (\<lambda>x.
     case asm_pManifestModule x of None \<Rightarrow> fail E_FAIL | Some m \<Rightarrow> IfFailRet (moduleAt m) (\<lambda>y.
     IfFailRet (liftR (rt_GetAssemblyFromScope e (mod_moduleID y))) (\<lambda>tk.
     IfFailRet (setAssembly a (x\<lparr> asm_tkAssembly := tk \<rparr>)) (\<lambda>_.
     IfFailRet (liftR (rt_GetAssemblyProps e (mod_moduleID y) tk)) (\<lambda>key.
     IfFailRet (setAssembly a (x\<lparr> asm_tkAssembly := tk, asm_pPublicKey := key \<rparr>)) (\<lambda>_.
     if rt_coreClr e then ret () else InitializePublicKeyToken e a))))))"

definition Assembly_AddModuleInfo :: "runtimeEnv \<Rightarrow> addr \<Rightarrow> addr \<Rightarrow> (runtime, unit) op" where
  "Assembly_AddModuleInfo e a m = IfFailRet (moduleAt m) (\<lambda>y. IfFailRet (assemblyAt a) (\<lambda>x.
     let x = x\<lparr> asm_moduleInfos := umap_set (mod_moduleID y) m (asm_moduleInfos x) \<rparr> in
     if mod_moduleID y = asm_manifestModuleID x
     then IfFailRet (setAssembly a (x\<lparr> asm_pManifestModule := Some m \<rparr>)) (\<lambda>_. HandleManifestModuleLoad e a)
     else setAssembly a x))"

definition Assembly_ModuleInfoUnloaded :: "addr \<Rightarrow> addr \<Rightarrow> (runtime, unit) op" where
  "Assembly_ModuleInfoUnloaded a m = IfFailRet (moduleAt m) (\<lambda>y. IfFailRet (assemblyAt a) (\<lambda>x.
     setAssembly a (x\<lparr> asm_moduleInfos := umap_erase (mod_moduleID y) (asm_moduleInfos x) \<rparr>)))"

definition Assembly_GetModuleCount :: "addr \<Rightarrow> 'p option \<Rightarrow> (runtime, DWORD) op" where
  "Assembly_GetModuleCount a out = IfNullRetPointer out (\<lambda>_. IfFailRet (assemblyAt a) (\<lambda>x. ret (of_nat (length (asm_moduleInfos x)))))"

definition Assembly_GetModules :: "runtimeEnv \<Rightarrow> addr \<Rightarrow> 'p option \<Rightarrow> (runtime, addr CEnumerator) op" where
  "Assembly_GetModules e a out = IfNullRetPointer out (\<lambda>_. IfFailRet (assemblyAt a) (\<lambda>x.
     enumerated (map snd (rt_iterate e (asm_moduleInfos x)))))"

definition Assembly_GetModuleById :: "addr \<Rightarrow> ModuleID \<Rightarrow> (runtime, addr) op" where
  "Assembly_GetModuleById a moduleId = IfFailRet (assemblyAt a) (\<lambda>x.
     case umap_find moduleId (asm_moduleInfos x) of None \<Rightarrow> fail E_FAIL | Some m \<Rightarrow> ret m)"

text \<open>The modules found are put into an enumerator that is not returned: the out parameter stays null.\<close>

definition Assembly_GetModuleByMvid :: "runtimeEnv \<Rightarrow> addr \<Rightarrow> MVID \<Rightarrow> (runtime, addr option) op" where
  "Assembly_GetModuleByMvid e a mvid = IfFailRet (assemblyAt a) (\<lambda>x.
     IfFailRet (collect_loop (hasMvid mvid) (rt_iterate e (asm_moduleInfos x)) []) (\<lambda>found. ret None))"

definition Assembly_GetModulesByName :: "runtimeEnv \<Rightarrow> addr \<Rightarrow> WCHAR list \<Rightarrow> (runtime, addr CEnumerator option) op" where
  "Assembly_GetModulesByName e a name = IfFailRet (assemblyAt a) (\<lambda>x.
     IfFailRet (collect_loop (hasModuleName name) (rt_iterate e (asm_moduleInfos x)) []) (\<lambda>found. ret None))"

definition GetManifestModule :: "addr \<Rightarrow> (runtime, addr) op" where
  "GetManifestModule a = IfFailRet (assemblyAt a) (\<lambda>x.
     case asm_pManifestModule x of None \<Rightarrow> fail E_FAIL | Some m \<Rightarrow> ret m)"

text \<open>\<^verbatim>\<open>memcpy_s\<close> copies nothing and clears the buffer when it is too small; the error is ignored.\<close>

definition GetPublicKey :: "addr \<Rightarrow> byte list option \<Rightarrow> (runtime, byte list) op" where
  "GetPublicKey a pbBytes = IfNullRetPointer pbBytes (\<lambda>buf. IfFailRet (assemblyAt a) (\<lambda>x.
     ret (if length (asm_pPublicKey x) \<le> length buf then asm_pPublicKey x @ drop (length (asm_pPublicKey x)) buf
       else replicate (length buf) 0)))"

definition GetPublicKeySize :: "addr \<Rightarrow> 'p option \<Rightarrow> (runtime, DWORD) op" where
  "GetPublicKeySize a out = IfNullRetPointer out (\<lambda>_. IfFailRet (assemblyAt a) (\<lambda>x. ret (of_nat (length (asm_pPublicKey x)))))"

definition GetPublicKeyToken :: "addr \<Rightarrow> 'p option \<Rightarrow> (runtime, WCHAR list option) op" where
  "GetPublicKeyToken a out = IfNullRetPointer out (\<lambda>_. IfFailRet (assemblyAt a) (\<lambda>x.
     if asm_publicKeyTokenInitialized x then ret (asm_bstrPublicKeyToken x) else fail E_FAIL))"

definition Assembly_GetID :: "addr \<Rightarrow> 'p option \<Rightarrow> (runtime, AssemblyID) op" where
  "Assembly_GetID a out = IfNullRetPointer out (\<lambda>_. IfFailRet (assemblyAt a) (\<lambda>x. ret (asm_assemblyId x)))"

definition Assembly_GetMetaDataToken :: "addr \<Rightarrow> 'p option \<Rightarrow> (runtime, mdToken) op" where
  "Assembly_GetMetaDataToken a out = IfNullRetPointer out (\<lambda>_. IfFailRet (assemblyAt a) (\<lambda>x.
     if asm_tkAssembly x = 0 then fail E_FAIL else ret (asm_tkAssembly x)))"

section \<open>Searching all domains\<close>

text \<open>The domains are asked one after the other, and the first that knows the identifier answers.\<close>

fun search_loop :: "(addr \<Rightarrow> (runtime, addr) op) \<Rightarrow> umap \<Rightarrow> (runtime, addr) op" where
  "search_loop ask [] = fail E_FAIL"
| "search_loop ask (p # ps) = Discard (ask (snd p)) (\<lambda>r. case r of Some x \<Rightarrow> ret x | None \<Rightarrow> search_loop ask ps)"

definition GetAssemblyInfoById :: "runtimeEnv \<Rightarrow> AssemblyID \<Rightarrow> (runtime, addr) op" where
  "GetAssemblyInfoById e assemblyID = IfFailRet (gets m_appDomains) (\<lambda>m.
     search_loop (\<lambda>p. Domain_GetAssemblyInfoById p assemblyID) (rt_iterate e m))"

definition GetModuleInfoById :: "runtimeEnv \<Rightarrow> ModuleID \<Rightarrow> (runtime, addr) op" where
  "GetModuleInfoById e moduleID = IfFailRet (gets m_appDomains) (\<lambda>m.
     search_loop (\<lambda>p. Domain_GetModuleInfoById p moduleID) (rt_iterate e m))"

text \<open>The modules with a version are collected over all domains; the domains are drained one item at a time, and one
  that fails is skipped.\<close>

fun mvid_loop :: "runtimeEnv \<Rightarrow> MVID \<Rightarrow> umap \<Rightarrow> addr list \<Rightarrow> (runtime, addr list) op" where
  "mvid_loop e mvid [] found = ret found"
| "mvid_loop e mvid (p # ps) found = Discard (Domain_GetModuleInfosByMvid e (snd p) mvid) (\<lambda>r.
     case r of None \<Rightarrow> mvid_loop e mvid ps found
     | Some enum \<Rightarrow> IfFailRet (liftR (drain enum)) (\<lambda>ms. mvid_loop e mvid ps (found @ ms)))"

definition GetModuleInfosByMvid :: "runtimeEnv \<Rightarrow> MVID \<Rightarrow> 'p option \<Rightarrow> (runtime, addr CEnumerator) op" where
  "GetModuleInfosByMvid e mvid ppEnum = IfNullRetPointer ppEnum (\<lambda>_. IfFailRet (gets m_appDomains) (\<lambda>m.
     IfFailRet (mvid_loop e mvid (rt_iterate e m) []) enumerated))"

end
