(* ===== verification/RuntimeEvents.thy ===== *)
theory RuntimeEvents
  imports RuntimeObjects
begin

text \<open>
  The callbacks of the runtime that load and unload application domains, assemblies and modules
  (\<^verbatim>\<open>InstrumentationEngine/ProfilerManager.cpp\<close>): they keep the objects of \<^verbatim>\<open>RuntimeObjects\<close> and tell the instrumentation methods
  and a raw profiler.  What was sent is part of the state.
\<close>

section \<open>Telling the clients\<close>

text \<open>Every instrumentation method is called; the outcome is that of the last one.\<close>

fun send_loop :: "(sentEvent list \<Rightarrow> methodEvent \<Rightarrow> hresult) list \<Rightarrow> nat \<Rightarrow> methodEvent \<Rightarrow> hresult \<Rightarrow> (runtime, hresult) op" where
  "send_loop [] i ev hr = ret hr"
| "send_loop (f # fs) i ev hr = IfFailRet (gets r_sent) (\<lambda>sent. IfFailRet (modify (r_sent_update (\<lambda>l. l @ [Sent i ev]))) (\<lambda>_.
     send_loop fs (Suc i) ev (f sent ev)))"

definition SendEventToInstrumentationMethods :: "runtimeEnv \<Rightarrow> methodEvent \<Rightarrow> (runtime, unit) op" where
  "SendEventToInstrumentationMethods e ev = IfFailRet (send_loop (rt_methods e) 0 ev S_OK) (\<lambda>hr.
     if SUCCEEDED hr then ret () else fail hr)"

text \<open>The outcome of the raw profiler is logged and dropped.\<close>

definition SendEventToRawProfilerCallback :: "runtimeEnv \<Rightarrow> rawEvent \<Rightarrow> (runtime, unit) op" where
  "SendEventToRawProfilerCallback e ev = (if rt_raw e then modify (r_sent_update (\<lambda>l. l @ [SentRaw ev])) else ret ())"

section \<open>Creating objects\<close>

definition allocate :: "(runtime, addr) op" where
  "allocate = IfFailRet (gets r_next) (\<lambda>a. IfFailRet (modify (r_next_update Suc)) (\<lambda>_. ret a))"

definition ConstructAppDomainInfo :: "AppDomainID \<Rightarrow> (runtime, addr) op" where
  "ConstructAppDomainInfo appDomainId = IfFailRet allocate (\<lambda>p. IfFailRet (setDomain p (new_CAppDomainInfo appDomainId)) (\<lambda>_.
     IfFailRet (AddAppDomainInfo appDomainId p) (\<lambda>_. ret p)))"

definition ConstructAssemblyInfo :: "runtimeEnv \<Rightarrow> AssemblyID \<Rightarrow> (runtime, addr) op" where
  "ConstructAssemblyInfo e assemblyId = IfFailRet (liftR (rt_GetAssemblyInfo e assemblyId)) (\<lambda>(wszAssemblyName, appDomainID, manifestModuleID).
     IfFailRet (GetAppDomainById appDomainID) (\<lambda>p.
     IfFailRet (liftR (assignBSTR wszAssemblyName)) (\<lambda>name.
     IfFailRet allocate (\<lambda>a.
     IfFailRet (setAssembly a (Assembly_Initialize assemblyId name p manifestModuleID new_CAssemblyInfo)) (\<lambda>_.
     IfFailRet (AddAssemblyInfo p a) (\<lambda>_. ret a))))))"

definition Module_Initialize :: "runtimeEnv \<Rightarrow> ModuleID \<Rightarrow> WCHAR list \<Rightarrow> addr \<Rightarrow> addr \<Rightarrow> CModuleInfo result" where
  "Module_Initialize e moduleID path a p = bindR (rt_GetScopeProps e moduleID) (\<lambda>mvid.
     bindR (rt_readModule e moduleID) (\<lambda>_.
     Ok \<lparr> mod_moduleID = moduleID, mod_bstrModuleName = rt_PathFindFileName e path, mod_mvid = mvid, mod_pAssemblyInfo = Some a,
       mod_pAppDomainInfo = Some p \<rparr>))"

definition Module_Dispose :: "addr \<Rightarrow> (runtime, unit) op" where
  "Module_Dispose m = IfFailRet (moduleAt m) (\<lambda>y. setModule m (y\<lparr> mod_pAssemblyInfo := None, mod_pAppDomainInfo := None \<rparr>))"

text \<open>Finding a domain or assembly, or making it.\<close>

definition ensureDomain :: "AppDomainID \<Rightarrow> (runtime, addr) op" where
  "ensureDomain appDomainId = Discard (GetAppDomainById appDomainId) (\<lambda>r.
     case r of Some p \<Rightarrow> ret p | None \<Rightarrow> ConstructAppDomainInfo appDomainId)"

definition ensureAssembly :: "runtimeEnv \<Rightarrow> AssemblyID \<Rightarrow> (runtime, addr) op" where
  "ensureAssembly e assemblyId = Discard (GetAssemblyInfoById e assemblyId) (\<lambda>r.
     case r of Some a \<Rightarrow> ret a | None \<Rightarrow> ConstructAssemblyInfo e assemblyId)"

definition ConstructModuleInfo :: "runtimeEnv \<Rightarrow> ModuleID \<Rightarrow> (runtime, addr) op" where
  "ConstructModuleInfo e moduleId = IfFailRet (liftR (rt_GetModuleInfo e moduleId)) (\<lambda>(wszModulePath, assemblyId).
     if \<not> SUCCEEDED (rt_assemblyImport e moduleId) \<or> rt_assemblyImport e moduleId = S_FALSE then fail E_FAIL else
     IfFailRet (liftR (rt_metaDataImport e moduleId)) (\<lambda>_.
     IfFailRet (liftR (rt_GetAssemblyInfo e assemblyId)) (\<lambda>(name, appdomainId, manifestModuleID).
     IfFailRet (ensureDomain appdomainId) (\<lambda>p.
     IfFailRet (ensureAssembly e assemblyId) (\<lambda>a.
     IfFailRet (liftR (assignBSTR wszModulePath)) (\<lambda>path. IfFailRet (liftR (deref path)) (\<lambda>path.
     IfFailRet (liftR (Module_Initialize e moduleId path a p)) (\<lambda>y.
     IfFailRet allocate (\<lambda>m.
     IfFailRet (setModule m y) (\<lambda>_.
     IfFailRet (Domain_AddModuleInfo p m) (\<lambda>_.
     IfFailRet (Assembly_AddModuleInfo e a m) (\<lambda>_. ret m))))))))))))"

section \<open>Unloading\<close>

definition ModuleUnloadStartedImpl :: "runtimeEnv \<Rightarrow> ModuleID \<Rightarrow> (runtime, unit) op" where
  "ModuleUnloadStartedImpl e moduleId = (if rt_net20 e then SendEventToRawProfilerCallback e (Raw_ModuleUnloadStarted moduleId)
     else Discard (GetModuleInfoById e moduleId) (\<lambda>r. case r of None \<Rightarrow> ret ()
       | Some m \<Rightarrow> SendEventToRawProfilerCallback e (Raw_ModuleUnloadStarted moduleId)))"

definition removeModule :: "addr \<Rightarrow> (runtime, unit) op" where
  "removeModule m = IfFailRet (moduleAt m) (\<lambda>y.
     IfFailRet (liftR (deref (mod_pAssemblyInfo y))) (\<lambda>a.
     IfFailRet (Assembly_ModuleInfoUnloaded a m) (\<lambda>_.
     IfFailRet (liftR (deref (mod_pAppDomainInfo y))) (\<lambda>p.
     IfFailRet (Domain_ModuleInfoUnloaded p m) (\<lambda>_.
     Module_Dispose m)))))"

definition ModuleUnloadFinishedImpl :: "runtimeEnv \<Rightarrow> ModuleID \<Rightarrow> hresult \<Rightarrow> (runtime, unit) op" where
  "ModuleUnloadFinishedImpl e moduleId hrStatus =
     (if rt_net20 e then SendEventToRawProfilerCallback e (Raw_ModuleUnloadFinished moduleId hrStatus)
      else Discard (GetModuleInfoById e moduleId) (\<lambda>r. case r of None \<Rightarrow> ret ()
        | Some m \<Rightarrow> IfFailRet (SendEventToInstrumentationMethods e (OnModuleUnloaded m)) (\<lambda>_.
          IfFailRet (SendEventToRawProfilerCallback e (Raw_ModuleUnloadFinished moduleId hrStatus)) (\<lambda>_.
          removeModule m))))"

definition AssemblyUnloadStartedImpl :: "runtimeEnv \<Rightarrow> AssemblyID \<Rightarrow> (runtime, unit) op" where
  "AssemblyUnloadStartedImpl e assemblyId = (if rt_net20 e then SendEventToRawProfilerCallback e (Raw_AssemblyUnloadStarted assemblyId)
     else Discard (GetAssemblyInfoById e assemblyId) (\<lambda>r. case r of None \<Rightarrow> ret ()
       | Some a \<Rightarrow> SendEventToRawProfilerCallback e (Raw_AssemblyUnloadStarted assemblyId)))"

definition AssemblyUnloadFinishedImpl :: "runtimeEnv \<Rightarrow> AssemblyID \<Rightarrow> hresult \<Rightarrow> (runtime, unit) op" where
  "AssemblyUnloadFinishedImpl e assemblyId hrStatus =
     (if rt_net20 e then SendEventToRawProfilerCallback e (Raw_AssemblyUnloadFinished assemblyId hrStatus)
      else Discard (GetAssemblyInfoById e assemblyId) (\<lambda>r. case r of None \<Rightarrow> ret ()
        | Some a \<Rightarrow> IfFailRet (assemblyAt a) (\<lambda>x. IfFailRet (liftR (deref (asm_pAppDomainInfo x))) (\<lambda>p.
          IfFailRet (AssemblyInfoUnloaded p a) (\<lambda>_.
          IfFailRet (SendEventToInstrumentationMethods e (OnAssemblyUnloaded a)) (\<lambda>_.
          SendEventToRawProfilerCallback e (Raw_AssemblyUnloadFinished assemblyId hrStatus)))))))"

definition fabricateModuleUnload :: "runtimeEnv \<Rightarrow> ModuleID \<Rightarrow> (runtime, unit) op" where
  "fabricateModuleUnload e moduleId = IfFailRet (ModuleUnloadStartedImpl e moduleId) (\<lambda>_. ModuleUnloadFinishedImpl e moduleId S_OK)"

definition fabricateAssemblyUnload :: "runtimeEnv \<Rightarrow> AssemblyID \<Rightarrow> (runtime, unit) op" where
  "fabricateAssemblyUnload e assemblyId = IfFailRet (AssemblyUnloadStartedImpl e assemblyId) (\<lambda>_. AssemblyUnloadFinishedImpl e assemblyId S_OK)"

definition SendFabricatedModuleUnloads :: "runtimeEnv \<Rightarrow> addr \<Rightarrow> (runtime, unit) op" where
  "SendFabricatedModuleUnloads e p = IfFailRet (GetModuleIds e p) (\<lambda>ids. each (fabricateModuleUnload e) ids)"

definition SendFabricatedAssemblyUnloads :: "runtimeEnv \<Rightarrow> addr \<Rightarrow> (runtime, unit) op" where
  "SendFabricatedAssemblyUnloads e p = IfFailRet (GetAssemblyIds e p) (\<lambda>ids. each (fabricateAssemblyUnload e) ids)"

section \<open>The callbacks\<close>

definition AppDomainCreationStarted :: "runtimeEnv \<Rightarrow> AppDomainID \<Rightarrow> (runtime, unit) op" where
  "AppDomainCreationStarted e appDomainId = IfFailRet (if rt_net20 e then ret () else IfFailRet (ensureDomain appDomainId) (\<lambda>_. ret ())) (\<lambda>_.
     SendEventToRawProfilerCallback e (Raw_AppDomainCreationStarted appDomainId))"

definition AppDomainCreationFinished :: "runtimeEnv \<Rightarrow> AppDomainID \<Rightarrow> hresult \<Rightarrow> (runtime, unit) op" where
  "AppDomainCreationFinished e appDomainId hrStatus =
     (if rt_net20 e then SendEventToRawProfilerCallback e (Raw_AppDomainCreationFinished appDomainId hrStatus)
      else if \<not> SUCCEEDED hrStatus then ret ()
      else IfFailRet (GetAppDomainById appDomainId) (\<lambda>p. IfFailRet (FinishInitialization e p) (\<lambda>_.
        Discard (SendEventToInstrumentationMethods e (OnAppDomainCreated p)) (\<lambda>_.
        SendEventToRawProfilerCallback e (Raw_AppDomainCreationFinished appDomainId hrStatus)))))"

definition AppDomainShutdownStarted :: "runtimeEnv \<Rightarrow> AppDomainID \<Rightarrow> (runtime, unit) op" where
  "AppDomainShutdownStarted e appDomainId = SendEventToRawProfilerCallback e (Raw_AppDomainShutdownStarted appDomainId)"

definition AppDomainShutdownFinished :: "runtimeEnv \<Rightarrow> AppDomainID \<Rightarrow> hresult \<Rightarrow> (runtime, unit) op" where
  "AppDomainShutdownFinished e appDomainId hrStatus =
     IfFailRet (if rt_net20 e then ret () else
        IfFailRet (GetAppDomainById appDomainId) (\<lambda>p.
        Discard (SendFabricatedModuleUnloads e p) (\<lambda>_.
        Discard (SendFabricatedAssemblyUnloads e p) (\<lambda>_.
        IfFailRet (SendEventToInstrumentationMethods e (OnAppDomainShutdown p)) (\<lambda>_.
        RemoveAppDomainInfo appDomainId))))) (\<lambda>_.
     SendEventToRawProfilerCallback e (Raw_AppDomainShutdownFinished appDomainId hrStatus))"

definition AssemblyLoadStarted :: "runtimeEnv \<Rightarrow> AssemblyID \<Rightarrow> (runtime, unit) op" where
  "AssemblyLoadStarted e assemblyId = SendEventToRawProfilerCallback e (Raw_AssemblyLoadStarted assemblyId)"

definition AssemblyLoadFinished :: "runtimeEnv \<Rightarrow> AssemblyID \<Rightarrow> hresult \<Rightarrow> (runtime, unit) op" where
  "AssemblyLoadFinished e assemblyId hrStatus = IfFailRet (if rt_net20 e then ret () else
       IfFailRet (ensureAssembly e assemblyId) (\<lambda>a. SendEventToInstrumentationMethods e (OnAssemblyLoaded a))) (\<lambda>_.
     SendEventToRawProfilerCallback e (Raw_AssemblyLoadFinished assemblyId hrStatus))"

definition ModuleLoadStarted :: "runtimeEnv \<Rightarrow> ModuleID \<Rightarrow> (runtime, unit) op" where
  "ModuleLoadStarted e moduleId = SendEventToRawProfilerCallback e (Raw_ModuleLoadStarted moduleId)"

definition ModuleLoadFinished :: "runtimeEnv \<Rightarrow> ModuleID \<Rightarrow> hresult \<Rightarrow> (runtime, unit) op" where
  "ModuleLoadFinished e moduleId hrStatus = SendEventToRawProfilerCallback e (Raw_ModuleLoadFinished moduleId hrStatus)"

definition ModuleAttachedToAssembly :: "runtimeEnv \<Rightarrow> ModuleID \<Rightarrow> AssemblyID \<Rightarrow> (runtime, unit) op" where
  "ModuleAttachedToAssembly e moduleId assemblyId = IfFailRet (if rt_net20 e then ret () else
       Discard (ConstructModuleInfo e moduleId) (\<lambda>r. case r of None \<Rightarrow> ret ()
         | Some m \<Rightarrow> SendEventToInstrumentationMethods e (OnModuleLoaded m))) (\<lambda>_.
     SendEventToRawProfilerCallback e (Raw_ModuleAttachedToAssembly moduleId assemblyId))"

text \<open>What the runtime calls.\<close>

datatype callback = CB_AppDomainCreationStarted AppDomainID | CB_AppDomainCreationFinished AppDomainID hresult
  | CB_AppDomainShutdownStarted AppDomainID | CB_AppDomainShutdownFinished AppDomainID hresult
  | CB_AssemblyLoadStarted AssemblyID | CB_AssemblyLoadFinished AssemblyID hresult
  | CB_AssemblyUnloadStarted AssemblyID | CB_AssemblyUnloadFinished AssemblyID hresult
  | CB_ModuleLoadStarted ModuleID | CB_ModuleLoadFinished ModuleID hresult
  | CB_ModuleUnloadStarted ModuleID | CB_ModuleUnloadFinished ModuleID hresult
  | CB_ModuleAttachedToAssembly ModuleID AssemblyID

fun deliver :: "runtimeEnv \<Rightarrow> callback \<Rightarrow> (runtime, unit) op" where
  "deliver e (CB_AppDomainCreationStarted i) = AppDomainCreationStarted e i"
| "deliver e (CB_AppDomainCreationFinished i hr) = AppDomainCreationFinished e i hr"
| "deliver e (CB_AppDomainShutdownStarted i) = AppDomainShutdownStarted e i"
| "deliver e (CB_AppDomainShutdownFinished i hr) = AppDomainShutdownFinished e i hr"
| "deliver e (CB_AssemblyLoadStarted i) = AssemblyLoadStarted e i"
| "deliver e (CB_AssemblyLoadFinished i hr) = AssemblyLoadFinished e i hr"
| "deliver e (CB_AssemblyUnloadStarted i) = AssemblyUnloadStartedImpl e i"
| "deliver e (CB_AssemblyUnloadFinished i hr) = AssemblyUnloadFinishedImpl e i hr"
| "deliver e (CB_ModuleLoadStarted i) = ModuleLoadStarted e i"
| "deliver e (CB_ModuleLoadFinished i hr) = ModuleLoadFinished e i hr"
| "deliver e (CB_ModuleUnloadStarted i) = ModuleUnloadStartedImpl e i"
| "deliver e (CB_ModuleUnloadFinished i hr) = ModuleUnloadFinishedImpl e i hr"
| "deliver e (CB_ModuleAttachedToAssembly i a) = ModuleAttachedToAssembly e i a"

end
