(* ===== verification/RuntimeInv.thy ===== *)
theory RuntimeInv
  imports RuntimeEvents "HOL-Library.Multiset"
begin

text \<open>
  The invariant of the objects of the runtime: what the maps refer to exists and refers back.  Every callback keeps it and
  never follows a pointer that is null or dangling.
\<close>

section \<open>Outcomes of a call\<close>

text \<open>The call succeeds with a result and state in \<open>Q\<close> or fails in a state in \<open>R\<close>; it is not undefined and returns.\<close>

definition wp :: "('s, 'a) op \<Rightarrow> ('a \<Rightarrow> 's \<Rightarrow> bool) \<Rightarrow> ('s \<Rightarrow> bool) \<Rightarrow> 's \<Rightarrow> bool" where
  "wp m Q R s = (case m s of (Ok x, t) \<Rightarrow> Q x t | (Fail hr, t) \<Rightarrow> R t | _ \<Rightarrow> False)"

lemma wp_ret [simp]: "wp (ret x) Q R = Q x"
  by (rule ext) (simp add: wp_def op_defs)

lemma wp_fail [simp]: "wp (fail hr) Q R = R"
  by (rule ext) (simp add: wp_def op_defs)

lemma wp_gets [simp]: "wp (gets f) Q R = (\<lambda>s. Q (f s) s)"
  by (rule ext) (simp add: wp_def op_defs)

lemma wp_modify [simp]: "wp (modify g) Q R = (\<lambda>s. Q () (g s))"
  by (rule ext) (simp add: wp_def op_defs)

lemma wp_liftR_cases [simp]: "wp (liftR (Ok x)) Q R = Q x" "wp (liftR (Fail hr)) Q R = R" "wp (liftR (deref (Some x))) Q R = Q x"
  by (rule ext, simp add: wp_def op_defs)+

lemma wp_IfFailRet [simp]: "wp (IfFailRet m k) Q R = wp m (\<lambda>x. wp (k x) Q R) R"
  by (rule ext) (auto simp: wp_def IfFailRet_def split: prod.splits result.splits)

lemma wp_Discard [simp]: "wp (Discard m k) Q R = wp m (\<lambda>x. wp (k (Some x)) Q R) (wp (k None) Q R)"
  by (rule ext) (auto simp: wp_def Discard_def split: prod.splits result.splits)

lemma wp_mono: "wp m Q R s \<Longrightarrow> (\<And>x t. Q x t \<Longrightarrow> Q' x t) \<Longrightarrow> (\<And>t. R t \<Longrightarrow> R' t) \<Longrightarrow> wp m Q' R' s"
  by (auto simp: wp_def split: prod.splits result.splits)

lemma wp_each:
  assumes "\<And>x s. x \<in> set xs \<Longrightarrow> I s \<Longrightarrow> wp (f x) (\<lambda>_. I) I s"
  shows "I s \<Longrightarrow> wp (each f xs) (\<lambda>_. I) I s"
  using assms
proof (induction xs arbitrary: s)
  case (Cons x xs)
  have *: "wp (f x) (\<lambda>_. I) I s" using Cons.prems by simp
  show ?case using Cons by (auto intro: wp_mono [OF *])
qed simp

definition defined :: "'a result \<Rightarrow> bool" where
  "defined r \<longleftrightarrow> (case r of Ok x \<Rightarrow> True | Fail hr \<Rightarrow> True | _ \<Rightarrow> False)"

lemma wp_liftR: "defined r \<Longrightarrow> wp (liftR r) Q R s = (case r of Ok x \<Rightarrow> Q x s | _ \<Rightarrow> R s)"
  by (auto simp: wp_def op_defs defined_def split: result.splits)

section \<open>Hash maps\<close>

lemma umap_set_mem: "(k, v) \<in> set (umap_set i a m) \<longleftrightarrow> k = i \<and> v = a \<or> k \<noteq> i \<and> (k, v) \<in> set m"
  by (auto simp: umap_set_def)

lemma umap_erase_mem: "(k, v) \<in> set (umap_erase i m) \<longleftrightarrow> k \<noteq> i \<and> (k, v) \<in> set m"
  by (auto simp: umap_erase_def)

lemma distinct_umap:
  "distinct (map fst m) \<Longrightarrow> distinct (map fst (umap_set i a m))" "distinct (map fst m) \<Longrightarrow> distinct (map fst (umap_erase i m))"
  by (induction m) (auto simp: umap_set_def umap_erase_def)

lemma umap_find_mem: "distinct (map fst m) \<Longrightarrow> umap_find k m = Some v \<longleftrightarrow> (k, v) \<in> set m"
  by (simp add: umap_find_def)

lemma umap_find_None: "umap_find k m = None \<longleftrightarrow> k \<notin> fst ` set m"
  by (simp add: umap_find_def map_of_eq_None_iff)

section \<open>The invariant\<close>

text \<open>The domain the runtime says an assembly or module belongs to.\<close>

definition assemblyDomain :: "runtimeEnv \<Rightarrow> AssemblyID \<Rightarrow> AppDomainID option" where
  "assemblyDomain e i = (case rt_GetAssemblyInfo e i of Ok (name, k, manifest) \<Rightarrow> Some k | _ \<Rightarrow> None)"

definition moduleDomain :: "runtimeEnv \<Rightarrow> ModuleID \<Rightarrow> AppDomainID option" where
  "moduleDomain e i = (case rt_GetModuleInfo e i of Ok (path, a) \<Rightarrow> assemblyDomain e a | _ \<Rightarrow> None)"

definition assembly_in :: "runtimeEnv \<Rightarrow> runtime \<Rightarrow> addr \<Rightarrow> AppDomainID \<Rightarrow> AssemblyID \<Rightarrow> addr \<Rightarrow> bool" where
  "assembly_in e r p k i a \<longleftrightarrow> (\<exists>x. r_assemblies r a = Some x \<and> asm_assemblyId x = i \<and> asm_pAppDomainInfo x = Some p \<and>
     assemblyDomain e i = Some k)"

definition module_in :: "runtimeEnv \<Rightarrow> runtime \<Rightarrow> addr \<Rightarrow> AppDomainID \<Rightarrow> ModuleID \<Rightarrow> addr \<Rightarrow> bool" where
  "module_in e r p k i m \<longleftrightarrow> (\<exists>y a. r_modules r m = Some y \<and> mod_moduleID y = i \<and> mod_pAppDomainInfo y = Some p \<and>
     mod_pAssemblyInfo y = Some a \<and> r_assemblies r a \<noteq> None \<and> moduleDomain e i = Some k)"

definition domain_ok :: "runtimeEnv \<Rightarrow> runtime \<Rightarrow> addr \<Rightarrow> CAppDomainInfo \<Rightarrow> bool" where
  "domain_ok e r p d \<longleftrightarrow> distinct (map fst (dom_assemblyInfos d)) \<and> distinct (map fst (dom_moduleInfos d)) \<and>
     (\<forall>i a. (i, a) \<in> set (dom_assemblyInfos d) \<longrightarrow> assembly_in e r p (dom_appDomainId d) i a) \<and>
     (\<forall>i m. (i, m) \<in> set (dom_moduleInfos d) \<longrightarrow> module_in e r p (dom_appDomainId d) i m)"

definition fresh_above :: "runtime \<Rightarrow> bool" where
  "fresh_above r \<longleftrightarrow> (\<forall>a \<ge> r_next r. r_domains r a = None \<and> r_assemblies r a = None \<and> r_modules r a = None)"

definition loaded_ok :: "runtimeEnv \<Rightarrow> runtime \<Rightarrow> bool" where
  "loaded_ok e r \<longleftrightarrow> fresh_above r \<and> distinct (map fst (m_appDomains r)) \<and>
     (\<forall>k p. (k, p) \<in> set (m_appDomains r) \<longrightarrow> (\<exists>d. r_domains r p = Some d \<and> dom_appDomainId d = k)) \<and>
     (\<forall>p d. r_domains r p = Some d \<longrightarrow> domain_ok e r p d)"

text \<open>What the runtime is assumed to do: it answers, names are terminated, and a traversal visits every entry once.\<close>

definition well_behaved :: "runtimeEnv \<Rightarrow> bool" where
  "well_behaved e \<longleftrightarrow> (\<forall>m. mset (rt_iterate e m) = mset m) \<and>
     (\<forall>n i. case rt_GetAppDomainInfo e n i of Ok s \<Rightarrow> s = [] \<or> 0 \<in> set s | Fail hr \<Rightarrow> True | _ \<Rightarrow> False) \<and>
     (\<forall>i. case rt_GetAssemblyInfo e i of Ok (s, k, m) \<Rightarrow> 0 \<in> set s | Fail hr \<Rightarrow> True | _ \<Rightarrow> False) \<and>
     (\<forall>i. case rt_GetModuleInfo e i of Ok (s, a) \<Rightarrow> 0 \<in> set s | Fail hr \<Rightarrow> True | _ \<Rightarrow> False) \<and>
     (\<forall>i. defined (rt_metaDataImport e i)) \<and> (\<forall>i. defined (rt_GetScopeProps e i)) \<and> (\<forall>i. defined (rt_readModule e i)) \<and>
     (\<forall>i. defined (rt_GetAssemblyFromScope e i)) \<and> (\<forall>i tk. defined (rt_GetAssemblyProps e i tk)) \<and>
     (case rt_StrongNameToken e of None \<Rightarrow> True | Some f \<Rightarrow> \<forall>key. defined (f key))"

lemma iterate_set: "well_behaved e \<Longrightarrow> set (rt_iterate e m) = set m"
  using mset_eq_setD by (auto simp: well_behaved_def)

text \<open>The invariant only looks at the store and the collection.\<close>

lemma loaded_ok_sent [simp]: "loaded_ok e (r_sent_update f r) = loaded_ok e r"
  by (simp add: loaded_ok_def fresh_above_def domain_ok_def assembly_in_def module_in_def)

lemma loaded_okI:
  assumes "fresh_above r" and "distinct (map fst (m_appDomains r))"
    and "\<And>k p. (k, p) \<in> set (m_appDomains r) \<Longrightarrow> \<exists>d. r_domains r p = Some d \<and> dom_appDomainId d = k"
    and "\<And>p d. r_domains r p = Some d \<Longrightarrow> domain_ok e r p d"
  shows "loaded_ok e r"
  using assms unfolding loaded_ok_def by blast

lemma loaded_okD:
  assumes "loaded_ok e r"
  shows "fresh_above r" "distinct (map fst (m_appDomains r))"
    "(k, p) \<in> set (m_appDomains r) \<Longrightarrow> \<exists>d. r_domains r p = Some d \<and> dom_appDomainId d = k"
    "r_domains r p = Some d \<Longrightarrow> domain_ok e r p d"
  using assms unfolding loaded_ok_def by blast+

lemma domain_ok_mono:
  assumes "domain_ok e r p d"
    and "\<And>k i a. assembly_in e r p k i a \<Longrightarrow> assembly_in e r' p k i a" and "\<And>k i m. module_in e r p k i m \<Longrightarrow> module_in e r' p k i m"
  shows "domain_ok e r' p d"
  using assms unfolding domain_ok_def by blast

lemma loaded_ok_domain:
  assumes r: "loaded_ok e r" and d: "r_domains r p = Some d" "domain_ok e r p d'" "dom_appDomainId d' = dom_appDomainId d"
  shows "loaded_ok e (r_domains_update (\<lambda>h. h(p \<mapsto> d')) r)"
proof -
  let ?r = "r_domains_update (\<lambda>h. h(p \<mapsto> d')) r"
  have *: "domain_ok e ?r q c \<longleftrightarrow> domain_ok e r q c" for q c by (simp add: domain_ok_def assembly_in_def module_in_def)
  show ?thesis
  proof (rule loaded_okI)
    show "fresh_above ?r" using loaded_okD(1) [OF r] d(1) by (auto simp: fresh_above_def)
    show "distinct (map fst (m_appDomains ?r))" using loaded_okD(2) [OF r] by simp
    show "\<exists>d. r_domains ?r q = Some d \<and> dom_appDomainId d = k" if "(k, q) \<in> set (m_appDomains ?r)" for k q
      using loaded_okD(3) [OF r, of k q] d that by auto
    show "domain_ok e ?r q c" if "r_domains ?r q = Some c" for q c
      using loaded_okD(4) [OF r, of q c] d(2) that by (auto simp: * split: if_splits)
  qed
qed

text \<open>Changes of the store that keep what the maps refer to.\<close>

lemma loaded_ok_store:
  assumes r: "loaded_ok e r" and "fresh_above r'" and "m_appDomains r' = m_appDomains r" and "r_domains r' = r_domains r"
    and "\<And>p k i a. assembly_in e r p k i a \<Longrightarrow> assembly_in e r' p k i a"
    and "\<And>p d i m. r_domains r p = Some d \<Longrightarrow> (i, m) \<in> set (dom_moduleInfos d) \<Longrightarrow> module_in e r p (dom_appDomainId d) i m \<Longrightarrow>
      module_in e r' p (dom_appDomainId d) i m"
  shows "loaded_ok e r'"
proof (rule loaded_okI)
  show "domain_ok e r' p d" if "r_domains r' p = Some d" for p d
    using loaded_okD(4) [OF r, of p d] assms(4-6) that unfolding domain_ok_def by auto
qed (use assms loaded_okD [OF r] in auto)

lemma module_in_mono:
  assumes "module_in e r p k i m" and "r_modules r' = r_modules r" and "\<And>a. r_assemblies r a \<noteq> None \<Longrightarrow> r_assemblies r' a \<noteq> None"
  shows "module_in e r' p k i m"
  using assms unfolding module_in_def by (metis (no_types))

lemma loaded_ok_assembly:
  assumes r: "loaded_ok e r" and x: "r_assemblies r a = Some x" "asm_assemblyId x' = asm_assemblyId x"
    "asm_pAppDomainInfo x' = asm_pAppDomainInfo x"
  shows "loaded_ok e (r_assemblies_update (\<lambda>h. h(a \<mapsto> x')) r)"
proof (rule loaded_ok_store [OF r])
  show "fresh_above (r_assemblies_update (\<lambda>h. h(a \<mapsto> x')) r)" using loaded_okD(1) [OF r] x(1) by (auto simp: fresh_above_def)
qed (use x in \<open>auto simp: assembly_in_def intro: module_in_mono\<close>)

text \<open>A new assembly, and a new module.\<close>

lemma loaded_ok_new_assembly:
  assumes r: "loaded_ok e r"
  shows "loaded_ok e (r_assemblies_update (\<lambda>h. h(r_next r \<mapsto> x)) (r_next_update Suc r))"
proof (rule loaded_ok_store [OF r])
  have f: "fresh_above r" by (rule loaded_okD(1) [OF r])
  then show "fresh_above (r_assemblies_update (\<lambda>h. h(r_next r \<mapsto> x)) (r_next_update Suc r))" by (auto simp: fresh_above_def)
  have "r_assemblies r (r_next r) = None" using f by (simp add: fresh_above_def)
  then show "assembly_in e (r_assemblies_update (\<lambda>h. h(r_next r \<mapsto> x)) (r_next_update Suc r)) p k i a" if "assembly_in e r p k i a" for p k i a
    using that by (auto simp: assembly_in_def)
qed (auto intro: module_in_mono)

lemma loaded_ok_new_module:
  assumes r: "loaded_ok e r"
  shows "loaded_ok e (r_modules_update (\<lambda>h. h(r_next r \<mapsto> y)) (r_next_update Suc r))"
proof (rule loaded_ok_store [OF r])
  have f: "fresh_above r" by (rule loaded_okD(1) [OF r])
  then show "fresh_above (r_modules_update (\<lambda>h. h(r_next r \<mapsto> y)) (r_next_update Suc r))" by (auto simp: fresh_above_def)
  have "r_modules r (r_next r) = None" using f by (simp add: fresh_above_def)
  then show "module_in e (r_modules_update (\<lambda>h. h(r_next r \<mapsto> y)) (r_next_update Suc r)) p (dom_appDomainId d) i m"
    if "module_in e r p (dom_appDomainId d) i m" for p d i m using that by (auto simp: module_in_def)
qed (auto simp: assembly_in_def)

text \<open>A new domain enters the collection.\<close>

lemma loaded_ok_new_domain:
  assumes r: "loaded_ok e r"
  shows "loaded_ok e (m_appDomains_update (umap_set k (r_next r))
    (r_domains_update (\<lambda>h. h(r_next r \<mapsto> new_CAppDomainInfo k)) (r_next_update Suc r)))" (is "loaded_ok e ?r")
proof (rule loaded_okI)
  have f: "fresh_above r" by (rule loaded_okD(1) [OF r])
  then show "fresh_above ?r" by (auto simp: fresh_above_def)
  have n: "r_domains r (r_next r) = None" using f by (simp add: fresh_above_def)
  show "distinct (map fst (m_appDomains ?r))" using loaded_okD(2) [OF r] by (simp add: distinct_umap)
  show "\<exists>d. r_domains ?r q = Some d \<and> dom_appDomainId d = i" if "(i, q) \<in> set (m_appDomains ?r)" for i q
    using that n loaded_okD(3) [OF r, of i q] by (auto simp: umap_set_mem new_CAppDomainInfo_def)
  show "domain_ok e ?r q c" if "r_domains ?r q = Some c" for q c
  proof (cases "q = r_next r")
    case True
    then show ?thesis using that by (auto simp: domain_ok_def new_CAppDomainInfo_def)
  next
    case False
    then have "domain_ok e r q c" using that loaded_okD(4) [OF r, of q c] by simp
    then show ?thesis by (rule domain_ok_mono) (auto simp: assembly_in_def module_in_def)
  qed
qed

lemma loaded_ok_remove_domain:
  assumes r: "loaded_ok e r"
  shows "loaded_ok e (m_appDomains_update (umap_erase k) r)"
proof (rule loaded_okI)
  show "domain_ok e (m_appDomains_update (umap_erase k) r) p d" if "r_domains (m_appDomains_update (umap_erase k) r) p = Some d" for p d
    using that loaded_okD(4) [OF r, of p d] by (auto simp: domain_ok_def assembly_in_def module_in_def)
qed (use loaded_okD(1-3) [OF r] in \<open>auto simp: fresh_above_def distinct_umap umap_erase_mem\<close>)

text \<open>A module that no domain refers to may change.\<close>

lemma loaded_ok_disposed:
  assumes r: "loaded_ok e r" and m: "r_modules r m \<noteq> None" "\<And>p d i. r_domains r p = Some d \<Longrightarrow> (i, m) \<notin> set (dom_moduleInfos d)"
  shows "loaded_ok e (r_modules_update (\<lambda>h. h(m \<mapsto> y)) r)"
proof (rule loaded_ok_store [OF r])
  show "fresh_above (r_modules_update (\<lambda>h. h(m \<mapsto> y)) r)" using loaded_okD(1) [OF r] m(1) by (auto simp: fresh_above_def)
  show "module_in e (r_modules_update (\<lambda>h. h(m \<mapsto> y)) r) p (dom_appDomainId d) i m'"
    if "r_domains r p = Some d" "(i, m') \<in> set (dom_moduleInfos d)" "module_in e r p (dom_appDomainId d) i m'" for p d i m'
    using that m(2) by (auto simp: module_in_def)
qed (auto simp: assembly_in_def)

section \<open>The operations\<close>

lemma wp_objects [simp]:
  "wp (domainAt p) Q R s = (case r_domains s p of Some d \<Rightarrow> Q d s | None \<Rightarrow> False)"
  "wp (assemblyAt a) Q' R s = (case r_assemblies s a of Some x \<Rightarrow> Q' x s | None \<Rightarrow> False)"
  "wp (moduleAt m) Q'' R s = (case r_modules s m of Some y \<Rightarrow> Q'' y s | None \<Rightarrow> False)"
  by (auto simp: domainAt_def assemblyAt_def moduleAt_def wp_def op_defs IfFailRet_def split: option.splits)

lemma wp_set_objects [simp]:
  "wp (setDomain p d) Q R s = Q () (r_domains_update (\<lambda>h. h(p \<mapsto> d)) s)"
  "wp (setAssembly a x) Q R s = Q () (r_assemblies_update (\<lambda>h. h(a \<mapsto> x)) s)"
  "wp (setModule m y) Q R s = Q () (r_modules_update (\<lambda>h. h(m \<mapsto> y)) s)"
  "wp allocate Q' R s = Q' (r_next s) (r_next_update Suc s)"
  by (simp_all add: setDomain_def setAssembly_def setModule_def allocate_def)

text \<open>A domain of the collection.\<close>

lemma wp_GetAppDomainById:
  assumes "loaded_ok e s" and "\<And>p d. r_domains s p = Some d \<Longrightarrow> (k, p) \<in> set (m_appDomains s) \<Longrightarrow> dom_appDomainId d = k \<Longrightarrow> Q p s"
    and "k \<notin> fst ` set (m_appDomains s) \<Longrightarrow> R s"
  shows "wp (GetAppDomainById k) Q R s"
proof (cases "umap_find k (m_appDomains s)")
  case None
  then have "R s" using assms(3) by (simp add: umap_find_None)
  then show ?thesis using None by (simp add: GetAppDomainById_def)
next
  case (Some p)
  then have m: "(k, p) \<in> set (m_appDomains s)" using loaded_okD(2) [OF assms(1)] by (simp add: umap_find_mem)
  obtain d where "r_domains s p = Some d" "dom_appDomainId d = k" using loaded_okD(3) [OF assms(1) m] by blast
  then have "Q p s" using assms(2) m by blast
  then show ?thesis using Some by (simp add: GetAppDomainById_def)
qed

text \<open>Looking an identifier up in every domain: what is found is in the map of the domain that was found.\<close>

lemma wp_search_loop:
  assumes "\<And>k p. (k, p) \<in> set ps \<Longrightarrow> \<exists>d. r_domains s p = Some d \<and> ask p s = (case umap_find i (f d) of None \<Rightarrow> (Fail E_FAIL, s) | Some x \<Rightarrow> (Ok x, s))"
    and "\<And>k p d x. (k, p) \<in> set ps \<Longrightarrow> r_domains s p = Some d \<Longrightarrow> umap_find i (f d) = Some x \<Longrightarrow> Q x s"
    and "(\<And>k p d. (k, p) \<in> set ps \<Longrightarrow> r_domains s p = Some d \<Longrightarrow> umap_find i (f d) = None) \<Longrightarrow> R s"
  shows "wp (search_loop ask ps) Q R s"
  using assms
proof (induction ps)
  case Nil
  then show ?case by (simp add: wp_def)
next
  case (Cons p ps)
  obtain d where d: "r_domains s (snd p) = Some d"
    "ask (snd p) s = (case umap_find i (f d) of None \<Rightarrow> (Fail E_FAIL, s) | Some x \<Rightarrow> (Ok x, s))"
    using Cons.prems(1) [of "fst p" "snd p"] by auto
  show ?case
  proof (cases "umap_find i (f d)")
    case None
    have "wp (search_loop ask ps) Q R s"
    proof (rule Cons.IH)
      show "R s" if "\<And>k p d. (k, p) \<in> set ps \<Longrightarrow> r_domains s p = Some d \<Longrightarrow> umap_find i (f d) = None"
      proof (rule Cons.prems(3))
        show "umap_find i (f c) = None" if "(k, q) \<in> set (p # ps)" "r_domains s q = Some c" for k q c
          using that None d(1) \<open>\<And>k p d. (k, p) \<in> set ps \<Longrightarrow> r_domains s p = Some d \<Longrightarrow> umap_find i (f d) = None\<close> by auto
      qed
    qed (use Cons.prems in \<open>meson list.set_intros(2)\<close>)+
    then show ?thesis using None d(2) by (simp add: wp_def Discard_def)
  next
    case (Some x)
    then have "Q x s" using Cons.prems(2) [of "fst p" "snd p" d x] d(1) by simp
    then show ?thesis using Some d(2) by (simp add: wp_def Discard_def op_defs)
  qed
qed

lemma Domain_lookups:
  assumes "r_domains s p = Some d"
  shows "Domain_GetAssemblyInfoById p i s = (case umap_find i (dom_assemblyInfos d) of None \<Rightarrow> (Fail E_FAIL, s) | Some x \<Rightarrow> (Ok x, s))"
    "Domain_GetModuleInfoById p i s = (case umap_find i (dom_moduleInfos d) of None \<Rightarrow> (Fail E_FAIL, s) | Some x \<Rightarrow> (Ok x, s))"
  using assms by (auto simp: Domain_GetAssemblyInfoById_def Domain_GetModuleInfoById_def domainAt_def op_defs IfFailRet_def
      split: option.splits)

text \<open>\<open>tracked f s i x\<close>: some domain of the collection has \<open>x\<close> under the identifier \<open>i\<close>.\<close>

definition tracked :: "(CAppDomainInfo \<Rightarrow> umap) \<Rightarrow> runtime \<Rightarrow> ULONGLONG \<Rightarrow> addr \<Rightarrow> addr \<Rightarrow> bool" where
  "tracked f s i p x \<longleftrightarrow> (\<exists>k d. (k, p) \<in> set (m_appDomains s) \<and> r_domains s p = Some d \<and> (i, x) \<in> set (f d))"

lemma wp_search:
  assumes e: "well_behaved e" and s: "loaded_ok e s"
    and ask: "\<And>p d. r_domains s p = Some d \<Longrightarrow> ask p s = (case umap_find i (f d) of None \<Rightarrow> (Fail E_FAIL, s) | Some x \<Rightarrow> (Ok x, s))"
    and f: "\<And>p d. domain_ok e s p d \<Longrightarrow> distinct (map fst (f d))"
    and Q: "\<And>p x. tracked f s i p x \<Longrightarrow> Q x s" and R: "(\<And>p x. \<not> tracked f s i p x) \<Longrightarrow> R s"
  shows "wp (search_loop ask (rt_iterate e (m_appDomains s))) Q R s"
proof (rule wp_search_loop [where f = f and i = i])
  let ?ps = "rt_iterate e (m_appDomains s)"
  have ps: "set ?ps = set (m_appDomains s)" by (rule iterate_set [OF e])
  show "\<exists>d. r_domains s p = Some d \<and> ask p s = (case umap_find i (f d) of None \<Rightarrow> (Fail E_FAIL, s) | Some x \<Rightarrow> (Ok x, s))"
    if "(k, p) \<in> set ?ps" for k p using loaded_okD(3) [OF s, of k p] that ps ask by auto
  show "Q x s" if "(k, p) \<in> set ?ps" "r_domains s p = Some d" "umap_find i (f d) = Some x" for k p d x
    using that Q [of p x] f [OF loaded_okD(4) [OF s that(2)]] ps by (auto simp: tracked_def umap_find_mem)
  show "R s" if "\<And>k p d. (k, p) \<in> set ?ps \<Longrightarrow> r_domains s p = Some d \<Longrightarrow> umap_find i (f d) = None"
    using that R ps by (force simp: tracked_def umap_find_None)
qed

lemma wp_lookups:
  assumes e: "well_behaved e" and s: "loaded_ok e s"
  shows "(\<And>p x. tracked dom_assemblyInfos s i p x \<Longrightarrow> Q x s) \<Longrightarrow> ((\<And>p x. \<not> tracked dom_assemblyInfos s i p x) \<Longrightarrow> R s) \<Longrightarrow>
      wp (GetAssemblyInfoById e i) Q R s"
    "(\<And>p x. tracked dom_moduleInfos s i p x \<Longrightarrow> Q x s) \<Longrightarrow> ((\<And>p x. \<not> tracked dom_moduleInfos s i p x) \<Longrightarrow> R s) \<Longrightarrow>
      wp (GetModuleInfoById e i) Q R s"
  unfolding GetAssemblyInfoById_def GetModuleInfoById_def wp_IfFailRet wp_gets
  by (rule wp_search [where f = dom_assemblyInfos and i = i, OF e s]; auto simp: domain_ok_def Domain_lookups)
    (rule wp_search [where f = dom_moduleInfos and i = i, OF e s]; auto simp: domain_ok_def Domain_lookups)

text \<open>What tracking says of an object.\<close>

lemma tracked_assembly:
  assumes "loaded_ok e s" and "tracked dom_assemblyInfos s i p a"
  obtains d x where "r_domains s p = Some d" "r_assemblies s a = Some x" "asm_assemblyId x = i" "asm_pAppDomainInfo x = Some p"
    "(dom_appDomainId d, p) \<in> set (m_appDomains s)" "(i, a) \<in> set (dom_assemblyInfos d)" "assemblyDomain e i = Some (dom_appDomainId d)"
  using assms(2) loaded_okD(3,4) [OF assms(1)] unfolding tracked_def domain_ok_def assembly_in_def by force

lemma tracked_module:
  assumes "loaded_ok e s" and "tracked dom_moduleInfos s i p m"
  obtains d y a x where "r_domains s p = Some d" "r_modules s m = Some y" "mod_moduleID y = i" "mod_pAppDomainInfo y = Some p"
    "mod_pAssemblyInfo y = Some a" "r_assemblies s a = Some x" "(dom_appDomainId d, p) \<in> set (m_appDomains s)"
    "(i, m) \<in> set (dom_moduleInfos d)" "moduleDomain e i = Some (dom_appDomainId d)"
  using assms(2) loaded_okD(3,4) [OF assms(1)] unfolding tracked_def domain_ok_def module_in_def by force

section \<open>Sending\<close>

definition sentAll :: "runtimeEnv \<Rightarrow> methodEvent \<Rightarrow> runtime \<Rightarrow> runtime" where
  "sentAll e ev s = r_sent_update (\<lambda>l. l @ map (\<lambda>j. Sent j ev) [0..<length (rt_methods e)]) s"

definition sentRaw :: "runtimeEnv \<Rightarrow> rawEvent \<Rightarrow> runtime \<Rightarrow> runtime" where
  "sentRaw e ev s = (if rt_raw e then r_sent_update (\<lambda>l. l @ [SentRaw ev]) s else s)"

definition methods_succeed :: "runtimeEnv \<Rightarrow> bool" where
  "methods_succeed e \<longleftrightarrow> (\<forall>f \<in> set (rt_methods e). \<forall>l ev. SUCCEEDED (f l ev))"

lemma send_loop_exec:
  "\<exists>hr'. send_loop fs i ev hr s = (Ok hr', r_sent_update (\<lambda>l. l @ map (\<lambda>j. Sent j ev) [i..<i + length fs]) s) \<and>
     ((\<forall>f \<in> set fs. \<forall>l ev. SUCCEEDED (f l ev)) \<longrightarrow> SUCCEEDED hr \<longrightarrow> SUCCEEDED hr')"
proof (induction fs arbitrary: i hr s)
  case Nil
  show ?case by (simp add: op_defs)
next
  case (Cons f fs)
  let ?s = "r_sent_update (\<lambda>l. l @ [Sent i ev]) s"
  obtain hr' where hr': "send_loop fs (Suc i) ev (f (r_sent s) ev) ?s =
      (Ok hr', r_sent_update (\<lambda>l. l @ map (\<lambda>j. Sent j ev) [Suc i..<Suc i + length fs]) ?s)"
    "(\<forall>f \<in> set fs. \<forall>l ev. SUCCEEDED (f l ev)) \<longrightarrow> SUCCEEDED (f (r_sent s) ev) \<longrightarrow> SUCCEEDED hr'" using Cons.IH by blast
  have "i < i + length (f # fs)" by simp
  then have u: "[i..<i + length (f # fs)] = i # [Suc i..<Suc i + length fs]" by (subst upt_conv_Cons) simp_all
  show ?case unfolding u using hr' by (auto simp: op_defs IfFailRet_def comp_def)
qed

lemma Send_exec:
  "\<exists>r. SendEventToInstrumentationMethods e ev s = (r, sentAll e ev s) \<and> defined r \<and> (methods_succeed e \<longrightarrow> r = Ok ())"
proof -
  obtain hr where "send_loop (rt_methods e) 0 ev S_OK s = (Ok hr, sentAll e ev s)"
    "methods_succeed e \<longrightarrow> SUCCEEDED S_OK \<longrightarrow> SUCCEEDED hr"
    using send_loop_exec [of "rt_methods e" 0 ev S_OK s] unfolding sentAll_def methods_succeed_def by auto
  then show ?thesis by (auto simp: SendEventToInstrumentationMethods_def IfFailRet_def op_defs defined_def SUCCEEDED_def)
qed

lemma wp_Send: "Q () (sentAll e ev s) \<Longrightarrow> R (sentAll e ev s) \<Longrightarrow> wp (SendEventToInstrumentationMethods e ev) Q R s"
  using Send_exec [of e ev s] by (elim exE conjE) (auto simp: wp_def defined_def split: result.splits)

lemma wp_SendRaw [simp]: "wp (SendEventToRawProfilerCallback e ev) Q R = (\<lambda>s. Q () (sentRaw e ev s))"
  by (rule ext) (simp add: SendEventToRawProfilerCallback_def sentRaw_def)

lemma sent_simps [simp]:
  "m_appDomains (sentAll e ev s) = m_appDomains s" "r_domains (sentAll e ev s) = r_domains s"
  "r_assemblies (sentAll e ev s) = r_assemblies s" "r_modules (sentAll e ev s) = r_modules s"
  "m_appDomains (sentRaw e rw s) = m_appDomains s" "r_domains (sentRaw e rw s) = r_domains s"
  "r_assemblies (sentRaw e rw s) = r_assemblies s" "r_modules (sentRaw e rw s) = r_modules s"
  "loaded_ok e (sentAll e' ev s) = loaded_ok e s" "loaded_ok e (sentRaw e' rw s) = loaded_ok e s"
  by (simp_all add: sentAll_def sentRaw_def)

section \<open>Loading\<close>

text \<open>Domains and assemblies stay.\<close>

definition extends :: "runtime \<Rightarrow> runtime \<Rightarrow> bool" where
  "extends s t \<longleftrightarrow> (\<forall>p d. r_domains s p = Some d \<longrightarrow> (\<exists>d'. r_domains t p = Some d' \<and> dom_appDomainId d' = dom_appDomainId d)) \<and>
     (\<forall>a. r_assemblies s a \<noteq> None \<longrightarrow> r_assemblies t a \<noteq> None)"

definition isDomain :: "runtime \<Rightarrow> AppDomainID \<Rightarrow> addr \<Rightarrow> bool" where
  "isDomain s k p \<longleftrightarrow> (\<exists>d. r_domains s p = Some d \<and> dom_appDomainId d = k)"

lemma wp_ensureDomain:
  assumes "loaded_ok e s"
  shows "wp (ensureDomain k) (\<lambda>p t. loaded_ok e t \<and> isDomain t k p) (loaded_ok e) s"
  unfolding ensureDomain_def wp_Discard
proof (rule wp_GetAppDomainById [OF assms])
  show "wp (case None of None \<Rightarrow> ConstructAppDomainInfo k | Some p \<Rightarrow> ret p) (\<lambda>p t. loaded_ok e t \<and> isDomain t k p) (loaded_ok e) s"
    using loaded_ok_new_domain [OF assms, of k]
    by (simp add: ConstructAppDomainInfo_def AddAppDomainInfo_def isDomain_def new_CAppDomainInfo_def)
qed (use assms in \<open>auto simp: isDomain_def\<close>)

lemma domain_ok_add_assembly:
  assumes "domain_ok e s p d" and "assembly_in e s p (dom_appDomainId d) i a"
  shows "domain_ok e s p (d\<lparr> dom_assemblyInfos := umap_set i a (dom_assemblyInfos d) \<rparr>)"
  using assms by (auto simp: domain_ok_def distinct_umap umap_set_mem assembly_in_def module_in_def)

lemma domain_ok_add_module:
  assumes "domain_ok e s p d" and "module_in e s p (dom_appDomainId d) i m"
  shows "domain_ok e s p (d\<lparr> dom_moduleInfos := umap_set i m (dom_moduleInfos d) \<rparr>)"
  using assms by (auto simp: domain_ok_def distinct_umap umap_set_mem assembly_in_def module_in_def)

lemma domain_ok_erase:
  assumes "domain_ok e s p d"
  shows "domain_ok e s p (d\<lparr> dom_assemblyInfos := umap_erase i (dom_assemblyInfos d) \<rparr>)"
    "domain_ok e s p (d\<lparr> dom_moduleInfos := umap_erase i (dom_moduleInfos d) \<rparr>)"
  using assms by (auto simp: domain_ok_def distinct_umap umap_erase_mem)

lemma well_behavedD:
  assumes "well_behaved e"
  shows "rt_GetAssemblyInfo e i = Ok (n, k, m) \<Longrightarrow> 0 \<in> set n" "defined (rt_GetAssemblyInfo e i)"
    "rt_GetModuleInfo e i = Ok (n, a) \<Longrightarrow> 0 \<in> set n" "defined (rt_GetModuleInfo e i)"
    "rt_GetAppDomainInfo e j i = Ok n \<Longrightarrow> n = [] \<or> 0 \<in> set n" "defined (rt_GetAppDomainInfo e j i)"
proof -
  note w = assms [unfolded well_behaved_def]
  have a: "case rt_GetAssemblyInfo e i of Ok (s, k, m) \<Rightarrow> 0 \<in> set s | Fail hr \<Rightarrow> True | _ \<Rightarrow> False" for i using w by blast
  have m: "case rt_GetModuleInfo e i of Ok (s, a) \<Rightarrow> 0 \<in> set s | Fail hr \<Rightarrow> True | _ \<Rightarrow> False" for i using w by blast
  have d: "case rt_GetAppDomainInfo e j i of Ok s \<Rightarrow> s = [] \<or> 0 \<in> set s | Fail hr \<Rightarrow> True | _ \<Rightarrow> False" for j i using w by blast
  show "rt_GetAssemblyInfo e i = Ok (n, k, m) \<Longrightarrow> 0 \<in> set n" "defined (rt_GetAssemblyInfo e i)"
    using a [of i] by (auto simp: defined_def split: result.splits)
  show "rt_GetModuleInfo e i = Ok (n, a) \<Longrightarrow> 0 \<in> set n" "defined (rt_GetModuleInfo e i)"
    using m [of i] by (auto simp: defined_def split: result.splits)
  show "rt_GetAppDomainInfo e j i = Ok n \<Longrightarrow> n = [] \<or> 0 \<in> set n" "defined (rt_GetAppDomainInfo e j i)"
    using d [of j i] by (auto simp: defined_def split: result.splits)
qed

lemma assignBSTR_terminated: "0 \<in> set s \<Longrightarrow> assignBSTR s = Ok (Some (takeWhile (\<lambda>c. c \<noteq> 0) s))"
  by (auto simp: assignBSTR_def)

lemma wp_ConstructAssemblyInfo:
  assumes e: "well_behaved e" and s: "loaded_ok e s"
  shows "wp (ConstructAssemblyInfo e i) (\<lambda>a t. loaded_ok e t \<and> r_assemblies t a \<noteq> None \<and> extends s t) (loaded_ok e) s"
proof (cases "rt_GetAssemblyInfo e i")
  case (Ok r)
  then obtain n k m where r: "rt_GetAssemblyInfo e i = Ok (n, k, m)" by (cases r) auto
  define b where "b = Some (takeWhile (\<lambda>c. c \<noteq> 0) n)"
  have b: "assignBSTR n = Ok b" using well_behavedD(1) [OF e r] by (simp add: assignBSTR_terminated b_def)
  have k: "assemblyDomain e i = Some k" using r by (simp add: assemblyDomain_def)
  have id: "asm_assemblyId (Assembly_Initialize i b p m x) = i" for p x by (simp add: Assembly_Initialize_def)
  have *: "loaded_ok e (r_domains_update (\<lambda>h. h(p \<mapsto> d\<lparr> dom_assemblyInfos := umap_set i (r_next s) (dom_assemblyInfos d) \<rparr>))
      (r_assemblies_update (\<lambda>h. h(r_next s \<mapsto> Assembly_Initialize i b p m new_CAssemblyInfo)) (r_next_update Suc s)))"
    if d: "r_domains s p = Some d" "dom_appDomainId d = k" for p d
  proof -
    let ?t = "r_assemblies_update (\<lambda>h. h(r_next s \<mapsto> Assembly_Initialize i b p m new_CAssemblyInfo)) (r_next_update Suc s)"
    have t: "loaded_ok e ?t" by (rule loaded_ok_new_assembly [OF s])
    have x: "assembly_in e ?t p (dom_appDomainId d) i (r_next s)" using d(2) k by (simp add: assembly_in_def Assembly_Initialize_def)
    have p: "r_domains ?t p = Some d" using d(1) by simp
    show ?thesis by (rule loaded_ok_domain [OF t p domain_ok_add_assembly [OF loaded_okD(4) [OF t p] x]]) simp
  qed
  show ?thesis unfolding ConstructAssemblyInfo_def r wp_IfFailRet wp_liftR_cases prod.case
    by (rule wp_GetAppDomainById [OF s]) (auto simp: s b * AddAssemblyInfo_def extends_def id)
next
  case (Fail hr)
  then show ?thesis using s by (simp add: ConstructAssemblyInfo_def)
qed (use well_behavedD(2) [OF e, of i] in \<open>simp_all add: defined_def\<close>)

lemma extends_refl: "extends s s"
  by (simp add: extends_def)

lemma wp_ensureAssembly:
  assumes e: "well_behaved e" and s: "loaded_ok e s"
  shows "wp (ensureAssembly e i) (\<lambda>a t. loaded_ok e t \<and> r_assemblies t a \<noteq> None \<and> extends s t) (loaded_ok e) s"
  unfolding ensureAssembly_def wp_Discard
proof (rule wp_lookups(1) [OF e s])
  fix p a assume "tracked dom_assemblyInfos s i p a"
  then have "r_assemblies s a \<noteq> None" using tracked_assembly [OF s] by (metis option.distinct(1))
  then show "wp (case Some a of None \<Rightarrow> ConstructAssemblyInfo e i | Some a \<Rightarrow> ret a)
      (\<lambda>a t. loaded_ok e t \<and> r_assemblies t a \<noteq> None \<and> extends s t) (loaded_ok e) s" using s by (simp add: extends_refl)
qed (simp only: option.case wp_ConstructAssemblyInfo [OF e s])

text \<open>Reading the manifest changes nothing the invariant looks at.\<close>

lemma wp_InitializePublicKeyToken:
  assumes e: "well_behaved e" and s: "loaded_ok e s" "r_assemblies s a = Some x"
  shows "wp (InitializePublicKeyToken e a) (\<lambda>_. loaded_ok e) (loaded_ok e) s"
proof -
  have k: "loaded_ok e (r_assemblies_update (\<lambda>h. h(a \<mapsto> y)) s)"
    if "asm_assemblyId y = asm_assemblyId x" "asm_pAppDomainInfo y = asm_pAppDomainInfo x" for y
    using loaded_ok_assembly [OF s] that by blast
  have d: "defined (f key)" if "rt_StrongNameToken e = Some f" for f key using e that by (auto simp: well_behaved_def)
  have "wp (case rt_StrongNameToken e of None \<Rightarrow> fail E_FAIL | Some f \<Rightarrow> (case f key of
      Ok token \<Rightarrow> setAssembly a (x\<lparr> asm_publicKeyTokenInitialized := True, asm_bstrPublicKeyToken := Some (tokenString token) \<rparr>)
    | Fail hr \<Rightarrow> fail E_FAIL | r \<Rightarrow> liftR (bindR r (\<lambda>_. Ok ())))) (\<lambda>_. loaded_ok e) (loaded_ok e)
    (r_assemblies_update (\<lambda>h. h(a \<mapsto> x\<lparr> asm_publicKeyTokenInitialized := True \<rparr>)) s)" for key
  proof (cases "rt_StrongNameToken e")
    case (Some f)
    then show ?thesis using d [OF Some, of key] k by (cases "f key") (simp_all add: defined_def comp_def)
  qed (simp add: k)
  then show ?thesis using s k by (simp add: InitializePublicKeyToken_def Let_def)
qed

lemma wp_HandleManifestModuleLoad:
  assumes e: "well_behaved e" and s: "loaded_ok e s" "r_assemblies s a = Some x" "asm_pManifestModule x = Some m" "r_modules s m = Some y"
  shows "wp (HandleManifestModuleLoad e a) (\<lambda>_. loaded_ok e) (loaded_ok e) s"
proof -
  have k: "loaded_ok e (r_assemblies_update (\<lambda>h. h(a \<mapsto> z)) s)"
    if "asm_assemblyId z = asm_assemblyId x" "asm_pAppDomainInfo z = asm_pAppDomainInfo x" for z
    using loaded_ok_assembly [OF s(1,2)] that by blast
  have d: "defined (rt_GetAssemblyFromScope e i)" "defined (rt_GetAssemblyProps e i tk)" for i tk using e by (auto simp: well_behaved_def)
  have i: "wp (InitializePublicKeyToken e a) (\<lambda>_. loaded_ok e) (loaded_ok e) (r_assemblies_update (\<lambda>h. h(a \<mapsto> z)) s)"
    if "asm_assemblyId z = asm_assemblyId x" "asm_pAppDomainInfo z = asm_pAppDomainInfo x" for z
    by (rule wp_InitializePublicKeyToken [OF e k [OF that]]) simp
  show ?thesis using s k i
    by (simp add: HandleManifestModuleLoad_def wp_liftR [OF d(1)] wp_liftR [OF d(2)] comp_def split: result.splits)
qed


lemma wp_Assembly_AddModuleInfo:
  assumes e: "well_behaved e" and s: "loaded_ok e s" "r_assemblies s a = Some x" "r_modules s m = Some y"
  shows "wp (Assembly_AddModuleInfo e a m) (\<lambda>_. loaded_ok e) (loaded_ok e) s"
proof -
  have k: "loaded_ok e (r_assemblies_update (\<lambda>h. h(a \<mapsto> z)) s)"
    if "asm_assemblyId z = asm_assemblyId x" "asm_pAppDomainInfo z = asm_pAppDomainInfo x" for z
    using loaded_ok_assembly [OF s(1,2)] that by blast
  have h: "wp (HandleManifestModuleLoad e a) (\<lambda>_. loaded_ok e) (loaded_ok e) (r_assemblies_update (\<lambda>h. h(a \<mapsto> z)) s)"
    if "asm_assemblyId z = asm_assemblyId x" "asm_pAppDomainInfo z = asm_pAppDomainInfo x" "asm_pManifestModule z = Some m" for z
    by (rule wp_HandleManifestModuleLoad [OF e k [OF that(1,2)] _ that(3)]) (simp_all add: s(3))
  show ?thesis using s k h by (simp add: Assembly_AddModuleInfo_def Let_def)
qed

text \<open>A new module of an existing assembly enters an existing domain.\<close>

lemma loaded_ok_add_module:
  assumes s: "loaded_ok e s" and d: "r_domains s p = Some d" and y: "mod_pAppDomainInfo y = Some p" "mod_pAssemblyInfo y = Some a"
    "r_assemblies s a \<noteq> None" "moduleDomain e (mod_moduleID y) = Some (dom_appDomainId d)"
  shows "loaded_ok e (r_domains_update (\<lambda>h. h(p \<mapsto> d\<lparr> dom_moduleInfos := umap_set (mod_moduleID y) (r_next s) (dom_moduleInfos d) \<rparr>))
    (r_modules_update (\<lambda>h. h(r_next s \<mapsto> y)) (r_next_update Suc s)))"
proof -
  let ?t = "r_modules_update (\<lambda>h. h(r_next s \<mapsto> y)) (r_next_update Suc s)"
  have t: "loaded_ok e ?t" by (rule loaded_ok_new_module [OF s])
  have m: "module_in e ?t p (dom_appDomainId d) (mod_moduleID y) (r_next s)" using y by (simp add: module_in_def)
  have p: "r_domains ?t p = Some d" using d by simp
  show ?thesis by (rule loaded_ok_domain [OF t p domain_ok_add_module [OF loaded_okD(4) [OF t p] m]]) simp
qed

lemma Module_Initialize_Ok:
  "Module_Initialize e i path a p = Ok y \<Longrightarrow> mod_moduleID y = i \<and> mod_pAssemblyInfo y = Some a \<and> mod_pAppDomainInfo y = Some p"
  by (auto simp: Module_Initialize_def bindR_Ok_iff)

lemma defined_Module_Initialize: "well_behaved e \<Longrightarrow> defined (Module_Initialize e i path a p)"
proof -
  assume "well_behaved e"
  then have "defined (rt_GetScopeProps e i)" "defined (rt_readModule e i)" by (auto simp: well_behaved_def)
  then show ?thesis by (cases "rt_GetScopeProps e i"; cases "rt_readModule e i") (simp_all add: Module_Initialize_def defined_def)
qed

lemma wp_registerModule:
  assumes e: "well_behaved e" and s: "loaded_ok e s" "isDomain s k p" "r_assemblies s a \<noteq> None" and k: "moduleDomain e i = Some k"
  shows "wp (liftR (Module_Initialize e i path a p)) (\<lambda>y. wp (IfFailRet allocate (\<lambda>m. IfFailRet (setModule m y) (\<lambda>_.
     IfFailRet (Domain_AddModuleInfo p m) (\<lambda>_. IfFailRet (Assembly_AddModuleInfo e a m) (\<lambda>_. ret m)))))
     (\<lambda>_. loaded_ok e) (loaded_ok e)) (loaded_ok e) s"
proof (cases "Module_Initialize e i path a p")
  case (Ok y)
  note y = Module_Initialize_Ok [OF Ok]
  obtain d where d: "r_domains s p = Some d" "dom_appDomainId d = k" using s(2) by (auto simp: isDomain_def)
  let ?t = "r_domains_update (\<lambda>h. h(p \<mapsto> d\<lparr> dom_moduleInfos := umap_set i (r_next s) (dom_moduleInfos d) \<rparr>))
    (r_modules_update (\<lambda>h. h(r_next s \<mapsto> y)) (r_next_update Suc s))"
  have t: "loaded_ok e ?t" using loaded_ok_add_module [OF s(1) d(1), of y a] y s(3) d(2) k by simp
  obtain x where x: "r_assemblies s a = Some x" using s(3) by auto
  have "wp (Assembly_AddModuleInfo e a (r_next s)) (\<lambda>_. loaded_ok e) (loaded_ok e) ?t"
    by (rule wp_Assembly_AddModuleInfo [OF e t]) (simp_all add: x)
  then show ?thesis using d(1) y by (simp add: Ok Domain_AddModuleInfo_def)
next
  case (Fail hr)
  then show ?thesis using s(1) by simp
qed (use defined_Module_Initialize [OF e, of i path a p] in \<open>simp_all add: defined_def\<close>)

lemma wp_ConstructModuleInfo:
  assumes e: "well_behaved e" and s: "loaded_ok e s"
  shows "wp (ConstructModuleInfo e i) (\<lambda>_. loaded_ok e) (loaded_ok e) s"
proof (cases "rt_GetModuleInfo e i")
  case (Ok r)
  then obtain n j where r: "rt_GetModuleInfo e i = Ok (n, j)" by (cases r) auto
  define path where "path = takeWhile (\<lambda>c. c \<noteq> 0) n"
  have path: "assignBSTR n = Ok (Some path)" using well_behavedD(3) [OF e r] by (simp add: assignBSTR_terminated path_def)
  have d: "defined (rt_metaDataImport e i)" using e by (auto simp: well_behaved_def)
  have *: "wp (ensureDomain k) (\<lambda>p. wp (IfFailRet (ensureAssembly e j) (\<lambda>a. IfFailRet (liftR (Module_Initialize e i path a p)) (\<lambda>y.
     IfFailRet allocate (\<lambda>m. IfFailRet (setModule m y) (\<lambda>_. IfFailRet (Domain_AddModuleInfo p m) (\<lambda>_.
     IfFailRet (Assembly_AddModuleInfo e a m) (\<lambda>_. ret m))))))) (\<lambda>_. loaded_ok e) (loaded_ok e)) (loaded_ok e) s"
    if k: "moduleDomain e i = Some k" for k
  proof (rule wp_mono [OF wp_ensureDomain [OF s]])
    fix p t assume t: "loaded_ok e t \<and> isDomain t k p"
    have "wp (ensureAssembly e j) (\<lambda>a u. loaded_ok e u \<and> r_assemblies u a \<noteq> None \<and> extends t u) (loaded_ok e) t"
      using wp_ensureAssembly [OF e] t by blast
    then show "wp (IfFailRet (ensureAssembly e j) (\<lambda>a. IfFailRet (liftR (Module_Initialize e i path a p)) (\<lambda>y.
     IfFailRet allocate (\<lambda>m. IfFailRet (setModule m y) (\<lambda>_. IfFailRet (Domain_AddModuleInfo p m) (\<lambda>_.
     IfFailRet (Assembly_AddModuleInfo e a m) (\<lambda>_. ret m))))))) (\<lambda>_. loaded_ok e) (loaded_ok e) t"
    proof (subst wp_IfFailRet, elim wp_mono)
      fix a u assume u: "loaded_ok e u \<and> r_assemblies u a \<noteq> None \<and> extends t u"
      then have "isDomain u k p" using t by (force simp: isDomain_def extends_def)
      then show "wp (IfFailRet (liftR (Module_Initialize e i path a p)) (\<lambda>y.
        IfFailRet allocate (\<lambda>m. IfFailRet (setModule m y) (\<lambda>_. IfFailRet (Domain_AddModuleInfo p m) (\<lambda>_.
        IfFailRet (Assembly_AddModuleInfo e a m) (\<lambda>_. ret m)))))) (\<lambda>_. loaded_ok e) (loaded_ok e) u"
        using wp_registerModule [OF e _ _ _ k, of u p a path] u by (auto simp only: wp_IfFailRet)
    qed
  qed
  show ?thesis
  proof (cases "rt_GetAssemblyInfo e j")
    case (Ok q)
    then obtain nm k mm where q: "rt_GetAssemblyInfo e j = Ok (nm, k, mm)" by (cases q) auto
    have "moduleDomain e i = Some k" using r q by (simp add: moduleDomain_def assemblyDomain_def)
    from * [OF this] show ?thesis using s
      by (simp add: ConstructModuleInfo_def r q path wp_liftR [OF d] split: result.splits)
  next
    case (Fail hr)
    then show ?thesis using s by (simp add: ConstructModuleInfo_def r wp_liftR [OF d] split: result.splits)
  qed (use well_behavedD(2) [OF e, of j] in \<open>simp_all add: defined_def\<close>)
next
  case (Fail hr)
  then show ?thesis using s by (simp add: ConstructModuleInfo_def)
qed (use well_behavedD(4) [OF e, of i] in \<open>simp_all add: defined_def\<close>)

section \<open>Unloading\<close>

definition withoutModule :: "addr \<Rightarrow> CModuleInfo \<Rightarrow> addr \<Rightarrow> CAssemblyInfo \<Rightarrow> addr \<Rightarrow> CAppDomainInfo \<Rightarrow> runtime \<Rightarrow> runtime" where
  "withoutModule m y a x p d s =
     r_modules_update (\<lambda>h. h(m \<mapsto> y\<lparr> mod_pAssemblyInfo := None, mod_pAppDomainInfo := None \<rparr>))
      (r_domains_update (\<lambda>h. h(p \<mapsto> d\<lparr> dom_moduleInfos := umap_erase (mod_moduleID y) (dom_moduleInfos d) \<rparr>))
       (r_assemblies_update (\<lambda>h. h(a \<mapsto> x\<lparr> asm_moduleInfos := umap_erase (mod_moduleID y) (asm_moduleInfos x) \<rparr>)) s))"

lemma removeModule_exec:
  assumes "r_modules s m = Some y" and "mod_pAssemblyInfo y = Some a" and "r_assemblies s a = Some x"
    and "mod_pAppDomainInfo y = Some p" and "r_domains s p = Some d"
  shows "removeModule m s = (Ok (), withoutModule m y a x p d s)"
  using assms by (simp add: removeModule_def Assembly_ModuleInfoUnloaded_def Domain_ModuleInfoUnloaded_def Module_Dispose_def
      moduleAt_def assemblyAt_def domainAt_def setModule_def setAssembly_def setDomain_def op_defs IfFailRet_def withoutModule_def)

lemma loaded_ok_withoutModule:
  assumes s: "loaded_ok e s" and y: "r_modules s m = Some y" "mod_pAppDomainInfo y = Some p"
    and x: "r_assemblies s a = Some x" and d: "r_domains s p = Some d"
  shows "loaded_ok e (withoutModule m y a x p d s)"
proof -
  let ?u = "r_assemblies_update (\<lambda>h. h(a \<mapsto> x\<lparr> asm_moduleInfos := umap_erase (mod_moduleID y) (asm_moduleInfos x) \<rparr>)) s"
  let ?d = "d\<lparr> dom_moduleInfos := umap_erase (mod_moduleID y) (dom_moduleInfos d) \<rparr>"
  let ?v = "r_domains_update (\<lambda>h. h(p \<mapsto> ?d)) ?u"
  have u: "loaded_ok e ?u" by (rule loaded_ok_assembly [OF s x]) simp_all
  have p: "r_domains ?u p = Some d" using d by simp
  have v: "loaded_ok e ?v" by (rule loaded_ok_domain [OF u p domain_ok_erase(2) [OF loaded_okD(4) [OF u p]]]) simp
  have "(i, m) \<notin> set (dom_moduleInfos c)" if c: "r_domains ?v q = Some c" for q c i
  proof
    assume i: "(i, m) \<in> set (dom_moduleInfos c)"
    then have "module_in e ?v q (dom_appDomainId c) i m" using loaded_okD(4) [OF v c] by (simp add: domain_ok_def)
    then have "q = p" "i = mod_moduleID y" using y by (auto simp: module_in_def)
    then show False using c i by (auto simp: umap_erase_mem)
  qed
  then show ?thesis unfolding withoutModule_def by (intro loaded_ok_disposed [OF v]) (use y(1) in auto)
qed

text \<open>Unloading does not take domains out of the store.\<close>

definition loaded_with :: "runtimeEnv \<Rightarrow> addr set \<Rightarrow> runtime \<Rightarrow> bool" where
  "loaded_with e D s \<longleftrightarrow> loaded_ok e s \<and> (\<forall>p \<in> D. r_domains s p \<noteq> None)"

lemma loaded_with_simps [simp]:
  "loaded_with e {} = loaded_ok e" "loaded_with e D (sentAll e' ev s) = loaded_with e D s" "loaded_with e D (sentRaw e' rw s) = loaded_with e D s"
  by (simp_all add: loaded_with_def fun_eq_iff)

lemma loaded_withD: "loaded_with e D s \<Longrightarrow> loaded_ok e s"
  by (simp add: loaded_with_def)

lemma wp_ModuleUnloads:
  assumes e: "well_behaved e" and s: "loaded_with e D s"
  shows "wp (ModuleUnloadStartedImpl e i) (\<lambda>_. loaded_with e D) (loaded_with e D) s"
    "wp (ModuleUnloadFinishedImpl e i hr) (\<lambda>_. loaded_with e D) (loaded_with e D) s"
proof -
  have r: "wp (removeModule m) (\<lambda>_. loaded_with e D) (loaded_with e D) t"
    if t: "loaded_with e D t" "tracked dom_moduleInfos t i p m" for m p t
  proof -
    obtain d y a x where *: "r_domains t p = Some d" "r_modules t m = Some y" "mod_pAppDomainInfo y = Some p"
      "mod_pAssemblyInfo y = Some a" "r_assemblies t a = Some x" using tracked_module [OF loaded_withD [OF t(1)] t(2)] by metis
    have "loaded_with e D (withoutModule m y a x p d t)"
      using loaded_ok_withoutModule [OF loaded_withD [OF t(1)] *(2,3,5,1)] t(1) by (auto simp: loaded_with_def withoutModule_def)
    then show ?thesis by (simp add: wp_def removeModule_exec [OF *(2,4,5,3,1)])
  qed
  have f: "wp (SendEventToInstrumentationMethods e (OnModuleUnloaded m)) (\<lambda>_ t. wp (removeModule m) (\<lambda>_. loaded_with e D) (loaded_with e D) (sentRaw e rw t))
      (loaded_with e D) s" if m: "tracked dom_moduleInfos s i p m" for p m rw
    by (rule wp_Send) (use r [of "sentRaw e rw (sentAll e (OnModuleUnloaded m) s)" p m] m s in \<open>simp_all add: tracked_def\<close>)
  show "wp (ModuleUnloadStartedImpl e i) (\<lambda>_. loaded_with e D) (loaded_with e D) s"
    using wp_lookups(2) [OF e loaded_withD [OF s], of i "\<lambda>m. wp (SendEventToRawProfilerCallback e (Raw_ModuleUnloadStarted i)) (\<lambda>_. loaded_with e D) (loaded_with e D)"
      "loaded_with e D"] s by (simp add: ModuleUnloadStartedImpl_def)
  show "wp (ModuleUnloadFinishedImpl e i hr) (\<lambda>_. loaded_with e D) (loaded_with e D) s"
    using wp_lookups(2) [OF e loaded_withD [OF s], of i "\<lambda>m. wp (SendEventToInstrumentationMethods e (OnModuleUnloaded m)) (\<lambda>_ t.
      wp (removeModule m) (\<lambda>_. loaded_with e D) (loaded_with e D) (sentRaw e (Raw_ModuleUnloadFinished i hr) t)) (loaded_with e D)" "loaded_with e D"] s f
    by (simp add: ModuleUnloadFinishedImpl_def)
qed

lemma AssemblyInfoUnloaded_exec:
  assumes "r_assemblies s a = Some x" and "r_domains s p = Some d"
  shows "AssemblyInfoUnloaded p a s =
    (Ok (), r_domains_update (\<lambda>h. h(p \<mapsto> d\<lparr> dom_assemblyInfos := umap_erase (asm_assemblyId x) (dom_assemblyInfos d) \<rparr>)) s)"
  using assms by (simp add: AssemblyInfoUnloaded_def assemblyAt_def domainAt_def setDomain_def op_defs IfFailRet_def)

lemma loaded_ok_withoutAssembly:
  assumes s: "loaded_ok e s" and d: "r_domains s p = Some d"
  shows "loaded_ok e (r_domains_update (\<lambda>h. h(p \<mapsto> d\<lparr> dom_assemblyInfos := umap_erase i (dom_assemblyInfos d) \<rparr>)) s)"
  by (rule loaded_ok_domain [OF s d domain_ok_erase(1) [OF loaded_okD(4) [OF s d]]]) simp

lemma wp_AssemblyUnloads:
  assumes e: "well_behaved e" and s: "loaded_with e D s"
  shows "wp (AssemblyUnloadStartedImpl e i) (\<lambda>_. loaded_with e D) (loaded_with e D) s"
    "wp (AssemblyUnloadFinishedImpl e i hr) (\<lambda>_. loaded_with e D) (loaded_with e D) s"
proof -
  have f: "wp (assemblyAt a) (\<lambda>x. wp (liftR (deref (asm_pAppDomainInfo x))) (\<lambda>p. wp (AssemblyInfoUnloaded p a) (\<lambda>_.
      wp (SendEventToInstrumentationMethods e (OnAssemblyUnloaded a)) (\<lambda>_. loaded_with e D) (loaded_with e D)) (loaded_with e D)) (loaded_with e D)) (loaded_with e D) s"
    if a: "tracked dom_assemblyInfos s i p a" for p a
  proof -
    obtain d x where *: "r_domains s p = Some d" "r_assemblies s a = Some x" "asm_assemblyId x = i" "asm_pAppDomainInfo x = Some p"
      using tracked_assembly [OF loaded_withD [OF s] a] by metis
    have "loaded_with e D (r_domains_update (\<lambda>h. h(p \<mapsto> d\<lparr> dom_assemblyInfos := umap_erase i (dom_assemblyInfos d) \<rparr>)) s)"
      using loaded_ok_withoutAssembly [OF loaded_withD [OF s] *(1), of i] s by (auto simp: loaded_with_def)
    then show ?thesis using *
      by (auto simp: wp_def [of "AssemblyInfoUnloaded p a"] AssemblyInfoUnloaded_exec intro: wp_Send)
  qed
  show "wp (AssemblyUnloadStartedImpl e i) (\<lambda>_. loaded_with e D) (loaded_with e D) s"
    using wp_lookups(1) [OF e loaded_withD [OF s], of i "\<lambda>m. wp (SendEventToRawProfilerCallback e (Raw_AssemblyUnloadStarted i)) (\<lambda>_. loaded_with e D) (loaded_with e D)"
      "loaded_with e D"] s by (simp add: AssemblyUnloadStartedImpl_def)
  have "wp (GetAssemblyInfoById e i) (\<lambda>a. wp (assemblyAt a) (\<lambda>x. wp (liftR (deref (asm_pAppDomainInfo x))) (\<lambda>p. wp (AssemblyInfoUnloaded p a) (\<lambda>_.
      wp (SendEventToInstrumentationMethods e (OnAssemblyUnloaded a)) (\<lambda>_. loaded_with e D) (loaded_with e D)) (loaded_with e D)) (loaded_with e D)) (loaded_with e D))
      (loaded_with e D) s" by (rule wp_lookups(1) [OF e loaded_withD [OF s]]) (rule f, assumption, rule s)
  then show "wp (AssemblyUnloadFinishedImpl e i hr) (\<lambda>_. loaded_with e D) (loaded_with e D) s"
    using s by (simp add: AssemblyUnloadFinishedImpl_def)
qed

section \<open>Every callback keeps the invariant\<close>

lemma wp_unload_all:
  assumes e: "well_behaved e" and s: "loaded_with e D s" and p: "p \<in> D"
  shows "wp (SendFabricatedModuleUnloads e p) (\<lambda>_. loaded_with e D) (loaded_with e D) s"
    "wp (SendFabricatedAssemblyUnloads e p) (\<lambda>_. loaded_with e D) (loaded_with e D) s"
proof -
  have m: "wp (fabricateModuleUnload e i) (\<lambda>_. loaded_with e D) (loaded_with e D) t" if "loaded_with e D t" for i t
    unfolding fabricateModuleUnload_def wp_IfFailRet by (rule wp_mono [OF wp_ModuleUnloads(1) [OF e that]]) (auto intro: wp_ModuleUnloads(2) [OF e])
  have a: "wp (fabricateAssemblyUnload e i) (\<lambda>_. loaded_with e D) (loaded_with e D) t" if "loaded_with e D t" for i t
    unfolding fabricateAssemblyUnload_def wp_IfFailRet by (rule wp_mono [OF wp_AssemblyUnloads(1) [OF e that]]) (auto intro: wp_AssemblyUnloads(2) [OF e])
  obtain d where "r_domains s p = Some d" using s p by (auto simp: loaded_with_def)
  then show "wp (SendFabricatedModuleUnloads e p) (\<lambda>_. loaded_with e D) (loaded_with e D) s"
    "wp (SendFabricatedAssemblyUnloads e p) (\<lambda>_. loaded_with e D) (loaded_with e D) s" using s
    by (auto simp: SendFabricatedModuleUnloads_def GetModuleIds_def SendFabricatedAssemblyUnloads_def GetAssemblyIds_def intro: wp_each m a)
qed

lemma domain_ok_named:
  assumes "domain_ok e s p d" and "dom_assemblyInfos d' = dom_assemblyInfos d" and "dom_moduleInfos d' = dom_moduleInfos d"
    and "dom_appDomainId d' = dom_appDomainId d"
  shows "domain_ok e s p d'"
  using assms by (simp add: domain_ok_def)

lemma classifyDomain_simps [simp]:
  "dom_assemblyInfos (classifyDomain w n d) = dom_assemblyInfos d" "dom_moduleInfos (classifyDomain w n d) = dom_moduleInfos d"
  "dom_appDomainId (classifyDomain w n d) = dom_appDomainId d"
  by (simp_all add: classifyDomain_def)

lemma wp_FinishInitialization:
  assumes e: "well_behaved e" and s: "loaded_ok e s" "r_domains s p = Some d"
  shows "wp (FinishInitialization e p) (\<lambda>_ t. loaded_ok e t) (loaded_ok e) s"
proof -
  have k: "loaded_ok e (r_domains_update (\<lambda>h. h(p \<mapsto> c)) s)"
    if "dom_assemblyInfos c = dom_assemblyInfos d" "dom_moduleInfos c = dom_moduleInfos d" "dom_appDomainId c = dom_appDomainId d" for c
    by (rule loaded_ok_domain [OF s domain_ok_named [OF loaded_okD(4) [OF s] that] that(3)])
  have z: "0 \<in> set n" if "rt_GetAppDomainInfo e (Suc 0) (dom_appDomainId d) = Ok n" "length n = length u" "u \<noteq> []" for n u
    using well_behavedD(5) [OF e that(1)] that(2,3) by auto
  have w: "defined (rt_GetAppDomainInfo e j i)" for j i by (rule well_behavedD(6) [OF e])
  show ?thesis using s w [of 0 "dom_appDomainId d"] w [of 1 "dom_appDomainId d"]
    by (cases "rt_GetAppDomainInfo e 0 (dom_appDomainId d)"; cases "rt_GetAppDomainInfo e 1 (dom_appDomainId d)")
      (auto simp: FinishInitialization_def Let_def defined_def k assignBSTR_terminated dest: z)
qed

lemma wp_AppDomainShutdownFinished:
  assumes e: "well_behaved e" and s: "loaded_ok e s"
  shows "wp (AppDomainShutdownFinished e k hr) (\<lambda>_. loaded_ok e) (loaded_ok e) s"
proof -
  have send: "wp (SendEventToInstrumentationMethods e ev) (\<lambda>_. wp (RemoveAppDomainInfo k) (\<lambda>_. loaded_ok e) (loaded_ok e)) (loaded_ok e) t"
    if "loaded_ok e t" for ev t
    by (rule wp_Send) (use loaded_ok_remove_domain [of e "sentAll e ev t" k] that in \<open>auto simp: RemoveAppDomainInfo_def split: option.splits\<close>)
  have asm: "wp (SendFabricatedAssemblyUnloads e p) (\<lambda>_. wp (SendEventToInstrumentationMethods e ev)
      (\<lambda>_. wp (RemoveAppDomainInfo k) (\<lambda>_. loaded_ok e) (loaded_ok e)) (loaded_ok e))
      (wp (SendEventToInstrumentationMethods e ev) (\<lambda>_. wp (RemoveAppDomainInfo k) (\<lambda>_. loaded_ok e) (loaded_ok e)) (loaded_ok e)) t"
    if "loaded_with e {p} t" for p t ev
    by (rule wp_mono [OF wp_unload_all(2) [OF e that]]) (auto intro: send loaded_withD)
  define after where "after p = wp (SendEventToInstrumentationMethods e (OnAppDomainShutdown p))
    (\<lambda>_. wp (RemoveAppDomainInfo k) (\<lambda>_. loaded_ok e) (loaded_ok e)) (loaded_ok e)" for p
  have "wp (GetAppDomainById k) (\<lambda>p. wp (SendFabricatedModuleUnloads e p) (\<lambda>_. wp (SendFabricatedAssemblyUnloads e p) (\<lambda>_. after p) (after p))
      (wp (SendFabricatedAssemblyUnloads e p) (\<lambda>_. after p) (after p))) (loaded_ok e) s"
  proof (rule wp_GetAppDomainById [OF s])
    fix p d assume "r_domains s p = Some d"
    then have "loaded_with e {p} s" using s by (simp add: loaded_with_def)
    from wp_unload_all(1) [OF e this]
    show "wp (SendFabricatedModuleUnloads e p) (\<lambda>_. wp (SendFabricatedAssemblyUnloads e p) (\<lambda>_. after p) (after p))
      (wp (SendFabricatedAssemblyUnloads e p) (\<lambda>_. after p) (after p)) s" by (rule wp_mono) (auto simp: after_def intro: asm)
  qed (rule s)
  then show ?thesis using s by (simp add: AppDomainShutdownFinished_def after_def)
qed

lemma deliver_ok:
  assumes e: "well_behaved e" and s: "loaded_ok e s"
  shows "wp (deliver e c) (\<lambda>_. loaded_ok e) (loaded_ok e) s"
proof (cases c)
  case (CB_AppDomainCreationStarted k)
  then show ?thesis using s wp_mono [OF wp_ensureDomain [OF s, of k], of "\<lambda>_. loaded_ok e" "loaded_ok e"]
    by (simp add: AppDomainCreationStarted_def)
next
  case (CB_AppDomainCreationFinished k hr)
  have "wp (GetAppDomainById k) (\<lambda>p. wp (FinishInitialization e p) (\<lambda>_. wp (SendEventToInstrumentationMethods e (OnAppDomainCreated p))
      (\<lambda>_. loaded_ok e) (loaded_ok e)) (loaded_ok e)) (loaded_ok e) s"
  proof (rule wp_GetAppDomainById [OF s])
    fix p d assume "r_domains s p = Some d"
    from wp_FinishInitialization [OF e s this]
    show "wp (FinishInitialization e p) (\<lambda>_. wp (SendEventToInstrumentationMethods e (OnAppDomainCreated p))
      (\<lambda>_. loaded_ok e) (loaded_ok e)) (loaded_ok e) s" by (rule wp_mono) (auto intro: wp_Send)
  qed (rule s)
  then show ?thesis using s CB_AppDomainCreationFinished by (simp add: AppDomainCreationFinished_def)
next
  case (CB_AppDomainShutdownFinished k hr)
  then show ?thesis using wp_AppDomainShutdownFinished [OF e s] by simp
next
  case (CB_AssemblyLoadFinished i hr)
  have "wp (ensureAssembly e i) (\<lambda>a. wp (SendEventToInstrumentationMethods e (OnAssemblyLoaded a)) (\<lambda>_. loaded_ok e) (loaded_ok e)) (loaded_ok e) s"
    by (rule wp_mono [OF wp_ensureAssembly [OF e s]]) (auto intro: wp_Send)
  then show ?thesis using s CB_AssemblyLoadFinished by (simp add: AssemblyLoadFinished_def)
next
  case (CB_ModuleAttachedToAssembly i a)
  have "wp (ConstructModuleInfo e i) (\<lambda>m. wp (SendEventToInstrumentationMethods e (OnModuleLoaded m)) (\<lambda>_. loaded_ok e) (loaded_ok e)) (loaded_ok e) s"
    by (rule wp_mono [OF wp_ConstructModuleInfo [OF e s]]) (auto intro: wp_Send)
  then show ?thesis using s CB_ModuleAttachedToAssembly by (simp add: ModuleAttachedToAssembly_def)
qed (use s wp_ModuleUnloads [OF e, of "{}" s] wp_AssemblyUnloads [OF e, of "{}" s] in
    \<open>simp_all add: AppDomainShutdownStarted_def AssemblyLoadStarted_def ModuleLoadStarted_def ModuleLoadFinished_def\<close>)

end
