(* ===== verification/RuntimeClaims.thy ===== *)
theory RuntimeClaims
  imports RuntimeInv
begin

text \<open>
  What the callbacks of the runtime achieve: the objects stay consistent, the shutdown of a domain unloads everything in
  it once and in order, and the unload events the runtime sends later are ignored.
\<close>

section \<open>Sequences of callbacks\<close>

definition new_runtime :: runtime where
  "new_runtime = \<lparr> m_appDomains = [], r_domains = (\<lambda>_. None), r_assemblies = (\<lambda>_. None), r_modules = (\<lambda>_. None), r_next = 0, r_sent = [] \<rparr>"

fun deliverAll :: "runtimeEnv \<Rightarrow> callback list \<Rightarrow> runtime \<Rightarrow> runtime" where
  "deliverAll e [] s = s"
| "deliverAll e (c # cs) s = deliverAll e cs (snd (deliver e c s))"

lemma loaded_ok_new: "loaded_ok e new_runtime"
  by (rule loaded_okI) (auto simp: new_runtime_def fresh_above_def)

lemma deliver_cases:
  assumes "well_behaved e" and "loaded_ok e s"
  shows "loaded_ok e (snd (deliver e c s))" "defined (fst (deliver e c s))"
  using deliver_ok [OF assms, of c] by (auto simp: wp_def defined_def split: prod.splits result.splits)

lemma deliverAll_ok: "well_behaved e \<Longrightarrow> loaded_ok e s \<Longrightarrow> loaded_ok e (deliverAll e cs s)"
  by (induction cs arbitrary: s) (auto intro: deliver_cases)

section \<open>Finding what is loaded\<close>

lemma wp_exact:
  assumes "wp m (\<lambda>x t. x = v \<and> t = s) (\<lambda>_. False) s"
  shows "m s = (Ok v, s)"
  using assms by (auto simp: wp_def split: prod.splits result.splits)

lemma wp_exact_fail:
  assumes "wp m (\<lambda>x t. False) (\<lambda>t. t = s) s"
  obtains hr where "m s = (Fail hr, s)"
  using assms by (auto simp: wp_def split: prod.splits result.splits)

lemma keys_unique: "distinct (map fst m) \<Longrightarrow> (k, v) \<in> set m \<Longrightarrow> (k, w) \<in> set m \<Longrightarrow> v = w"
  by (metis map_of_eq_Some_iff option.inject)

text \<open>The runtime gives every module and assembly one domain, so at most one object is tracked for an identifier.\<close>

lemma tracked_unique:
  assumes s: "loaded_ok e s" and f: "\<And>p d. domain_ok e s p d \<Longrightarrow> distinct (map fst (f d))"
    and g: "\<And>p d i x. domain_ok e s p d \<Longrightarrow> (i, x) \<in> set (f d) \<Longrightarrow> g i = Some (dom_appDomainId d)"
    and "tracked f s i p m" "tracked f s i q n"
  shows "p = q \<and> m = n"
proof -
  obtain k d where d: "(k, p) \<in> set (m_appDomains s)" "r_domains s p = Some d" "(i, m) \<in> set (f d)" using assms(4) by (auto simp: tracked_def)
  obtain l c where c: "(l, q) \<in> set (m_appDomains s)" "r_domains s q = Some c" "(i, n) \<in> set (f c)" using assms(5) by (auto simp: tracked_def)
  have "k = dom_appDomainId d" "l = dom_appDomainId c" using loaded_okD(3) [OF s] c(1,2) d(1,2) by fastforce+
  moreover have "g i = Some (dom_appDomainId d)" "g i = Some (dom_appDomainId c)"
    using g [OF loaded_okD(4) [OF s d(2)] d(3)] g [OF loaded_okD(4) [OF s c(2)] c(3)] by simp_all
  ultimately have "k = l" by simp
  then have "p = q" using keys_unique [OF loaded_okD(2) [OF s], of k p q] c(1) d(1) by simp
  then have "(i, n) \<in> set (f d)" using c(2,3) d(2) by simp
  with \<open>p = q\<close> show ?thesis using keys_unique [OF f [OF loaded_okD(4) [OF s d(2)]], of i m n] d(3) by simp
qed

lemma tracked_module_unique:
  "loaded_ok e s \<Longrightarrow> tracked dom_moduleInfos s i p m \<Longrightarrow> tracked dom_moduleInfos s i q n \<Longrightarrow> p = q \<and> m = n"
  by (rule tracked_unique [where f = dom_moduleInfos and g = "moduleDomain e"]) (auto simp: domain_ok_def module_in_def)

lemma tracked_assembly_unique:
  "loaded_ok e s \<Longrightarrow> tracked dom_assemblyInfos s i p m \<Longrightarrow> tracked dom_assemblyInfos s i q n \<Longrightarrow> p = q \<and> m = n"
  by (rule tracked_unique [where f = dom_assemblyInfos and g = "assemblyDomain e"]) (auto simp: domain_ok_def assembly_in_def)

lemma GetModuleInfoById_exec:
  assumes "well_behaved e" and "loaded_ok e s" and "tracked dom_moduleInfos s i p m"
  shows "GetModuleInfoById e i s = (Ok m, s)"
  by (rule wp_exact, rule wp_lookups(2) [OF assms(1,2)]) (use tracked_module_unique [OF assms(2,3)] assms(3) in blast)+

lemma GetAssemblyInfoById_exec:
  assumes "well_behaved e" and "loaded_ok e s" and "tracked dom_assemblyInfos s i p m"
  shows "GetAssemblyInfoById e i s = (Ok m, s)"
  by (rule wp_exact, rule wp_lookups(1) [OF assms(1,2)]) (use tracked_assembly_unique [OF assms(2,3)] assms(3) in blast)+

section \<open>One unload\<close>

definition toAll :: "runtimeEnv \<Rightarrow> methodEvent \<Rightarrow> sentEvent list" where
  "toAll e ev = map (\<lambda>j. Sent j ev) [0..<length (rt_methods e)]"

fun isNotice :: "sentEvent \<Rightarrow> bool" where
  "isNotice (Sent j ev) = True"
| "isNotice (SentRaw ev) = False"

text \<open>What the instrumentation methods were told.\<close>

definition notices :: "runtime \<Rightarrow> sentEvent list" where
  "notices s = filter isNotice (r_sent s)"

lemma notices_sent [simp]: "notices (sentAll e ev s) = notices s @ toAll e ev" "notices (sentRaw e rw s) = notices s"
  by (simp_all add: notices_def sentAll_def sentRaw_def toAll_def filter_map comp_def)

lemma notices_store [simp]: "notices (r_domains_update f s) = notices s" "notices (withoutModule m y a x p d s) = notices s"
  "notices (m_appDomains_update g s) = notices s"
  by (simp_all add: notices_def withoutModule_def)

lemma Send_succeeds: "methods_succeed e \<Longrightarrow> SendEventToInstrumentationMethods e ev s = (Ok (), sentAll e ev s)"
  using Send_exec [of e ev s] by auto

lemma SendRaw_exec: "SendEventToRawProfilerCallback e rw s = (Ok (), sentRaw e rw s)"
  by (simp add: SendEventToRawProfilerCallback_def sentRaw_def op_defs)

lemma tracked_sent [simp]: "tracked f (sentAll e ev s) = tracked f s" "tracked f (sentRaw e rw s) = tracked f s"
  by (simp_all add: tracked_def fun_eq_iff)

lemma fabricateModuleUnload_exec:
  assumes e: "well_behaved e" "\<not> rt_net20 e" "methods_succeed e" and s: "loaded_ok e s"
    and p: "(k, p) \<in> set (m_appDomains s)" "r_domains s p = Some d" and m: "(i, m) \<in> set (dom_moduleInfos d)"
  shows "\<exists>t. fabricateModuleUnload e i s = (Ok (), t) \<and> loaded_ok e t \<and> m_appDomains t = m_appDomains s \<and>
    r_domains t p = Some (d\<lparr> dom_moduleInfos := umap_erase i (dom_moduleInfos d) \<rparr>) \<and> notices t = notices s @ toAll e (OnModuleUnloaded m)"
proof -
  have tr: "tracked dom_moduleInfos s i p m" using p m by (auto simp: tracked_def)
  obtain y a x where y: "r_modules s m = Some y" "mod_moduleID y = i" "mod_pAppDomainInfo y = Some p" "mod_pAssemblyInfo y = Some a"
    "r_assemblies s a = Some x" using tracked_module [OF s tr] by metis
  let ?u = "sentRaw e (Raw_ModuleUnloadStarted i) s"
  let ?v = "sentRaw e (Raw_ModuleUnloadFinished i S_OK) (sentAll e (OnModuleUnloaded m) ?u)"
  have v: "r_modules ?v m = Some y" "r_assemblies ?v a = Some x" "r_domains ?v p = Some d" "loaded_ok e ?v" using y p(2) s by simp_all
  have 1: "ModuleUnloadStartedImpl e i s = (Ok (), ?u)"
    using e(2) GetModuleInfoById_exec [OF e(1) s tr] by (simp add: ModuleUnloadStartedImpl_def SendRaw_exec)
  have "GetModuleInfoById e i ?u = (Ok m, ?u)" by (rule GetModuleInfoById_exec [OF e(1)]) (use s tr in simp_all)
  then have 2: "ModuleUnloadFinishedImpl e i S_OK ?u = (Ok (), withoutModule m y a x p d ?v)"
    using e(2) by (simp add: ModuleUnloadFinishedImpl_def Send_succeeds [OF e(3)] SendRaw_exec removeModule_exec [OF v(1) y(4) v(2) y(3) v(3)]
      IfFailRet_def)
  have "loaded_ok e (withoutModule m y a x p d ?v)" by (rule loaded_ok_withoutModule [OF v(4,1) y(3) v(2,3)])
  moreover have "m_appDomains (withoutModule m y a x p d ?v) = m_appDomains s"
    "r_domains (withoutModule m y a x p d ?v) p = Some (d\<lparr> dom_moduleInfos := umap_erase i (dom_moduleInfos d) \<rparr>)"
    using y(2) by (simp_all add: withoutModule_def)
  ultimately show ?thesis using 1 2 by (simp add: fabricateModuleUnload_def)
qed

lemma fabricateAssemblyUnload_exec:
  assumes e: "well_behaved e" "\<not> rt_net20 e" "methods_succeed e" and s: "loaded_ok e s"
    and p: "(k, p) \<in> set (m_appDomains s)" "r_domains s p = Some d" and a: "(i, a) \<in> set (dom_assemblyInfos d)"
  shows "\<exists>t. fabricateAssemblyUnload e i s = (Ok (), t) \<and> loaded_ok e t \<and> m_appDomains t = m_appDomains s \<and>
    r_domains t p = Some (d\<lparr> dom_assemblyInfos := umap_erase i (dom_assemblyInfos d) \<rparr>) \<and> notices t = notices s @ toAll e (OnAssemblyUnloaded a)"
proof -
  have tr: "tracked dom_assemblyInfos s i p a" using p a by (auto simp: tracked_def)
  obtain x where x: "r_assemblies s a = Some x" "asm_assemblyId x = i" "asm_pAppDomainInfo x = Some p" using tracked_assembly [OF s tr] by metis
  let ?u = "sentRaw e (Raw_AssemblyUnloadStarted i) s"
  let ?v = "r_domains_update (\<lambda>h. h(p \<mapsto> d\<lparr> dom_assemblyInfos := umap_erase i (dom_assemblyInfos d) \<rparr>)) ?u"
  let ?t = "sentRaw e (Raw_AssemblyUnloadFinished i S_OK) (sentAll e (OnAssemblyUnloaded a) ?v)"
  have u: "loaded_ok e ?u" "r_domains ?u p = Some d" "r_assemblies ?u a = Some x" using s p(2) x(1) by simp_all
  have 1: "AssemblyUnloadStartedImpl e i s = (Ok (), ?u)"
    using e(2) GetAssemblyInfoById_exec [OF e(1) s tr] by (simp add: AssemblyUnloadStartedImpl_def SendRaw_exec)
  have "GetAssemblyInfoById e i ?u = (Ok a, ?u)" by (rule GetAssemblyInfoById_exec [OF e(1)]) (use s tr in simp_all)
  then have 2: "AssemblyUnloadFinishedImpl e i S_OK ?u = (Ok (), ?t)"
    using e(2) u x AssemblyInfoUnloaded_exec [OF u(3,2)]
    by (simp add: AssemblyUnloadFinishedImpl_def Send_succeeds [OF e(3)] SendRaw_exec assemblyAt_def op_defs IfFailRet_def)
  have "loaded_ok e ?v" by (rule loaded_ok_withoutAssembly [OF u(1,2)])
  then show ?thesis using 1 2 by (simp add: fabricateAssemblyUnload_def)
qed

section \<open>All unloads of a domain\<close>

definition client_ready :: "runtimeEnv \<Rightarrow> bool" where
  "client_ready e \<longleftrightarrow> well_behaved e \<and> \<not> rt_net20 e \<and> methods_succeed e"

text \<open>The unloading of one object of a domain: it is taken out of the map of the domain and the clients are told.  What
  follows holds for modules and for assemblies.\<close>

locale unloading =
  fixes unload :: "runtimeEnv \<Rightarrow> ULONGLONG \<Rightarrow> (runtime, unit) op" and infos :: "CAppDomainInfo \<Rightarrow> umap"
    and change :: "(umap \<Rightarrow> umap) \<Rightarrow> CAppDomainInfo \<Rightarrow> CAppDomainInfo" and told :: "addr \<Rightarrow> methodEvent"
  assumes step: "client_ready e \<Longrightarrow> loaded_ok e s \<Longrightarrow> (k, p) \<in> set (m_appDomains s) \<Longrightarrow> r_domains s p = Some d \<Longrightarrow> (i, x) \<in> set (infos d) \<Longrightarrow>
      \<exists>t. unload e i s = (Ok (), t) \<and> loaded_ok e t \<and> m_appDomains t = m_appDomains s \<and>
        r_domains t p = Some (change (umap_erase i) d) \<and> notices t = notices s @ toAll e (told x)"
    and infos_change: "infos (change g d) = g (infos d)"
    and change_change: "change g (change h d) = change (\<lambda>m. g (h m)) d"
    and change_at: "g (infos d) = h (infos d) \<Longrightarrow> change g d = change h d"
    and change_id: "change (\<lambda>m. m) d = d"
begin

lemma loop:
  assumes "client_ready e" and "distinct (map fst ps)"
  shows "loaded_ok e s \<Longrightarrow> (k, p) \<in> set (m_appDomains s) \<Longrightarrow> r_domains s p = Some d \<Longrightarrow> set ps \<subseteq> set (infos d) \<Longrightarrow>
    \<exists>t. each (unload e) (map fst ps) s = (Ok (), t) \<and> loaded_ok e t \<and> m_appDomains t = m_appDomains s \<and>
      r_domains t p = Some (change (filter (\<lambda>q. fst q \<notin> fst ` set ps)) d) \<and>
      notices t = notices s @ concat (map (\<lambda>q. toAll e (told (snd q))) ps)"
  using assms(2)
proof (induction ps arbitrary: s d)
  case Nil
  then show ?case using change_id by (auto simp: op_defs)
next
  case (Cons q ps)
  obtain i x where q: "q = (i, x)" by (cases q)
  obtain t where t: "unload e i s = (Ok (), t)" "loaded_ok e t" "m_appDomains t = m_appDomains s"
    "r_domains t p = Some (change (umap_erase i) d)" "notices t = notices s @ toAll e (told x)"
    using step [OF assms(1) Cons.prems(1-3), of i x] Cons.prems(4) q by auto
  have "set ps \<subseteq> set (infos (change (umap_erase i) d))" using Cons.prems(4,5) q by (force simp: infos_change umap_erase_def)
  then obtain u where u: "each (unload e) (map fst ps) t = (Ok (), u)" "loaded_ok e u" "m_appDomains u = m_appDomains t"
    "r_domains u p = Some (change (filter (\<lambda>q. fst q \<notin> fst ` set ps)) (change (umap_erase i) d))"
    "notices u = notices t @ concat (map (\<lambda>q. toAll e (told (snd q))) ps)"
    using Cons.IH [OF t(2) _ t(4)] Cons.prems(2,5) t(3) by auto
  have "change (filter (\<lambda>q. fst q \<notin> fst ` set ps)) (change (umap_erase i) d) = change (filter (\<lambda>r. fst r \<notin> fst ` set (q # ps))) d"
    by (auto simp: change_change umap_erase_def q conj_commute)
  then show ?case using t u q by auto
qed

text \<open>Unloading everything empties the map.\<close>

lemma all:
  assumes e: "client_ready e" and s: "loaded_ok e s" "(k, p) \<in> set (m_appDomains s)" "r_domains s p = Some d"
    and f: "distinct (map fst (infos d))"
  shows "\<exists>t. each (unload e) (map fst (rt_iterate e (infos d))) s = (Ok (), t) \<and> loaded_ok e t \<and> m_appDomains t = m_appDomains s \<and>
    r_domains t p = Some (change (\<lambda>_. []) d) \<and> notices t = notices s @ concat (map (\<lambda>q. toAll e (told (snd q))) (rt_iterate e (infos d)))"
proof -
  have m: "mset (rt_iterate e (infos d)) = mset (infos d)" using e by (simp add: client_ready_def well_behaved_def)
  then have set_eq: "set (rt_iterate e (infos d)) = set (infos d)" by (rule mset_eq_setD)
  have "distinct (map fst (rt_iterate e (infos d)))" using f m by (metis mset_eq_imp_distinct_iff mset_map)
  moreover have "change (filter (\<lambda>q. fst q \<notin> fst ` set (infos d))) d = change (\<lambda>_. []) d"
  proof -
    have "change (filter (\<lambda>q. fst q \<notin> fst ` set (infos d))) d = change (\<lambda>_. filter (\<lambda>q. fst q \<notin> fst ` set (infos d)) (infos d)) d"
      by (rule change_at) simp
    also have "filter (\<lambda>q. fst q \<notin> fst ` set (infos d)) (infos d) = []" by (simp add: filter_empty_conv)
    finally show ?thesis .
  qed
  ultimately show ?thesis using loop [OF e _ s, of "rt_iterate e (infos d)"] set_eq by simp
qed

end

lemma erase_update:
  "d\<lparr> dom_moduleInfos := umap_erase i (dom_moduleInfos d) \<rparr> = dom_moduleInfos_update (umap_erase i) d"
  "d\<lparr> dom_assemblyInfos := umap_erase i (dom_assemblyInfos d) \<rparr> = dom_assemblyInfos_update (umap_erase i) d"
  by (cases d; simp)+

interpretation modules: unloading fabricateModuleUnload dom_moduleInfos dom_moduleInfos_update OnModuleUnloaded
proof (unfold_locales, goal_cases)
  case (1 e s k p d i x)
  then show ?case using fabricateModuleUnload_exec [of e s k p d i x] by (simp add: client_ready_def erase_update)
qed simp_all

interpretation assemblies: unloading fabricateAssemblyUnload dom_assemblyInfos dom_assemblyInfos_update OnAssemblyUnloaded
proof (unfold_locales, goal_cases)
  case (1 e s k p d i x)
  then show ?case using fabricateAssemblyUnload_exec [of e s k p d i x] by (simp add: client_ready_def erase_update)
qed simp_all

section \<open>Late events\<close>

lemma late_module:
  assumes e: "well_behaved e" "\<not> rt_net20 e" and s: "loaded_ok e s" and i: "moduleDomain e i = Some k" "k \<notin> fst ` set (m_appDomains s)"
  shows "deliver e (CB_ModuleUnloadStarted i) s = (Ok (), s) \<and> deliver e (CB_ModuleUnloadFinished i hr) s = (Ok (), s)"
proof -
  have n: "\<not> tracked dom_moduleInfos s i p m" for p m
  proof
    assume "tracked dom_moduleInfos s i p m"
    then obtain d :: CAppDomainInfo where "(dom_appDomainId d, p) \<in> set (m_appDomains s)" "moduleDomain e i = Some (dom_appDomainId d)"
      by (elim tracked_module [OF s]) blast
    then show False using i by force
  qed
  have "wp (GetModuleInfoById e i) (\<lambda>x t. False) (\<lambda>t. t = s) s" by (rule wp_lookups(2) [OF e(1) s]) (use n in auto)
  then obtain f where "GetModuleInfoById e i s = (Fail f, s)" by (rule wp_exact_fail)
  then show ?thesis using e(2) by (simp add: ModuleUnloadStartedImpl_def ModuleUnloadFinishedImpl_def op_defs)
qed

lemma late_assembly:
  assumes e: "well_behaved e" "\<not> rt_net20 e" and s: "loaded_ok e s" and i: "assemblyDomain e i = Some k" "k \<notin> fst ` set (m_appDomains s)"
  shows "deliver e (CB_AssemblyUnloadStarted i) s = (Ok (), s) \<and> deliver e (CB_AssemblyUnloadFinished i hr) s = (Ok (), s)"
proof -
  have n: "\<not> tracked dom_assemblyInfos s i p m" for p m
  proof
    assume "tracked dom_assemblyInfos s i p m"
    then obtain d :: CAppDomainInfo where "(dom_appDomainId d, p) \<in> set (m_appDomains s)" "assemblyDomain e i = Some (dom_appDomainId d)"
      by (elim tracked_assembly [OF s]) blast
    then show False using i by force
  qed
  have "wp (GetAssemblyInfoById e i) (\<lambda>x t. False) (\<lambda>t. t = s) s" by (rule wp_lookups(1) [OF e(1) s]) (use n in auto)
  then obtain f where "GetAssemblyInfoById e i s = (Fail f, s)" by (rule wp_exact_fail)
  then show ?thesis using e(2) by (simp add: AssemblyUnloadStartedImpl_def AssemblyUnloadFinishedImpl_def op_defs)
qed

section \<open>The claims\<close>

text \<open>C16. Whatever the runtime calls, in whatever order: no callback follows a null or dangling pointer, each returns, and the objects
  stay consistent (what the collection and the domains refer to exists, has the identifier it is filed under and
  refers back to its domain), even when a callback fails halfway.\<close>

theorem callbacks_keep_objects_consistent:
  assumes "well_behaved e"
  shows "loaded_ok e (deliverAll e cs new_runtime) \<and> fst (deliver e c (deliverAll e cs new_runtime)) \<notin> {Undef, Diverge}"
  using deliverAll_ok [OF assms loaded_ok_new, of cs] deliver_cases(2) [OF assms deliverAll_ok [OF assms loaded_ok_new], of c cs]
  by (auto simp: defined_def split: result.splits)

lemma shutdown_exec:
  assumes e: "client_ready e" and s: "loaded_ok e s" and p: "(k, p) \<in> set (m_appDomains s)" "r_domains s p = Some d"
  shows "\<exists>t. AppDomainShutdownFinished e k hr s = (Ok (), t) \<and> loaded_ok e t \<and> k \<notin> fst ` set (m_appDomains t) \<and>
    notices t = notices s @ concat (map (toAll e) (map (\<lambda>q. OnModuleUnloaded (snd q)) (rt_iterate e (dom_moduleInfos d)) @
      map (\<lambda>q. OnAssemblyUnloaded (snd q)) (rt_iterate e (dom_assemblyInfos d)) @ [OnAppDomainShutdown p]))"
proof -
  have f: "distinct (map fst (dom_moduleInfos d))" "distinct (map fst (dom_assemblyInfos d))"
    using loaded_okD(4) [OF s p(2)] by (simp_all add: domain_ok_def)
  have find: "umap_find k (m_appDomains s) = Some p" using loaded_okD(2) [OF s] p(1) by (simp add: umap_find_mem)
  obtain t where t: "each (fabricateModuleUnload e) (map fst (rt_iterate e (dom_moduleInfos d))) s = (Ok (), t)" "loaded_ok e t"
    "m_appDomains t = m_appDomains s" "r_domains t p = Some (d\<lparr> dom_moduleInfos := [] \<rparr>)"
    "notices t = notices s @ concat (map (\<lambda>q. toAll e (OnModuleUnloaded (snd q))) (rt_iterate e (dom_moduleInfos d)))"
    using modules.all [OF e s p f(1)] by auto
  obtain u where u: "each (fabricateAssemblyUnload e) (map fst (rt_iterate e (dom_assemblyInfos d))) t = (Ok (), u)" "loaded_ok e u"
    "m_appDomains u = m_appDomains s"
    "notices u = notices t @ concat (map (\<lambda>q. toAll e (OnAssemblyUnloaded (snd q))) (rt_iterate e (dom_assemblyInfos d)))"
    using assemblies.all [OF e t(2) _ t(4), of k] p(1) t(3) f(2) by auto
  let ?v = "sentAll e (OnAppDomainShutdown p) u"
  have m: "SendFabricatedModuleUnloads e p s = (Ok (), t)" using p(2) t(1)
    by (simp add: SendFabricatedModuleUnloads_def GetModuleIds_def domainAt_def op_defs IfFailRet_def)
  have a: "SendFabricatedAssemblyUnloads e p t = (Ok (), u)" using t(4) u(1)
    by (simp add: SendFabricatedAssemblyUnloads_def GetAssemblyIds_def domainAt_def op_defs IfFailRet_def)
  have r: "RemoveAppDomainInfo k ?v = (Ok (), m_appDomains_update (umap_erase k) ?v)" using find u(3)
    by (simp add: RemoveAppDomainInfo_def op_defs IfFailRet_def)
  have "AppDomainShutdownFinished e k hr s = (Ok (), sentRaw e (Raw_AppDomainShutdownFinished k hr) (m_appDomains_update (umap_erase k) ?v))"
    using e find m a r Send_succeeds [of e "OnAppDomainShutdown p" u]
    by (simp add: AppDomainShutdownFinished_def client_ready_def GetAppDomainById_def SendRaw_exec op_defs IfFailRet_def)
  moreover have "loaded_ok e (m_appDomains_update (umap_erase k) ?v)" using loaded_ok_remove_domain u(2) by simp
  moreover have "k \<notin> fst ` set (umap_erase k (m_appDomains s))" by (auto simp: umap_erase_def)
  ultimately show ?thesis using t(5) u(3,4) by (auto simp: comp_def)
qed

text \<open>C15. When the shutdown of an application domain is finished, the instrumentation methods have been told that each of its
  modules is unloaded, exactly once, then each of its assemblies, then the domain itself; the domain is gone, and the
  unload events that the runtime sends afterwards for its modules and assemblies change nothing and tell nobody.  This
  holds if the instrumentation methods report success.\<close>

theorem shutdown_unloads_once:
  assumes e: "client_ready e" and s: "loaded_ok e s" and p: "(k, p) \<in> set (m_appDomains s)" "r_domains s p = Some d"
  shows "\<exists>t. AppDomainShutdownFinished e k hr s = (Ok (), t) \<and> umap_find k (m_appDomains t) = None \<and>
    notices t = notices s @ concat (map (toAll e) (map (\<lambda>q. OnModuleUnloaded (snd q)) (rt_iterate e (dom_moduleInfos d)) @
      map (\<lambda>q. OnAssemblyUnloaded (snd q)) (rt_iterate e (dom_assemblyInfos d)) @ [OnAppDomainShutdown p])) \<and>
    (\<forall>i m. (i, m) \<in> set (dom_moduleInfos d) \<longrightarrow> deliver e (CB_ModuleUnloadStarted i) t = (Ok (), t) \<and>
      deliver e (CB_ModuleUnloadFinished i hr') t = (Ok (), t)) \<and>
    (\<forall>i a. (i, a) \<in> set (dom_assemblyInfos d) \<longrightarrow> deliver e (CB_AssemblyUnloadStarted i) t = (Ok (), t) \<and>
      deliver e (CB_AssemblyUnloadFinished i hr') t = (Ok (), t))"
proof -
  obtain t where t: "AppDomainShutdownFinished e k hr s = (Ok (), t)" "loaded_ok e t" "k \<notin> fst ` set (m_appDomains t)"
    "notices t = notices s @ concat (map (toAll e) (map (\<lambda>q. OnModuleUnloaded (snd q)) (rt_iterate e (dom_moduleInfos d)) @
      map (\<lambda>q. OnAssemblyUnloaded (snd q)) (rt_iterate e (dom_assemblyInfos d)) @ [OnAppDomainShutdown p]))"
    using shutdown_exec [OF e s p] by blast
  have w: "well_behaved e" "\<not> rt_net20 e" using e by (simp_all add: client_ready_def)
  have k: "dom_appDomainId d = k" using loaded_okD(3) [OF s p(1)] p(2) by simp
  have "moduleDomain e i = Some k" if "(i, m) \<in> set (dom_moduleInfos d)" for i m
    using loaded_okD(4) [OF s p(2)] that k by (auto simp: domain_ok_def module_in_def)
  moreover have "assemblyDomain e i = Some k" if "(i, a) \<in> set (dom_assemblyInfos d)" for i a
    using loaded_okD(4) [OF s p(2)] that k by (auto simp: domain_ok_def assembly_in_def)
  ultimately show ?thesis using t late_module [OF w t(2) _ t(3)] late_assembly [OF w t(2) _ t(3)]
    by (intro exI [of _ t]) (auto simp: umap_find_None)
qed

text \<open>Writing past the end of the array.\<close>

lemma fillIDs_overflow:
  "i \<le> length ids \<Longrightarrow> length ids < i + length ps \<Longrightarrow> fillIDs_loop ps i ids = Undef"
proof (induction ps arbitrary: i ids)
  case (Cons p ps)
  then show ?case by (cases "i < length ids") simp_all
qed simp

text \<open>C37. \<^verbatim>\<open>GetAppDomainIDs\<close> never succeeds.  An array with room for all identifiers is rejected as too small, and
  one with less room is written past its end.\<close>

theorem GetAppDomainIDs_never_succeeds:
  assumes "well_behaved e" and "length ids = unat c"
  shows "fst (GetAppDomainIDs e c (Some out) (Some ids) s) = (if length (m_appDomains s) \<le> unat c then Fail E_FAIL else Undef)"
proof (cases "length (m_appDomains s) \<le> unat c")
  case True
  then show ?thesis by (simp add: GetAppDomainIDs_def op_defs IfFailRet_def)
next
  case False
  have "mset (rt_iterate e (m_appDomains s)) = mset (m_appDomains s)" using assms(1) by (simp add: well_behaved_def)
  then have "length (rt_iterate e (m_appDomains s)) = length (m_appDomains s)" by (rule mset_eq_length)
  then have "fillIDs_loop (rt_iterate e (m_appDomains s)) 0 (clearBytes (unat c) ids) = Undef"
    using False assms(2) by (intro fillIDs_overflow) (simp_all add: clearBytes_def)
  then show ?thesis using False by (simp add: GetAppDomainIDs_def op_defs IfFailRet_def)
qed

section \<open>A process with one module\<close>

definition sampleRuntime :: runtimeEnv where
  "sampleRuntime = \<lparr> rt_net20 = False, rt_windows = True, rt_coreClr = True, rt_iterate = (\<lambda>m. m),
     rt_GetAppDomainInfo = (\<lambda>n i. Ok [65, 0]), rt_GetAssemblyInfo = (\<lambda>i. Ok ([66, 0], 1, 3)), rt_GetModuleInfo = (\<lambda>i. Ok ([67, 0], 2)),
     rt_assemblyImport = (\<lambda>i. S_OK), rt_metaDataImport = (\<lambda>i. Ok ()), rt_GetScopeProps = (\<lambda>i. Ok 7),
     rt_PathFindFileName = (\<lambda>path. path), rt_readModule = (\<lambda>i. Ok ()), rt_GetAssemblyFromScope = (\<lambda>i. Ok 0x20000001),
     rt_GetAssemblyProps = (\<lambda>i tk. Ok [1, 2]), rt_StrongNameToken = None, rt_methods = [\<lambda>sent ev. S_OK], rt_raw = True \<rparr>"

lemma sampleRuntime_ready: "client_ready sampleRuntime"
  by (simp add: client_ready_def well_behaved_def methods_succeed_def sampleRuntime_def defined_def SUCCEEDED_def)

lemma sampleRuntime_behaves: "well_behaved sampleRuntime"
  using sampleRuntime_ready by (simp add: client_ready_def)

definition sampleLoaded :: runtime where
  "sampleLoaded = deliverAll sampleRuntime [CB_AppDomainCreationStarted 1, CB_ModuleAttachedToAssembly 3 2] new_runtime"

lemma sampleLoaded_parts:
  "m_appDomains sampleLoaded = [(1, 0)]"
  "map_option dom_moduleInfos (r_domains sampleLoaded 0) = Some [(3, 2)]"
  "map_option dom_assemblyInfos (r_domains sampleLoaded 0) = Some [(2, 1)]"
  by code_simp+

theorem callbacks_keep_objects_consistent_witness:
  "well_behaved sampleRuntime \<and> loaded_ok sampleRuntime sampleLoaded"
  using callbacks_keep_objects_consistent [OF sampleRuntime_behaves] sampleRuntime_behaves unfolding sampleLoaded_def by blast

theorem shutdown_unloads_once_witness:
  "client_ready sampleRuntime \<and> loaded_ok sampleRuntime sampleLoaded \<and>
   (\<exists>t. AppDomainShutdownFinished sampleRuntime 1 S_OK sampleLoaded = (Ok (), t) \<and> umap_find 1 (m_appDomains t) = None \<and>
     notices t = notices sampleLoaded @ [Sent 0 (OnModuleUnloaded 2), Sent 0 (OnAssemblyUnloaded 1), Sent 0 (OnAppDomainShutdown 0)])"
proof -
  have s: "loaded_ok sampleRuntime sampleLoaded"
    unfolding sampleLoaded_def by (rule deliverAll_ok [OF sampleRuntime_behaves loaded_ok_new])
  obtain d where d: "r_domains sampleLoaded 0 = Some d" "dom_moduleInfos d = [(3, 2)]" "dom_assemblyInfos d = [(2, 1)]"
    using sampleLoaded_parts(2,3) by auto
  have "(1, 0) \<in> set (m_appDomains sampleLoaded)" by (simp add: sampleLoaded_parts(1))
  from shutdown_unloads_once [OF sampleRuntime_ready s this d(1), of S_OK S_OK] show ?thesis
    using s sampleRuntime_ready d(2,3) by (auto simp: toAll_def sampleRuntime_def)
qed

theorem GetAppDomainIDs_never_succeeds_witness:
  "well_behaved sampleRuntime \<and> fst (GetAppDomainIDs sampleRuntime 1 (Some ()) (Some [0]) sampleLoaded) = Fail E_FAIL \<and>
   fst (GetAppDomainIDs sampleRuntime 0 (Some ()) (Some []) sampleLoaded) = Undef"
  using GetAppDomainIDs_never_succeeds [OF sampleRuntime_behaves, of "[0]" 1 "()" sampleLoaded]
    GetAppDomainIDs_never_succeeds [OF sampleRuntime_behaves, of "[]" 0 "()" sampleLoaded] sampleRuntime_behaves
  by (simp add: sampleLoaded_parts(1))

end
