(* ===== verification/JitObjects.thy ===== *)
theory JitObjects
  imports Render RuntimeEvents InlineSites
begin

text \<open>
  The methods that are being compiled: which method objects the manager and the modules know (\<^verbatim>\<open>ProfilerManager.cpp\<close>,
  \<^verbatim>\<open>ModuleInfo.cpp\<close>, \<^verbatim>\<open>MethodInfo.cpp\<close>), the final body of a method and its way to the runtime, what a raw profiler may ask
  of the engine (\<^verbatim>\<open>CorProfilerInfoWrapper.cpp\<close>, \<^verbatim>\<open>CorMethodMalloc.cpp\<close>, \<^verbatim>\<open>CorProfilerFunctionControlWrapper.cpp\<close>).

  The state puts the stores of the other theories together: \<open>j_world\<close> has the bodies of the methods, \<open>j_runtime\<close> the modules.
  A member of a class that neither of them has is in \<open>j_methods\<close> or \<open>j_modules\<close>, under the address of the object.
\<close>

section \<open>State\<close>

type_synonym FunctionID = ULONGLONG

record methodLink =
  jm_functionId :: FunctionID
  jm_tkFunction :: mdToken
  jm_pModuleInfo :: addr
  jm_bIsStandaloneMethodInfo :: bool
  jm_bIsRejit :: bool
  jm_pFunctionControl :: bool
  jm_pFinalRenderedMethod :: "byte list"
  jm_userDefinedBuffer :: "addr option"
  jm_dwRejitCodeGenFlags :: DWORD

text \<open>An entry of \<open>mm_methodInfos\<close> may be a null pointer.\<close>

record moduleMethods =
  mm_methodInfos :: "FunctionID \<Rightarrow> mid option option"
  mm_methodInfosByToken :: "mdToken \<Rightarrow> mid option"
  mm_methodTokenToCachedILMap :: "mdToken \<Rightarrow> byte list option"
  mm_instrumentedMethods :: "mdToken set"
  mm_ilMaps :: "mdToken \<times> FunctionID \<Rightarrow> COR_IL_MAP list option"
  mm_methodTokenToRejitCountMap :: "mdToken \<Rightarrow> DWORD option"
  mm_pInlineSiteMap :: "TInlineeToModulesMap option"

definition new_moduleMethods :: moduleMethods where
  "new_moduleMethods = \<lparr> mm_methodInfos = Map.empty, mm_methodInfosByToken = Map.empty, mm_methodTokenToCachedILMap = Map.empty,
     mm_instrumentedMethods = {}, mm_ilMaps = Map.empty, mm_methodTokenToRejitCountMap = Map.empty, mm_pInlineSiteMap = None \<rparr>"

text \<open>A body is handed to the runtime as a copy of bytes of the engine, or as the address of a client's buffer.\<close>

datatype ilBody = EngineBytes "byte list" | UserBuffer addr

datatype runtimeCall = RT_SetILFunctionBody ModuleID mdToken ilBody | RT_SetILInstrumentedCodeMap FunctionID "COR_IL_MAP list"
  | FC_SetILFunctionBody mid ilBody | FC_SetCodegenFlags mid DWORD | FC_SetILInstrumentedCodeMap mid "COR_IL_MAP list"

datatype clientCall = JitStarted FunctionID bool | ShouldInstrumentMethod mid bool | BeforeInstrumentMethod mid bool
  | InstrumentMethod mid bool | OnInstrumentationComplete mid bool | AllowInlineSite mid mid

datatype rawCall = Raw_JITCompilationStarted FunctionID bool | Raw_GetReJITParameters ModuleID mdToken mid | Raw_JITInlining FunctionID FunctionID

datatype jitEvent = ToClient nat clientCall | ToRaw rawCall | ToRuntime runtimeCall

text \<open>\<open>j_malloc\<close> is the wrapper's allocator, with its current buffer and length; buffers of clients are in \<open>j_buffers\<close>.\<close>

record jit =
  j_world :: world
  j_runtime :: runtime
  j_modules :: "addr \<Rightarrow> moduleMethods"
  j_methods :: "mid \<Rightarrow> methodLink option"
  j_nextMethod :: mid
  j_methodInfos :: "FunctionID \<Rightarrow> mid option"
  j_malloc :: "(addr option \<times> DWORD) option"
  j_buffers :: "addr \<Rightarrow> byte list option"
  j_nextBuffer :: addr
  j_events :: "jitEvent list"

text \<open>An instrumentation method: whether it takes the events of the compiler, and what it does when it is called.  A call may leave its
  out parameter alone.\<close>

record client =
  c_JitStarted :: "(FunctionID \<Rightarrow> bool \<Rightarrow> (jit, hresult) op) option"
  c_ShouldInstrumentMethod :: "mid \<Rightarrow> bool \<Rightarrow> (jit, hresult \<times> bool) op"
  c_BeforeInstrumentMethod :: "mid \<Rightarrow> bool \<Rightarrow> (jit, unit) op"
  c_InstrumentMethod :: "mid \<Rightarrow> bool \<Rightarrow> (jit, unit) op"
  c_OnInstrumentationComplete :: "mid \<Rightarrow> bool \<Rightarrow> (jit, unit) op"
  c_AllowInlineSite :: "mid \<Rightarrow> mid \<Rightarrow> (jit, hresult \<times> bool option) op"

text \<open>The runtime's answers, the clients and the raw profiler, if there is one.\<close>

record jitEnv =
  je_rt :: runtimeEnv
  je_GetFunctionInfo :: "FunctionID \<Rightarrow> (ModuleID \<times> mdToken) result"
  je_isDynamic :: "ModuleID \<Rightarrow> bool"
  je_GetILFunctionBody :: "ModuleID \<Rightarrow> mdToken \<Rightarrow> byte list result"
  je_signature :: "ModuleID \<Rightarrow> mdToken \<Rightarrow> byte list result"
  je_metadata :: "ModuleID \<Rightarrow> metadata result"
  je_emit :: "ModuleID \<Rightarrow> byte list \<Rightarrow> mdToken result"
  je_garbage :: "nat \<Rightarrow> byte"
  je_fullName :: "mid \<Rightarrow> unit result"
  je_runtime :: "runtimeCall \<Rightarrow> hresult"
  je_userBufferEnabled :: bool
  je_clients :: "client list"
  je_raw :: "(rawCall \<Rightarrow> bool \<Rightarrow> (jit, hresult \<times> bool) op) option"

section \<open>Access\<close>

definition inRuntime :: "(runtime, 'a) op \<Rightarrow> (jit, 'a) op" where
  "inRuntime f s = (case f (j_runtime s) of (r, t) \<Rightarrow> (r, s\<lparr> j_runtime := t \<rparr>))"

definition record_event :: "jitEvent \<Rightarrow> (jit, unit) op" where
  "record_event ev = modify (j_events_update (\<lambda>l. l @ [ev]))"

definition linkAt :: "mid \<Rightarrow> (jit, methodLink) op" where
  "linkAt m = IfFailRet (gets (\<lambda>s. j_methods s m)) (\<lambda>l. liftR (deref l))"

definition setLink :: "mid \<Rightarrow> methodLink \<Rightarrow> (jit, unit) op" where
  "setLink m l = modify (j_methods_update (\<lambda>h. h(m \<mapsto> l)))"

definition updLink :: "mid \<Rightarrow> (methodLink \<Rightarrow> methodLink) \<Rightarrow> (jit, unit) op" where
  "updLink m f = IfFailRet (linkAt m) (\<lambda>l. setLink m (f l))"

definition updModule :: "addr \<Rightarrow> (moduleMethods \<Rightarrow> moduleMethods) \<Rightarrow> (jit, unit) op" where
  "updModule p f = modify (j_modules_update (\<lambda>h. h(p := f (h p))))"

definition methodsOf :: "addr \<Rightarrow> (jit, moduleMethods) op" where
  "methodsOf p = gets (\<lambda>s. j_modules s p)"

definition moduleIdOf :: "addr \<Rightarrow> (jit, ModuleID) op" where
  "moduleIdOf p = IfFailRet (inRuntime (moduleAt p)) (\<lambda>y. ret (mod_moduleID y))"

definition lookupModule :: "jitEnv \<Rightarrow> ModuleID \<Rightarrow> (jit, addr) op" where
  "lookupModule e moduleId = inRuntime (GetModuleInfoById (je_rt e) moduleId)"

text \<open>A destructor that runs when a scope is left, whether by a success or a failure.\<close>

definition Finally :: "('s, 'a) op \<Rightarrow> ('s, unit) op \<Rightarrow> ('s, 'a) op" where
  "Finally m c s = (case m s of
       (Ok x, t) \<Rightarrow> Discard c (\<lambda>_. ret x) t
     | (Fail hr, t) \<Rightarrow> Discard c (\<lambda>_. fail hr) t
     | (Undef, t) \<Rightarrow> (Undef, t)
     | (Diverge, t) \<Rightarrow> (Diverge, t))"

section \<open>The methods of a module\<close>

definition Module_GetMethodInfoById :: "addr \<Rightarrow> FunctionID \<Rightarrow> (jit, mid) op" where
  "Module_GetMethodInfoById p functionId = IfFailRet (methodsOf p) (\<lambda>d.
     case mm_methodInfos d functionId of None \<Rightarrow> fail E_FAIL | Some m \<Rightarrow> liftR (deref m))"

definition Module_GetMethodInfoByToken :: "addr \<Rightarrow> mdToken \<Rightarrow> (jit, mid) op" where
  "Module_GetMethodInfoByToken p methodToken = IfFailRet (methodsOf p) (\<lambda>d.
     case mm_methodInfosByToken d methodToken of None \<Rightarrow> fail E_FAIL | Some m \<Rightarrow> ret m)"

definition AddMethodInfo :: "addr \<Rightarrow> FunctionID \<Rightarrow> mid \<Rightarrow> (jit, unit) op" where
  "AddMethodInfo p functionId m = IfFailRet (linkAt m) (\<lambda>l. updModule p (\<lambda>d. d\<lparr>
     mm_methodInfos := (mm_methodInfos d)(functionId := Some (Some m)),
     mm_methodInfosByToken := (mm_methodInfosByToken d)(jm_tkFunction l := Some m) \<rparr>))"

text \<open>The lookup with \<^verbatim>\<open>operator[]\<close> makes a null entry when there is none.\<close>

definition ReleaseMethodInfo :: "addr \<Rightarrow> FunctionID \<Rightarrow> (jit, unit) op" where
  "ReleaseMethodInfo p functionId = IfFailRet (methodsOf p) (\<lambda>d.
     IfFailRet (if mm_methodInfos d functionId = None
       then updModule p (\<lambda>d. d\<lparr> mm_methodInfos := (mm_methodInfos d)(functionId := Some None) \<rparr>) else ret ()) (\<lambda>_.
     case mm_methodInfos d functionId of
       Some (Some m) \<Rightarrow> IfFailRet (linkAt m) (\<lambda>l. updModule p (\<lambda>d. d\<lparr>
         mm_methodInfos := (mm_methodInfos d)(functionId := None),
         mm_methodInfosByToken := (mm_methodInfosByToken d)(jm_tkFunction l := None) \<rparr>))
     | _ \<Rightarrow> fail E_FAIL))"

definition SetRejitMethodInfo :: "addr \<Rightarrow> mdToken \<Rightarrow> mid option \<Rightarrow> (jit, unit) op" where
  "SetRejitMethodInfo p methodToken pMethodInfo = updModule p (\<lambda>d. d\<lparr>
     mm_methodInfosByToken := (mm_methodInfosByToken d)(methodToken := pMethodInfo) \<rparr>)"

definition IncrementMethodRejitCount :: "addr \<Rightarrow> mdToken \<Rightarrow> (jit, unit) op" where
  "IncrementMethodRejitCount p token = updModule p (\<lambda>d. d\<lparr> mm_methodTokenToRejitCountMap :=
     (mm_methodTokenToRejitCountMap d)(token := Some (case mm_methodTokenToRejitCountMap d token of None \<Rightarrow> 1 | Some n \<Rightarrow> n + 1)) \<rparr>)"

definition GetMethodRejitCount :: "addr \<Rightarrow> mdToken \<Rightarrow> (jit, DWORD) op" where
  "GetMethodRejitCount p token = IfFailRet (methodsOf p) (\<lambda>d.
     ret (case mm_methodTokenToRejitCountMap d token of None \<Rightarrow> 0 | Some n \<Rightarrow> n))"

definition SetMethodIsTransformed :: "addr \<Rightarrow> mdToken \<Rightarrow> bool \<Rightarrow> (jit, unit) op" where
  "SetMethodIsTransformed p methodDef isInstrumented = updModule p (\<lambda>d. d\<lparr> mm_instrumentedMethods :=
     (if isInstrumented then insert methodDef (mm_instrumentedMethods d) else mm_instrumentedMethods d - {methodDef}) \<rparr>)"

definition SetILInstrumentationMap :: "methodLink \<Rightarrow> COR_IL_MAP list \<Rightarrow> moduleMethods \<Rightarrow> moduleMethods" where
  "SetILInstrumentationMap l pMap d = d\<lparr> mm_ilMaps :=
     (mm_ilMaps d)((jm_tkFunction l, if jm_bIsRejit l then 0 else jm_functionId l) := Some pMap) \<rparr>"

text \<open>The original IL of a method: what was returned first is returned from then on.\<close>

definition GetMethodIl :: "jitEnv \<Rightarrow> addr \<Rightarrow> mdToken \<Rightarrow> (jit, byte list) op" where
  "GetMethodIl e p tkFunction = IfFailRet (methodsOf p) (\<lambda>d. case mm_methodTokenToCachedILMap d tkFunction of
       Some il \<Rightarrow> ret il
     | None \<Rightarrow> IfFailRet (moduleIdOf p) (\<lambda>moduleId. IfFailRet (liftR (je_GetILFunctionBody e moduleId tkFunction)) (\<lambda>il.
         IfFailRet (updModule p (\<lambda>d. d\<lparr> mm_methodTokenToCachedILMap := (mm_methodTokenToCachedILMap d)(tkFunction := Some il) \<rparr>)) (\<lambda>_.
         ret il))))"

section \<open>Method objects\<close>

definition new_methodinfo :: "byte list result \<Rightarrow> byte list result \<Rightarrow> methodinfo" where
  "new_methodinfo il sig = \<lparr> m_methodIl = il, m_pInstructionGraph = None, m_pExceptionSection = None,
     m_newCorHeader = \<lparr> h_Flags = 0, h_Size = 0, h_MaxStack = 0, h_CodeSize = 0, h_LocalVarSigTok = 0 \<rparr>,
     m_bIsHeaderInitialized = False, m_pILStream = [], m_pCorILMap = [], m_pIntermediateRenderedMethod = [],
     m_bIsInstrumented = False, m_bIsCreateBaselineEnabled = True, m_signature = sig, m_savedILMap = None,
     m_localVariables = None, m_origLocalVariables = None \<rparr>"

text \<open>The IL that \<^verbatim>\<open>GetMethodIl\<close> will give for a method.\<close>

definition originalIl :: "jitEnv \<Rightarrow> moduleMethods \<Rightarrow> ModuleID \<Rightarrow> mdToken \<Rightarrow> byte list result" where
  "originalIl e d moduleId tk = (case mm_methodTokenToCachedILMap d tk of Some il \<Rightarrow> Ok il | None \<Rightarrow> je_GetILFunctionBody e moduleId tk)"

definition new_CMethodInfo :: "jitEnv \<Rightarrow> FunctionID \<Rightarrow> mdToken \<Rightarrow> addr \<Rightarrow> bool \<Rightarrow> (jit, mid) op" where
  "new_CMethodInfo e functionId functionToken p pFunctionControl = IfFailRet (gets j_nextMethod) (\<lambda>m.
     IfFailRet (methodsOf p) (\<lambda>d. IfFailRet (moduleIdOf p) (\<lambda>moduleId.
     IfFailRet (setLink m \<lparr> jm_functionId = functionId, jm_tkFunction = functionToken, jm_pModuleInfo = p, jm_bIsStandaloneMethodInfo = False,
       jm_bIsRejit = False, jm_pFunctionControl = pFunctionControl, jm_pFinalRenderedMethod = [], jm_userDefinedBuffer = None,
       jm_dwRejitCodeGenFlags = 0 \<rparr>) (\<lambda>_.
     IfFailRet (modify (\<lambda>s. s\<lparr> j_nextMethod := Suc m, j_world := (j_world s)\<lparr> w_methods :=
       (w_methods (j_world s))(m \<mapsto> new_methodinfo (originalIl e d moduleId functionToken) (je_signature e moduleId functionToken)) \<rparr> \<rparr>)) (\<lambda>_.
     ret m)))))"

text \<open>A call that works on the body of a method.  When it has read the header it has been to \<^verbatim>\<open>GetMethodIl\<close>, and a map it has saved
  goes to the module.\<close>

definition savedByBody :: "methodLink \<Rightarrow> methodinfo \<Rightarrow> moduleMethods \<Rightarrow> moduleMethods" where
  "savedByBody l mi d =
     (let d = (case m_methodIl mi of
          Ok il \<Rightarrow> if m_bIsHeaderInitialized mi \<and> mm_methodTokenToCachedILMap d (jm_tkFunction l) = None
            then d\<lparr> mm_methodTokenToCachedILMap := (mm_methodTokenToCachedILMap d)(jm_tkFunction l := Some il) \<rparr> else d
        | _ \<Rightarrow> d)
      in case m_savedILMap mi of None \<Rightarrow> d
        | Some pMap \<Rightarrow> SetILInstrumentationMap l pMap d)"

definition inBody :: "mid \<Rightarrow> (world, 'a) op \<Rightarrow> (jit, 'a) op" where
  "inBody m f = IfFailRet (linkAt m) (\<lambda>l s.
     let w = (j_world s)\<lparr> w_methods := (w_methods (j_world s))(m := map_option (m_savedILMap_update (\<lambda>_. None)) (w_methods (j_world s) m)) \<rparr>
     in case f w of (r, w') \<Rightarrow> (r, s\<lparr> j_world := w', j_modules := (case w_methods w' m of None \<Rightarrow> j_modules s
       | Some mi \<Rightarrow> (j_modules s)(jm_pModuleInfo l := savedByBody l mi (j_modules s (jm_pModuleInfo l)))) \<rparr>))"

section \<open>The life of a method object\<close>

definition AddMethodInfoToMap :: "FunctionID \<Rightarrow> mid \<Rightarrow> (jit, unit) op" where
  "AddMethodInfoToMap functionId m = (if functionId = 0 then fail E_FAIL
     else modify (j_methodInfos_update (\<lambda>h. if h functionId = None then h(functionId \<mapsto> m) else h)))"

definition RemoveMethodInfoFromMap :: "FunctionID \<Rightarrow> (jit, unit) op" where
  "RemoveMethodInfoFromMap functionId = modify (j_methodInfos_update (\<lambda>h. h(functionId := None)))"

definition Manager_GetMethodInfoById :: "FunctionID \<Rightarrow> (jit, mid) op" where
  "Manager_GetMethodInfoById functionId = IfFailRet (gets j_methodInfos) (\<lambda>h.
     case h functionId of None \<Rightarrow> fail E_FAIL | Some m \<Rightarrow> ret m)"

definition Method_Initialize :: "mid \<Rightarrow> bool \<Rightarrow> bool \<Rightarrow> (jit, unit) op" where
  "Method_Initialize m bAddToMethodInfoMap isRejit = IfFailRet (linkAt m) (\<lambda>l.
     IfFailRet (if bAddToMethodInfoMap then AddMethodInfoToMap (jm_functionId l) m else ret ()) (\<lambda>_.
     IfFailRet (if isRejit then IncrementMethodRejitCount (jm_pModuleInfo l) (jm_tkFunction l) else ret ()) (\<lambda>_.
     updLink m (\<lambda>l. l\<lparr> jm_bIsRejit := isRejit,
       jm_bIsStandaloneMethodInfo := (\<not> bAddToMethodInfoMap \<and> \<not> isRejit \<or> jm_bIsStandaloneMethodInfo l) \<rparr>))))"

definition Cleanup :: "mid \<Rightarrow> (jit, unit) op" where
  "Cleanup m = IfFailRet (linkAt m) (\<lambda>l. if jm_bIsStandaloneMethodInfo l then ret () else
     Discard (ReleaseMethodInfo (jm_pModuleInfo l) (jm_functionId l)) (\<lambda>_. RemoveMethodInfoFromMap (jm_functionId l)))"

text \<open>A method object that is already there is reported, with its full name, and replaced.\<close>

definition CreateMethodInfo :: "jitEnv \<Rightarrow> FunctionID \<Rightarrow> (jit, mid) op" where
  "CreateMethodInfo e functionId = IfFailRet (liftR (je_GetFunctionInfo e functionId)) (\<lambda>(moduleId, functionToken).
     Discard (lookupModule e moduleId) (\<lambda>r. case r of None \<Rightarrow> fail E_FAIL | Some p \<Rightarrow>
     Discard (Module_GetMethodInfoById p functionId) (\<lambda>r.
     IfFailRet (case r of None \<Rightarrow> ret () | Some old \<Rightarrow> liftR (je_fullName e old)) (\<lambda>_.
     IfFailRet (new_CMethodInfo e functionId functionToken p False) (\<lambda>m.
     IfFailRet (Method_Initialize m True False) (\<lambda>_.
     IfFailRet (AddMethodInfo p functionId m) (\<lambda>_. ret m)))))))"

definition CreateNewMethodInfo :: "jitEnv \<Rightarrow> FunctionID \<Rightarrow> (jit, mid) op" where
  "CreateNewMethodInfo e functionId = IfFailRet (liftR (je_GetFunctionInfo e functionId)) (\<lambda>(moduleId, functionToken).
     Discard (lookupModule e moduleId) (\<lambda>r. case r of None \<Rightarrow> fail E_FAIL | Some p \<Rightarrow>
     IfFailRet (new_CMethodInfo e functionId functionToken p False) (\<lambda>m.
     IfFailRet (Method_Initialize m False False) (\<lambda>_. ret m))))"

definition CreateMethodInfoForRejit :: "jitEnv \<Rightarrow> ModuleID \<Rightarrow> mdToken \<Rightarrow> (jit, mid) op" where
  "CreateMethodInfoForRejit e moduleId methodToken = IfFailRet (lookupModule e moduleId) (\<lambda>p.
     IfFailRet (new_CMethodInfo e 0 methodToken p True) (\<lambda>m.
     IfFailRet (Method_Initialize m False True) (\<lambda>_.
     IfFailRet (SetRejitMethodInfo p methodToken (Some m)) (\<lambda>_. ret m))))"

text \<open>The two queries of a module for a method object that is only looked at.\<close>

definition Module_QueryMethodInfoById :: "jitEnv \<Rightarrow> addr \<Rightarrow> FunctionID \<Rightarrow> (jit, mid) op" where
  "Module_QueryMethodInfoById e p functionID = IfFailRet (liftR (je_GetFunctionInfo e functionID)) (\<lambda>(moduleId, methodToken).
     IfFailRet (new_CMethodInfo e functionID methodToken p False) (\<lambda>m. IfFailRet (Method_Initialize m False False) (\<lambda>_. ret m)))"

definition Module_QueryMethodInfoByToken :: "jitEnv \<Rightarrow> addr \<Rightarrow> mdToken \<Rightarrow> (jit, mid) op" where
  "Module_QueryMethodInfoByToken e p methodToken =
     IfFailRet (new_CMethodInfo e 0 methodToken p False) (\<lambda>m. IfFailRet (Method_Initialize m False False) (\<lambda>_. ret m))"

definition Domains_GetMethodInfoById :: "jitEnv \<Rightarrow> FunctionID \<Rightarrow> (jit, mid) op" where
  "Domains_GetMethodInfoById e functionID = IfFailRet (liftR (je_GetFunctionInfo e functionID)) (\<lambda>(moduleId, methodToken).
     IfFailRet (lookupModule e moduleId) (\<lambda>p. Module_QueryMethodInfoById e p functionID))"

section \<open>The final body\<close>

definition bodyAt :: "mid \<Rightarrow> (jit, methodinfo) op" where
  "bodyAt m = IfFailRet (gets (\<lambda>s. w_methods (j_world s) m)) (\<lambda>mi. liftR (deref mi))"

definition IsInstrumented :: "mid \<Rightarrow> (jit, bool) op" where
  "IsInstrumented m = IfFailRet (bodyAt m) (\<lambda>mi. ret (m_bIsInstrumented mi))"

definition GetIntermediateRenderedFunctionBody :: "mid \<Rightarrow> (jit, byte list) op" where
  "GetIntermediateRenderedFunctionBody m = IfFailRet (bodyAt m) (\<lambda>mi.
     if \<not> m_bIsInstrumented mi \<or> m_pIntermediateRenderedMethod mi = [] then fail E_FAIL else ret (m_pIntermediateRenderedMethod mi))"

text \<open>The client's buffer is read through its address, and a size of zero stands for a buffer that stays the client's.\<close>

definition SetFinalRenderedFunctionBody :: "mid \<Rightarrow> addr option \<Rightarrow> DWORD \<Rightarrow> (jit, unit) op" where
  "SetFinalRenderedFunctionBody m pMethodHeader cbMethodSize = IfNullRetPointer pMethodHeader (\<lambda>b.
     IfFailRet (inBody m (upd_method m (m_bIsInstrumented_update (\<lambda>_. True)))) (\<lambda>_.
     IfFailRet (linkAt m) (\<lambda>l.
     if cbMethodSize > 0 then
       if jm_pFinalRenderedMethod l \<noteq> [] then fail E_FAIL else
       IfFailRet (SetMethodIsTransformed (jm_pModuleInfo l) (jm_tkFunction l) True) (\<lambda>_.
       IfFailRet (gets (\<lambda>s. j_buffers s b)) (\<lambda>buf. IfFailRet (liftR (deref buf)) (\<lambda>buf.
       if unat cbMethodSize \<le> length buf then updLink m (jm_pFinalRenderedMethod_update (\<lambda>_. take (unat cbMethodSize) buf)) else undef)))
     else
       IfFailRet (SetMethodIsTransformed (jm_pModuleInfo l) (jm_tkFunction l) True) (\<lambda>_.
       updLink m (jm_userDefinedBuffer_update (\<lambda>_. Some b))))))"

definition GetFinalInstrumentation :: "mid \<Rightarrow> (jit, DWORD \<times> ilBody) op" where
  "GetFinalInstrumentation m = IfFailRet (linkAt m) (\<lambda>l. IfFailRet (bodyAt m) (\<lambda>mi.
     ret (if jm_pFinalRenderedMethod l = [] then
            (case jm_userDefinedBuffer l of
               None \<Rightarrow> (of_nat (length (m_pIntermediateRenderedMethod mi)), EngineBytes (m_pIntermediateRenderedMethod mi))
             | Some b \<Rightarrow> (0, UserBuffer b))
          else (of_nat (length (jm_pFinalRenderedMethod l)), EngineBytes (jm_pFinalRenderedMethod l)))))"

definition callRuntime :: "jitEnv \<Rightarrow> runtimeCall \<Rightarrow> (jit, unit) op" where
  "callRuntime e c = IfFailRet (record_event (ToRuntime c)) (\<lambda>_. if SUCCEEDED (je_runtime e c) then ret () else fail (je_runtime e c))"

text \<open>The bytes of a body of \<open>cb\<close> bytes; a body of size zero is passed on as it is.\<close>

definition copiedBody :: "DWORD \<Rightarrow> ilBody \<Rightarrow> ilBody" where
  "copiedBody cb b = (case b of EngineBytes bs \<Rightarrow> EngineBytes (take (unat cb) bs) | UserBuffer a \<Rightarrow> UserBuffer a)"

definition rejitMarker :: "DWORD \<Rightarrow> COR_IL_MAP" where
  "rejitMarker rejitCount = \<lparr> oldOffset = 0xfeefee, newOffset = rejitCount, fAccurate = True \<rparr>"

definition applyJit :: "jitEnv \<Rightarrow> mid \<Rightarrow> methodLink \<Rightarrow> (jit, unit) op" where
  "applyJit e m l = IfFailRet (moduleIdOf (jm_pModuleInfo l)) (\<lambda>moduleId.
     IfFailRet (GetFinalInstrumentation m) (\<lambda>(cbMethodBody, pMethodBody).
     IfFailRet (callRuntime e (RT_SetILFunctionBody moduleId (jm_tkFunction l) (copiedBody cbMethodBody pMethodBody))) (\<lambda>_.
     IfFailRet (SetMethodIsTransformed (jm_pModuleInfo l) (jm_tkFunction l) True) (\<lambda>_.
     IfFailRet (bodyAt m) (\<lambda>mi.
     if m_pCorILMap mi \<noteq> [] then callRuntime e (RT_SetILInstrumentedCodeMap (jm_functionId l) (m_pCorILMap mi)) else ret ())))))"

definition applyRejit :: "jitEnv \<Rightarrow> mid \<Rightarrow> methodLink \<Rightarrow> (jit, unit) op" where
  "applyRejit e m l = (if \<not> jm_pFunctionControl l then fail E_FAIL else
     IfFailRet (GetFinalInstrumentation m) (\<lambda>(cbMethodBody, pMethodBody).
     IfFailRet (callRuntime e (FC_SetILFunctionBody m (copiedBody cbMethodBody pMethodBody))) (\<lambda>_.
     IfFailRet (SetMethodIsTransformed (jm_pModuleInfo l) (jm_tkFunction l) True) (\<lambda>_.
     IfFailRet (callRuntime e (FC_SetCodegenFlags m (jm_dwRejitCodeGenFlags l))) (\<lambda>_.
     IfFailRet (GetMethodRejitCount (jm_pModuleInfo l) (jm_tkFunction l)) (\<lambda>rejitCount.
     IfFailRet (bodyAt m) (\<lambda>mi.
     Discard (callRuntime e (FC_SetILInstrumentedCodeMap m
       (if rejitCount \<noteq> 0 then m_pCorILMap mi @ [rejitMarker rejitCount] else m_pCorILMap mi))) (\<lambda>_. ret ()))))))))"

definition ApplyFinalInstrumentation :: "jitEnv \<Rightarrow> mid \<Rightarrow> (jit, unit) op" where
  "ApplyFinalInstrumentation e m = IfFailRet (IsInstrumented m) (\<lambda>b. if \<not> b then fail E_FAIL else
     IfFailRet (linkAt m) (\<lambda>l. if jm_bIsRejit l then applyRejit e m l else applyJit e m l))"

section \<open>What a raw profiler asks of the engine\<close>

definition GetILFunctionBody :: "jitEnv \<Rightarrow> ModuleID \<Rightarrow> mdToken \<Rightarrow> (jit, byte list) op" where
  "GetILFunctionBody e moduleId methodToken = Discard (lookupModule e moduleId) (\<lambda>r. case r of
       Some p \<Rightarrow> Discard (Module_GetMethodInfoByToken p methodToken) (\<lambda>r.
         IfFailRet (case r of None \<Rightarrow> ret False | Some m \<Rightarrow> IsInstrumented m) (\<lambda>b.
         if b then GetIntermediateRenderedFunctionBody (the r) else GetMethodIl e p methodToken))
     | None \<Rightarrow> liftR (je_GetILFunctionBody e moduleId methodToken))"

text \<open>The buffers of a raw profiler, its own or allocated by the engine.  Allocating frees the engine's last buffer.\<close>

definition newBuffer :: "byte list \<Rightarrow> (jit, addr) op" where
  "newBuffer bytes = IfFailRet (gets j_nextBuffer) (\<lambda>b. IfFailRet (modify (\<lambda>s. s\<lparr> j_nextBuffer := Suc b, j_buffers := (j_buffers s)(b \<mapsto> bytes) \<rparr>)) (\<lambda>_. ret b))"

definition writeBuffer :: "addr \<Rightarrow> byte list \<Rightarrow> (jit, unit) op" where
  "writeBuffer b bytes = IfFailRet (gets (\<lambda>s. j_buffers s b)) (\<lambda>buf. IfFailRet (liftR (deref buf)) (\<lambda>buf.
     if length bytes \<le> length buf then modify (j_buffers_update (\<lambda>h. h(b \<mapsto> bytes @ drop (length bytes) buf))) else undef))"

definition GetILFunctionBodyAllocator :: "(jit, unit) op" where
  "GetILFunctionBodyAllocator = modify (j_malloc_update (\<lambda>a. case a of None \<Rightarrow> Some (None, 0) | Some x \<Rightarrow> Some x))"

definition Alloc :: "jitEnv \<Rightarrow> DWORD \<Rightarrow> (jit, addr) op" where
  "Alloc e cb = IfFailRet (gets j_malloc) (\<lambda>a. IfFailRet (liftR (deref a)) (\<lambda>(pBuffer, cbBufferLen).
     IfFailRet (modify (j_buffers_update (\<lambda>h. case pBuffer of None \<Rightarrow> h | Some b \<Rightarrow> h(b := None)))) (\<lambda>_.
     IfFailRet (newBuffer (map (je_garbage e) [0..<unat cb])) (\<lambda>b.
     IfFailRet (modify (j_malloc_update (\<lambda>_. Some (Some b, cb)))) (\<lambda>_. ret b)))))"

definition setBodyOf :: "jitEnv \<Rightarrow> mid \<Rightarrow> addr option \<Rightarrow> (jit, unit) op" where
  "setBodyOf e m pbNewILMethodHeader = IfFailRet (gets j_malloc) (\<lambda>a.
     if \<not> je_userBufferEnabled e then
       (case a of None \<Rightarrow> fail E_FAIL
        | Some (pBuffer, cbBuffer) \<Rightarrow> if pbNewILMethodHeader \<noteq> pBuffer then fail E_FAIL
            else SetFinalRenderedFunctionBody m pbNewILMethodHeader cbBuffer)
     else SetFinalRenderedFunctionBody m pbNewILMethodHeader
       (case a of None \<Rightarrow> 0 | Some (pBuffer, cbBuffer) \<Rightarrow> if pbNewILMethodHeader = pBuffer then cbBuffer else 0))"

definition setBodyDirectly :: "jitEnv \<Rightarrow> ModuleID \<Rightarrow> mdToken \<Rightarrow> addr option \<Rightarrow> (jit, unit) op" where
  "setBodyDirectly e moduleId methodToken pbNewILMethodHeader =
     IfFailRet (callRuntime e (RT_SetILFunctionBody moduleId methodToken (case pbNewILMethodHeader of None \<Rightarrow> EngineBytes [] | Some b \<Rightarrow> UserBuffer b))) (\<lambda>_.
     IfFailRet (gets j_malloc) (\<lambda>a. case a of None \<Rightarrow> ret ()
       | Some (pBuffer, cbBuffer) \<Rightarrow> if pbNewILMethodHeader = pBuffer then modify (j_malloc_update (\<lambda>_. Some (None, cbBuffer))) else ret ()))"

definition SetILFunctionBody :: "jitEnv \<Rightarrow> ModuleID \<Rightarrow> mdToken \<Rightarrow> addr option \<Rightarrow> (jit, unit) op" where
  "SetILFunctionBody e moduleId methodToken pbNewILMethodHeader =
     Discard (IfFailRet (lookupModule e moduleId) (\<lambda>p. Module_GetMethodInfoByToken p methodToken)) (\<lambda>r. case r of
       Some m \<Rightarrow> setBodyOf e m pbNewILMethodHeader
     | None \<Rightarrow> if je_userBufferEnabled e then setBodyDirectly e moduleId methodToken pbNewILMethodHeader else ret ())"

definition SetILInstrumentedCodeMap :: "FunctionID \<Rightarrow> COR_IL_MAP list \<Rightarrow> (jit, unit) op" where
  "SetILInstrumentedCodeMap functionId rgILMapEntries = IfFailRet (Manager_GetMethodInfoById functionId) (\<lambda>m.
     IfFailRet (inBody m (MergeILInstrumentedCodeMap m False rgILMapEntries)) (\<lambda>_. ret ()))"

text \<open>During a rejit the raw profiler has a wrapper of the method instead.\<close>

definition Control_SetCodegenFlags :: "mid \<Rightarrow> DWORD \<Rightarrow> (jit, unit) op" where
  "Control_SetCodegenFlags m flags = updLink m (jm_dwRejitCodeGenFlags_update (\<lambda>originalFlags. originalFlags OR flags))"

definition Control_SetILFunctionBody :: "mid \<Rightarrow> DWORD \<Rightarrow> addr option \<Rightarrow> (jit, unit) op" where
  "Control_SetILFunctionBody m cbNewILMethodHeader pbNewILMethodHeader = SetFinalRenderedFunctionBody m pbNewILMethodHeader cbNewILMethodHeader"

definition Control_SetILInstrumentedCodeMap :: "mid \<Rightarrow> COR_IL_MAP list \<Rightarrow> (jit, unit) op" where
  "Control_SetILInstrumentedCodeMap m rgILMapEntries = IfFailRet (inBody m (MergeILInstrumentedCodeMap m False rgILMapEntries)) (\<lambda>_. ret ())"

end
