(* ===== verification/JitEvents.thy ===== *)
theory JitEvents
  imports JitObjects
begin

text \<open>
  The compilation of a method: the callbacks that compile, recompile and inline (\<^verbatim>\<open>ProfilerManager.cpp\<close>) ask the
  instrumentation methods, let the raw profiler have its turn, and give the result to the runtime; afterwards
  \<^verbatim>\<open>MethodJitInfo.cpp\<close> tells clients what happened to a method.
\<close>

section \<open>Asking the clients\<close>

fun jitStarted_loop :: "client list \<Rightarrow> nat \<Rightarrow> FunctionID \<Rightarrow> bool \<Rightarrow> hresult \<Rightarrow> (jit, hresult) op" where
  "jitStarted_loop [] i functionId isRejit hr = ret hr"
| "jitStarted_loop (c # cs) i functionId isRejit hr = (case c_JitStarted c of
       None \<Rightarrow> jitStarted_loop cs (Suc i) functionId isRejit hr
     | Some f \<Rightarrow> IfFailRet (record_event (ToClient i (JitStarted functionId isRejit))) (\<lambda>_.
         IfFailRet (f functionId isRejit) (\<lambda>hr. jitStarted_loop cs (Suc i) functionId isRejit hr)))"

definition SendJitStarted :: "jitEnv \<Rightarrow> FunctionID \<Rightarrow> bool \<Rightarrow> (jit, unit) op" where
  "SendJitStarted e functionId isRejit = IfFailRet (jitStarted_loop (je_clients e) 0 functionId isRejit S_OK) (\<lambda>hr.
     if SUCCEEDED hr then ret () else fail hr)"

text \<open>Those that want to instrument, with their positions; whether the question failed does not matter.\<close>

fun should_loop :: "client list \<Rightarrow> nat \<Rightarrow> mid \<Rightarrow> bool \<Rightarrow> (jit, (nat \<times> client) list) op" where
  "should_loop [] i m isRejit = ret []"
| "should_loop (c # cs) i m isRejit = IfFailRet (record_event (ToClient i (ShouldInstrumentMethod m isRejit))) (\<lambda>_.
     IfFailRet (c_ShouldInstrumentMethod c m isRejit) (\<lambda>(hr, bShouldInstrument).
     IfFailRet (should_loop cs (Suc i) m isRejit) (\<lambda>rest.
     ret (if bShouldInstrument then (i, c) # rest else rest))))"

definition CallShouldInstrumentOnInstrumentationMethods :: "jitEnv \<Rightarrow> mid \<Rightarrow> bool \<Rightarrow> (jit, (nat \<times> client) list) op" where
  "CallShouldInstrumentOnInstrumentationMethods e m isRejit = should_loop (je_clients e) 0 m isRejit"

definition beforeInstrument :: "mid \<Rightarrow> bool \<Rightarrow> nat \<times> client \<Rightarrow> (jit, unit) op" where
  "beforeInstrument m isRejit = (\<lambda>(i, c). IfFailRet (record_event (ToClient i (BeforeInstrumentMethod m isRejit))) (\<lambda>_.
     c_BeforeInstrumentMethod c m isRejit))"

definition CallBeforeInstrumentMethodOnInstrumentationMethods :: "mid \<Rightarrow> bool \<Rightarrow> (nat \<times> client) list \<Rightarrow> (jit, unit) op" where
  "CallBeforeInstrumentMethodOnInstrumentationMethods m isRejit toInstrument = IfFailRet (each (beforeInstrument m isRejit) toInstrument) (\<lambda>_.
     inBody m (upd_method m (m_bIsCreateBaselineEnabled_update (\<lambda>_. False))))"

definition instrumentWith :: "mid \<Rightarrow> bool \<Rightarrow> nat \<times> client \<Rightarrow> (jit, unit) op" where
  "instrumentWith m isRejit = (\<lambda>(i, c). IfFailRet (record_event (ToClient i (InstrumentMethod m isRejit))) (\<lambda>_.
     c_InstrumentMethod c m isRejit))"

definition renderBody :: "jitEnv \<Rightarrow> mid \<Rightarrow> (jit, unit) op" where
  "renderBody e m = IfFailRet (linkAt m) (\<lambda>l. IfFailRet (moduleIdOf (jm_pModuleInfo l)) (\<lambda>moduleId.
     inBody m (ApplyIntermediateMethodInstrumentation (je_garbage e) (je_metadata e moduleId) (je_emit e moduleId) m)))"

definition CallInstrumentOnInstrumentationMethods :: "jitEnv \<Rightarrow> mid \<Rightarrow> bool \<Rightarrow> (nat \<times> client) list \<Rightarrow> (jit, unit) op" where
  "CallInstrumentOnInstrumentationMethods e m isRejit toInstrument = (if toInstrument = [] then ret () else
     IfFailRet (each (instrumentWith m isRejit) toInstrument) (\<lambda>_. renderBody e m))"

text \<open>A client that fails here is logged, and the next one is called.\<close>

fun complete_loop :: "client list \<Rightarrow> nat \<Rightarrow> mid \<Rightarrow> bool \<Rightarrow> (jit, unit) op" where
  "complete_loop [] i m isRejit = ret ()"
| "complete_loop (c # cs) i m isRejit = IfFailRet (record_event (ToClient i (OnInstrumentationComplete m isRejit))) (\<lambda>_.
     Discard (c_OnInstrumentationComplete c m isRejit) (\<lambda>_. complete_loop cs (Suc i) m isRejit))"

definition CallOnInstrumentationComplete :: "jitEnv \<Rightarrow> mid \<Rightarrow> bool \<Rightarrow> (jit, unit) op" where
  "CallOnInstrumentationComplete e m isRejit = complete_loop (je_clients e) 0 m isRejit"

text \<open>The first client that forbids inlining ends the questions; the outcome is that of the last question.\<close>

fun allowInline_loop :: "client list \<Rightarrow> nat \<Rightarrow> mid \<Rightarrow> mid \<Rightarrow> hresult \<Rightarrow> (jit, hresult \<times> bool) op" where
  "allowInline_loop [] i inlinee site hr = ret (hr, True)"
| "allowInline_loop (c # cs) i inlinee site hr = IfFailRet (record_event (ToClient i (AllowInlineSite inlinee site))) (\<lambda>_.
     IfFailRet (c_AllowInlineSite c inlinee site) (\<lambda>(hr, b).
     if outParam True b then allowInline_loop cs (Suc i) inlinee site hr else ret (hr, False)))"

definition CallAllowInlineOnInstrumentationMethods :: "jitEnv \<Rightarrow> mid \<Rightarrow> mid \<Rightarrow> (jit, bool) op" where
  "CallAllowInlineOnInstrumentationMethods e inlinee site = IfFailRet (allowInline_loop (je_clients e) 0 inlinee site S_OK) (\<lambda>(hr, b).
     if SUCCEEDED hr then ret b else fail hr)"

text \<open>The raw profiler may change the flag it is given; its outcome is dropped.\<close>

definition SendToRaw :: "jitEnv \<Rightarrow> rawCall \<Rightarrow> bool \<Rightarrow> (jit, bool) op" where
  "SendToRaw e c b = (case je_raw e of None \<Rightarrow> ret b
     | Some f \<Rightarrow> IfFailRet (record_event (ToRaw c)) (\<lambda>_. IfFailRet (f c b) (\<lambda>(hr, b'). ret b')))"

section \<open>Compiling\<close>

definition ClearILTransformationStatus :: "jitEnv \<Rightarrow> ModuleID \<Rightarrow> mdToken \<Rightarrow> (jit, unit) op" where
  "ClearILTransformationStatus e moduleId functionToken = IfFailRet (lookupModule e moduleId) (\<lambda>p.
     SetMethodIsTransformed p functionToken False)"

definition ClearILTransformationStatusOf :: "jitEnv \<Rightarrow> FunctionID \<Rightarrow> (jit, unit) op" where
  "ClearILTransformationStatusOf e functionId = IfFailRet (liftR (je_GetFunctionInfo e functionId)) (\<lambda>(moduleId, token).
     ClearILTransformationStatus e moduleId token)"

text \<open>The instrumentation of one method, which compiling and recompiling share.\<close>

definition instrument :: "jitEnv \<Rightarrow> mid \<Rightarrow> bool \<Rightarrow> rawCall \<Rightarrow> (jit, unit) op" where
  "instrument e m isRejit rawCallback = IfFailRet (linkAt m) (\<lambda>l. IfFailRet (moduleIdOf (jm_pModuleInfo l)) (\<lambda>moduleId.
     if je_isDynamic e moduleId then ret () else
     IfFailRet (CallShouldInstrumentOnInstrumentationMethods e m isRejit) (\<lambda>toInstrument.
     IfFailRet (CallBeforeInstrumentMethodOnInstrumentationMethods m isRejit toInstrument) (\<lambda>_.
     IfFailRet (CallInstrumentOnInstrumentationMethods e m isRejit toInstrument) (\<lambda>_.
     IfFailRet (SendToRaw e rawCallback False) (\<lambda>_.
     IfFailRet (IsInstrumented m) (\<lambda>b. if \<not> b then ret () else
     IfFailRet (ApplyFinalInstrumentation e m) (\<lambda>_.
     Discard (CallOnInstrumentationComplete e m isRejit) (\<lambda>_. ret ())))))))))"

definition JITCompilationStarted :: "jitEnv \<Rightarrow> FunctionID \<Rightarrow> bool \<Rightarrow> (jit, unit) op" where
  "JITCompilationStarted e functionId fIsSafeToBlock = (let rawCallback = Raw_JITCompilationStarted functionId fIsSafeToBlock in
     if rt_net20 (je_rt e) then IfFailRet (SendToRaw e rawCallback False) (\<lambda>_. ret ()) else
     IfFailRet (SendJitStarted e functionId False) (\<lambda>_.
     Discard (CreateMethodInfo e functionId) (\<lambda>r.
     Discard (ClearILTransformationStatusOf e functionId) (\<lambda>_.
     case r of None \<Rightarrow> ret () | Some m \<Rightarrow> Finally (instrument e m False rawCallback) (Cleanup m)))))"

definition GetReJITParameters :: "jitEnv \<Rightarrow> ModuleID \<Rightarrow> mdToken \<Rightarrow> (jit, unit) op" where
  "GetReJITParameters e moduleId methodToken =
     (if rt_net20 (je_rt e) then IfFailRet (SendToRaw e (Raw_GetReJITParameters moduleId methodToken 0) False) (\<lambda>_. ret ()) else
      IfFailRet (CreateMethodInfoForRejit e moduleId methodToken) (\<lambda>m.
      Discard (ClearILTransformationStatus e moduleId methodToken) (\<lambda>_.
      IfFailRet (linkAt m) (\<lambda>l.
      Finally (instrument e m True (Raw_GetReJITParameters moduleId methodToken m)) (SetRejitMethodInfo (jm_pModuleInfo l) methodToken None)))))"

text \<open>\<^verbatim>\<open>GetInlineSiteMap\<close> makes the map of a module on first use.\<close>

definition recordInlineSite :: "addr \<Rightarrow> mdToken \<Rightarrow> mdToken \<Rightarrow> ModuleID result \<Rightarrow> (jit, unit) op" where
  "recordInlineSite p inlinee site moduleId s = (case AddInlineSite inlinee site moduleId (outParam [] (mm_pInlineSiteMap (j_modules s p))) of
     (r, sites) \<Rightarrow> (r, s\<lparr> j_modules := (j_modules s)(p := (j_modules s p)\<lparr> mm_pInlineSiteMap := Some sites \<rparr>) \<rparr>))"

definition decideInlining :: "jitEnv \<Rightarrow> FunctionID \<Rightarrow> FunctionID \<Rightarrow> mid \<Rightarrow> mid \<Rightarrow> (jit, bool) op" where
  "decideInlining e callerId calleeId inlinee site =
     IfFailRet (CallAllowInlineOnInstrumentationMethods e inlinee site) (\<lambda>b.
     IfFailRet (if b then SendToRaw e (Raw_JITInlining callerId calleeId) b else ret b) (\<lambda>b.
     IfFailRet (linkAt inlinee) (\<lambda>li. IfFailRet (linkAt site) (\<lambda>ls.
     IfFailRet (updModule (jm_pModuleInfo li) (\<lambda>d. d\<lparr> mm_pInlineSiteMap := Some (outParam [] (mm_pInlineSiteMap d)) \<rparr>)) (\<lambda>_.
     if b then IfFailRet (moduleIdOf (jm_pModuleInfo ls)) (\<lambda>moduleId.
       IfFailRet (recordInlineSite (jm_pModuleInfo li) (jm_tkFunction li) (jm_tkFunction ls) (Ok moduleId)) (\<lambda>_. ret b))
     else ret b)))))"

text \<open>When the call fails the answer is no.\<close>

definition JITInlining :: "jitEnv \<Rightarrow> FunctionID \<Rightarrow> FunctionID \<Rightarrow> (jit, bool) op" where
  "JITInlining e callerId calleeId = (if rt_net20 (je_rt e) then SendToRaw e (Raw_JITInlining callerId calleeId) False else
     Discard (CreateMethodInfo e calleeId) (\<lambda>r. case r of None \<Rightarrow> ret True | Some inlinee \<Rightarrow>
     Finally (if calleeId \<noteq> callerId then
         Discard (CreateMethodInfo e callerId) (\<lambda>r. case r of None \<Rightarrow> ret True | Some site \<Rightarrow>
         Finally (decideInlining e callerId calleeId inlinee site) (Cleanup site))
       else decideInlining e callerId calleeId inlinee inlinee) (Cleanup inlinee)))"

datatype jitCallback = CB_JITCompilationStarted FunctionID bool | CB_GetReJITParameters ModuleID mdToken | CB_JITInlining FunctionID FunctionID

fun deliverJit :: "jitEnv \<Rightarrow> jitCallback \<Rightarrow> (jit, unit) op" where
  "deliverJit e (CB_JITCompilationStarted functionId fIsSafeToBlock) = JITCompilationStarted e functionId fIsSafeToBlock"
| "deliverJit e (CB_GetReJITParameters moduleId methodToken) = GetReJITParameters e moduleId methodToken"
| "deliverJit e (CB_JITInlining callerId calleeId) = IfFailRet (JITInlining e callerId calleeId) (\<lambda>_. ret ())"

section \<open>What happened to a method\<close>

record CMethodJitInfo =
  ji_functionId :: FunctionID
  ji_hresult :: hresult
  ji_isRejit :: bool
  ji_rejitId :: ULONGLONG
  ji_isTransformed :: bool
  ji_pModuleInfo :: "addr option"
  ji_methodToken :: mdToken
  ji_initializeResult :: hresult
  ji_codeAddress :: ULONGLONG
  ji_isAddressQueried :: bool

definition new_CMethodJitInfo :: "FunctionID \<Rightarrow> hresult \<Rightarrow> bool \<Rightarrow> ULONGLONG \<Rightarrow> CMethodJitInfo" where
  "new_CMethodJitInfo functionId hr isRejit rejitId = \<lparr> ji_functionId = functionId, ji_hresult = hr, ji_isRejit = isRejit, ji_rejitId = rejitId,
     ji_isTransformed = False, ji_pModuleInfo = None, ji_methodToken = mdTokenNil, ji_initializeResult = S_OK, ji_codeAddress = 0,
     ji_isAddressQueried = False \<rparr>"

text \<open>The first use looks the method up in the state \<open>s\<close> of the engine, and a failure is remembered.\<close>

definition initializeJitInfo :: "jitEnv \<Rightarrow> jit \<Rightarrow> (CMethodJitInfo, unit) op" where
  "initializeJitInfo e s = IfFailRet (gets ji_functionId) (\<lambda>functionId.
     IfFailRet (liftR (je_GetFunctionInfo e functionId)) (\<lambda>(moduleId, token).
     IfFailRet (modify (ji_methodToken_update (\<lambda>_. token))) (\<lambda>_.
     IfFailRet (liftR (fst (lookupModule e moduleId s))) (\<lambda>p.
     modify (\<lambda>j. j\<lparr> ji_pModuleInfo := Some p, ji_isTransformed := token \<in> mm_instrumentedMethods (j_modules s p) \<rparr>)))))"

definition EnsureInitialized :: "jitEnv \<Rightarrow> jit \<Rightarrow> (CMethodJitInfo, unit) op" where
  "EnsureInitialized e s j = (if ji_initializeResult j \<noteq> S_OK then (Fail (ji_initializeResult j), j)
     else if ji_pModuleInfo j \<noteq> None then (Ok (), j)
     else case initializeJitInfo e s j of
         (Fail hr, j') \<Rightarrow> (Fail hr, j'\<lparr> ji_initializeResult := hr \<rparr>)
       | r \<Rightarrow> r)"

definition GetILTransformationStatus :: "jitEnv \<Rightarrow> jit \<Rightarrow> 'p option \<Rightarrow> (CMethodJitInfo, bool) op" where
  "GetILTransformationStatus e s pIsTransformed = IfNullRet pIsTransformed (\<lambda>_. IfFailRet (EnsureInitialized e s) (\<lambda>_. gets ji_isTransformed))"

definition JitInfo_GetMethodToken :: "jitEnv \<Rightarrow> jit \<Rightarrow> 'p option \<Rightarrow> (CMethodJitInfo, mdToken) op" where
  "JitInfo_GetMethodToken e s pMethodDef = IfNullRet pMethodDef (\<lambda>_. IfFailRet (EnsureInitialized e s) (\<lambda>_. gets ji_methodToken))"

definition JitInfo_GetModuleInfo :: "jitEnv \<Rightarrow> jit \<Rightarrow> 'p option \<Rightarrow> (CMethodJitInfo, addr option) op" where
  "JitInfo_GetModuleInfo e s ppModuleInfo = IfNullRet ppModuleInfo (\<lambda>_. IfFailRet (EnsureInitialized e s) (\<lambda>_. gets ji_pModuleInfo))"

text \<open>The saved map of a method: how many entries there are, and as many of them as fit in the caller's array.\<close>

definition Module_GetILInstrumentationMap :: "jitEnv \<Rightarrow> jit \<Rightarrow> addr \<Rightarrow> DWORD \<Rightarrow> 'p option \<Rightarrow> 'q option \<Rightarrow>
    (CMethodJitInfo, DWORD \<times> COR_IL_MAP list) op" where
  "Module_GetILInstrumentationMap e s p cMap pMap pcNeeded = IfNullRet pcNeeded (\<lambda>_.
     IfFailRet (JitInfo_GetMethodToken e s (Some ())) (\<lambda>methodDef.
     IfFailRet (gets (\<lambda>j. if ji_isRejit j then 0 else ji_functionId j)) (\<lambda>functionId.
     ret (case mm_ilMaps (j_modules s p) (methodDef, functionId) of None \<Rightarrow> (0, [])
       | Some ilMap \<Rightarrow> (of_nat (length ilMap), if cMap = 0 \<or> pMap = None then [] else take (unat cMap) ilMap)))))"

definition GetILInstrumentationMap :: "jitEnv \<Rightarrow> jit \<Rightarrow> DWORD \<Rightarrow> 'p option \<Rightarrow> 'q option \<Rightarrow> (CMethodJitInfo, DWORD \<times> COR_IL_MAP list) op" where
  "GetILInstrumentationMap e s cMap pMap pcNeeded = IfNullRet pcNeeded (\<lambda>_. IfFailRet (EnsureInitialized e s) (\<lambda>_.
     IfFailRet (gets ji_pModuleInfo) (\<lambda>p. IfFailRet (liftR (deref p)) (\<lambda>p.
     Module_GetILInstrumentationMap e s p cMap pMap pcNeeded))))"

text \<open>\<open>addresses\<close> are the answers to the two questions for the native code, for the number of addresses and for the
  addresses, if the runtime can be asked; the last address counts.\<close>

definition GetNativeCodeAddress :: "(nat \<Rightarrow> ULONGLONG list result) option \<Rightarrow> 'p option \<Rightarrow> (CMethodJitInfo, ULONGLONG) op" where
  "GetNativeCodeAddress addresses pCodeAddress = IfNullRet pCodeAddress (\<lambda>_. IfFailRet (gets (\<lambda>j. j)) (\<lambda>j.
     if ji_isAddressQueried j then (if ji_codeAddress j \<noteq> 0 then ret (ji_codeAddress j) else fail E_NOTIMPL) else
     IfFailRet (modify (ji_isAddressQueried_update (\<lambda>_. True))) (\<lambda>_.
     case addresses of None \<Rightarrow> fail E_NOTIMPL
     | Some ask \<Rightarrow> IfFailRet (liftR (ask 0)) (\<lambda>first. IfFailRet (liftR (ask 1)) (\<lambda>second.
         if second = [] \<or> length second > length first then undef else
         IfFailRet (modify (ji_codeAddress_update (\<lambda>_. last second))) (\<lambda>_. ret (last second)))))))"

text \<open>The map from IL to native code comes from the runtime: by address if the runtime has it, or by function.\<close>

definition GetILNativeMapping :: "(nat \<Rightarrow> ULONGLONG list result) option \<Rightarrow> (ULONGLONG \<Rightarrow> 'm result) \<Rightarrow> (FunctionID \<Rightarrow> ULONGLONG \<Rightarrow> 'm result) option \<Rightarrow>
    'p option \<Rightarrow> (CMethodJitInfo, 'm) op" where
  "GetILNativeMapping addresses mapping3 mapping2 pcNeeded = IfNullRet pcNeeded (\<lambda>_.
     Discard (GetNativeCodeAddress addresses (Some ())) (\<lambda>r. case r of
       Some nativeAddress \<Rightarrow> liftR (mapping3 nativeAddress)
     | None \<Rightarrow> (case mapping2 of None \<Rightarrow> fail E_NOTIMPL
         | Some ask \<Rightarrow> IfFailRet (gets (\<lambda>j. (ji_functionId j, ji_rejitId j))) (\<lambda>(functionId, rejitId). liftR (ask functionId rejitId)))))"

definition JitInfo_GetFunctionID :: "'p option \<Rightarrow> (CMethodJitInfo, FunctionID) op" where
  "JitInfo_GetFunctionID pFunctionId = IfNullRet pFunctionId (\<lambda>_. gets ji_functionId)"

definition JitInfo_GetIsRejit :: "'p option \<Rightarrow> (CMethodJitInfo, bool) op" where
  "JitInfo_GetIsRejit pIsRejit = IfNullRet pIsRejit (\<lambda>_. gets ji_isRejit)"

definition JitInfo_GetRejitId :: "'p option \<Rightarrow> (CMethodJitInfo, ULONGLONG) op" where
  "JitInfo_GetRejitId pRejitId = IfNullRet pRejitId (\<lambda>_. gets ji_rejitId)"

definition JitInfo_GetJitHR :: "'p option \<Rightarrow> (CMethodJitInfo, hresult) op" where
  "JitInfo_GetJitHR pHr = IfNullRet pHr (\<lambda>_. gets ji_hresult)"

end
