(* ===== verification/JitInv.thy ===== *)
theory JitInv
  imports JitEvents RuntimeInv "HOL-Library.Sublist"
begin

text \<open>
  What calls keep while a method is compiled, and that every callback takes its method objects out of the registries again.
\<close>

section \<open>Frames\<close>

definition link_id :: "methodLink \<Rightarrow> FunctionID \<times> mdToken \<times> addr \<times> bool" where
  "link_id l = (jm_functionId l, jm_tkFunction l, jm_pModuleInfo l, jm_bIsStandaloneMethodInfo l)"

definition methods_fresh :: "jit \<Rightarrow> bool" where
  "methods_fresh s \<longleftrightarrow> (\<forall>m \<ge> j_nextMethod s. j_methods s m = None)"

text \<open>The registries are as before, and the method objects that were there keep their identity.\<close>

definition same_registry :: "jit \<Rightarrow> jit \<Rightarrow> bool" where
  "same_registry s t \<longleftrightarrow> (methods_fresh s \<longrightarrow> methods_fresh t \<and> j_methodInfos t = j_methodInfos s \<and>
     (\<forall>p. mm_methodInfos (j_modules t p) = mm_methodInfos (j_modules s p)) \<and>
     (\<forall>p. mm_methodInfosByToken (j_modules t p) = mm_methodInfosByToken (j_modules s p)) \<and>
     (\<forall>m l. j_methods s m = Some l \<longrightarrow> map_option link_id (j_methods t m) = Some (link_id l)))"

lemma same_registry_refl: "same_registry s s"
  by (simp add: same_registry_def)

lemma same_registry_trans: "same_registry s t \<Longrightarrow> same_registry t u \<Longrightarrow> same_registry s u"
  unfolding same_registry_def by (metis (no_types, lifting) map_option_eq_Some)

text \<open>A call keeps a relation if its final state is always related to its first state.  When the relation is a preorder, this is
  closed under the ways calls are put together.\<close>

definition keeping :: "('s \<Rightarrow> 's \<Rightarrow> bool) \<Rightarrow> ('s, 'a) op \<Rightarrow> bool" where
  "keeping R f \<longleftrightarrow> (\<forall>s. R s (snd (f s)))"

lemma keeping_if: "(b \<Longrightarrow> keeping R m) \<Longrightarrow> (\<not> b \<Longrightarrow> keeping R n) \<Longrightarrow> keeping R (if b then m else n)"
  by simp

lemma keeping_option: "keeping R m \<Longrightarrow> (\<And>x. keeping R (k x)) \<Longrightarrow> keeping R (case v of None \<Rightarrow> m | Some x \<Rightarrow> k x)"
  by (cases v) simp_all

lemma keeping_prod: "(\<And>x y. keeping R (k x y)) \<Longrightarrow> keeping R (case v of (x, y) \<Rightarrow> k x y)"
  by (cases v) simp

lemmas keeping_cases = keeping_if keeping_option keeping_prod

locale kept =
  fixes R :: "'s \<Rightarrow> 's \<Rightarrow> bool"
  assumes refl: "R s s"
    and trans: "R s t \<Longrightarrow> R t u \<Longrightarrow> R s u"
begin

lemma pure: "keeping R (ret x)" "keeping R (fail hr)" "keeping R (liftR r)" "keeping R (gets f)" "keeping R undef"
  by (simp_all add: keeping_def op_defs refl)

lemma bind: "keeping R m \<Longrightarrow> (\<And>s x t. m s = (Ok x, t) \<Longrightarrow> keeping R (k x)) \<Longrightarrow> keeping R (IfFailRet m k)"
  unfolding keeping_def IfFailRet_def
  by (clarsimp split: prod.splits result.splits) (metis trans snd_conv)

lemma IfFail: "keeping R m \<Longrightarrow> (\<And>x. keeping R (k x)) \<Longrightarrow> keeping R (IfFailRet m k)"
  by (rule bind)

lemma discard: "keeping R m \<Longrightarrow> (\<And>x. keeping R (k x)) \<Longrightarrow> keeping R (Discard m k)"
  unfolding keeping_def Discard_def
  by (clarsimp split: prod.splits result.splits) (metis trans snd_conv)

lemma nonnull: "(\<And>x. keeping R (k x)) \<Longrightarrow> keeping R (IfNullRetPointer v k)"
  by (cases v) (simp_all add: IfNullRetPointer_def pure)

lemma every: "(\<And>x. x \<in> set xs \<Longrightarrow> keeping R (f x)) \<Longrightarrow> keeping R (each f xs)"
  by (induction xs) (simp_all add: pure IfFail)

lemmas calls = pure IfFail discard nonnull every

end

text \<open>Two relations of that kind: the registries stay, and nothing is sent.\<close>

interpretation registry: kept same_registry
  by unfold_locales (rule same_registry_refl, erule (1) same_registry_trans)

definition same_events :: "jit \<Rightarrow> jit \<Rightarrow> bool" where
  "same_events s t \<longleftrightarrow> j_events t = j_events s"

interpretation sent: kept same_events
  by unfold_locales (simp_all add: same_events_def)

abbreviation framed :: "(jit, 'a) op \<Rightarrow> bool" where
  "framed \<equiv> keeping same_registry"

abbreviation silent :: "(jit, 'a) op \<Rightarrow> bool" where
  "silent \<equiv> keeping same_events"

named_theorems frames \<open>calls that leave the registries alone\<close>
named_theorems silents \<open>calls that send nothing\<close>

declare registry.calls [frames] keeping_cases [frames] sent.calls [silents] keeping_cases [silents]

text \<open>Changes of the state that leave the registries alone.\<close>

lemma framed_modify:
  assumes "\<And>s. j_methodInfos (g s) = j_methodInfos s" "\<And>s. j_modules (g s) = j_modules s" "\<And>s. j_methods (g s) = j_methods s"
    "\<And>s. j_nextMethod (g s) = j_nextMethod s"
  shows "framed (modify g)"
  by (simp add: keeping_def op_defs same_registry_def methods_fresh_def assms)

lemma framed_stores [frames]:
  "framed (modify (j_events_update f1))" "framed (modify (j_buffers_update f2))" "framed (modify (j_malloc_update f3))"
  by (rule framed_modify; simp)+

lemma framed_inRuntime [frames]: "framed (inRuntime f)"
  by (simp add: keeping_def inRuntime_def same_registry_def methods_fresh_def split: prod.splits)

lemma framed_updModule:
  assumes "\<And>d. mm_methodInfos (f d) = mm_methodInfos d" "\<And>d. mm_methodInfosByToken (f d) = mm_methodInfosByToken d"
  shows "framed (updModule p f)"
  by (simp add: keeping_def updModule_def op_defs same_registry_def methods_fresh_def assms)

lemma savedByBody_registry [simp]:
  "mm_methodInfos (savedByBody l mi d) = mm_methodInfos d" "mm_methodInfosByToken (savedByBody l mi d) = mm_methodInfosByToken d"
  "mm_instrumentedMethods (savedByBody l mi d) = mm_instrumentedMethods d"
  by (simp_all add: savedByBody_def SetILInstrumentationMap_def Let_def split: result.splits option.splits)

lemma framed_inBody [frames]: "framed (inBody m f)"
  unfolding inBody_def
proof (rule registry.IfFail)
  show "framed (linkAt m)" unfolding linkAt_def by (intro frames)
qed (simp add: keeping_def Let_def same_registry_def methods_fresh_def split: prod.splits option.splits)

lemma framed_access [frames]:
  "framed (record_event ev)" "framed (linkAt m)" "framed (methodsOf p)" "framed (moduleIdOf p)" "framed (lookupModule e i)" "framed (bodyAt m)"
  unfolding record_event_def linkAt_def methodsOf_def moduleIdOf_def lookupModule_def bodyAt_def by (intro frames)+

lemma framed_updLink:
  assumes "\<And>l. link_id (f l) = link_id l"
  shows "framed (updLink m f)"
  by (auto simp: keeping_def updLink_def linkAt_def setLink_def op_defs IfFailRet_def same_registry_def methods_fresh_def assms
    split: option.splits result.splits)

lemma framed_fields [frames]:
  "framed (updLink m (jm_pFinalRenderedMethod_update g1))" "framed (updLink m (jm_userDefinedBuffer_update g2))"
  "framed (updLink m (jm_dwRejitCodeGenFlags_update g3))"
  by (rule framed_updLink; simp add: link_id_def)+

lemma framed_module [frames]: "framed (SetMethodIsTransformed p tk b)" "framed (IncrementMethodRejitCount p tk)"
  unfolding SetMethodIsTransformed_def IncrementMethodRejitCount_def by (rule framed_updModule; simp)+

lemma framed_reads [frames]: "framed (GetMethodRejitCount p tk)" "framed (IsInstrumented m)" "framed (GetFinalInstrumentation m)"
  "framed (Module_GetMethodInfoById p i)" "framed (Module_GetMethodInfoByToken p tk)" "framed (Manager_GetMethodInfoById i)"
  "framed (GetIntermediateRenderedFunctionBody m)"
  unfolding GetMethodRejitCount_def IsInstrumented_def GetFinalInstrumentation_def Module_GetMethodInfoById_def Module_GetMethodInfoByToken_def
    Manager_GetMethodInfoById_def GetIntermediateRenderedFunctionBody_def by (intro frames)+

lemma framed_callRuntime [frames]: "framed (callRuntime e c)"
  unfolding callRuntime_def by (intro frames)

lemma framed_Apply [frames]: "framed (ApplyFinalInstrumentation e m)"
  unfolding ApplyFinalInstrumentation_def applyRejit_def applyJit_def by (intro frames)

text \<open>What the engine offers to a raw profiler leaves the registries alone.\<close>

lemma framed_GetMethodIl [frames]: "framed (GetMethodIl e p tk)"
  unfolding GetMethodIl_def by (intro frames framed_updModule) simp_all

lemma framed_GetILFunctionBody: "framed (GetILFunctionBody e i tk)"
  unfolding GetILFunctionBody_def by (intro frames)

lemma framed_newBuffer [frames]: "framed (newBuffer bytes)"
  unfolding newBuffer_def by (intro frames framed_modify) simp_all

lemma framed_SetFinal [frames]: "framed (SetFinalRenderedFunctionBody m b cb)"
  unfolding SetFinalRenderedFunctionBody_def by (intro frames)

lemma framed_SetILFunctionBody: "framed (SetILFunctionBody e i tk b)"
  unfolding SetILFunctionBody_def setBodyOf_def setBodyDirectly_def by (intro frames)

lemma framed_wrappers:
  "framed (writeBuffer b bytes)" "framed GetILFunctionBodyAllocator" "framed (Alloc e cb)" "framed (SetILInstrumentedCodeMap i es)"
  "framed (Control_SetCodegenFlags m flags)" "framed (Control_SetILFunctionBody m cb pb)" "framed (Control_SetILInstrumentedCodeMap m es)"
  unfolding writeBuffer_def GetILFunctionBodyAllocator_def Alloc_def SetILInstrumentedCodeMap_def Control_SetCodegenFlags_def
    Control_SetILFunctionBody_def Control_SetILInstrumentedCodeMap_def by (intro frames)+

section \<open>Clients\<close>

text \<open>What clients may do: they work on the bodies of methods, and use the engine's interfaces, which leave the registries alone.\<close>

definition client_keeps :: "(jit \<Rightarrow> jit \<Rightarrow> bool) \<Rightarrow> client \<Rightarrow> bool" where
  "client_keeps R c \<longleftrightarrow> (\<forall>f i b. c_JitStarted c = Some f \<longrightarrow> keeping R (f i b)) \<and> (\<forall>m b. keeping R (c_ShouldInstrumentMethod c m b)) \<and>
     (\<forall>m b. keeping R (c_BeforeInstrumentMethod c m b)) \<and> (\<forall>m b. keeping R (c_InstrumentMethod c m b)) \<and>
     (\<forall>m b. keeping R (c_OnInstrumentationComplete c m b)) \<and> (\<forall>m n. keeping R (c_AllowInlineSite c m n))"

definition clients_keep :: "(jit \<Rightarrow> jit \<Rightarrow> bool) \<Rightarrow> jitEnv \<Rightarrow> bool" where
  "clients_keep R e \<longleftrightarrow> list_all (client_keeps R) (je_clients e) \<and> (\<forall>f c b. je_raw e = Some f \<longrightarrow> keeping R (f c b))"

abbreviation client_framed :: "client \<Rightarrow> bool" where
  "client_framed \<equiv> client_keeps same_registry"

abbreviation clients_framed :: "jitEnv \<Rightarrow> bool" where
  "clients_framed \<equiv> clients_keep same_registry"

lemma framed_loops:
  assumes "list_all client_framed cs"
  shows "framed (jitStarted_loop cs i functionId b hr)" "framed (should_loop cs i m b)" "framed (complete_loop cs i m b)"
    "framed (allowInline_loop cs i m n hr)"
  using assms by (induction cs arbitrary: i hr) (auto simp: client_keeps_def intro!: frames split: option.splits)

lemma should_loop_subseq: "should_loop cs i m b s = (Ok xs, t) \<Longrightarrow> subseq xs (enumerate i cs)"
  by (induction cs arbitrary: i s xs t) (fastforce simp: op_defs IfFailRet_def split: prod.splits result.splits if_splits)+

lemma keeps_wanted:
  assumes "list_all (client_keeps R) cs" "subseq xs (enumerate i cs)" "x \<in> set xs"
  shows "client_keeps R (snd x)"
proof -
  have "x \<in> set (enumerate i cs)" using assms(2,3) by (auto dest: list_emb_set)
  then have "snd x \<in> set (map snd (enumerate i cs))" unfolding set_map by (rule imageI)
  then have "snd x \<in> set cs" by (simp only: map_snd_enumerate)
  then show ?thesis using assms(1) by (simp add: list_all_iff)
qed

lemma framed_instrument:
  assumes "clients_framed e"
  shows "framed (instrument e m b rc)"
proof -
  have c: "list_all client_framed (je_clients e)" and raw: "framed (SendToRaw e rc b')" for rc b'
    using assms by (auto simp: clients_keep_def SendToRaw_def intro!: frames split: option.splits)
  have "framed (beforeInstrument m b x)" "framed (instrumentWith m b x)" if "client_framed (snd x)" for x
    using that unfolding beforeInstrument_def instrumentWith_def
    by (auto simp: client_keeps_def split: prod.splits intro!: frames)
  then have w: "framed (CallBeforeInstrumentMethodOnInstrumentationMethods m b xs)" "framed (CallInstrumentOnInstrumentationMethods e m b xs)"
    if "subseq xs (enumerate 0 (je_clients e))" for xs
    using keeps_wanted [OF c that]
    unfolding CallBeforeInstrumentMethodOnInstrumentationMethods_def CallInstrumentOnInstrumentationMethods_def renderBody_def
    by (auto intro!: frames)
  have finished: "framed (CallOnInstrumentationComplete e m b)"
    unfolding CallOnInstrumentationComplete_def by (rule framed_loops(3) [OF c])
  have ask: "framed (CallShouldInstrumentOnInstrumentationMethods e m b)"
    unfolding CallShouldInstrumentOnInstrumentationMethods_def by (rule framed_loops(2) [OF c])
  have k: "framed (IfFailRet (CallBeforeInstrumentMethodOnInstrumentationMethods m b xs) (\<lambda>_.
     IfFailRet (CallInstrumentOnInstrumentationMethods e m b xs) (\<lambda>_.
     IfFailRet (SendToRaw e rc False) (\<lambda>_.
     IfFailRet (IsInstrumented m) (\<lambda>b'. if \<not> b' then ret () else
     IfFailRet (ApplyFinalInstrumentation e m) (\<lambda>_.
     Discard (CallOnInstrumentationComplete e m b) (\<lambda>_. ret ())))))))"
    if "CallShouldInstrumentOnInstrumentationMethods e m b s = (Ok xs, t)" for s xs t
    using should_loop_subseq [of "je_clients e" 0 m b s xs t] that
    by (intro frames w raw finished) (simp_all add: CallShouldInstrumentOnInstrumentationMethods_def)
  show ?thesis unfolding instrument_def by (intro frames registry.bind [OF ask k])
qed

section \<open>Calls that send nothing\<close>

lemma silent_modify: "(\<And>s. j_events (g s) = j_events s) \<Longrightarrow> silent (modify g)"
  by (simp add: keeping_def op_defs same_events_def)

lemma silent_stores [silents]:
  "silent (inRuntime f)" "silent (updModule p g)" "silent (setLink m l)" "silent (modify (j_methodInfos_update h))" "silent (recordInlineSite p i j r)"
  by (simp_all add: keeping_def op_defs same_events_def inRuntime_def updModule_def setLink_def recordInlineSite_def split: prod.splits)

lemma silent_inBody [silents]: "silent (inBody m f)"
  unfolding inBody_def linkAt_def
  by (intro silents) (simp add: keeping_def Let_def same_events_def split: prod.splits)

lemma silent_access [silents]:
  "silent (linkAt m)" "silent (updLink m g)" "silent (methodsOf p)" "silent (moduleIdOf p)" "silent (lookupModule e i)" "silent (bodyAt m)"
  "silent (Module_GetMethodInfoById p f)" "silent (IsInstrumented m)" "silent (GetFinalInstrumentation m)"
  "silent (SetMethodIsTransformed p tk b)" "silent (IncrementMethodRejitCount p tk)" "silent (GetMethodRejitCount p tk)" "silent (ReleaseMethodInfo p f)"
  unfolding linkAt_def updLink_def methodsOf_def moduleIdOf_def lookupModule_def bodyAt_def Module_GetMethodInfoById_def IsInstrumented_def
    GetFinalInstrumentation_def SetMethodIsTransformed_def IncrementMethodRejitCount_def GetMethodRejitCount_def ReleaseMethodInfo_def
  by (intro silents; simp split: option.splits)+

lemma silent_life [silents]: "silent (CreateMethodInfo e f)" "silent (Cleanup m)" "silent (ClearILTransformationStatusOf e f)"
  unfolding CreateMethodInfo_def new_CMethodInfo_def Method_Initialize_def AddMethodInfoToMap_def AddMethodInfo_def Cleanup_def RemoveMethodInfoFromMap_def
    ClearILTransformationStatusOf_def ClearILTransformationStatus_def
  by (intro silents silent_modify; simp)+

end
