(* ===== verification/JitReg.thy ===== *)
theory JitReg
  imports JitInv
begin

text \<open>
  Which method objects are registered with the manager and the modules while callbacks run: those the callback works with, and none
  when it has returned.
\<close>

section \<open>Partial outcomes\<close>

text \<open>If the call returns, it succeeds with a result and state in \<open>Q\<close> or fails in a state in \<open>R\<close>.\<close>

definition wlp :: "('s, 'a) op \<Rightarrow> ('a \<Rightarrow> 's \<Rightarrow> bool) \<Rightarrow> ('s \<Rightarrow> bool) \<Rightarrow> 's \<Rightarrow> bool" where
  "wlp m Q R s = (case m s of (Ok x, t) \<Rightarrow> Q x t | (Fail hr, t) \<Rightarrow> R t | _ \<Rightarrow> True)"

lemma wlp_ret [simp]: "wlp (ret x) Q R = Q x"
  by (rule ext) (simp add: wlp_def op_defs)

lemma wlp_fail [simp]: "wlp (fail hr) Q R = R"
  by (rule ext) (simp add: wlp_def op_defs)

lemma wlp_IfFailRet [simp]: "wlp (IfFailRet m k) Q R = wlp m (\<lambda>x. wlp (k x) Q R) R"
  by (rule ext) (auto simp: wlp_def IfFailRet_def split: prod.splits result.splits)

lemma wlp_Discard [simp]: "wlp (Discard m k) Q R = wlp m (\<lambda>x. wlp (k (Some x)) Q R) (wlp (k None) Q R)"
  by (rule ext) (auto simp: wlp_def Discard_def split: prod.splits result.splits)

lemma wlp_Finally: "wlp (Finally m c) Q R = wlp m (\<lambda>x. wlp c (\<lambda>_. Q x) (Q x)) (wlp c (\<lambda>_. R) R)"
  by (rule ext) (auto simp: wlp_def Finally_def Discard_def op_defs split: prod.splits result.splits)

lemma wlp_mono: "wlp m Q R s \<Longrightarrow> (\<And>x t. Q x t \<Longrightarrow> Q' x t) \<Longrightarrow> (\<And>t. R t \<Longrightarrow> R' t) \<Longrightarrow> wlp m Q' R' s"
  by (auto simp: wlp_def split: prod.splits result.splits)

lemma wlp_framed:
  assumes "framed m" "\<And>t. same_registry s t \<Longrightarrow> I t"
  shows "wlp m (\<lambda>_. I) I s"
  using assms by (auto simp: wlp_def keeping_def split: prod.splits result.splits) (metis snd_conv)+

section \<open>Which methods are registered\<close>

text \<open>At most the methods in \<open>K\<close>, given by function, module and token, are registered.\<close>

definition within :: "(FunctionID \<times> addr \<times> mdToken) set \<Rightarrow> jit \<Rightarrow> bool" where
  "within K s \<longleftrightarrow> methods_fresh s \<and> (\<forall>f m. j_methodInfos s f = Some m \<longrightarrow> (\<exists>p tk. (f, p, tk) \<in> K)) \<and>
     (\<forall>p f x. mm_methodInfos (j_modules s p) f = Some x \<longrightarrow> (\<exists>tk. (f, p, tk) \<in> K)) \<and>
     (\<forall>p tk m. mm_methodInfosByToken (j_modules s p) tk = Some m \<longrightarrow> (\<exists>f. (f, p, tk) \<in> K))"

text \<open>The method is registered with its module under its function.\<close>

definition held :: "mid \<Rightarrow> FunctionID \<times> addr \<times> mdToken \<Rightarrow> jit \<Rightarrow> bool" where
  "held m k s \<longleftrightarrow> (case k of (f, p, tk) \<Rightarrow> map_option link_id (j_methods s m) = Some (f, tk, p, False) \<and>
     mm_methodInfos (j_modules s p) f = Some (Some m))"

text \<open>Registered methods other than that of function \<open>f\<close> stay registered.\<close>

definition keeps_others :: "FunctionID \<Rightarrow> jit \<Rightarrow> jit \<Rightarrow> bool" where
  "keeps_others f s t \<longleftrightarrow> (\<forall>m k. fst k \<noteq> f \<longrightarrow> held m k s \<longrightarrow> held m k t)"

lemma within_same: "same_registry s t \<Longrightarrow> within K s \<Longrightarrow> within K t"
  by (simp add: within_def same_registry_def)

lemma held_same: "same_registry s t \<Longrightarrow> methods_fresh s \<Longrightarrow> held m k s \<Longrightarrow> held m k t"
  by (fastforce simp: held_def same_registry_def split: prod.splits)

lemma within_fresh: "within K s \<Longrightarrow> methods_fresh s"
  by (simp add: within_def)

text \<open>A method that is not needed any more leaves every registry.\<close>

lemma Cleanup_releases:
  assumes h: "held m (f, p, tk) s" and w: "within (insert (f, p, tk) K) s"
  shows "\<exists>t. Cleanup m s = (Ok (), t) \<and> within K t \<and> keeps_others f s t"
proof -
  obtain l where l: "j_methods s m = Some l" "jm_functionId l = f" "jm_tkFunction l = tk" "jm_pModuleInfo l = p" "\<not> jm_bIsStandaloneMethodInfo l"
    using h by (auto simp: held_def link_id_def)
  have e: "mm_methodInfos (j_modules s p) f = Some (Some m)" using h by (simp add: held_def)
  let ?d = "(j_modules s p)\<lparr> mm_methodInfos := (mm_methodInfos (j_modules s p))(f := None),
     mm_methodInfosByToken := (mm_methodInfosByToken (j_modules s p))(tk := None) \<rparr>"
  let ?t = "s\<lparr> j_modules := (j_modules s)(p := ?d), j_methodInfos := (j_methodInfos s)(f := None) \<rparr>"
  have "Cleanup m s = (Ok (), ?t)"
    using l e by (simp add: Cleanup_def ReleaseMethodInfo_def RemoveMethodInfoFromMap_def linkAt_def methodsOf_def updModule_def
      IfFailRet_def Discard_def op_defs)
  moreover have "within K ?t"
    using w unfolding within_def methods_fresh_def by (intro conjI allI impI) (fastforce split: if_splits)+
  moreover have "keeps_others f s ?t" by (auto simp: keeps_others_def held_def)
  ultimately show ?thesis by blast
qed

lemma wlp_Cleanup:
  assumes "held m (f, p, tk) s" "within (insert (f, p, tk) K) s"
    and "\<And>t. within K t \<Longrightarrow> keeps_others f s t \<Longrightarrow> Q () t"
  shows "wlp (Cleanup m) Q R s"
  using Cleanup_releases [OF assms(1,2)] assms(3) by (auto simp: wlp_def)

section \<open>Registering\<close>

lemma new_CMethodInfo_exec:
  assumes "new_CMethodInfo e f tk p b s = (Ok m, t)"
  shows "m = j_nextMethod s" "j_methodInfos t = j_methodInfos s" "j_modules t = j_modules s" "j_nextMethod t = Suc m"
    "\<exists>l. j_methods t = (j_methods s)(m \<mapsto> l) \<and> link_id l = (f, tk, p, False)"
  using assms unfolding new_CMethodInfo_def
  by (auto simp: methodsOf_def setLink_def moduleIdOf_def inRuntime_def op_defs IfFailRet_def link_id_def split: prod.splits result.splits)

lemma new_CMethodInfo_fails: "new_CMethodInfo e f tk p b s = (Fail hr, t) \<Longrightarrow> same_registry s t"
  unfolding new_CMethodInfo_def
  by (auto simp: methodsOf_def setLink_def moduleIdOf_def inRuntime_def op_defs IfFailRet_def same_registry_def methods_fresh_def
    split: prod.splits result.splits)

lemma AddMethodInfo_registers:
  assumes "j_methods s m = Some l" "link_id l = (f, tk, p, False)"
  shows "AddMethodInfo p f m s = (Ok (), s\<lparr> j_modules := (j_modules s)(p := (j_modules s p)\<lparr>
    mm_methodInfos := (mm_methodInfos (j_modules s p))(f := Some (Some m)),
    mm_methodInfosByToken := (mm_methodInfosByToken (j_modules s p))(tk := Some m) \<rparr>) \<rparr>)"
  using assms by (simp add: AddMethodInfo_def linkAt_def updModule_def op_defs IfFailRet_def link_id_def)

text \<open>A new method object that is registered with the manager and its module.\<close>

definition registerNew :: "jitEnv \<Rightarrow> FunctionID \<Rightarrow> mdToken \<Rightarrow> addr \<Rightarrow> (jit, mid) op" where
  "registerNew e f tk p = IfFailRet (new_CMethodInfo e f tk p False) (\<lambda>m.
     IfFailRet (Method_Initialize m True False) (\<lambda>_. IfFailRet (AddMethodInfo p f m) (\<lambda>_. ret m)))"

lemma registerNew_held:
  assumes w: "within K s"
  shows "wlp (registerNew e f tk p) (\<lambda>m t. within (insert (f, p, tk) K) t \<and> held m (f, p, tk) t \<and>
    keeps_others f s t) (\<lambda>t. within K t \<and> keeps_others f s t) s"
proof (cases "new_CMethodInfo e f tk p False s")
  case (Pair r t)
  show ?thesis
  proof (cases r)
    case (Ok m)
    note n = new_CMethodInfo_exec [OF Pair [unfolded Ok]]
    obtain l where l: "j_methods t = (j_methods s)(m \<mapsto> l)" "link_id l = (f, tk, p, False)" using n(5) by blast
    have fr: "methods_fresh s" using w by (rule within_fresh)
    have fr': "methods_fresh t" using fr n l by (auto simp: methods_fresh_def)
    have old: "j_methods t m' = j_methods s m'" if "j_methods s m' \<noteq> None" for m'
      using that fr n(1) l(1) by (auto simp: methods_fresh_def)
    have wt: "within K t" using w fr' n by (simp add: within_def)
    have ot: "keeps_others f s t" unfolding keeps_others_def
    proof (intro allI impI)
      fix m' k assume "held m' k s"
      then show "held m' k t" using old [of m'] n(3) by (cases k) (auto simp: held_def)
    qed
    show ?thesis
    proof (cases "f = 0")
      case True
      then have "Method_Initialize m True False t = (Fail E_FAIL, t)"
        using l by (simp add: Method_Initialize_def linkAt_def AddMethodInfoToMap_def op_defs IfFailRet_def link_id_def)
      then show ?thesis using Pair Ok wt ot by (simp add: registerNew_def wlp_def IfFailRet_def)
    next
      case False
      let ?l = "l\<lparr> jm_bIsRejit := False \<rparr>"
      let ?u = "j_methods_update (\<lambda>h. h(m \<mapsto> ?l)) (j_methodInfos_update (\<lambda>h. if h f = None then h(f \<mapsto> m) else h) t)"
      have i: "Method_Initialize m True False t = (Ok (), ?u)"
        using l False by (auto simp: Method_Initialize_def linkAt_def updLink_def setLink_def AddMethodInfoToMap_def op_defs IfFailRet_def link_id_def)
      have l': "link_id ?l = (f, tk, p, False)" "j_methods ?u m = Some ?l" using l(2) by (simp_all add: link_id_def)
      let ?v = "?u\<lparr> j_modules := (j_modules ?u)(p := (j_modules ?u p)\<lparr>
        mm_methodInfos := (mm_methodInfos (j_modules ?u p))(f := Some (Some m)),
        mm_methodInfosByToken := (mm_methodInfosByToken (j_modules ?u p))(tk := Some m) \<rparr>) \<rparr>"
      have a: "registerNew e f tk p s = (Ok m, ?v)"
        using Pair Ok i AddMethodInfo_registers [OF l'(2,1)] by (simp add: registerNew_def IfFailRet_def op_defs)
      have "within (insert (f, p, tk) K) ?v"
        using wt fr' n(4) unfolding within_def methods_fresh_def by (intro conjI allI impI) (fastforce split: if_splits)+
      moreover have "held m (f, p, tk) ?v" using l' by (simp add: held_def)
      moreover have "keeps_others f s ?v"
        unfolding keeps_others_def
      proof (intro allI impI)
        fix m' k assume "fst k \<noteq> f" "held m' k s"
        then show "held m' k ?v" using old [of m'] l(1) n(3) by (cases k) (auto simp: held_def link_id_def)
      qed
      ultimately show ?thesis using a by (simp add: wlp_def)
    qed
  next
    case (Fail hr)
    then have "same_registry s t" using Pair new_CMethodInfo_fails by blast
    then have "within K t" "keeps_others f s t" using within_same held_same w within_fresh by (blast, unfold keeps_others_def, blast)
    then show ?thesis using Pair Fail by (simp add: registerNew_def wlp_def IfFailRet_def)
  qed (simp_all add: Pair registerNew_def wlp_def IfFailRet_def)
qed

lemma CreateMethodInfo_registers:
  "CreateMethodInfo e f = IfFailRet (liftR (je_GetFunctionInfo e f)) (\<lambda>(moduleId, tk).
     Discard (lookupModule e moduleId) (\<lambda>r. case r of None \<Rightarrow> fail E_FAIL | Some p \<Rightarrow>
     Discard (Module_GetMethodInfoById p f) (\<lambda>r.
     IfFailRet (case r of None \<Rightarrow> ret () | Some old \<Rightarrow> liftR (je_fullName e old)) (\<lambda>_. registerNew e f tk p))))"
  unfolding CreateMethodInfo_def registerNew_def by (rule refl)

lemma wlp_same:
  assumes "framed m" "\<And>x t. same_registry s t \<Longrightarrow> Q x t" "\<And>t. same_registry s t \<Longrightarrow> R t"
  shows "wlp m Q R s"
  using assms by (auto simp: wlp_def keeping_def split: prod.splits result.splits) (metis snd_conv)+

lemma wlp_CreateMethodInfo:
  assumes w: "within K s"
    and ok: "\<And>m p tk t. within (insert (f, p, tk) K) t \<Longrightarrow> held m (f, p, tk) t \<Longrightarrow>
      keeps_others f s t \<Longrightarrow> Q m t"
    and no: "\<And>t. within K t \<Longrightarrow> keeps_others f s t \<Longrightarrow> R t"
  shows "wlp (CreateMethodInfo e f) Q R s"
proof -
  note fr = within_fresh [OF w]
  have ot: "keeps_others f s t" if "same_registry s t" for t using that fr held_same by (fastforce simp: keeps_others_def)
  have ot': "keeps_others f s u" if "same_registry s t" "keeps_others f t u" for t u
    using ot [OF that(1)] that(2) by (simp add: keeps_others_def)
  have R: "R t" if "same_registry s t" for t using that within_same w no ot by blast
  have reg: "wlp (registerNew e f tk p) Q R t" if t: "same_registry s t" for tk p t
    by (rule wlp_mono [OF registerNew_held [OF within_same [OF t w]]]) (auto intro: ok no ot' [OF t])
  have found: "wlp (Module_GetMethodInfoById p f) (\<lambda>old. wlp (liftR (je_fullName e old)) (\<lambda>_. wlp (registerNew e f tk p) Q R) R)
      (wlp (registerNew e f tk p) Q R) t" if "same_registry s t" for p tk t
    by (rule wlp_same [OF framed_reads(4)]; (rule wlp_same [OF registry.pure(3)])?) (auto intro!: reg R intro: same_registry_trans [OF that] same_registry_trans)
  have look: "wlp (lookupModule e i) (\<lambda>p. wlp (Module_GetMethodInfoById p f) (\<lambda>old. wlp (liftR (je_fullName e old)) (\<lambda>_. wlp (registerNew e f tk p) Q R) R)
      (wlp (registerNew e f tk p) Q R)) R t" if "same_registry s t" for i tk t
    by (rule wlp_same [OF framed_access(5)]) (auto intro!: found R intro: same_registry_trans [OF that])
  show ?thesis unfolding CreateMethodInfo_registers wlp_IfFailRet
    by (rule wlp_same [OF registry.pure(3)]) (auto intro: look R split: prod.splits)
qed

section \<open>The callbacks\<close>

lemma framed_SendToRaw: "clients_framed e \<Longrightarrow> framed (SendToRaw e rc b)"
  by (auto simp: clients_keep_def SendToRaw_def intro!: frames split: option.splits)

lemma framed_Clear: "framed (ClearILTransformationStatus e i tk)" "framed (ClearILTransformationStatusOf e f)"
  unfolding ClearILTransformationStatusOf_def ClearILTransformationStatus_def by (intro frames)+

lemma framed_SendJitStarted: "clients_framed e \<Longrightarrow> framed (SendJitStarted e f b)"
  unfolding SendJitStarted_def by (intro frames framed_loops(1)) (simp add: clients_keep_def)

lemma framed_recordInlineSite [frames]: "framed (recordInlineSite p i j r)"
  by (simp add: keeping_def recordInlineSite_def same_registry_def methods_fresh_def split: prod.splits)

lemma framed_decideInlining:
  assumes "clients_framed e"
  shows "framed (decideInlining e caller callee m n)"
  unfolding decideInlining_def CallAllowInlineOnInstrumentationMethods_def
  using assms by (intro frames framed_SendToRaw framed_loops(4) framed_updModule) (simp_all add: clients_keep_def)

lemma within_held_same:
  "same_registry s t \<Longrightarrow> within K s \<and> held m k s \<Longrightarrow> within K t \<and> held m k t"
  by (meson held_same within_fresh within_same)

text \<open>A callback that works with a registered method and then cleans it up.\<close>

lemma wlp_with_method:
  assumes "framed body" "within (insert (f, p, tk) K) s" "held m (f, p, tk) s"
    and "\<And>t. within K t \<Longrightarrow> keeps_others f s t \<Longrightarrow> P t"
  shows "wlp (Finally body (Cleanup m)) (\<lambda>_. P) P s"
proof -
  have c: "wlp (Cleanup m) (\<lambda>_. P) P t" if t: "same_registry s t" for t
  proof (rule wlp_Cleanup)
    show "held m (f, p, tk) t" "within (insert (f, p, tk) K) t" using within_held_same [OF t] assms(2,3) by blast+
    fix u assume "within K u" "keeps_others f t u"
    moreover have "keeps_others f s t" using held_same [OF t within_fresh [OF assms(2)]] by (simp add: keeps_others_def)
    ultimately show "P u" using assms(4) by (simp add: keeps_others_def)
  qed
  show ?thesis unfolding wlp_Finally by (rule wlp_same [OF assms(1)]) (auto intro!: c)
qed

lemma wlp_JITCompilationStarted:
  assumes e: "clients_framed e" and w: "within {} s"
  shows "wlp (JITCompilationStarted e f b) (\<lambda>_. within {}) (within {}) s"
proof -
  let ?raw = "Raw_JITCompilationStarted f b"
  have body: "wlp (Finally (instrument e m False ?raw) (Cleanup m)) (\<lambda>_. within {}) (within {}) u"
    if "within (insert (f, p, tk) {}) t" "held m (f, p, tk) t" "same_registry t u" for m p tk t u
  proof -
    have u: "within (insert (f, p, tk) {}) u" "held m (f, p, tk) u" using within_held_same [OF that(3)] that(1,2) by blast+
    show ?thesis by (rule wlp_with_method [OF framed_instrument [OF e] u])
  qed
  have "wlp (Discard (CreateMethodInfo e f) (\<lambda>r. Discard (ClearILTransformationStatusOf e f) (\<lambda>_.
     case r of None \<Rightarrow> ret () | Some m \<Rightarrow> Finally (instrument e m False ?raw) (Cleanup m)))) (\<lambda>_. within {}) (within {}) t"
    if "within {} t" for t unfolding wlp_Discard
    by (rule wlp_CreateMethodInfo [OF that]; rule wlp_same [OF framed_Clear(2)]) (auto intro: body within_same)
  then have go: "wlp (SendJitStarted e f False) (\<lambda>_. wlp (Discard (CreateMethodInfo e f) (\<lambda>r. Discard (ClearILTransformationStatusOf e f) (\<lambda>_.
     case r of None \<Rightarrow> ret () | Some m \<Rightarrow> Finally (instrument e m False ?raw) (Cleanup m)))) (\<lambda>_. within {}) (within {})) (within {}) s"
    by (intro wlp_same [OF framed_SendJitStarted [OF e]]) (auto simp del: wlp_Discard intro: within_same [OF _ w])
  have "wlp (SendToRaw e ?raw False) (\<lambda>_. within {}) (within {}) s"
    by (rule wlp_framed [OF framed_SendToRaw [OF e]]) (rule within_same [OF _ w])
  then show ?thesis using go by (simp add: JITCompilationStarted_def Let_def)
qed

lemma wlp_JITInlining:
  assumes e: "clients_framed e" and w: "within {} s"
  shows "wlp (JITInlining e caller callee) (\<lambda>_. within {}) (within {}) s"
proof -
  let ?two = "\<lambda>m. Discard (CreateMethodInfo e caller) (\<lambda>r. case r of None \<Rightarrow> ret True | Some site \<Rightarrow>
         Finally (decideInlining e caller callee m site) (Cleanup site))"
  let ?both = "\<lambda>m p tk u. within (insert (callee, p, tk) {}) u \<and> held m (callee, p, tk) u"
  have two: "wlp (?two m) (\<lambda>_. ?both m p tk) (?both m p tk) t" if "?both m p tk t" "callee \<noteq> caller" for m p tk t
    unfolding wlp_Discard
  proof (rule wlp_CreateMethodInfo [OF conjunct1 [OF that(1)]], goal_cases)
    case (1 site p' tk' u)
    show ?case unfolding option.case
    proof (rule wlp_with_method [OF framed_decideInlining [OF e] 1(1,2)])
      fix v assume "within (insert (callee, p, tk) {}) v" "keeps_others caller u v"
      then show "?both m p tk v" using 1(3) that by (simp add: keeps_others_def)
    qed
  next
    case (2 u)
    then show ?case using that by (simp add: keeps_others_def)
  qed
  have cl: "wlp (Cleanup m) (\<lambda>_. within {}) (within {}) t" if "?both m p tk t" for m p tk t
    using that by (intro wlp_Cleanup) auto
  have "wlp (Finally (if callee \<noteq> caller then ?two m else decideInlining e caller callee m m) (Cleanup m)) (\<lambda>_. within {}) (within {}) t"
    if t: "?both m p tk t" for m p tk t
  proof (cases "callee = caller")
    case True
    then show ?thesis using wlp_with_method [OF framed_decideInlining [OF e] conjunct1 [OF t] conjunct2 [OF t]] by simp
  next
    case False
    then show ?thesis using wlp_mono [OF two [OF t False] cl cl] by (simp add: wlp_Finally del: wlp_Discard)
  qed
  then have "wlp (CreateMethodInfo e callee) (\<lambda>m. wlp (Finally (if callee \<noteq> caller then ?two m else decideInlining e caller callee m m) (Cleanup m))
      (\<lambda>_. within {}) (within {})) (within {}) s"
    by (intro wlp_CreateMethodInfo [OF w]) blast+
  moreover have "wlp (SendToRaw e rc False) (\<lambda>_. within {}) (within {}) s" for rc
    by (rule wlp_framed [OF framed_SendToRaw [OF e]]) (rule within_same [OF _ w])
  ultimately show ?thesis by (simp add: JITInlining_def)
qed

text \<open>During a recompilation the method is registered under its token only.\<close>

definition by_token :: "mid \<Rightarrow> addr \<Rightarrow> mdToken \<Rightarrow> jit \<Rightarrow> bool" where
  "by_token m p tk s \<longleftrightarrow> methods_fresh s \<and> j_methodInfos s = Map.empty \<and> (\<forall>q. mm_methodInfos (j_modules s q) = Map.empty) \<and>
     (\<forall>q t. q \<noteq> p \<or> t \<noteq> tk \<longrightarrow> mm_methodInfosByToken (j_modules s q) t = None) \<and> map_option link_id (j_methods s m) = Some (0, tk, p, False)"

lemma by_token_same: "same_registry s t \<Longrightarrow> by_token m p tk s \<Longrightarrow> by_token m p tk t"
  by (fastforce simp: by_token_def same_registry_def)

lemma within_empty: "within {} s \<longleftrightarrow> methods_fresh s \<and> j_methodInfos s = Map.empty \<and>
    (\<forall>p. mm_methodInfos (j_modules s p) = Map.empty \<and> mm_methodInfosByToken (j_modules s p) = Map.empty)"
  by (auto simp: within_def fun_eq_iff)

lemma new_for_rejit:
  assumes w: "within {} s" and m: "new_CMethodInfo e 0 tk p True s = (Ok m, t)"
  shows "\<exists>u. IfFailRet (Method_Initialize m False True) (\<lambda>_. IfFailRet (SetRejitMethodInfo p tk (Some m)) (\<lambda>_. ret m)) t = (Ok m, u) \<and> by_token m p tk u"
proof -
  note n = new_CMethodInfo_exec [OF m]
  obtain l where l: "j_methods t = (j_methods s)(m \<mapsto> l)" "link_id l = (0, tk, p, False)" using n(5) by blast
  then show ?thesis using w n(1-4)
    by (auto simp: Method_Initialize_def IncrementMethodRejitCount_def SetRejitMethodInfo_def linkAt_def updLink_def setLink_def updModule_def
      op_defs IfFailRet_def link_id_def by_token_def within_empty methods_fresh_def)
qed

lemma wlp_CreateMethodInfoForRejit:
  assumes w: "within {} s" and ok: "\<And>m p t. by_token m p tk t \<Longrightarrow> Q m t" and no: "\<And>t. within {} t \<Longrightarrow> R t"
  shows "wlp (CreateMethodInfoForRejit e i tk) Q R s"
proof -
  have "wlp (IfFailRet (new_CMethodInfo e 0 tk p True) (\<lambda>m. IfFailRet (Method_Initialize m False True) (\<lambda>_.
     IfFailRet (SetRejitMethodInfo p tk (Some m)) (\<lambda>_. ret m)))) Q R t" if t: "within {} t" for p t
  proof (cases "new_CMethodInfo e 0 tk p True t")
    case (Pair r u)
    show ?thesis
    proof (cases r)
      case (Ok m)
      then show ?thesis using new_for_rejit [OF t Pair [unfolded Ok]] ok Pair unfolding wlp_def by (auto simp del: IfFailRet_prim)
    next
      case (Fail hr)
      then show ?thesis using new_CMethodInfo_fails [OF Pair [unfolded Fail]] within_same t no Pair
        by (auto simp del: wlp_IfFailRet simp: wlp_def)
    qed (simp_all add: Pair wlp_def IfFailRet_def)
  qed
  then show ?thesis unfolding CreateMethodInfoForRejit_def wlp_IfFailRet [of "lookupModule e i"]
    by (intro wlp_same [OF framed_access(5)]) (auto simp del: wlp_IfFailRet intro: within_same [OF _ w] no)
qed

lemma wlp_GetReJITParameters:
  assumes e: "clients_framed e" and w: "within {} s"
  shows "wlp (GetReJITParameters e i tk) (\<lambda>_. within {}) (within {}) s"
proof -
  have rel: "wlp (SetRejitMethodInfo p tk None) (\<lambda>_. within {}) (within {}) t" if "by_token m p tk t" for m p t
    using that by (auto simp: wlp_def SetRejitMethodInfo_def updModule_def op_defs by_token_def within_empty methods_fresh_def fun_eq_iff)
  have body: "wlp (Finally (instrument e m True rc) (SetRejitMethodInfo p tk None)) (\<lambda>_. within {}) (within {}) t" if "by_token m p tk t" for m p rc t
    unfolding wlp_Finally by (rule wlp_same [OF framed_instrument [OF e]]) (auto intro: rel by_token_same [OF _ that])
  have link: "wlp (linkAt m) (\<lambda>l. wlp (Finally (instrument e m True rc) (SetRejitMethodInfo (jm_pModuleInfo l) tk None)) (\<lambda>_. within {}) (within {}))
      (within {}) t" if bt: "by_token m p tk t" for m p rc t
  proof -
    obtain l where l: "j_methods t m = Some l" "jm_pModuleInfo l = p" using bt by (auto simp: by_token_def link_id_def)
    then have "linkAt m t = (Ok l, t)" by (simp add: linkAt_def op_defs IfFailRet_def)
    then show ?thesis using body [OF bt] l(2) by (simp add: wlp_def [of "linkAt m"])
  qed
  have "wlp (CreateMethodInfoForRejit e i tk) (\<lambda>m. wlp (Discard (ClearILTransformationStatus e i tk) (\<lambda>_.
      IfFailRet (linkAt m) (\<lambda>l. Finally (instrument e m True (Raw_GetReJITParameters i tk m)) (SetRejitMethodInfo (jm_pModuleInfo l) tk None))))
      (\<lambda>_. within {}) (within {})) (within {}) s"
    unfolding wlp_Discard wlp_IfFailRet
    by (rule wlp_CreateMethodInfoForRejit [OF w]) (rule wlp_same [OF framed_Clear(1)]; auto intro: link by_token_same)
  moreover have "wlp (SendToRaw e rc False) (\<lambda>_. within {}) (within {}) s" for rc
    by (rule wlp_framed [OF framed_SendToRaw [OF e]]) (rule within_same [OF _ w])
  ultimately show ?thesis by (simp add: GetReJITParameters_def)
qed

end
