(* ===== verification/JitClaims.thy ===== *)
theory JitClaims
  imports JitReg RenderClaims
begin

text \<open>
  The compilation of methods: no method object stays registered, clients and runtime are called in a fixed order, and the runtime gets
  the body that the clients and the rendering made.
\<close>

section \<open>Registries\<close>

definition runCallbacks :: "jitEnv \<Rightarrow> jitCallback list \<Rightarrow> (jit, unit) op" where
  "runCallbacks e = each (\<lambda>cb. Discard (deliverJit e cb) (\<lambda>_. ret ()))"

lemma wlp_deliverJit: "clients_framed e \<Longrightarrow> within {} s \<Longrightarrow> wlp (deliverJit e cb) (\<lambda>_. within {}) (within {}) s"
  by (cases cb) (simp_all add: wlp_JITCompilationStarted wlp_GetReJITParameters wlp_JITInlining)

lemma wlp_runCallbacks:
  assumes "clients_framed e"
  shows "within {} s \<Longrightarrow> wlp (runCallbacks e cbs) (\<lambda>_. within {}) (within {}) s"
proof (induction cbs arbitrary: s)
  case (Cons cb cbs)
  then show ?case using wlp_mono [OF wlp_deliverJit [OF assms Cons.prems]] by (simp add: runCallbacks_def)
qed (simp add: runCallbacks_def)

text \<open>C13. However the instrumentation methods and a raw profiler behave, as long as they only use the engine's interfaces: after any
  sequence of compilations, recompilations and inlining decisions, successful or failed, neither the manager nor a module knows a
  method object any more, under its function or under its token.\<close>

theorem jit_callbacks_leave_no_method:
  assumes "clients_framed e" and "methods_fresh s" "j_methodInfos s = Map.empty"
    and "\<And>p. mm_methodInfos (j_modules s p) = Map.empty" "\<And>p. mm_methodInfosByToken (j_modules s p) = Map.empty"
    and "runCallbacks e cbs s = (Ok (), t)"
  shows "j_methodInfos t = Map.empty \<and> (\<forall>p. mm_methodInfos (j_modules t p) = Map.empty \<and> mm_methodInfosByToken (j_modules t p) = Map.empty)"
  using wlp_runCallbacks [OF assms(1), of s cbs] assms(2-6) by (simp add: within_empty wlp_def)

section \<open>The order of calls\<close>

text \<open>A call sends, if it succeeds, one of the lists in \<open>S\<close>, and if it does not, a first part of one.\<close>

definition emits :: "jitEvent list set \<Rightarrow> ('a \<Rightarrow> bool) \<Rightarrow> (jit, 'a) op \<Rightarrow> bool" where
  "emits S P m \<longleftrightarrow> (\<forall>s. \<exists>L \<in> S. \<exists>l. prefix l L \<and> j_events (snd (m s)) = j_events s @ l \<and> (\<forall>x. fst (m s) = Ok x \<longrightarrow> P x \<and> l = L))"

definition followed :: "'a list set \<Rightarrow> 'a list set \<Rightarrow> 'a list set" where
  "followed S T = {a @ b | a b. a \<in> S \<and> b \<in> T}"

lemma emitsD:
  assumes "emits S P m" "m s = (r, t)"
  obtains L l where "L \<in> S" "prefix l L" "j_events t = j_events s @ l" "\<And>x. r = Ok x \<Longrightarrow> P x \<and> l = L"
  using assms by (fastforce simp: emits_def dest!: spec [of _ s])

lemma emitsI:
  assumes "\<And>s r t. m s = (r, t) \<Longrightarrow> \<exists>L \<in> S. \<exists>l. prefix l L \<and> j_events t = j_events s @ l \<and> (\<forall>x. r = Ok x \<longrightarrow> P x \<and> l = L)"
  shows "emits S P m"
  unfolding emits_def using assms by (metis prod.collapse)

lemma emits_silent: "silent m \<Longrightarrow> emits {[]} (\<lambda>_. True) m"
  by (auto simp: emits_def keeping_def same_events_def)

lemma emits_mono: "emits S P m \<Longrightarrow> S \<subseteq> T \<Longrightarrow> emits T P m"
  by (fastforce simp: emits_def)

lemma emits_record: "emits {[ev]} (\<lambda>_. True) (record_event ev)"
  by (simp add: emits_def record_event_def op_defs)

lemma emits_bind:
  assumes m: "emits S P m" and k: "\<And>x. P x \<Longrightarrow> emits T Q (k x)" and "T \<noteq> {}"
  shows "emits (followed S T) Q (IfFailRet m k)"
proof (rule emitsI)
  fix s r t assume e: "IfFailRet m k s = (r, t)"
  obtain r1 t1 where 1: "m s = (r1, t1)" by fastforce
  obtain L l where L: "L \<in> S" "prefix l L" "j_events t1 = j_events s @ l" "\<And>x. r1 = Ok x \<Longrightarrow> P x \<and> l = L" using emitsD [OF m 1] by blast
  show "\<exists>L \<in> followed S T. \<exists>l. prefix l L \<and> j_events t = j_events s @ l \<and> (\<forall>x. r = Ok x \<longrightarrow> Q x \<and> l = L)"
  proof (cases "\<exists>x. r1 = Ok x")
    case True
    then obtain x where x: "r1 = Ok x" by blast
    obtain M n where M: "M \<in> T" "prefix n M" "j_events t = j_events t1 @ n" "\<And>y. r = Ok y \<Longrightarrow> Q y \<and> n = M"
      using e 1 x L(4) k emitsD [of T Q "k x" t1 r t] by (auto simp: IfFailRet_def)
    have "L @ M \<in> followed S T" using L(1) M(1) by (auto simp: followed_def)
    moreover have "prefix (L @ n) (L @ M)" using M(2) by simp
    ultimately show ?thesis using L(3,4) x M(3,4) by (intro bexI [of _ "L @ M"] exI [of _ "L @ n"]) auto
  next
    case False
    then have r: "\<nexists>y. r = Ok y" "t = t1" using e 1 by (cases r1; auto simp: IfFailRet_def)+
    obtain M where "M \<in> T" using assms(3) by blast
    then have "L @ M \<in> followed S T" using L(1) by (auto simp: followed_def)
    then show ?thesis using L(2,3) r by (intro bexI [of _ "L @ M"] exI [of _ l]) auto
  qed
qed

lemma emits_bind1:
  assumes "emits {a} P m" "\<And>x. P x \<Longrightarrow> emits T Q (k x)" "T \<noteq> {}"
  shows "emits ((@) a ` T) Q (IfFailRet m k)"
proof -
  have "followed {a} T = (@) a ` T" by (auto simp: followed_def)
  then show ?thesis using emits_bind [OF assms(1) assms(2) assms(3)] by simp
qed

lemma emits_after_silent:
  assumes "silent m" "\<And>x. emits T Q (k x)" "T \<noteq> {}"
  shows "emits T Q (IfFailRet m k)"
  using emits_bind1 [OF emits_silent [OF assms(1)] assms(2,3)] by simp

lemma emits_discard:
  assumes "silent m" "\<And>x. emits T Q (k x)" "T \<noteq> {}"
  shows "emits T Q (Discard m k)"
proof (rule emitsI)
  fix s r t assume e: "Discard m k s = (r, t)"
  obtain r1 t1 where 1: "m s = (r1, t1)" by fastforce
  then have 2: "j_events t1 = j_events s" using assms(1) by (metis keeping_def same_events_def snd_conv)
  consider x where "k x t1 = (r, t)" | "\<nexists>y. r = Ok y" "t = t1" using e 1 by (cases r1) (auto simp: Discard_def)
  then show "\<exists>L \<in> T. \<exists>l. prefix l L \<and> j_events t = j_events s @ l \<and> (\<forall>x. r = Ok x \<longrightarrow> Q x \<and> l = L)"
  proof cases
    case 1
    then show ?thesis using emitsD [OF assms(2)] 2 by metis
  next
    case 2
    then show ?thesis using \<open>j_events t1 = j_events s\<close> assms(3) by fastforce
  qed
qed

lemma emits_finally:
  assumes m: "emits S P m" and c: "silent c"
  shows "emits S P (Finally m c)"
proof (rule emitsI)
  fix s r t assume e: "Finally m c s = (r, t)"
  obtain r1 t1 where 1: "m s = (r1, t1)" by fastforce
  have "j_events t = j_events t1 \<and> (\<forall>x. r = Ok x \<longrightarrow> r1 = Ok x)"
    using e 1 c unfolding keeping_def same_events_def
    by (cases r1) (auto simp: Finally_def Discard_def op_defs split: prod.splits result.splits dest!: spec [of _ t1])
  then show "\<exists>L \<in> S. \<exists>l. prefix l L \<and> j_events t = j_events s @ l \<and> (\<forall>x. r = Ok x \<longrightarrow> P x \<and> l = L)"
    using emitsD [OF m 1] by metis
qed

text \<open>The events of one question to several clients, and of a final body.\<close>

definition askAll :: "nat list \<Rightarrow> clientCall \<Rightarrow> jitEvent list" where
  "askAll is c = map (\<lambda>i. ToClient i c) is"

definition startedClients :: "client list \<Rightarrow> nat \<Rightarrow> nat list" where
  "startedClients cs i = map fst (filter (\<lambda>(i, c). c_JitStarted c \<noteq> None) (enumerate i cs))"

definition rawEvents :: "jitEnv \<Rightarrow> rawCall \<Rightarrow> jitEvent list" where
  "rawEvents e rc = (case je_raw e of None \<Rightarrow> [] | Some f \<Rightarrow> [ToRaw rc])"

text \<open>What the runtime is told about a final body, when the method is compiled and when it is recompiled.\<close>

inductive final_calls :: "mid \<Rightarrow> runtimeCall list \<Rightarrow> bool" where
  jit: "final_calls m [RT_SetILFunctionBody i tk body]"
| jit_map: "final_calls m [RT_SetILFunctionBody i tk body, RT_SetILInstrumentedCodeMap f es]"
| rejit: "final_calls m [FC_SetILFunctionBody m body, FC_SetCodegenFlags m flags, FC_SetILInstrumentedCodeMap m es]"

definition finals :: "mid \<Rightarrow> jitEvent list set" where
  "finals m = {map ToRuntime cs | cs. final_calls m cs}"

lemma finalsI: "final_calls m cs \<Longrightarrow> map ToRuntime cs \<in> finals m"
  by (auto simp: finals_def)

lemmas finals_intros = finalsI [OF final_calls.jit, simplified] finalsI [OF final_calls.jit_map, simplified] finalsI [OF final_calls.rejit, simplified]

lemma emits_record_then: "silent k \<Longrightarrow> emits {[ev]} (\<lambda>_. True) (IfFailRet (record_event ev) (\<lambda>_. k))"
  using emits_bind1 [OF emits_record emits_silent] by simp

lemma emits_callRuntime: "emits {[ToRuntime c]} (\<lambda>_. True) (callRuntime e c)"
  unfolding callRuntime_def by (rule emits_record_then) (intro silents)

lemma emits_discard_always:
  assumes "\<And>s. j_events (snd (m s)) = j_events s @ L"
  shows "emits {L} (\<lambda>_. True) (Discard m (\<lambda>_. ret x))"
proof (rule emitsI)
  fix s r t assume "Discard m (\<lambda>_. ret x) s = (r, t)"
  then have "t = snd (m s)" by (auto simp: Discard_def op_defs split: prod.splits result.splits)
  then show "\<exists>L' \<in> {L}. \<exists>l. prefix l L' \<and> j_events t = j_events s @ l \<and> (\<forall>x. r = Ok x \<longrightarrow> True \<and> l = L')" using assms by simp
qed

lemma emits_one: "emits {a} P m \<Longrightarrow> a \<in> T \<Longrightarrow> emits T P m"
  by (rule emits_mono) auto

lemma emits_fail: "T \<noteq> {} \<Longrightarrow> emits T P (fail hr)"
  by (fastforce simp: emits_def op_defs)

lemma emits_if: "(b \<Longrightarrow> emits S P m) \<Longrightarrow> (\<not> b \<Longrightarrow> emits S P n) \<Longrightarrow> emits S P (if b then m else n)"
  by simp

lemma emits_ApplyFinal: "emits (finals m) (\<lambda>_. True) (ApplyFinalInstrumentation e m)"
proof -
  let ?M = "insert [] {[ToRuntime (RT_SetILInstrumentedCodeMap f es)] | f es. True}"
  have jit: "emits ((@) [ToRuntime (RT_SetILFunctionBody i tk body)] ` ?M) (\<lambda>_. True) (IfFailRet (callRuntime e (RT_SetILFunctionBody i tk body)) (\<lambda>_.
     IfFailRet (SetMethodIsTransformed p tk True) (\<lambda>_.
     IfFailRet (bodyAt m) (\<lambda>mi.
     if m_pCorILMap mi \<noteq> [] then callRuntime e (RT_SetILInstrumentedCodeMap f (m_pCorILMap mi)) else ret ()))))" for i tk body f p
    by (rule emits_bind1 [OF emits_callRuntime], rule emits_after_silent, intro silents, rule emits_after_silent, intro silents, rule emits_if)
      (auto intro: emits_one [OF emits_callRuntime] emits_one [OF emits_silent [OF sent.pure(1)]])
  have sub: "(@) [ToRuntime (RT_SetILFunctionBody i tk body)] ` ?M \<subseteq> finals m" for i tk body
    by (auto intro: finals_intros)
  have ne: "finals m \<noteq> {}" using finals_intros(1) by blast
  have J: "emits (finals m) (\<lambda>_. True) (applyJit e m l)" for l
    unfolding applyJit_def
    by (rule emits_after_silent, intro silents, rule emits_after_silent, intro silents, clarsimp, rule emits_mono [OF jit sub], rule ne, rule ne)
  let ?E = "{[ToRuntime (FC_SetILInstrumentedCodeMap m es)] | es. True}"
  have last: "emits ?E (\<lambda>_. True) (Discard (callRuntime e (FC_SetILInstrumentedCodeMap m es)) (\<lambda>_. ret ()))" for es
    by (rule emits_one [OF emits_discard_always]) (auto simp: callRuntime_def record_event_def op_defs IfFailRet_def)
  have rejit: "emits ((@) [ToRuntime (FC_SetILFunctionBody m body)] ` (@) [ToRuntime (FC_SetCodegenFlags m flags)] ` ?E) (\<lambda>_. True)
     (IfFailRet (callRuntime e (FC_SetILFunctionBody m body)) (\<lambda>_.
     IfFailRet (SetMethodIsTransformed p tk True) (\<lambda>_.
     IfFailRet (callRuntime e (FC_SetCodegenFlags m flags)) (\<lambda>_.
     IfFailRet (GetMethodRejitCount p tk) (\<lambda>rejitCount.
     IfFailRet (bodyAt m) (\<lambda>mi.
     Discard (callRuntime e (FC_SetILInstrumentedCodeMap m
       (if rejitCount \<noteq> 0 then m_pCorILMap mi @ [rejitMarker rejitCount] else m_pCorILMap mi))) (\<lambda>_. ret ())))))))" for body flags p tk
    by (rule emits_bind1 [OF emits_callRuntime], rule emits_after_silent, intro silents, rule emits_bind1 [OF emits_callRuntime],
      rule emits_after_silent, intro silents, rule emits_after_silent, intro silents, rule last) auto
  have sub': "(@) [ToRuntime (FC_SetILFunctionBody m body)] ` (@) [ToRuntime (FC_SetCodegenFlags m flags)] ` ?E \<subseteq> finals m" for body flags
    by (auto intro: finals_intros)
  have R: "emits (finals m) (\<lambda>_. True) (applyRejit e m l)" for l
    unfolding applyRejit_def
    by (intro emits_if emits_fail ne emits_after_silent silents) (clarsimp, rule emits_mono [OF rejit sub'])
  show ?thesis unfolding ApplyFinalInstrumentation_def
    by (intro emits_after_silent silents emits_if emits_fail ne J R)
qed

abbreviation client_silent :: "client \<Rightarrow> bool" where
  "client_silent \<equiv> client_keeps same_events"

lemma emits_step:
  assumes "silent k" "\<And>x. emits {l} Q (rest x)"
  shows "emits {ev # l} Q (IfFailRet (record_event ev) (\<lambda>_. IfFailRet k rest))"
  using emits_bind1 [OF emits_record, of "{l}" Q "\<lambda>_. IfFailRet k rest" ev] emits_after_silent [OF assms(1), of "{l}" Q rest] assms(2) by simp

lemma emits_jitStarted_loop:
  "list_all client_silent cs \<Longrightarrow> emits {askAll (startedClients cs i) (JitStarted f b)} (\<lambda>_. True) (jitStarted_loop cs i f b hr)"
proof (induction cs arbitrary: i hr)
  case (Cons c cs)
  then show ?case
    by (cases "c_JitStarted c") (auto simp: askAll_def startedClients_def client_keeps_def intro!: emits_step)
qed (simp add: askAll_def startedClients_def emits_silent sent.pure)

definition positions :: "nat \<Rightarrow> 'a list \<Rightarrow> nat list" where
  "positions i cs = [i..<i + length cs]"

lemma positions_simps [simp]: "positions i [] = []" "positions i (c # cs) = i # positions (Suc i) cs"
  unfolding positions_def by (simp, simp only: length_Cons add_Suc_right add_Suc) (subst upt_conv_Cons; simp)

lemma emits_should_loop:
  "list_all client_silent cs \<Longrightarrow> emits {askAll (positions i cs) (ShouldInstrumentMethod m b)} (\<lambda>_. True) (should_loop cs i m b)"
proof (induction cs arbitrary: i)
  case (Cons c cs)
  have rest: "emits {askAll (positions (Suc i) cs) (ShouldInstrumentMethod m b)} (\<lambda>_. True)
      (IfFailRet (should_loop cs (Suc i) m b) (\<lambda>rest. ret (if x then (i, c) # rest else rest)))" for x
    using emits_bind [OF Cons.IH emits_silent [OF sent.pure(1)]] Cons.prems by (simp add: followed_def)
  show ?case using Cons.prems rest
    by (simp only: positions_simps askAll_def list.map should_loop.simps)
     (rule emits_step; auto simp: client_keeps_def split: prod.splits)
qed (simp add: askAll_def emits_silent sent.pure)

lemma emits_result: "emits S P m \<Longrightarrow> (\<And>s x t. m s = (Ok x, t) \<Longrightarrow> Q x) \<Longrightarrow> emits S Q m"
  unfolding emits_def by (metis prod.collapse)

lemma emits_each:
  assumes "\<And>x. x \<in> set xs \<Longrightarrow> emits {[ev x]} (\<lambda>_. True) (f x)"
  shows "emits {map ev xs} (\<lambda>_. True) (each f xs)"
  using assms
proof (induction xs)
  case (Cons x xs)
  then show ?case using emits_bind1 [of "[ev x]" "\<lambda>_. True" "f x" "{map ev xs}" "\<lambda>_. True" "\<lambda>_. each f xs"] by simp
qed (simp add: emits_silent sent.pure)

lemma complete_loop_events:
  "list_all client_silent cs \<Longrightarrow> emits {askAll (positions i cs) (OnInstrumentationComplete m b)} (\<lambda>_. True) (complete_loop cs i m b)"
proof (induction cs arbitrary: i)
  case (Cons c cs)
  have "emits {askAll (positions (Suc i) cs) (OnInstrumentationComplete m b)} (\<lambda>_. True)
      (Discard (c_OnInstrumentationComplete c m b) (\<lambda>_. complete_loop cs (Suc i) m b))"
    using Cons by (intro emits_discard) (auto simp: client_keeps_def)
  then show ?case using emits_bind1 [OF emits_record, of "{askAll (positions (Suc i) cs) (OnInstrumentationComplete m b)}"]
    by (simp add: askAll_def)
qed (simp add: askAll_def emits_silent sent.pure)

lemma complete_loop_not_fail: "complete_loop cs i m b s \<noteq> (Fail hr, t)"
  by (induction cs arbitrary: i s) (auto simp: Discard_def IfFailRet_def op_defs record_event_def split: prod.splits result.splits)

lemma emits_discard_sure:
  assumes "emits S P m" "\<And>s hr t. m s \<noteq> (Fail hr, t)"
  shows "emits S (\<lambda>_. True) (Discard m (\<lambda>_. ret x))"
proof (rule emitsI)
  fix s r t assume "Discard m (\<lambda>_. ret x) s = (r, t)"
  moreover obtain r1 t1 where 1: "m s = (r1, t1)" by fastforce
  ultimately have "t = t1" "\<And>y. r = Ok y \<Longrightarrow> \<exists>z. r1 = Ok z" using assms(2) [of s] by (cases r1; auto simp: Discard_def op_defs)+
  then show "\<exists>L \<in> S. \<exists>l. prefix l L \<and> j_events t = j_events s @ l \<and> (\<forall>x. r = Ok x \<longrightarrow> True \<and> l = L)" using emitsD [OF assms(1) 1] by metis
qed

lemma emits_before_silent:
  assumes "emits {l} P m" "\<And>x. silent (k x)"
  shows "emits {l} (\<lambda>_. True) (IfFailRet m k)"
  using emits_bind1 [OF assms(1) emits_silent [OF assms(2)]] by simp

lemma emits_wanted:
  assumes "\<And>x. x \<in> set xs \<Longrightarrow> client_silent (snd x)"
  shows "emits {askAll (map fst xs) (BeforeInstrumentMethod m b)} (\<lambda>_. True) (CallBeforeInstrumentMethodOnInstrumentationMethods m b xs)"
    and "emits {askAll (map fst xs) (InstrumentMethod m b)} (\<lambda>_. True) (CallInstrumentOnInstrumentationMethods e m b xs)"
proof -
  have "emits {map (\<lambda>x. ToClient (fst x) (BeforeInstrumentMethod m b)) xs} (\<lambda>_. True) (each (beforeInstrument m b) xs)"
    using assms by (intro emits_each) (auto simp: beforeInstrument_def client_keeps_def split: prod.splits intro!: emits_record_then)
  then show "emits {askAll (map fst xs) (BeforeInstrumentMethod m b)} (\<lambda>_. True) (CallBeforeInstrumentMethodOnInstrumentationMethods m b xs)"
    unfolding CallBeforeInstrumentMethodOnInstrumentationMethods_def askAll_def map_map comp_def by (rule emits_before_silent) (intro silents)
  have "emits {map (\<lambda>x. ToClient (fst x) (InstrumentMethod m b)) xs} (\<lambda>_. True) (each (instrumentWith m b) xs)"
    using assms by (intro emits_each) (auto simp: instrumentWith_def client_keeps_def split: prod.splits intro!: emits_record_then)
  then have "emits {map (\<lambda>x. ToClient (fst x) (InstrumentMethod m b)) xs} (\<lambda>_. True) (IfFailRet (each (instrumentWith m b) xs) (\<lambda>_. renderBody e m))"
    unfolding renderBody_def by (rule emits_before_silent) (intro silents)
  then show "emits {askAll (map fst xs) (InstrumentMethod m b)} (\<lambda>_. True) (CallInstrumentOnInstrumentationMethods e m b xs)"
    unfolding CallInstrumentOnInstrumentationMethods_def askAll_def map_map comp_def by (auto simp: emits_silent sent.pure)
qed

text \<open>The events of the instrumentation of a method by the clients \<open>w\<close>.\<close>

definition instrumentOrder :: "jitEnv \<Rightarrow> mid \<Rightarrow> bool \<Rightarrow> nat list \<Rightarrow> rawCall \<Rightarrow> runtimeCall list \<Rightarrow> jitEvent list" where
  "instrumentOrder e m isRejit w rc calls = askAll (positions 0 (je_clients e)) (ShouldInstrumentMethod m isRejit) @
     askAll w (BeforeInstrumentMethod m isRejit) @ askAll w (InstrumentMethod m isRejit) @ rawEvents e rc @ map ToRuntime calls @
     askAll (positions 0 (je_clients e)) (OnInstrumentationComplete m isRejit)"

definition orders :: "jitEnv \<Rightarrow> mid \<Rightarrow> bool \<Rightarrow> rawCall \<Rightarrow> jitEvent list set" where
  "orders e m b rc = {l. \<exists>w calls. subseq w (positions 0 (je_clients e)) \<and> final_calls m calls \<and> prefix l (instrumentOrder e m b w rc calls)}"

lemma emits_instrument:
  assumes "clients_keep same_events e"
  shows "emits (orders e m b rc) (\<lambda>_. True) (instrument e m b rc)"
proof -
  let ?cs = "je_clients e"
  have cs: "list_all client_silent ?cs" and raw: "emits {rawEvents e rc} (\<lambda>_. True) (SendToRaw e rc False)"
    using assms by (auto simp: clients_keep_def SendToRaw_def rawEvents_def emits_silent sent.pure split: option.splits
      intro!: emits_record_then emits_silent silents)
  let ?T = "insert [] ((\<lambda>l. l @ askAll (positions 0 ?cs) (OnInstrumentationComplete m b)) ` finals m)"
  have ne: "finals m \<noteq> {}" using finals_intros(1) by blast
  have complete: "emits {askAll (positions 0 ?cs) (OnInstrumentationComplete m b)} (\<lambda>_. True)
      (Discard (CallOnInstrumentationComplete e m b) (\<lambda>_. ret ()))"
    unfolding CallOnInstrumentationComplete_def
    by (rule emits_discard_sure [OF complete_loop_events [OF cs] complete_loop_not_fail])
  have "followed (finals m) {askAll (positions 0 ?cs) (OnInstrumentationComplete m b)} \<subseteq> ?T" by (auto simp: followed_def)
  then have "emits ?T (\<lambda>_. True) (IfFailRet (ApplyFinalInstrumentation e m) (\<lambda>_. Discard (CallOnInstrumentationComplete e m b) (\<lambda>_. ret ())))"
    using emits_mono [OF emits_bind [OF emits_ApplyFinal complete]] by blast
  then have fin: "emits ?T (\<lambda>_. True) (IfFailRet (IsInstrumented m) (\<lambda>b'. if \<not> b' then ret () else
     IfFailRet (ApplyFinalInstrumentation e m) (\<lambda>_. Discard (CallOnInstrumentationComplete e m b) (\<lambda>_. ret ()))))"
    by - (rule emits_after_silent, intro silents, rule emits_if, auto intro: emits_one [OF emits_silent [OF sent.pure(1)]])
  let ?K = "\<lambda>w. (@) (askAll w (BeforeInstrumentMethod m b)) ` (@) (askAll w (InstrumentMethod m b)) ` (@) (rawEvents e rc) ` ?T"
  let ?U = "\<Union>w \<in> {w. subseq w (positions 0 ?cs)}. ?K w"
  have k: "emits ?U (\<lambda>_. True) (IfFailRet (CallBeforeInstrumentMethodOnInstrumentationMethods m b xs) (\<lambda>_.
     IfFailRet (CallInstrumentOnInstrumentationMethods e m b xs) (\<lambda>_.
     IfFailRet (SendToRaw e rc False) (\<lambda>_. IfFailRet (IsInstrumented m) (\<lambda>b'. if \<not> b' then ret () else
     IfFailRet (ApplyFinalInstrumentation e m) (\<lambda>_. Discard (CallOnInstrumentationComplete e m b) (\<lambda>_. ret ())))))))"
    if xs: "subseq xs (enumerate 0 ?cs)" for xs
  proof -
    have s: "client_silent (snd x)" if "x \<in> set xs" for x by (rule keeps_wanted [OF cs xs that])
    have "subseq (map fst xs) (map fst (enumerate 0 ?cs))" using xs by (rule subseq_map)
    then have "subseq (map fst xs) (positions 0 ?cs)" by (simp add: positions_def)
    then have "?K (map fst xs) \<subseteq> ?U" by blast
    then show ?thesis
      by (rule emits_mono [rotated]) (intro emits_bind1 [OF emits_wanted(1) [OF s]] emits_bind1 [OF emits_wanted(2) [OF s]] emits_bind1 [OF raw fin]; simp)
  qed
  have "positions 0 ?cs \<in> {w. subseq w (positions 0 ?cs)}" by simp
  then have ne': "?U \<noteq> {}" by blast
  have "emits {askAll (positions 0 ?cs) (ShouldInstrumentMethod m b)} (\<lambda>xs. subseq xs (enumerate 0 ?cs)) (CallShouldInstrumentOnInstrumentationMethods e m b)"
    unfolding CallShouldInstrumentOnInstrumentationMethods_def by (rule emits_result [OF emits_should_loop [OF cs] should_loop_subseq])
  note go = emits_bind1 [OF this k ne']
  have in_orders: "(@) (askAll (positions 0 ?cs) (ShouldInstrumentMethod m b)) ` ?U \<subseteq> orders e m b rc" "[] \<in> orders e m b rc"
    using final_calls.jit by (fastforce simp: orders_def instrumentOrder_def finals_def)+
  show ?thesis unfolding instrument_def
    by (rule emits_after_silent, intro silents, rule emits_after_silent, intro silents, rule emits_if)
     (auto intro: emits_one [OF emits_silent [OF sent.pure(1)]] in_orders emits_mono [OF go in_orders(1)])
qed

text \<open>What the clients answer when each is asked in the state the one before it left, and the positions of those that say yes.\<close>

fun answers :: "client list \<Rightarrow> nat \<Rightarrow> mid \<Rightarrow> bool \<Rightarrow> jit \<Rightarrow> bool list" where
  "answers [] i m isRejit s = []"
| "answers (c # cs) i m isRejit s = (case c_ShouldInstrumentMethod c m isRejit
       (s\<lparr> j_events := j_events s @ [ToClient i (ShouldInstrumentMethod m isRejit)] \<rparr>) of
     (Ok (hr, yes), t) \<Rightarrow> yes # answers cs (Suc i) m isRejit t | _ \<Rightarrow> [])"

definition yesPositions :: "nat \<Rightarrow> bool list \<Rightarrow> nat list" where
  "yesPositions i ys = map fst (filter snd (enumerate i ys))"

lemma record_event_eq: "record_event ev s = (Ok (), s\<lparr> j_events := j_events s @ [ev] \<rparr>)"
  by (cases s) (simp add: record_event_def op_defs)

lemma should_loop_answers: "should_loop cs i m b s = (Ok xs, t) \<Longrightarrow> map fst xs = yesPositions i (answers cs i m b s)"
proof (induction cs arbitrary: i s xs t)
  case (Cons c cs)
  let ?s = "s\<lparr> j_events := j_events s @ [ToClient i (ShouldInstrumentMethod m b)] \<rparr>"
  obtain hr y t1 rest t2 where 1: "c_ShouldInstrumentMethod c m b ?s = (Ok (hr, y), t1)" "should_loop cs (Suc i) m b t1 = (Ok rest, t2)"
    "xs = (if y then (i, c) # rest else rest)"
    using Cons.prems by (auto simp: IfFailRet_def record_event_eq op_defs split: prod.splits result.splits)
  show ?case using Cons.IH [OF 1(2)] 1(1,3) by (simp add: yesPositions_def)
qed (simp add: op_defs yesPositions_def)

text \<open>The events of a call from a state, with its outcome.\<close>

definition sends :: "(jit, 'a) op \<Rightarrow> jit \<Rightarrow> ('a result \<Rightarrow> jit \<Rightarrow> jitEvent list \<Rightarrow> bool) \<Rightarrow> bool" where
  "sends m s Q \<longleftrightarrow> (\<exists>l. j_events (snd (m s)) = j_events s @ l \<and> Q (fst (m s)) (snd (m s)) l)"

lemma sends_emits:
  assumes "emits S P m" and "\<And>L r t l. L \<in> S \<Longrightarrow> prefix l L \<Longrightarrow> (\<And>x. r = Ok x \<Longrightarrow> l = L) \<Longrightarrow> Q r t l"
  shows "sends m s Q"
proof -
  obtain r t where m: "m s = (r, t)" by fastforce
  show ?thesis unfolding sends_def m fst_conv snd_conv by (rule emitsD [OF assms(1) m]) (use assms(2) in blast)
qed

lemma sends_bind:
  assumes "emits S P m" and "\<And>L r t l. L \<in> S \<Longrightarrow> prefix l L \<Longrightarrow> (\<And>x. r \<noteq> Ok x) \<Longrightarrow> Q r t l"
    and "\<And>L x t. L \<in> S \<Longrightarrow> m s = (Ok x, t) \<Longrightarrow> P x \<Longrightarrow> sends (k x) t (\<lambda>r t l. Q r t (L @ l))"
  shows "sends (IfFailRet m k) s Q"
proof -
  obtain r t where m: "m s = (r, t)" by fastforce
  obtain L l where L: "L \<in> S" "prefix l L" "j_events t = j_events s @ l" "\<And>x. r = Ok x \<Longrightarrow> P x \<and> l = L" using emitsD [OF assms(1) m] by blast
  show ?thesis
  proof (cases r)
    case (Ok x)
    then obtain l' where "j_events (snd (k x t)) = j_events t @ l'" "Q (fst (k x t)) (snd (k x t)) (L @ l')"
      using assms(3) [OF L(1)] m L(4) by (auto simp: sends_def)
    then show ?thesis using m Ok L(3,4) by (auto simp: sends_def IfFailRet_def)
  qed (use assms(2) [OF L(1,2)] m L(3) in \<open>auto simp: sends_def IfFailRet_def\<close>)
qed

lemma sends_one:
  assumes "emits {L} P m" and "\<And>r t l. prefix l L \<Longrightarrow> (\<And>x. r \<noteq> Ok x) \<Longrightarrow> Q r t l"
    and "\<And>x t. sends (k x) t (\<lambda>r t l. Q r t (L @ l))"
  shows "sends (IfFailRet m k) s Q"
  by (rule sends_bind [OF assms(1)]) (use assms(2,3) in auto)

definition same_bodies :: "jit \<Rightarrow> jit \<Rightarrow> bool" where
  "same_bodies s t \<longleftrightarrow> j_world t = j_world s"

interpretation bodies: kept same_bodies
  by unfold_locales (simp_all add: same_bodies_def)

lemma bodies_modify: "(\<And>s. j_world (f s) = j_world s) \<Longrightarrow> keeping same_bodies (modify f)"
  by (simp add: keeping_def op_defs same_bodies_def)

lemma Cleanup_keeps_bodies: "keeping same_bodies (Cleanup m)"
  unfolding Cleanup_def ReleaseMethodInfo_def RemoveMethodInfoFromMap_def linkAt_def methodsOf_def updModule_def
  by (intro bodies.calls keeping_cases bodies_modify; simp)

lemma sends_finally:
  assumes "sends m s Q" and "silent c" and "keeping same_bodies c"
    and "\<And>r t l r' t'. Q r t l \<Longrightarrow> j_world t' = j_world t \<Longrightarrow> (\<And>x. r' = Ok x \<Longrightarrow> r = Ok x) \<Longrightarrow> Q' r' t' l"
  shows "sends (Finally m c) s Q'"
proof -
  obtain r t where m: "m s = (r, t)" by fastforce
  obtain r' t' where f: "Finally m c s = (r', t')" by fastforce
  obtain l where l: "j_events t = j_events s @ l" "Q r t l" using assms(1) m by (auto simp: sends_def)
  have "j_events t' = j_events t \<and> j_world t' = j_world t \<and> (\<forall>x. r' = Ok x \<longrightarrow> r = Ok x)"
    using f m assms(2,3) unfolding keeping_def same_events_def same_bodies_def
    by (cases r) (auto simp: Finally_def Discard_def op_defs split: prod.splits result.splits dest!: spec [of _ t])
  then show ?thesis using f l assms(4) by (auto simp: sends_def)
qed

lemma IsInstrumented_state: "IsInstrumented m s = (r, t) \<Longrightarrow> t = s"
  by (auto simp: IsInstrumented_def bodyAt_def op_defs IfFailRet_def split: prod.splits result.splits)

lemma IsInstrumented_bodies: "j_world t = j_world s \<Longrightarrow> fst (IsInstrumented m t) = fst (IsInstrumented m s)"
  by (auto simp: IsInstrumented_def bodyAt_def op_defs IfFailRet_def split: prod.splits result.splits)


text \<open>Up to the raw profiler, and what the outcome \<open>r\<close> in the state \<open>t\<close> may be after the events \<open>new\<close>.\<close>

definition askedEvents :: "jitEnv \<Rightarrow> mid \<Rightarrow> bool \<Rightarrow> nat list \<Rightarrow> rawCall \<Rightarrow> jitEvent list" where
  "askedEvents e m isRejit w rc = askAll [0..<length (je_clients e)] (ShouldInstrumentMethod m isRejit) @
     askAll w (BeforeInstrumentMethod m isRejit) @ askAll w (InstrumentMethod m isRejit) @ rawEvents e rc"

definition ordered :: "jitEnv \<Rightarrow> mid \<Rightarrow> bool \<Rightarrow> nat list \<Rightarrow> rawCall \<Rightarrow> unit result \<Rightarrow> jit \<Rightarrow> jitEvent list \<Rightarrow> bool" where
  "ordered e m b w rc r t new \<longleftrightarrow> (\<exists>calls. final_calls m calls \<and> prefix new (instrumentOrder e m b w rc calls) \<and>
     (r = Ok () \<longrightarrow> new = instrumentOrder e m b w rc calls \<or> fst (IsInstrumented m t) = Ok False \<and> new = askedEvents e m b w rc))"

lemma instrumentOrder_asked: "instrumentOrder e m b w rc calls =
    askedEvents e m b w rc @ map ToRuntime calls @ askAll (positions 0 (je_clients e)) (OnInstrumentationComplete m b)"
  by (simp add: instrumentOrder_def askedEvents_def positions_def)

lemma ordered_stopped: "prefix new (askedEvents e m b w rc) \<Longrightarrow> (\<And>x. r \<noteq> Ok x) \<Longrightarrow> ordered e m b w rc r t new"
  unfolding ordered_def instrumentOrder_asked using final_calls.jit [of m] by (blast intro: prefix_prefix)

text \<open>After the raw profiler.\<close>

lemma sends_final:
  assumes "clients_keep same_events e"
  shows "sends (IfFailRet (IsInstrumented m) (\<lambda>b'. if \<not> b' then ret () else
     IfFailRet (ApplyFinalInstrumentation e m) (\<lambda>_. Discard (CallOnInstrumentationComplete e m b) (\<lambda>_. ret ())))) s
     (\<lambda>r t new. ordered e m b w rc r t (askedEvents e m b w rc @ new))"
proof (rule sends_bind [OF emits_silent])
  show "silent (IsInstrumented m)" by (intro silents)
next
  fix L r t new assume "L \<in> {[] :: jitEvent list}" "prefix new L" "\<And>x. (r :: unit result) \<noteq> Ok x"
  then show "ordered e m b w rc r t (askedEvents e m b w rc @ new)" by (simp add: ordered_stopped)
next
  fix L b' t assume L: "L \<in> {[] :: jitEvent list}" and i: "IsInstrumented m s = (Ok b', t)"
  let ?E = "askAll (positions 0 (je_clients e)) (OnInstrumentationComplete m b)"
  have cs: "list_all client_silent (je_clients e)" using assms by (simp add: clients_keep_def)
  have complete: "emits {?E} (\<lambda>_. True) (Discard (CallOnInstrumentationComplete e m b) (\<lambda>_. ret ()))"
    unfolding CallOnInstrumentationComplete_def by (rule emits_discard_sure [OF complete_loop_events [OF cs] complete_loop_not_fail])
  have "sends (IfFailRet (ApplyFinalInstrumentation e m) (\<lambda>_. Discard (CallOnInstrumentationComplete e m b) (\<lambda>_. ret ()))) t
      (\<lambda>r t new. ordered e m b w rc r t (askedEvents e m b w rc @ new))"
  proof (rule sends_bind [OF emits_ApplyFinal])
    fix L r t new assume "L \<in> finals m" "prefix new L" "\<And>x. (r :: unit result) \<noteq> Ok x"
    then show "ordered e m b w rc r t (askedEvents e m b w rc @ new)"
      by (auto simp: ordered_def instrumentOrder_asked finals_def intro: prefix_prefix)
  next
    fix L t assume "L \<in> finals m"
    then obtain calls where c: "L = map ToRuntime calls" "final_calls m calls" by (auto simp: finals_def)
    show "sends (Discard (CallOnInstrumentationComplete e m b) (\<lambda>_. ret ())) t (\<lambda>r t new. ordered e m b w rc r t (askedEvents e m b w rc @ L @ new))"
      by (rule sends_emits [OF complete]) (use c in \<open>auto simp: ordered_def instrumentOrder_asked\<close>)
  qed
  moreover have "sends (ret ()) t (\<lambda>r t new. ordered e m b w rc r t (askedEvents e m b w rc @ new))" if "\<not> b'"
  proof -
    have "fst (IsInstrumented m t) = Ok False" using i that IsInstrumented_state [OF i] by simp
    then show ?thesis using final_calls.jit [of m]
      unfolding sends_def by (intro exI [of _ "[]"]) (auto simp: op_defs ordered_def instrumentOrder_asked)
  qed
  ultimately show "sends (if \<not> b' then ret () else
      IfFailRet (ApplyFinalInstrumentation e m) (\<lambda>_. Discard (CallOnInstrumentationComplete e m b) (\<lambda>_. ret ()))) t
    (\<lambda>r t new. ordered e m b w rc r t (askedEvents e m b w rc @ L @ new))" using L by simp
qed

text \<open>After the questions, for the clients that said yes.\<close>

lemma sends_wanted:
  assumes "clients_keep same_events e" and xs: "subseq xs (enumerate 0 (je_clients e))" "map fst xs = w"
  shows "sends (IfFailRet (CallBeforeInstrumentMethodOnInstrumentationMethods m b xs) (\<lambda>_.
     IfFailRet (CallInstrumentOnInstrumentationMethods e m b xs) (\<lambda>_.
     IfFailRet (SendToRaw e rc False) (\<lambda>_. IfFailRet (IsInstrumented m) (\<lambda>b'. if \<not> b' then ret () else
     IfFailRet (ApplyFinalInstrumentation e m) (\<lambda>_. Discard (CallOnInstrumentationComplete e m b) (\<lambda>_. ret ()))))))) s
     (\<lambda>r t new. ordered e m b w rc r t (askAll [0..<length (je_clients e)] (ShouldInstrumentMethod m b) @ new))"
proof -
  let ?A = "askAll [0..<length (je_clients e)] (ShouldInstrumentMethod m b)"
  have cs: "list_all client_silent (je_clients e)" and raw: "emits {rawEvents e rc} (\<lambda>_. True) (SendToRaw e rc False)"
    using assms(1) by (auto simp: clients_keep_def SendToRaw_def rawEvents_def emits_silent sent.pure split: option.splits
      intro!: emits_record_then emits_silent silents)
  have s: "client_silent (snd x)" if "x \<in> set xs" for x by (rule keeps_wanted [OF cs xs(1) that])
  have before: "emits {askAll w (BeforeInstrumentMethod m b)} (\<lambda>_. True) (CallBeforeInstrumentMethodOnInstrumentationMethods m b xs)"
    and inst: "emits {askAll w (InstrumentMethod m b)} (\<lambda>_. True) (CallInstrumentOnInstrumentationMethods e m b xs)"
    using emits_wanted(1) [of xs m b] emits_wanted(2) [of xs m b e] s unfolding xs(2) by blast+
  show ?thesis
  proof (rule sends_one [OF before])
    fix r t new assume "prefix new (askAll w (BeforeInstrumentMethod m b))" "\<And>x. (r :: unit result) \<noteq> Ok x"
    then show "ordered e m b w rc r t (?A @ new)" by (intro ordered_stopped) (simp_all add: askedEvents_def prefix_prefix)
  next
    fix t
    show "sends (IfFailRet (CallInstrumentOnInstrumentationMethods e m b xs) (\<lambda>_.
       IfFailRet (SendToRaw e rc False) (\<lambda>_. IfFailRet (IsInstrumented m) (\<lambda>b'. if \<not> b' then ret () else
       IfFailRet (ApplyFinalInstrumentation e m) (\<lambda>_. Discard (CallOnInstrumentationComplete e m b) (\<lambda>_. ret ())))))) t
       (\<lambda>r t new. ordered e m b w rc r t (?A @ askAll w (BeforeInstrumentMethod m b) @ new))"
    proof (rule sends_one [OF inst])
      fix r t new assume "prefix new (askAll w (InstrumentMethod m b))" "\<And>x. (r :: unit result) \<noteq> Ok x"
      then show "ordered e m b w rc r t (?A @ askAll w (BeforeInstrumentMethod m b) @ new)"
        by (intro ordered_stopped) (simp_all add: askedEvents_def prefix_prefix)
    next
      fix t
      show "sends (IfFailRet (SendToRaw e rc False) (\<lambda>_. IfFailRet (IsInstrumented m) (\<lambda>b'. if \<not> b' then ret () else
         IfFailRet (ApplyFinalInstrumentation e m) (\<lambda>_. Discard (CallOnInstrumentationComplete e m b) (\<lambda>_. ret ()))))) t
         (\<lambda>r t new. ordered e m b w rc r t (?A @ askAll w (BeforeInstrumentMethod m b) @ askAll w (InstrumentMethod m b) @ new))"
      proof (rule sends_one [OF raw])
        fix r t new assume "prefix new (rawEvents e rc)" "\<And>x. (r :: unit result) \<noteq> Ok x"
        then show "ordered e m b w rc r t (?A @ askAll w (BeforeInstrumentMethod m b) @ askAll w (InstrumentMethod m b) @ new)"
          by (intro ordered_stopped) (simp_all add: askedEvents_def)
      qed (use sends_final [OF assms(1), of m b _ w rc] in \<open>simp add: askedEvents_def\<close>)
    qed
  qed
qed

lemma sends_instrument:
  assumes "clients_keep same_events e" and u: "linkAt m u = (Ok l, u)" "moduleIdOf (jm_pModuleInfo l) u = (Ok moduleId, u)" "\<not> je_isDynamic e moduleId"
  shows "sends (instrument e m b rc) u (ordered e m b (yesPositions 0 (answers (je_clients e) 0 m b u)) rc)"
proof -
  let ?A = "askAll (positions 0 (je_clients e)) (ShouldInstrumentMethod m b)" and ?w = "yesPositions 0 (answers (je_clients e) 0 m b u)"
  let ?go = "\<lambda>xs. IfFailRet (CallBeforeInstrumentMethodOnInstrumentationMethods m b xs) (\<lambda>_.
     IfFailRet (CallInstrumentOnInstrumentationMethods e m b xs) (\<lambda>_.
     IfFailRet (SendToRaw e rc False) (\<lambda>_. IfFailRet (IsInstrumented m) (\<lambda>b'. if \<not> b' then ret () else
     IfFailRet (ApplyFinalInstrumentation e m) (\<lambda>_. Discard (CallOnInstrumentationComplete e m b) (\<lambda>_. ret ()))))))"
  have "list_all client_silent (je_clients e)" using assms(1) by (simp add: clients_keep_def)
  from emits_result [OF emits_should_loop [OF this] should_loop_subseq]
  have "emits {?A} (\<lambda>xs. subseq xs (enumerate 0 (je_clients e))) (CallShouldInstrumentOnInstrumentationMethods e m b)"
    unfolding CallShouldInstrumentOnInstrumentationMethods_def .
  then have "sends (IfFailRet (CallShouldInstrumentOnInstrumentationMethods e m b) ?go) u (ordered e m b ?w rc)"
  proof (rule sends_bind)
    fix L r t new assume "L \<in> {?A}" "prefix new L" "\<And>x. (r :: unit result) \<noteq> Ok x"
    then show "ordered e m b ?w rc r t new" by (intro ordered_stopped) (simp_all add: askedEvents_def positions_def prefix_prefix)
  next
    fix L xs t assume "L \<in> {?A}" "CallShouldInstrumentOnInstrumentationMethods e m b u = (Ok xs, t)" "subseq xs (enumerate 0 (je_clients e))"
    then show "sends (?go xs) t (\<lambda>r t new. ordered e m b ?w rc r t (L @ new))"
      using sends_wanted [OF assms(1), of xs ?w m b rc t] should_loop_answers [of "je_clients e" 0 m b u xs t]
      by (simp add: CallShouldInstrumentOnInstrumentationMethods_def positions_def)
  qed
  then show ?thesis using u
    by (simp add: sends_def instrument_def IfFailRet_def [of "linkAt m"] IfFailRet_def [of "moduleIdOf p" for p])
qed

lemma sends_compile:
  assumes "clients_keep same_events e" and "linkAt m u = (Ok l, u)" "moduleIdOf (jm_pModuleInfo l) u = (Ok moduleId, u)" "\<not> je_isDynamic e moduleId"
  shows "sends (Finally (instrument e m b rc) (Cleanup m)) u (ordered e m b (yesPositions 0 (answers (je_clients e) 0 m b u)) rc)"
proof (rule sends_finally [OF sends_instrument [OF assms] silent_life(2) Cleanup_keeps_bodies])
  fix r r' :: "unit result" and t t' :: jit and new
  assume o: "ordered e m b (yesPositions 0 (answers (je_clients e) 0 m b u)) rc r t new" and w: "j_world t' = j_world t" and "\<And>x. r' = Ok x \<Longrightarrow> r = Ok x"
  then show "ordered e m b (yesPositions 0 (answers (je_clients e) 0 m b u)) rc r' t' new"
    unfolding ordered_def IsInstrumented_bodies [OF w, of m] by blast
qed

text \<open>C14. The order of the calls when a method is compiled, however the clients behave as long as they do not call the runtime
  themselves, for a method object that can be made, of a module that is not dynamic.  The clients that take the events of the compiler
  have heard of it; then every client is asked whether it wants to instrument, each in the state the one before left; exactly those that
  answered yes prepare, and then instrument, each group in the order of the clients; then the raw profiler has its turn, then the
  runtime gets the body, once, and at last every client is told that it is complete.  A callback that fails has done a first part of
  this.  One that succeeds has done all of it, or, if nobody has left the method instrumented, everything before the runtime.\<close>

theorem JITCompilationStarted_order:
  assumes "clients_keep same_events e" and "\<not> rt_net20 (je_rt e)"
    and "SendJitStarted e f False s = (Ok (), s1)" and "CreateMethodInfo e f s1 = (Ok m, s2)" and "ClearILTransformationStatusOf e f s2 = (c, u)"
    and "linkAt m u = (Ok l, u)" and "moduleIdOf (jm_pModuleInfo l) u = (Ok moduleId, u)" and "\<not> je_isDynamic e moduleId"
    and "JITCompilationStarted e f b s = (r, t)"
  defines "w \<equiv> yesPositions 0 (answers (je_clients e) 0 m False u)" and "rc \<equiv> Raw_JITCompilationStarted f b"
  shows "\<exists>calls new. final_calls m calls \<and>
    j_events t = j_events s @ askAll (startedClients (je_clients e) 0) (JitStarted f False) @ new \<and>
    prefix new (instrumentOrder e m False w rc calls) \<and>
    (r = Ok () \<longrightarrow> new = instrumentOrder e m False w rc calls \<or>
       fst (IsInstrumented m t) = Ok False \<and> new = askedEvents e m False w rc)"
proof -
  have "list_all client_silent (je_clients e)" using assms(1) by (simp add: clients_keep_def)
  then have "emits {askAll (startedClients (je_clients e) 0) (JitStarted f False)} (\<lambda>_. True) (SendJitStarted e f False)"
    unfolding SendJitStarted_def by (intro emits_before_silent [OF emits_jitStarted_loop]) (assumption, intro silents)
  from emitsD [OF this assms(3)] have s1: "j_events s1 = j_events s @ askAll (startedClients (je_clients e) 0) (JitStarted f False)" by auto
  have s2: "j_events s2 = j_events s1" "j_events u = j_events s2"
    using silent_life(1) [of e f] silent_life(3) [of e f] assms(4,5) unfolding keeping_def same_events_def by (metis snd_conv)+
  have j: "JITCompilationStarted e f b s = Discard (\<lambda>_. (c, u)) (\<lambda>_. Finally (instrument e m False rc) (Cleanup m)) u"
    using assms(2-5) by (simp add: JITCompilationStarted_def rc_def Let_def IfFailRet_def Discard_def)
  consider "Finally (instrument e m False rc) (Cleanup m) u = (r, t)" | "t = u" "r \<noteq> Ok ()"
    using j assms(9) by (cases c) (auto simp: Discard_def)
  then obtain new where "j_events t = j_events u @ new" "ordered e m False w rc r t new"
  proof cases
    case 1
    then show thesis using that sends_compile [OF assms(1,6-8), of False rc] by (auto simp: sends_def w_def)
  next
    case 2
    then show thesis using that [of "[]"] final_calls.jit [of m] by (auto simp: ordered_def)
  qed
  then show ?thesis using s1 s2 unfolding ordered_def by auto
qed

end
