(* ===== verification/JitRender.thy ===== *)
theory JitRender
  imports JitClaims RuntimeClaims
begin

text \<open>
  A method that an instrumentation method edits: what the runtime gets is the rendering of the edited body.
\<close>

section \<open>The state while a method is compiled\<close>

text \<open>The method \<open>m\<close> of function \<open>f\<close> is registered with the manager and belongs to the module at \<open>p\<close>; \<open>w\<close> are the bodies, \<open>d\<close> is
  what the module keeps, and \<open>evs\<close> has been sent since the state \<open>s\<close>.\<close>

definition compiling :: "jit \<Rightarrow> FunctionID \<Rightarrow> addr \<Rightarrow> mid \<Rightarrow> methodLink \<Rightarrow> world \<Rightarrow> moduleMethods \<Rightarrow> jitEvent list \<Rightarrow> jit" where
  "compiling s f p m l w d evs = s\<lparr> j_world := w, j_modules := (j_modules s)(p := d), j_methods := (j_methods s)(m \<mapsto> l), j_nextMethod := Suc m,
     j_methodInfos := [f \<mapsto> m], j_events := j_events s @ evs \<rparr>"

definition jitLink :: "FunctionID \<Rightarrow> mdToken \<Rightarrow> addr \<Rightarrow> methodLink" where
  "jitLink f tk p = \<lparr> jm_functionId = f, jm_tkFunction = tk, jm_pModuleInfo = p, jm_bIsStandaloneMethodInfo = False, jm_bIsRejit = False,
     jm_pFunctionControl = False, jm_pFinalRenderedMethod = [], jm_userDefinedBuffer = None, jm_dwRejitCodeGenFlags = 0 \<rparr>"

lemma jitLink_simps [simp]:
  "jm_functionId (jitLink f tk p) = f" "jm_tkFunction (jitLink f tk p) = tk" "jm_pModuleInfo (jitLink f tk p) = p"
  "\<not> jm_bIsStandaloneMethodInfo (jitLink f tk p)" "\<not> jm_bIsRejit (jitLink f tk p)" "jm_pFinalRenderedMethod (jitLink f tk p) = []"
  "jm_userDefinedBuffer (jitLink f tk p) = None"
  by (simp_all add: jitLink_def)

named_theorems steps \<open>single calls while a method is compiled\<close>

lemma step_record [steps]: "record_event ev (compiling s f p m l w d evs) = (Ok (), compiling s f p m l w d (evs @ [ev]))"
  by (simp add: record_event_def op_defs compiling_def)

lemma step_link [steps]: "linkAt m (compiling s f p m l w d evs) = (Ok l, compiling s f p m l w d evs)"
  by (simp add: linkAt_def op_defs IfFailRet_def compiling_def)

lemma step_body [steps]: "w_methods w m = Some mi \<Longrightarrow> bodyAt m (compiling s f p m l w d evs) = (Ok mi, compiling s f p m l w d evs)"
  by (simp add: bodyAt_def op_defs IfFailRet_def compiling_def)

lemma step_moduleId [steps]:
  "r_modules (j_runtime s) p = Some y \<Longrightarrow> moduleIdOf p (compiling s f p m l w d evs) = (Ok (mod_moduleID y), compiling s f p m l w d evs)"
  by (simp add: moduleIdOf_def inRuntime_def moduleAt_def op_defs IfFailRet_def compiling_def)

lemma step_transformed [steps]: "SetMethodIsTransformed p tk b (compiling s f p m l w d evs) = (Ok (), compiling s f p m l w (d\<lparr> mm_instrumentedMethods :=
     (if b then insert tk (mm_instrumentedMethods d) else mm_instrumentedMethods d - {tk}) \<rparr>) evs)"
  by (simp add: SetMethodIsTransformed_def updModule_def op_defs compiling_def)

lemma step_runtime [steps]:
  "SUCCEEDED (je_runtime e c) \<Longrightarrow> callRuntime e c (compiling s f p m l w d evs) = (Ok (), compiling s f p m l w d (evs @ [ToRuntime c]))"
  by (simp add: callRuntime_def step_record op_defs)

lemma step_inBody:
  assumes "g (w\<lparr> w_methods := (w_methods w)(m := map_option (m_savedILMap_update (\<lambda>_. None)) (w_methods w m)) \<rparr>) = (r, w')" "w_methods w' m = Some mi"
    and "jm_pModuleInfo l = p"
  shows "inBody m g (compiling s f p m l w d evs) = (r, compiling s f p m l w' (savedByBody l mi d) evs)"
  using assms by (simp add: inBody_def step_link op_defs Let_def) (simp add: compiling_def)

lemma reset_idle: "w_methods w m = Some mi \<Longrightarrow> m_savedILMap mi = None \<Longrightarrow>
    w\<lparr> w_methods := (w_methods w)(m := map_option (m_savedILMap_update (\<lambda>_. None)) (w_methods w m)) \<rparr> = w"
  by (cases w; cases mi) (auto simp: fun_upd_idem)

section \<open>Creating and removing\<close>

definition newBody :: "jitEnv \<Rightarrow> moduleMethods \<Rightarrow> ModuleID \<Rightarrow> mdToken \<Rightarrow> methodinfo" where
  "newBody e d i tk = new_methodinfo (originalIl e d i tk) (je_signature e i tk)"

definition withBody :: "mid \<Rightarrow> methodinfo \<Rightarrow> world \<Rightarrow> world" where
  "withBody m mi w = w\<lparr> w_methods := (w_methods w)(m \<mapsto> mi) \<rparr>"

definition registeredIn :: "FunctionID \<Rightarrow> mdToken \<Rightarrow> mid \<Rightarrow> moduleMethods \<Rightarrow> moduleMethods" where
  "registeredIn f tk m d = d\<lparr> mm_methodInfos := [f \<mapsto> Some m], mm_methodInfosByToken := [tk \<mapsto> m] \<rparr>"

lemma Create_exec:
  assumes w: "within {} s" and i: "je_GetFunctionInfo e f = Ok (i, tk)" "f \<noteq> 0" "GetModuleInfoById (je_rt e) i (j_runtime s) = (Ok p, j_runtime s)"
    and y: "r_modules (j_runtime s) p = Some y" "mod_moduleID y = i"
  shows "CreateMethodInfo e f s = (Ok (j_nextMethod s), compiling s f p (j_nextMethod s) (jitLink f tk p)
    (withBody (j_nextMethod s) (newBody e (j_modules s p) i tk) (j_world s)) (registeredIn f tk (j_nextMethod s) (j_modules s p)) [])"
proof -
  let ?m = "j_nextMethod s"
  have q: "j_methodInfos s = Map.empty" "mm_methodInfos (j_modules s p) = Map.empty" "mm_methodInfosByToken (j_modules s p) = Map.empty"
    using w by (auto simp: within_empty)
  have look: "lookupModule e i s = (Ok p, s)" using i(3) by (simp add: lookupModule_def inRuntime_def)
  have none: "Module_GetMethodInfoById p f s = (Fail E_FAIL, s)" using q(2) by (simp add: Module_GetMethodInfoById_def methodsOf_def op_defs)
  let ?t = "s\<lparr> j_methods := (j_methods s)(?m \<mapsto> jitLink f tk p), j_nextMethod := Suc ?m, j_world := withBody ?m (newBody e (j_modules s p) i tk) (j_world s) \<rparr>"
  have new: "new_CMethodInfo e f tk p False s = (Ok ?m, ?t)"
    using y by (simp add: new_CMethodInfo_def methodsOf_def setLink_def moduleIdOf_def inRuntime_def moduleAt_def op_defs IfFailRet_def jitLink_def newBody_def withBody_def)
  have init: "Method_Initialize ?m True False ?t = (Ok (), ?t\<lparr> j_methodInfos := [f \<mapsto> ?m] \<rparr>)"
    using i(2) q(1) by (simp add: Method_Initialize_def linkAt_def updLink_def setLink_def AddMethodInfoToMap_def op_defs IfFailRet_def jitLink_def)
  have add: "AddMethodInfo p f ?m (?t\<lparr> j_methodInfos := [f \<mapsto> ?m] \<rparr>) = (Ok (), compiling s f p ?m (jitLink f tk p)
    (withBody ?m (newBody e (j_modules s p) i tk) (j_world s)) (registeredIn f tk ?m (j_modules s p)) [])"
    using q by (simp add: AddMethodInfo_def linkAt_def updModule_def op_defs IfFailRet_def compiling_def registeredIn_def)
  show ?thesis using i(1) look none new init add
    by (simp add: CreateMethodInfo_def op_defs)
qed

lemma step_clear:
  assumes "je_GetFunctionInfo e f = Ok (i, tk)" "GetModuleInfoById (je_rt e) i (j_runtime s) = (Ok p, j_runtime s)"
  shows "ClearILTransformationStatusOf e f (compiling s f p m l w d evs) =
    (Ok (), compiling s f p m l w (d\<lparr> mm_instrumentedMethods := mm_instrumentedMethods d - {tk} \<rparr>) evs)"
proof -
  have "lookupModule e i (compiling s f p m l w d evs) = (Ok p, compiling s f p m l w d evs)"
    using assms(2) by (simp add: lookupModule_def inRuntime_def compiling_def)
  then show ?thesis using assms(1) by (simp add: ClearILTransformationStatusOf_def ClearILTransformationStatus_def step_transformed op_defs)
qed

definition released :: "FunctionID \<Rightarrow> mdToken \<Rightarrow> moduleMethods \<Rightarrow> moduleMethods" where
  "released f tk d = d\<lparr> mm_methodInfos := (mm_methodInfos d)(f := None), mm_methodInfosByToken := (mm_methodInfosByToken d)(tk := None) \<rparr>"

lemma step_cleanup:
  assumes "mm_methodInfos d f = Some (Some m)"
  shows "Cleanup m (compiling s f p m (jitLink f tk p) w d evs) = (Ok (), (compiling s f p m (jitLink f tk p) w (released f tk d) evs)\<lparr> j_methodInfos := Map.empty \<rparr>)"
proof -
  have "methodsOf p (compiling s f p m l w d evs) = (Ok d, compiling s f p m l w d evs)" for l
    by (simp add: methodsOf_def op_defs compiling_def)
  then have "ReleaseMethodInfo p f (compiling s f p m (jitLink f tk p) w d evs) = (Ok (), compiling s f p m (jitLink f tk p) w (released f tk d) evs)"
    using assms by (simp add: ReleaseMethodInfo_def step_link op_defs updModule_def) (simp add: compiling_def released_def)
  then show ?thesis by (simp add: Cleanup_def step_link RemoveMethodInfoFromMap_def op_defs) (simp add: compiling_def)
qed

section \<open>One instrumentation method\<close>

text \<open>An instrumentation method that wants every method and edits its body.\<close>

definition editor :: "(mid \<Rightarrow> (world, unit) op) \<Rightarrow> client" where
  "editor edit = \<lparr> c_JitStarted = None, c_ShouldInstrumentMethod = (\<lambda>m b. ret (S_OK, True)), c_BeforeInstrumentMethod = (\<lambda>m b. ret ()),
     c_InstrumentMethod = (\<lambda>m b. inBody m (edit m)), c_OnInstrumentationComplete = (\<lambda>m b. ret ()), c_AllowInlineSite = (\<lambda>m n. ret (S_OK, None)) \<rparr>"

lemma rendered_is_instrumented:
  assumes "ApplyIntermediateMethodInstrumentation g md emit m w = (Ok (), w')" "w_methods w' m = Some mi"
  shows "m_bIsInstrumented mi"
  using assms unfolding ApplyIntermediateMethodInstrumentation_def
  by (auto simp: IfFailRet_def upd_method_def split: prod.splits result.splits option.splits if_splits)

lemma newBody_simps [simp]: "m_savedILMap (newBody e d i tk) = None" "\<not> m_bIsHeaderInitialized (newBody e d i tk)"
  by (simp_all add: newBody_def new_methodinfo_def)

lemma newBody_idle [simp]: "m_savedILMap_update (\<lambda>_. None) (newBody e d i tk) = newBody e d i tk"
  by (simp add: newBody_def new_methodinfo_def)

lemma savedByBody_idle: "m_savedILMap mi = None \<Longrightarrow> \<not> m_bIsHeaderInitialized mi \<Longrightarrow> savedByBody l mi d = d"
  by (simp add: savedByBody_def split: result.splits)

text \<open>What is sent for a body \<open>mi\<close>.\<close>

definition bodyCalls :: "ModuleID \<Rightarrow> mdToken \<Rightarrow> FunctionID \<Rightarrow> methodinfo \<Rightarrow> jitEvent list" where
  "bodyCalls i tk f mi = ToRuntime (RT_SetILFunctionBody i tk (EngineBytes (m_pIntermediateRenderedMethod mi))) #
     (if m_pCorILMap mi = [] then [] else [ToRuntime (RT_SetILInstrumentedCodeMap f (m_pCorILMap mi))])"

lemma applyJit_exec:
  assumes "w_methods w m = Some mi" "m_bIsInstrumented mi" "\<And>c. SUCCEEDED (je_runtime e c)" "r_modules (j_runtime s) p = Some y"
    "length (m_pIntermediateRenderedMethod mi) < 2 ^ 32"
  shows "ApplyFinalInstrumentation e m (compiling s f p m (jitLink f tk p) w d evs) = (Ok (), compiling s f p m (jitLink f tk p) w
    (d\<lparr> mm_instrumentedMethods := insert tk (mm_instrumentedMethods d) \<rparr>) (evs @ bodyCalls (mod_moduleID y) tk f mi))"
proof -
  let ?st = "compiling s f p m (jitLink f tk p) w"
  have "GetFinalInstrumentation m (?st d evs) =
      (Ok (of_nat (length (m_pIntermediateRenderedMethod mi)), EngineBytes (m_pIntermediateRenderedMethod mi)), ?st d evs)" for d evs
    using assms(1) by (simp add: GetFinalInstrumentation_def steps op_defs)
  moreover have "take (unat (of_nat (length (m_pIntermediateRenderedMethod mi)) :: DWORD)) (m_pIntermediateRenderedMethod mi) = m_pIntermediateRenderedMethod mi"
    using assms(5) by (simp add: unat_of_nat)
  ultimately show ?thesis using assms(1-4)
    by (simp add: ApplyFinalInstrumentation_def IsInstrumented_def applyJit_def steps op_defs copiedBody_def bodyCalls_def)
qed

text \<open>The body that the instrumentation method finds: a new one that cannot be replaced any more.\<close>

definition startBody :: "jitEnv \<Rightarrow> moduleMethods \<Rightarrow> ModuleID \<Rightarrow> mdToken \<Rightarrow> methodinfo" where
  "startBody e d i tk = (newBody e d i tk)\<lparr> m_bIsCreateBaselineEnabled := False \<rparr>"

lemma instrument_exec:
  assumes c: "je_clients e = [editor edit]" "je_raw e = None" and acc: "\<And>c. SUCCEEDED (je_runtime e c)"
    and y: "r_modules (j_runtime s) p = Some y" "mod_moduleID y = i" "\<not> je_isDynamic e i"
    and ed: "edit m (withBody m (startBody e d0 i tk) w0) = (Ok (), w1)" "w_methods w1 m = Some mi1" "m_savedILMap mi1 = None"
    and re: "ApplyIntermediateMethodInstrumentation (je_garbage e) (je_metadata e i) (je_emit e i) m w1 = (Ok (), w2)" "w_methods w2 m = Some mi2"
      "length (m_pIntermediateRenderedMethod mi2) < 2 ^ 32"
  shows "instrument e m False rc (compiling s f p m (jitLink f tk p) (withBody m (newBody e d0 i tk) w0) d []) =
    (Ok (), compiling s f p m (jitLink f tk p) w2 ((savedByBody (jitLink f tk p) mi2 (savedByBody (jitLink f tk p) mi1 d))\<lparr> mm_instrumentedMethods :=
      insert tk (mm_instrumentedMethods d) \<rparr>)
      ([ToClient 0 (ShouldInstrumentMethod m False), ToClient 0 (BeforeInstrumentMethod m False), ToClient 0 (InstrumentMethod m False)] @
       bodyCalls i tk f mi2 @ [ToClient 0 (OnInstrumentationComplete m False)]))"
proof -
  let ?l = "jitLink f tk p"
  let ?st = "compiling s f p m ?l"
  let ?w = "withBody m (newBody e d0 i tk) w0"
  have "w_methods ?w m = Some (newBody e d0 i tk)" by (simp add: withBody_def)
  then have "upd_method m (m_bIsCreateBaselineEnabled_update (\<lambda>_. False)) (?w\<lparr> w_methods := (w_methods ?w)(m := map_option (m_savedILMap_update (\<lambda>_. None)) (w_methods ?w m)) \<rparr>) =
      (Ok (), withBody m (startBody e d0 i tk) w0)"
    by (simp add: reset_idle upd_method_def) (simp add: withBody_def startBody_def)
  then have before: "inBody m (upd_method m (m_bIsCreateBaselineEnabled_update (\<lambda>_. False))) (?st ?w d evs) =
      (Ok (), ?st (withBody m (startBody e d0 i tk) w0) d evs)" for evs
    by (subst step_inBody) (auto simp: withBody_def savedByBody_idle startBody_def)
  have sw: "w_methods (withBody m (startBody e d0 i tk) w0) m = Some (startBody e d0 i tk)" "m_savedILMap (startBody e d0 i tk) = None"
    by (simp_all add: withBody_def startBody_def)
  have edited: "inBody m (edit m) (?st (withBody m (startBody e d0 i tk) w0) d evs) = (Ok (), ?st w1 (savedByBody ?l mi1 d) evs)" for evs
    by (rule step_inBody) (simp_all add: reset_idle [OF sw] ed)
  have rendered: "inBody m (ApplyIntermediateMethodInstrumentation (je_garbage e) (je_metadata e i) (je_emit e i) m) (?st w1 (savedByBody ?l mi1 d) evs) =
      (Ok (), ?st w2 (savedByBody ?l mi2 (savedByBody ?l mi1 d)) evs)" for evs
    by (rule step_inBody) (simp_all add: reset_idle [OF ed(2,3)] re)
  note inst = rendered_is_instrumented [OF re(1,2)]
  show ?thesis
    using c before edited rendered applyJit_exec [OF re(2) inst acc y(1) re(3)] re(2) inst y
    by (simp add: instrument_def CallShouldInstrumentOnInstrumentationMethods_def CallBeforeInstrumentMethodOnInstrumentationMethods_def
      CallInstrumentOnInstrumentationMethods_def CallOnInstrumentationComplete_def beforeInstrument_def instrumentWith_def renderBody_def SendToRaw_def
      IsInstrumented_def editor_def steps op_defs)
qed

text \<open>The state after the compilation.\<close>

definition compiled :: "jit \<Rightarrow> FunctionID \<Rightarrow> ModuleID \<Rightarrow> mdToken \<Rightarrow> addr \<Rightarrow> world \<Rightarrow> methodinfo \<Rightarrow> methodinfo \<Rightarrow> jit" where
  "compiled s f i tk p w2 mi1 mi2 = (let m = j_nextMethod s; l = jitLink f tk p; d = registeredIn f tk m (j_modules s p) in
     (compiling s f p m l w2
       (released f tk ((savedByBody l mi2 (savedByBody l mi1 (d\<lparr> mm_instrumentedMethods := mm_instrumentedMethods d - {tk} \<rparr>)))\<lparr>
         mm_instrumentedMethods := insert tk (mm_instrumentedMethods d - {tk}) \<rparr>))
       ([ToClient 0 (ShouldInstrumentMethod m False), ToClient 0 (BeforeInstrumentMethod m False), ToClient 0 (InstrumentMethod m False)] @
         bodyCalls i tk f mi2 @ [ToClient 0 (OnInstrumentationComplete m False)]))\<lparr> j_methodInfos := Map.empty \<rparr>)"

lemma JITCompilationStarted_exec:
  assumes "within {} s" "\<not> rt_net20 (je_rt e)" "je_GetFunctionInfo e f = Ok (i, tk)" "f \<noteq> 0"
    and "GetModuleInfoById (je_rt e) i (j_runtime s) = (Ok p, j_runtime s)" "r_modules (j_runtime s) p = Some y" "mod_moduleID y = i" "\<not> je_isDynamic e i"
    and "je_clients e = [editor edit]" "je_raw e = None" "\<And>c. SUCCEEDED (je_runtime e c)" and m: "m = j_nextMethod s"
    and "edit m (withBody m (startBody e (j_modules s p) i tk) (j_world s)) = (Ok (), w1)" "w_methods w1 m = Some mi1" "m_savedILMap mi1 = None"
    and "ApplyIntermediateMethodInstrumentation (je_garbage e) (je_metadata e i) (je_emit e i) m w1 = (Ok (), w2)" "w_methods w2 m = Some mi2"
      "length (m_pIntermediateRenderedMethod mi2) < 2 ^ 32"
  shows "JITCompilationStarted e f b s = (Ok (), compiled s f i tk p w2 mi1 mi2)"
proof -
  let ?l = "jitLink f tk p"
  let ?st = "compiling s f p m ?l"
  let ?r = "registeredIn f tk m (j_modules s p)"
  let ?d = "?r\<lparr> mm_instrumentedMethods := mm_instrumentedMethods ?r - {tk} \<rparr>"
  let ?d' = "(savedByBody ?l mi2 (savedByBody ?l mi1 ?d))\<lparr> mm_instrumentedMethods := insert tk (mm_instrumentedMethods ?r - {tk}) \<rparr>"
  let ?evs = "[ToClient 0 (ShouldInstrumentMethod m False), ToClient 0 (BeforeInstrumentMethod m False), ToClient 0 (InstrumentMethod m False)] @
      bodyCalls i tk f mi2 @ [ToClient 0 (OnInstrumentationComplete m False)]"
  let ?w = "withBody m (newBody e (j_modules s p) i tk) (j_world s)"
  have t: "compiled s f i tk p w2 mi1 mi2 = (?st w2 (released f tk ?d') ?evs)\<lparr> j_methodInfos := Map.empty \<rparr>"
    unfolding compiled_def Let_def m by (rule refl)
  have create: "CreateMethodInfo e f s = (Ok m, ?st ?w ?r [])" using Create_exec [OF assms(1,3-7)] m by simp
  have clear: "ClearILTransformationStatusOf e f (?st ?w ?r []) = (Ok (), ?st ?w ?d [])" by (rule step_clear [OF assms(3,5)])
  have body: "instrument e m False rc (?st ?w ?d []) = (Ok (), ?st w2 ?d' ?evs)" for rc
    using instrument_exec [OF assms(9-11,6-8,13-18)] by simp
  have clean: "Cleanup m (?st w2 ?d' ?evs) = (Ok (), compiled s f i tk p w2 mi1 mi2)" unfolding t by (rule step_cleanup) (simp add: registeredIn_def)
  have start: "SendJitStarted e f False s = (Ok (), s)" using assms(9) by (simp add: SendJitStarted_def editor_def op_defs SUCCEEDED_def)
  show ?thesis
    unfolding JITCompilationStarted_def Let_def Finally_def IfFailRet_def [of "SendJitStarted e f False"] Discard_def
    using assms(2) by (simp only: if_False start create clear body clean prod.case result.case option.case ret_def)
qed

text \<open>The states before the clients are asked.\<close>

lemma compile_steps:
  assumes "within {} s" "je_GetFunctionInfo e f = Ok (i, tk)" "f \<noteq> 0"
    and "GetModuleInfoById (je_rt e) i (j_runtime s) = (Ok p, j_runtime s)" "r_modules (j_runtime s) p = Some y" "mod_moduleID y = i"
    and "je_clients e = [editor edit]" and m: "m = j_nextMethod s"
  obtains s2 u where "SendJitStarted e f False s = (Ok (), s)" "CreateMethodInfo e f s = (Ok m, s2)" "ClearILTransformationStatusOf e f s2 = (Ok (), u)"
    "linkAt m u = (Ok (jitLink f tk p), u)" "moduleIdOf (jm_pModuleInfo (jitLink f tk p)) u = (Ok i, u)"
proof
  let ?r = "registeredIn f tk m (j_modules s p)"
  let ?st = "compiling s f p m (jitLink f tk p) (withBody m (newBody e (j_modules s p) i tk) (j_world s))"
  let ?d = "?r\<lparr> mm_instrumentedMethods := mm_instrumentedMethods ?r - {tk} \<rparr>"
  show "SendJitStarted e f False s = (Ok (), s)" using assms(7) by (simp add: SendJitStarted_def editor_def op_defs SUCCEEDED_def)
  show "CreateMethodInfo e f s = (Ok m, ?st ?r [])" using Create_exec [OF assms(1-6)] m by simp
  show "ClearILTransformationStatusOf e f (?st ?r []) = (Ok (), ?st ?d [])" by (rule step_clear [OF assms(2,4)])
  show "linkAt m (?st ?d []) = (Ok (jitLink f tk p), ?st ?d [])" "moduleIdOf (jm_pModuleInfo (jitLink f tk p)) (?st ?d []) = (Ok i, ?st ?d [])"
    using assms(5,6) by (simp_all add: steps op_defs)
qed

text \<open>C7. When an instrumentation method has edited the body of a method that the runtime compiles, the runtime is given the rendering of the edited
  body and its map, once, and is given nothing else; the clients hear of it in order.  From then on the engine says of the method that it was
  transformed and hands out the map that was saved for it, and nothing of the method object stays registered.\<close>

theorem JITCompilationStarted_renders_edit:
  assumes "within {} s" "\<not> rt_net20 (je_rt e)" "je_GetFunctionInfo e f = Ok (i, tk)" "f \<noteq> 0"
    and "GetModuleInfoById (je_rt e) i (j_runtime s) = (Ok p, j_runtime s)" "r_modules (j_runtime s) p = Some y" "mod_moduleID y = i" "\<not> je_isDynamic e i"
    and "je_clients e = [editor edit]" "je_raw e = None" "\<And>c. SUCCEEDED (je_runtime e c)" and m: "m = j_nextMethod s"
    and "edit m (withBody m (startBody e (j_modules s p) i tk) (j_world s)) = (Ok (), w1)" "w_methods w1 m = Some mi1" "m_savedILMap mi1 = None"
    and "ApplyIntermediateMethodInstrumentation (je_garbage e) (je_metadata e i) (je_emit e i) m w1 = (Ok (), w2)" "w_methods w2 m = Some mi2"
      "length (m_pIntermediateRenderedMethod mi2) < 2 ^ 32" "m_savedILMap mi2 = Some es"
  shows "\<exists>t j. JITCompilationStarted e f b s = (Ok (), t) \<and> within {} t \<and>
    j_events t = j_events s @ [ToClient 0 (ShouldInstrumentMethod m False), ToClient 0 (BeforeInstrumentMethod m False), ToClient 0 (InstrumentMethod m False)] @
      bodyCalls i tk f mi2 @ [ToClient 0 (OnInstrumentationComplete m False)] \<and>
    GetILTransformationStatus e t (Some ()) (new_CMethodJitInfo f hr False 0) = (Ok True, j) \<and>
    GetILInstrumentationMap e t (of_nat (length es)) (Some ()) (Some ()) j = (Ok (of_nat (length es), take (unat (of_nat (length es) :: DWORD)) es), j)"
proof -
  let ?t = "compiled s f i tk p w2 mi1 mi2"
  have "JITCompilationStarted e f b s = (Ok (), ?t)" by (rule JITCompilationStarted_exec [OF assms(1-18)])
  moreover have "within {} ?t"
    using assms(1) m by (auto simp: compiled_def Let_def within_empty compiling_def methods_fresh_def released_def registeredIn_def fun_eq_iff)
  moreover have "j_events ?t = j_events s @ [ToClient 0 (ShouldInstrumentMethod m False), ToClient 0 (BeforeInstrumentMethod m False), ToClient 0 (InstrumentMethod m False)] @
      bodyCalls i tk f mi2 @ [ToClient 0 (OnInstrumentationComplete m False)]" by (simp add: compiled_def Let_def compiling_def m)
  moreover have look: "lookupModule e i ?t = (Ok p, ?t)" using assms(5) by (simp add: lookupModule_def inRuntime_def compiled_def Let_def compiling_def)
  have in_p: "tk \<in> mm_instrumentedMethods (j_modules ?t p)" by (simp add: compiled_def Let_def compiling_def released_def)
  have map: "mm_ilMaps (j_modules ?t p) (tk, f) = Some es"
    using assms(19) by (simp add: compiled_def Let_def compiling_def released_def savedByBody_def SetILInstrumentationMap_def)
  let ?j = "(new_CMethodJitInfo f hr False 0)\<lparr> ji_methodToken := tk, ji_pModuleInfo := Some p, ji_isTransformed := True \<rparr>"
  have "EnsureInitialized e ?t (new_CMethodJitInfo f hr False 0) = (Ok (), ?j)"
    using assms(3) look in_p by (simp add: EnsureInitialized_def initializeJitInfo_def new_CMethodJitInfo_def op_defs IfFailRet_def)
  then have "GetILTransformationStatus e ?t (Some ()) (new_CMethodJitInfo f hr False 0) = (Ok True, ?j)"
    by (simp add: GetILTransformationStatus_def op_defs)
  moreover have "EnsureInitialized e ?t ?j = (Ok (), ?j)" by (simp add: EnsureInitialized_def new_CMethodJitInfo_def)
  then have "GetILInstrumentationMap e ?t (of_nat (length es)) (Some ()) (Some ()) ?j =
      (Ok (of_nat (length es), take (unat (of_nat (length es) :: DWORD)) es), ?j)"
    using map by (simp add: GetILInstrumentationMap_def Module_GetILInstrumentationMap_def JitInfo_GetMethodToken_def op_defs new_CMethodJitInfo_def)
  ultimately show ?thesis by blast
qed

section \<open>A method that is compiled\<close>

interpretation unchanged: kept "(=)"
  by unfold_locales simp_all

lemma GetModuleInfoById_unchanged: "snd (GetModuleInfoById e i s) = s"
proof -
  have "keeping (=) (Domain_GetModuleInfoById p i)" for p
    unfolding Domain_GetModuleInfoById_def domainAt_def by (intro unchanged.calls keeping_cases)
  then have "keeping (=) (search_loop (\<lambda>p. Domain_GetModuleInfoById p i) ps)" for ps
    by (induction ps) (auto intro!: unchanged.calls keeping_cases)
  then have "keeping (=) (GetModuleInfoById e i)"
    unfolding GetModuleInfoById_def by (intro unchanged.calls)
  then show ?thesis by (simp add: keeping_def)
qed

text \<open>The instrumentation method reads the instructions of each method; the method does nothing and returns.\<close>

definition jit_edit :: "mid \<Rightarrow> (world, unit) op" where
  "jit_edit m = IfFailRet (GetInstructions m) (\<lambda>g. ret ())"

definition jit_env :: "client list \<Rightarrow> jitEnv" where
  "jit_env cs = \<lparr> je_rt = sampleRuntime, je_GetFunctionInfo = (\<lambda>f. Ok (3, 0x06000001)), je_isDynamic = (\<lambda>i. False),
     je_GetILFunctionBody = (\<lambda>i tk. Ok [0x0A, 0x00, 0x2A]), je_signature = (\<lambda>i tk. Ok [0, 0, 1]), je_metadata = (\<lambda>i. Ok call_metadata),
     je_emit = (\<lambda>i sig. Ok 0x11000001), je_garbage = (\<lambda>n. 0), je_fullName = (\<lambda>m. Ok ()), je_runtime = (\<lambda>c. S_OK), je_userBufferEnabled = True,
     je_clients = cs, je_raw = None \<rparr>"

definition jit_start :: jit where
  "jit_start = \<lparr> j_world = empty_world, j_runtime = sampleLoaded, j_modules = (\<lambda>p. new_moduleMethods), j_methods = Map.empty, j_nextMethod = 0,
     j_methodInfos = Map.empty, j_malloc = None, j_buffers = Map.empty, j_nextBuffer = 0, j_events = [] \<rparr>"

lemma jit_env_simps [simp]:
  "je_rt (jit_env cs) = sampleRuntime" "je_GetFunctionInfo (jit_env cs) f = Ok (3, 0x06000001)" "\<not> je_isDynamic (jit_env cs) i"
  "je_metadata (jit_env cs) i = Ok call_metadata" "je_emit (jit_env cs) i = (\<lambda>sig. Ok 0x11000001)" "je_garbage (jit_env cs) = (\<lambda>n. 0)"
  "je_runtime (jit_env cs) c = S_OK" "je_clients (jit_env cs) = cs" "je_raw (jit_env cs) = None" "\<not> rt_net20 sampleRuntime" "SUCCEEDED S_OK"
  by (simp_all add: jit_env_def sampleRuntime_def SUCCEEDED_def)

lemma jit_start_simps [simp]:
  "j_world jit_start = empty_world" "j_runtime jit_start = sampleLoaded" "j_modules jit_start p = new_moduleMethods" "j_nextMethod jit_start = 0"
  "j_events jit_start = []"
  by (simp_all add: jit_start_def)

abbreviation one_client :: jitEnv where
  "one_client \<equiv> jit_env [editor jit_edit]"

lemma jit_start_quiet: "within {} jit_start"
  by (simp add: within_empty jit_start_def methods_fresh_def new_moduleMethods_def)

lemma editor_keeps: "client_keeps same_registry (editor edit)" "client_keeps same_events (editor edit)"
  by (auto simp: client_keeps_def editor_def intro: frames silents)

lemma one_client_keeps: "clients_keep same_registry one_client" "clients_keep same_events one_client"
  using editor_keeps by (simp_all add: clients_keep_def)

definition jit_body :: world where
  "jit_body = withBody 0 (startBody one_client new_moduleMethods 3 0x06000001) empty_world"

definition jit_edited :: world where
  "jit_edited = snd (jit_edit 0 jit_body)"

definition jit_rendered :: world where
  "jit_rendered = snd (ApplyIntermediateMethodInstrumentation (\<lambda>n. 0) (Ok call_metadata) (\<lambda>sig. Ok 0x11000001) 0 jit_edited)"

lemma jit_edited_method: "fst (jit_edit 0 jit_body) = Ok ()" "map_option m_savedILMap (w_methods jit_edited 0) = Some None"
  by code_simp+

lemma jit_rendered_method:
  "fst (ApplyIntermediateMethodInstrumentation (\<lambda>n. 0) (Ok call_metadata) (\<lambda>sig. Ok 0x11000001) 0 jit_edited) = Ok ()"
  "map_option (\<lambda>mi. (length (m_pIntermediateRenderedMethod mi) < 100, take 2 (drop 12 (m_pIntermediateRenderedMethod mi)) = [0x00, 0x2A],
     map_option (map oldOffset) (m_savedILMap mi) = Some [0, 1])) (w_methods jit_rendered 0) = Some (True, True, True)"
  by code_simp+

lemma jit_module: "fst (GetModuleInfoById sampleRuntime 3 sampleLoaded) = Ok 2" "map_option mod_moduleID (r_modules sampleLoaded 2) = Some 3"
  by code_simp+

lemma jit_sample:
  obtains y mi1 mi2 es where "GetModuleInfoById sampleRuntime 3 sampleLoaded = (Ok 2, sampleLoaded)" "r_modules sampleLoaded 2 = Some y" "mod_moduleID y = 3"
    "jit_edit 0 jit_body = (Ok (), jit_edited)" "w_methods jit_edited 0 = Some mi1" "m_savedILMap mi1 = None"
    "ApplyIntermediateMethodInstrumentation (\<lambda>n. 0) (Ok call_metadata) (\<lambda>sig. Ok 0x11000001) 0 jit_edited = (Ok (), jit_rendered)"
    "w_methods jit_rendered 0 = Some mi2" "length (m_pIntermediateRenderedMethod mi2) < 2 ^ 32" "m_savedILMap mi2 = Some es"
    "take 2 (drop 12 (m_pIntermediateRenderedMethod mi2)) = [0x00, 0x2A]"
proof -
  obtain mi1 where mi1: "w_methods jit_edited 0 = Some mi1" "m_savedILMap mi1 = None" using jit_edited_method(2) by auto
  obtain mi2 es where mi2: "w_methods jit_rendered 0 = Some mi2" "length (m_pIntermediateRenderedMethod mi2) < 2 ^ 32"
    "m_savedILMap mi2 = Some es" "take 2 (drop 12 (m_pIntermediateRenderedMethod mi2)) = [0x00, 0x2A]" using jit_rendered_method(2) by auto
  obtain y where y: "r_modules sampleLoaded 2 = Some y" "mod_moduleID y = 3" using jit_module(2) by auto
  have "jit_edit 0 jit_body = (Ok (), jit_edited)"
    "ApplyIntermediateMethodInstrumentation (\<lambda>n. 0) (Ok call_metadata) (\<lambda>sig. Ok 0x11000001) 0 jit_edited = (Ok (), jit_rendered)"
    "GetModuleInfoById sampleRuntime 3 sampleLoaded = (Ok 2, sampleLoaded)"
    using jit_edited_method(1) jit_rendered_method(1) jit_module(1) GetModuleInfoById_unchanged [of sampleRuntime 3 sampleLoaded]
    by (simp_all add: prod_eq_iff jit_edited_def [symmetric] jit_rendered_def [symmetric])
  with mi1 mi2 y that show thesis by blast
qed

theorem jit_callbacks_leave_no_method_witness:
  "\<exists>t. runCallbacks one_client [CB_JITCompilationStarted 5 True] jit_start = (Ok (), t) \<and>
    j_methodInfos t = Map.empty \<and> mm_methodInfosByToken (j_modules t 2) = Map.empty"
proof -
  obtain y mi1 mi2 es where s: "GetModuleInfoById sampleRuntime 3 sampleLoaded = (Ok 2, sampleLoaded)" "r_modules sampleLoaded 2 = Some y" "mod_moduleID y = 3"
    "jit_edit 0 jit_body = (Ok (), jit_edited)" "w_methods jit_edited 0 = Some mi1" "m_savedILMap mi1 = None"
    "ApplyIntermediateMethodInstrumentation (\<lambda>n. 0) (Ok call_metadata) (\<lambda>sig. Ok 0x11000001) 0 jit_edited = (Ok (), jit_rendered)"
    "w_methods jit_rendered 0 = Some mi2" "length (m_pIntermediateRenderedMethod mi2) < 2 ^ 32" by (rule jit_sample)
  have "JITCompilationStarted one_client 5 True jit_start = (Ok (), compiled jit_start 5 3 0x06000001 2 jit_rendered mi1 mi2)"
    using s by (intro JITCompilationStarted_exec [OF jit_start_quiet, where edit = jit_edit and ?w1.0 = jit_edited]) (auto simp: jit_body_def [symmetric])
  then obtain t where t: "runCallbacks one_client [CB_JITCompilationStarted 5 True] jit_start = (Ok (), t)"
    by (simp add: runCallbacks_def op_defs IfFailRet_def)
  have "methods_fresh jit_start" "j_methodInfos jit_start = Map.empty"
    "mm_methodInfos (j_modules jit_start p) = Map.empty" "mm_methodInfosByToken (j_modules jit_start p) = Map.empty" for p
    using jit_start_quiet by (simp_all add: within_empty)
  then show ?thesis using jit_callbacks_leave_no_method [OF one_client_keeps(1) _ _ _ _ t] t by blast
qed

theorem JITCompilationStarted_order_witness:
  "\<exists>t calls. JITCompilationStarted one_client 5 True jit_start = (Ok (), t) \<and> final_calls 0 calls \<and>
    j_events t = [ToClient 0 (ShouldInstrumentMethod 0 False), ToClient 0 (BeforeInstrumentMethod 0 False), ToClient 0 (InstrumentMethod 0 False)] @
      map ToRuntime calls @ [ToClient 0 (OnInstrumentationComplete 0 False)]"
proof -
  obtain y mi1 mi2 es where s: "GetModuleInfoById sampleRuntime 3 sampleLoaded = (Ok 2, sampleLoaded)" "r_modules sampleLoaded 2 = Some y" "mod_moduleID y = 3"
    "jit_edit 0 jit_body = (Ok (), jit_edited)" "w_methods jit_edited 0 = Some mi1" "m_savedILMap mi1 = None"
    "ApplyIntermediateMethodInstrumentation (\<lambda>n. 0) (Ok call_metadata) (\<lambda>sig. Ok 0x11000001) 0 jit_edited = (Ok (), jit_rendered)"
    "w_methods jit_rendered 0 = Some mi2" "length (m_pIntermediateRenderedMethod mi2) < 2 ^ 32" by (rule jit_sample)
  let ?t = "compiled jit_start 5 3 0x06000001 2 jit_rendered mi1 mi2"
  have t: "JITCompilationStarted one_client 5 True jit_start = (Ok (), ?t)"
    using s by (intro JITCompilationStarted_exec [OF jit_start_quiet, where edit = jit_edit and ?w1.0 = jit_edited]) (auto simp: jit_body_def [symmetric])
  have i: "fst (IsInstrumented 0 ?t) = Ok True"
    using s(8) rendered_is_instrumented [OF s(7,8)]
    by (simp add: IsInstrumented_def bodyAt_def compiled_def Let_def compiling_def op_defs IfFailRet_def)
  obtain s2 u where "SendJitStarted one_client 5 False jit_start = (Ok (), jit_start)" "CreateMethodInfo one_client 5 jit_start = (Ok 0, s2)"
    "ClearILTransformationStatusOf one_client 5 s2 = (Ok (), u)" "linkAt 0 u = (Ok (jitLink 5 0x06000001 2), u)"
    "moduleIdOf (jm_pModuleInfo (jitLink 5 0x06000001 2)) u = (Ok 3, u)"
    using compile_steps [OF jit_start_quiet, of one_client 5 3 "0x06000001" 2 y jit_edit 0] s by auto
  then show ?thesis
    using JITCompilationStarted_order [OF one_client_keeps(2) _ _ _ _ _ _ _ t] i t
    by (fastforce simp: instrumentOrder_def askAll_def startedClients_def rawEvents_def yesPositions_def editor_def op_defs)
qed

theorem JITCompilationStarted_renders_edit_witness:
  "\<exists>t j mi. JITCompilationStarted one_client 5 True jit_start = (Ok (), t) \<and> take 2 (drop 12 (m_pIntermediateRenderedMethod mi)) = [0x00, 0x2A] \<and>
    j_events t = [ToClient 0 (ShouldInstrumentMethod 0 False), ToClient 0 (BeforeInstrumentMethod 0 False), ToClient 0 (InstrumentMethod 0 False)] @
      bodyCalls 3 0x06000001 5 mi @ [ToClient 0 (OnInstrumentationComplete 0 False)] \<and>
    GetILTransformationStatus one_client t (Some ()) (new_CMethodJitInfo 5 S_OK False 0) = (Ok True, j)"
proof -
  obtain y mi1 mi2 es where s: "GetModuleInfoById sampleRuntime 3 sampleLoaded = (Ok 2, sampleLoaded)" "r_modules sampleLoaded 2 = Some y" "mod_moduleID y = 3"
    "jit_edit 0 jit_body = (Ok (), jit_edited)" "w_methods jit_edited 0 = Some mi1" "m_savedILMap mi1 = None"
    "ApplyIntermediateMethodInstrumentation (\<lambda>n. 0) (Ok call_metadata) (\<lambda>sig. Ok 0x11000001) 0 jit_edited = (Ok (), jit_rendered)"
    "w_methods jit_rendered 0 = Some mi2" "length (m_pIntermediateRenderedMethod mi2) < 2 ^ 32" "m_savedILMap mi2 = Some es"
    "take 2 (drop 12 (m_pIntermediateRenderedMethod mi2)) = [0x00, 0x2A]" by (rule jit_sample)
  have "\<exists>t j. JITCompilationStarted one_client 5 True jit_start = (Ok (), t) \<and> within {} t \<and>
    j_events t = j_events jit_start @ [ToClient 0 (ShouldInstrumentMethod 0 False), ToClient 0 (BeforeInstrumentMethod 0 False), ToClient 0 (InstrumentMethod 0 False)] @
      bodyCalls 3 0x06000001 5 mi2 @ [ToClient 0 (OnInstrumentationComplete 0 False)] \<and>
    GetILTransformationStatus one_client t (Some ()) (new_CMethodJitInfo 5 S_OK False 0) = (Ok True, j) \<and>
    GetILInstrumentationMap one_client t (of_nat (length es)) (Some ()) (Some ()) j = (Ok (of_nat (length es), take (unat (of_nat (length es) :: DWORD)) es), j)"
    using s by (intro JITCompilationStarted_renders_edit [OF jit_start_quiet, where edit = jit_edit and ?w1.0 = jit_edited and p = 2]) (auto simp: jit_body_def [symmetric])
  then show ?thesis using s(11) by auto
qed

end
