(* ===== verification/Spec2Isabelle.thy ===== *)
theory Spec2Isabelle
  imports DecodeGraph RenderClaims Disconnect InstrClaims SingleRetClaims InlineSites EngineVersion RuntimeClaims JitRender
begin

text \<open>
  A verification library for the CLR Instrumentation Engine (\<^verbatim>\<open>src/src/InstrumentationEngine\<close>): the part of it that
  reads the code of a method, lets clients edit it, and writes it back, and the part that keeps track of what the runtime has loaded.

  \<^bold>\<open>The program.\<close>  When the runtime compiles a method, the engine decodes its body into a graph of instruction objects
  (\<^verbatim>\<open>InstructionGraph.cpp\<close>, \<^verbatim>\<open>Instruction.cpp\<close>) and a section of exception clauses (\<^verbatim>\<open>ExceptionSection.cpp\<close>,
  \<^verbatim>\<open>ExceptionClause.cpp\<close>).  Instrumentation methods create instructions (\<^verbatim>\<open>InstructionFactory.cpp\<close>), insert, replace and
  remove them, add locals (\<^verbatim>\<open>LocalVariableCollection.cpp\<close>) whose types they make with \<^verbatim>\<open>TypeCreator.cpp\<close>, and the engine may
  itself redirect all returns to one (\<^verbatim>\<open>SingleRetDefaultInstrumentation.cpp\<close>).  Then \<^verbatim>\<open>MethodInfo.cpp\<close> encodes the graph,
  merges the map of offsets, commits the locals, computes the stack depth and renders header, code and exception table
  (\<^verbatim>\<open>CorHeaders.cpp\<close>).  Apart from that \<^verbatim>\<open>ProfilerManager.cpp\<close> receives the events of the runtime; from those that load and unload
  something it keeps objects for application domains, assemblies and modules, and tells the instrumentation methods; on those that compile a
  method it makes a method object, lets the instrumentation methods and a raw profiler work on it, and gives the result to the runtime.

  \<^bold>\<open>The model.\<close>  State is passed explicitly.  The objects of the engine live in the record \<open>world\<close>: instructions, graphs,
  clauses and methods, each a map from addresses to records with the members of the class.  A call yields \<open>Ok\<close>, a failure code,
  \<open>Undef\<close> for what C++ leaves undefined, or \<open>Diverge\<close>, together with the state it leaves; \<open>IfFailRet\<close> and its relatives are the
  macros of the code.  Numbers have the width of the code and wrap as there.

  \<^item> \<^verbatim>\<open>Prelude\<close>: results, the macros, little-endian buffers.
  \<^item> \<^verbatim>\<open>Opcodes\<close>: the table of \<^verbatim>\<open>ILOpcodes.h\<close>; that its rows agree with each other.
  \<^item> \<^verbatim>\<open>CorSig\<close>, \<^verbatim>\<open>SignatureBuilder\<close>: the compressed integers of \<^verbatim>\<open>cor.h\<close>, \<^verbatim>\<open>SigParser.h\<close>, and the growing
    signature buffer; the locale \<open>sig_codec\<close> is what an encoding promises (what is written is read back, also in sequence),
    \<open>sig_writer\<close> extends it with a buffer, and both are interpreted for data, tokens and signed integers.
  \<^item> \<^verbatim>\<open>CorHeaders\<close>: method headers and exception tables in both formats; they read back.
  \<^item> \<^verbatim>\<open>Instructions\<close>, \<^verbatim>\<open>InstrClaims\<close>: instruction objects, decoding of one, operands, the constructors that
    choose the shortest form; which value they denote.
  \<^item> \<^verbatim>\<open>World\<close>, \<^verbatim>\<open>Graph\<close>: the heap, lazy offsets, branch bookkeeping (\<^verbatim>\<open>BranchTargetInfo.cpp\<close>), decoding, encoding,
    lookups of a graph.  \<^verbatim>\<open>GraphOffsets\<close>, \<^verbatim>\<open>EncodeIL\<close>, \<^verbatim>\<open>Decode\<close>, \<^verbatim>\<open>DecodeGraph\<close>: offsets are sums of sizes, the
    encoding is the concatenation of the encodings with branches landing on their targets, decoding and encoding is the identity.
  \<^item> \<^verbatim>\<open>GraphEdits\<close>, \<^verbatim>\<open>Retarget\<close>, \<^verbatim>\<open>EditRefine\<close>, \<^verbatim>\<open>EditSteps\<close>, \<^verbatim>\<open>EditClaims\<close>, \<^verbatim>\<open>Disconnect\<close>: the edits
    refine edits of a list (locales \<open>instruction_sequence\<close> and \<open>retargeting_sequence\<close>, interpreted for graphs), every series of edits and
    queries keeps the body well-formed (the relation \<open>reaches\<close>), references and exception ranges move as they should, and a graph can be destroyed.
  \<^item> \<^verbatim>\<open>Exceptions\<close>, \<^verbatim>\<open>ExceptionOrder\<close>, \<^verbatim>\<open>ExceptionClaims\<close>: clauses over instructions, innermost first, and written
    so that they read back.
  \<^item> \<^verbatim>\<open>Enumerator\<close>, \<^verbatim>\<open>Types\<close>, \<^verbatim>\<open>TypeCreator\<close>, \<^verbatim>\<open>TypeParse\<close>, \<^verbatim>\<open>TypeTyped\<close>, \<^verbatim>\<open>TypeTotal\<close>, \<^verbatim>\<open>TypeClaims\<close>,
    \<^verbatim>\<open>MethodSignature\<close>: type objects, how they write themselves into a signature and how they are read: round trip, well-formedness, and
    termination, by comparison with a reader that reports malformed modifiers and always ends (\<open>checkedFromSignature\<close>).
  \<^item> \<^verbatim>\<open>Locals\<close>, \<^verbatim>\<open>LocalsClaims\<close>: the local variables of a method as a list of types.
  \<^item> \<^verbatim>\<open>MaxStack\<close>, \<^verbatim>\<open>StackPass\<close>, \<^verbatim>\<open>StackBound\<close>: stack effects and the maximal depth, which bounds every run
    (the relation \<open>stack_run\<close>).
  \<^item> \<^verbatim>\<open>MethodBody\<close>, \<^verbatim>\<open>Render\<close>, \<^verbatim>\<open>RenderBody\<close>, \<^verbatim>\<open>RenderClaims\<close>: from the bytes of a method and back to them.
  \<^item> \<^verbatim>\<open>Factory\<close>, \<^verbatim>\<open>FactoryClaims\<close>, \<^verbatim>\<open>SingleRet\<close>, \<^verbatim>\<open>SingleRetClaims\<close>: created instructions can be inserted, and what the
    single return instrumentation does to a method.
  \<^item> \<^verbatim>\<open>MethodProps\<close>: what a method answers about its name, attributes, generic parameters and signature after any sequence of questions.
  \<^item> \<^verbatim>\<open>RuntimeObjects\<close>, \<^verbatim>\<open>RuntimeEvents\<close>: a second store, the record \<open>runtime\<close>, with the domains (\<^verbatim>\<open>AppDomainCollection.cpp\<close>,
    \<^verbatim>\<open>AppDomainInfo.cpp\<close>), assemblies (\<^verbatim>\<open>AssemblyInfo.cpp\<close>), the links of modules to them and what was sent to clients; then the
    callbacks of \<^verbatim>\<open>ProfilerManager.cpp\<close> that load and unload (\<open>deliver\<close>).
  \<^item> \<^verbatim>\<open>RuntimeInv\<close>, \<^verbatim>\<open>RuntimeClaims\<close>: weakest preconditions (\<open>wp\<close>, which excludes undefined behaviour), the invariant \<open>loaded_ok\<close>
    that every sequence of callbacks keeps, and what the shutdown of a domain reports; the locale \<open>unloading\<close> is what the removal of
    one object promises, and is interpreted for modules and for assemblies.
  \<^item> \<^verbatim>\<open>JitObjects\<close>, \<^verbatim>\<open>JitEvents\<close>: the record \<open>jit\<close> puts both stores together and adds the registries of method objects
    (\<^verbatim>\<open>ModuleInfo.cpp\<close>, \<^verbatim>\<open>ProfilerManager.cpp\<close>) and what was sent; the final body, the interface of raw profilers
    (\<^verbatim>\<open>CorProfilerInfoWrapper.cpp\<close>), the callbacks that compile, recompile and inline (\<open>deliverJit\<close>), and \<^verbatim>\<open>MethodJitInfo.cpp\<close>.
  \<^item> \<^verbatim>\<open>JitInv\<close>, \<^verbatim>\<open>JitReg\<close>, \<^verbatim>\<open>JitClaims\<close>, \<^verbatim>\<open>JitRender\<close>: the locale \<open>kept\<close> is a preorder on states and how calls that
    keep it are put together, interpreted for the registries, for what was sent, for the bodies, and for the state itself; with it, that no method object
    stays registered, the order of calls (\<open>sends\<close>: what a call sends and how it ends), and that the runtime gets the rendering of the edited body.
  \<^item> \<^verbatim>\<open>InlineSites\<close>: which methods inlined a method (locale \<open>site_registry\<close>).
  \<^item> \<^verbatim>\<open>EngineVersion\<close>: the profiler proxy's parser, comparison and choice of versions.

  \<^bold>\<open>Bounds and fuel.\<close>  Loops over a graph get as much fuel as there are objects (\<open>walk_fuel\<close>, \<open>offset_fuel\<close>), which is enough for a
  list without a cycle, and the theorems show it; on a cyclic list they answer \<open>Diverge\<close>, as the code would run forever.  Decoding gets one unit per
  byte.  Reading a type nests at later positions only, so the length of the signature bounds it; the loop over custom modifiers, which the code may not leave,
  gets one more than the bytes, and \<open>FromSignature_ends\<close> says exactly when that is not enough.  The code of a method is below 4 GB where the code adds
  sizes as 32-bit numbers (\<open>encodable\<close>).

  \<^bold>\<open>Parameters.\<close>  The metadata of the runtime (\<open>metadata\<close>, the token a signature gets), the contents of fresh memory (\<open>garbage\<close>), the file system and
  environment of the proxy, and \<open>runtimeEnv\<close>: what the runtime answers about domains, assemblies and modules, the instrumentation methods, and the order in which a
  hash map is traversed; \<open>jitEnv\<close> adds what it says about functions and IL, and what the clients do when they are called.  Theorems that need something of them say so, and their witnesses give a concrete instance.

  \<^bold>\<open>Not modelled.\<close>  Reference counts and locks: objects are not freed while a call uses them, and calls do not interleave.  Running out of memory.
  The start of the engine and the callbacks and queries that only forward (the rest of \<^verbatim>\<open>ProfilerManager.cpp\<close> and
  \<^verbatim>\<open>CorProfilerInfoWrapper.cpp\<close>), the file of a module (its headers and version), the assembly injector, the names of types (and with them the
  full names of methods), logging, configuration and loading of libraries: they forward to the runtime or the operating system and keep what these report.
\<close>

end
